(* ===== verification/Prelude.thy ===== *)
theory Prelude
  imports Complex_Main "HOL-Library.Char_ord" "HOL-Library.List_Lexorder" "HOL-Library.Log_Nat"
begin

text \<open>
  Shared vocabulary of the development: Python values that several components
  handle (text, timestamps, binary64 floats), results that may be an exception,
  and the generic list lemmas the component proofs use.

  A Python \<open>str\<close> is a \<open>string\<close> whose characters are the code points
  U+0000 to U+00FF; its order is the code-point order of \<open>List_Lexorder\<close> and
  \<open>Char_ord\<close>. A \<open>datetime\<close> is an \<open>int\<close>: microseconds since the epoch in UTC
  (every timestamp of the program is timezone-aware UTC). An exception is the
  \<open>Inl\<close> of a sum, a normal return its \<open>Inr\<close>.
\<close>

named_theorems py_defs "unfolding equations of the small Python helper functions"
named_theorems rank_simps "numeric ranks of the ordered enumerations"
named_theorems state_machine "transition-table facts"

type_synonym datetime = int

section \<open>Results that may raise\<close>

definition is_ok :: "'e + 'a \<Rightarrow> bool" where
  "is_ok r = (case r of Inl _ \<Rightarrow> False | Inr _ \<Rightarrow> True)"

lemma is_ok_simps [simp]: "is_ok (Inr x)" "\<not> is_ok (Inl e)"
  by (simp_all add: is_ok_def)

lemma is_ok_iff: "is_ok r \<longleftrightarrow> (\<exists>x. r = Inr x)"
  by (cases r) simp_all

text \<open>Sequencing: an exception ends the computation.\<close>

definition bind_sum :: "'e + 'a \<Rightarrow> ('a \<Rightarrow> 'e + 'b) \<Rightarrow> 'e + 'b" where
  "bind_sum r f = (case r of Inl e \<Rightarrow> Inl e | Inr x \<Rightarrow> f x)"

lemma bind_sum_simps [simp]: "bind_sum (Inr x) f = f x" "bind_sum (Inl e) f = Inl e"
  by (simp_all add: bind_sum_def)

lemma bind_sum_InrE: "bind_sum r f = Inr y \<longleftrightarrow> (\<exists>x. r = Inr x \<and> f x = Inr y)"
  by (cases r) simp_all

section \<open>Text\<close>

text \<open>\<open>str.isspace\<close> on the code points below U+0100.\<close>

definition py_space :: "char \<Rightarrow> bool" where
  "py_space c = (let n = of_char c :: nat in
     (9 \<le> n \<and> n \<le> 13) \<or> (28 \<le> n \<and> n \<le> 32) \<or> n = 133 \<or> n = 160)"

definition py_strip :: "string \<Rightarrow> string" where
  "py_strip s = rev (dropWhile py_space (rev (dropWhile py_space s)))"

fun py_join :: "string \<Rightarrow> string list \<Rightarrow> string" where
  "py_join sep [] = []"
| "py_join sep [x] = x"
| "py_join sep (x # y # ys) = x @ sep @ py_join sep (y # ys)"

definition quoted :: "string \<Rightarrow> string" where
  "quoted s = [CHR 0x27] @ s @ [CHR 0x27]"

text \<open>\<open>x or y\<close> for text: the empty string is falsy.\<close>

definition str_or :: "string \<Rightarrow> string \<Rightarrow> string" where
  "str_or x y = (if x = [] then y else x)"

text \<open>\<open>x or None\<close> and \<open>x or ""\<close>: an empty text column is stored as NULL and read back as \<open>""\<close>.\<close>

definition none_if_empty :: "string \<Rightarrow> string option" where
  "none_if_empty s = (if s = [] then None else Some s)"

definition empty_if_none :: "string option \<Rightarrow> string" where
  "empty_if_none x = (case x of None \<Rightarrow> [] | Some s \<Rightarrow> s)"

lemma empty_if_none_none_if_empty [simp]: "empty_if_none (none_if_empty s) = s"
  by (simp add: empty_if_none_def none_if_empty_def)

lemma empty_if_none_simps [simp]: "empty_if_none None = []" "empty_if_none (Some s) = s"
  by (simp_all add: empty_if_none_def)

text \<open>\<open>str.split(d)\<close>.\<close>

fun split_on :: "char \<Rightarrow> string \<Rightarrow> string list" where
  "split_on d [] = [[]]"
| "split_on d (c # cs) = (if c = d then [] # split_on d cs
     else (case split_on d cs of [] \<Rightarrow> [[c]] | s # ss \<Rightarrow> (c # s) # ss))"

text \<open>\<open>str.lower\<close> on the code points below U+0100.\<close>

definition py_lower_char :: "char \<Rightarrow> char" where
  "py_lower_char c = (let n = of_char c :: nat in
     if (65 \<le> n \<and> n \<le> 90) \<or> (192 \<le> n \<and> n \<le> 222 \<and> n \<noteq> 215) then char_of (n + 32) else c)"

definition py_lower :: "string \<Rightarrow> string" where
  "py_lower s = map py_lower_char s"

text \<open>Decimal and lower-case hexadecimal digits.\<close>

definition digit_char :: "nat \<Rightarrow> char" where
  "digit_char d = (if d < 10 then char_of (48 + d) else char_of (87 + d))"

fun nat_digits :: "nat \<Rightarrow> string" where
  "nat_digits n = (if n < 10 then [digit_char n] else nat_digits (n div 10) @ [digit_char (n mod 10)])"

declare nat_digits.simps [simp del]

definition int_str :: "int \<Rightarrow> string" where
  "int_str i = (if i < 0 then CHR ''-'' # nat_digits (nat (- i)) else nat_digits (nat i))"

section \<open>Timestamps\<close>

text \<open>\<open>datetime.isoformat()\<close> of a UTC timestamp: the civil date of the day number in the proleptic
  Gregorian calendar, counting years from March, and the fraction only when it is not zero.\<close>

definition zero_padded :: "nat \<Rightarrow> int \<Rightarrow> string" where
  "zero_padded width i = (let ds = int_str i in replicate (width - length ds) (CHR ''0'') @ ds)"

definition civil_date :: "int \<Rightarrow> int \<times> int \<times> int" where
  "civil_date days = (let
     z = days + 719468; doe = z mod 146097;
     yoe = (doe - doe div 1460 + doe div 36524 - doe div 146096) div 365;
     doy = doe - (365 * yoe + yoe div 4 - yoe div 100); mp = (5 * doy + 2) div 153;
     m = (if mp < 10 then mp + 3 else mp - 9)
   in (yoe + z div 146097 * 400 + (if m \<le> 2 then 1 else 0), m, doy - (153 * mp + 2) div 5 + 1))"

definition iso_format :: "datetime \<Rightarrow> string" where
  "iso_format t = (let
     (y, m, d) = civil_date (t div 86400000000); us = t mod 86400000000; s = us div 1000000; f = us mod 1000000
   in zero_padded 4 y @ ''-'' @ zero_padded 2 m @ ''-'' @ zero_padded 2 d @ ''T'' @
      zero_padded 2 (s div 3600) @ '':'' @ zero_padded 2 (s div 60 mod 60) @ '':'' @ zero_padded 2 (s mod 60) @
      (if f = 0 then [] else ''.'' @ zero_padded 6 f) @ ''+00:00'')"

section \<open>Binary64 floats\<close>

text \<open>
  A Python \<open>float\<close>: a finite dyadic rational, an infinity or NaN. Sums are rounded
  to nearest, ties to even, on 53-bit significands with gradual underflow at
  \<open>2\<^sup>-\<^sup>1\<^sup>0\<^sup>7\<^sup>4\<close>; the sign of zero is not kept, since no operation used here observes it.
\<close>

datatype py_float = Fin rat | PInf | NInf | NaN

definition pow2 :: "int \<Rightarrow> rat" where
  "pow2 e = (if 0 \<le> e then 2 ^ nat e else 1 / 2 ^ nat (- e))"

definition float_exponent :: "rat \<Rightarrow> int" where
  "float_exponent x = (case quotient_of x of (n, d) \<Rightarrow>
     (let e = bitlen n - bitlen d in if pow2 e \<le> x then e else e - 1))"

definition round_half_even :: "rat \<Rightarrow> int" where
  "round_half_even x = (let f = \<lfloor>x\<rfloor>; r = x - of_int f in
     if r < 1 / 2 then f else if 1 / 2 < r then f + 1 else if even f then f else f + 1)"

definition round64 :: "rat \<Rightarrow> py_float" where
  "round64 x = (if x = 0 then Fin 0
     else let u = pow2 (max (float_exponent \<bar>x\<bar> - 52) (-1074));
              y = of_int (round_half_even (x / u)) * u
          in if pow2 1024 \<le> y then PInf else if y \<le> - pow2 1024 then NInf else Fin y)"

lemma bitlen_small: "bitlen 1 = 1" "bitlen 2 = 2" "bitlen 3 = 2"
  by (simp_all add: compute_bitlen)

lemma round64_small: "round64 1 = Fin 1" "round64 2 = Fin 2" "round64 3 = Fin 3"
  by (simp_all add: round64_def pow2_def float_exponent_def quotient_of_number bitlen_small round_half_even_def Let_def)

text \<open>Whole numbers up to \<open>2\<^sup>5\<^sup>3\<close> are exact.\<close>

lemma round_half_even_int: "round_half_even (of_int i) = i"
  by (simp add: round_half_even_def Let_def)

lemma pow2_scale: "x / pow2 (- int k) = x * 2 ^ k" "pow2 (- int k) > 0"
proof -
  have "pow2 (- int k) = 1 / 2 ^ k" by (cases "k = 0") (simp_all add: pow2_def)
  then show "x / pow2 (- int k) = x * 2 ^ k" "pow2 (- int k) > 0" by simp_all
qed

lemma float_exponent_nat:
  assumes "0 < n"
  shows "\<exists>e. float_exponent (of_nat n) = int e \<and> 2 ^ e \<le> n"
proof -
  have b: "bitlen (int n) > 0" "2 ^ nat (bitlen (int n) - 1) \<le> int n"
    using bitlen_bounds [of "int n"] bitlen_ge_iff_power [of 1 "int n"] assms by simp_all
  define e where "e = nat (bitlen (int n) - 1)"
  have e: "bitlen (int n) - 1 = int e" using b(1) by (simp add: e_def)
  have le: "2 ^ e \<le> n" using b(2) unfolding e_def [symmetric] by (metis of_nat_le_iff of_nat_numeral of_nat_power)
  then have "pow2 (int e) \<le> (of_nat n :: rat)" by (metis nat_int of_nat_0_le_iff of_nat_le_iff of_nat_numeral of_nat_power pow2_def)
  moreover have "quotient_of (of_nat n) = (int n, 1)" using quotient_of_int [of "int n"] by simp
  ultimately show ?thesis using le e by (auto simp: float_exponent_def bitlen_small Let_def)
qed

lemma round64_whole:
  assumes "n \<le> 2 ^ 53"
  shows "round64 (of_nat n) = Fin (of_nat n)"
proof (cases "n = 0")
  case False
  obtain e where e: "float_exponent (of_nat n) = int e" "2 ^ e \<le> n" using float_exponent_nat [of n] False by auto
  have big: "(of_nat n :: rat) < pow2 1024"
  proof -
    have "n < 2 ^ 1024" using assms by (rule le_less_trans) (simp add: power_strict_increasing)
    then have "(of_nat n :: rat) < of_nat (2 ^ 1024)" by (simp only: of_nat_less_iff)
    then show ?thesis by (simp add: pow2_def)
  qed
  show ?thesis
  proof (cases "e \<le> 52")
    case True
    define k where "k = 52 - e"
    have "max (int e - 52) (- 1074) = - int k" using True by (simp add: k_def)
    then have u: "pow2 (max (float_exponent \<bar>of_nat n\<bar> - 52) (- 1074)) = pow2 (- int k)" using e(1) by simp
    have "of_nat n / pow2 (- int k) = of_int (int n * 2 ^ k)" by (simp add: pow2_scale(1))
    then have r: "round_half_even (of_nat n / pow2 (- int k)) = int n * 2 ^ k" by (simp only: round_half_even_int)
    have y: "of_int (int n * 2 ^ k) * pow2 (- int k) = (of_nat n :: rat)"
      using pow2_scale(1) [of 1 k] pow2_scale(2) [of k] by (simp add: field_simps)
    have "\<not> of_nat n \<le> - pow2 1024"
    proof -
      have "- pow2 1024 < 0" by (simp add: pow2_def)
      then show ?thesis by (meson not_le of_nat_0_le_iff order_less_le_trans)
    qed
    then show ?thesis using False big unfolding round64_def Let_def u r y by simp
  next
    case e53: False
    then have "(2 :: nat) ^ 53 \<le> 2 ^ e" by (intro power_increasing) simp_all
    then have "n = 2 ^ 53" using e(2) assms by simp
    moreover have "e = 53" 
    proof -
      have "(2::nat) ^ e \<le> 2 ^ 53" using e(2) assms by (rule order_trans)
      then have "e \<le> 53" by (rule power_le_imp_le_exp [rotated]) simp
      then show ?thesis using e53 by simp
    qed
    ultimately show ?thesis using e(1) by (simp add: round64_def Let_def pow2_def round_half_even_def)
  qed
qed (simp add: round64_def)

fun float_add :: "py_float \<Rightarrow> py_float \<Rightarrow> py_float" where
  "float_add (Fin a) (Fin b) = round64 (a + b)"
| "float_add NaN _ = NaN"
| "float_add _ NaN = NaN"
| "float_add PInf NInf = NaN"
| "float_add NInf PInf = NaN"
| "float_add PInf _ = PInf"
| "float_add _ PInf = PInf"
| "float_add NInf _ = NInf"
| "float_add _ NInf = NInf"

fun float_neg :: "py_float \<Rightarrow> py_float" where
  "float_neg (Fin a) = Fin (- a)"
| "float_neg PInf = NInf"
| "float_neg NInf = PInf"
| "float_neg NaN = NaN"

definition float_sub :: "py_float \<Rightarrow> py_float \<Rightarrow> py_float" where
  "float_sub x y = float_add x (float_neg y)"

fun float_le :: "py_float \<Rightarrow> py_float \<Rightarrow> bool" where
  "float_le (Fin a) (Fin b) = (a \<le> b)"
| "float_le NaN _ = False"
| "float_le _ NaN = False"
| "float_le NInf _ = True"
| "float_le _ PInf = True"
| "float_le _ NInf = False"
| "float_le PInf _ = False"

definition float_gt :: "py_float \<Rightarrow> py_float \<Rightarrow> bool" where
  "float_gt x y = (float_le y x \<and> \<not> float_le x y)"

text \<open>Truth value: every float but zero, NaN included.\<close>

definition float_truthy :: "py_float \<Rightarrow> bool" where
  "float_truthy x = (x \<noteq> Fin 0)"

lemma float_not_gt: "\<lbrakk>\<not> float_gt x y; x \<noteq> NaN; y \<noteq> NaN\<rbrakk> \<Longrightarrow> float_le x y"
  by (cases x; cases y) (auto simp: float_gt_def)

section \<open>Lists\<close>

lemma find_Some_mem: "List.find P xs = Some x \<Longrightarrow> x \<in> set xs \<and> P x"
  by (induction xs) (auto split: if_splits)

lemma find_None_iff': "List.find P xs = None \<longleftrightarrow> (\<forall>x \<in> set xs. \<not> P x)"
  by (induction xs) auto

lemma py_strip_empty_iff: "py_strip s = [] \<longleftrightarrow> (\<forall>c \<in> set s. py_space c)"
proof -
  have "(\<forall>c \<in> set (dropWhile py_space s). py_space c) \<longleftrightarrow> dropWhile py_space s = []"
  proof (cases "dropWhile py_space s")
    case (Cons c cs)
    then have "\<not> py_space c" by (simp add: dropWhile_eq_Cons_conv)
    with Cons show ?thesis by simp
  qed (auto dest: set_dropWhileD)
  then show ?thesis by (simp add: py_strip_def)
qed

end
