(* ===== verification/Interleaving.thy ===== *)
theory Interleaving
  imports Prelude
begin

text \<open>
  Coroutines over one database. A coroutine's body is a step function: what it was called with, the database and
  its own place give the next database and place, one awaited call each. The event loop may let any coroutine go next,
  and one that crashed is never let go again. The locale \<open>rely_guarantee\<close> is how an invariant of all interleavings
  is proved from one step; \<open>ranked_body\<close> how a call is proved to return whatever the others do.
\<close>

definition schedule :: "('q \<Rightarrow> 'd \<Rightarrow> 'c \<Rightarrow> 'd \<times> 'c) \<Rightarrow> nat \<Rightarrow> 'd \<times> ('q \<times> 'c) list \<Rightarrow> 'd \<times> ('q \<times> 'c) list" where
  "schedule step i st = (case st of (db, cs) \<Rightarrow>
     if i < length cs then
       (let (q, c) = cs ! i; (db', c') = step q db c in (db', cs[i := (q, c')]))
     else st)"

inductive interleaved :: "('q \<Rightarrow> 'd \<Rightarrow> 'c \<Rightarrow> 'd \<times> 'c) \<Rightarrow> 'd \<times> ('q \<times> 'c) list \<Rightarrow> 'd \<times> ('q \<times> 'c) list \<Rightarrow> bool"
  for step where
  interleaved_refl: "interleaved step st st"
| interleaved_step: "interleaved step st st' \<Longrightarrow> interleaved step st (schedule step i st')"

lemma interleaved_fold: "interleaved step st st' \<Longrightarrow> interleaved step st (fold (schedule step) sched st')"
proof (induction sched arbitrary: st')
  case (Cons i sched)
  then show ?case using interleaved_step [OF Cons.prems, of i] by (simp only: fold.simps comp_apply)
qed simp

lemma schedule_simps:
  "i < length cs \<Longrightarrow> cs ! i = (q, c) \<Longrightarrow> step q db c = (db', c') \<Longrightarrow> schedule step i (db, cs) = (db', cs[i := (q, c')])"
  "\<not> i < length cs \<Longrightarrow> schedule step i (db, cs) = (db, cs)"
  by (simp_all add: schedule_def)

section \<open>Rely and guarantee\<close>

text \<open>\<open>ok q db c\<close>: a caller at \<open>c\<close> may go on in \<open>db\<close>; \<open>le db db'\<close>: what a step may do to the database. A step guarantees
  \<open>le\<close>, and \<open>le\<close> keeps what the others rely on.\<close>

locale rely_guarantee =
  fixes step :: "'q \<Rightarrow> 'd \<Rightarrow> 'c \<Rightarrow> 'd \<times> 'c"
    and ok :: "'q \<Rightarrow> 'd \<Rightarrow> 'c \<Rightarrow> bool"
    and le :: "'d \<Rightarrow> 'd \<Rightarrow> bool"
  assumes le_refl: "le d d"
    and le_trans: "\<lbrakk>le d d1; le d1 d2\<rbrakk> \<Longrightarrow> le d d2"
    and guarantee: "\<lbrakk>ok q d c; step q d c = (d', c')\<rbrakk> \<Longrightarrow> le d d' \<and> ok q d' c'"
    and rely: "\<lbrakk>ok q d c; le d d'\<rbrakk> \<Longrightarrow> ok q d' c"
begin

lemma schedule_le:
  assumes "\<forall>(q, c) \<in> set cs. ok q db c" "schedule step i (db, cs) = (db', cs')"
  shows "le db db' \<and> (\<forall>(q, c) \<in> set cs'. ok q db' c)"
proof (cases "i < length cs")
  case True
  obtain q c where qc: "cs ! i = (q, c)" by (cases "cs ! i")
  obtain d' c' where s: "step q db c = (d', c')" by fastforce
  have eq: "db' = d'" "cs' = cs[i := (q, c')]" using assms(2) True qc s by (simp_all add: schedule_def)
  have "(q, c) \<in> set cs" using True qc by (metis nth_mem)
  then have g: "le db d' \<and> ok q d' c'" using assms(1) guarantee [OF _ s] by blast
  have "ok p d' e" if "(p, e) \<in> set cs'" for p e
  proof (cases "(p, e) = (q, c')")
    case False
    then have "(p, e) \<in> set cs" using that set_update_subset_insert [of cs i "(q, c')"] eq(2) by auto
    then show ?thesis using assms(1) g rely by blast
  qed (use g in simp)
  then show ?thesis using g eq(1) by blast
next
  case False
  then show ?thesis using assms le_refl by (simp add: schedule_simps)
qed

theorem interleaved_le:
  assumes "interleaved step (db, cs) (db', cs')" "\<And>q c. (q, c) \<in> set cs \<Longrightarrow> ok q db c"
  shows "le db db' \<and> (\<forall>(q, c) \<in> set cs'. ok q db' c)"
  using assms
proof (induction "(db, cs)" "(db', cs')" arbitrary: db' cs' rule: interleaved.induct)
  case (interleaved_step st' i)
  obtain d1 cs1 where st': "st' = (d1, cs1)" by (cases st')
  have IH: "le db d1" "\<forall>(q, c) \<in> set cs1. ok q d1 c" using interleaved_step.hyps(2) [OF st' interleaved_step.prems] by blast+
  have "schedule step i (d1, cs1) = (db', cs')" using interleaved_step.hyps(3) st' by simp
  from schedule_le [OF IH(2) this] show ?case using le_trans [OF IH(1)] by blast
qed (use le_refl in auto)

end

section \<open>Returning\<close>

text \<open>A measure that every step before the end decreases, in whatever database the step finds: the databases of the
  steps are any sequence.\<close>

fun interfered :: "('q \<Rightarrow> 'd \<Rightarrow> 'c \<Rightarrow> 'd \<times> 'c) \<Rightarrow> 'q \<Rightarrow> (nat \<Rightarrow> 'd) \<Rightarrow> nat \<Rightarrow> 'c \<Rightarrow> 'c" where
  "interfered step q dbs 0 c = c"
| "interfered step q dbs (Suc n) c = snd (step q (dbs n) (interfered step q dbs n c))"

locale ranked_body =
  fixes step :: "'q \<Rightarrow> 'd \<Rightarrow> 'c \<Rightarrow> 'd \<times> 'c"
    and finished :: "'c \<Rightarrow> bool"
    and rank :: "('c \<times> 'c) set"
  assumes wf_rank: "wf rank"
    and decreases: "\<not> finished c \<Longrightarrow> (snd (step q d c), c) \<in> rank"
begin

theorem returns: "\<exists>n. finished (interfered step q dbs n c)"
proof (rule ccontr)
  assume "\<nexists>n. finished (interfered step q dbs n c)"
  then have "(interfered step q dbs (Suc n) c, interfered step q dbs n c) \<in> rank" for n
    using decreases by simp
  then show False using wf_rank unfolding wf_iff_no_infinite_down_chain
    by (elim notE) (rule exI [of _ "\<lambda>n. interfered step q dbs n c"], rule allI)
qed

end

end
