(* ===== verification/Json.thy ===== *)
theory Json
  imports Prelude
begin

text \<open>
  JSON values as \<open>dict[str, Any]\<close> payloads carry them (\<open>Action.inputs\<close>, results,
  metadata), and the standard library's \<open>json.dumps\<close> with \<open>sort_keys=True\<close> and
  \<open>ensure_ascii=True\<close>, which the program uses for every digest and every stored
  document. A float is carried by its \<open>repr\<close>, the text \<open>json.dumps\<close> writes for it.
  \<open>Canonical_Json\<close> shows that the printer is injective up to the order of dictionary keys.
\<close>

datatype json =
    JNull
  | JBool bool
  | JInt int
  | JFloat string
  | JStr string
  | JArr "json list"
  | JObj "(string \<times> json) list"

section \<open>The printer\<close>

definition hex4 :: "nat \<Rightarrow> string" where
  "hex4 n = map digit_char [n div 4096 mod 16, n div 256 mod 16, n div 16 mod 16, n mod 16]"

definition json_escape_char :: "char \<Rightarrow> string" where
  "json_escape_char c = (let n = of_char c :: nat in
     if c = CHR 0x22 then [CHR 0x5C, CHR 0x22]
     else if c = CHR 0x5C then [CHR 0x5C, CHR 0x5C]
     else if n = 10 then [CHR 0x5C, CHR ''n'']
     else if n = 13 then [CHR 0x5C, CHR ''r'']
     else if n = 9 then [CHR 0x5C, CHR ''t'']
     else if n = 12 then [CHR 0x5C, CHR ''f'']
     else if n = 8 then [CHR 0x5C, CHR ''b'']
     else if 32 \<le> n \<and> n \<le> 126 then [c]
     else [CHR 0x5C, CHR ''u''] @ hex4 n)"

definition json_quote :: "string \<Rightarrow> string" where
  "json_quote s = [CHR 0x22] @ concat (map json_escape_char s) @ [CHR 0x22]"

text \<open>\<open>json_dumps isep ksep v\<close>: \<open>json.dumps(v, sort_keys=True, separators=(isep, ksep))\<close>.\<close>

primrec json_dumps :: "string \<Rightarrow> string \<Rightarrow> json \<Rightarrow> string" where
  "json_dumps isep ksep JNull = ''null''"
| "json_dumps isep ksep (JBool b) = (if b then ''true'' else ''false'')"
| "json_dumps isep ksep (JInt i) = int_str i"
| "json_dumps isep ksep (JFloat r) = r"
| "json_dumps isep ksep (JStr s) = json_quote s"
| "json_dumps isep ksep (JArr vs) = ''['' @ py_join isep (map (json_dumps isep ksep) vs) @ '']''"
| "json_dumps isep ksep (JObj kvs) = ''{'' @ py_join isep
     (map (\<lambda>(k, t). json_quote k @ ksep @ t)
       (sort_key fst (map (map_prod id (json_dumps isep ksep)) kvs))) @ ''}''"

definition json_compact :: "json \<Rightarrow> string" where
  "json_compact = json_dumps '','' '':''"

definition json_default :: "json \<Rightarrow> string" where
  "json_default = json_dumps '', '' '': ''"

text \<open>\<open>dict.get(key)\<close> on a payload.\<close>

definition obj_get :: "(string \<times> json) list \<Rightarrow> string \<Rightarrow> json option" where
  "obj_get kvs k = map_of kvs k"

end
