(* ===== verification/Canonical_Json.thy ===== *)
theory Canonical_Json
  imports Json
begin

text \<open>
  Canonical JSON texts determine payloads. \<open>json_norm\<close> sorts the keys of every object; the
  printer of \<open>Json\<close> is an unsorted printer after it, and in front of a delimiter that printer is
  uniquely decodable. So two payloads with one text are equal up to the order of keys
  (\<open>json_dumps_inj\<close>), provided their floats are written the way Python writes floats.
\<close>

section \<open>Normal forms\<close>

primrec json_norm :: "json \<Rightarrow> json" where
  "json_norm JNull = JNull"
| "json_norm (JBool b) = JBool b"
| "json_norm (JInt i) = JInt i"
| "json_norm (JFloat r) = JFloat r"
| "json_norm (JStr s) = JStr s"
| "json_norm (JArr vs) = JArr (map json_norm vs)"
| "json_norm (JObj kvs) = JObj (sort_key fst (map (map_prod id json_norm) kvs))"

primrec json_print :: "string \<Rightarrow> string \<Rightarrow> json \<Rightarrow> string" where
  "json_print isep ksep JNull = ''null''"
| "json_print isep ksep (JBool b) = (if b then ''true'' else ''false'')"
| "json_print isep ksep (JInt i) = int_str i"
| "json_print isep ksep (JFloat r) = r"
| "json_print isep ksep (JStr s) = json_quote s"
| "json_print isep ksep (JArr vs) = ''['' @ py_join isep (map (json_print isep ksep) vs) @ '']''"
| "json_print isep ksep (JObj kvs) = ''{'' @ py_join isep
     (map (\<lambda>(k, t). json_quote k @ ksep @ t) (map (map_prod id (json_print isep ksep)) kvs)) @ ''}''"

lemma insort_key_map: "insort_key f (g x) (map g xs) = map g (insort_key (\<lambda>x. f (g x)) x xs)"
  by (induction xs) auto

lemma sort_key_map: "sort_key f (map g xs) = map g (sort_key (\<lambda>x. f (g x)) xs)"
  by (induction xs) (auto simp: insort_key_map)

lemma json_dumps_print: "json_dumps isep ksep v = json_print isep ksep (json_norm v)"
proof (induction v)
  case (JObj kvs)
  have "\<forall>(k, t) \<in> set kvs. json_dumps isep ksep t = json_print isep ksep (json_norm t)"
    using JObj by fastforce
  then show ?case
    by (auto simp: sort_key_map o_def intro!: arg_cong [where f = "py_join isep"] map_cong)
next
  case (JArr vs)
  then show ?case by (simp add: o_def cong: map_cong)
qed simp_all

subsection \<open>Quoted strings\<close>

lemma digit_char_inj: "d < 16 \<Longrightarrow> e < 16 \<Longrightarrow> digit_char d = digit_char e \<Longrightarrow> d = e"
proof -
  assume "d < 16" "e < 16" "digit_char d = digit_char e"
  then have "(of_char (digit_char d) :: nat) = of_char (digit_char e)" by simp
  with \<open>d < 16\<close> \<open>e < 16\<close> show ?thesis by (simp add: digit_char_def split: if_splits)
qed

lemma hex4_inj: "m < 256 \<Longrightarrow> n < 256 \<Longrightarrow> hex4 m @ x = hex4 n @ y \<Longrightarrow> m = n \<and> x = y"
proof -
  assume *: "m < 256" "n < 256" "hex4 m @ x = hex4 n @ y"
  then have "m div 16 mod 16 = n div 16 mod 16" "m mod 16 = n mod 16" "x = y"
    by (auto simp: hex4_def intro: digit_char_inj)
  moreover have "m div 16 < 16" "n div 16 < 16" using * by auto
  ultimately show ?thesis by (metis div_mult_mod_eq mod_less)
qed

lemma of_char_eq: "(of_char c :: nat) = n \<Longrightarrow> c = char_of n"
  by auto

lemma json_escape_char_prefix:
  assumes "json_escape_char c @ x = json_escape_char d @ y"
  shows "c = d \<and> x = y"
proof -
  have "(of_char c :: nat) < 256" "(of_char d :: nat) < 256" by simp_all
  note hex = hex4_inj [OF this]
  show ?thesis
    using assms
    by (auto simp: json_escape_char_def Let_def dest: hex of_char_eq split: if_splits)
qed

lemma json_escape_char_head: "\<exists>h t. json_escape_char c = h # t \<and> h \<noteq> CHR 0x22"
  by (simp add: json_escape_char_def Let_def)

lemma escaped_prefix:
  "concat (map json_escape_char a) @ CHR 0x22 # x = concat (map json_escape_char b) @ CHR 0x22 # y \<Longrightarrow>
     a = b \<and> x = y"
proof (induction a arbitrary: b)
  case Nil
  then show ?case using json_escape_char_head [of "hd b"] by (cases b) auto
next
  case (Cons c a)
  obtain d b' where b: "b = d # b'"
    using Cons.prems json_escape_char_head [of c] by (cases b) auto
  then have "c = d \<and> concat (map json_escape_char a) @ CHR 0x22 # x =
      concat (map json_escape_char b') @ CHR 0x22 # y"
    using Cons.prems json_escape_char_prefix [of c "concat (map json_escape_char a) @ CHR 0x22 # x" d] by simp
  then show ?case using Cons.IH [of b'] b by simp
qed

lemma json_quote_prefix: "json_quote a @ x = json_quote b @ y \<Longrightarrow> a = b \<and> x = y"
  by (rule escaped_prefix) (simp add: json_quote_def)

subsection \<open>Numbers and keywords\<close>

text \<open>Reading the digits back.\<close>

definition digits_value :: "string \<Rightarrow> nat" where
  "digits_value s = foldl (\<lambda>n c. 10 * n + (of_char c - 48)) 0 s"

lemma digits_value_nat_digits: "digits_value (nat_digits n) = n"
proof (induction n rule: nat_digits.induct)
  case (1 n)
  have d: "d < 10 \<Longrightarrow> of_char (digit_char d) - 48 = d" for d :: nat by (simp add: digit_char_def)
  show ?case
  proof (cases "n < 10")
    case True
    then show ?thesis by (simp add: nat_digits.simps [of n] digits_value_def d)
  next
    case False
    with 1 have "foldl (\<lambda>n c. 10 * n + (of_char c - 48)) 0 (nat_digits (n div 10)) = n div 10"
      by (simp add: digits_value_def)
    with False show ?thesis by (simp add: nat_digits.simps [of n] digits_value_def d)
  qed
qed

lemma nat_digits_inj: "nat_digits m = nat_digits n \<Longrightarrow> m = n"
  by (metis digits_value_nat_digits)

definition digit_code :: "char \<Rightarrow> bool" where
  "digit_code c = ((of_char c :: nat) \<in> {48..57})"

lemma nat_digits_code: "c \<in> set (nat_digits n) \<Longrightarrow> digit_code c"
proof (induction n rule: nat_digits.induct)
  case (1 n)
  have d: "d < 10 \<Longrightarrow> digit_code (digit_char d)" for d by (simp add: digit_char_def digit_code_def)
  show ?case using 1 d [of n] d [of "n mod 10"]
    by (cases "n < 10") (auto simp: nat_digits.simps [of n])
qed

lemma nat_digits_ne: "nat_digits n \<noteq> []"
  by (subst nat_digits.simps) simp

lemma int_str_inj:
  assumes "int_str i = int_str j"
  shows "i = j"
proof -
  have no: "nat_digits k \<noteq> CHR ''-'' # l" for k l
    using nat_digits_code [of "CHR ''-''" k] by (auto simp: digit_code_def)
  show ?thesis
    using assms nat_digits_inj [of "nat (- i)" "nat (- j)"] nat_digits_inj [of "nat i" "nat j"] no no [symmetric]
    by (auto simp: int_str_def split: if_splits)
qed

text \<open>The texts of a float: \<open>repr\<close> of a finite one has a point or an exponent.\<close>

definition float_char :: "char \<Rightarrow> bool" where
  "float_char c = (digit_code c \<or> c \<in> set ''-+.e'')"

definition float_text :: "string \<Rightarrow> bool" where
  "float_text r = (r \<in> {''NaN'', ''Infinity'', ''-Infinity''} \<or>
     (list_all float_char r \<and> list_ex (\<lambda>c. c \<in> set ''.e'') r \<and>
      r \<noteq> [] \<and> (digit_code (hd r) \<or> hd r = CHR ''-'')))"

primrec json_ok :: "json \<Rightarrow> bool" where
  "json_ok JNull = True"
| "json_ok (JBool b) = True"
| "json_ok (JInt i) = True"
| "json_ok (JFloat r) = float_text r"
| "json_ok (JStr s) = True"
| "json_ok (JArr vs) = list_all json_ok vs"
| "json_ok (JObj kvs) = list_all snd (map (map_prod id json_ok) kvs)"

text \<open>Scalars print as words without delimiters, different words for different values.\<close>

definition delimiter :: "char \<Rightarrow> bool" where
  "delimiter c = (c \<in> set '',]}'')"

definition delimited :: "string \<Rightarrow> bool" where
  "delimited s = (s = [] \<or> delimiter (hd s))"

definition scalar :: "json \<Rightarrow> bool" where
  "scalar v = (case v of JNull \<Rightarrow> True | JBool _ \<Rightarrow> True | JInt _ \<Rightarrow> True | JFloat _ \<Rightarrow> True | _ \<Rightarrow> False)"

lemma int_str_code: "c \<in> set (int_str i) \<Longrightarrow> digit_code c \<or> c = CHR ''-''"
  by (auto simp: int_str_def dest: nat_digits_code split: if_splits)

lemma int_str_ne: "int_str i \<noteq> []"
  by (simp add: int_str_def nat_digits_ne)

lemma digit_code_not: "digit_code c \<Longrightarrow> c \<notin> set '',]}.enNtf[{'' \<and> c \<noteq> CHR 0x22"
  by (auto simp: digit_code_def)

lemma float_char_not_delimiter: "float_char c \<Longrightarrow> \<not> delimiter c"
  using digit_code_not [of c] by (auto simp: float_char_def delimiter_def)

lemma float_text_chars: "float_text r \<Longrightarrow> list_all (\<lambda>c. \<not> delimiter c) r"
proof (cases "r \<in> {''NaN'', ''Infinity'', ''-Infinity''}")
  case True
  then show ?thesis by (elim insertE) (simp_all add: delimiter_def)
next
  case False
  assume "float_text r"
  with False have "list_all float_char r" by (simp add: float_text_def)
  then show ?thesis by (simp add: list_all_iff float_char_not_delimiter)
qed

lemma float_text_mark: "float_text r \<Longrightarrow> list_ex (\<lambda>c. c \<in> set ''.enN'') r"
proof (cases "r \<in> {''NaN'', ''Infinity'', ''-Infinity''}")
  case True
  then show ?thesis by (elim insertE) simp_all
next
  case False
  assume "float_text r"
  with False have "list_ex (\<lambda>c. c \<in> set ''.e'') r" by (simp add: float_text_def)
  then show ?thesis by (auto simp: list_ex_iff)
qed

lemma int_str_not:
  assumes "c \<in> set (int_str i)"
  shows "c \<notin> set '',]}.enNtf[{'' \<and> c \<noteq> CHR 0x22"
  using int_str_code [OF assms] by (auto dest: digit_code_not)

lemma float_text_no_int: "float_text r \<Longrightarrow> r \<noteq> int_str i"
  using float_text_mark [of r] int_str_not [of _ i] by (auto simp: list_ex_iff)

lemma float_text_hd: "float_text r \<Longrightarrow> r \<noteq> [] \<and> hd r \<notin> set ''ntf[{'' \<and> hd r \<noteq> CHR 0x22"
proof (cases "r \<in> {''NaN'', ''Infinity'', ''-Infinity''}")
  case True
  then show ?thesis by (elim insertE) simp_all
next
  case False
  assume "float_text r"
  with False have "r \<noteq> []" and "digit_code (hd r) \<or> hd r = CHR ''-''" by (simp_all add: float_text_def)
  then show ?thesis using digit_code_not [of "hd r"] by auto
qed

lemma float_text_no_word: "float_text r \<Longrightarrow> r \<notin> {''null'', ''true'', ''false''}"
  using float_text_hd [of r] by auto

lemma int_str_no_word: "int_str i \<notin> {''null'', ''true'', ''false''}"
  using int_str_not [of "CHR ''e''" i] int_str_not [of "CHR ''n''" i] by auto

lemma scalar_print_inj:
  assumes "scalar v" "scalar w" "json_ok v" "json_ok w" "json_print i k v = json_print i k w"
  shows "v = w"
  using assms int_str_no_word [of "case v of JInt x \<Rightarrow> x"] int_str_no_word [of "case w of JInt x \<Rightarrow> x"]
    float_text_no_word float_text_no_int float_text_no_int [symmetric]
  by (cases v; cases w) (auto simp: scalar_def dest: int_str_inj split: if_splits)

lemma scalar_print_word:
  assumes "scalar v" "json_ok v"
  shows "json_print i k v \<noteq> [] \<and> list_all (\<lambda>c. \<not> delimiter c) (json_print i k v) \<and>
    hd (json_print i k v) \<notin> {CHR 0x22, CHR ''['', CHR ''{''}"
proof (cases v)
  case (JInt n)
  have "list_all (\<lambda>c. \<not> delimiter c) (int_str n)"
    by (auto simp: list_all_iff delimiter_def dest: int_str_not)
  moreover have "hd (int_str n) \<notin> {CHR 0x22, CHR ''['', CHR ''{''}"
    using int_str_not [of "hd (int_str n)" n] int_str_ne [of n] by auto
  ultimately show ?thesis using JInt int_str_ne by simp
next
  case (JFloat r)
  then have r: "float_text r" using assms by simp
  show ?thesis using JFloat float_text_hd [OF r] float_text_chars [OF r] by simp
qed (use assms in \<open>auto simp: scalar_def delimiter_def\<close>)

lemma word_prefix:
  assumes "list_all (\<lambda>c. \<not> delimiter c) u" "list_all (\<lambda>c. \<not> delimiter c) w"
    and "delimited x" "delimited y" "u @ x = w @ y"
  shows "u = w \<and> x = y"
proof -
  have "takeWhile (\<lambda>c. \<not> delimiter c) (u @ x) = u" if "list_all (\<lambda>c. \<not> delimiter c) u" "delimited x" for u x
    using that by (cases x) (auto simp: takeWhile_append list_all_iff delimited_def)
  then have "u = w" using assms by metis
  then show ?thesis using assms by simp
qed

subsection \<open>Lists of items\<close>

text \<open>A printer of items is uniquely decodable in front of a delimiter.\<close>

definition decodable :: "('a \<Rightarrow> string) \<Rightarrow> 'a \<Rightarrow> 'a \<Rightarrow> bool" where
  "decodable f x y = (\<forall>s t. delimited s \<longrightarrow> delimited t \<longrightarrow> f x @ s = f y @ t \<longrightarrow> x = y \<and> s = t)"

definition starts :: "string \<Rightarrow> bool" where
  "starts w = (w \<noteq> [] \<and> \<not> delimiter (hd w))"

lemma py_join_Cons: "py_join sep (x # xs) = x @ (if xs = [] then [] else sep @ py_join sep xs)"
  by (cases xs) simp_all

lemma join_decodable:
  assumes "\<forall>x \<in> set xs. \<forall>y \<in> set ys. decodable f x y" and "\<forall>x \<in> set xs \<union> set ys. starts (f x)"
    and "delimiter c" "c \<noteq> CHR '',''"
    and "py_join (CHR '','' # i) (map f xs) @ c # s = py_join (CHR '','' # i) (map f ys) @ c # t"
  shows "xs = ys \<and> s = t"
  using assms
proof (induction xs arbitrary: ys)
  case Nil
  then show ?case by (cases ys) (auto simp: starts_def py_join_Cons Cons_eq_append_conv dest: sym)
next
  case (Cons x xs)
  show ?case
  proof (cases ys)
    case Nil
    then show ?thesis using Cons.prems by (auto simp: starts_def py_join_Cons append_eq_Cons_conv)
  next
    case (Cons y ys')
    let ?rest = "\<lambda>xs s. (if xs = [] then [] else (CHR '','' # i) @ py_join (CHR '','' # i) (map f xs)) @ c # s"
    have "decodable f x y" using Cons Cons.prems(1) by simp
    moreover have "delimited (?rest xs s)" "delimited (?rest ys' t)"
      using Cons.prems(3) by (simp_all add: delimited_def delimiter_def)
    moreover have "f x @ ?rest xs s = f y @ ?rest ys' t"
      using Cons.prems(5) Cons by (simp add: py_join_Cons)
    ultimately have "x = y" and rest: "?rest xs s = ?rest ys' t"
      unfolding decodable_def by blast+
    show ?thesis
    proof (cases "xs = [] \<or> ys' = []")
      case True
      then show ?thesis using rest \<open>x = y\<close> Cons Cons.prems(4) by (auto split: if_splits)
    next
      case False
      then show ?thesis using rest \<open>x = y\<close> Cons Cons.prems Cons.IH [of ys'] by simp
    qed
  qed
qed

subsection \<open>The printer is injective\<close>

lemma json_print_starts:
  assumes "json_ok v"
  shows "starts (json_print i k v)"
proof (cases "scalar v")
  case True
  then show ?thesis using scalar_print_word [OF True assms, of i k]
    by (cases "json_print i k v") (auto simp: starts_def)
next
  case False
  then show ?thesis by (cases v) (auto simp: scalar_def starts_def delimiter_def json_quote_def)
qed

text \<open>The first character tells the four kinds of values apart.\<close>

definition text_kind :: "char \<Rightarrow> nat" where
  "text_kind c = (if c = CHR 0x22 then 1 else if c = CHR ''['' then 2 else if c = CHR ''{'' then 3 else 0)"

fun json_kind :: "json \<Rightarrow> nat" where
  "json_kind (JStr _) = 1"
| "json_kind (JArr _) = 2"
| "json_kind (JObj _) = 3"
| "json_kind _ = 0"

lemma json_print_kind:
  assumes "json_ok v"
  shows "text_kind (hd (json_print i k v @ x)) = json_kind v"
proof (cases "scalar v")
  case True
  then have "json_kind v = 0" by (cases v) (simp_all add: scalar_def)
  then show ?thesis using scalar_print_word [OF True assms, of i k]
    by (cases "json_print i k v") (simp_all add: text_kind_def)
next
  case False
  then show ?thesis by (cases v) (simp_all add: scalar_def text_kind_def json_quote_def)
qed

lemma decodable_same_kind:
  assumes "json_ok v" "json_ok w" "json_kind v = json_kind w \<Longrightarrow> decodable (json_print i k) v w"
  shows "decodable (json_print i k) v w"
proof (cases "json_kind v = json_kind w")
  case False
  then have "json_print i k v @ s \<noteq> json_print i k w @ t" for s t
    using json_print_kind [OF assms(1), of i k s] json_print_kind [OF assms(2), of i k t] by auto
  then show ?thesis by (simp add: decodable_def)
qed (rule assms(3))

lemma scalar_decodable:
  assumes "json_kind v = 0" "json_ok v" "json_ok w"
  shows "decodable (json_print i k) v w"
proof (rule decodable_same_kind [OF assms(2,3)])
  assume "json_kind v = json_kind w"
  with assms(1) have s: "scalar v" "scalar w" by (cases v; cases w; simp add: scalar_def)+
  then show "decodable (json_print i k) v w"
    using assms scalar_print_word [OF s(1), of i k] scalar_print_word [OF s(2), of i k]
      word_prefix [of "json_print i k v" "json_print i k w"] scalar_print_inj [of v w i k]
    by (simp add: decodable_def)
qed

lemma item_decodable:
  assumes "decodable f x y"
  shows "decodable (\<lambda>(q, t). json_quote q @ k @ f t) (a, x) (b, y)"
  unfolding decodable_def prod.case append_assoc
proof (intro allI impI)
  fix s t
  assume d: "delimited s" "delimited t" and eq: "json_quote a @ k @ f x @ s = json_quote b @ k @ f y @ t"
  from json_quote_prefix [OF eq] have "a = b" "f x @ s = f y @ t" by simp_all
  with assms d show "(a, x) = (b, y) \<and> s = t" unfolding decodable_def by blast
qed

lemma json_print_decodable:
  "json_ok v \<Longrightarrow> json_ok w \<Longrightarrow> decodable (json_print (CHR '','' # i) k) v w"
proof (induction v arbitrary: w)
  case (JStr s)
  show ?case
  proof (rule decodable_same_kind [OF JStr])
    assume "json_kind (JStr s) = json_kind w"
    then obtain s' where "w = JStr s'" by (cases w) simp_all
    then show "decodable (json_print (CHR '','' # i) k) (JStr s) w"
      by (auto simp: decodable_def dest: json_quote_prefix)
  qed
next
  case (JArr vs)
  show ?case
  proof (rule decodable_same_kind [OF JArr.prems])
    assume "json_kind (JArr vs) = json_kind w"
    then obtain ws where w: "w = JArr ws" by (cases w) simp_all
    have "\<forall>x \<in> set vs. \<forall>y \<in> set ws. decodable (json_print (CHR '','' # i) k) x y"
      and "\<forall>x \<in> set vs \<union> set ws. starts (json_print (CHR '','' # i) k x)"
      using JArr w json_print_starts by (auto simp: list_all_iff)
    note join = join_decodable [OF this, of "CHR '']''" i]
    then show "decodable (json_print (CHR '','' # i) k) (JArr vs) w"
      by (auto simp: decodable_def w delimiter_def)
  qed
next
  case (JObj kvs)
  let ?f = "\<lambda>(q, t). json_quote q @ k @ json_print (CHR '','' # i) k t"
  show ?case
  proof (rule decodable_same_kind [OF JObj.prems])
    assume "json_kind (JObj kvs) = json_kind w"
    then obtain ws where w: "w = JObj ws" by (cases w) simp_all
    have items: "(\<lambda>(k', t). json_quote k' @ k @ t) \<circ> map_prod id (json_print (CHR '','' # i) k) = ?f"
      by auto
    have ih: "decodable (json_print (CHR '','' # i) k) x y" if "(a, x) \<in> set kvs" "(b, y) \<in> set ws" for a b x y
      using JObj.IH [of "(a, x)" x y] JObj.prems w that by (fastforce simp: list_all_iff)
    have "\<forall>x \<in> set kvs. \<forall>y \<in> set ws. decodable ?f x y"
      by (auto intro!: item_decodable intro: ih)
    moreover have "\<forall>x \<in> set kvs \<union> set ws. starts (?f x)"
      by (simp add: case_prod_beta starts_def json_quote_def delimiter_def)
    ultimately have "py_join (CHR '','' # i) (map ?f kvs) @ CHR ''}'' # s =
        py_join (CHR '','' # i) (map ?f ws) @ CHR ''}'' # t \<Longrightarrow> kvs = ws \<and> s = t" for s t
      by (rule join_decodable) (simp_all add: delimiter_def)
    then show "decodable (json_print (CHR '','' # i) k) (JObj kvs) w"
      by (simp add: decodable_def w items)
  qed
qed (simp_all add: scalar_decodable)

lemma json_ok_norm: "json_ok v \<Longrightarrow> json_ok (json_norm v)"
  by (induction v) (auto simp: list_all_iff)

subsection \<open>Values under \<open>model_dump(mode="json")\<close>\<close>

text \<open>pydantic (version 2.13, default settings) dumps a float of a \<open>dict[str, Any]\<close> payload that is not finite as \<open>None\<close> in
  its JSON mode; everything else a \<open>json\<close> value can hold is dumped as it is. \<open>json.dumps\<close> applied to a payload that was not
  dumped first, as persistence does, writes \<open>NaN\<close> and \<open>Infinity\<close>.\<close>

definition nonfinite_text :: "string \<Rightarrow> bool" where
  "nonfinite_text r = (r \<in> {''NaN'', ''Infinity'', ''-Infinity''})"

primrec json_mode :: "json \<Rightarrow> json" where
  "json_mode JNull = JNull"
| "json_mode (JBool b) = JBool b"
| "json_mode (JInt i) = JInt i"
| "json_mode (JFloat r) = (if nonfinite_text r then JNull else JFloat r)"
| "json_mode (JStr s) = JStr s"
| "json_mode (JArr vs) = JArr (map json_mode vs)"
| "json_mode (JObj kvs) = JObj (map (map_prod id json_mode) kvs)"

primrec json_finite :: "json \<Rightarrow> bool" where
  "json_finite JNull = True"
| "json_finite (JBool b) = True"
| "json_finite (JInt i) = True"
| "json_finite (JFloat r) = (\<not> nonfinite_text r)"
| "json_finite (JStr s) = True"
| "json_finite (JArr vs) = list_all json_finite vs"
| "json_finite (JObj kvs) = list_all snd (map (map_prod id json_finite) kvs)"

lemma json_mode_finite: "json_finite v \<Longrightarrow> json_mode v = v"
proof (induction v)
  case (JObj kvs)
  then have "\<forall>(k, v) \<in> set kvs. json_mode v = v" by (fastforce simp: list_all_iff)
  then show ?case by (auto intro!: map_idI)
qed (auto simp: list_all_iff intro!: map_idI)

lemma json_mode_ok: "json_ok v \<Longrightarrow> json_ok (json_mode v)"
proof (induction v)
  case (JObj kvs)
  then show ?case by (fastforce simp: list_all_iff)
qed (auto simp: list_all_iff)

lemma json_norm_mode: "json_norm (json_mode v) = json_mode (json_norm v)"
proof (induction v)
  case (JObj kvs)
  then have "map (map_prod id json_norm) (map (map_prod id json_mode) kvs) = map (map_prod id json_mode) (map (map_prod id json_norm) kvs)"
    by (fastforce simp: comp_def)
  then show ?case by (simp add: sort_key_map)
qed auto

text \<open>Two payloads with one text are the same payload, up to the order of keys.\<close>

lemma json_dumps_inj:
  assumes "json_dumps (CHR '','' # i) k v = json_dumps (CHR '','' # i) k w" "json_ok v" "json_ok w"
  shows "json_norm v = json_norm w"
  using json_print_decodable [OF json_ok_norm [OF assms(2)] json_ok_norm [OF assms(3)], of i k] assms(1)
  unfolding decodable_def json_dumps_print by (metis append_Nil2 delimited_def)

end
