(* ===== verification/Keyed_Table.thy ===== *)
theory Keyed_Table
  imports Prelude
begin

text \<open>
  Tables of records with a key column, kept in insertion order: the model of the program's
  dicts and of its database tables. \<open>tbl_put\<close> is a dict assignment (a known key keeps its
  position), \<open>tbl_insert\<close> an SQL INSERT against a UNIQUE column (\<open>None\<close> is the
  IntegrityError), \<open>tbl_upd\<close> an UPDATE of the row with a key, \<open>tbl_cas\<close> the conditional
  \<open>UPDATE ... WHERE key = k AND version = v\<close> every versioned repository uses.
\<close>

definition tbl_get :: "('r \<Rightarrow> 'k) \<Rightarrow> 'r list \<Rightarrow> 'k \<Rightarrow> 'r option" where
  "tbl_get key t k = List.find (\<lambda>r. key r = k) t"

definition tbl_upd :: "('r \<Rightarrow> 'k) \<Rightarrow> 'r list \<Rightarrow> 'k \<Rightarrow> ('r \<Rightarrow> 'r) \<Rightarrow> 'r list" where
  "tbl_upd key t k f = map (\<lambda>r. if key r = k then f r else r) t"

definition tbl_put :: "('r \<Rightarrow> 'k) \<Rightarrow> 'r list \<Rightarrow> 'r \<Rightarrow> 'r list" where
  "tbl_put key t r = (if tbl_get key t (key r) = None then t @ [r]
     else tbl_upd key t (key r) (\<lambda>_. r))"

definition tbl_insert :: "('r \<Rightarrow> 'k) \<Rightarrow> 'r list \<Rightarrow> 'r \<Rightarrow> 'r list option" where
  "tbl_insert key t r = (if tbl_get key t (key r) = None then Some (t @ [r]) else None)"

definition tbl_del :: "('r \<Rightarrow> 'k) \<Rightarrow> 'r list \<Rightarrow> 'k \<Rightarrow> 'r list" where
  "tbl_del key t k = filter (\<lambda>r. key r \<noteq> k) t"

text \<open>The conditional UPDATE: whether a row matched, and the table afterwards.\<close>

definition tbl_cas :: "('r \<Rightarrow> 'k) \<Rightarrow> ('r \<Rightarrow> int) \<Rightarrow> 'r list \<Rightarrow> 'k \<Rightarrow> int \<Rightarrow> ('r \<Rightarrow> 'r) \<Rightarrow> bool \<times> 'r list" where
  "tbl_cas key ver t k v f =
     (case tbl_get key t k of
        None \<Rightarrow> (False, t)
      | Some r \<Rightarrow> if ver r = v then (True, tbl_upd key t k f) else (False, t))"

definition tbl_unique :: "('r \<Rightarrow> 'k) \<Rightarrow> 'r list \<Rightarrow> bool" where
  "tbl_unique key t = distinct (map key t)"

section \<open>Laws\<close>

lemma find_append: "List.find P (xs @ ys) = (case List.find P xs of None \<Rightarrow> List.find P ys | r \<Rightarrow> r)"
  by (induction xs) auto

lemma tbl_get_Nil [simp]: "tbl_get key [] k = None"
  by (simp add: tbl_get_def)

lemma tbl_get_Cons: "tbl_get key (r # t) k = (if key r = k then Some r else tbl_get key t k)"
  by (simp add: tbl_get_def)

lemma tbl_get_SomeD: "tbl_get key t k = Some r \<Longrightarrow> r \<in> set t \<and> key r = k"
  unfolding tbl_get_def by (rule find_Some_mem)

lemma tbl_get_None_iff: "tbl_get key t k = None \<longleftrightarrow> k \<notin> key ` set t"
  by (auto simp: tbl_get_def find_None_iff')

lemma tbl_get_append: "tbl_get key (t @ u) k =
    (case tbl_get key t k of None \<Rightarrow> tbl_get key u k | r \<Rightarrow> r)"
  unfolding tbl_get_def by (rule find_append)

lemma tbl_get_mem: "tbl_unique key t \<Longrightarrow> r \<in> set t \<Longrightarrow> tbl_get key t (key r) = Some r"
  by (induction t) (auto simp: tbl_unique_def tbl_get_Cons)

lemma tbl_get_upd:
  assumes "\<And>r. key r = k \<Longrightarrow> key (f r) = k"
  shows "tbl_get key (tbl_upd key t k f) k' =
    (if k' = k then map_option f (tbl_get key t k) else tbl_get key t k')"
proof (induction t)
  case (Cons r t)
  then show ?case using assms [of r] by (auto simp: tbl_upd_def tbl_get_Cons)
qed (simp add: tbl_upd_def)

lemma tbl_upd_keys:
  assumes "\<And>r. key r = k \<Longrightarrow> key (f r) = k"
  shows "map key (tbl_upd key t k f) = map key t"
  using assms by (induction t) (auto simp: tbl_upd_def)

lemma tbl_get_put: "tbl_get key (tbl_put key t r) k = (if k = key r then Some r else tbl_get key t k)"
proof (cases "tbl_get key t (key r)")
  case None
  then show ?thesis by (auto simp: tbl_put_def tbl_get_append tbl_get_Cons split: option.split)
next
  case (Some q)
  then show ?thesis by (simp add: tbl_put_def tbl_get_upd)
qed

lemma tbl_get_del: "tbl_get key (tbl_del key t k) k' = (if k' = k then None else tbl_get key t k')"
  by (induction t) (auto simp: tbl_del_def tbl_get_Cons)

lemma tbl_get_insert: "tbl_insert key t r = Some t' \<Longrightarrow>
    tbl_get key t' k = (if k = key r then Some r else tbl_get key t k)"
  by (auto simp: tbl_insert_def tbl_get_append tbl_get_Cons split: if_splits option.splits)

lemma tbl_insert_new: "tbl_insert key t r = Some t' \<Longrightarrow> tbl_get key t (key r) = None \<and> t' = t @ [r]"
  by (simp add: tbl_insert_def split: if_splits)

lemma tbl_unique_put: "tbl_unique key t \<Longrightarrow> tbl_unique key (tbl_put key t r)"
  by (auto simp: tbl_unique_def tbl_put_def tbl_upd_keys tbl_get_None_iff)

lemma tbl_unique_insert: "tbl_unique key t \<Longrightarrow> tbl_insert key t r = Some t' \<Longrightarrow> tbl_unique key t'"
  by (auto simp: tbl_unique_def tbl_insert_def tbl_get_None_iff split: if_splits)

lemma tbl_unique_del: "tbl_unique key t \<Longrightarrow> tbl_unique key (tbl_del key t k)"
  by (simp add: tbl_unique_def tbl_del_def distinct_map_filter)

lemma tbl_set_del: "r \<in> set (tbl_del key t k) \<longleftrightarrow> r \<in> set t \<and> key r \<noteq> k"
  by (simp add: tbl_del_def)

lemma tbl_set_put: "set (tbl_put key t r) \<subseteq> insert r (set t)"
  by (auto simp: tbl_put_def tbl_upd_def)

section \<open>The interface of a versioned store\<close>

text \<open>
  What a repository with an optimistic-concurrency column promises its clients: a
  conditional write succeeds exactly when the row is present at the expected version; it
  applies the fields, stamps the next version and leaves every other row alone. A write is
  \<open>keeping\<close> if it does not change the key.
\<close>

locale versioned_store =
  fixes get :: "'s \<Rightarrow> 'k \<Rightarrow> 'r option"
    and ver :: "'r \<Rightarrow> int"
    and stamp :: "int \<Rightarrow> 'r \<Rightarrow> 'r"
    and cas :: "'s \<Rightarrow> 'k \<Rightarrow> int \<Rightarrow> ('r \<Rightarrow> 'r) \<Rightarrow> bool \<times> 's"
    and keeping :: "('r \<Rightarrow> 'r) \<Rightarrow> bool"
  assumes cas_ok_iff: "fst (cas s k v f) \<longleftrightarrow> (\<exists>r. get s k = Some r \<and> ver r = v)"
    and cas_fail: "\<not> fst (cas s k v f) \<Longrightarrow> snd (cas s k v f) = s"
    and cas_get: "\<lbrakk>fst (cas s k v f); keeping f\<rbrakk> \<Longrightarrow>
      get (snd (cas s k v f)) k' = (if k' = k then map_option (\<lambda>r. stamp (v + 1) (f r)) (get s k) else get s k')"
    and ver_stamp: "ver (stamp n r) = n"
begin

text \<open>Of two writers that read the same version, the second one to write loses.\<close>

lemma second_writer_loses:
  assumes "fst (cas s k v f)" and "keeping f"
  shows "\<not> fst (cas (snd (cas s k v f)) k v g)"
  using assms by (auto simp: cas_ok_iff cas_get ver_stamp)

lemma cas_other: "keeping f \<Longrightarrow> k' \<noteq> k \<Longrightarrow> get (snd (cas s k v f)) k' = get s k'"
  by (cases "fst (cas s k v f)") (simp_all add: cas_get cas_fail)

lemma reader_wins: "get s k = Some r \<Longrightarrow> fst (cas s k (ver r) f)"
  by (simp add: cas_ok_iff)

lemma reader_writes: "get s k = Some r \<Longrightarrow> keeping f \<Longrightarrow>
    get (snd (cas s k (ver r) f)) k = Some (stamp (ver r + 1) (f r))"
  by (simp add: cas_get reader_wins)

lemma stale_writer_loses: "get s k = Some r \<Longrightarrow> ver r \<noteq> v \<Longrightarrow> cas s k v f = (False, s)"
  using cas_ok_iff [of s k v f] cas_fail [of s k v f] by (cases "cas s k v f") auto

text \<open>A version never decreases.\<close>

lemma version_grows:
  assumes "get s k = Some r" and "keeping f"
  shows "\<exists>r'. get (snd (cas s k' v f)) k = Some r' \<and> ver r \<le> ver r'"
proof (cases "fst (cas s k' v f) \<and> k = k'")
  case True
  then show ?thesis using assms by (auto simp: cas_get ver_stamp cas_ok_iff)
next
  case False
  then show ?thesis using assms cas_other [of f k k'] cas_fail by (cases "k = k'") auto
qed

end

text \<open>The table operation meets that contract.\<close>

definition tbl_vcas :: "('r \<Rightarrow> 'k) \<Rightarrow> ('r \<Rightarrow> int) \<Rightarrow> (int \<Rightarrow> 'r \<Rightarrow> 'r) \<Rightarrow> 'r list \<Rightarrow> 'k \<Rightarrow> int \<Rightarrow> ('r \<Rightarrow> 'r) \<Rightarrow> bool \<times> 'r list" where
  "tbl_vcas key ver stamp t k v f = tbl_cas key ver t k v (\<lambda>r. stamp (v + 1) (f r))"

lemma tbl_vcas_versioned:
  assumes "\<And>n r. ver (stamp n r) = n" and "\<And>n r. key (stamp n r) = key r"
  shows "versioned_store (tbl_get key) ver stamp (tbl_vcas key ver stamp) (\<lambda>f. \<forall>r. key (f r) = key r)"
proof unfold_locales
  fix s :: "'a list" and k v f k'
  assume "fst (tbl_vcas key ver stamp s k v f)" and "\<forall>r. key (f r) = key r"
  then show "tbl_get key (snd (tbl_vcas key ver stamp s k v f)) k' =
      (if k' = k then map_option (\<lambda>r. stamp (v + 1) (f r)) (tbl_get key s k) else tbl_get key s k')"
    by (auto simp: tbl_vcas_def tbl_cas_def tbl_get_upd assms split: option.splits if_splits)
qed (auto simp: tbl_vcas_def tbl_cas_def assms split: option.splits if_splits)

lemma tbl_unique_vcas:
  assumes "tbl_unique key t" "\<forall>r. key (f r) = key r" "\<And>n r. key (stamp n r) = key r"
  shows "tbl_unique key (snd (tbl_vcas key ver stamp t k v f))"
  using assms by (auto simp: tbl_vcas_def tbl_cas_def tbl_unique_def tbl_upd_keys split: option.splits)

end
