(* ===== verification/Json_Parser.thy ===== *)
theory Json_Parser
  imports Canonical_Json Keyed_Table
begin

text \<open>
  \<open>json.loads\<close>, as the program applies it to the documents it stored with \<open>json.dumps\<close>: white space,
  all escapes of code points up to U+00FF, integers, floats as Python writes them, nested arrays and
  objects (a repeated key takes the later value). \<open>None\<close> is the JSONDecodeError. The recursion is
  bounded by fuel; \<open>json_loads\<close> gives the length of the text plus one, and \<open>json_loads_dumps\<close> shows
  that every printed document parses back to its normal form, so that this is enough.
\<close>

section \<open>Strings\<close>

definition hex_digit :: "char \<Rightarrow> nat option" where
  "hex_digit c = (let n = of_char c in
     if 48 \<le> n \<and> n \<le> 57 then Some (n - 48)
     else if 97 \<le> n \<and> n \<le> 102 then Some (n - 87)
     else if 65 \<le> n \<and> n \<le> 70 then Some (n - 55) else None)"

definition hex_code :: "char \<Rightarrow> char \<Rightarrow> char \<Rightarrow> char \<Rightarrow> char option" where
  "hex_code a b c d = (case (hex_digit a, hex_digit b, hex_digit c, hex_digit d) of
     (Some w, Some x, Some y, Some z) \<Rightarrow>
       (let n = ((w * 16 + x) * 16 + y) * 16 + z in if n < 256 then Some (char_of n) else None)
   | _ \<Rightarrow> None)"

definition simple_escape :: "char \<Rightarrow> char option" where
  "simple_escape e = map_of [(CHR 0x22, CHR 0x22), (CHR 0x5C, CHR 0x5C), (CHR ''/'', CHR ''/''),
     (CHR ''n'', CHR 0x0A), (CHR ''r'', CHR 0x0D), (CHR ''t'', CHR 0x09), (CHR ''f'', CHR 0x0C),
     (CHR ''b'', CHR 0x08)] e"

text \<open>The text after an opening quote: the string and what follows the closing quote.\<close>

fun parse_string :: "string \<Rightarrow> (string \<times> string) option" where
  "parse_string [] = None"
| "parse_string (c # s) =
     (if c = CHR 0x22 then Some ([], s)
      else if c = CHR 0x5C then
        (case s of
           [] \<Rightarrow> None
         | e # s' \<Rightarrow>
             if e = CHR ''u'' then
               (case s' of
                  h1 # h2 # h3 # h4 # s'' \<Rightarrow>
                    (case hex_code h1 h2 h3 h4 of
                       None \<Rightarrow> None
                     | Some x \<Rightarrow> map_option (map_prod (Cons x) id) (parse_string s''))
                | _ \<Rightarrow> None)
             else (case simple_escape e of
                 None \<Rightarrow> None
               | Some x \<Rightarrow> map_option (map_prod (Cons x) id) (parse_string s')))
      else map_option (map_prod (Cons c) id) (parse_string s))"

section \<open>Values\<close>

definition json_space :: "char \<Rightarrow> bool" where
  "json_space c = (c \<in> {CHR '' '', CHR 0x09, CHR 0x0A, CHR 0x0D})"

definition skip_ws :: "string \<Rightarrow> string" where
  "skip_ws s = dropWhile json_space s"

definition word_end :: "char \<Rightarrow> bool" where
  "word_end c = (delimiter c \<or> json_space c)"

definition parse_int :: "string \<Rightarrow> int option" where
  "parse_int w = (let neg = (w \<noteq> [] \<and> hd w = CHR ''-''); ds = (if neg then tl w else w) in
     if ds = [] \<or> \<not> list_all digit_code ds \<or> (hd ds = CHR ''0'' \<and> tl ds \<noteq> []) then None
     else Some (if neg then - int (digits_value ds) else int (digits_value ds)))"

definition parse_word :: "string \<Rightarrow> json option" where
  "parse_word w =
     (if w = ''null'' then Some JNull
      else if w = ''true'' then Some (JBool True)
      else if w = ''false'' then Some (JBool False)
      else if float_text w then Some (JFloat w)
      else map_option JInt (parse_int w))"

text \<open>Consume one expected character, after white space.\<close>

definition eat :: "char \<Rightarrow> string \<Rightarrow> string option" where
  "eat c s = (case skip_ws s of [] \<Rightarrow> None | d # r \<Rightarrow> if d = c then Some r else None)"

fun parse_value :: "nat \<Rightarrow> string \<Rightarrow> (json \<times> string) option"
  and parse_items :: "nat \<Rightarrow> string \<Rightarrow> (json list \<times> string) option"
  and parse_members :: "nat \<Rightarrow> string \<Rightarrow> ((string \<times> json) list \<times> string) option" where
  "parse_value 0 s = None"
| "parse_value (Suc n) s = (case skip_ws s of
     [] \<Rightarrow> None
   | c # r \<Rightarrow>
       if c = CHR 0x22 then map_option (map_prod JStr id) (parse_string r)
       else if c = CHR ''['' then
         (case eat (CHR '']'') r of Some r' \<Rightarrow> Some (JArr [], r')
          | None \<Rightarrow> map_option (map_prod JArr id) (parse_items n r))
       else if c = CHR ''{'' then
         (case eat (CHR ''}'') r of Some r' \<Rightarrow> Some (JObj [], r')
          | None \<Rightarrow> map_option (map_prod (\<lambda>kvs. JObj (foldl (tbl_put fst) [] kvs)) id) (parse_members n r))
       else map_option (\<lambda>v. (v, dropWhile (\<lambda>c. \<not> word_end c) (c # r)))
         (parse_word (takeWhile (\<lambda>c. \<not> word_end c) (c # r))))"
| "parse_items 0 s = None"
| "parse_items (Suc n) s = (case parse_value n s of
     None \<Rightarrow> None
   | Some (v, r) \<Rightarrow>
       (case eat (CHR '','') r of
          Some r' \<Rightarrow> map_option (map_prod (Cons v) id) (parse_items n r')
        | None \<Rightarrow> map_option (\<lambda>r'. ([v], r')) (eat (CHR '']'') r)))"
| "parse_members 0 s = None"
| "parse_members (Suc n) s =
     (case Option.bind (eat (CHR 0x22) s) parse_string of
        None \<Rightarrow> None
      | Some (k, r) \<Rightarrow>
          (case Option.bind (eat (CHR '':'') r) (parse_value n) of
             None \<Rightarrow> None
           | Some (v, r') \<Rightarrow>
               (case eat (CHR '','') r' of
                  Some r'' \<Rightarrow> map_option (map_prod (Cons (k, v)) id) (parse_members n r'')
                | None \<Rightarrow> map_option (\<lambda>r''. ([(k, v)], r'')) (eat (CHR ''}'') r'))))"

definition json_loads :: "string \<Rightarrow> json option" where
  "json_loads s = (case parse_value (Suc (length s)) s of
     Some (v, r) \<Rightarrow> if skip_ws r = [] then Some v else None
   | None \<Rightarrow> None)"

section \<open>Parsing inverts printing\<close>

lemma digit_char_hex: "d < 16 \<Longrightarrow> hex_digit (digit_char d) = Some d"
  by (auto simp: hex_digit_def digit_char_def Let_def)

lemma hex_code_hex4: "n < 256 \<Longrightarrow> hex4 n = [a, b, c, d] \<Longrightarrow> hex_code a b c d = Some (char_of n)"
proof -
  assume n: "n < 256" "hex4 n = [a, b, c, d]"
  then have "hex_digit a = Some 0" "hex_digit b = Some 0" "hex_digit c = Some (n div 16)" "hex_digit d = Some (n mod 16)"
    by (auto simp: hex4_def digit_char_hex)
  then show ?thesis using n(1) by (simp add: hex_code_def Let_def)
qed

lemma char_of_codes: "char_of (8 :: nat) = CHR 0x08" "char_of (9 :: nat) = CHR 0x09" "char_of (10 :: nat) = CHR 0x0A"
  "char_of (12 :: nat) = CHR 0x0C" "char_of (13 :: nat) = CHR 0x0D" "char_of (48 :: nat) = CHR ''0''"
  by (rule of_char_eq [symmetric]; simp)+

lemma parse_string_escape: "parse_string (json_escape_char c @ s) = map_option (map_prod (Cons c) id) (parse_string s)"
proof -
  obtain a b d e where h: "hex4 (of_char c) = [a, b, d, e]" by (simp add: hex4_def)
  have "(of_char c :: nat) < 256" by simp
  from hex_code_hex4 [OF this h] have "hex_code a b d e = Some c" by simp
  then show ?thesis using h
    by (auto simp: json_escape_char_def Let_def simple_escape_def char_of_codes dest!: of_char_eq)
qed

lemma parse_string_escaped: "parse_string (concat (map json_escape_char t) @ CHR 0x22 # r) = Some (t, r)"
  by (induction t) (simp_all add: parse_string_escape)

lemma skip_ws_append: "list_all json_space ws \<Longrightarrow> skip_ws (ws @ s) = skip_ws s"
  by (induction ws) (simp_all add: skip_ws_def)

lemma skip_ws_id: "s = [] \<or> \<not> json_space (hd s) \<Longrightarrow> skip_ws s = s"
  by (cases s) (auto simp: skip_ws_def)

lemma eat_delim [simp]: "\<not> json_space c \<Longrightarrow> eat c (c # r) = Some r"
  "\<not> json_space d \<Longrightarrow> d \<noteq> c \<Longrightarrow> eat c (d # r) = None"
  by (simp_all add: eat_def skip_ws_def)

lemma not_space [simp]: "\<not> json_space (CHR '','')" "\<not> json_space (CHR '']'')" "\<not> json_space (CHR ''}'')"
  "\<not> json_space (CHR '':'')" "\<not> json_space (CHR 0x22)" "\<not> json_space (CHR ''['')" "\<not> json_space (CHR ''{'')"
  by (simp_all add: json_space_def)

lemma nat_digits_leading: "hd (nat_digits n) = CHR ''0'' \<Longrightarrow> n = 0"
proof (induction n rule: nat_digits.induct)
  case (1 n)
  show ?case
  proof (cases "n < 10")
    case True
    then have "digit_char n = digit_char 0" using "1.prems" by (simp add: nat_digits.simps [of n] digit_char_def char_of_codes)
    then show ?thesis using True digit_char_inj [of n 0] by simp
  next
    case False
    then show ?thesis using 1 nat_digits_ne [of "n div 10"] by (auto simp: nat_digits.simps [of n] hd_append)
  qed
qed

lemma parse_int_int_str: "parse_int (int_str i) = Some i"
proof -
  have d: "list_all digit_code (nat_digits n)" for n by (simp add: list_all_iff nat_digits_code)
  have z: "hd (nat_digits n) = CHR ''0'' \<Longrightarrow> tl (nat_digits n) = []" for n
    using nat_digits_leading [of n] by (simp add: nat_digits.simps [of 0])
  have m: "hd (nat_digits n) \<noteq> CHR ''-''" for n
    using nat_digits_code [of "hd (nat_digits n)" n] nat_digits_ne [of n] by (auto simp: digit_code_def)
  show ?thesis
    using d z m by (auto simp: parse_int_def int_str_def Let_def nat_digits_ne digits_value_nat_digits)
qed

lemma parse_word_scalar: "scalar v \<Longrightarrow> json_ok v \<Longrightarrow> parse_word (json_print i k v) = Some v"
  using int_str_no_word float_text_no_word float_text_no_int
  by (cases v) (auto simp: scalar_def parse_word_def parse_int_int_str)

text \<open>Documents whose objects have distinct keys, as Python dicts do.\<close>

primrec json_dict :: "json \<Rightarrow> bool" where
  "json_dict JNull = True"
| "json_dict (JBool b) = True"
| "json_dict (JInt i) = True"
| "json_dict (JFloat r) = True"
| "json_dict (JStr s) = True"
| "json_dict (JArr vs) = list_all json_dict vs"
| "json_dict (JObj kvs) = (distinct (map fst kvs) \<and> list_all snd (map (map_prod id json_dict) kvs))"

definition separators :: "string \<Rightarrow> string \<Rightarrow> bool" where
  "separators i k = (\<exists>ws ws'. i = CHR '','' # ws \<and> k = CHR '':'' # ws' \<and> list_all json_space ws \<and> list_all json_space ws')"

lemma foldl_put_distinct: "distinct (map fst (acc @ kvs)) \<Longrightarrow> foldl (tbl_put fst) acc kvs = acc @ kvs"
proof (induction kvs arbitrary: acc)
  case (Cons kv kvs)
  then have "tbl_put fst acc kv = acc @ [kv]" by (auto simp: tbl_put_def tbl_get_None_iff)
  then show ?case using Cons.IH [of "acc @ [kv]"] Cons.prems by simp
qed simp

lemma scalar_no_space:
  assumes "scalar v" "json_ok v"
  shows "list_all (\<lambda>c. \<not> word_end c) (json_print i k v)"
proof -
  have sp: "digit_code c \<Longrightarrow> \<not> json_space c" for c by (auto simp: digit_code_def json_space_def)
  have "\<not> json_space c" if "c \<in> set (json_print i k v)" for c
  proof (cases v)
    case (JInt n)
    then show ?thesis using that int_str_code [of c n] sp by (auto simp: json_space_def)
  next
    case (JFloat r)
    then have "float_text r" "c \<in> set r" using assms(2) that by simp_all
    then show ?thesis using sp [of c]
      by (cases "r \<in> {''NaN'', ''Infinity'', ''-Infinity''}")
         (auto simp: float_text_def list_all_iff float_char_def json_space_def)
  qed (use assms that in \<open>auto simp: scalar_def json_space_def split: if_splits\<close>)
  then show ?thesis using scalar_print_word [OF assms, of i k] by (auto simp: list_all_iff word_end_def)
qed

lemma print_first: "json_ok v \<Longrightarrow> \<exists>h t. json_print i k v = h # t \<and> \<not> json_space h \<and> \<not> delimiter h"
proof (cases "scalar v")
  case True
  assume "json_ok v"
  then show ?thesis using scalar_print_word [OF True, of i k] scalar_no_space [OF True, of i k]
    by (cases "json_print i k v") (auto simp: word_end_def)
next
  case False
  then show ?thesis by (cases v) (auto simp: scalar_def json_quote_def delimiter_def)
qed

lemma parse_scalar:
  assumes "scalar v" "json_ok v" "delimited rest" "list_all json_space ws"
  shows "parse_value (Suc n) (ws @ json_print i k v @ rest) = Some (v, rest)"
proof -
  obtain h t where p: "json_print i k v = h # t" "\<not> json_space h" using print_first [OF assms(2)] by blast
  have "h \<notin> {CHR 0x22, CHR ''['', CHR ''{''}" using scalar_print_word [OF assms(1,2), of i k] p by simp
  moreover have "takeWhile (\<lambda>c. \<not> word_end c) (json_print i k v @ rest) = json_print i k v"
    "dropWhile (\<lambda>c. \<not> word_end c) (json_print i k v @ rest) = rest"
    using scalar_no_space [OF assms(1,2), of i k] assms(3)
    by (cases rest; auto simp: takeWhile_append dropWhile_append list_all_iff delimited_def word_end_def)+
  ultimately show ?thesis
    using p parse_word_scalar [OF assms(1,2), of i k] assms(4)
    by (simp add: skip_ws_append skip_ws_id)
qed

text \<open>The value parses back, with enough fuel, in front of any delimiter and after any white space.\<close>

definition parses :: "string \<Rightarrow> string \<Rightarrow> json \<Rightarrow> bool" where
  "parses i k v = (\<forall>n ws rest. delimited rest \<longrightarrow> list_all json_space ws \<longrightarrow> length (json_print i k v) < n \<longrightarrow>
     parse_value n (ws @ json_print i k v @ rest) = Some (v, rest))"

lemma parsesD: "parses i k v \<Longrightarrow> delimited rest \<Longrightarrow> list_all json_space ws \<Longrightarrow> length (json_print i k v) < n \<Longrightarrow>
    parse_value n (ws @ json_print i k v @ rest) = Some (v, rest)"
  by (simp add: parses_def)

lemma scalar_parses: "scalar v \<Longrightarrow> json_ok v \<Longrightarrow> parses i k v"
  unfolding parses_def
proof (intro allI impI)
  fix n ws rest
  assume "scalar v" "json_ok v" "delimited rest" "list_all json_space ws" "length (json_print i k v) < n"
  then show "parse_value n (ws @ json_print i k v @ rest) = Some (v, rest)"
    using parse_scalar [of v rest ws "n - 1" i k] by (cases n) simp_all
qed

lemma parse_items_print:
  assumes "separators i k" "\<forall>v \<in> set vs. parses i k v" "vs \<noteq> []" "list_all json_space ws"
    and "length (py_join i (map (json_print i k) vs)) + 1 < n"
  shows "parse_items n (ws @ py_join i (map (json_print i k) vs) @ CHR '']'' # rest) = Some (vs, rest)"
  using assms
proof (induction vs arbitrary: n ws)
  case (Cons v vs)
  obtain w where i: "i = CHR '','' # w" and w: "list_all json_space w" using Cons.prems(1) by (auto simp: separators_def)
  obtain m where n: "n = Suc m" using Cons.prems(5) by (cases n) auto
  let ?rest = "(if vs = [] then [] else i @ py_join i (map (json_print i k) vs)) @ CHR '']'' # rest"
  have "parse_value m (ws @ json_print i k v @ ?rest) = Some (v, ?rest)"
    using Cons.prems n i by (intro parsesD) (auto simp: delimited_def delimiter_def py_join_Cons)
  moreover have "parse_items m (w @ py_join i (map (json_print i k) vs) @ CHR '']'' # rest) = Some (vs, rest)" if "vs \<noteq> []"
    using Cons.IH [of w m] Cons.prems n i w that by (auto simp: py_join_Cons)
  ultimately show ?case using n i by (cases "vs = []") (simp_all add: py_join_Cons)
qed simp

lemma parse_members_print:
  assumes "separators i k" "\<forall>(q, v) \<in> set kvs. parses i k v" "kvs \<noteq> []" "list_all json_space ws"
    and "length (py_join i (map (\<lambda>(q, v). json_quote q @ k @ json_print i k v) kvs)) + 1 < n"
  shows "parse_members n (ws @ py_join i (map (\<lambda>(q, v). json_quote q @ k @ json_print i k v) kvs) @ CHR ''}'' # rest)
    = Some (kvs, rest)"
  using assms
proof (induction kvs arbitrary: n ws)
  case (Cons kv kvs)
  obtain q v where kv: "kv = (q, v)" by (cases kv)
  obtain w w' where i: "i = CHR '','' # w" "k = CHR '':'' # w'" and w: "list_all json_space w" "list_all json_space w'"
    using Cons.prems(1) by (auto simp: separators_def)
  obtain m where n: "n = Suc m" using Cons.prems(5) by (cases n) auto
  let ?join = "py_join i (map (\<lambda>(q, v). json_quote q @ k @ json_print i k v) kvs)"
  let ?rest = "(if kvs = [] then [] else i @ ?join) @ CHR ''}'' # rest"
  have "eat (CHR 0x22) (ws @ json_quote q @ x) = Some (concat (map json_escape_char q) @ CHR 0x22 # x)" for x
    using Cons.prems(4) by (simp add: eat_def skip_ws_append json_quote_def skip_ws_id)
  then have key: "Option.bind (eat (CHR 0x22) (ws @ json_quote q @ x)) parse_string = Some (q, x)" for x
    by (simp add: parse_string_escaped)
  have "parse_value m (w' @ json_print i k v @ ?rest) = Some (v, ?rest)"
    using Cons.prems n i w kv by (intro parsesD) (auto simp: delimited_def delimiter_def py_join_Cons)
  then have val: "Option.bind (eat (CHR '':'') (k @ json_print i k v @ ?rest)) (parse_value m) = Some (v, ?rest)"
    using i by simp
  have more: "parse_members m (w @ ?join @ CHR ''}'' # rest) = Some (kvs, rest)" if "kvs \<noteq> []"
    using Cons.IH [of w m] Cons.prems n i w that by (auto simp: py_join_Cons)
  have shape: "ws @ py_join i (map (\<lambda>(q, v). json_quote q @ k @ json_print i k v) (kv # kvs)) @ CHR ''}'' # rest
      = ws @ json_quote q @ k @ json_print i k v @ ?rest"
    using kv by (simp add: py_join_Cons)
  show ?case unfolding shape n parse_members.simps key
    using val more i kv by (cases "kvs = []") simp_all
qed simp

lemma eat_none: "\<exists>h t. s = h # t \<and> \<not> json_space h \<and> h \<noteq> c \<Longrightarrow> eat c (s @ r) = None"
  by auto

lemma json_print_parses: "separators i k \<Longrightarrow> json_ok v \<Longrightarrow> json_dict v \<Longrightarrow> parses i k v"
proof (induction v)
  case (JStr s)
  show ?case unfolding parses_def
  proof (intro allI impI)
    fix n ws rest
    assume "list_all json_space ws" "length (json_print i k (JStr s)) < n"
    then show "parse_value n (ws @ json_print i k (JStr s) @ rest) = Some (JStr s, rest)"
      by (cases n) (simp_all add: json_quote_def skip_ws_append skip_ws_id parse_string_escaped)
  qed
next
  case (JArr vs)
  show ?case unfolding parses_def
  proof (intro allI impI)
    fix n ws rest
    assume *: "list_all json_space ws" "length (json_print i k (JArr vs)) < n"
    then obtain m where n: "n = Suc m" by (cases n) auto
    have "\<forall>v \<in> set vs. parses i k v" using JArr by (simp add: list_all_iff)
    then have items: "parse_items m (py_join i (map (json_print i k) vs) @ CHR '']'' # rest) = Some (vs, rest)" if "vs \<noteq> []"
      using parse_items_print [of i k vs "[]" m rest] JArr.prems(1) that * n by simp
    have "eat (CHR '']'') (py_join i (map (json_print i k) vs) @ CHR '']'' # rest) = None" if "vs \<noteq> []"
    proof -
      have "\<exists>h t. json_print i k (hd vs) = h # t \<and> \<not> json_space h \<and> h \<noteq> CHR '']''"
        using print_first [of "hd vs" i k] JArr.prems(2) that by (cases vs) (auto simp: delimiter_def)
      then show ?thesis using that by (cases vs) (auto simp: py_join_Cons intro!: eat_none)
    qed
    then show "parse_value n (ws @ json_print i k (JArr vs) @ rest) = Some (JArr vs, rest)"
      using n * items by (cases "vs = []") (simp_all add: skip_ws_append skip_ws_id)
  qed
next
  case (JObj kvs)
  let ?f = "\<lambda>(q, v). json_quote q @ k @ json_print i k v"
  have f: "(\<lambda>(k', t). json_quote k' @ k @ t) \<circ> map_prod id (json_print i k) = ?f" by auto
  show ?case unfolding parses_def
  proof (intro allI impI)
    fix n ws rest
    assume *: "list_all json_space ws" "length (json_print i k (JObj kvs)) < n"
    then obtain m where n: "n = Suc m" by (cases n) auto
    have "\<forall>(q, v) \<in> set kvs. parses i k v" using JObj by (fastforce simp: list_all_iff)
    then have items: "parse_members m (py_join i (map ?f kvs) @ CHR ''}'' # rest) = Some (kvs, rest)" if "kvs \<noteq> []"
      using parse_members_print [of i k kvs "[]" m rest] JObj.prems(1) that * n by (simp add: f)
    have "eat (CHR ''}'') (py_join i (map ?f kvs) @ CHR ''}'' # rest) = None" if "kvs \<noteq> []"
      using that by (cases kvs) (auto simp: py_join_Cons json_quote_def)
    moreover have "foldl (tbl_put fst) [] kvs = kvs"
      using foldl_put_distinct [of "[]" kvs] JObj.prems(3) by simp
    ultimately show "parse_value n (ws @ json_print i k (JObj kvs) @ rest) = Some (JObj kvs, rest)"
      using n * items by (cases "kvs = []") (simp_all add: skip_ws_append skip_ws_id f)
  qed
qed (simp_all add: scalar_parses scalar_def)

lemma json_dict_norm: "json_dict v \<Longrightarrow> json_dict (json_norm v)"
proof (induction v)
  case (JObj kvs)
  have "distinct (map fst (sort_key fst xs)) = distinct (map fst xs)" for xs :: "(string \<times> json) list"
    by (simp add: distinct_map)
  moreover have "map fst (map (map_prod id json_norm) kvs) = map fst kvs" by simp
  ultimately have "distinct (map fst (sort_key fst (map (map_prod id json_norm) kvs)))"
    using JObj.prems by simp
  then show ?case using JObj by (auto simp: list_all_iff)
qed (auto simp: list_all_iff)

lemma json_loads_print:
  assumes "separators i k" "json_ok v" "json_dict v"
  shows "json_loads (json_print i k v) = Some v"
proof -
  from parsesD [OF json_print_parses [OF assms], of "[]" "[]" "Suc (length (json_print i k v))"]
  have "parse_value (Suc (length (json_print i k v))) (json_print i k v) = Some (v, [])"
    by (simp only: append_Nil append_Nil2 lessI) (simp add: delimited_def)
  then show ?thesis by (simp only: json_loads_def option.case prod.case) (simp add: skip_ws_def)
qed

lemma json_loads_dumps:
  assumes "separators i k" "json_ok v" "json_dict v"
  shows "json_loads (json_dumps i k v) = Some (json_norm v)"
  unfolding json_dumps_print
  by (rule json_loads_print [OF assms(1) json_ok_norm [OF assms(2)] json_dict_norm [OF assms(3)]])

lemma default_separators [simp]: "separators '', '' '': ''"
  by (simp add: separators_def json_space_def)

lemma json_print_not_Nil: "json_ok v \<Longrightarrow> json_print i k v \<noteq> []"
  using print_first [of v i k] by auto

end
