(* ===== verification/Sha256.thy ===== *)
theory Sha256
  imports Prelude "HOL-Library.Word"
begin

text \<open>
  \<open>hashlib.sha256(text.encode("utf-8")).hexdigest()\<close> as the program calls it: the
  UTF-8 encoding of a text over the code points U+0000 to U+00FF, and SHA-256 over
  32-bit words as FIPS 180-4 defines it. The development never assumes that
  the digest is injective: theorems that rest on two digests being equal carry the
  alternative that the two inputs collide.
\<close>

unbundle bit_operations_syntax

type_synonym w32 = "32 word"

definition utf8_encode :: "string \<Rightarrow> nat list" where
  "utf8_encode s = concat (map (\<lambda>c. let n = of_char c in
     if n < 128 then [n] else [192 + n div 64, 128 + n mod 64]) s)"

definition sha_k :: "w32 list" where
  "sha_k = [
   1116352408, 1899447441, 3049323471, 3921009573, 961987163, 1508970993, 2453635748, 2870763221,
   3624381080, 310598401, 607225278, 1426881987, 1925078388, 2162078206, 2614888103, 3248222580,
   3835390401, 4022224774, 264347078, 604807628, 770255983, 1249150122, 1555081692, 1996064986,
   2554220882, 2821834349, 2952996808, 3210313671, 3336571891, 3584528711, 113926993, 338241895,
   666307205, 773529912, 1294757372, 1396182291, 1695183700, 1986661051, 2177026350, 2456956037,
   2730485921, 2820302411, 3259730800, 3345764771, 3516065817, 3600352804, 4094571909, 275423344,
   430227734, 506948616, 659060556, 883997877, 958139571, 1322822218, 1537002063, 1747873779,
   1955562222, 2024104815, 2227730452, 2361852424, 2428436474, 2756734187, 3204031479, 3329325298]"

definition sha_h0 :: "w32 list" where
  "sha_h0 = [1779033703, 3144134277, 1013904242, 2773480762, 1359893119, 2600822924, 528734635, 1541459225]"

definition sha_rotr :: "nat \<Rightarrow> w32 \<Rightarrow> w32" where
  "sha_rotr n x = (drop_bit n x OR push_bit (32 - n) x)"

definition sha_ch :: "w32 \<Rightarrow> w32 \<Rightarrow> w32 \<Rightarrow> w32" where
  "sha_ch x y z = ((x AND y) XOR ((NOT x) AND z))"

definition sha_maj :: "w32 \<Rightarrow> w32 \<Rightarrow> w32 \<Rightarrow> w32" where
  "sha_maj x y z = ((x AND y) XOR (x AND z) XOR (y AND z))"

definition sha_S0 :: "w32 \<Rightarrow> w32" where
  "sha_S0 x = (sha_rotr 2 x XOR sha_rotr 13 x XOR sha_rotr 22 x)"

definition sha_S1 :: "w32 \<Rightarrow> w32" where
  "sha_S1 x = (sha_rotr 6 x XOR sha_rotr 11 x XOR sha_rotr 25 x)"

definition sha_s0 :: "w32 \<Rightarrow> w32" where
  "sha_s0 x = (sha_rotr 7 x XOR sha_rotr 18 x XOR drop_bit 3 x)"

definition sha_s1 :: "w32 \<Rightarrow> w32" where
  "sha_s1 x = (sha_rotr 17 x XOR sha_rotr 19 x XOR drop_bit 10 x)"

text \<open>Padding: a one bit, zeros up to 56 bytes modulo 64, then the length in bits as eight bytes.\<close>

definition sha_pad :: "nat list \<Rightarrow> nat list" where
  "sha_pad bs = (let n = length bs; z = (119 - n mod 64) mod 64 in
     bs @ [128] @ replicate z 0 @ map (\<lambda>i. (8 * n) div 256 ^ (7 - i) mod 256) [0..<8])"

fun sha_words :: "nat list \<Rightarrow> w32 list" where
  "sha_words (a # b # c # d # r) =
     word_of_nat (a * 16777216 + b * 65536 + c * 256 + d) # sha_words r"
| "sha_words _ = []"

text \<open>The message schedule: 48 further words, each from the sixteen before it.\<close>

primrec sha_extend :: "nat \<Rightarrow> w32 list \<Rightarrow> w32 list" where
  "sha_extend 0 ws = ws"
| "sha_extend (Suc k) ws = (let n = length ws in
     sha_extend k (ws @ [sha_s1 (ws ! (n - 2)) + ws ! (n - 7) + sha_s0 (ws ! (n - 15)) + ws ! (n - 16)]))"

type_synonym sha_state = "w32 \<times> w32 \<times> w32 \<times> w32 \<times> w32 \<times> w32 \<times> w32 \<times> w32"

fun sha_round :: "w32 \<times> w32 \<Rightarrow> sha_state \<Rightarrow> sha_state" where
  "sha_round (k, w) (a, b, c, d, e, f, g, h) =
     (let t1 = h + sha_S1 e + sha_ch e f g + k + w; t2 = sha_S0 a + sha_maj a b c
      in (t1 + t2, a, b, c, d + t1, e, f, g))"

definition sha_state_of :: "w32 list \<Rightarrow> sha_state" where
  "sha_state_of hs = (hs ! 0, hs ! 1, hs ! 2, hs ! 3, hs ! 4, hs ! 5, hs ! 6, hs ! 7)"

fun sha_state_list :: "sha_state \<Rightarrow> w32 list" where
  "sha_state_list (a, b, c, d, e, f, g, h) = [a, b, c, d, e, f, g, h]"

definition sha_block :: "w32 list \<Rightarrow> w32 list \<Rightarrow> w32 list" where
  "sha_block hs ws = map2 (+) hs
     (sha_state_list (fold sha_round (zip sha_k (sha_extend 48 ws)) (sha_state_of hs)))"

fun sha_blocks :: "nat \<Rightarrow> w32 list \<Rightarrow> w32 list \<Rightarrow> w32 list" where
  "sha_blocks 0 hs ws = hs"
| "sha_blocks (Suc n) hs ws = sha_blocks n (sha_block hs (take 16 ws)) (drop 16 ws)"

definition hex8 :: "w32 \<Rightarrow> string" where
  "hex8 w = map (\<lambda>i. digit_char (unat w div 16 ^ (7 - i) mod 16)) [0..<8]"

definition sha256_bytes :: "nat list \<Rightarrow> string" where
  "sha256_bytes bs = (let ws = sha_words (sha_pad bs) in
     concat (map hex8 (sha_blocks (length ws div 16) sha_h0 ws)))"

definition sha256_hex :: "string \<Rightarrow> string" where
  "sha256_hex s = sha256_bytes (utf8_encode s)"

section \<open>Shape of the digest\<close>

lemma length_sha_state_list [simp]: "length (sha_state_list st) = 8"
  by (cases st rule: sha_state_list.cases) simp

lemma length_sha_blocks: "length hs = 8 \<Longrightarrow> length (sha_blocks n hs ws) = 8"
  by (induction n hs ws rule: sha_blocks.induct) (simp_all add: sha_block_def)

lemma length_hex8 [simp]: "length (hex8 w) = 8"
  by (simp add: hex8_def)

lemma length_sha256_hex: "length (sha256_hex s) = 64"
proof -
  have len: "length (concat (map hex8 ws)) = 8 * length ws" for ws
    by (induction ws) simp_all
  have "length (sha_blocks n sha_h0 ws) = 8" for n ws
    by (rule length_sha_blocks) (simp add: sha_h0_def)
  then show ?thesis by (simp add: sha256_hex_def sha256_bytes_def Let_def len)
qed

end
