(* ===== verification/Schemas.thy ===== *)
theory Schemas
  imports Json
begin

text \<open>
  The domain contracts of the decision and action layer
  (\<open>app/decision_intelligence/schemas.py\<close>) and the shared enumerations of
  \<open>app/database/models.py\<close>. Each enum is a datatype, each pydantic model a record whose
  fields carry the model's prefix. The persisted mirror enums
  (\<open>PersistedActionStatus\<close>, \<open>ActionApprovalStatus\<close>, \<open>PersistedActionPlanStatus\<close>) have the
  same members and are only ever converted through \<open>.value\<close>, so they share the type.
\<close>

section \<open>Enumerations\<close>

datatype risk_level = LOW | MEDIUM | HIGH | CRITICAL

datatype permission_level = READ | WRITE | EXTERNAL_ACTION | FINANCIAL_ACTION | ADMIN

datatype decision_status = DS_PROPOSED | DS_INSUFFICIENT_EVIDENCE | DS_READY_FOR_ACTION
  | DS_APPROVAL_REQUIRED | DS_APPROVED | DS_REJECTED | DS_SUPERSEDED

datatype plan_status = PS_DRAFT | PS_VALIDATING | PS_READY | PS_WAITING_FOR_APPROVAL
  | PS_EXECUTING | PS_PARTIALLY_COMPLETED | PS_COMPLETED | PS_FAILED | PS_CANCELLED

datatype action_status = AS_PLANNED | AS_VALIDATED | AS_PERMISSION_CHECKED
  | AS_WAITING_FOR_APPROVAL | AS_APPROVED | AS_EXECUTING | AS_EXECUTION_SUCCEEDED
  | AS_VERIFYING | AS_VERIFIED | AS_VERIFICATION_FAILED | AS_COMPLETED | AS_FAILED
  | AS_REJECTED | AS_CANCELLED | AS_BLOCKED

datatype approval_status = AR_PENDING | AR_APPROVED | AR_REJECTED | AR_EXPIRED | AR_CANCELLED

datatype failure_category = FC_TRANSIENT | FC_VALIDATION | FC_PERMISSION | FC_APPROVAL
  | FC_TOOL | FC_VERIFICATION | FC_BUDGET | FC_SECURITY | FC_UNKNOWN

datatype executor_failure_code = EC_VALIDATION_FAILURE | EC_PERMISSION_FAILURE
  | EC_APPROVAL_FAILURE | EC_ADAPTER_NOT_FOUND | EC_SANDBOX_VIOLATION
  | EC_TOOL_EXECUTION_FAILURE | EC_VERIFICATION_FAILURE | EC_INTERNAL_FAILURE

subsection \<open>The enums' values\<close>

fun risk_level_value :: "risk_level \<Rightarrow> string" where
  "risk_level_value LOW = ''LOW''"
| "risk_level_value MEDIUM = ''MEDIUM''"
| "risk_level_value HIGH = ''HIGH''"
| "risk_level_value CRITICAL = ''CRITICAL''"

fun permission_level_value :: "permission_level \<Rightarrow> string" where
  "permission_level_value READ = ''READ''"
| "permission_level_value WRITE = ''WRITE''"
| "permission_level_value EXTERNAL_ACTION = ''EXTERNAL_ACTION''"
| "permission_level_value FINANCIAL_ACTION = ''FINANCIAL_ACTION''"
| "permission_level_value ADMIN = ''ADMIN''"

fun action_status_value :: "action_status \<Rightarrow> string" where
  "action_status_value AS_PLANNED = ''PLANNED''"
| "action_status_value AS_VALIDATED = ''VALIDATED''"
| "action_status_value AS_PERMISSION_CHECKED = ''PERMISSION_CHECKED''"
| "action_status_value AS_WAITING_FOR_APPROVAL = ''WAITING_FOR_APPROVAL''"
| "action_status_value AS_APPROVED = ''APPROVED''"
| "action_status_value AS_EXECUTING = ''EXECUTING''"
| "action_status_value AS_EXECUTION_SUCCEEDED = ''EXECUTION_SUCCEEDED''"
| "action_status_value AS_VERIFYING = ''VERIFYING''"
| "action_status_value AS_VERIFIED = ''VERIFIED''"
| "action_status_value AS_VERIFICATION_FAILED = ''VERIFICATION_FAILED''"
| "action_status_value AS_COMPLETED = ''COMPLETED''"
| "action_status_value AS_FAILED = ''FAILED''"
| "action_status_value AS_REJECTED = ''REJECTED''"
| "action_status_value AS_CANCELLED = ''CANCELLED''"
| "action_status_value AS_BLOCKED = ''BLOCKED''"

fun decision_status_value :: "decision_status \<Rightarrow> string" where
  "decision_status_value DS_PROPOSED = ''PROPOSED''"
| "decision_status_value DS_INSUFFICIENT_EVIDENCE = ''INSUFFICIENT_EVIDENCE''"
| "decision_status_value DS_READY_FOR_ACTION = ''READY_FOR_ACTION''"
| "decision_status_value DS_APPROVAL_REQUIRED = ''APPROVAL_REQUIRED''"
| "decision_status_value DS_APPROVED = ''APPROVED''"
| "decision_status_value DS_REJECTED = ''REJECTED''"
| "decision_status_value DS_SUPERSEDED = ''SUPERSEDED''"

fun approval_status_value :: "approval_status \<Rightarrow> string" where
  "approval_status_value AR_PENDING = ''PENDING''"
| "approval_status_value AR_APPROVED = ''APPROVED''"
| "approval_status_value AR_REJECTED = ''REJECTED''"
| "approval_status_value AR_EXPIRED = ''EXPIRED''"
| "approval_status_value AR_CANCELLED = ''CANCELLED''"

fun failure_category_value :: "failure_category \<Rightarrow> string" where
  "failure_category_value FC_TRANSIENT = ''TRANSIENT''"
| "failure_category_value FC_VALIDATION = ''VALIDATION''"
| "failure_category_value FC_PERMISSION = ''PERMISSION''"
| "failure_category_value FC_APPROVAL = ''APPROVAL''"
| "failure_category_value FC_TOOL = ''TOOL''"
| "failure_category_value FC_VERIFICATION = ''VERIFICATION''"
| "failure_category_value FC_BUDGET = ''BUDGET''"
| "failure_category_value FC_SECURITY = ''SECURITY''"
| "failure_category_value FC_UNKNOWN = ''UNKNOWN''"

fun executor_failure_code_value :: "executor_failure_code \<Rightarrow> string" where
  "executor_failure_code_value EC_VALIDATION_FAILURE = ''VALIDATION_FAILURE''"
| "executor_failure_code_value EC_PERMISSION_FAILURE = ''PERMISSION_FAILURE''"
| "executor_failure_code_value EC_APPROVAL_FAILURE = ''APPROVAL_FAILURE''"
| "executor_failure_code_value EC_ADAPTER_NOT_FOUND = ''ADAPTER_NOT_FOUND''"
| "executor_failure_code_value EC_SANDBOX_VIOLATION = ''SANDBOX_VIOLATION''"
| "executor_failure_code_value EC_TOOL_EXECUTION_FAILURE = ''TOOL_EXECUTION_FAILURE''"
| "executor_failure_code_value EC_VERIFICATION_FAILURE = ''VERIFICATION_FAILURE''"
| "executor_failure_code_value EC_INTERNAL_FAILURE = ''INTERNAL_FAILURE''"

text \<open>\<open>ExecutorFailureCode(text)\<close>: the inverse, \<open>None\<close> for the ValueError.\<close>

definition all_executor_failure_codes :: "executor_failure_code list" where
  "all_executor_failure_codes = [EC_VALIDATION_FAILURE, EC_PERMISSION_FAILURE,
     EC_APPROVAL_FAILURE, EC_ADAPTER_NOT_FOUND, EC_SANDBOX_VIOLATION,
     EC_TOOL_EXECUTION_FAILURE, EC_VERIFICATION_FAILURE, EC_INTERNAL_FAILURE]"

definition executor_failure_code_of :: "string \<Rightarrow> executor_failure_code option" where
  "executor_failure_code_of s =
     List.find (\<lambda>c. executor_failure_code_value c = s) all_executor_failure_codes"

text \<open>The mapping \<open>EXECUTOR_FAILURE_CATEGORY\<close>.\<close>

fun executor_failure_category :: "executor_failure_code \<Rightarrow> failure_category" where
  "executor_failure_category EC_VALIDATION_FAILURE = FC_VALIDATION"
| "executor_failure_category EC_PERMISSION_FAILURE = FC_PERMISSION"
| "executor_failure_category EC_APPROVAL_FAILURE = FC_APPROVAL"
| "executor_failure_category EC_ADAPTER_NOT_FOUND = FC_TOOL"
| "executor_failure_category EC_SANDBOX_VIOLATION = FC_SECURITY"
| "executor_failure_category EC_TOOL_EXECUTION_FAILURE = FC_TOOL"
| "executor_failure_category EC_VERIFICATION_FAILURE = FC_VERIFICATION"
| "executor_failure_category EC_INTERNAL_FAILURE = FC_UNKNOWN"

lemma executor_failure_code_roundtrip [simp]:
  "executor_failure_code_of (executor_failure_code_value c) = Some c"
  by (cases c) (simp_all add: executor_failure_code_of_def all_executor_failure_codes_def)

section \<open>Models\<close>

record decision =
  d_id :: string
  d_project_id :: string
  d_title :: string
  d_statement :: string
  d_status :: decision_status
  d_confidence :: py_float
  d_evidence_ids :: "string list"
  d_assumptions :: "string list"
  d_unresolved_gaps :: "string list"
  d_risks :: "string list"
  d_alternatives_considered :: "string list"
  d_rationale :: string
  d_comparison_ready :: bool
  d_actionable :: bool
  d_recommended_next_step :: "string option"
  d_created_by :: string
  d_created_at :: datetime

record action =
  a_id :: string
  a_action_plan_id :: string
  a_sequence :: int
  a_action_type :: string
  a_title :: string
  a_description :: string
  a_agent_type :: string
  a_tool_name :: "string option"
  a_inputs :: "(string \<times> json) list"
  a_risk_level :: risk_level
  a_permission_level :: permission_level
  a_approval_required :: bool
  a_approval_id :: "string option"
  a_estimated_cost :: "py_float option"
  a_dependencies :: "string list"
  a_expected_result :: string
  a_success_criteria :: string
  a_verification_method :: string
  a_status :: action_status
  a_started_at :: "datetime option"
  a_completed_at :: "datetime option"
  a_result :: "(string \<times> json) list option"
  a_error :: "string option"
  a_retry_count :: int
  a_max_retries :: int
  a_superseded_by :: "string option"

record action_plan =
  p_id :: string
  p_decision_id :: string
  p_project_id :: "string option"
  p_title :: string
  p_description :: string
  p_actions :: "action list"
  p_estimated_cost :: "py_float option"
  p_estimated_model_calls :: "int option"
  p_success_criteria :: string
  p_failure_policy :: string
  p_status :: plan_status
  p_created_by :: string
  p_created_at :: datetime
  p_revision :: int

record approval_request =
  ar_id :: string
  ar_action_id :: string
  ar_requested_by :: string
  ar_reason :: string
  ar_action_summary :: string
  ar_risk_summary :: string
  ar_permission_level :: permission_level
  ar_estimated_cost :: "py_float option"
  ar_proposed_inputs :: "(string \<times> json) list"
  ar_expected_effect :: string
  ar_action_hash :: string
  ar_status :: approval_status
  ar_requested_at :: datetime
  ar_decided_at :: "datetime option"
  ar_decided_by :: "string option"
  ar_expires_at :: "datetime option"
  ar_consumed :: bool
  ar_consumed_at :: "datetime option"

record execution_result =
  er_action_id :: string
  er_tool_name :: "string option"
  er_started_at :: datetime
  er_completed_at :: datetime
  er_success :: bool
  er_provider_status :: "string option"
  er_output :: "(string \<times> json) list option"
  er_side_effects :: "string list"
  er_cost :: "py_float option"
  er_error_type :: "failure_category option"
  er_error_message :: "string option"
  er_execution_attempt_id :: "string option"
  er_error_code :: "string option"
  er_side_effect_occurred :: bool
  er_adapter_version :: "string option"

record verification_result =
  vr_action_id :: string
  vr_method :: string
  vr_expected :: "string option"
  vr_observed :: "string option"
  vr_passed :: bool
  vr_confidence :: py_float
  vr_issues :: "string list"
  vr_verified_at :: datetime

text \<open>The actions of a plan, keyed by id: the last action with an id wins, as in a dict comprehension.\<close>

definition actions_by_id :: "action list \<Rightarrow> string \<Rightarrow> action option" where
  "actions_by_id as i = List.find (\<lambda>a. a_id a = i) (rev as)"

lemma actions_by_id_SomeD: "actions_by_id as i = Some a \<Longrightarrow> a \<in> set as \<and> a_id a = i"
  unfolding actions_by_id_def by (drule find_Some_mem) simp

lemma actions_by_id_None_iff: "actions_by_id as i = None \<longleftrightarrow> i \<notin> a_id ` set as"
  by (auto simp: actions_by_id_def find_None_iff')

lemma actions_by_id_mem:
  assumes "distinct (map a_id as)" and "a \<in> set as"
  shows "actions_by_id as (a_id a) = Some a"
proof -
  have "actions_by_id as (a_id a) \<noteq> None"
    using assms(2) by (simp add: actions_by_id_None_iff)
  then obtain b where b: "actions_by_id as (a_id a) = Some b" by blast
  then have "b \<in> set as" and "a_id b = a_id a"
    by (auto dest: actions_by_id_SomeD)
  with assms have "b = a" by (metis inj_on_def distinct_map)
  with b show ?thesis by simp
qed

end
