(* ===== verification/Lifecycles.thy ===== *)
theory Lifecycles
  imports Schemas
begin

text \<open>
  The explicit state machines: Action (\<open>action_state_machine.py\<close>), ActionPlan
  (\<open>action_plan_state_machine.py\<close>) and the older Task machine
  (\<open>app/orchestration/state_machine.py\<close>). The interface they share, a transition table with
  a membership test and a raising check, is the locale \<open>transition_table\<close>; a machine whose
  steps climb a rank is a \<open>forward_only_table\<close>.
\<close>

section \<open>The interface: a transition table\<close>

text \<open>A run of a machine: the statuses visited after the first one.\<close>

fun status_path :: "('s \<Rightarrow> 's \<Rightarrow> bool) \<Rightarrow> 's \<Rightarrow> 's list \<Rightarrow> bool" where
  "status_path can s [] = True"
| "status_path can s (t # ts) = (can s t \<and> status_path can t ts)"

text \<open>The program's way to follow a run: one \<open>assert_transition\<close> per hop, stopping at the first error.\<close>

fun assert_path :: "('s \<Rightarrow> 's \<Rightarrow> 'e + unit) \<Rightarrow> 's \<Rightarrow> 's list \<Rightarrow> 'e + 's" where
  "assert_path chk s [] = Inr s"
| "assert_path chk s (t # ts) =
     (case chk s t of Inl e \<Rightarrow> Inl e | Inr _ \<Rightarrow> assert_path chk t ts)"

locale transition_table =
  fixes valid_transitions :: "'s \<Rightarrow> 's list"
    and can_transition :: "'s \<Rightarrow> 's \<Rightarrow> bool"
    and assert_transition :: "'s \<Rightarrow> 's \<Rightarrow> 'e + unit"
    and transition_error :: "'s \<Rightarrow> 's \<Rightarrow> 'e"
  assumes can_iff: "can_transition s t \<longleftrightarrow> t \<in> set (valid_transitions s)"
    and assert_eq: "assert_transition s t =
      (if can_transition s t then Inr () else Inl (transition_error s t))"
begin

lemma assert_ok_iff: "assert_transition s t = Inr u \<longleftrightarrow> can_transition s t"
  by (simp add: assert_eq)

lemma assert_path_iff: "assert_path assert_transition s ts = Inr t \<longleftrightarrow>
    status_path can_transition s ts \<and> t = last (s # ts)"
proof (induction ts arbitrary: s)
  case Nil
  then show ?case by auto
next
  case (Cons u ts)
  then show ?case by (auto simp: assert_eq)
qed

lemma dead_end_path: "valid_transitions s = [] \<Longrightarrow> status_path can_transition s ts \<Longrightarrow> ts = []"
  by (cases ts) (simp_all add: can_iff)

text \<open>
  A gate: if a set of statuses can only be left through \<open>g\<close>, every run from inside the
  set to a status outside it visits \<open>g\<close>.
\<close>

lemma gate_on_path:
  assumes "\<And>x y. \<lbrakk>x \<in> S; can_transition x y\<rbrakk> \<Longrightarrow> y = g \<or> y \<in> S"
    and "s \<in> S" and "status_path can_transition s ts" and "last (s # ts) \<notin> S"
  shows "g \<in> set ts"
  using assms(2-4)
proof (induction ts arbitrary: s)
  case Nil
  then show ?case by simp
next
  case (Cons u ts)
  then have "u = g \<or> u \<in> S" using assms(1) by simp
  with Cons show ?case by (cases "u = g") auto
qed

end

locale forward_only_table = transition_table +
  fixes rank :: "'s \<Rightarrow> nat" and top :: nat
  assumes rank_climbs: "can_transition s t \<Longrightarrow> rank s < rank t"
    and rank_bound: "rank s \<le> top"
begin

lemma path_length: "status_path can_transition s ts \<Longrightarrow> rank s + length ts \<le> rank (last (s # ts))"
proof (induction ts arbitrary: s)
  case Nil
  then show ?case by simp
next
  case (Cons t ts)
  then have "rank s < rank t" and "rank t + length ts \<le> rank (last (t # ts))"
    using rank_climbs by auto
  then show ?case by simp
qed

lemma path_bounded: "status_path can_transition s ts \<Longrightarrow> length ts \<le> top - rank s"
  using path_length [of s ts] rank_bound [of "last (s # ts)"] by linarith

lemma path_no_revisit:
  assumes "status_path can_transition s ts"
  shows "s \<notin> set ts"
proof -
  have "status_path can_transition s ts \<Longrightarrow> t \<in> set ts \<Longrightarrow> rank s < rank t" for s t ts
  proof (induction ts arbitrary: s)
    case Nil
    then show ?case by simp
  next
    case (Cons u us)
    then show ?case using rank_climbs [of s u] by (cases "t = u") (auto dest: less_trans)
  qed
  with assms show ?thesis by blast
qed

lemma path_distinct: "status_path can_transition s ts \<Longrightarrow> distinct (s # ts)"
proof (induction ts arbitrary: s)
  case (Cons t ts)
  then show ?case using path_no_revisit [OF Cons.prems] by auto
qed simp

end

section \<open>The Action machine\<close>

fun action_valid_transitions :: "action_status \<Rightarrow> action_status list" where
  "action_valid_transitions AS_PLANNED =
     [AS_VALIDATED, AS_REJECTED, AS_CANCELLED, AS_BLOCKED, AS_FAILED]"
| "action_valid_transitions AS_VALIDATED =
     [AS_PERMISSION_CHECKED, AS_REJECTED, AS_CANCELLED, AS_BLOCKED, AS_FAILED]"
| "action_valid_transitions AS_PERMISSION_CHECKED =
     [AS_WAITING_FOR_APPROVAL, AS_EXECUTING, AS_REJECTED, AS_CANCELLED, AS_BLOCKED, AS_FAILED]"
| "action_valid_transitions AS_WAITING_FOR_APPROVAL = [AS_APPROVED, AS_REJECTED, AS_CANCELLED]"
| "action_valid_transitions AS_APPROVED = [AS_EXECUTING, AS_CANCELLED]"
| "action_valid_transitions AS_EXECUTING = [AS_EXECUTION_SUCCEEDED, AS_FAILED, AS_CANCELLED]"
| "action_valid_transitions AS_EXECUTION_SUCCEEDED = [AS_VERIFYING]"
| "action_valid_transitions AS_VERIFYING = [AS_VERIFIED, AS_VERIFICATION_FAILED]"
| "action_valid_transitions AS_VERIFIED = [AS_COMPLETED]"
| "action_valid_transitions AS_VERIFICATION_FAILED = [AS_FAILED, AS_BLOCKED]"
| "action_valid_transitions AS_BLOCKED = [AS_CANCELLED]"
| "action_valid_transitions AS_COMPLETED = []"
| "action_valid_transitions AS_FAILED = []"
| "action_valid_transitions AS_REJECTED = []"
| "action_valid_transitions AS_CANCELLED = []"

datatype action_transition_error = ActionTransitionError action_status action_status

definition can_action_transition :: "action_status \<Rightarrow> action_status \<Rightarrow> bool" where
  "can_action_transition current target = (target \<in> set (action_valid_transitions current))"

definition assert_action_transition ::
  "action_status \<Rightarrow> action_status \<Rightarrow> action_transition_error + unit" where
  "assert_action_transition current target =
     (if \<not> can_action_transition current target then Inl (ActionTransitionError current target)
      else Inr ())"

text \<open>The longest distance from \<open>PLANNED\<close>: each legal step increases it.\<close>

fun action_rank :: "action_status \<Rightarrow> nat" where
  "action_rank AS_PLANNED = 0"
| "action_rank AS_VALIDATED = 1"
| "action_rank AS_PERMISSION_CHECKED = 2"
| "action_rank AS_WAITING_FOR_APPROVAL = 3"
| "action_rank AS_APPROVED = 4"
| "action_rank AS_EXECUTING = 5"
| "action_rank AS_EXECUTION_SUCCEEDED = 6"
| "action_rank AS_VERIFYING = 7"
| "action_rank AS_VERIFIED = 8"
| "action_rank AS_VERIFICATION_FAILED = 8"
| "action_rank AS_COMPLETED = 9"
| "action_rank AS_FAILED = 9"
| "action_rank AS_REJECTED = 9"
| "action_rank AS_BLOCKED = 9"
| "action_rank AS_CANCELLED = 10"

lemma can_action_transition_simps [state_machine]:
  "can_action_transition s t \<longleftrightarrow> t \<in> set (action_valid_transitions s)"
  by (simp add: can_action_transition_def)

interpretation action_machine: forward_only_table
  action_valid_transitions can_action_transition assert_action_transition
  ActionTransitionError action_rank 10
proof unfold_locales
  fix s t
  show "can_action_transition s t \<Longrightarrow> action_rank s < action_rank t"
    by (cases s) (auto simp: state_machine)
next
  fix s
  show "action_rank s \<le> 10" by (cases s) simp_all
qed (simp_all add: can_action_transition_def assert_action_transition_def)

definition action_terminal :: "action_status \<Rightarrow> bool" where
  "action_terminal s = (action_valid_transitions s = [])"

lemma action_terminal_iff: "action_terminal s \<longleftrightarrow>
    s \<in> {AS_COMPLETED, AS_FAILED, AS_REJECTED, AS_CANCELLED}"
  by (cases s) (simp_all add: action_terminal_def)

section \<open>The ActionPlan machine\<close>

fun plan_valid_transitions :: "plan_status \<Rightarrow> plan_status list" where
  "plan_valid_transitions PS_DRAFT = [PS_VALIDATING, PS_FAILED, PS_CANCELLED]"
| "plan_valid_transitions PS_VALIDATING = [PS_READY, PS_FAILED, PS_CANCELLED]"
| "plan_valid_transitions PS_READY = [PS_EXECUTING, PS_CANCELLED]"
| "plan_valid_transitions PS_EXECUTING =
     [PS_WAITING_FOR_APPROVAL, PS_PARTIALLY_COMPLETED, PS_COMPLETED, PS_FAILED, PS_CANCELLED]"
| "plan_valid_transitions PS_WAITING_FOR_APPROVAL =
     [PS_EXECUTING, PS_PARTIALLY_COMPLETED, PS_FAILED, PS_CANCELLED]"
| "plan_valid_transitions PS_PARTIALLY_COMPLETED =
     [PS_EXECUTING, PS_WAITING_FOR_APPROVAL, PS_COMPLETED, PS_FAILED, PS_CANCELLED]"
| "plan_valid_transitions PS_COMPLETED = []"
| "plan_valid_transitions PS_FAILED = []"
| "plan_valid_transitions PS_CANCELLED = []"

datatype plan_transition_error = ActionPlanTransitionError plan_status plan_status

definition can_plan_transition :: "plan_status \<Rightarrow> plan_status \<Rightarrow> bool" where
  "can_plan_transition current target = (target \<in> set (plan_valid_transitions current))"

definition assert_plan_transition :: "plan_status \<Rightarrow> plan_status \<Rightarrow> plan_transition_error + unit" where
  "assert_plan_transition current target =
     (if \<not> can_plan_transition current target then Inl (ActionPlanTransitionError current target)
      else Inr ())"

interpretation plan_machine: transition_table
  plan_valid_transitions can_plan_transition assert_plan_transition ActionPlanTransitionError
  by unfold_locales (simp_all add: can_plan_transition_def assert_plan_transition_def)

section \<open>The Task machine\<close>

datatype task_status = TS_PENDING | TS_PLANNED | TS_READY | TS_RUNNING | TS_WAITING
  | TS_NEEDS_APPROVAL | TS_COMPLETED | TS_FAILED | TS_CANCELLED

fun task_valid_transitions :: "task_status \<Rightarrow> task_status list" where
  "task_valid_transitions TS_PENDING = [TS_PLANNED, TS_CANCELLED]"
| "task_valid_transitions TS_PLANNED = [TS_READY, TS_CANCELLED]"
| "task_valid_transitions TS_READY = [TS_RUNNING, TS_CANCELLED]"
| "task_valid_transitions TS_RUNNING =
     [TS_WAITING, TS_NEEDS_APPROVAL, TS_COMPLETED, TS_FAILED, TS_CANCELLED]"
| "task_valid_transitions TS_WAITING = [TS_RUNNING, TS_CANCELLED]"
| "task_valid_transitions TS_NEEDS_APPROVAL = [TS_READY, TS_CANCELLED, TS_FAILED]"
| "task_valid_transitions TS_FAILED = [TS_READY, TS_CANCELLED]"
| "task_valid_transitions TS_COMPLETED = []"
| "task_valid_transitions TS_CANCELLED = []"

datatype task_transition_error = InvalidTransitionError task_status task_status

definition can_task_transition :: "task_status \<Rightarrow> task_status \<Rightarrow> bool" where
  "can_task_transition current target = (target \<in> set (task_valid_transitions current))"

definition assert_task_transition :: "task_status \<Rightarrow> task_status \<Rightarrow> task_transition_error + unit" where
  "assert_task_transition current target =
     (if \<not> can_task_transition current target then Inl (InvalidTransitionError current target)
      else Inr ())"

interpretation task_machine: transition_table
  task_valid_transitions can_task_transition assert_task_transition InvalidTransitionError
  by unfold_locales (simp_all add: can_task_transition_def assert_task_transition_def)

section \<open>Properties\<close>

text \<open>No Action reaches \<open>COMPLETED\<close> from \<open>PLANNED\<close> by steps the state machine admits
  without passing validation, the permission check, execution and a successful verification.\<close>

theorem action_completion_path:
  assumes "status_path can_action_transition AS_PLANNED ts"
    and "last (AS_PLANNED # ts) = AS_COMPLETED"
  shows "{AS_VALIDATED, AS_PERMISSION_CHECKED, AS_EXECUTING, AS_EXECUTION_SUCCEEDED,
           AS_VERIFYING, AS_VERIFIED} \<subseteq> set ts"
proof -
  let ?dead = "{AS_FAILED, AS_REJECTED, AS_CANCELLED, AS_BLOCKED}"
  let ?pre = "{AS_PLANNED, AS_VALIDATED, AS_PERMISSION_CHECKED, AS_WAITING_FOR_APPROVAL, AS_APPROVED}"
  note gate = action_machine.gate_on_path [OF _ _ assms(1), unfolded state_machine assms(2)]
  have "AS_VALIDATED \<in> set ts"
    by (rule gate [where S = "insert AS_PLANNED ?dead"]) auto
  moreover have "AS_PERMISSION_CHECKED \<in> set ts"
    by (rule gate [where S = "{AS_PLANNED, AS_VALIDATED} \<union> ?dead"]) auto
  moreover have "AS_EXECUTING \<in> set ts"
    by (rule gate [where S = "?pre \<union> ?dead"]) auto
  moreover have "AS_EXECUTION_SUCCEEDED \<in> set ts"
    by (rule gate [where S = "insert AS_EXECUTING ?pre \<union> ?dead"]) auto
  moreover have "AS_VERIFYING \<in> set ts"
    by (rule gate [where S = "{AS_EXECUTING, AS_EXECUTION_SUCCEEDED} \<union> ?pre \<union> ?dead"]) auto
  moreover have "AS_VERIFIED \<in> set ts"
    by (rule gate [where S = "{AS_EXECUTING, AS_EXECUTION_SUCCEEDED, AS_VERIFYING,
          AS_VERIFICATION_FAILED} \<union> ?pre \<union> ?dead"]) auto
  ultimately show ?thesis by simp
qed

theorem action_completion_path_witness:
  "status_path can_action_transition AS_PLANNED
     [AS_VALIDATED, AS_PERMISSION_CHECKED, AS_EXECUTING, AS_EXECUTION_SUCCEEDED,
      AS_VERIFYING, AS_VERIFIED, AS_COMPLETED] \<and>
   AS_VERIFIED \<in> set [AS_VALIDATED, AS_PERMISSION_CHECKED, AS_EXECUTING, AS_EXECUTION_SUCCEEDED,
      AS_VERIFYING, AS_VERIFIED, AS_COMPLETED]"
proof -
  let ?ts = "[AS_VALIDATED, AS_PERMISSION_CHECKED, AS_EXECUTING, AS_EXECUTION_SUCCEEDED,
      AS_VERIFYING, AS_VERIFIED, AS_COMPLETED]"
  have p: "status_path can_action_transition AS_PLANNED ?ts"
    by (simp add: state_machine)
  show ?thesis using p action_completion_path [OF p] by simp
qed

text \<open>Every run of the Action machine is finite and short: it never revisits a status, it
  makes at most ten steps, and following it with the raising check succeeds exactly when each
  hop is in the table.\<close>

theorem action_runs_bounded:
  "(status_path can_action_transition s ts \<longrightarrow> length ts \<le> 10 \<and> distinct (s # ts)) \<and>
   (assert_path assert_action_transition s ts = Inr t \<longleftrightarrow>
      status_path can_action_transition s ts \<and> t = last (s # ts))"
  using action_machine.path_bounded [of s ts] action_machine.path_distinct [of s ts]
    action_machine.assert_path_iff [of s ts t] by auto

theorem action_runs_bounded_witness:
  "length [AS_VALIDATED, AS_BLOCKED, AS_CANCELLED] \<le> 10 \<and>
   assert_path assert_action_transition AS_PLANNED [AS_VALIDATED, AS_BLOCKED, AS_CANCELLED]
     = Inr AS_CANCELLED"
  using action_runs_bounded [of AS_PLANNED "[AS_VALIDATED, AS_BLOCKED, AS_CANCELLED]" AS_CANCELLED]
  by (simp add: state_machine)

end
