(* ===== verification/Decision_Rules.thy ===== *)
theory Decision_Rules
  imports Lifecycles
begin

text \<open>
  \<open>app/decision_intelligence/decision_rules.py\<close>: the Decision lifecycle, the readiness
  invariant on it, the derived \<open>actionable\<close> flag and the boundary a Decision must pass before
  an ActionPlan may be built from it.
\<close>

fun decision_valid_transitions :: "decision_status \<Rightarrow> decision_status list" where
  "decision_valid_transitions DS_PROPOSED =
     [DS_INSUFFICIENT_EVIDENCE, DS_READY_FOR_ACTION, DS_REJECTED, DS_SUPERSEDED]"
| "decision_valid_transitions DS_INSUFFICIENT_EVIDENCE = [DS_PROPOSED, DS_REJECTED, DS_SUPERSEDED]"
| "decision_valid_transitions DS_READY_FOR_ACTION =
     [DS_APPROVAL_REQUIRED, DS_APPROVED, DS_REJECTED, DS_SUPERSEDED]"
| "decision_valid_transitions DS_APPROVAL_REQUIRED = [DS_APPROVED, DS_REJECTED, DS_SUPERSEDED]"
| "decision_valid_transitions DS_APPROVED = [DS_SUPERSEDED]"
| "decision_valid_transitions DS_REJECTED = []"
| "decision_valid_transitions DS_SUPERSEDED = []"

datatype decision_error =
    DecisionTransitionError decision_status decision_status
  | DecisionInvariantViolation
  | DecisionPlanBoundaryError

definition can_decision_transition :: "decision_status \<Rightarrow> decision_status \<Rightarrow> bool" where
  "can_decision_transition current target = (target \<in> set (decision_valid_transitions current))"

definition assert_decision_transition :: "decision_status \<Rightarrow> decision_status \<Rightarrow> decision_error + unit" where
  "assert_decision_transition current target =
     (if \<not> can_decision_transition current target then Inl (DecisionTransitionError current target)
      else Inr ())"

interpretation decision_machine: transition_table
  decision_valid_transitions can_decision_transition assert_decision_transition DecisionTransitionError
  by unfold_locales (simp_all add: can_decision_transition_def assert_decision_transition_def)

definition apply_decision_transition :: "decision \<Rightarrow> decision_status \<Rightarrow> decision_error + decision" where
  "apply_decision_transition d target =
     (case assert_decision_transition (d_status d) target of
        Inl e \<Rightarrow> Inl e
      | Inr _ \<Rightarrow>
          if target = DS_READY_FOR_ACTION \<and> \<not> d_comparison_ready d then Inl DecisionInvariantViolation
          else Inr (d\<lparr>d_status := target\<rparr>))"

definition compute_actionable :: "decision \<Rightarrow> bool" where
  "compute_actionable d = (d_status d = DS_READY_FOR_ACTION \<and> d_comparison_ready d)"

definition enforce_actionable_flag :: "decision \<Rightarrow> decision" where
  "enforce_actionable_flag d = d\<lparr>d_actionable := compute_actionable d\<rparr>"

definition assert_can_produce_plan :: "decision \<Rightarrow> decision_error + unit" where
  "assert_can_produce_plan d =
     (if d_status d = DS_INSUFFICIENT_EVIDENCE then Inl DecisionPlanBoundaryError
      else if \<not> d_comparison_ready d then Inl DecisionPlanBoundaryError
      else if d_status d \<in> {DS_REJECTED, DS_SUPERSEDED} then Inl DecisionPlanBoundaryError
      else Inr ())"

definition can_produce_plan :: "decision \<Rightarrow> bool" where
  "can_produce_plan d = (case assert_can_produce_plan d of
      Inl DecisionPlanBoundaryError \<Rightarrow> False | _ \<Rightarrow> True)"

text \<open>A decision's life: a sequence of requested transitions, each applied or refused.\<close>

fun decision_run :: "decision \<Rightarrow> decision_status list \<Rightarrow> decision_error + decision" where
  "decision_run d [] = Inr d"
| "decision_run d (t # ts) = (case apply_decision_transition d t of
     Inl e \<Rightarrow> Inl e | Inr d' \<Rightarrow> decision_run d' ts)"

section \<open>Lemmas\<close>

lemma apply_decision_transition_OkD:
  assumes "apply_decision_transition d t = Inr d'"
  shows "can_decision_transition (d_status d) t" and "d' = d\<lparr>d_status := t\<rparr>"
    and "t = DS_READY_FOR_ACTION \<Longrightarrow> d_comparison_ready d"
  using assms
  by (auto simp: apply_decision_transition_def decision_machine.assert_eq split: if_splits)

lemma can_produce_plan_iff: "can_produce_plan d \<longleftrightarrow>
    d_comparison_ready d \<and> d_status d \<notin> {DS_INSUFFICIENT_EVIDENCE, DS_REJECTED, DS_SUPERSEDED}"
  by (simp add: can_produce_plan_def assert_can_produce_plan_def)

text \<open>The statuses past the readiness gate.\<close>

definition past_readiness :: "decision_status \<Rightarrow> bool" where
  "past_readiness s = (s \<in> {DS_READY_FOR_ACTION, DS_APPROVAL_REQUIRED, DS_APPROVED})"

definition decision_inv :: "decision \<Rightarrow> bool" where
  "decision_inv d = (past_readiness (d_status d) \<longrightarrow> d_comparison_ready d)"

lemma apply_decision_transition_inv:
  assumes "apply_decision_transition d t = Inr d'" and "decision_inv d"
  shows "decision_inv d'"
  using apply_decision_transition_OkD [OF assms(1)] assms(2)
  by (cases "d_status d") (auto simp: decision_inv_def past_readiness_def can_decision_transition_def)

lemma decision_run_inv: "decision_run d ts = Inr d' \<Longrightarrow> decision_inv d \<Longrightarrow> decision_inv d'"
proof (induction ts arbitrary: d)
  case (Cons t ts)
  then show ?case by (auto split: sum.splits dest: apply_decision_transition_inv)
qed simp

lemma decision_run_frame: "decision_run d ts = Inr d' \<Longrightarrow> d' = d\<lparr>d_status := d_status d'\<rparr>"
proof (induction ts arbitrary: d)
  case (Cons t ts)
  then obtain e where e: "apply_decision_transition d t = Inr e" "decision_run e ts = Inr d'"
    by (auto split: sum.splits)
  have "e = d\<lparr>d_status := t\<rparr>" using apply_decision_transition_OkD(2) [OF e(1)] .
  with Cons.IH [OF e(2)] show ?case by simp
qed simp

section \<open>Properties\<close>

text \<open>Whatever transitions are requested, a Decision that started as \<open>PROPOSED\<close> is only ever
  \<open>READY_FOR_ACTION\<close>, \<open>APPROVAL_REQUIRED\<close> or \<open>APPROVED\<close> if its comparison gate had passed; such
  a Decision may produce a plan, and the run changed nothing but the status.\<close>

theorem decision_readiness_gate:
  assumes "d_status d = DS_PROPOSED" and "decision_run d ts = Inr d'"
    and "d_status d' \<in> {DS_READY_FOR_ACTION, DS_APPROVAL_REQUIRED, DS_APPROVED}"
  shows "d_comparison_ready d \<and> can_produce_plan d' \<and> d' = d\<lparr>d_status := d_status d'\<rparr>"
proof -
  have "decision_inv d" using assms(1) by (simp add: decision_inv_def past_readiness_def)
  with assms have ready: "d_comparison_ready d'"
    using decision_run_inv unfolding decision_inv_def past_readiness_def by auto
  have frame: "d' = d\<lparr>d_status := d_status d'\<rparr>" using assms(2) by (rule decision_run_frame)
  have "can_produce_plan d'" using ready assms(3) by (auto simp: can_produce_plan_iff)
  moreover have "d_comparison_ready d"
    using ready arg_cong [OF frame, of d_comparison_ready] by simp
  ultimately show ?thesis using frame by simp
qed

definition sample_decision :: decision where
  "sample_decision = \<lparr>d_id = ''d1'', d_project_id = ''p'', d_title = ''t'', d_statement = ''s'',
     d_status = DS_PROPOSED, d_confidence = Fin (1/2), d_evidence_ids = [], d_assumptions = [],
     d_unresolved_gaps = [], d_risks = [], d_alternatives_considered = [], d_rationale = [],
     d_comparison_ready = True, d_actionable = False, d_recommended_next_step = None,
     d_created_by = ''system'', d_created_at = 0\<rparr>"

theorem decision_readiness_gate_witness:
  "can_produce_plan (sample_decision\<lparr>d_status := DS_APPROVED\<rparr>)"
proof -
  have "decision_run sample_decision [DS_READY_FOR_ACTION, DS_APPROVED]
      = Inr (sample_decision\<lparr>d_status := DS_APPROVED\<rparr>)"
    by (simp add: apply_decision_transition_def assert_decision_transition_def
        can_decision_transition_def sample_decision_def)
  then show ?thesis
    by (rule decision_readiness_gate [THEN conjunct2, THEN conjunct1, rotated])
       (simp_all add: sample_decision_def)
qed

text \<open>The raw \<open>actionable\<close> claim never matters. The computed flag, the boundary check and the
  transitions ignore it, and enforcing the flag is idempotent and agrees with the computed value;
  an actionable Decision may always produce a plan.\<close>

theorem actionable_claim_ignored:
  "compute_actionable (d\<lparr>d_actionable := b\<rparr>) = compute_actionable d \<and>
   can_produce_plan (d\<lparr>d_actionable := b\<rparr>) = can_produce_plan d \<and>
   apply_decision_transition (d\<lparr>d_actionable := b\<rparr>) t =
     map_sum id (\<lambda>d'. d'\<lparr>d_actionable := b\<rparr>) (apply_decision_transition d t) \<and>
   d_actionable (enforce_actionable_flag d) = compute_actionable d \<and>
   enforce_actionable_flag (enforce_actionable_flag d) = enforce_actionable_flag d \<and>
   (if d_actionable (enforce_actionable_flag d) then can_produce_plan d else True)"
  by (simp add: compute_actionable_def can_produce_plan_iff enforce_actionable_flag_def
      apply_decision_transition_def decision_machine.assert_eq)

end
