(* ===== verification/Tool_Registry.thy ===== *)
theory Tool_Registry
  imports Schemas Keyed_Table
begin

text \<open>
  \<open>app/decision_intelligence/tool_registry.py\<close>: tool metadata and the fail-closed registry.
  The registry's dict is a list of definitions in insertion order (the order
  \<open>list_definitions\<close> returns); a frozenset of action types is the list of its members in
  iteration order; replacing a tool keeps its position, as a Python dict does.
  The interface its client, the permission engine, relies on is the locale \<open>tool_catalog\<close>.
\<close>

section \<open>Name patterns\<close>

definition is_lower :: "char \<Rightarrow> bool" where
  "is_lower c = (CHR ''a'' \<le> c \<and> c \<le> CHR ''z'')"

definition is_word_char :: "char \<Rightarrow> bool" where
  "is_word_char c = (is_lower c \<or> (CHR ''0'' \<le> c \<and> c \<le> CHR ''9'') \<or> c = CHR ''_'')"

text \<open>One segment: \<open>[a-z][a-z0-9_]*\<close>.\<close>

definition is_segment :: "string \<Rightarrow> bool" where
  "is_segment s = (case s of [] \<Rightarrow> False | c # cs \<Rightarrow> is_lower c \<and> list_all is_word_char cs)"

text \<open>Python's \<open>$\<close> also matches just before one trailing newline.\<close>

definition chop_newline :: "string \<Rightarrow> string" where
  "chop_newline s = (if s \<noteq> [] \<and> last s = CHR 0x0A then butlast s else s)"

text \<open>\<open>^[a-z][a-z0-9_]*(\.[a-z][a-z0-9_]*)+$\<close> and \<open>^[a-z][a-z0-9_]*$\<close>.\<close>

definition name_pattern :: "string \<Rightarrow> bool" where
  "name_pattern s = (let segs = split_on (CHR ''.'') (chop_newline s)
     in 2 \<le> length segs \<and> list_all is_segment segs)"

definition action_type_pattern :: "string \<Rightarrow> bool" where
  "action_type_pattern s = is_segment (chop_newline s)"

section \<open>Definitions and the registry\<close>

record tool_definition =
  t_name :: string
  t_description :: string
  t_supported_action_types :: "string list"
  t_default_permission_level :: permission_level
  t_default_risk_level :: risk_level
  t_has_side_effects :: bool
  t_supports_dry_run :: bool
  t_input_schema :: "(string \<times> json) list"
  t_output_schema :: "(string \<times> json) list"
  t_verification_strategy :: string
  t_enabled :: bool

datatype tool_error =
    InvalidToolDefinitionError string
  | DuplicateToolError string
  | UnknownToolError string
  | DisabledToolError string
  | UnsupportedActionTypeError string string

type_synonym tool_registry = "tool_definition list"

definition validate_definition :: "tool_definition \<Rightarrow> tool_error + unit" where
  "validate_definition tool =
     (if \<not> name_pattern (t_name tool) then
        Inl (InvalidToolDefinitionError (''Tool name '' @ quoted (t_name tool) @
          '' must be lowercase, dotted (e.g. '' @ quoted ''research.read'' @
          ''); no whitespace, uppercase, or single-segment names.''))
      else if t_supported_action_types tool = [] then
        Inl (InvalidToolDefinitionError (''Tool '' @ quoted (t_name tool) @ '' declares no supported_action_types''))
      else (case List.find (\<lambda>ty. \<not> action_type_pattern ty) (t_supported_action_types tool) of
          Some ty \<Rightarrow> Inl (InvalidToolDefinitionError (''Tool '' @ quoted (t_name tool) @
            '' has malformed supported_action_types entry: '' @ quoted ty))
        | None \<Rightarrow> Inr ()))"

definition registry_lookup :: "tool_registry \<Rightarrow> string \<Rightarrow> tool_definition option" where
  "registry_lookup reg n = tbl_get t_name reg n"

definition registry_contains :: "tool_registry \<Rightarrow> string \<Rightarrow> bool" where
  "registry_contains reg n = (registry_lookup reg n \<noteq> None)"

definition registry_register :: "tool_registry \<Rightarrow> tool_definition \<Rightarrow> bool \<Rightarrow> tool_error + tool_registry" where
  "registry_register reg tool repl =
     (case validate_definition tool of
        Inl e \<Rightarrow> Inl e
      | Inr _ \<Rightarrow>
          if registry_contains reg (t_name tool) \<and> \<not> repl then Inl (DuplicateToolError (t_name tool))
          else Inr (tbl_put t_name reg tool))"

definition registry_unregister :: "tool_registry \<Rightarrow> string \<Rightarrow> tool_error + tool_registry" where
  "registry_unregister reg n =
     (if \<not> registry_contains reg n then Inl (UnknownToolError n)
      else Inr (tbl_del t_name reg n))"

definition registry_get :: "tool_registry \<Rightarrow> string \<Rightarrow> tool_error + tool_definition" where
  "registry_get reg n = (case registry_lookup reg n of
     None \<Rightarrow> Inl (UnknownToolError n) | Some t \<Rightarrow> Inr t)"

definition list_definitions :: "tool_registry \<Rightarrow> tool_definition list" where
  "list_definitions reg = reg"

definition registry_resolve :: "tool_registry \<Rightarrow> string \<Rightarrow> string \<Rightarrow> tool_error + tool_definition" where
  "registry_resolve reg n action_type =
     (case registry_get reg n of
        Inl e \<Rightarrow> Inl e
      | Inr tool \<Rightarrow>
          if \<not> t_enabled tool then Inl (DisabledToolError n)
          else if action_type \<notin> set (t_supported_action_types tool)
            then Inl (UnsupportedActionTypeError n action_type)
          else Inr tool)"

text \<open>The messages of the typed errors, \<open>str(exc)\<close>.\<close>

fun tool_error_message :: "tool_error \<Rightarrow> string" where
  "tool_error_message (InvalidToolDefinitionError m) = m"
| "tool_error_message (DuplicateToolError n) =
     ''Tool '' @ quoted n @ '' is already registered (pass replace=True to replace it)''"
| "tool_error_message (UnknownToolError n) = ''No tool registered with name '' @ quoted n"
| "tool_error_message (DisabledToolError n) = ''Tool '' @ quoted n @ '' is registered but disabled''"
| "tool_error_message (UnsupportedActionTypeError n ty) =
     ''Tool '' @ quoted n @ '' does not support action_type '' @ quoted ty"

section \<open>The default catalog\<close>

text \<open>The keyword arguments \<open>build_default_tool_registry\<close> passes, the others at their defaults. The
  dash U+2014 of six descriptions is transcribed as a hyphen.\<close>

definition mk_tool :: "string \<Rightarrow> string \<Rightarrow> string \<Rightarrow> permission_level \<Rightarrow> risk_level \<Rightarrow> bool \<Rightarrow>
    bool \<Rightarrow> string \<Rightarrow> tool_definition" where
  "mk_tool n descr ty p r side dry strat = \<lparr>t_name = n, t_description = descr,
     t_supported_action_types = [ty], t_default_permission_level = p, t_default_risk_level = r,
     t_has_side_effects = side, t_supports_dry_run = dry, t_input_schema = [], t_output_schema = [],
     t_verification_strategy = strat, t_enabled = True\<rparr>"

definition default_tools :: "tool_definition list" where
  "default_tools = [
     mk_tool ''research.read''
       ''Read previously-gathered research/evidence. No network call, no mutation.''
       ''read'' READ LOW False False ''none'',
     mk_tool ''plan.create''
       ''Create an internal ActionPlan/Decision artifact. No external effect.''
       ''internal_create'' WRITE LOW True True ''automated'',
     mk_tool ''artifact.draft''
       ''Draft an internal artifact (e.g. a document body) with no external delivery.''
       ''internal_create'' WRITE LOW True True ''automated'',
     mk_tool ''file.create_sandboxed''
       ''Create a file inside an application-controlled sandbox directory.''
       ''sandbox_create'' WRITE LOW True True ''automated'',
     mk_tool ''mock.external_action''
       (''Placeholder for a reversible external mutation (e.g. an update to an '' @
        ''external record that could be rolled back). No real external system is '' @
        ''ever contacted by this definition.'')
       ''external_modify'' EXTERNAL_ACTION MEDIUM True True ''manual'',
     mk_tool ''communication.send_email''
       ''DEFINITION ONLY - never wired to a real mail transport.''
       ''send'' EXTERNAL_ACTION HIGH True True ''manual'',
     mk_tool ''content.publish''
       ''DEFINITION ONLY - never wired to a real publishing target.''
       ''publish'' EXTERNAL_ACTION HIGH True True ''manual'',
     mk_tool ''resource.delete_external''
       ''DEFINITION ONLY - never wired to a real deletion API.''
       ''delete'' EXTERNAL_ACTION HIGH True False ''manual'',
     mk_tool ''finance.spend_money''
       ''DEFINITION ONLY - never wired to a real payment processor.''
       ''financial'' FINANCIAL_ACTION CRITICAL True False ''manual'',
     mk_tool ''system.install_software''
       ''DEFINITION ONLY - never wired to a real installer; blocked by policy.''
       ''install'' ADMIN CRITICAL True False ''none'',
     mk_tool ''system.privileged_shell''
       ''DEFINITION ONLY - never wired to a real shell; blocked by policy.''
       ''privileged'' ADMIN CRITICAL True False ''none'']"

fun register_all :: "tool_registry \<Rightarrow> tool_definition list \<Rightarrow> tool_error + tool_registry" where
  "register_all reg [] = Inr reg"
| "register_all reg (t # ts) = (case registry_register reg t False of
     Inl e \<Rightarrow> Inl e | Inr reg' \<Rightarrow> register_all reg' ts)"

definition build_default_tool_registry :: "tool_error + tool_registry" where
  "build_default_tool_registry = register_all [] default_tools"

section \<open>Invariant and laws\<close>

text \<open>What the registry keeps true: names are unique, every definition passed validation.\<close>

definition registry_inv :: "tool_registry \<Rightarrow> bool" where
  "registry_inv reg = (tbl_unique t_name reg \<and> (\<forall>t \<in> set reg. is_ok (validate_definition t)))"

text \<open>The contract between a catalog of tools and whoever resolves tools from it.\<close>

locale tool_catalog =
  fixes lookup :: "'r \<Rightarrow> string \<Rightarrow> tool_definition option"
    and register :: "'r \<Rightarrow> tool_definition \<Rightarrow> bool \<Rightarrow> tool_error + 'r"
    and unregister :: "'r \<Rightarrow> string \<Rightarrow> tool_error + 'r"
    and resolve :: "'r \<Rightarrow> string \<Rightarrow> string \<Rightarrow> tool_error + tool_definition"
    and inv :: "'r \<Rightarrow> bool"
  assumes lookup_register: "register r t repl = Inr r' \<Longrightarrow> lookup r' = (lookup r)(t_name t \<mapsto> t)"
    and lookup_unregister: "inv r \<Longrightarrow> unregister r n = Inr r' \<Longrightarrow> lookup r' = (lookup r)(n := None)"
    and inv_register: "inv r \<Longrightarrow> register r t repl = Inr r' \<Longrightarrow> inv r'"
    and inv_unregister: "inv r \<Longrightarrow> unregister r n = Inr r' \<Longrightarrow> inv r'"
    and resolve_iff: "resolve r n ty = Inr t \<longleftrightarrow>
      lookup r n = Some t \<and> t_enabled t \<and> ty \<in> set (t_supported_action_types t)"
    and register_new: "register r t False = Inr r' \<Longrightarrow> lookup r (t_name t) = None"
begin

lemma resolve_after_register:
  assumes "register r t repl = Inr r'" and "t_enabled t" and "ty \<in> set (t_supported_action_types t)"
  shows "resolve r' (t_name t) ty = Inr t"
  using assms by (simp add: resolve_iff lookup_register)

lemma resolve_other_unchanged:
  assumes "register r t repl = Inr r'" and "n \<noteq> t_name t"
  shows "resolve r' n ty = Inr u \<longleftrightarrow> resolve r n ty = Inr u"
  using assms by (simp add: resolve_iff lookup_register)

lemma resolve_after_unregister:
  assumes "inv r" and "unregister r n = Inr r'"
  shows "resolve r' n ty \<noteq> Inr u"
  using assms by (simp add: resolve_iff lookup_unregister)

end

lemma registry_register_OkD:
  "registry_register reg t repl = Inr reg' \<Longrightarrow>
     is_ok (validate_definition t) \<and> reg' = tbl_put t_name reg t"
  by (auto simp: registry_register_def split: sum.splits if_splits)

interpretation tools: tool_catalog
  registry_lookup registry_register registry_unregister registry_resolve registry_inv
proof unfold_locales
  fix r t repl r'
  assume "registry_register r t repl = Inr r'"
  then show "registry_lookup r' = (registry_lookup r)(t_name t \<mapsto> t)"
    by (auto dest!: registry_register_OkD simp: registry_lookup_def tbl_get_put fun_eq_iff)
next
  fix r t repl r'
  assume "registry_inv r" and "registry_register r t repl = Inr r'"
  then show "registry_inv r'"
    using tbl_set_put [of t_name r t]
    by (auto dest!: registry_register_OkD simp: registry_inv_def tbl_unique_put)
next
  fix r n r'
  assume "registry_inv r" and "registry_unregister r n = Inr r'"
  then show "registry_inv r'"
    by (auto simp: registry_unregister_def registry_inv_def tbl_unique_del tbl_set_del split: if_splits)
next
  fix r n r'
  assume "registry_inv r" and "registry_unregister r n = Inr r'"
  then show "registry_lookup r' = (registry_lookup r)(n := None)"
    by (auto simp: registry_unregister_def registry_lookup_def tbl_get_del fun_eq_iff split: if_splits)
next
  fix r n ty t
  show "registry_resolve r n ty = Inr t \<longleftrightarrow>
      registry_lookup r n = Some t \<and> t_enabled t \<and> ty \<in> set (t_supported_action_types t)"
    by (auto simp: registry_resolve_def registry_get_def split: option.splits)
next
  fix r t r'
  assume "registry_register r t False = Inr r'"
  then show "registry_lookup r (t_name t) = None"
    by (auto simp: registry_register_def registry_contains_def split: sum.splits if_splits)
qed

text \<open>Registering a list of new tools appends it: the order the code registers in is the listing order.\<close>

lemma register_all_append:
  assumes "distinct (map t_name (reg @ ts))" and "\<forall>t \<in> set ts. is_ok (validate_definition t)"
  shows "register_all reg ts = Inr (reg @ ts)"
  using assms
proof (induction ts arbitrary: reg)
  case (Cons t ts)
  have "t_name t \<notin> t_name ` set reg" using Cons.prems(1) by auto
  then have "registry_register reg t False = Inr (reg @ [t])"
    using Cons.prems(2) by (auto simp: registry_register_def registry_contains_def registry_lookup_def
        tbl_get_None_iff tbl_put_def is_ok_iff split: sum.splits)
  with Cons.IH [of "reg @ [t]"] Cons.prems show ?case by simp
qed simp

lemma default_tools_valid: "\<forall>t \<in> set default_tools. is_ok (validate_definition t)"
  by (simp add: default_tools_def mk_tool_def) code_simp

section \<open>Properties\<close>

text \<open>The default catalog builds without error and lists the eleven tools in registration
  order, its invariant holds (unique names, every definition valid), every tool in it is
  enabled, and no side-effecting tool of it claims \<open>READ\<close>.\<close>

theorem default_registry_sound:
  "build_default_tool_registry = Inr default_tools \<and> registry_inv default_tools \<and>
   length default_tools = 11 \<and> list_all t_enabled default_tools \<and>
   list_all (\<lambda>t. t_has_side_effects t = (t_default_permission_level t \<noteq> READ)) default_tools"
proof -
  have d: "distinct (map t_name default_tools)"
    by (simp add: default_tools_def mk_tool_def)
  have "build_default_tool_registry = Inr default_tools"
    using register_all_append [of "[]" default_tools] d default_tools_valid
    by (simp add: build_default_tool_registry_def)
  moreover have "registry_inv default_tools"
    using d default_tools_valid by (simp add: registry_inv_def tbl_unique_def)
  moreover have "length default_tools = 11 \<and> list_all t_enabled default_tools \<and>
      list_all (\<lambda>t. t_has_side_effects t = (t_default_permission_level t \<noteq> READ)) default_tools"
    by (simp add: default_tools_def mk_tool_def)
  ultimately show ?thesis by simp
qed

end
