(* ===== verification/Plan_Validation.thy ===== *)
theory Plan_Validation
  imports Schemas Keyed_Table
begin

text \<open>
  \<open>app/decision_intelligence/plan_validation.py\<close>: the structural checks on an ActionPlan's
  dependency graph, the strict variant that raises and the readiness report. The nested
  function \<open>visit\<close> of the cycle detection is \<open>dfs_visit\<close> with its three closed-over
  collections as the record \<open>dfs\<close>; its recursion depth is bounded by fuel, and
  \<open>dfs_never_out_of_fuel\<close> shows that one more than the number of ids is always enough. Each
  report line is a constructor carrying the values the message is formatted from.
\<close>

section \<open>Checks on the actions of a plan\<close>

definition no_tool_action_types :: "string list" where
  "no_tool_action_types = [''internal'', ''no_op'', ''manual'', ''decision_only'']"

definition impossible_for_ready :: "action_status list" where
  "impossible_for_ready = [AS_FAILED, AS_CANCELLED, AS_REJECTED, AS_BLOCKED, AS_VERIFICATION_FAILED]"

fun duplicate_ids_loop :: "string list \<Rightarrow> string list \<Rightarrow> action list \<Rightarrow> string list" where
  "duplicate_ids_loop seen dups [] = dups"
| "duplicate_ids_loop seen dups (a # as) =
     duplicate_ids_loop (a_id a # seen)
       (if a_id a \<in> set seen \<and> a_id a \<notin> set dups then dups @ [a_id a] else dups) as"

definition duplicate_action_ids :: "action list \<Rightarrow> string list" where
  "duplicate_action_ids as = duplicate_ids_loop [] [] as"

definition unknown_dependency_ids :: "action list \<Rightarrow> (string \<times> string) list" where
  "unknown_dependency_ids as =
     [(a_id a, d). a \<leftarrow> as, d \<leftarrow> a_dependencies a, d \<notin> set (map a_id as)]"

definition self_dependencies :: "action list \<Rightarrow> string list" where
  "self_dependencies as = [a_id a. a \<leftarrow> as, a_id a \<in> set (a_dependencies a)]"

text \<open>The loop's condition: the dependency is an action of the plan with a later sequence number.\<close>

definition sequenced_later :: "action list \<Rightarrow> action \<Rightarrow> string \<Rightarrow> bool" where
  "sequenced_later as a d =
     (case actions_by_id as d of None \<Rightarrow> False | Some b \<Rightarrow> a_sequence a < a_sequence b)"

definition forward_only_dependency_violations :: "action list \<Rightarrow> (string \<times> string) list" where
  "forward_only_dependency_violations as =
     [(a_id a, d). a \<leftarrow> as, d \<leftarrow> a_dependencies a, sequenced_later as a d]"

definition requires_tool :: "string \<Rightarrow> bool" where
  "requires_tool action_type = (action_type \<notin> set no_tool_action_types)"

section \<open>Cycle detection\<close>

type_synonym dep_graph = "(string \<times> string list) list"

text \<open>The dict comprehension \<open>graph\<close>: a repeated id keeps its place and takes the later value.\<close>

definition dep_graph_of :: "action list \<Rightarrow> dep_graph" where
  "dep_graph_of as =
     foldl (\<lambda>g a. tbl_put fst g (a_id a, [d. d \<leftarrow> a_dependencies a, d \<noteq> a_id a])) [] as"

definition graph_deps :: "dep_graph \<Rightarrow> string \<Rightarrow> string list" where
  "graph_deps g n = (case tbl_get fst g n of None \<Rightarrow> [] | Some (_, ds) \<Rightarrow> ds)"

record dfs =
  visiting :: "string list"
  visited :: "string list"
  dfs_path :: "string list"

datatype dfs_outcome = Out_Of_Fuel | Cycle "string list" | Finished dfs

text \<open>The loop over a node's dependencies, given the recursive call.\<close>

fun visit_deps :: "(string \<Rightarrow> dfs \<Rightarrow> dfs_outcome) \<Rightarrow> string list \<Rightarrow> string list \<Rightarrow> dfs \<Rightarrow> dfs_outcome" where
  "visit_deps rec known [] st = Finished st"
| "visit_deps rec known (d # ds) st =
     (if d \<notin> set known then visit_deps rec known ds st
      else (case rec d st of
          Finished st' \<Rightarrow> visit_deps rec known ds st'
        | out \<Rightarrow> out))"

fun dfs_visit :: "nat \<Rightarrow> dep_graph \<Rightarrow> string \<Rightarrow> dfs \<Rightarrow> dfs_outcome" where
  "dfs_visit 0 g n st = Out_Of_Fuel"
| "dfs_visit (Suc fuel) g n st =
     (if n \<in> set (visited st) then Finished st
      else if n \<in> set (visiting st) then Cycle (dropWhile (\<lambda>m. m \<noteq> n) (dfs_path st) @ [n])
      else (case visit_deps (dfs_visit fuel g) (map fst g) (graph_deps g n)
                 (st\<lparr>visiting := n # visiting st, dfs_path := dfs_path st @ [n]\<rparr>) of
          Finished st' \<Rightarrow> Finished (st'\<lparr>dfs_path := butlast (dfs_path st'),
            visiting := removeAll n (visiting st'), visited := n # visited st'\<rparr>)
        | out \<Rightarrow> out))"

text \<open>The loop over all ids is the same loop, with every id known.\<close>

definition detect_dependency_cycle_fuel :: "nat \<Rightarrow> action list \<Rightarrow> dfs_outcome" where
  "detect_dependency_cycle_fuel fuel as = (let g = dep_graph_of as in
     visit_deps (dfs_visit fuel g) (map fst g) (map fst g)
       \<lparr>visiting = [], visited = [], dfs_path = []\<rparr>)"

definition detect_dependency_cycle :: "action list \<Rightarrow> string list option" where
  "detect_dependency_cycle as =
     (case detect_dependency_cycle_fuel (Suc (length as)) as of Cycle c \<Rightarrow> Some c | _ \<Rightarrow> None)"

section \<open>The strict variant and the report\<close>

datatype plan_validation_error =
    DuplicateActionIds "string list"
  | SelfDependencies "string list"
  | UnknownDependencies "(string \<times> string) list"
  | CyclicDependency "string list"

definition validate_dependencies :: "action list \<Rightarrow> plan_validation_error + unit" where
  "validate_dependencies as =
     (if duplicate_action_ids as \<noteq> [] then Inl (DuplicateActionIds (duplicate_action_ids as))
      else if self_dependencies as \<noteq> [] then Inl (SelfDependencies (self_dependencies as))
      else if unknown_dependency_ids as \<noteq> [] then Inl (UnknownDependencies (unknown_dependency_ids as))
      else (case detect_dependency_cycle as of Some c \<Rightarrow> Inl (CyclicDependency c) | None \<Rightarrow> Inr ()))"

datatype plan_blocker =
    NoActions
  | StructureBlocker plan_validation_error
  | LaterSequencedDependencies "(string \<times> string) list"
  | ImpossibleState string action_status
  | NoExpectedResult string
  | NoSuccessCriteria string
  | NoVerificationMethod string
  | ToolNotDeclared string string

datatype plan_warning =
    ApprovalOnLowRisk string
  | RetriesExceeded string int int

record plan_readiness_result =
  pr_ready :: bool
  pr_blockers :: "plan_blocker list"
  pr_warnings :: "plan_warning list"

definition tool_declared :: "string option \<Rightarrow> bool" where
  "tool_declared t = (t \<noteq> None \<and> t \<noteq> Some [])"

definition action_label :: "action \<Rightarrow> string" where
  "action_label a = ''Action '' @ [CHR 0x27] @ a_id a @ [CHR 0x27] @ '' ('' @
     str_or (a_title a) (a_action_type a) @ '')''"

definition action_blockers :: "action \<Rightarrow> plan_blocker list" where
  "action_blockers a = (let l = action_label a in
     (if a_status a \<in> set impossible_for_ready then [ImpossibleState l (a_status a)] else []) @
     (if py_strip (a_expected_result a) = [] then [NoExpectedResult l] else []) @
     (if py_strip (a_success_criteria a) = [] then [NoSuccessCriteria l] else []) @
     (if py_strip (a_verification_method a) = [] then [NoVerificationMethod l] else []) @
     (if requires_tool (a_action_type a) \<and> \<not> tool_declared (a_tool_name a)
      then [ToolNotDeclared l (a_action_type a)] else []))"

definition action_warnings :: "action \<Rightarrow> plan_warning list" where
  "action_warnings a = (let l = action_label a in
     (if a_approval_required a \<and> a_risk_level a = LOW then [ApprovalOnLowRisk l] else []) @
     (if a_max_retries a < a_retry_count a then [RetriesExceeded l (a_retry_count a) (a_max_retries a)] else []))"

definition structure_blockers :: "action list \<Rightarrow> plan_blocker list" where
  "structure_blockers as = (let dup = duplicate_action_ids as; self = self_dependencies as;
       missing = unknown_dependency_ids as; fwd = forward_only_dependency_violations as in
     (if dup \<noteq> [] then [StructureBlocker (DuplicateActionIds dup)] else []) @
     (if self \<noteq> [] then [StructureBlocker (SelfDependencies self)] else []) @
     (if missing \<noteq> [] then [StructureBlocker (UnknownDependencies missing)] else []) @
     (if dup = [] \<and> missing = [] then
        (case detect_dependency_cycle as of
           Some c \<Rightarrow> [StructureBlocker (CyclicDependency c)] | None \<Rightarrow> []) else []) @
     (if fwd \<noteq> [] then [LaterSequencedDependencies fwd] else []))"

definition evaluate_plan_readiness :: "action_plan \<Rightarrow> plan_readiness_result" where
  "evaluate_plan_readiness plan = (let as = p_actions plan in
     if as = [] then \<lparr>pr_ready = False, pr_blockers = [NoActions], pr_warnings = []\<rparr>
     else let blockers = structure_blockers as @ concat (map action_blockers as);
              warnings = concat (map action_warnings as)
          in \<lparr>pr_ready = (blockers = []), pr_blockers = blockers, pr_warnings = warnings\<rparr>)"

section \<open>The search is correct\<close>

definition graph_edges :: "dep_graph \<Rightarrow> (string \<times> string) set" where
  "graph_edges g = {(x, y). x \<in> fst ` set g \<and> y \<in> set (graph_deps g x) \<and> y \<in> fst ` set g}"

text \<open>Consecutive elements of a list are edges.\<close>

fun chain :: "('a \<times> 'a) set \<Rightarrow> 'a list \<Rightarrow> bool" where
  "chain E (x # y # xs) = ((x, y) \<in> E \<and> chain E (y # xs))"
| "chain E _ = True"

text \<open>Newest first, every node comes before its successors: the finishing order of the search.\<close>

fun topo :: "('a \<times> 'a) set \<Rightarrow> 'a list \<Rightarrow> bool" where
  "topo E [] = True"
| "topo E (x # xs) = (E `` {x} \<subseteq> set xs \<and> x \<notin> set xs \<and> topo E xs)"

lemma chain_snoc: "chain E (xs @ [y]) \<longleftrightarrow> chain E xs \<and> (xs \<noteq> [] \<longrightarrow> (last xs, y) \<in> E)"
  by (induction E xs rule: chain.induct) auto

lemma chain_dropWhile: "chain E xs \<Longrightarrow> chain E (dropWhile P xs)"
proof (induction xs)
  case (Cons x xs)
  then show ?case by (cases xs) auto
qed simp

lemma topo_closed: "topo E xs \<Longrightarrow> x \<in> set xs \<Longrightarrow> E `` {x} \<subseteq> set xs"
  by (induction xs) auto

lemma topo_no_cycle: "topo E xs \<Longrightarrow> x \<in> set xs \<Longrightarrow> (x, x) \<notin> E\<^sup>+"
proof (induction xs)
  case (Cons z zs)
  have step: "u \<in> set zs \<Longrightarrow> (u, v) \<in> E \<Longrightarrow> v \<in> set zs" for u v
    using topo_closed [of E zs u] Cons.prems(1) by auto
  have closed: "(u, v) \<in> E\<^sup>+ \<Longrightarrow> u \<in> set zs \<Longrightarrow> v \<in> set zs" for u v
    by (induction rule: trancl_induct) (auto intro: step)
  show ?case
  proof (cases "x = z")
    case True
    show ?thesis
    proof
      assume "(x, x) \<in> E\<^sup>+"
      then obtain y where "(x, y) \<in> E" and "y = x \<or> (y, x) \<in> E\<^sup>+"
        by (metis converse_tranclE)
      then show False using Cons.prems True closed [of y x] by auto
    qed
  qed (use Cons in auto)
qed simp

definition dfs_inv :: "dep_graph \<Rightarrow> dfs \<Rightarrow> bool" where
  "dfs_inv g st = (chain (graph_edges g) (dfs_path st) \<and> distinct (dfs_path st) \<and>
     set (visiting st) = set (dfs_path st) \<and> set (dfs_path st) \<subseteq> fst ` set g \<and>
     set (dfs_path st) \<inter> set (visited st) = {} \<and> topo (graph_edges g) (visited st) \<and>
     set (visited st) \<subseteq> fst ` set g)"

text \<open>A reported cycle: it closes, it has an edge, and consecutive ids are dependencies.\<close>

definition real_cycle :: "(string \<times> string) set \<Rightarrow> string list \<Rightarrow> bool" where
  "real_cycle E c = (2 \<le> length c \<and> hd c = last c \<and> chain E c)"

definition visit_spec :: "dep_graph \<Rightarrow> string list \<Rightarrow> dfs \<Rightarrow> dfs_outcome \<Rightarrow> bool" where
  "visit_spec g ns st out = (case out of
     Out_Of_Fuel \<Rightarrow> False
   | Cycle c \<Rightarrow> real_cycle (graph_edges g) c
   | Finished st' \<Rightarrow> dfs_inv g st' \<and> dfs_path st' = dfs_path st \<and>
       set (visited st) \<union> (set ns \<inter> fst ` set g) \<subseteq> set (visited st'))"

text \<open>A node may be visited from the end of the path: it is known and, past the root, a dependency.\<close>

definition may_visit :: "dep_graph \<Rightarrow> dfs \<Rightarrow> string \<Rightarrow> bool" where
  "may_visit g st n = (n \<in> fst ` set g \<and> (dfs_path st \<noteq> [] \<longrightarrow> (last (dfs_path st), n) \<in> graph_edges g))"

lemma visit_deps_spec:
  assumes rec: "\<And>n st'. dfs_inv g st' \<Longrightarrow> dfs_path st' = p \<Longrightarrow> may_visit g st' n \<Longrightarrow>
      visit_spec g [n] st' (rec n st')"
    and "dfs_inv g st" and "dfs_path st = p"
    and "\<forall>n \<in> set ns. n \<in> fst ` set g \<longrightarrow> may_visit g st n"
  shows "visit_spec g ns st (visit_deps rec (map fst g) ns st)"
  using assms(2-4)
proof (induction ns arbitrary: st)
  case Nil
  then show ?case by (simp add: visit_spec_def)
next
  case (Cons d ds)
  show ?case
  proof (cases "d \<in> fst ` set g")
    case False
    then show ?thesis using Cons.IH [of st] Cons.prems by (auto simp: visit_spec_def split: dfs_outcome.splits)
  next
    case True
    then have spec: "visit_spec g [d] st (rec d st)" using Cons.prems rec by simp
    show ?thesis
    proof (cases "rec d st")
      case (Finished st')
      with spec have st': "dfs_inv g st'" "dfs_path st' = dfs_path st" "insert d (set (visited st)) \<subseteq> set (visited st')"
        using True by (auto simp: visit_spec_def)
      then have "visit_spec g ds st' (visit_deps rec (map fst g) ds st')"
        using Cons.IH [of st'] Cons.prems by (simp add: may_visit_def)
      then show ?thesis using True Finished st' by (auto simp: visit_spec_def split: dfs_outcome.splits)
    qed (use spec True in \<open>auto simp: visit_spec_def\<close>)
  qed
qed

lemma dfs_cycle_real:
  assumes "dfs_inv g st" and "may_visit g st n" and "n \<in> set (visiting st)"
  shows "real_cycle (graph_edges g) (dropWhile (\<lambda>m. m \<noteq> n) (dfs_path st) @ [n])"
proof -
  let ?E = "graph_edges g" and ?p = "dropWhile (\<lambda>m. m \<noteq> n) (dfs_path st)"
  have n: "n \<in> set (dfs_path st)" using assms by (simp add: dfs_inv_def)
  then have ne: "?p \<noteq> []" by (auto simp: dropWhile_eq_Nil_conv)
  then have "hd ?p = n" using hd_dropWhile [of "\<lambda>m. m \<noteq> n"] by auto
  moreover have "last ?p = last (dfs_path st)" using ne last_appendR [of ?p "takeWhile (\<lambda>m. m \<noteq> n) (dfs_path st)"]
    by (simp add: takeWhile_dropWhile_id)
  moreover have "chain ?E ?p" using assms(1) by (simp add: dfs_inv_def chain_dropWhile)
  moreover have "(last (dfs_path st), n) \<in> ?E" using assms(2) n by (auto simp: may_visit_def)
  ultimately have "chain ?E (?p @ [n])" using ne by (simp add: chain_snoc)
  then show ?thesis using ne \<open>hd ?p = n\<close> by (simp add: real_cycle_def Suc_le_eq)
qed

lemma dfs_visit_spec:
  assumes "dfs_inv g st" and "may_visit g st n" and "card (fst ` set g) < fuel + length (dfs_path st)"
  shows "visit_spec g [n] st (dfs_visit fuel g n st)"
  using assms
proof (induction fuel arbitrary: n st)
  case 0
  have "length (dfs_path st) \<le> card (fst ` set g)"
    using "0.prems"(1) by (auto simp: dfs_inv_def distinct_card [symmetric] intro!: card_mono)
  with 0 show ?case by simp
next
  case (Suc fuel)
  let ?st = "st\<lparr>visiting := n # visiting st, dfs_path := dfs_path st @ [n]\<rparr>"
  show ?case
  proof (cases "n \<in> set (visited st) \<or> n \<in> set (visiting st)")
    case True
    then show ?thesis using Suc.prems dfs_cycle_real by (auto simp: visit_spec_def)
  next
    case False
    have n: "n \<in> fst ` set g" using Suc.prems(2) by (simp add: may_visit_def)
    have inv: "dfs_inv g ?st" using Suc.prems False
      by (auto simp: dfs_inv_def may_visit_def chain_snoc)
    have "visit_spec g (graph_deps g n) ?st (visit_deps (dfs_visit fuel g) (map fst g) (graph_deps g n) ?st)"
    proof (rule visit_deps_spec [where p = "dfs_path ?st"])
      fix m st'
      assume "dfs_inv g st'" and "dfs_path st' = dfs_path ?st" and "may_visit g st' m"
      then show "visit_spec g [m] st' (dfs_visit fuel g m st')"
        using Suc.IH [of st' m] Suc.prems(3) by simp
    qed (use inv n in \<open>auto simp: may_visit_def graph_edges_def\<close>)
    then show ?thesis using False n
      by (auto simp: visit_spec_def dfs_inv_def graph_edges_def chain_snoc split: dfs_outcome.splits)
  qed
qed

lemma dep_graph_of_get: "tbl_get fst (dep_graph_of as) n =
    map_option (\<lambda>a. (n, [d. d \<leftarrow> a_dependencies a, d \<noteq> n])) (actions_by_id as n)"
  by (induction as rule: rev_induct)
     (auto simp: dep_graph_of_def actions_by_id_def tbl_get_put)

lemma dep_graph_of_keys: "fst ` set (dep_graph_of as) = a_id ` set as"
proof -
  have "n \<in> fst ` set (dep_graph_of as) \<longleftrightarrow> n \<in> a_id ` set as" for n
    using tbl_get_None_iff [of fst "dep_graph_of as" n] actions_by_id_None_iff [of as n]
      dep_graph_of_get [of as n] by (cases "actions_by_id as n") simp_all
  then show ?thesis by blast
qed

text \<open>The dependencies between different known actions of a plan.\<close>

definition depends_on :: "action list \<Rightarrow> (string \<times> string) set" where
  "depends_on as = {(x, y). x \<noteq> y \<and> y \<in> a_id ` set as \<and>
     (\<exists>a. actions_by_id as x = Some a \<and> y \<in> set (a_dependencies a))}"

lemma graph_edges_dep_graph: "graph_edges (dep_graph_of as) = depends_on as"
  by (auto simp: graph_edges_def depends_on_def graph_deps_def dep_graph_of_get dep_graph_of_keys
      split: option.splits dest: actions_by_id_SomeD sym)

lemma detect_fuel_spec:
  assumes "card (a_id ` set as) < fuel"
  shows "visit_spec (dep_graph_of as) (map fst (dep_graph_of as))
    \<lparr>visiting = [], visited = [], dfs_path = []\<rparr> (detect_dependency_cycle_fuel fuel as)"
  unfolding detect_dependency_cycle_fuel_def Let_def
proof (rule visit_deps_spec [where p = "[]"])
  fix n st'
  assume "dfs_inv (dep_graph_of as) st'" "dfs_path st' = []" "may_visit (dep_graph_of as) st' n"
  then show "visit_spec (dep_graph_of as) [n] st' (dfs_visit fuel (dep_graph_of as) n st')"
    using dfs_visit_spec [of "dep_graph_of as" st' n fuel] assms by (simp add: dep_graph_of_keys)
qed (auto simp: dfs_inv_def may_visit_def)

lemma card_ids_less: "card (a_id ` set as) < Suc (length as)"
  using card_image_le [of "set as" a_id] card_length [of as] by simp

lemma dfs_never_out_of_fuel:
  "length as < fuel \<Longrightarrow> detect_dependency_cycle_fuel fuel as \<noteq> Out_Of_Fuel"
  using detect_fuel_spec [of as fuel] card_ids_less [of as] by (auto simp: visit_spec_def)

lemma detect_Some_real:
  "detect_dependency_cycle as = Some c \<Longrightarrow> real_cycle (depends_on as) c"
  using detect_fuel_spec [OF card_ids_less [of as]]
  by (auto simp: detect_dependency_cycle_def visit_spec_def graph_edges_dep_graph split: dfs_outcome.splits)

lemma chain_trancl: "chain E (x # xs) \<Longrightarrow> xs \<noteq> [] \<Longrightarrow> (x, last xs) \<in> E\<^sup>+"
proof (induction xs arbitrary: x)
  case (Cons y ys)
  then show ?case by (cases "ys = []") (auto intro: trancl_into_trancl2)
qed simp

lemma real_cycle_not_acyclic: "real_cycle E c \<Longrightarrow> \<not> acyclic E"
  using chain_trancl [of E "hd c" "tl c"]
  by (cases c; cases "tl c") (auto simp: real_cycle_def acyclic_def)

lemma detect_None_iff: "detect_dependency_cycle as = None \<longleftrightarrow> acyclic (depends_on as)"
proof
  assume none: "detect_dependency_cycle as = None"
  then obtain st where "detect_dependency_cycle_fuel (Suc (length as)) as = Finished st"
    using dfs_never_out_of_fuel [of as "Suc (length as)"]
    by (auto simp: detect_dependency_cycle_def split: dfs_outcome.splits)
  then have topo: "topo (depends_on as) (visited st)" and all: "a_id ` set as \<subseteq> set (visited st)"
    using detect_fuel_spec [OF card_ids_less [of as]]
    by (auto simp: visit_spec_def dfs_inv_def graph_edges_dep_graph dep_graph_of_keys)
  have no: "(x, x) \<notin> (depends_on as)\<^sup>+" if "x \<in> a_id ` set as" for x
    using topo_no_cycle [OF topo subsetD [OF all that]] .
  show "acyclic (depends_on as)"
    unfolding acyclic_def
  proof (intro allI notI)
    fix x assume c: "(x, x) \<in> (depends_on as)\<^sup>+"
    then have "x \<in> Domain (depends_on as)" using DomainI [OF c] by (simp add: trancl_domain)
    then have "x \<in> a_id ` set as" by (auto simp: depends_on_def dest: actions_by_id_SomeD)
    with no c show False by blast
  qed
next
  assume "acyclic (depends_on as)"
  then show "detect_dependency_cycle as = None"
    using real_cycle_not_acyclic [OF detect_Some_real [of as]]
    by (cases "detect_dependency_cycle as") simp_all
qed

section \<open>What the checks decide\<close>

lemma duplicate_ids_loop_Nil_iff: "duplicate_ids_loop seen dups as = [] \<longleftrightarrow>
    dups = [] \<and> distinct (map a_id as) \<and> set seen \<inter> a_id ` set as = {}"
proof (induction as arbitrary: seen dups)
  case (Cons a as)
  then show ?case by auto
qed simp

lemma duplicate_action_ids_Nil_iff: "duplicate_action_ids as = [] \<longleftrightarrow> distinct (map a_id as)"
  by (simp add: duplicate_action_ids_def duplicate_ids_loop_Nil_iff)

lemma self_dependencies_Nil_iff:
  "self_dependencies as = [] \<longleftrightarrow> (\<forall>a \<in> set as. a_id a \<notin> set (a_dependencies a))"
  by (auto simp: self_dependencies_def concat_eq_Nil_conv)

lemma unknown_dependency_ids_Nil_iff:
  "unknown_dependency_ids as = [] \<longleftrightarrow> (\<forall>a \<in> set as. set (a_dependencies a) \<subseteq> a_id ` set as)"
  by (auto simp: unknown_dependency_ids_def concat_eq_Nil_conv subset_iff)

lemma forward_violations_Nil_iff:
  "forward_only_dependency_violations as = [] \<longleftrightarrow>
     (\<forall>a \<in> set as. \<forall>d \<in> set (a_dependencies a). \<not> sequenced_later as a d)"
  by (auto simp: forward_only_dependency_violations_def concat_eq_Nil_conv)

lemmas plan_check_iffs = duplicate_action_ids_Nil_iff self_dependencies_Nil_iff
  unknown_dependency_ids_Nil_iff forward_violations_Nil_iff

text \<open>The declarative readings of the two entry points.\<close>

definition well_structured :: "action list \<Rightarrow> bool" where
  "well_structured as = (distinct (map a_id as) \<and>
     (\<forall>a \<in> set as. a_id a \<notin> set (a_dependencies a)) \<and>
     (\<forall>a \<in> set as. set (a_dependencies a) \<subseteq> a_id ` set as) \<and> acyclic (depends_on as))"

definition executable_action :: "action \<Rightarrow> bool" where
  "executable_action a = (a_status a \<notin> set impossible_for_ready \<and>
     py_strip (a_expected_result a) \<noteq> [] \<and> py_strip (a_success_criteria a) \<noteq> [] \<and>
     py_strip (a_verification_method a) \<noteq> [] \<and>
     (tool_declared (a_tool_name a) \<or> \<not> requires_tool (a_action_type a)))"

lemma validate_dependencies_iff: "validate_dependencies as = Inr () \<longleftrightarrow> well_structured as"
  using detect_None_iff [of as]
  by (cases "detect_dependency_cycle as")
     (auto simp: validate_dependencies_def well_structured_def plan_check_iffs)

lemma action_blockers_Nil_iff: "action_blockers a = [] \<longleftrightarrow> executable_action a"
  by (auto simp: action_blockers_def executable_action_def Let_def)

lemma structure_blockers_Nil_iff: "structure_blockers as = [] \<longleftrightarrow>
    validate_dependencies as = Inr () \<and> forward_only_dependency_violations as = []"
  by (auto simp: structure_blockers_def validate_dependencies_def Let_def split: option.splits)

section \<open>Properties\<close>

text \<open>C15: cycle detection is total, sound and complete. With fuel above the number of actions the
  search always ends; it reports no cycle exactly when the dependencies between the plan's actions
  are acyclic, and a reported cycle is one: it starts and ends at the same id, has at least one
  edge, and each id in it depends on the next.\<close>

theorem cycle_detection_correct:
  "detect_dependency_cycle_fuel (Suc (length as) + k) as \<noteq> Out_Of_Fuel \<and>
   (detect_dependency_cycle as = None \<longleftrightarrow> acyclic (depends_on as)) \<and>
   (case detect_dependency_cycle as of None \<Rightarrow> True | Some c \<Rightarrow>
      2 \<le> length c \<and> hd c = last c \<and> chain (depends_on as) c)"
  using dfs_never_out_of_fuel [of as "Suc (length as) + k"] detect_None_iff [of as] detect_Some_real [of as]
  by (auto simp: real_cycle_def split: option.splits)

text \<open>A plan is reported ready exactly when it has actions, ids are unique, no action depends on
  itself or on an unknown id, dependencies are acyclic and never point to a later sequence number,
  and every action is in a possible status, states its expected result, success criteria and
  verification method, and declares a tool unless its type needs none. Ready means no blocker.\<close>

theorem plan_ready_iff:
  "(pr_ready (evaluate_plan_readiness plan) \<longleftrightarrow>
      p_actions plan \<noteq> [] \<and> well_structured (p_actions plan) \<and>
      forward_only_dependency_violations (p_actions plan) = [] \<and>
      list_all executable_action (p_actions plan)) \<and>
   (pr_ready (evaluate_plan_readiness plan) \<longleftrightarrow> pr_blockers (evaluate_plan_readiness plan) = [])"
  by (auto simp: evaluate_plan_readiness_def Let_def structure_blockers_Nil_iff validate_dependencies_iff
      action_blockers_Nil_iff concat_eq_Nil_conv list_all_iff)

text \<open>C22: the raising validator and the report agree: validation succeeds exactly on well-structured
  plans, and the report of a non-empty plan has structural blockers exactly when validation raises
  or a dependency is sequenced later; these come first among its blockers.\<close>

theorem strict_validation_agrees:
  "(validate_dependencies as = Inr () \<longleftrightarrow> well_structured as) \<and>
   (structure_blockers as = [] \<longleftrightarrow>
      validate_dependencies as = Inr () \<and> forward_only_dependency_violations as = []) \<and>
   pr_blockers (evaluate_plan_readiness (plan\<lparr>p_actions := a # as\<rparr>)) =
     structure_blockers (a # as) @ concat (map action_blockers (a # as))"
  by (simp add: evaluate_plan_readiness_def Let_def structure_blockers_Nil_iff validate_dependencies_iff)

end
