(* ===== verification/Permission_Engine.thy ===== *)
theory Permission_Engine
  imports Tool_Registry Plan_Validation Lifecycles
begin

text \<open>
  \<open>app/decision_intelligence/permission_engine.py\<close>: the deterministic permission engine. An
  Action's own permission and risk levels are proposals; the authoritative ones come from its
  action type and its resolved tool. \<open>evaluated_at\<close> is the clock's reading, passed in.
\<close>

datatype permission_outcome = ALLOW | ALLOW_WITH_AUDIT | REQUIRE_APPROVAL | BLOCK

fun permission_outcome_value :: "permission_outcome \<Rightarrow> string" where
  "permission_outcome_value ALLOW = ''ALLOW''"
| "permission_outcome_value ALLOW_WITH_AUDIT = ''ALLOW_WITH_AUDIT''"
| "permission_outcome_value REQUIRE_APPROVAL = ''REQUIRE_APPROVAL''"
| "permission_outcome_value BLOCK = ''BLOCK''"

datatype reason_code = TOOL_ALLOWED | AUDIT_REQUIRED | APPROVAL_REQUIRED | POLICY_BLOCK
  | FORBIDDEN_CAPABILITY | HIGH_RISK | PERMISSION_ESCALATED | RISK_ESCALATED
  | UNSUPPORTED_ACTION_TYPE | MISSING_TOOL | UNKNOWN_TOOL | TOOL_DISABLED

definition policy_source :: string where
  "policy_source = ''app.decision_intelligence.permission_engine.evaluate_permission''"

record permission_decision =
  pd_action_id :: string
  pd_outcome :: permission_outcome
  pd_permission_level :: permission_level
  pd_risk_level :: risk_level
  pd_approval_required :: bool
  pd_reason_codes :: "reason_code list"
  pd_explanation :: string
  pd_policy_source :: string
  pd_evaluated_at :: datetime
  pd_tool_name :: "string option"
  pd_dry_run_recommended :: bool

section \<open>Ordering\<close>

definition permission_order :: "permission_level list" where
  "permission_order = [READ, WRITE, EXTERNAL_ACTION, FINANCIAL_ACTION, ADMIN]"

definition risk_order :: "risk_level list" where
  "risk_order = [LOW, MEDIUM, HIGH, CRITICAL]"

text \<open>\<open>list.index\<close>, on lists that hold the element.\<close>

fun list_index :: "'a list \<Rightarrow> 'a \<Rightarrow> nat" where
  "list_index [] y = 0"
| "list_index (x # xs) y = (if x = y then 0 else Suc (list_index xs y))"

definition permission_rank :: "permission_level \<Rightarrow> nat" where
  "permission_rank l = list_index permission_order l"

definition risk_rank :: "risk_level \<Rightarrow> nat" where
  "risk_rank l = list_index risk_order l"

definition max_permission :: "permission_level \<Rightarrow> permission_level \<Rightarrow> permission_level" where
  "max_permission a b = (if permission_rank b \<le> permission_rank a then a else b)"

definition max_risk :: "risk_level \<Rightarrow> risk_level \<Rightarrow> risk_level" where
  "max_risk a b = (if risk_rank b \<le> risk_rank a then a else b)"

text \<open>The orders these ranks induce, as instances of the library's linear orders.\<close>

lemma rank_values [rank_simps]:
  "permission_rank READ = 0" "permission_rank WRITE = 1" "permission_rank EXTERNAL_ACTION = 2"
  "permission_rank FINANCIAL_ACTION = 3" "permission_rank ADMIN = 4"
  "risk_rank LOW = 0" "risk_rank MEDIUM = 1" "risk_rank HIGH = 2" "risk_rank CRITICAL = 3"
  by (simp_all add: permission_rank_def permission_order_def risk_rank_def risk_order_def)

lemma permission_rank_inj: "permission_rank p = permission_rank q \<Longrightarrow> p = q"
  by (cases p; cases q) (simp_all add: rank_simps)

lemma risk_rank_inj: "risk_rank p = risk_rank q \<Longrightarrow> p = q"
  by (cases p; cases q) (simp_all add: rank_simps)

instantiation permission_level :: linorder
begin

definition less_eq_permission_level :: "permission_level \<Rightarrow> permission_level \<Rightarrow> bool" where
  "less_eq_permission_level p q = (permission_rank p \<le> permission_rank q)"

definition less_permission_level :: "permission_level \<Rightarrow> permission_level \<Rightarrow> bool" where
  "less_permission_level p q = (permission_rank p < permission_rank q)"

instance
  by standard (auto simp: less_eq_permission_level_def less_permission_level_def intro: permission_rank_inj)

end

instantiation risk_level :: linorder
begin

definition less_eq_risk_level :: "risk_level \<Rightarrow> risk_level \<Rightarrow> bool" where
  "less_eq_risk_level p q = (risk_rank p \<le> risk_rank q)"

definition less_risk_level :: "risk_level \<Rightarrow> risk_level \<Rightarrow> bool" where
  "less_risk_level p q = (risk_rank p < risk_rank q)"

instance
  by standard (auto simp: less_eq_risk_level_def less_risk_level_def intro: risk_rank_inj)

end

lemma max_permission_max: "max_permission a b = max b a"
  by (simp add: max_permission_def max_def less_eq_permission_level_def)

lemma max_risk_max: "max_risk a b = max b a"
  by (simp add: max_risk_def max_def less_eq_risk_level_def)

section \<open>Policy tables\<close>

definition action_type_floor :: "(string \<times> permission_level \<times> risk_level) list" where
  "action_type_floor = [
     (''read'', READ, LOW),
     (''internal_create'', WRITE, LOW),
     (''sandbox_create'', WRITE, LOW),
     (''external_modify'', EXTERNAL_ACTION, MEDIUM),
     (''send'', EXTERNAL_ACTION, HIGH),
     (''publish'', EXTERNAL_ACTION, HIGH),
     (''delete'', EXTERNAL_ACTION, HIGH),
     (''financial'', FINANCIAL_ACTION, CRITICAL),
     (''install'', ADMIN, CRITICAL),
     (''privileged'', ADMIN, CRITICAL)]"

fun outcome_by_permission :: "permission_level \<Rightarrow> permission_outcome" where
  "outcome_by_permission READ = ALLOW"
| "outcome_by_permission WRITE = ALLOW_WITH_AUDIT"
| "outcome_by_permission EXTERNAL_ACTION = REQUIRE_APPROVAL"
| "outcome_by_permission FINANCIAL_ACTION = REQUIRE_APPROVAL"
| "outcome_by_permission ADMIN = BLOCK"

section \<open>Evaluation\<close>

definition block_decision :: "action \<Rightarrow> permission_level \<Rightarrow> risk_level \<Rightarrow> reason_code list \<Rightarrow> string \<Rightarrow>
    string option \<Rightarrow> datetime \<Rightarrow> permission_decision" where
  "block_decision a p r codes expl tool now = \<lparr>pd_action_id = a_id a, pd_outcome = BLOCK,
     pd_permission_level = p, pd_risk_level = r, pd_approval_required = False,
     pd_reason_codes = codes, pd_explanation = expl, pd_policy_source = policy_source,
     pd_evaluated_at = now, pd_tool_name = tool, pd_dry_run_recommended = False\<rparr>"

text \<open>The codes \<open>_append_escalation_reasons\<close> appends; it returns whether there are any.\<close>

definition escalation_reasons :: "action \<Rightarrow> permission_level \<Rightarrow> risk_level \<Rightarrow> reason_code list" where
  "escalation_reasons a p r =
     (if permission_rank (a_permission_level a) < permission_rank p then [PERMISSION_ESCALATED] else []) @
     (if risk_rank (a_risk_level a) < risk_rank r then [RISK_ESCALATED] else [])"

fun outcome_reasons :: "permission_outcome \<Rightarrow> reason_code list" where
  "outcome_reasons ALLOW = [TOOL_ALLOWED]"
| "outcome_reasons ALLOW_WITH_AUDIT = [TOOL_ALLOWED, AUDIT_REQUIRED]"
| "outcome_reasons REQUIRE_APPROVAL = [APPROVAL_REQUIRED]"
| "outcome_reasons BLOCK = [FORBIDDEN_CAPABILITY, POLICY_BLOCK]"

definition evaluate_with_tool :: "action \<Rightarrow> tool_definition \<Rightarrow> permission_level \<times> risk_level \<Rightarrow> datetime \<Rightarrow>
    permission_decision" where
  "evaluate_with_tool a tool flr now = (let
     p = max_permission (fst flr) (t_default_permission_level tool);
     r = max_risk (snd flr) (t_default_risk_level tool);
     esc = escalation_reasons a p r;
     outcome = outcome_by_permission p
   in \<lparr>pd_action_id = a_id a, pd_outcome = outcome, pd_permission_level = p, pd_risk_level = r,
      pd_approval_required = (outcome = REQUIRE_APPROVAL),
      pd_reason_codes = outcome_reasons outcome @ esc @ (if r \<in> {HIGH, CRITICAL} then [HIGH_RISK] else []),
      pd_explanation = ''tool '' @ quoted (t_name tool) @ '' resolved for action_type '' @
        quoted (a_action_type a) @ '' -> permission='' @ permission_level_value p @ '', risk='' @
        risk_level_value r @ '' -> '' @ permission_outcome_value outcome @
        (if esc \<noteq> [] then '' (proposed permission/risk was below the tool/action floor and was overridden)''
         else []),
      pd_policy_source = policy_source, pd_evaluated_at = now, pd_tool_name = Some (t_name tool),
      pd_dry_run_recommended = (t_supports_dry_run tool \<and> outcome \<noteq> ALLOW)\<rparr>)"

definition evaluate_permission :: "action \<Rightarrow> tool_registry \<Rightarrow> datetime \<Rightarrow> permission_decision" where
  "evaluate_permission a reg now = (let ty = a_action_type a in
     if \<not> requires_tool ty then
       (let esc = escalation_reasons a READ LOW in
        \<lparr>pd_action_id = a_id a, pd_outcome = ALLOW, pd_permission_level = READ, pd_risk_level = LOW,
          pd_approval_required = False, pd_reason_codes = TOOL_ALLOWED # esc,
          pd_explanation = ''action_type '' @ quoted ty @ '' requires no tool (internal reasoning) -> ALLOW'' @
            (if esc \<noteq> [] then '' (proposed permission/risk was escalated to the floor)'' else []),
          pd_policy_source = policy_source, pd_evaluated_at = now, pd_tool_name = None,
          pd_dry_run_recommended = False\<rparr>)
     else (case map_of action_type_floor ty of
         None \<Rightarrow> block_decision a ADMIN CRITICAL [UNSUPPORTED_ACTION_TYPE, POLICY_BLOCK]
           (''Unknown action_type '' @ quoted ty @ '' has no defined policy -> BLOCK'') (a_tool_name a) now
       | Some (p, r) \<Rightarrow>
           if \<not> tool_declared (a_tool_name a) then
             block_decision a p r [MISSING_TOOL, POLICY_BLOCK]
               (''action_type '' @ quoted ty @ '' requires a tool but Action.tool_name is unset -> BLOCK'') None now
           else let n = empty_if_none (a_tool_name a) in
             (case registry_resolve reg n ty of
                Inr tool \<Rightarrow> evaluate_with_tool a tool (p, r) now
              | Inl (DisabledToolError _) \<Rightarrow> block_decision a p r [TOOL_DISABLED, POLICY_BLOCK]
                  (''tool '' @ quoted n @ '' is registered but disabled -> BLOCK'') (a_tool_name a) now
              | Inl (UnsupportedActionTypeError _ _) \<Rightarrow> block_decision a p r [UNSUPPORTED_ACTION_TYPE, POLICY_BLOCK]
                  (''tool '' @ quoted n @ '' does not support action_type '' @ quoted ty @ '' -> BLOCK'')
                  (a_tool_name a) now
              | Inl _ \<Rightarrow> block_decision a p r [UNKNOWN_TOOL, POLICY_BLOCK]
                  (''tool_name '' @ quoted n @ '' is not registered -> BLOCK'') (a_tool_name a) now)))"

definition apply_permission_decision :: "action \<Rightarrow> permission_decision \<Rightarrow> action_transition_error + action" where
  "apply_permission_decision a d = (let
     target = (if pd_outcome d = BLOCK then AS_BLOCKED else AS_PERMISSION_CHECKED)
   in case assert_action_transition (a_status a) target of
        Inl e \<Rightarrow> Inl e
      | Inr _ \<Rightarrow> Inr (a\<lparr>a_status := target, a_permission_level := pd_permission_level d,
          a_risk_level := pd_risk_level d, a_approval_required := pd_approval_required d\<rparr>))"

section \<open>Lemmas\<close>

text \<open>
  The policy read declaratively: an action is granted at \<open>(p, r)\<close> if its type needs no tool, or
  if its type has a floor and its declared tool resolves, \<open>p\<close> and \<open>r\<close> being the larger of the
  two floors.
\<close>

definition granted_level :: "action \<Rightarrow> tool_registry \<Rightarrow> (permission_level \<times> risk_level) option" where
  "granted_level a reg =
     (if \<not> requires_tool (a_action_type a) then Some (READ, LOW)
      else case map_of action_type_floor (a_action_type a) of
          None \<Rightarrow> None
        | Some (p, r) \<Rightarrow>
            (if \<not> tool_declared (a_tool_name a) then None
             else case registry_resolve reg (empty_if_none (a_tool_name a)) (a_action_type a) of
                 Inl _ \<Rightarrow> None
               | Inr t \<Rightarrow> Some (max p (t_default_permission_level t), max r (t_default_risk_level t))))"

lemma evaluate_permission_outcome: "pd_outcome (evaluate_permission a reg now) =
    (case granted_level a reg of None \<Rightarrow> BLOCK | Some (p, r) \<Rightarrow> outcome_by_permission p)"
  by (simp add: evaluate_permission_def granted_level_def Let_def block_decision_def
      evaluate_with_tool_def max_permission_max max.commute split: option.split sum.split tool_error.split)

lemma evaluate_permission_levels: "granted_level a reg = Some (p, r) \<Longrightarrow>
    pd_permission_level (evaluate_permission a reg now) = p \<and> pd_risk_level (evaluate_permission a reg now) = r"
  by (auto simp: evaluate_permission_def granted_level_def Let_def evaluate_with_tool_def max_permission_max
      max_risk_max max.commute split: if_splits option.splits sum.splits)

lemma granted_level_tool_iff:
  assumes "requires_tool (a_action_type a)"
  shows "granted_level a reg = Some (P, R) \<longleftrightarrow>
    (\<exists>p r t. map_of action_type_floor (a_action_type a) = Some (p, r) \<and> tool_declared (a_tool_name a) \<and>
       registry_lookup reg (empty_if_none (a_tool_name a)) = Some t \<and> t_enabled t \<and>
       a_action_type a \<in> set (t_supported_action_types t) \<and>
       P = max p (t_default_permission_level t) \<and> R = max r (t_default_risk_level t))"
proof -
  have "granted_level a reg = Some (P, R) \<longleftrightarrow>
    (\<exists>p r t. map_of action_type_floor (a_action_type a) = Some (p, r) \<and> tool_declared (a_tool_name a) \<and>
       registry_resolve reg (empty_if_none (a_tool_name a)) (a_action_type a) = Inr t \<and>
       P = max p (t_default_permission_level t) \<and> R = max r (t_default_risk_level t))"
    using assms by (auto simp: granted_level_def split: option.splits sum.splits)
  then show ?thesis by (auto simp: tools.resolve_iff)
qed

lemma evaluate_permission_approval: "pd_approval_required (evaluate_permission a reg now) =
    (pd_outcome (evaluate_permission a reg now) = REQUIRE_APPROVAL)"
  by (simp add: evaluate_permission_def Let_def block_decision_def evaluate_with_tool_def
      split: option.split sum.split tool_error.split)

lemma blocked_never_executes:
  assumes "status_path can_action_transition AS_BLOCKED ts"
  shows "AS_EXECUTING \<notin> set ts"
proof (cases ts)
  case (Cons t ts')
  then have "t = AS_CANCELLED" and "status_path can_action_transition AS_CANCELLED ts'"
    using assms by (auto simp: state_machine)
  then show ?thesis using Cons action_machine.dead_end_path [of AS_CANCELLED ts'] by simp
qed simp

lemma permission_leI: "p \<le> ADMIN"
  by (cases p) (simp_all add: less_eq_permission_level_def rank_simps)

definition sample_action :: action where
  "sample_action = \<lparr>a_id = ''a1'', a_action_plan_id = ''p1'', a_sequence = 0, a_action_type = ''privileged'',
     a_title = ''t'', a_description = [], a_agent_type = ''ceo'', a_tool_name = Some ''system.privileged_shell'',
     a_inputs = [], a_risk_level = LOW, a_permission_level = READ, a_approval_required = False,
     a_approval_id = None, a_estimated_cost = None, a_dependencies = [], a_expected_result = ''r'',
     a_success_criteria = ''s'', a_verification_method = ''m'', a_status = AS_VALIDATED,
     a_started_at = None, a_completed_at = None, a_result = None, a_error = None, a_retry_count = 0,
     a_max_retries = 3, a_superseded_by = None\<rparr>"

section \<open>Properties\<close>

text \<open>The tier table of the module's documentation, and what a decision for a granted level \<open>(p, r)\<close> looks like.\<close>

definition policy_tier :: "permission_level \<Rightarrow> permission_outcome \<times> reason_code list" where
  "policy_tier p = (if p = READ then (ALLOW, [TOOL_ALLOWED])
     else if p = WRITE then (ALLOW_WITH_AUDIT, [TOOL_ALLOWED, AUDIT_REQUIRED])
     else if p < ADMIN then (REQUIRE_APPROVAL, [APPROVAL_REQUIRED])
     else (BLOCK, [FORBIDDEN_CAPABILITY, POLICY_BLOCK]))"

definition granted_decision :: "action \<Rightarrow> permission_level \<Rightarrow> risk_level \<Rightarrow> tool_definition option \<Rightarrow> permission_decision \<Rightarrow> bool" where
  "granted_decision a p r tool d = (pd_outcome d = fst (policy_tier p) \<and> pd_permission_level d = p \<and> pd_risk_level d = r \<and>
     pd_approval_required d = (EXTERNAL_ACTION \<le> p \<and> p < ADMIN) \<and>
     pd_reason_codes d = snd (policy_tier p) @ (if a_permission_level a < p then [PERMISSION_ESCALATED] else []) @
       (if a_risk_level a < r then [RISK_ESCALATED] else []) @ (if tool \<noteq> None \<and> HIGH \<le> r then [HIGH_RISK] else []) \<and>
     pd_tool_name d = map_option t_name tool \<and>
     pd_dry_run_recommended d = (case tool of None \<Rightarrow> False | Some t \<Rightarrow> t_supports_dry_run t \<and> p \<noteq> READ))"

definition refused_decision :: "reason_code \<Rightarrow> permission_level \<Rightarrow> risk_level \<Rightarrow> string option \<Rightarrow> permission_decision \<Rightarrow> bool" where
  "refused_decision code p r name d = (pd_outcome d = BLOCK \<and> pd_reason_codes d = [code, POLICY_BLOCK] \<and> pd_permission_level d = p \<and>
     pd_risk_level d = r \<and> \<not> pd_approval_required d \<and> pd_tool_name d = name \<and> \<not> pd_dry_run_recommended d)"

lemma evaluate_with_tool_granted: "granted_decision a (max p (t_default_permission_level t)) (max r (t_default_risk_level t)) (Some t)
    (evaluate_with_tool a t (p, r) now)"
proof -
  have o': "outcome_by_permission q = fst (policy_tier q)" "outcome_reasons (fst (policy_tier q)) = snd (policy_tier q)"
      "(fst (policy_tier q) = REQUIRE_APPROVAL) = (EXTERNAL_ACTION \<le> q \<and> q < ADMIN)" "(fst (policy_tier q) \<noteq> ALLOW) = (q \<noteq> READ)" for q
    by (cases q; simp add: policy_tier_def less_permission_level_def less_eq_permission_level_def rank_simps)+
  have h: "(q \<in> {HIGH, CRITICAL}) = (HIGH \<le> q)" for q by (cases q) (simp_all add: less_eq_risk_level_def rank_simps)
  show ?thesis
    by (simp only: granted_decision_def evaluate_with_tool_def Let_def permission_decision.simps fst_conv snd_conv max_permission_max max_risk_max
        max.commute [of p] max.commute [of r] o' escalation_reasons_def less_permission_level_def less_risk_level_def h)
      (simp add: o')
qed

text \<open>C13: the decision is exactly the policy. An action whose type needs no tool is allowed at \<open>READ\<close> and \<open>LOW\<close>. Otherwise
  an unknown type, an undeclared tool, an unregistered or disabled tool and a tool that does not support the type are
  blocked, each with its own reason code, tested in this order. Otherwise the authoritative levels are the larger of the
  type's floor and the tool's, and the tier decides: \<open>READ\<close> is allowed, \<open>WRITE\<close> allowed with audit, external and financial
  permissions require an approval and \<open>ADMIN\<close> is blocked; escalations over the proposal and high risks are reported.\<close>

theorem permission_policy:
  "let d = evaluate_permission a reg now; ty = a_action_type a; n = empty_if_none (a_tool_name a)
   in pd_action_id d = a_id a \<and> pd_evaluated_at d = now \<and>
    (if \<not> requires_tool ty then granted_decision a READ LOW None d
     else case map_of action_type_floor ty of
       None \<Rightarrow> refused_decision UNSUPPORTED_ACTION_TYPE ADMIN CRITICAL (a_tool_name a) d
     | Some (p, r) \<Rightarrow>
         if \<not> tool_declared (a_tool_name a) then refused_decision MISSING_TOOL p r None d
         else (case registry_lookup reg n of
             None \<Rightarrow> refused_decision UNKNOWN_TOOL p r (a_tool_name a) d
           | Some t \<Rightarrow>
               if \<not> t_enabled t then refused_decision TOOL_DISABLED p r (a_tool_name a) d
               else if ty \<notin> set (t_supported_action_types t) then refused_decision UNSUPPORTED_ACTION_TYPE p r (a_tool_name a) d
               else granted_decision a (max p (t_default_permission_level t)) (max r (t_default_risk_level t)) (Some t) d))"
proof -
  have ids: "pd_action_id (evaluate_permission a reg now) = a_id a" "pd_evaluated_at (evaluate_permission a reg now) = now"
    by (simp_all add: evaluate_permission_def Let_def block_decision_def evaluate_with_tool_def split: option.split sum.split tool_error.split)
  have free: "granted_decision a READ LOW None (evaluate_permission a reg now)" if "\<not> requires_tool (a_action_type a)"
    using that by (simp add: granted_decision_def evaluate_permission_def Let_def policy_tier_def escalation_reasons_def
        less_permission_level_def less_eq_permission_level_def less_risk_level_def rank_simps)
  show ?thesis
  proof (cases "requires_tool (a_action_type a)")
    case False
    then show ?thesis using ids free by (simp add: Let_def)
  next
    case True
    show ?thesis
      unfolding Let_def ids using True evaluate_with_tool_granted [of a]
      by (simp add: evaluate_permission_def Let_def refused_decision_def block_decision_def registry_resolve_def registry_get_def
          split: option.split)
  qed
qed

theorem permission_policy_witness:
  "pd_outcome (evaluate_permission (sample_action\<lparr>a_action_type := ''sandbox_create'', a_tool_name := Some ''file.create_sandboxed''\<rparr>)
     default_tools 0) = ALLOW_WITH_AUDIT"
proof -
  let ?a = "sample_action\<lparr>a_action_type := ''sandbox_create'', a_tool_name := Some ''file.create_sandboxed''\<rparr>"
  have facts: "requires_tool (a_action_type ?a)" "map_of action_type_floor (a_action_type ?a) = Some (WRITE, LOW)" "tool_declared (a_tool_name ?a)"
    "case registry_lookup default_tools (empty_if_none (a_tool_name ?a)) of None \<Rightarrow> False | Some t \<Rightarrow>
       t_enabled t \<and> a_action_type ?a \<in> set (t_supported_action_types t) \<and> t_default_permission_level t = WRITE"
    by code_simp+
  then obtain t where "registry_lookup default_tools (empty_if_none (a_tool_name ?a)) = Some t" "t_enabled t"
      "a_action_type ?a \<in> set (t_supported_action_types t)" "t_default_permission_level t = WRITE" by (auto split: option.splits)
  with permission_policy [of ?a default_tools 0] facts(1-3) show ?thesis by (simp add: granted_decision_def policy_tier_def Let_def)
qed

text \<open>Proposals carry no authority. Whatever permission level, risk level and approval flag an
  action proposes, and whatever else it says besides its id, type and tool, the outcome, the
  authoritative levels, the approval requirement, the tool and the dry-run advice are the same; and
  the proposal is reported as escalated exactly when it lies below the authoritative permission.\<close>

theorem proposals_carry_no_authority:
  "(let d = evaluate_permission a reg now;
        d' = evaluate_permission (b\<lparr>a_id := a_id a, a_action_type := a_action_type a, a_tool_name := a_tool_name a\<rparr>)
               reg now
    in d' = d\<lparr>pd_reason_codes := pd_reason_codes d', pd_explanation := pd_explanation d'\<rparr>) \<and>
   (PERMISSION_ESCALATED \<in> set (pd_reason_codes (evaluate_permission a reg now)) \<longleftrightarrow>
      granted_level a reg \<noteq> None \<and>
      a_permission_level a < pd_permission_level (evaluate_permission a reg now))"
proof -
  have esc: "PERMISSION_ESCALATED \<in> set (escalation_reasons a p r) \<longleftrightarrow> a_permission_level a < p" for p r
    by (simp add: escalation_reasons_def less_permission_level_def)
  have no: "PERMISSION_ESCALATED \<notin> set (outcome_reasons o')" for o'
    by (cases o') simp_all
  show ?thesis
    by (auto simp: evaluate_permission_def Let_def block_decision_def evaluate_with_tool_def
        granted_level_def esc no split: option.split sum.split tool_error.split if_splits)
qed

text \<open>A blocked decision is final. Applying any decision to a \<open>VALIDATED\<close> action always succeeds,
  copies the authoritative levels and nothing else but the status; if the outcome was \<open>BLOCK\<close>, no run
  of the state machine from the result ever executes the action.\<close>

theorem blocked_action_never_executes:
  assumes "a_status a = AS_VALIDATED"
  shows "\<exists>a'. apply_permission_decision a d = Inr a' \<and>
     a' = a\<lparr>a_status := a_status a', a_permission_level := pd_permission_level d,
            a_risk_level := pd_risk_level d, a_approval_required := pd_approval_required d\<rparr> \<and>
     (a_status a' = AS_BLOCKED \<longleftrightarrow> pd_outcome d = BLOCK) \<and>
     (pd_outcome d = BLOCK \<longrightarrow>
        (\<forall>ts. status_path can_action_transition (a_status a') ts \<longrightarrow> AS_EXECUTING \<notin> set ts))"
  using assms blocked_never_executes
  by (auto simp: apply_permission_decision_def assert_action_transition_def can_action_transition_def Let_def)

lemma sample_action_blocked: "pd_outcome (evaluate_permission sample_action default_tools 0) = BLOCK"
  by code_simp

theorem blocked_action_never_executes_witness:
  "\<exists>a'. apply_permission_decision sample_action (evaluate_permission sample_action default_tools 0) = Inr a' \<and>
     a_status a' = AS_BLOCKED"
  using blocked_action_never_executes [of sample_action "evaluate_permission sample_action default_tools 0"]
    sample_action_blocked
  by (auto simp: sample_action_def)

end
