(* ===== verification/Approval_Engine.thy ===== *)
theory Approval_Engine
  imports Permission_Engine Sha256 Canonical_Json
begin

text \<open>
  \<open>app/decision_intelligence/action_hash.py\<close> and \<open>approval_engine.py\<close>: the digest that binds an
  approval to one exact payload, the ApprovalRequest's life (create, decide, expire, consume), the
  authoritative validity check and the Action transitions it gates. Clock readings and the id a
  pydantic default factory draws are arguments; an optional \<open>now\<close> that is absent is the reading of
  the clock, so every operation takes the effective time.
\<close>

section \<open>The action hash\<close>

definition opt_str :: "string option \<Rightarrow> json" where
  "opt_str x = (case x of None \<Rightarrow> JNull | Some s \<Rightarrow> JStr s)"

text \<open>The inputs pass through \<open>model_dump(mode="json")\<close>; the other hashed fields are strings and enumerations.\<close>

definition canonical_action_payload :: "action \<Rightarrow> json" where
  "canonical_action_payload a = JObj [
     (''action_type'', JStr (a_action_type a)),
     (''tool_name'', opt_str (a_tool_name a)),
     (''inputs'', json_mode (JObj (a_inputs a))),
     (''expected_result'', JStr (a_expected_result a)),
     (''permission_level'', JStr (permission_level_value (a_permission_level a))),
     (''risk_level'', JStr (risk_level_value (a_risk_level a)))]"

definition compute_action_hash :: "action \<Rightarrow> string" where
  "compute_action_hash a = sha256_hex (json_compact (canonical_action_payload a))"

section \<open>Errors and tables\<close>

datatype approval_error =
    ActionApprovalMismatchError string string
  | PermissionNotRequireApprovalError permission_outcome
  | InvalidActionStateForApprovalError action_status action_status
  | UnauthoritativeActionStateError string
  | TrustedDecisionIdentityRequiredError
  | InvalidApprovalDecisionError string
  | ApprovalAlreadyDecidedError approval_status
  | SelfApprovalError string string
  | ApprovalActionIdMismatchError string string
  | ApprovalHashMismatchError string string
  | ApprovalNotApprovedError approval_status
  | ApprovalOutcomeNotFinalError approval_status
  | ApprovalAlreadyConsumedError string
  | ApprovalNotExpirableError string
  | ApprovalNotYetExpiredError string datetime datetime
  | ApprovalExpiredError string "datetime option" datetime
  | ApprovalEngineError string
  | ApprovalTransition action_transition_error

definition default_approval_ttl :: int where
  "default_approval_ttl = 24 * 60 * 60 * 1000000"

definition decision_target_status :: "string \<Rightarrow> approval_status option" where
  "decision_target_status d = map_of
     [(''APPROVE'', AR_APPROVED), (''REJECT'', AR_REJECTED), (''CANCEL'', AR_CANCELLED)] d"

fun terminal_action_target :: "approval_status \<Rightarrow> action_status option" where
  "terminal_action_target AR_REJECTED = Some AS_REJECTED"
| "terminal_action_target AR_CANCELLED = Some AS_CANCELLED"
| "terminal_action_target AR_EXPIRED = Some AS_CANCELLED"
| "terminal_action_target _ = None"

fun reason_code_value :: "reason_code \<Rightarrow> string" where
  "reason_code_value TOOL_ALLOWED = ''TOOL_ALLOWED''"
| "reason_code_value AUDIT_REQUIRED = ''AUDIT_REQUIRED''"
| "reason_code_value APPROVAL_REQUIRED = ''APPROVAL_REQUIRED''"
| "reason_code_value POLICY_BLOCK = ''POLICY_BLOCK''"
| "reason_code_value FORBIDDEN_CAPABILITY = ''FORBIDDEN_CAPABILITY''"
| "reason_code_value HIGH_RISK = ''HIGH_RISK''"
| "reason_code_value PERMISSION_ESCALATED = ''PERMISSION_ESCALATED''"
| "reason_code_value RISK_ESCALATED = ''RISK_ESCALATED''"
| "reason_code_value UNSUPPORTED_ACTION_TYPE = ''UNSUPPORTED_ACTION_TYPE''"
| "reason_code_value MISSING_TOOL = ''MISSING_TOOL''"
| "reason_code_value UNKNOWN_TOOL = ''UNKNOWN_TOOL''"
| "reason_code_value TOOL_DISABLED = ''TOOL_DISABLED''"

section \<open>Creation and decision\<close>

definition create_approval_request :: "string \<Rightarrow> datetime \<Rightarrow> datetime \<Rightarrow> action \<Rightarrow> permission_decision \<Rightarrow>
    string \<Rightarrow> string \<Rightarrow> datetime option \<Rightarrow> approval_error + approval_request" where
  "create_approval_request new_id ttl_now req_now a d requested_by reason expires_at =
     (if pd_action_id d \<noteq> a_id a then Inl (ActionApprovalMismatchError (a_id a) (pd_action_id d))
      else if pd_outcome d \<noteq> REQUIRE_APPROVAL \<or> \<not> pd_approval_required d
        then Inl (PermissionNotRequireApprovalError (pd_outcome d))
      else if a_status a \<noteq> AS_PERMISSION_CHECKED
        then Inl (InvalidActionStateForApprovalError (a_status a) AS_PERMISSION_CHECKED)
      else if a_permission_level a \<noteq> pd_permission_level d \<or> a_risk_level a \<noteq> pd_risk_level d
        then Inl (UnauthoritativeActionStateError (a_id a))
      else if requested_by = [] then Inl TrustedDecisionIdentityRequiredError
      else Inr \<lparr>ar_id = new_id, ar_action_id = a_id a, ar_requested_by = requested_by, ar_reason = reason,
        ar_action_summary = str_or (a_title a) (a_action_type a),
        ar_risk_summary = ''risk_level='' @ risk_level_value (pd_risk_level d) @ ''; outcome='' @
          permission_outcome_value (pd_outcome d) @ ''; reasons='' @
          py_join '','' (map reason_code_value (pd_reason_codes d)),
        ar_permission_level = pd_permission_level d, ar_estimated_cost = a_estimated_cost a,
        ar_proposed_inputs = a_inputs a, ar_expected_effect = a_expected_result a,
        ar_action_hash = compute_action_hash a, ar_status = AR_PENDING, ar_requested_at = req_now,
        ar_decided_at = None, ar_decided_by = None,
        ar_expires_at = Some (case expires_at of Some t \<Rightarrow> t | None \<Rightarrow> ttl_now + default_approval_ttl),
        ar_consumed = False, ar_consumed_at = None\<rparr>)"

definition move_action :: "action \<Rightarrow> action_status \<Rightarrow> approval_error + action" where
  "move_action a target = (case assert_action_transition (a_status a) target of
     Inl e \<Rightarrow> Inl (ApprovalTransition e) | Inr _ \<Rightarrow> Inr (a\<lparr>a_status := target\<rparr>))"

definition advance_to_waiting_for_approval :: "action \<Rightarrow> approval_error + action" where
  "advance_to_waiting_for_approval a = move_action a AS_WAITING_FOR_APPROVAL"

definition decide_approval :: "datetime \<Rightarrow> approval_request \<Rightarrow> string \<Rightarrow> string \<Rightarrow>
    approval_error + approval_request" where
  "decide_approval now r d decided_by = (case decision_target_status d of
     None \<Rightarrow> Inl (InvalidApprovalDecisionError d)
   | Some target \<Rightarrow>
       if decided_by = [] then Inl TrustedDecisionIdentityRequiredError
       else if ar_status r \<noteq> AR_PENDING then Inl (ApprovalAlreadyDecidedError (ar_status r))
       else if d = ''APPROVE'' \<and> decided_by = ar_requested_by r then Inl (SelfApprovalError (ar_id r) decided_by)
       else Inr (r\<lparr>ar_status := target, ar_decided_at := Some now, ar_decided_by := Some decided_by\<rparr>))"

definition expire_approval_request :: "datetime \<Rightarrow> approval_request \<Rightarrow> approval_error + approval_request" where
  "expire_approval_request now r =
     (if ar_status r \<noteq> AR_PENDING then Inl (ApprovalAlreadyDecidedError (ar_status r))
      else case ar_expires_at r of
          None \<Rightarrow> Inl (ApprovalNotExpirableError (ar_id r))
        | Some t \<Rightarrow>
            if now < t then Inl (ApprovalNotYetExpiredError (ar_id r) t now)
            else Inr (r\<lparr>ar_status := AR_EXPIRED, ar_decided_at := Some now,
              ar_decided_by := Some ''system:expiration_policy''\<rparr>))"

definition is_expired :: "datetime \<Rightarrow> approval_request \<Rightarrow> bool" where
  "is_expired now r = (case ar_expires_at r of None \<Rightarrow> False | Some t \<Rightarrow> t \<le> now)"

section \<open>Validity\<close>

datatype validity_reason = NOT_APPROVED | ACTION_ID_MISMATCH | HASH_MISMATCH | ALREADY_CONSUMED | EXPIRED

fun validity_reason_value :: "validity_reason \<Rightarrow> string" where
  "validity_reason_value NOT_APPROVED = ''NOT_APPROVED''"
| "validity_reason_value ACTION_ID_MISMATCH = ''ACTION_ID_MISMATCH''"
| "validity_reason_value HASH_MISMATCH = ''HASH_MISMATCH''"
| "validity_reason_value ALREADY_CONSUMED = ''ALREADY_CONSUMED''"
| "validity_reason_value EXPIRED = ''EXPIRED''"

definition validity_reason_priority :: "validity_reason list" where
  "validity_reason_priority = [NOT_APPROVED, ACTION_ID_MISMATCH, HASH_MISMATCH, ALREADY_CONSUMED, EXPIRED]"

record approval_validity_result =
  av_valid :: bool
  av_reason_codes :: "validity_reason list"
  av_explanation :: string
  av_checked_at :: datetime

definition validity_reasons :: "datetime \<Rightarrow> approval_request \<Rightarrow> action option \<Rightarrow> validity_reason list" where
  "validity_reasons now r act =
     (if ar_status r \<noteq> AR_APPROVED then [NOT_APPROVED] else []) @
     (case act of None \<Rightarrow> [] | Some a \<Rightarrow> if ar_action_id r \<noteq> a_id a then [ACTION_ID_MISMATCH] else []) @
     (case act of None \<Rightarrow> [] | Some a \<Rightarrow>
        if compute_action_hash a \<noteq> ar_action_hash r then [HASH_MISMATCH] else []) @
     (if ar_consumed r then [ALREADY_CONSUMED] else []) @
     (if is_expired now r then [EXPIRED] else [])"

definition check_approval_validity :: "datetime \<Rightarrow> approval_request \<Rightarrow> action option \<Rightarrow>
    approval_validity_result" where
  "check_approval_validity now r act = (let reasons = validity_reasons now r act in
     \<lparr>av_valid = (reasons = []), av_reason_codes = reasons,
      av_explanation = (if reasons = [] then ''valid''
        else ''invalid: '' @ py_join '', '' (map validity_reason_value reasons)),
      av_checked_at = now\<rparr>)"

definition validate_approval_for_action :: "datetime \<Rightarrow> approval_request \<Rightarrow> action \<Rightarrow> approval_validity_result" where
  "validate_approval_for_action now r a = check_approval_validity now r (Some a)"

text \<open>The two \<open>None\<close> cases are unreachable: those reasons are only recorded for an action.\<close>

fun error_for_validity_reason :: "datetime \<Rightarrow> approval_request \<Rightarrow> action option \<Rightarrow> validity_reason \<Rightarrow>
    approval_error" where
  "error_for_validity_reason now r act NOT_APPROVED = ApprovalNotApprovedError (ar_status r)"
| "error_for_validity_reason now r act ACTION_ID_MISMATCH =
     ApprovalActionIdMismatchError (ar_action_id r) (case act of Some a \<Rightarrow> a_id a | None \<Rightarrow> [])"
| "error_for_validity_reason now r act HASH_MISMATCH =
     ApprovalHashMismatchError (ar_action_hash r) (case act of Some a \<Rightarrow> compute_action_hash a | None \<Rightarrow> [])"
| "error_for_validity_reason now r act ALREADY_CONSUMED = ApprovalAlreadyConsumedError (ar_id r)"
| "error_for_validity_reason now r act EXPIRED = ApprovalExpiredError (ar_id r) (ar_expires_at r) now"

definition assert_approval_valid :: "datetime \<Rightarrow> approval_request \<Rightarrow> action option \<Rightarrow>
    approval_error + approval_validity_result" where
  "assert_approval_valid now r act = (let result = check_approval_validity now r act in
     if av_valid result then Inr result
     else case List.find (\<lambda>x. x \<in> set (av_reason_codes result)) validity_reason_priority of
         Some reason \<Rightarrow> Inl (error_for_validity_reason now r act reason)
       | None \<Rightarrow> Inl (ApprovalEngineError ''ApprovalRequest is invalid but no reason was recorded''))"

section \<open>Authorization, finalization, consumption\<close>

definition authorize_action :: "datetime \<Rightarrow> action \<Rightarrow> approval_request \<Rightarrow> approval_error + action" where
  "authorize_action now a r = (case assert_approval_valid now r (Some a) of
     Inl e \<Rightarrow> Inl e | Inr _ \<Rightarrow> move_action a AS_APPROVED)"

definition finalize_action_from_approval_outcome :: "action \<Rightarrow> approval_request \<Rightarrow> approval_error + action" where
  "finalize_action_from_approval_outcome a r = (case terminal_action_target (ar_status r) of
     None \<Rightarrow> Inl (ApprovalOutcomeNotFinalError (ar_status r))
   | Some target \<Rightarrow>
       if ar_action_id r \<noteq> a_id a then Inl (ApprovalActionIdMismatchError (ar_action_id r) (a_id a))
       else move_action a target)"

definition consume_approval :: "datetime \<Rightarrow> approval_request \<Rightarrow> action option \<Rightarrow>
    approval_error + approval_request" where
  "consume_approval now r act = (case assert_approval_valid now r act of
     Inl e \<Rightarrow> Inl e | Inr _ \<Rightarrow> Inr (r\<lparr>ar_consumed := True, ar_consumed_at := Some now\<rparr>))"

section \<open>The life of a request\<close>

text \<open>Everything the module does to an existing request, at any times and in any order.\<close>

inductive approval_step :: "datetime \<Rightarrow> approval_request \<Rightarrow> approval_request \<Rightarrow> bool" where
  decide: "decide_approval now r d who = Inr r' \<Longrightarrow> approval_step now r r'"
| expire: "expire_approval_request now r = Inr r' \<Longrightarrow> approval_step now r r'"
| consume: "consume_approval now r act = Inr r' \<Longrightarrow> approval_step now r r'"

inductive approval_life :: "approval_request \<Rightarrow> approval_request \<Rightarrow> bool" where
  life_refl: "approval_life r r"
| life_step: "approval_life r r' \<Longrightarrow> approval_step now r' r'' \<Longrightarrow> approval_life r r''"

inductive_cases approval_stepE: "approval_step now r r'"

section \<open>Lemmas\<close>

lemma validity_reasons_Nil_iff: "validity_reasons now r act = [] \<longleftrightarrow>
    ar_status r = AR_APPROVED \<and> \<not> ar_consumed r \<and> \<not> is_expired now r \<and>
    (case act of None \<Rightarrow> True | Some a \<Rightarrow> ar_action_id r = a_id a \<and> ar_action_hash r = compute_action_hash a)"
  by (auto simp: validity_reasons_def split: option.splits if_splits)

lemma av_valid_iff: "av_valid (check_approval_validity now r act) \<longleftrightarrow> validity_reasons now r act = []"
  by (simp add: check_approval_validity_def Let_def)

lemma assert_approval_valid_ok_iff: "is_ok (assert_approval_valid now r act) \<longleftrightarrow> validity_reasons now r act = []"
  by (simp add: assert_approval_valid_def Let_def av_valid_iff split: option.split)

lemma consume_approval_OkD: "consume_approval now r act = Inr r' \<Longrightarrow>
    validity_reasons now r act = [] \<and> r' = r\<lparr>ar_consumed := True, ar_consumed_at := Some now\<rparr>"
  using assert_approval_valid_ok_iff [of now r act]
  by (auto simp: consume_approval_def split: sum.splits)

lemma move_action_iff: "move_action a t = Inr a' \<longleftrightarrow>
    can_action_transition (a_status a) t \<and> a' = a\<lparr>a_status := t\<rparr>"
  by (auto simp: move_action_def action_machine.assert_eq)

lemma can_approve_iff: "can_action_transition s AS_APPROVED \<longleftrightarrow> s = AS_WAITING_FOR_APPROVAL"
  by (cases s) (simp_all add: state_machine)

lemma authorize_action_iff: "authorize_action now a r = Inr a' \<longleftrightarrow>
    validity_reasons now r (Some a) = [] \<and> a_status a = AS_WAITING_FOR_APPROVAL \<and> a' = a\<lparr>a_status := AS_APPROVED\<rparr>"
  using assert_approval_valid_ok_iff [of now r "Some a"]
  by (auto simp: authorize_action_def move_action_iff can_approve_iff split: sum.splits)

text \<open>The first failing check, in the order of the code, is the error raised.\<close>

lemma assert_approval_valid_error: "assert_approval_valid now r act = Inl e \<Longrightarrow>
    \<exists>reason. List.find (\<lambda>x. x \<in> set (validity_reasons now r act)) validity_reason_priority = Some reason \<and>
      e = error_for_validity_reason now r act reason"
proof -
  assume *: "assert_approval_valid now r act = Inl e"
  then have ne: "validity_reasons now r act \<noteq> []"
    using assert_approval_valid_ok_iff [of now r act] by auto
  have "x \<in> set validity_reason_priority" for x
    by (cases x) (simp_all add: validity_reason_priority_def)
  then have "List.find (\<lambda>x. x \<in> set (validity_reasons now r act)) validity_reason_priority \<noteq> None"
    using ne by (auto simp: find_None_iff' neq_Nil_conv)
  then show ?thesis using *
    by (auto simp: assert_approval_valid_def check_approval_validity_def Let_def split: if_splits option.splits)
qed

subsection \<open>Invariants of a request's life\<close>

definition request_inv :: "approval_request \<Rightarrow> bool" where
  "request_inv r = (
     (ar_status r = AR_PENDING \<longleftrightarrow> ar_decided_by r = None) \<and>
     (ar_status r = AR_PENDING \<longleftrightarrow> ar_decided_at r = None) \<and>
     (ar_status r = AR_APPROVED \<longrightarrow> ar_decided_by r \<noteq> Some (ar_requested_by r) \<and> ar_decided_by r \<noteq> Some []) \<and>
     (ar_consumed r \<longrightarrow> ar_status r = AR_APPROVED) \<and>
     (ar_consumed r \<longleftrightarrow> ar_consumed_at r \<noteq> None))"

text \<open>What never changes once a request exists.\<close>

definition same_binding :: "approval_request \<Rightarrow> approval_request \<Rightarrow> bool" where
  "same_binding r r' = (r' = r\<lparr>ar_status := ar_status r', ar_decided_at := ar_decided_at r',
     ar_decided_by := ar_decided_by r', ar_consumed := ar_consumed r', ar_consumed_at := ar_consumed_at r'\<rparr>)"

lemma decide_approval_OkD: "decide_approval now r d who = Inr r' \<Longrightarrow>
    \<exists>t. decision_target_status d = Some t \<and> who \<noteq> [] \<and> ar_status r = AR_PENDING \<and>
      (t = AR_APPROVED \<longrightarrow> who \<noteq> ar_requested_by r) \<and> t \<noteq> AR_PENDING \<and>
      r' = r\<lparr>ar_status := t, ar_decided_at := Some now, ar_decided_by := Some who\<rparr>"
  by (auto simp: decide_approval_def decision_target_status_def split: option.splits if_splits)

lemma expire_approval_request_OkD: "expire_approval_request now r = Inr r' \<Longrightarrow>
    ar_status r = AR_PENDING \<and> is_expired now r \<and>
    r' = r\<lparr>ar_status := AR_EXPIRED, ar_decided_at := Some now, ar_decided_by := Some ''system:expiration_policy''\<rparr>"
  by (auto simp: expire_approval_request_def is_expired_def split: option.splits if_splits)

lemma approval_step_cases:
  assumes "approval_step now r r'"
  shows "(ar_status r = AR_PENDING \<and> (\<exists>t who. t \<noteq> AR_PENDING \<and>
        (t = AR_APPROVED \<longrightarrow> who \<noteq> ar_requested_by r \<and> who \<noteq> []) \<and>
        r' = r\<lparr>ar_status := t, ar_decided_at := Some now, ar_decided_by := Some who\<rparr>)) \<or>
    (ar_status r = AR_APPROVED \<and> \<not> ar_consumed r \<and> \<not> is_expired now r \<and>
        r' = r\<lparr>ar_consumed := True, ar_consumed_at := Some now\<rparr>)"
  using assms
proof (cases rule: approval_step.cases)
  case (decide d who)
  from decide_approval_OkD [OF decide] show ?thesis by blast
next
  case expire
  from expire_approval_request_OkD [OF expire] show ?thesis by blast
next
  case (consume act)
  from consume_approval_OkD [OF consume] show ?thesis by (simp add: validity_reasons_Nil_iff)
qed

lemma approval_step_inv: "approval_step now r r' \<Longrightarrow> request_inv r \<Longrightarrow> request_inv r' \<and> same_binding r r'"
  by (auto dest!: approval_step_cases simp: request_inv_def same_binding_def)

lemma same_binding_trans: "same_binding r r' \<Longrightarrow> same_binding r' r'' \<Longrightarrow> same_binding r r''"
  by (cases r; cases r'; cases r'') (simp add: same_binding_def)

lemma approval_life_inv: "approval_life r r' \<Longrightarrow> request_inv r \<Longrightarrow> request_inv r' \<and> same_binding r r'"
proof (induction rule: approval_life.induct)
  case (life_refl r)
  then show ?case by (simp add: same_binding_def)
next
  case (life_step r r' now r'')
  then show ?case using approval_step_inv same_binding_trans by blast
qed

text \<open>Nothing ever happens to a consumed request.\<close>

lemma spent_life: "approval_life r s \<Longrightarrow> ar_consumed r \<and> ar_status r = AR_APPROVED \<Longrightarrow> s = r"
  by (induction rule: approval_life.induct) (auto dest: approval_step_cases)

lemma create_approval_request_OkD:
  assumes "create_approval_request i t1 t2 a d who reason ex = Inr r"
  shows "request_inv r \<and> ar_status r = AR_PENDING \<and> ar_action_id r = a_id a \<and> ar_action_hash r = compute_action_hash a \<and>
    ar_requested_by r = who \<and> pd_outcome d = REQUIRE_APPROVAL \<and> a_status a = AS_PERMISSION_CHECKED \<and>
    \<not> ar_consumed r \<and> ar_consumed_at r = None \<and> ar_id r = i \<and> ar_proposed_inputs r = a_inputs a \<and>
    ar_expires_at r = Some (case ex of Some t \<Rightarrow> t | None \<Rightarrow> t1 + default_approval_ttl)"
  using assms by (auto simp: create_approval_request_def request_inv_def split: if_splits)

subsection \<open>What the hash binds\<close>

text \<open>The material fields of two actions agree, inputs as they are dumped and up to the order of keys.\<close>

definition same_payload :: "action \<Rightarrow> action \<Rightarrow> bool" where
  "same_payload a b = (a_action_type a = a_action_type b \<and> a_tool_name a = a_tool_name b \<and>
     json_norm (json_mode (JObj (a_inputs a))) = json_norm (json_mode (JObj (a_inputs b))) \<and>
     a_expected_result a = a_expected_result b \<and> a_permission_level a = a_permission_level b \<and>
     a_risk_level a = a_risk_level b)"

definition sha_collision :: "string \<Rightarrow> string \<Rightarrow> bool" where
  "sha_collision x y = (x \<noteq> y \<and> sha256_hex x = sha256_hex y)"

lemma opt_str_inj: "opt_str x = opt_str y \<Longrightarrow> x = y"
  by (cases x; cases y) (simp_all add: opt_str_def)

lemma json_norm_opt_str [simp]: "json_norm (opt_str x) = opt_str x" "json_ok (opt_str x)"
  by (cases x; simp add: opt_str_def)+

lemma permission_level_value_inj: "permission_level_value p = permission_level_value q \<longleftrightarrow> p = q"
  by (cases p; cases q) simp_all

lemma risk_level_value_inj: "risk_level_value p = risk_level_value q \<longleftrightarrow> p = q"
  by (cases p; cases q) simp_all

lemma canonical_norm: "json_norm (canonical_action_payload a) = JObj [
     (''action_type'', JStr (a_action_type a)),
     (''expected_result'', JStr (a_expected_result a)),
     (''inputs'', json_norm (json_mode (JObj (a_inputs a)))),
     (''permission_level'', JStr (permission_level_value (a_permission_level a))),
     (''risk_level'', JStr (risk_level_value (a_risk_level a))),
     (''tool_name'', opt_str (a_tool_name a))]"
  by (simp add: canonical_action_payload_def del: json_mode.simps)

lemma canonical_norm_eq_iff:
  "json_norm (canonical_action_payload a) = json_norm (canonical_action_payload b) \<longleftrightarrow> same_payload a b"
  by (auto simp: canonical_norm same_payload_def permission_level_value_inj risk_level_value_inj
      simp del: json_norm.simps json_mode.simps dest: opt_str_inj)

lemma canonical_ok: "json_ok (JObj (a_inputs a)) \<Longrightarrow> json_ok (canonical_action_payload a)"
  using json_mode_ok [of "JObj (a_inputs a)"] by (simp add: canonical_action_payload_def del: json_mode.simps)

lemma same_payload_inputs:
  assumes "same_payload a b" "json_finite (JObj (a_inputs a))" "json_finite (JObj (a_inputs b))"
  shows "json_norm (JObj (a_inputs a)) = json_norm (JObj (a_inputs b))"
  using assms(1) json_mode_finite [OF assms(2)] json_mode_finite [OF assms(3)] by (simp add: same_payload_def del: json_norm.simps json_mode.simps)

lemma canonical_text_eq_iff:
  assumes "json_ok (JObj (a_inputs a))" "json_ok (JObj (a_inputs b))"
  shows "json_compact (canonical_action_payload a) = json_compact (canonical_action_payload b) \<longleftrightarrow> same_payload a b"
  using json_dumps_inj [OF _ canonical_ok [OF assms(1)] canonical_ok [OF assms(2)], of "[]" "'':''"]
    canonical_norm_eq_iff [of a b]
  by (metis json_compact_def json_dumps_print)

lemma action_hash_eq:
  assumes "json_ok (JObj (a_inputs a))" "json_ok (JObj (a_inputs b))"
  shows "compute_action_hash a = compute_action_hash b \<longleftrightarrow> same_payload a b \<or>
    sha_collision (json_compact (canonical_action_payload a)) (json_compact (canonical_action_payload b))"
  using canonical_text_eq_iff [OF assms] by (auto simp: compute_action_hash_def sha_collision_def)

section \<open>Properties\<close>

definition sample_send :: action where
  "sample_send = sample_action\<lparr>a_action_type := ''send'', a_tool_name := Some ''communication.send_email'',
     a_permission_level := EXTERNAL_ACTION, a_risk_level := HIGH, a_approval_required := True,
     a_status := AS_PERMISSION_CHECKED\<rparr>"

definition sample_request :: approval_request where
  "sample_request = (case create_approval_request ''r1'' 0 0 sample_send
     (evaluate_permission sample_send default_tools 0) ''ceo'' [] None of Inr r \<Rightarrow> r)"

definition sample_approved :: approval_request where
  "sample_approved = sample_request\<lparr>ar_status := AR_APPROVED, ar_decided_at := Some 1, ar_decided_by := Some ''owner''\<rparr>"

lemma sample_send_decision: "pd_outcome (evaluate_permission sample_send default_tools 0) = REQUIRE_APPROVAL"
  "pd_approval_required (evaluate_permission sample_send default_tools 0)"
  "pd_permission_level (evaluate_permission sample_send default_tools 0) = EXTERNAL_ACTION"
  "pd_risk_level (evaluate_permission sample_send default_tools 0) = HIGH"
  "pd_action_id (evaluate_permission sample_send default_tools 0) = ''a1''"
  by code_simp+

lemma sample_request_created: "create_approval_request ''r1'' 0 0 sample_send
    (evaluate_permission sample_send default_tools 0) ''ceo'' [] None = Inr sample_request"
proof -
  have "a_id sample_send = ''a1''" "a_status sample_send = AS_PERMISSION_CHECKED"
    "a_permission_level sample_send = EXTERNAL_ACTION" "a_risk_level sample_send = HIGH"
    by (simp_all add: sample_send_def sample_action_def)
  then show ?thesis unfolding sample_request_def
    by (simp add: create_approval_request_def sample_send_decision)
qed

lemma sample_request_facts: "ar_status sample_request = AR_PENDING" "ar_requested_by sample_request = ''ceo''"
  "ar_action_id sample_request = ''a1''" "ar_action_hash sample_request = compute_action_hash sample_send"
  "ar_id sample_request = ''r1''" "ar_proposed_inputs sample_request = []" "ar_consumed_at sample_request = None"
  "\<not> ar_consumed sample_request" "ar_expires_at sample_request = Some default_approval_ttl"
  using create_approval_request_OkD [OF sample_request_created]
  by (simp_all add: sample_send_def sample_action_def)

lemma sample_life: "approval_life sample_request sample_approved"
proof (rule life_step [OF life_refl decide])
  show "decide_approval 1 sample_request ''APPROVE'' ''owner'' = Inr sample_approved"
    by (simp add: decide_approval_def decision_target_status_def sample_request_facts sample_approved_def)
qed

lemma sample_valid: "status = AS_WAITING_FOR_APPROVAL \<Longrightarrow>
    validity_reasons 2 sample_approved (Some (sample_send\<lparr>a_status := status\<rparr>)) = []"
proof -
  have "compute_action_hash (sample_send\<lparr>a_status := status\<rparr>) = compute_action_hash sample_send"
    by (simp add: compute_action_hash_def canonical_action_payload_def)
  then show ?thesis
    by (simp add: validity_reasons_Nil_iff sample_approved_def sample_request_facts is_expired_def
        default_approval_ttl_def sample_send_def sample_action_def)
qed

text \<open>C11: authorization is exactly validity. An Action is moved to \<open>APPROVED\<close> if and only if it waits
  for approval and the request is approved, bound to this action's id and to the hash of its current
  payload, not consumed and not expired (a request is expired from the instant \<open>expires_at\<close> on);
  nothing but the status changes. When it refuses, the error is that of the first failing check.\<close>

theorem authorization_exact:
  "(authorize_action now a r = Inr a' \<longleftrightarrow>
      ar_status r = AR_APPROVED \<and> ar_action_id r = a_id a \<and> ar_action_hash r = compute_action_hash a \<and>
      \<not> ar_consumed r \<and> (\<forall>t. ar_expires_at r = Some t \<longrightarrow> now < t) \<and>
      a_status a = AS_WAITING_FOR_APPROVAL \<and> a' = a\<lparr>a_status := AS_APPROVED\<rparr>) \<and>
   (validity_reasons now r (Some a) \<noteq> [] \<longrightarrow>
      (\<exists>reason. List.find (\<lambda>x. x \<in> set (validity_reasons now r (Some a))) validity_reason_priority = Some reason \<and>
        authorize_action now a r = Inl (error_for_validity_reason now r (Some a) reason)))"
proof -
  have "is_expired now r \<longleftrightarrow> \<not> (\<forall>t. ar_expires_at r = Some t \<longrightarrow> now < t)"
    by (auto simp: is_expired_def split: option.split)
  then have "authorize_action now a r = Inr a' \<longleftrightarrow>
      ar_status r = AR_APPROVED \<and> ar_action_id r = a_id a \<and> ar_action_hash r = compute_action_hash a \<and>
      \<not> ar_consumed r \<and> (\<forall>t. ar_expires_at r = Some t \<longrightarrow> now < t) \<and>
      a_status a = AS_WAITING_FOR_APPROVAL \<and> a' = a\<lparr>a_status := AS_APPROVED\<rparr>"
    by (auto simp: authorize_action_iff validity_reasons_Nil_iff)
  moreover have "validity_reasons now r (Some a) \<noteq> [] \<Longrightarrow>
      \<exists>e. assert_approval_valid now r (Some a) = Inl e"
    using assert_approval_valid_ok_iff [of now r "Some a"] by (cases "assert_approval_valid now r (Some a)") auto
  ultimately show ?thesis
    using assert_approval_valid_error [of now r "Some a"] by (fastforce simp: authorize_action_def)
qed

theorem authorization_exact_witness:
  "authorize_action 2 (sample_send\<lparr>a_status := AS_WAITING_FOR_APPROVAL\<rparr>) sample_approved
     = Inr (sample_send\<lparr>a_status := AS_APPROVED\<rparr>)"
  using sample_valid [OF refl]
  by (intro authorization_exact [THEN conjunct1, THEN iffD2])
     (auto simp: validity_reasons_Nil_iff is_expired_def split: option.splits)

text \<open>C9: an approval binds the payload. If a request created for action \<open>a\<close>, after any life, is valid
  for an action \<open>b\<close>, then \<open>b\<close> has the same id and the same type, tool, expected result, permission level,
  risk level and dumped inputs (up to key order) as \<open>a\<close> had, or the two canonical texts are a SHA-256
  collision. Inputs without a NaN or an infinity are then the same inputs; those floats are all dumped as
  null, see \<open>nonfinite_inputs_share_hash\<close>.\<close>

theorem approval_binds_payload:
  assumes "create_approval_request i t1 t2 a d who reason ex = Inr r" and "approval_life r r'"
    and "av_valid (validate_approval_for_action now r' b)"
    and "json_ok (JObj (a_inputs a))" "json_ok (JObj (a_inputs b))"
  shows "a_id b = a_id a \<and>
    (same_payload b a \<and> (json_finite (JObj (a_inputs a)) \<longrightarrow> json_finite (JObj (a_inputs b)) \<longrightarrow>
        json_norm (JObj (a_inputs b)) = json_norm (JObj (a_inputs a))) \<or>
     sha_collision (json_compact (canonical_action_payload b)) (json_compact (canonical_action_payload a)))"
proof -
  note r = create_approval_request_OkD [OF assms(1)]
  then have "same_binding r r'" using approval_life_inv [OF assms(2)] by blast
  then have "ar_action_id r' = ar_action_id r" "ar_action_hash r' = ar_action_hash r"
    by (cases r; cases r'; simp add: same_binding_def)+
  then have "a_id b = a_id a" "compute_action_hash b = compute_action_hash a"
    using assms(3) r by (auto simp: validate_approval_for_action_def av_valid_iff validity_reasons_Nil_iff)
  then show ?thesis using action_hash_eq [OF assms(5,4)] same_payload_inputs [of b a] by blast
qed

theorem approval_binds_payload_witness:
  "same_payload (sample_send\<lparr>a_status := AS_WAITING_FOR_APPROVAL\<rparr>) sample_send \<or>
   sha_collision (json_compact (canonical_action_payload (sample_send\<lparr>a_status := AS_WAITING_FOR_APPROVAL\<rparr>)))
     (json_compact (canonical_action_payload sample_send))"
proof -
  have "av_valid (validate_approval_for_action 2 sample_approved (sample_send\<lparr>a_status := AS_WAITING_FOR_APPROVAL\<rparr>))"
    by (simp add: validate_approval_for_action_def av_valid_iff sample_valid)
  from approval_binds_payload [OF sample_request_created sample_life this]
  show ?thesis by (simp add: sample_send_def sample_action_def)
qed

text \<open>The dump loses the floats that are not finite: two actions that differ only in whether an input is NaN, an infinity or null
  have one hash, so what was approved for the one is valid for the other.\<close>

theorem nonfinite_inputs_share_hash:
  assumes "nonfinite_text r"
  shows "compute_action_hash (a\<lparr>a_inputs := (k, JFloat r) # kvs\<rparr>) = compute_action_hash (a\<lparr>a_inputs := (k, JNull) # kvs\<rparr>) \<and>
    json_norm (JObj [(k, JFloat r)]) \<noteq> json_norm (JObj [(k, JNull)])"
  using assms by (simp add: compute_action_hash_def canonical_action_payload_def)

theorem nonfinite_inputs_share_hash_witness:
  "compute_action_hash (sample_send\<lparr>a_inputs := [(''limit'', JFloat ''NaN'')]\<rparr>) =
   compute_action_hash (sample_send\<lparr>a_inputs := [(''limit'', JNull)]\<rparr>)"
  using nonfinite_inputs_share_hash [where a = sample_send and k = "''limit''" and r = "''NaN''" and kvs = "[]"] by (simp add: nonfinite_text_def)

text \<open>C10: one approval, one use, never by the requester. In any life of a created request: it
  authorizes or is consumed only if someone other than the requester approved it; once consumed it is
  never valid again, at any time and for any action, and consuming it again raises; its action,
  hash, requester and expiry never change.\<close>

theorem approval_single_use:
  assumes "create_approval_request i t1 t2 a d who reason ex = Inr r" and "approval_life r r'"
  shows "same_binding r r' \<and>
    (av_valid (check_approval_validity now r' act) \<longrightarrow>
       (\<exists>p. ar_decided_by r' = Some p \<and> p \<noteq> who \<and> p \<noteq> [])) \<and>
    (\<forall>r'' s. consume_approval now r' act = Inr r'' \<longrightarrow> approval_life r'' s \<longrightarrow>
       s = r'' \<and> \<not> av_valid (check_approval_validity now' s act') \<and> \<not> is_ok (consume_approval now' s act'))"
proof -
  note r = create_approval_request_OkD [OF assms(1)]
  have inv: "request_inv r'" "same_binding r r'" using approval_life_inv [OF assms(2)] r by blast+
  have who: "ar_requested_by r' = who"
    using inv(2) r by (cases r; cases r') (auto simp: same_binding_def)
  have dead: "s = r'' \<and> ar_consumed s" if "consume_approval now r' act = Inr r''" "approval_life r'' s" for r'' s
    using consume_approval_OkD [OF that(1)] spent_life [OF that(2)] by (auto simp: validity_reasons_Nil_iff)
  have "av_valid (check_approval_validity now r' act) \<Longrightarrow> \<exists>p. ar_decided_by r' = Some p \<and> p \<noteq> who \<and> p \<noteq> []"
    using inv(1) who by (auto simp: av_valid_iff validity_reasons_Nil_iff request_inv_def)
  moreover have "\<not> av_valid (check_approval_validity now' s act') \<and> \<not> is_ok (consume_approval now' s act')"
    if "ar_consumed s" for s
    using that by (auto simp: av_valid_iff validity_reasons_Nil_iff is_ok_iff dest: consume_approval_OkD)
  ultimately show ?thesis using inv(2) dead by blast
qed

theorem approval_single_use_witness:
  "\<exists>r''. consume_approval 2 sample_approved None = Inr r'' \<and> \<not> is_ok (consume_approval 3 r'' None)"
proof -
  have "validity_reasons 2 sample_approved None = []"
    using sample_valid [OF refl] by (simp add: validity_reasons_Nil_iff)
  then have "is_ok (consume_approval 2 sample_approved None)"
    using assert_approval_valid_ok_iff [of 2 sample_approved None]
    by (auto simp: consume_approval_def split: sum.splits)
  then obtain r'' where r'': "consume_approval 2 sample_approved None = Inr r''" by (auto simp: is_ok_iff)
  then show ?thesis
    using approval_single_use [OF sample_request_created sample_life, of 2 None 3 None] life_refl by blast
qed

end
