(* ===== verification/Plan_Reporting.thy ===== *)
theory Plan_Reporting
  imports Plan_Validation "HOL-Library.Product_Lexorder"
begin

text \<open>
  What the program says about the state of a plan:
  \<open>app/decision_intelligence/action_eligibility.py\<close> (may this Action run now?), \<open>plan_qa.py\<close>
  (the truthful classification of every Action) and \<open>executive_report.py\<close> (the overall verdict).
  A dict of actions is its lookup function; the dash U+2014 in a summary line is transcribed as a hyphen.
\<close>

section \<open>Eligibility\<close>

datatype action_eligibility = EL_READY | EL_ALREADY_COMPLETED | EL_WAITING_FOR_DEPENDENCIES
  | EL_WAITING_FOR_APPROVAL | EL_BLOCKED_BY_FAILED_DEPENDENCY | EL_BLOCKED_BY_REJECTED_DEPENDENCY
  | EL_RECONCILIATION_REQUIRED | EL_CURRENTLY_EXECUTING | EL_TERMINAL_FAILED | EL_CANCELLED
  | EL_SECURITY_BLOCKED

fun action_eligibility_value :: "action_eligibility \<Rightarrow> string" where
  "action_eligibility_value EL_READY = ''READY''"
| "action_eligibility_value EL_ALREADY_COMPLETED = ''ALREADY_COMPLETED''"
| "action_eligibility_value EL_WAITING_FOR_DEPENDENCIES = ''WAITING_FOR_DEPENDENCIES''"
| "action_eligibility_value EL_WAITING_FOR_APPROVAL = ''WAITING_FOR_APPROVAL''"
| "action_eligibility_value EL_BLOCKED_BY_FAILED_DEPENDENCY = ''BLOCKED_BY_FAILED_DEPENDENCY''"
| "action_eligibility_value EL_BLOCKED_BY_REJECTED_DEPENDENCY = ''BLOCKED_BY_REJECTED_DEPENDENCY''"
| "action_eligibility_value EL_RECONCILIATION_REQUIRED = ''RECONCILIATION_REQUIRED''"
| "action_eligibility_value EL_CURRENTLY_EXECUTING = ''CURRENTLY_EXECUTING''"
| "action_eligibility_value EL_TERMINAL_FAILED = ''TERMINAL_FAILED''"
| "action_eligibility_value EL_CANCELLED = ''CANCELLED''"
| "action_eligibility_value EL_SECURITY_BLOCKED = ''SECURITY_BLOCKED''"

definition in_progress_statuses :: "action_status list" where
  "in_progress_statuses = [AS_EXECUTING, AS_EXECUTION_SUCCEEDED, AS_VERIFYING, AS_VERIFIED]"

text \<open>The loop over the dependencies.\<close>

fun eligibility_of_deps :: "(string \<Rightarrow> action option) \<Rightarrow> string list \<Rightarrow> action_eligibility" where
  "eligibility_of_deps by_id [] = EL_READY"
| "eligibility_of_deps by_id (d # ds) = (case by_id d of
     None \<Rightarrow> EL_RECONCILIATION_REQUIRED
   | Some dep \<Rightarrow>
       if a_status dep = AS_REJECTED then EL_BLOCKED_BY_REJECTED_DEPENDENCY
       else if a_status dep \<in> {AS_FAILED, AS_CANCELLED, AS_BLOCKED} then EL_BLOCKED_BY_FAILED_DEPENDENCY
       else if a_status dep \<noteq> AS_COMPLETED then EL_WAITING_FOR_DEPENDENCIES
       else eligibility_of_deps by_id ds)"

definition evaluate_action_eligibility :: "action \<Rightarrow> (string \<Rightarrow> action option) \<Rightarrow> action_eligibility" where
  "evaluate_action_eligibility a by_id =
     (if a_status a = AS_COMPLETED then EL_ALREADY_COMPLETED
      else if a_status a = AS_FAILED then EL_TERMINAL_FAILED
      else if a_status a = AS_REJECTED then EL_TERMINAL_FAILED
      else if a_status a = AS_CANCELLED then EL_CANCELLED
      else if a_status a = AS_BLOCKED then EL_SECURITY_BLOCKED
      else if a_status a = AS_WAITING_FOR_APPROVAL then EL_WAITING_FOR_APPROVAL
      else if a_status a \<in> set in_progress_statuses then EL_CURRENTLY_EXECUTING
      else eligibility_of_deps by_id (a_dependencies a))"

section \<open>Plan QA\<close>

datatype plan_qa_status = QA_COMPLETED | QA_WAITING_FOR_APPROVAL | QA_BLOCKED_BY_DEPENDENCY | QA_FAILED
  | QA_SUPERSEDED | QA_NOT_EXECUTED | QA_HUMAN_REVIEW

fun plan_qa_status_value :: "plan_qa_status \<Rightarrow> string" where
  "plan_qa_status_value QA_COMPLETED = ''COMPLETED''"
| "plan_qa_status_value QA_WAITING_FOR_APPROVAL = ''WAITING_FOR_APPROVAL''"
| "plan_qa_status_value QA_BLOCKED_BY_DEPENDENCY = ''BLOCKED_BY_DEPENDENCY''"
| "plan_qa_status_value QA_FAILED = ''FAILED''"
| "plan_qa_status_value QA_SUPERSEDED = ''SUPERSEDED''"
| "plan_qa_status_value QA_NOT_EXECUTED = ''NOT_EXECUTED''"
| "plan_qa_status_value QA_HUMAN_REVIEW = ''HUMAN_REVIEW''"

record action_qa_entry =
  qe_action_id :: string
  qe_title :: string
  qe_action_type :: string
  qe_permission_level :: permission_level
  qe_status :: plan_qa_status
  qe_detail :: string

record plan_qa_report =
  qr_plan_id :: string
  qr_plan_revision :: int
  qr_generated_at :: datetime
  qr_entries :: "action_qa_entry list"
  qr_counts :: "(string \<times> nat) list"
  qr_fully_completed :: bool
  qr_external_action_executed :: bool
  qr_financial_action_executed :: bool

definition opt_str_or :: "string option \<Rightarrow> string \<Rightarrow> string" where
  "opt_str_or x y = str_or (empty_if_none x) y"

definition classify_action :: "action \<Rightarrow> (string \<Rightarrow> action option) \<Rightarrow> plan_qa_status \<times> string" where
  "classify_action a by_id = (case a_superseded_by a of
     Some s \<Rightarrow> (QA_SUPERSEDED, ''superseded by '' @ s)
   | None \<Rightarrow>
       if a_status a = AS_COMPLETED then (QA_COMPLETED, ''durably COMPLETED and verified'')
       else if a_status a = AS_WAITING_FOR_APPROVAL then (QA_WAITING_FOR_APPROVAL, ''awaiting human approval decision'')
       else if a_status a \<in> {AS_FAILED, AS_REJECTED}
         then (QA_FAILED, opt_str_or (a_error a) (''terminal status '' @ action_status_value (a_status a)))
       else if a_status a \<in> {AS_CANCELLED, AS_BLOCKED}
         then (QA_HUMAN_REVIEW,
           opt_str_or (a_error a) (''status '' @ action_status_value (a_status a) @ '' requires human review''))
       else let e = evaluate_action_eligibility a by_id in
         if e \<in> {EL_WAITING_FOR_DEPENDENCIES, EL_BLOCKED_BY_FAILED_DEPENDENCY, EL_BLOCKED_BY_REJECTED_DEPENDENCY}
           then (QA_BLOCKED_BY_DEPENDENCY, action_eligibility_value e)
         else if e = EL_RECONCILIATION_REQUIRED then (QA_HUMAN_REVIEW, ''reconciliation required'')
         else (QA_NOT_EXECUTED, ''status '' @ action_status_value (a_status a) @ '', eligibility '' @
           action_eligibility_value e))"

text \<open>\<open>dict(Counter(xs))\<close>: keys in the order of their first occurrence.\<close>

definition counter :: "'a list \<Rightarrow> ('a \<times> nat) list" where
  "counter xs = map (\<lambda>x. (x, count_list xs x)) (rev (remdups (rev xs)))"

definition qa_entry :: "action list \<Rightarrow> action \<Rightarrow> action_qa_entry" where
  "qa_entry as a = (let (status, detail) = classify_action a (actions_by_id as) in
     \<lparr>qe_action_id = a_id a, qe_title = a_title a, qe_action_type = a_action_type a,
      qe_permission_level = a_permission_level a, qe_status = status, qe_detail = detail\<rparr>)"

definition build_qa_report :: "datetime \<Rightarrow> action_plan \<Rightarrow> int \<Rightarrow> plan_qa_report" where
  "build_qa_report now plan revision = (let
     ordered = sort_key (\<lambda>a. (a_sequence a, a_id a)) (p_actions plan);
     entries = map (qa_entry (p_actions plan)) ordered;
     active = filter (\<lambda>e. qe_status e \<noteq> QA_SUPERSEDED) entries
   in \<lparr>qr_plan_id = p_id plan, qr_plan_revision = revision, qr_generated_at = now, qr_entries = entries,
      qr_counts = counter (map (plan_qa_status_value \<circ> qe_status) entries),
      qr_fully_completed = (active \<noteq> [] \<and> list_all (\<lambda>e. qe_status e = QA_COMPLETED) active),
      qr_external_action_executed = list_ex (\<lambda>e. qe_status e = QA_COMPLETED \<and>
        qe_permission_level e \<in> {EXTERNAL_ACTION, FINANCIAL_ACTION, ADMIN}) entries,
      qr_financial_action_executed = list_ex (\<lambda>e. qe_status e = QA_COMPLETED \<and>
        qe_permission_level e = FINANCIAL_ACTION) entries\<rparr>)"

section \<open>The executive report\<close>

datatype overall_status = OV_COMPLETED | OV_COMPLETED_WITH_REVIEW | OV_BLOCKED | OV_FAILED

fun overall_status_value :: "overall_status \<Rightarrow> string" where
  "overall_status_value OV_COMPLETED = ''COMPLETED''"
| "overall_status_value OV_COMPLETED_WITH_REVIEW = ''COMPLETED_WITH_REVIEW''"
| "overall_status_value OV_BLOCKED = ''BLOCKED''"
| "overall_status_value OV_FAILED = ''FAILED''"

record executive_report =
  xr_objective :: string
  xr_generated_at :: datetime
  xr_research_ready :: bool
  xr_decision_status :: string
  xr_decision_ready_for_action :: bool
  xr_plan_id :: string
  xr_plan_revision :: int
  xr_plan_ending_status :: string
  xr_qa :: plan_qa_report
  xr_unauthorized_external_side_effects :: int
  xr_real_p3_p4_p5_side_effects :: int
  xr_overall_status :: overall_status
  xr_summary_lines :: "string list"

definition compute_overall_status :: "plan_qa_report \<Rightarrow> overall_status" where
  "compute_overall_status qa =
     (if qr_fully_completed qa then OV_COMPLETED
      else let
        active = filter (\<lambda>e. qe_status e \<noteq> QA_SUPERSEDED) (qr_entries qa);
        any_completed = list_ex (\<lambda>e. qe_status e = QA_COMPLETED) active;
        any_pending = list_ex (\<lambda>e. qe_status e \<in>
          {QA_WAITING_FOR_APPROVAL, QA_BLOCKED_BY_DEPENDENCY, QA_HUMAN_REVIEW}) active;
        any_failed = list_ex (\<lambda>e. qe_status e = QA_FAILED) active
      in if any_completed \<and> any_pending \<and> \<not> any_failed then OV_COMPLETED_WITH_REVIEW
         else if any_failed \<and> any_completed then OV_COMPLETED_WITH_REVIEW
         else if any_failed then OV_FAILED
         else OV_BLOCKED)"

definition build_executive_report :: "datetime \<Rightarrow> string \<Rightarrow> bool \<Rightarrow> decision \<Rightarrow> string \<Rightarrow> int \<Rightarrow> string \<Rightarrow>
    plan_qa_report \<Rightarrow> int \<Rightarrow> int \<Rightarrow> executive_report" where
  "build_executive_report now objective research_ready d plan_id revision ending qa unauthorized real_effects =
     (let overall = compute_overall_status qa in
      \<lparr>xr_objective = objective, xr_generated_at = now, xr_research_ready = research_ready,
       xr_decision_status = decision_status_value (d_status d),
       xr_decision_ready_for_action = d_comparison_ready d, xr_plan_id = plan_id,
       xr_plan_revision = revision, xr_plan_ending_status = ending, xr_qa = qa,
       xr_unauthorized_external_side_effects = unauthorized,
       xr_real_p3_p4_p5_side_effects = real_effects, xr_overall_status = overall,
       xr_summary_lines =
         [''Objective: '' @ objective,
          ''Research: '' @ (if research_ready then ''READY'' else ''NOT READY''),
          ''Decision: '' @ decision_status_value (d_status d),
          ''Plan revision: '' @ int_str revision,
          ''Plan ending status: '' @ ending] @
         map (\<lambda>e. qe_title e @ '' ('' @ qe_action_type e @ ''): '' @ plan_qa_status_value (qe_status e) @
           '' - '' @ qe_detail e) (qr_entries qa) @
         [''Unauthorized external side effects: '' @ int_str unauthorized,
          ''Real P3/P4/P5 side effects: '' @ int_str real_effects,
          ''Overall: '' @ overall_status_value overall]\<rparr>)"

section \<open>Lemmas\<close>

lemma eligibility_of_deps_ready_iff: "eligibility_of_deps by_id ds = EL_READY \<longleftrightarrow>
    (\<forall>d \<in> set ds. \<exists>dep. by_id d = Some dep \<and> a_status dep = AS_COMPLETED)"
  by (induction ds) (auto split: option.splits)

lemma eligibility_of_deps_range: "eligibility_of_deps by_id ds \<in> {EL_READY, EL_RECONCILIATION_REQUIRED,
    EL_BLOCKED_BY_REJECTED_DEPENDENCY, EL_BLOCKED_BY_FAILED_DEPENDENCY, EL_WAITING_FOR_DEPENDENCIES}"
  by (induction ds) (auto split: option.splits)

definition dependency_gated :: "action_status \<Rightarrow> bool" where
  "dependency_gated s = (s \<in> {AS_PLANNED, AS_VALIDATED, AS_PERMISSION_CHECKED, AS_APPROVED, AS_VERIFICATION_FAILED})"

lemma eligibility_gated: "dependency_gated (a_status a) \<Longrightarrow>
    evaluate_action_eligibility a by_id = eligibility_of_deps by_id (a_dependencies a)"
  by (auto simp: dependency_gated_def evaluate_action_eligibility_def in_progress_statuses_def)

lemma eligibility_ungated: "\<not> dependency_gated (a_status a) \<Longrightarrow>
    evaluate_action_eligibility a by_id \<in> {EL_ALREADY_COMPLETED, EL_TERMINAL_FAILED, EL_CANCELLED,
      EL_SECURITY_BLOCKED, EL_WAITING_FOR_APPROVAL, EL_CURRENTLY_EXECUTING}"
  by (cases "a_status a") (simp_all add: dependency_gated_def evaluate_action_eligibility_def in_progress_statuses_def)

lemma eligibility_completed_iff: "evaluate_action_eligibility a by_id = EL_ALREADY_COMPLETED \<longleftrightarrow>
    a_status a = AS_COMPLETED"
  using eligibility_of_deps_range [of by_id "a_dependencies a"]
  by (auto simp: evaluate_action_eligibility_def)

lemma qa_entry_completed_iff: "qe_status (qa_entry as a) = QA_COMPLETED \<longleftrightarrow>
    a_superseded_by a = None \<and> a_status a = AS_COMPLETED"
  by (auto simp: qa_entry_def classify_action_def Let_def case_prod_beta split: option.splits)

lemma qa_entry_superseded_iff: "qe_status (qa_entry as a) = QA_SUPERSEDED \<longleftrightarrow> a_superseded_by a \<noteq> None"
  by (auto simp: qa_entry_def classify_action_def Let_def case_prod_beta split: option.splits)

lemma qa_entry_id: "qe_action_id (qa_entry as a) = a_id a"
  by (simp add: qa_entry_def case_prod_beta)

lemma qa_entry_waiting: "a_superseded_by a = None \<Longrightarrow> a_status a = AS_WAITING_FOR_APPROVAL \<Longrightarrow>
    qe_status (qa_entry as a) = QA_WAITING_FOR_APPROVAL"
  by (simp add: qa_entry_def classify_action_def)

lemma fully_completed_iff: "qr_fully_completed (build_qa_report now plan rv) \<longleftrightarrow>
    (\<exists>a \<in> set (p_actions plan). a_superseded_by a = None) \<and>
    (\<forall>a \<in> set (p_actions plan). a_superseded_by a = None \<longrightarrow> a_status a = AS_COMPLETED)"
  by (auto simp: build_qa_report_def Let_def filter_empty_conv list_all_iff qa_entry_completed_iff
      qa_entry_superseded_iff)

lemma overall_completed_iff: "compute_overall_status qa = OV_COMPLETED \<longleftrightarrow> qr_fully_completed qa"
  by (simp add: compute_overall_status_def Let_def)

lemma depends_on_finite: "finite (depends_on as)"
proof -
  have "depends_on as \<subseteq> a_id ` set as \<times> a_id ` set as"
    by (auto simp: depends_on_def dest: actions_by_id_SomeD)
  then show ?thesis by (rule finite_subset) simp
qed

section \<open>Properties\<close>

text \<open>C18: no false completion. For every plan, the executive report says \<open>COMPLETED\<close> if and only if
  there is an action that was not superseded and every such action is durably \<open>COMPLETED\<close>; and a
  non-superseded action waiting for approval is always listed as waiting.\<close>

theorem no_false_completion:
  "(xr_overall_status (build_executive_report now obj rr d pid rv ending (build_qa_report t plan rv) u p)
      = OV_COMPLETED \<longleftrightarrow>
     (\<exists>a. a \<in> set (p_actions plan) \<and> a_superseded_by a = None) \<and>
     (\<forall>a. a \<in> set (p_actions plan) \<and> a_superseded_by a = None \<longrightarrow> a_status a = AS_COMPLETED)) \<and>
   (\<forall>a. a \<in> set (p_actions plan) \<and> a_superseded_by a = None \<and> a_status a = AS_WAITING_FOR_APPROVAL \<longrightarrow>
      (\<exists>e. e \<in> set (qr_entries (build_qa_report t plan rv)) \<and> qe_action_id e = a_id a \<and>
         qe_status e = QA_WAITING_FOR_APPROVAL))"
proof -
  have "\<exists>e. e \<in> set (qr_entries (build_qa_report t plan rv)) \<and> qe_action_id e = a_id a \<and>
      qe_status e = QA_WAITING_FOR_APPROVAL"
    if "a \<in> set (p_actions plan)" "a_superseded_by a = None" "a_status a = AS_WAITING_FOR_APPROVAL" for a
    using that qa_entry_waiting [OF that(2,3), of "p_actions plan"]
    by (intro exI [of _ "qa_entry (p_actions plan) a"]) (simp add: build_qa_report_def Let_def qa_entry_id)
  then show ?thesis
    by (auto simp: build_executive_report_def Let_def overall_completed_iff fully_completed_iff)
qed

definition sample_plan_action :: action where
  "sample_plan_action = \<lparr>a_id = ''a1'', a_action_plan_id = ''p1'', a_sequence = 0, a_action_type = ''internal'',
     a_title = ''t'', a_description = [], a_agent_type = ''ceo'', a_tool_name = None, a_inputs = [],
     a_risk_level = LOW, a_permission_level = READ, a_approval_required = False, a_approval_id = None,
     a_estimated_cost = None, a_dependencies = [], a_expected_result = ''r'', a_success_criteria = ''s'',
     a_verification_method = ''m'', a_status = AS_PLANNED, a_started_at = None, a_completed_at = None,
     a_result = None, a_error = None, a_retry_count = 0, a_max_retries = 3, a_superseded_by = None\<rparr>"

definition sample_plan :: "action list \<Rightarrow> action_plan" where
  "sample_plan as = \<lparr>p_id = ''p1'', p_decision_id = ''d1'', p_project_id = None, p_title = ''t'',
     p_description = [], p_actions = as, p_estimated_cost = None, p_estimated_model_calls = None,
     p_success_criteria = [], p_failure_policy = [], p_status = PS_DRAFT, p_created_by = ''ceo'',
     p_created_at = 0, p_revision = 1\<rparr>"

theorem no_false_completion_witness:
  "qr_fully_completed (build_qa_report 0 (sample_plan [sample_plan_action]) 1) = False \<and>
   xr_overall_status (build_executive_report 0 [] True undefined ''p1'' 1 ''READY''
     (build_qa_report 0 (sample_plan [sample_plan_action]) 1) 0 0) \<noteq> OV_COMPLETED"
  using no_false_completion [of 0 "[]" True undefined "''p1''" 1 "''READY''" 0 "sample_plan [sample_plan_action]" 0 0]
  by (auto simp: fully_completed_iff sample_plan_def sample_plan_action_def)

text \<open>An action may run only on completed prerequisites. It is eligible if and only if its status
  is one the dependencies gate and every dependency is a known action that is durably \<open>COMPLETED\<close>. The
  gated statuses are \<open>PLANNED\<close>, \<open>VALIDATED\<close>, \<open>PERMISSION_CHECKED\<close>, \<open>APPROVED\<close> and also
  \<open>VERIFICATION_FAILED\<close>, which the comment in the code does not list.\<close>

theorem eligible_iff:
  "evaluate_action_eligibility a by_id = EL_READY \<longleftrightarrow>
     a_status a \<in> {AS_PLANNED, AS_VALIDATED, AS_PERMISSION_CHECKED, AS_APPROVED, AS_VERIFICATION_FAILED} \<and>
     list_all (\<lambda>d. case by_id d of None \<Rightarrow> False | Some dep \<Rightarrow> a_status dep = AS_COMPLETED) (a_dependencies a)"
proof (cases "dependency_gated (a_status a)")
  case True
  then show ?thesis
    by (auto simp: eligibility_gated eligibility_of_deps_ready_iff list_all_iff dependency_gated_def split: option.splits)
next
  case False
  then show ?thesis using eligibility_ungated [OF False, of by_id] by (auto simp: dependency_gated_def)
qed

text \<open>A well-structured plan never deadlocks. Unless every action is completed, some action is ready,
  executing, waiting for approval, or itself failed, cancelled or blocked: waiting on dependencies
  is never the only reason nothing can move.\<close>

theorem well_structured_plan_progress:
  assumes "well_structured as" and "a \<in> set as" and "a_status a \<noteq> AS_COMPLETED"
  shows "\<exists>b. b \<in> set as \<and> evaluate_action_eligibility b (actions_by_id as) \<in>
    {EL_READY, EL_CURRENTLY_EXECUTING, EL_WAITING_FOR_APPROVAL, EL_TERMINAL_FAILED, EL_CANCELLED, EL_SECURITY_BLOCKED}"
proof -
  let ?open = "{a_id b | b. b \<in> set as \<and> a_status b \<noteq> AS_COMPLETED}"
  have "wf ((depends_on as)\<inverse>)"
    using assms(1) depends_on_finite by (simp add: well_structured_def finite_acyclic_wf_converse)
  moreover have "a_id a \<in> ?open" using assms by blast
  ultimately obtain i where i: "i \<in> ?open" and least: "\<And>j. (j, i) \<in> (depends_on as)\<inverse> \<Longrightarrow> j \<notin> ?open"
    by (rule wfE_min) blast
  then obtain b where b: "b \<in> set as" "a_status b \<noteq> AS_COMPLETED" "i = a_id b" by blast
  have dist: "distinct (map a_id as)" using assms(1) by (simp add: well_structured_def)
  have deps: "\<exists>dep. actions_by_id as d = Some dep \<and> a_status dep = AS_COMPLETED" if "d \<in> set (a_dependencies b)" for d
  proof -
    have "d \<in> a_id ` set as" "d \<noteq> a_id b"
      using assms(1) b(1) that unfolding well_structured_def by blast+
    then obtain dep where dep: "dep \<in> set as" "a_id dep = d" by blast
    have "(a_id b, d) \<in> depends_on as"
      using that dep \<open>d \<noteq> a_id b\<close> actions_by_id_mem [OF dist b(1)] by (auto simp: depends_on_def)
    then have "a_status dep = AS_COMPLETED" using least [of d] b dep by blast
    then show ?thesis using actions_by_id_mem [OF dist dep(1)] dep by auto
  qed
  have "evaluate_action_eligibility b (actions_by_id as) \<in> {EL_READY, EL_CURRENTLY_EXECUTING,
      EL_WAITING_FOR_APPROVAL, EL_TERMINAL_FAILED, EL_CANCELLED, EL_SECURITY_BLOCKED}"
  proof (cases "dependency_gated (a_status b)")
    case True
    then show ?thesis using deps by (simp add: eligibility_gated eligibility_of_deps_ready_iff)
  next
    case False
    then show ?thesis using eligibility_ungated [OF False] b(2) eligibility_completed_iff by blast
  qed
  with b(1) show ?thesis by blast
qed

theorem well_structured_plan_progress_witness:
  "\<exists>b. b \<in> set [sample_plan_action] \<and> evaluate_action_eligibility b (actions_by_id [sample_plan_action]) \<in>
    {EL_READY, EL_CURRENTLY_EXECUTING, EL_WAITING_FOR_APPROVAL, EL_TERMINAL_FAILED, EL_CANCELLED, EL_SECURITY_BLOCKED}"
proof (rule well_structured_plan_progress [where a = sample_plan_action])
  have "depends_on [sample_plan_action] = {}"
    by (auto simp: depends_on_def actions_by_id_def sample_plan_action_def split: if_splits)
  then show "well_structured [sample_plan_action]"
    by (simp add: well_structured_def sample_plan_action_def acyclic_def)
qed (simp_all add: sample_plan_action_def)

end
