(* ===== verification/Persistence.thy ===== *)
theory Persistence
  imports Approval_Engine Json_Parser Plan_Validation
begin

text \<open>
  The bridges between domain objects and database rows:
  \<open>app/decision_intelligence/execution_persistence.py\<close>, \<open>approval_persistence.py\<close> and
  \<open>action_plan_persistence.py\<close>, with the columns of \<open>app/database/models.py\<close> they use. A row is a
  record; JSON columns hold the text. The audit columns \<open>created_at\<close> and \<open>updated_at\<close> that no code
  reads are left out, and a column given no value has its declared default. Loading a row can fail
  (\<open>load_error\<close>): a document that is not JSON, or JSON of a shape pydantic rejects.
\<close>

section \<open>Bounded serialization\<close>

definition max_text_field_chars :: nat where
  "max_text_field_chars = 4000"

definition truncation_marker :: string where
  "truncation_marker = ''...[truncated]''"

definition max_inputs_json_chars :: nat where
  "max_inputs_json_chars = 200000"

datatype persistence_error = PayloadTooLargeForPersistenceError nat

definition bounded_text :: "nat \<Rightarrow> string option \<Rightarrow> string option" where
  "bounded_text max_chars value = (case value of
     None \<Rightarrow> None
   | Some s \<Rightarrow>
       if length s \<le> max_chars then Some s
       else Some (take (max_chars - length truncation_marker) s @ truncation_marker))"

definition bounded_json :: "nat \<Rightarrow> json option \<Rightarrow> string option" where
  "bounded_json max_chars value = (case value of
     None \<Rightarrow> None
   | Some v \<Rightarrow>
       let dumped = json_default v in
       if length dumped \<le> max_chars then Some dumped
       else Some (json_print '', '' '': '' (JObj [(''_truncated'', JBool True),
         (''_original_chars'', JInt (int (length dumped)))])))"

definition safe_inputs_json :: "(string \<times> json) list \<Rightarrow> persistence_error + string" where
  "safe_inputs_json inputs = (let dumped = json_default (JObj inputs) in
     if max_inputs_json_chars < length dumped then Inl (PayloadTooLargeForPersistenceError (length dumped))
     else Inr dumped)"

section \<open>Idempotency key and side-effect fingerprint\<close>

definition idempotency_text :: "string \<Rightarrow> string \<Rightarrow> int \<Rightarrow> string" where
  "idempotency_text action_id action_hash attempt_number = action_id @ '':'' @ action_hash @
     (if attempt_number \<noteq> 0 then '':'' @ int_str attempt_number else [])"

definition compute_idempotency_key :: "string \<Rightarrow> string \<Rightarrow> int \<Rightarrow> string" where
  "compute_idempotency_key action_id action_hash attempt_number =
     sha256_hex (idempotency_text action_id action_hash attempt_number)"

definition compute_side_effect_fingerprint :: "string \<Rightarrow> string \<Rightarrow> string \<Rightarrow> int \<Rightarrow> string" where
  "compute_side_effect_fingerprint tool_name relative_path content_hash expected_bytes =
     sha256_hex (tool_name @ [CHR 0x0A] @ relative_path @ [CHR 0x0A] @ content_hash @ [CHR 0x0A] @
       int_str expected_bytes)"

section \<open>Rows\<close>

datatype attempt_status = AT_CREATED | AT_STARTED | AT_SIDE_EFFECT_REPORTED | AT_EXECUTION_SUCCEEDED
  | AT_EXECUTION_FAILED | AT_VERIFYING | AT_VERIFIED | AT_VERIFICATION_FAILED | AT_INTERRUPTED
  | AT_RECONCILIATION_REQUIRED | AT_RECONCILED | AT_BLOCKED

datatype result_provenance = ORIGINAL | RECONSTRUCTED

record action_row =
  ro_id :: string
  ro_action_plan_id :: string
  ro_sequence :: int
  ro_action_type :: string
  ro_title :: string
  ro_description :: "string option"
  ro_agent_type :: string
  ro_tool_name :: "string option"
  ro_inputs_json :: "string option"
  ro_action_hash :: string
  ro_risk_level :: risk_level
  ro_permission_level :: permission_level
  ro_approval_required :: bool
  ro_approval_id :: "string option"
  ro_estimated_cost :: "py_float option"
  ro_dependencies_json :: "string option"
  ro_expected_result :: "string option"
  ro_success_criteria :: "string option"
  ro_verification_method :: "string option"
  ro_status :: action_status
  ro_retry_count :: int
  ro_max_retries :: int
  ro_version :: int
  ro_started_at :: "datetime option"
  ro_completed_at :: "datetime option"
  ro_last_error :: "string option"
  ro_superseded_by_action_id :: "string option"

record result_row =
  rr_attempt_id :: string
  rr_action_id :: string
  rr_tool_name :: "string option"
  rr_success :: bool
  rr_provider_status :: "string option"
  rr_structured_output_json :: "string option"
  rr_output_hash :: "string option"
  rr_side_effect_occurred :: bool
  rr_side_effects_json :: "string option"
  rr_cost :: "py_float option"
  rr_error_type :: "string option"
  rr_error_code :: "string option"
  rr_error_message :: "string option"
  rr_adapter_version :: "string option"
  rr_provenance :: result_provenance
  rr_started_at :: datetime
  rr_completed_at :: datetime

record verification_row =
  rv_attempt_id :: string
  rv_action_id :: string
  rv_method :: string
  rv_expected :: "string option"
  rv_observed :: "string option"
  rv_passed :: bool
  rv_confidence :: py_float
  rv_issues_json :: "string option"
  rv_provenance :: result_provenance
  rv_verified_at :: datetime

record approval_row =
  rq_id :: string
  rq_action_id :: string
  rq_status :: approval_status
  rq_requested_by :: string
  rq_reason :: "string option"
  rq_action_summary :: "string option"
  rq_risk_summary :: "string option"
  rq_permission_level :: permission_level
  rq_estimated_cost :: "py_float option"
  rq_proposed_inputs :: "string option"
  rq_expected_effect :: "string option"
  rq_action_hash :: string
  rq_requested_at :: datetime
  rq_decided_at :: "datetime option"
  rq_decided_by :: "string option"
  rq_expires_at :: "datetime option"
  rq_consumed :: bool
  rq_consumed_at :: "datetime option"

record plan_row =
  pw_id :: string
  pw_decision_id :: string
  pw_project_id :: "string option"
  pw_title :: string
  pw_description :: "string option"
  pw_failure_policy :: string
  pw_estimated_cost :: "py_float option"
  pw_estimated_model_calls :: "int option"
  pw_success_criteria :: "string option"
  pw_status :: plan_status
  pw_created_by :: string
  pw_plan_hash :: "string option"
  pw_version :: int
  pw_revision :: int
  pw_created_at :: datetime
  pw_started_at :: "datetime option"
  pw_completed_at :: "datetime option"
  pw_last_error :: "string option"
  pw_pause_reason :: "string option"
  pw_reconciliation_required :: bool
  pw_orchestration_owner :: "string option"
  pw_orchestration_claimed_at :: "datetime option"
  pw_orchestration_lease_expires_at :: "datetime option"

section \<open>Actions\<close>

datatype load_error = NotJson string | WrongShape string | NotEnumMember string

definition dependencies_json :: "string list \<Rightarrow> json" where
  "dependencies_json ds = JArr (map JStr ds)"

definition action_to_record_fields :: "action \<Rightarrow> persistence_error + action_row" where
  "action_to_record_fields a = (case safe_inputs_json (a_inputs a) of
     Inl e \<Rightarrow> Inl e
   | Inr inputs \<Rightarrow> Inr \<lparr>ro_id = a_id a, ro_action_plan_id = a_action_plan_id a, ro_sequence = a_sequence a,
       ro_action_type = a_action_type a, ro_title = a_title a,
       ro_description = none_if_empty (a_description a), ro_agent_type = a_agent_type a,
       ro_tool_name = a_tool_name a, ro_inputs_json = Some inputs, ro_action_hash = compute_action_hash a,
       ro_risk_level = a_risk_level a, ro_permission_level = a_permission_level a,
       ro_approval_required = a_approval_required a, ro_approval_id = a_approval_id a,
       ro_estimated_cost = a_estimated_cost a,
       ro_dependencies_json = bounded_json max_text_field_chars (Some (dependencies_json (a_dependencies a))),
       ro_expected_result = bounded_text max_text_field_chars (Some (a_expected_result a)),
       ro_success_criteria = bounded_text max_text_field_chars (Some (a_success_criteria a)),
       ro_verification_method = bounded_text max_text_field_chars (Some (a_verification_method a)),
       ro_status = a_status a, ro_retry_count = a_retry_count a, ro_max_retries = a_max_retries a,
       ro_version = 1, ro_started_at = a_started_at a, ro_completed_at = a_completed_at a,
       ro_last_error = bounded_text max_text_field_chars (a_error a),
       ro_superseded_by_action_id = a_superseded_by a\<rparr>)"

text \<open>\<open>json.loads(col) if col else default\<close>.\<close>

definition load_json :: "string option \<Rightarrow> json \<Rightarrow> load_error + json" where
  "load_json col dflt = (case col of
     None \<Rightarrow> Inr dflt
   | Some s \<Rightarrow> if s = [] then Inr dflt
       else (case json_loads s of None \<Rightarrow> Inl (NotJson s) | Some v \<Rightarrow> Inr v))"

text \<open>What pydantic accepts for \<open>dict\<close> and for \<open>list[str]\<close>.\<close>

definition as_dict :: "json \<Rightarrow> load_error + (string \<times> json) list" where
  "as_dict v = (case v of JObj kvs \<Rightarrow> Inr kvs | _ \<Rightarrow> Inl (WrongShape ''dict''))"

fun as_str_list :: "json list \<Rightarrow> load_error + string list" where
  "as_str_list [] = Inr []"
| "as_str_list (v # vs) = (case v of
     JStr s \<Rightarrow> (case as_str_list vs of Inl e \<Rightarrow> Inl e | Inr ss \<Rightarrow> Inr (s # ss))
   | _ \<Rightarrow> Inl (WrongShape ''str''))"

definition as_strs :: "json \<Rightarrow> load_error + string list" where
  "as_strs v = (case v of JArr vs \<Rightarrow> as_str_list vs | _ \<Rightarrow> Inl (WrongShape ''list''))"

definition record_to_action :: "action_row \<Rightarrow> load_error + action" where
  "record_to_action r =
     bind_sum (bind_sum (load_json (ro_inputs_json r) (JObj [])) as_dict) (\<lambda>inputs.
     bind_sum (bind_sum (load_json (ro_dependencies_json r) (JArr [])) as_strs) (\<lambda>deps.
       Inr \<lparr>a_id = ro_id r, a_action_plan_id = ro_action_plan_id r, a_sequence = ro_sequence r,
         a_action_type = ro_action_type r, a_title = ro_title r,
         a_description = empty_if_none (ro_description r), a_agent_type = ro_agent_type r,
         a_tool_name = ro_tool_name r, a_inputs = inputs, a_risk_level = ro_risk_level r,
         a_permission_level = ro_permission_level r, a_approval_required = ro_approval_required r,
         a_approval_id = ro_approval_id r, a_estimated_cost = ro_estimated_cost r, a_dependencies = deps,
         a_expected_result = empty_if_none (ro_expected_result r),
         a_success_criteria = empty_if_none (ro_success_criteria r),
         a_verification_method = empty_if_none (ro_verification_method r),
         a_status = ro_status r, a_started_at = ro_started_at r, a_completed_at = ro_completed_at r,
         a_result = None, a_error = ro_last_error r, a_retry_count = ro_retry_count r,
         a_max_retries = ro_max_retries r, a_superseded_by = ro_superseded_by_action_id r\<rparr>))"

section \<open>Execution and verification results\<close>

definition failure_category_of :: "string \<Rightarrow> failure_category option" where
  "failure_category_of s = List.find (\<lambda>c. failure_category_value c = s)
     [FC_TRANSIENT, FC_VALIDATION, FC_PERMISSION, FC_APPROVAL, FC_TOOL, FC_VERIFICATION, FC_BUDGET,
      FC_SECURITY, FC_UNKNOWN]"

definition execution_result_to_record_fields :: "string \<Rightarrow> execution_result \<Rightarrow> result_provenance \<Rightarrow> result_row" where
  "execution_result_to_record_fields attempt_id r prov = (let
     output_json = bounded_json max_text_field_chars (map_option JObj (er_output r))
   in \<lparr>rr_attempt_id = attempt_id, rr_action_id = er_action_id r, rr_tool_name = er_tool_name r,
      rr_success = er_success r, rr_provider_status = er_provider_status r,
      rr_structured_output_json = output_json, rr_output_hash = map_option sha256_hex output_json,
      rr_side_effect_occurred = er_side_effect_occurred r,
      rr_side_effects_json = bounded_json max_text_field_chars (Some (dependencies_json (er_side_effects r))),
      rr_cost = er_cost r, rr_error_type = map_option failure_category_value (er_error_type r),
      rr_error_code = er_error_code r, rr_error_message = bounded_text max_text_field_chars (er_error_message r),
      rr_adapter_version = er_adapter_version r, rr_provenance = prov,
      rr_started_at = er_started_at r, rr_completed_at = er_completed_at r\<rparr>)"

text \<open>\<open>dict | None\<close>: JSON null is \<open>None\<close>.\<close>

definition as_opt_dict :: "json \<Rightarrow> load_error + (string \<times> json) list option" where
  "as_opt_dict v = (case v of JNull \<Rightarrow> Inr None | _ \<Rightarrow> map_sum id Some (as_dict v))"

definition load_failure_category :: "string option \<Rightarrow> load_error + failure_category option" where
  "load_failure_category col = (case col of
     None \<Rightarrow> Inr None
   | Some s \<Rightarrow> if s = [] then Inr None
       else (case failure_category_of s of None \<Rightarrow> Inl (NotEnumMember s) | Some c \<Rightarrow> Inr (Some c)))"

definition record_to_execution_result :: "result_row \<Rightarrow> load_error + execution_result" where
  "record_to_execution_result r =
     bind_sum (bind_sum (load_json (rr_structured_output_json r) JNull) as_opt_dict) (\<lambda>output.
     bind_sum (bind_sum (load_json (rr_side_effects_json r) (JArr [])) as_strs) (\<lambda>effects.
     bind_sum (load_failure_category (rr_error_type r)) (\<lambda>et.
       Inr \<lparr>er_action_id = rr_action_id r, er_tool_name = rr_tool_name r, er_started_at = rr_started_at r,
         er_completed_at = rr_completed_at r, er_success = rr_success r,
         er_provider_status = rr_provider_status r, er_output = output, er_side_effects = effects,
         er_cost = rr_cost r, er_error_type = et, er_error_message = rr_error_message r,
         er_execution_attempt_id = Some (rr_attempt_id r), er_error_code = rr_error_code r,
         er_side_effect_occurred = rr_side_effect_occurred r, er_adapter_version = rr_adapter_version r\<rparr>)))"

definition verification_result_to_record_fields :: "string \<Rightarrow> verification_result \<Rightarrow> result_provenance \<Rightarrow>
    verification_row" where
  "verification_result_to_record_fields attempt_id v prov =
     \<lparr>rv_attempt_id = attempt_id, rv_action_id = vr_action_id v, rv_method = vr_method v,
      rv_expected = bounded_text max_text_field_chars (vr_expected v),
      rv_observed = bounded_text max_text_field_chars (vr_observed v), rv_passed = vr_passed v,
      rv_confidence = vr_confidence v,
      rv_issues_json = bounded_json max_text_field_chars (Some (dependencies_json (vr_issues v))),
      rv_provenance = prov, rv_verified_at = vr_verified_at v\<rparr>"

definition record_to_verification_result :: "verification_row \<Rightarrow> load_error + verification_result" where
  "record_to_verification_result r =
     bind_sum (bind_sum (load_json (rv_issues_json r) (JArr [])) as_strs) (\<lambda>issues.
       Inr \<lparr>vr_action_id = rv_action_id r, vr_method = rv_method r, vr_expected = rv_expected r,
         vr_observed = rv_observed r, vr_passed = rv_passed r, vr_confidence = rv_confidence r,
         vr_issues = issues, vr_verified_at = rv_verified_at r\<rparr>)"

section \<open>Approval requests\<close>

definition approval_row_to_domain :: "approval_row \<Rightarrow> load_error + approval_request" where
  "approval_row_to_domain r =
     bind_sum (bind_sum (load_json (rq_proposed_inputs r) (JObj [])) as_dict) (\<lambda>inputs.
       Inr \<lparr>ar_id = rq_id r, ar_action_id = rq_action_id r, ar_requested_by = rq_requested_by r,
         ar_reason = empty_if_none (rq_reason r), ar_action_summary = empty_if_none (rq_action_summary r),
         ar_risk_summary = empty_if_none (rq_risk_summary r), ar_permission_level = rq_permission_level r,
         ar_estimated_cost = rq_estimated_cost r, ar_proposed_inputs = inputs,
         ar_expected_effect = empty_if_none (rq_expected_effect r), ar_action_hash = rq_action_hash r,
         ar_status = rq_status r, ar_requested_at = rq_requested_at r, ar_decided_at = rq_decided_at r,
         ar_decided_by = rq_decided_by r, ar_expires_at = rq_expires_at r, ar_consumed = rq_consumed r,
         ar_consumed_at = rq_consumed_at r\<rparr>)"

text \<open>The row \<open>persist_new_approval_request\<close> creates; here \<open>json.dumps\<close> keeps the order of keys.\<close>

definition new_approval_row :: "approval_request \<Rightarrow> approval_row" where
  "new_approval_row q = \<lparr>rq_id = ar_id q, rq_action_id = ar_action_id q, rq_status = ar_status q,
     rq_requested_by = ar_requested_by q, rq_reason = Some (ar_reason q),
     rq_action_summary = Some (ar_action_summary q), rq_risk_summary = Some (ar_risk_summary q),
     rq_permission_level = ar_permission_level q, rq_estimated_cost = ar_estimated_cost q,
     rq_proposed_inputs = Some (json_print '', '' '': '' (JObj (ar_proposed_inputs q))),
     rq_expected_effect = Some (ar_expected_effect q), rq_action_hash = ar_action_hash q,
     rq_requested_at = ar_requested_at q, rq_decided_at = None, rq_decided_by = None,
     rq_expires_at = ar_expires_at q, rq_consumed = False, rq_consumed_at = None\<rparr>"

section \<open>Plans\<close>

text \<open>\<open>str.upper\<close> on ASCII letters; no other code point below U+0100 uppercases to an ASCII letter the
  two policy names contain.\<close>

definition ascii_upper :: "string \<Rightarrow> string" where
  "ascii_upper s = map (\<lambda>c. let n = of_char c :: nat in
     if 97 \<le> n \<and> n \<le> 122 then char_of (n - 32) else c) s"

definition valid_failure_policies :: "string list" where
  "valid_failure_policies = [''STOP_ON_FAILURE'', ''CONTINUE_INDEPENDENT'']"

definition normalize_failure_policy :: "string \<Rightarrow> string" where
  "normalize_failure_policy value =
     (if value \<noteq> [] \<and> ascii_upper (py_strip value) \<in> set valid_failure_policies
      then ascii_upper (py_strip value) else ''STOP_ON_FAILURE'')"

definition plan_hash_entry :: "action \<Rightarrow> json" where
  "plan_hash_entry a = JObj [(''id'', JStr (a_id a)), (''action_type'', JStr (a_action_type a)),
     (''tool_name'', opt_str (a_tool_name a)), (''inputs'', JObj (a_inputs a)),
     (''expected_result'', JStr (a_expected_result a)),
     (''dependencies'', dependencies_json (sort (a_dependencies a)))]"

definition plan_hash_payload :: "action_plan \<Rightarrow> json" where
  "plan_hash_payload p = JObj [(''plan_id'', JStr (p_id p)),
     (''failure_policy'', JStr (normalize_failure_policy (p_failure_policy p))),
     (''actions'', JArr (map plan_hash_entry (sort_key a_id (p_actions p))))]"

definition compute_plan_hash :: "action_plan \<Rightarrow> string" where
  "compute_plan_hash p = sha256_hex (json_compact (plan_hash_payload p))"

definition plan_structure_unchanged :: "action_plan \<Rightarrow> action_plan \<Rightarrow> bool" where
  "plan_structure_unchanged before after = (compute_plan_hash before = compute_plan_hash after)"

definition plan_to_record_fields :: "action_plan \<Rightarrow> plan_row" where
  "plan_to_record_fields p = \<lparr>pw_id = p_id p, pw_decision_id = p_decision_id p, pw_project_id = p_project_id p,
     pw_title = p_title p, pw_description = none_if_empty (p_description p),
     pw_failure_policy = normalize_failure_policy (p_failure_policy p),
     pw_estimated_cost = p_estimated_cost p, pw_estimated_model_calls = p_estimated_model_calls p,
     pw_success_criteria = none_if_empty (p_success_criteria p), pw_status = p_status p,
     pw_created_by = p_created_by p, pw_plan_hash = Some (compute_plan_hash p), pw_version = 1,
     pw_revision = p_revision p, pw_created_at = p_created_at p, pw_started_at = None,
     pw_completed_at = None, pw_last_error = None, pw_pause_reason = None,
     pw_reconciliation_required = False, pw_orchestration_owner = None,
     pw_orchestration_claimed_at = None, pw_orchestration_lease_expires_at = None\<rparr>"

definition record_to_plan :: "plan_row \<Rightarrow> action list \<Rightarrow> action_plan" where
  "record_to_plan r as = \<lparr>p_id = pw_id r, p_decision_id = pw_decision_id r, p_project_id = pw_project_id r,
     p_title = pw_title r, p_description = empty_if_none (pw_description r), p_actions = as,
     p_estimated_cost = pw_estimated_cost r, p_estimated_model_calls = pw_estimated_model_calls r,
     p_success_criteria = empty_if_none (pw_success_criteria r), p_failure_policy = pw_failure_policy r,
     p_status = pw_status r, p_created_by = pw_created_by r, p_created_at = pw_created_at r,
     p_revision = pw_revision r\<rparr>"

section \<open>Lemmas\<close>

lemma load_json_bounded:
  assumes "json_ok v" "json_dict v" "length (json_default v) \<le> n"
  shows "load_json (bounded_json n (Some v)) d = Inr (json_norm v)"
proof -
  have "json_default v \<noteq> []"
    using json_print_not_Nil [OF json_ok_norm [OF assms(1)]] by (simp add: json_default_def json_dumps_print)
  then show ?thesis using json_loads_dumps [OF default_separators assms(1,2)] assms(3)
    by (simp add: load_json_def bounded_json_def json_default_def)
qed

lemma load_json_truncated:
  assumes "n < length (json_default v)"
  shows "load_json (bounded_json n (Some v)) d =
    Inr (JObj [(''_truncated'', JBool True), (''_original_chars'', JInt (int (length (json_default v))))])"
proof -
  let ?m = "JObj [(''_truncated'', JBool True), (''_original_chars'', JInt (int (length (json_default v))))]"
  have ok: "json_ok ?m" "json_dict ?m" by simp_all
  have "bounded_json n (Some v) = Some (json_print '', '' '': '' ?m)"
    using assms by (simp add: bounded_json_def Let_def del: json_print.simps)
  then show ?thesis using json_loads_print [OF default_separators ok] json_print_not_Nil [OF ok(1), of "'', ''" "'': ''"]
    by (simp add: load_json_def del: json_print.simps)
qed

lemma dependencies_json_facts: "json_ok (dependencies_json ds)" "json_dict (dependencies_json ds)"
  "json_norm (dependencies_json ds) = dependencies_json ds" "as_strs (dependencies_json ds) = Inr ds"
proof -
  have "as_str_list (map JStr ds) = Inr ds" by (induction ds) simp_all
  then show "as_strs (dependencies_json ds) = Inr ds" by (simp add: as_strs_def dependencies_json_def)
qed (simp_all add: dependencies_json_def list_all_iff)

lemma bounded_text_id: "length s \<le> n \<Longrightarrow> bounded_text n (Some s) = Some s"
  by (simp add: bounded_text_def)

lemma bounded_text_opt: "(\<forall>s. x = Some s \<longrightarrow> length s \<le> n) \<Longrightarrow> bounded_text n x = x"
  by (cases x) (simp_all add: bounded_text_def)

lemma bounded_text_long: "n < length s \<Longrightarrow> length truncation_marker \<le> n \<Longrightarrow>
    \<exists>t. bounded_text n (Some s) = Some t \<and> length t = n"
  by (simp add: bounded_text_def)

lemma failure_category_roundtrip [simp]: "failure_category_of (failure_category_value c) = Some c"
  by (cases c) (simp_all add: failure_category_of_def)

lemma load_failure_category_roundtrip: "load_failure_category (map_option failure_category_value c) = Inr c"
  by (cases c; cases "the c") (simp_all add: load_failure_category_def failure_category_of_def)

text \<open>The sizes the persistence layer keeps whole.\<close>

definition persistable :: "action \<Rightarrow> bool" where
  "persistable a = (json_ok (JObj (a_inputs a)) \<and> json_dict (JObj (a_inputs a)) \<and>
     length (json_default (JObj (a_inputs a))) \<le> max_inputs_json_chars \<and>
     length (json_default (dependencies_json (a_dependencies a))) \<le> max_text_field_chars \<and>
     length (a_expected_result a) \<le> max_text_field_chars \<and> length (a_success_criteria a) \<le> max_text_field_chars \<and>
     length (a_verification_method a) \<le> max_text_field_chars \<and>
     (case a_error a of None \<Rightarrow> True | Some e \<Rightarrow> length e \<le> max_text_field_chars))"

definition norm_inputs :: "(string \<times> json) list \<Rightarrow> (string \<times> json) list" where
  "norm_inputs kvs = sort_key fst (map (map_prod id json_norm) kvs)"

lemma json_norm_idem: "json_norm (json_norm v) = json_norm v"
proof (induction v)
  case (JObj kvs)
  have "sort_key fst (map (map_prod id json_norm) (sort_key fst (map (map_prod id json_norm) kvs))) =
      sort_key fst (sort_key fst (map (map_prod id json_norm) kvs))"
    using JObj by (intro arg_cong [where f = "sort_key fst"] map_idI) (auto; fastforce)
  also have "\<dots> = sort_key fst (map (map_prod id json_norm) kvs)"
    by (simp add: sort_key_id_if_sorted)
  finally show ?case by simp
qed auto

lemma norm_inputs_norm: "json_norm (JObj (norm_inputs kvs)) = json_norm (JObj kvs)"
  using json_norm_idem [of "JObj kvs"] by (simp add: norm_inputs_def)

lemma persist_action_ok:
  assumes "length (json_default (JObj (a_inputs a))) \<le> max_inputs_json_chars"
  shows "\<exists>row. action_to_record_fields a = Inr row \<and> ro_inputs_json row = Some (json_default (JObj (a_inputs a))) \<and>
    ro_dependencies_json row = bounded_json max_text_field_chars (Some (dependencies_json (a_dependencies a))) \<and>
    ro_expected_result row = bounded_text max_text_field_chars (Some (a_expected_result a)) \<and>
    ro_action_hash row = compute_action_hash a"
  using assms by (simp add: action_to_record_fields_def safe_inputs_json_def Let_def)

lemma action_to_record_fields_OkD: "action_to_record_fields a = Inr row \<Longrightarrow>
    ro_id row = a_id a \<and> ro_version row = 1 \<and> ro_status row = a_status a \<and>
    ro_retry_count row = a_retry_count a \<and> ro_max_retries row = a_max_retries a \<and>
    ro_action_plan_id row = a_action_plan_id a \<and> ro_action_hash row = compute_action_hash a"
  by (auto simp: action_to_record_fields_def split: sum.splits)

lemma load_inputs:
  assumes "json_ok (JObj inp)" "json_dict (JObj inp)"
  shows "bind_sum (load_json (Some (json_default (JObj inp))) d) as_dict = Inr (norm_inputs inp)"
  using load_json_bounded [OF assms order_refl, of d]
  by (simp add: bounded_json_def as_dict_def norm_inputs_def)

lemma record_to_action_roundtrip:
  assumes "persistable a"
  shows "\<exists>row. action_to_record_fields a = Inr row \<and>
    record_to_action row = Inr (a\<lparr>a_inputs := norm_inputs (a_inputs a), a_result := None\<rparr>)"
proof -
  from assms have p: "json_ok (JObj (a_inputs a))" "json_dict (JObj (a_inputs a))"
    "length (json_default (JObj (a_inputs a))) \<le> max_inputs_json_chars"
    "length (json_default (dependencies_json (a_dependencies a))) \<le> max_text_field_chars"
    "length (a_expected_result a) \<le> max_text_field_chars" "length (a_success_criteria a) \<le> max_text_field_chars"
    "length (a_verification_method a) \<le> max_text_field_chars"
    by (auto simp: persistable_def simp del: json_ok.simps json_dict.simps)
  have err: "bounded_text max_text_field_chars (a_error a) = a_error a"
    using assms by (intro bounded_text_opt) (auto simp: persistable_def)
  have deps: "bind_sum (load_json (bounded_json max_text_field_chars (Some (dependencies_json (a_dependencies a)))) (JArr []))
      as_strs = Inr (a_dependencies a)"
    using load_json_bounded [OF dependencies_json_facts(1,2) p(4)] by (simp add: dependencies_json_facts)
  show ?thesis
    using p(3) by (simp add: action_to_record_fields_def safe_inputs_json_def Let_def record_to_action_def
        load_inputs [OF p(1,2)] deps err bounded_text_id p(5-7))
qed

section \<open>Properties\<close>

text \<open>C23: what is persisted is what is loaded. An action within the size bounds is stored without error
  and reloaded as the same action, its inputs with sorted keys and its transient result dropped; the
  reloaded action has the hash recorded in the row, so an approval of the one is valid for the other.\<close>

theorem action_persistence_roundtrip:
  assumes "persistable a"
  shows "\<exists>row b. action_to_record_fields a = Inr row \<and> record_to_action row = Inr b \<and>
    b = a\<lparr>a_inputs := norm_inputs (a_inputs a), a_result := None\<rparr> \<and>
    compute_action_hash b = compute_action_hash a \<and> ro_action_hash row = compute_action_hash b"
proof -
  obtain row where row: "action_to_record_fields a = Inr row"
    "record_to_action row = Inr (a\<lparr>a_inputs := norm_inputs (a_inputs a), a_result := None\<rparr>)"
    using record_to_action_roundtrip [OF assms] by blast
  have "ro_action_hash row = compute_action_hash a"
    using row(1) by (auto simp: action_to_record_fields_def split: sum.splits)
  moreover have "compute_action_hash (a\<lparr>a_inputs := norm_inputs (a_inputs a), a_result := None\<rparr>) = compute_action_hash a"
    using norm_inputs_norm [of "a_inputs a"]
    by (simp add: compute_action_hash_def json_compact_def json_dumps_print canonical_norm json_norm_mode
        del: json_norm.simps json_mode.simps)
  ultimately show ?thesis using row by auto
qed

lemma sample_action_persistable: "persistable sample_action"
  by (simp add: persistable_def sample_action_def json_default_def dependencies_json_def
      max_inputs_json_chars_def max_text_field_chars_def)

theorem action_persistence_roundtrip_witness:
  "\<exists>row b. action_to_record_fields sample_action = Inr row \<and> record_to_action row = Inr b \<and>
     compute_action_hash b = compute_action_hash sample_action"
  using action_persistence_roundtrip [OF sample_action_persistable] by blast

text \<open>An expected result above the text bound does not survive. The action is stored under the hash of
  the full text but reloads with a truncated one, so its payload is no longer the one that was hashed and
  approved: the recorded hash and the hash of the reloaded action agree only on a SHA-256 collision.
  (The persistence layer's comment promises that hashed payloads are never truncated.)\<close>

theorem long_expected_result_detaches_hash:
  assumes "max_text_field_chars < length (a_expected_result a)"
    and "json_ok (JObj (a_inputs a))" "json_ok (JObj (a_inputs b))"
    and "action_to_record_fields a = Inr row" "record_to_action row = Inr b"
  shows "\<not> same_payload b a \<and>
    (ro_action_hash row = compute_action_hash b \<longrightarrow>
       sha_collision (json_compact (canonical_action_payload b)) (json_compact (canonical_action_payload a)))"
proof -
  have "ro_action_hash row = compute_action_hash a"
    and e: "ro_expected_result row = bounded_text max_text_field_chars (Some (a_expected_result a))"
    using assms(4) by (auto simp: action_to_record_fields_def split: sum.splits)
  moreover have "a_expected_result b = empty_if_none (ro_expected_result row)"
    using assms(5) by (auto simp: record_to_action_def bind_sum_InrE)
  moreover obtain t where "bounded_text max_text_field_chars (Some (a_expected_result a)) = Some t"
    "length t = max_text_field_chars"
    using bounded_text_long [OF assms(1)] by (auto simp: truncation_marker_def max_text_field_chars_def)
  ultimately have "length (a_expected_result b) = max_text_field_chars" by simp
  then have "a_expected_result b \<noteq> a_expected_result a" using assms(1) by auto
  then have "\<not> same_payload b a" by (simp add: same_payload_def)
  then show ?thesis using action_hash_eq [OF assms(3,2)] \<open>ro_action_hash row = compute_action_hash a\<close> by auto
qed

definition long_action :: action where
  "long_action = sample_action\<lparr>a_expected_result := replicate 5000 (CHR ''x'')\<rparr>"

theorem long_expected_result_detaches_hash_witness:
  "\<exists>row b. action_to_record_fields long_action = Inr row \<and> record_to_action row = Inr b \<and> \<not> same_payload b long_action"
proof -
  have inp: "a_inputs long_action = []" "a_dependencies long_action = []"
    by (simp_all add: long_action_def sample_action_def)
  obtain row where row: "action_to_record_fields long_action = Inr row"
      "ro_inputs_json row = Some (json_default (JObj []))"
      "ro_dependencies_json row = bounded_json max_text_field_chars (Some (dependencies_json []))"
    using persist_action_ok [of long_action] inp by (auto simp: json_default_def max_inputs_json_chars_def)
  have "bind_sum (load_json (ro_dependencies_json row) (JArr [])) as_strs = Inr []"
    using load_json_bounded [OF dependencies_json_facts(1,2) [of "[]"], of max_text_field_chars "JArr []"]
    by (simp add: row(3) dependencies_json_facts) (simp add: json_default_def dependencies_json_def max_text_field_chars_def as_strs_def)
  moreover have "bind_sum (load_json (ro_inputs_json row) (JObj [])) as_dict = Inr []"
    using load_inputs [of "[]"] by (simp add: row(2) norm_inputs_def)
  ultimately obtain b where b: "record_to_action row = Inr b" "a_inputs b = []"
    by (simp add: record_to_action_def)
  have "max_text_field_chars < length (a_expected_result long_action)"
    by (simp add: long_action_def max_text_field_chars_def)
  from long_expected_result_detaches_hash [OF this _ _ row(1) b(1)] show ?thesis
    using row(1) b inp by auto
qed

text \<open>Dependencies above the text bound make the row unloadable. The stored document is replaced by an
  object saying it was truncated, and reloading the action fails.\<close>

theorem long_dependencies_unloadable:
  assumes "max_text_field_chars < length (json_default (dependencies_json (a_dependencies a)))"
    and "action_to_record_fields a = Inr row"
  shows "\<not> is_ok (record_to_action row)"
proof -
  have "ro_dependencies_json row = bounded_json max_text_field_chars (Some (dependencies_json (a_dependencies a)))"
    using assms(2) by (auto simp: action_to_record_fields_def split: sum.splits)
  then have "bind_sum (load_json (ro_dependencies_json row) (JArr [])) as_strs = Inl (WrongShape ''list'')"
    using load_json_truncated [OF assms(1)] by (simp add: as_strs_def)
  then show ?thesis by (cases "bind_sum (load_json (ro_inputs_json row) (JObj [])) as_dict") (simp_all add: record_to_action_def)
qed

lemma length_json_quote: "length s \<le> length (json_quote s)"
proof (induction s)
  case (Cons c s)
  then show ?case using json_escape_char_head [of c] by (auto simp: json_quote_def)
qed simp

definition many_deps_action :: action where
  "many_deps_action = sample_action\<lparr>a_dependencies := [replicate 5000 (CHR ''x'')]\<rparr>"

theorem long_dependencies_unloadable_witness:
  "\<exists>row. action_to_record_fields many_deps_action = Inr row \<and> \<not> is_ok (record_to_action row)"
proof -
  obtain row where row: "action_to_record_fields many_deps_action = Inr row"
    using persist_action_ok [of many_deps_action]
    by (auto simp: many_deps_action_def sample_action_def json_default_def max_inputs_json_chars_def)
  have "max_text_field_chars < length (json_default (dependencies_json (a_dependencies many_deps_action)))"
    using length_json_quote [of "replicate 5000 (CHR ''x'')"]
    by (simp add: json_default_def dependencies_json_def many_deps_action_def max_text_field_chars_def)
  from long_dependencies_unloadable [OF this row] row show ?thesis by blast
qed

subsection \<open>Idempotency keys\<close>

lemma key_tail:
  assumes "length h = 64" "length h' = 64" "a @ '':'' @ h = b @ '':'' @ h'"
  shows "a = b \<and> h = h'"
  using assms by (simp add: append_eq_append_conv)

lemma int_str_no_colon: "CHR '':'' \<notin> set (int_str n)"
  using int_str_code [of "CHR '':''" n] by (auto simp: digit_code_def)

lemma last_colon_split:
  assumes "CHR '':'' \<notin> set x" "CHR '':'' \<notin> set y" "a @ '':'' @ x = b @ '':'' @ y"
  shows "a = b \<and> x = y"
proof -
  have "takeWhile (\<lambda>c. c \<noteq> CHR '':'') (rev (a @ '':'' @ x)) = rev x" if "CHR '':'' \<notin> set x" for a x
    using that by (auto simp: takeWhile_append)
  then have "x = y" using assms by (metis rev_rev_ident)
  then show ?thesis using assms(3) by simp
qed

definition hex_string :: "string \<Rightarrow> bool" where
  "hex_string h = (length h = 64 \<and> CHR '':'' \<notin> set h)"

lemma idempotency_text_inj:
  assumes "hex_string h" "hex_string h'" "length (int_str m) < 64" "length (int_str n) < 64"
    and eq: "idempotency_text i h m = idempotency_text j h' n"
  shows "i = j \<and> h = h' \<and> m = n"
proof -
  have h: "CHR '':'' \<notin> set h" "CHR '':'' \<notin> set h'" "length h = 64" "length h' = 64"
    using assms by (simp_all add: hex_string_def)
  show ?thesis
  proof (cases "m = 0"; cases "n = 0")
    assume "m = 0" "n = 0"
    then show ?thesis using eq last_colon_split [OF h(1,2)] by (simp add: idempotency_text_def)
  next
    assume "m = 0" "n \<noteq> 0"
    then show ?thesis using eq last_colon_split [OF h(1) int_str_no_colon, of i "j @ '':'' @ h'" n] assms(4) h(3)
      by (simp add: idempotency_text_def)
  next
    assume "m \<noteq> 0" "n = 0"
    then show ?thesis using eq last_colon_split [OF int_str_no_colon h(2), of "i @ '':'' @ h" m j] assms(3) h(4)
      by (simp add: idempotency_text_def)
  next
    assume nz: "m \<noteq> 0" "n \<noteq> 0"
    then have "i @ '':'' @ h = j @ '':'' @ h' \<and> int_str m = int_str n"
      using eq last_colon_split [OF int_str_no_colon int_str_no_colon, of "i @ '':'' @ h" m "j @ '':'' @ h'" n]
      by (simp add: idempotency_text_def)
    then show ?thesis using key_tail [OF h(3,4)] int_str_inj by blast
  qed
qed

lemma digit_char_no_colon: "d < 16 \<Longrightarrow> digit_char d \<noteq> CHR '':''"
proof
  assume "d < 16" "digit_char d = CHR '':''"
  then have "(of_char (digit_char d) :: nat) = of_char (CHR '':'')" by simp
  with \<open>d < 16\<close> show False by (simp add: digit_char_def split: if_splits)
qed

lemma sha256_hex_string: "hex_string (sha256_hex s)"
proof -
  have "CHR '':'' \<noteq> digit_char (n mod 16)" for n
    using digit_char_no_colon [of "n mod 16"] by (metis mod_less_divisor zero_less_numeral)
  then have "CHR '':'' \<notin> set (hex8 w)" for w by (simp add: hex8_def image_iff)
  then have "CHR '':'' \<notin> set (sha256_hex s)" by (auto simp: sha256_hex_def sha256_bytes_def Let_def)
  then show ?thesis by (simp add: hex_string_def length_sha256_hex)
qed

text \<open>An execution claim belongs to one attempt of one payload. Two idempotency keys are equal only for
  the same action id, the same action hash and the same attempt number, or on a SHA-256 collision: a
  retry never collides with the attempt it retries, whatever characters the ids contain.\<close>

theorem idempotency_key_injective:
  assumes "compute_idempotency_key i (compute_action_hash a) m = compute_idempotency_key j (compute_action_hash b) n"
    and "length (int_str m) < 64" "length (int_str n) < 64"
  shows "(i = j \<and> compute_action_hash a = compute_action_hash b \<and> m = n) \<or>
    sha_collision (idempotency_text i (compute_action_hash a) m) (idempotency_text j (compute_action_hash b) n)"
proof -
  have hex: "hex_string (compute_action_hash x)" for x by (simp add: compute_action_hash_def sha256_hex_string)
  show ?thesis
    using idempotency_text_inj [OF hex [of a] hex [of b] assms(2,3), of i j] assms(1)
    by (auto simp: compute_idempotency_key_def sha_collision_def)
qed

theorem idempotency_key_injective_witness:
  "(''a1'' = ''a1'' \<and> (2 :: int) = 2) \<or>
   sha_collision (idempotency_text ''a1'' (compute_action_hash sample_action) 2)
     (idempotency_text ''a1'' (compute_action_hash sample_action) 2)"
  using idempotency_key_injective [OF refl, of 2 "''a1''" sample_action] by (simp add: int_str_def nat_digits.simps)

text \<open>Results survive storage. An execution result and a verification result within the text bound
  reload as they were stored, the execution result with its attempt id filled in and its output's keys
  sorted.\<close>

theorem result_persistence_roundtrip:
  assumes "\<forall>out. er_output r = Some out \<longrightarrow> json_ok (JObj out) \<and> json_dict (JObj out) \<and>
      length (json_default (JObj out)) \<le> max_text_field_chars"
    and "length (json_default (dependencies_json (er_side_effects r))) \<le> max_text_field_chars"
    and "\<forall>m. er_error_message r = Some m \<longrightarrow> length m \<le> max_text_field_chars"
    and "length (json_default (dependencies_json (vr_issues v))) \<le> max_text_field_chars"
    and "\<forall>t. vr_expected v = Some t \<or> vr_observed v = Some t \<longrightarrow> length t \<le> max_text_field_chars"
  shows "record_to_execution_result (execution_result_to_record_fields att r prov) =
      Inr (r\<lparr>er_output := map_option norm_inputs (er_output r), er_execution_attempt_id := Some att\<rparr>) \<and>
    record_to_verification_result (verification_result_to_record_fields att v prov) = Inr v"
proof -
  have strs: "bind_sum (load_json (bounded_json max_text_field_chars (Some (dependencies_json xs))) (JArr [])) as_strs = Inr xs"
    if "length (json_default (dependencies_json xs)) \<le> max_text_field_chars" for xs
    using load_json_bounded [OF dependencies_json_facts(1,2) that] by (simp add: dependencies_json_facts)
  have out: "bind_sum (load_json (bounded_json max_text_field_chars (map_option JObj (er_output r))) JNull) as_opt_dict
      = Inr (map_option norm_inputs (er_output r))"
  proof (cases "er_output r")
    case None
    then show ?thesis by (simp add: bounded_json_def load_json_def as_opt_dict_def)
  next
    case (Some o')
    then show ?thesis using load_json_bounded [of "JObj o'" max_text_field_chars JNull] assms(1)
      by (simp add: as_opt_dict_def as_dict_def norm_inputs_def)
  qed
  have msg: "bounded_text max_text_field_chars (er_error_message r) = er_error_message r"
    "bounded_text max_text_field_chars (vr_expected v) = vr_expected v"
    "bounded_text max_text_field_chars (vr_observed v) = vr_observed v"
    using assms by (auto intro!: bounded_text_opt)
  show ?thesis
    by (simp add: record_to_execution_result_def execution_result_to_record_fields_def Let_def out strs assms msg
        load_failure_category_roundtrip record_to_verification_result_def verification_result_to_record_fields_def)
qed

definition sample_result :: execution_result where
  "sample_result = \<lparr>er_action_id = ''a1'', er_tool_name = Some ''t'', er_started_at = 0, er_completed_at = 1,
     er_success = True, er_provider_status = None, er_output = Some [(''bytes_written'', JInt 3)],
     er_side_effects = [''created x''], er_cost = None, er_error_type = None, er_error_message = None,
     er_execution_attempt_id = None, er_error_code = None, er_side_effect_occurred = True,
     er_adapter_version = Some ''1''\<rparr>"

definition sample_verification :: verification_result where
  "sample_verification = \<lparr>vr_action_id = ''a1'', vr_method = ''m'', vr_expected = None, vr_observed = None,
     vr_passed = True, vr_confidence = Fin 1, vr_issues = [], vr_verified_at = 2\<rparr>"

theorem result_persistence_roundtrip_witness:
  "record_to_execution_result (execution_result_to_record_fields ''t1'' sample_result ORIGINAL) =
     Inr (sample_result\<lparr>er_output := Some [(''bytes_written'', JInt 3)], er_execution_attempt_id := Some ''t1''\<rparr>)"
proof -
  have *: "length (json_default (JObj [(''bytes_written'', JInt 3)])) \<le> max_text_field_chars"
    "length (json_default (dependencies_json [''created x''])) \<le> max_text_field_chars"
    "length (json_default (dependencies_json [])) \<le> max_text_field_chars"
    by code_simp+
  show ?thesis
    using result_persistence_roundtrip [of sample_result sample_verification "''t1''" ORIGINAL] *
    by (simp add: sample_result_def sample_verification_def norm_inputs_def)
qed

end
