(* ===== verification/Database.thy ===== *)
theory Database
  imports Persistence "HOL-Library.Product_Lexorder"
begin

text \<open>
  The repositories of \<open>app/database/repositories.py\<close> the decision and action layer uses, over tables
  kept in insertion order. An INSERT that violates a primary key or UNIQUE column yields \<open>None\<close> (the
  IntegrityError); a conditional UPDATE returns whether a row matched (\<open>rowcount == 1\<close>) and the table
  after it. Each method is one statement followed by commit, hence atomic: interleavings of several
  sessions are interleavings of these operations. Keyword fields of an update are a function on rows.
\<close>

section \<open>ActionApprovalRequestRepository\<close>

definition approval_create :: "approval_row list \<Rightarrow> approval_row \<Rightarrow> approval_row list option" where
  "approval_create t r = tbl_insert rq_id t r"

definition approval_get :: "approval_row list \<Rightarrow> string \<Rightarrow> approval_row option" where
  "approval_get t i = tbl_get rq_id t i"

definition approval_update_status :: "approval_row list \<Rightarrow> string \<Rightarrow> approval_status \<Rightarrow> datetime option \<Rightarrow>
    string option \<Rightarrow> approval_row option \<times> approval_row list" where
  "approval_update_status t i status decided_at decided_by = (let
     t' = tbl_upd rq_id t i (\<lambda>r. r\<lparr>rq_status := status, rq_decided_at := decided_at, rq_decided_by := decided_by\<rparr>)
   in (approval_get t' i, t'))"

text \<open>The WHERE clause of \<open>consume_if_valid\<close> besides the id.\<close>

definition consumable :: "string \<Rightarrow> string \<Rightarrow> datetime \<Rightarrow> approval_row \<Rightarrow> bool" where
  "consumable action_id action_hash now r = (\<not> rq_consumed r \<and> rq_status r = AR_APPROVED \<and>
     rq_action_id r = action_id \<and> rq_action_hash r = action_hash \<and>
     (case rq_expires_at r of None \<Rightarrow> True | Some t \<Rightarrow> now < t))"

definition consume_if_valid :: "approval_row list \<Rightarrow> string \<Rightarrow> string \<Rightarrow> string \<Rightarrow> datetime \<Rightarrow>
    bool \<times> approval_row list" where
  "consume_if_valid t i action_id action_hash now = (case approval_get t i of
     None \<Rightarrow> (False, t)
   | Some r \<Rightarrow>
       if consumable action_id action_hash now r
       then (True, tbl_upd rq_id t i (\<lambda>r. r\<lparr>rq_consumed := True, rq_consumed_at := Some now\<rparr>))
       else (False, t))"

subsection \<open>The bridge over it\<close>

definition persist_new_approval_request :: "approval_row list \<Rightarrow> approval_request \<Rightarrow> approval_row list option" where
  "persist_new_approval_request t q = approval_create t (new_approval_row q)"

definition load_approval_request :: "approval_row list \<Rightarrow> string \<Rightarrow> load_error + approval_request option" where
  "load_approval_request t i = (case approval_get t i of
     None \<Rightarrow> Inr None | Some r \<Rightarrow> map_sum id Some (approval_row_to_domain r))"

definition sync_decision :: "approval_row list \<Rightarrow> approval_request \<Rightarrow> approval_row option \<times> approval_row list" where
  "sync_decision t q = approval_update_status t (ar_id q) (ar_status q) (ar_decided_at q) (ar_decided_by q)"

definition consume_durable :: "approval_row list \<Rightarrow> string \<Rightarrow> string \<Rightarrow> string \<Rightarrow> datetime \<Rightarrow> bool \<times> approval_row list" where
  "consume_durable t i action_id action_hash now = consume_if_valid t i action_id action_hash now"

section \<open>ActionPlanRecordRepository\<close>

definition plan_create :: "plan_row list \<Rightarrow> plan_row \<Rightarrow> plan_row list option" where
  "plan_create t r = tbl_insert pw_id t r"

definition plan_get :: "plan_row list \<Rightarrow> string \<Rightarrow> plan_row option" where
  "plan_get t i = tbl_get pw_id t i"

definition plan_update :: "plan_row list \<Rightarrow> string \<Rightarrow> int \<Rightarrow> (plan_row \<Rightarrow> plan_row) \<Rightarrow> bool \<times> plan_row list" where
  "plan_update t i expected f = tbl_vcas pw_id pw_version (\<lambda>n r. r\<lparr>pw_version := n\<rparr>) t i expected f"

text \<open>Whether the lease may be taken: \<open>owner IS NULL\<close>, or also \<open>lease_expires_at < now\<close> (NULL compares as unknown).\<close>

definition lease_claimable :: "bool \<Rightarrow> datetime \<Rightarrow> plan_row \<Rightarrow> bool" where
  "lease_claimable allow_stale now r = (pw_orchestration_owner r = None \<or>
     (allow_stale \<and> (case pw_orchestration_lease_expires_at r of None \<Rightarrow> False | Some t \<Rightarrow> t < now)))"

definition claim_orchestration :: "plan_row list \<Rightarrow> string \<Rightarrow> string \<Rightarrow> datetime \<Rightarrow> int \<Rightarrow> bool \<Rightarrow> bool \<times> plan_row list" where
  "claim_orchestration t i owner now lease_seconds allow_stale = (case plan_get t i of
     None \<Rightarrow> (False, t)
   | Some r \<Rightarrow>
       if lease_claimable allow_stale now r
       then (True, tbl_upd pw_id t i (\<lambda>r. r\<lparr>pw_orchestration_owner := Some owner,
         pw_orchestration_claimed_at := Some now,
         pw_orchestration_lease_expires_at := Some (now + lease_seconds * 1000000)\<rparr>))
       else (False, t))"

definition release_orchestration :: "plan_row list \<Rightarrow> string \<Rightarrow> string \<Rightarrow> bool \<times> plan_row list" where
  "release_orchestration t i owner = (case plan_get t i of
     None \<Rightarrow> (False, t)
   | Some r \<Rightarrow>
       if pw_orchestration_owner r = Some owner
       then (True, tbl_upd pw_id t i (\<lambda>r. r\<lparr>pw_orchestration_owner := None,
         pw_orchestration_claimed_at := None, pw_orchestration_lease_expires_at := None\<rparr>))
       else (False, t))"

definition plan_list_by_status :: "plan_row list \<Rightarrow> plan_status list \<Rightarrow> plan_row list" where
  "plan_list_by_status t ss = filter (\<lambda>r. pw_status r \<in> set ss) t"

definition list_stale_leases :: "plan_row list \<Rightarrow> datetime \<Rightarrow> plan_row list" where
  "list_stale_leases t before = filter (\<lambda>r. pw_orchestration_owner r \<noteq> None \<and>
     (case pw_orchestration_lease_expires_at r of None \<Rightarrow> False | Some e \<Rightarrow> e < before)) t"

section \<open>ActionRecordRepository\<close>

definition action_create :: "action_row list \<Rightarrow> action_row \<Rightarrow> action_row list option" where
  "action_create t r = tbl_insert ro_id t r"

definition action_get :: "action_row list \<Rightarrow> string \<Rightarrow> action_row option" where
  "action_get t i = tbl_get ro_id t i"

definition action_update :: "action_row list \<Rightarrow> string \<Rightarrow> int \<Rightarrow> (action_row \<Rightarrow> action_row) \<Rightarrow> bool \<times> action_row list" where
  "action_update t i expected f = tbl_vcas ro_id ro_version (\<lambda>n r. r\<lparr>ro_version := n\<rparr>) t i expected f"

definition action_list_by_status :: "action_row list \<Rightarrow> action_status list \<Rightarrow> action_row list" where
  "action_list_by_status t ss = filter (\<lambda>r. ro_status r \<in> set ss) t"

definition action_list_by_plan :: "action_row list \<Rightarrow> string \<Rightarrow> action_row list" where
  "action_list_by_plan t plan_id =
     sort_key (\<lambda>r. (ro_sequence r, ro_id r)) (filter (\<lambda>r. ro_action_plan_id r = plan_id) t)"

section \<open>Execution attempts and results\<close>

record attempt_row =
  at_id :: string
  at_action_id :: string
  at_idempotency_key :: string
  at_tool_name :: string
  at_adapter_name :: string
  at_adapter_version :: "string option"
  at_status :: attempt_status
  at_started_at :: "datetime option"
  at_finished_at :: "datetime option"
  at_side_effect_occurred :: bool
  at_side_effect_fingerprint :: "string option"
  at_error_code :: "string option"
  at_error_message :: "string option"
  at_recovery_state :: "string option"
  at_claimed_at :: "datetime option"
  at_claimed_by :: "string option"
  at_lease_expires_at :: "datetime option"
  at_created_at :: datetime

text \<open>The claim: an INSERT against the UNIQUE key. \<open>new_id\<close> is a fresh uuid, \<open>created\<close> the column default.\<close>

definition attempt_claim :: "attempt_row list \<Rightarrow> string \<Rightarrow> datetime \<Rightarrow> string \<Rightarrow> string \<Rightarrow> string \<Rightarrow> string \<Rightarrow>
    string option \<Rightarrow> string \<Rightarrow> datetime \<Rightarrow> attempt_row option \<times> attempt_row list" where
  "attempt_claim t new_id created action_id key tool adapter version claimed_by now = (let
     row = \<lparr>at_id = new_id, at_action_id = action_id, at_idempotency_key = key, at_tool_name = tool,
       at_adapter_name = adapter, at_adapter_version = version, at_status = AT_CREATED,
       at_started_at = None, at_finished_at = None, at_side_effect_occurred = False,
       at_side_effect_fingerprint = None, at_error_code = None, at_error_message = None,
       at_recovery_state = None, at_claimed_at = Some now, at_claimed_by = Some claimed_by,
       at_lease_expires_at = None, at_created_at = created\<rparr>
   in case tbl_insert at_idempotency_key t row of
        None \<Rightarrow> (None, t)
      | Some t' \<Rightarrow> (Some row, t'))"

definition attempt_get :: "attempt_row list \<Rightarrow> string \<Rightarrow> attempt_row option" where
  "attempt_get t i = tbl_get at_id t i"

definition attempt_get_by_key :: "attempt_row list \<Rightarrow> string \<Rightarrow> attempt_row option" where
  "attempt_get_by_key t k = tbl_get at_idempotency_key t k"

definition attempt_list_for_action :: "attempt_row list \<Rightarrow> string \<Rightarrow> attempt_row list" where
  "attempt_list_for_action t a = sort_key at_created_at (filter (\<lambda>r. at_action_id r = a) t)"

definition attempt_update :: "attempt_row list \<Rightarrow> string \<Rightarrow> (attempt_row \<Rightarrow> attempt_row) \<Rightarrow> attempt_row list" where
  "attempt_update t i f = tbl_upd at_id t i f"

definition list_stale_started :: "attempt_row list \<Rightarrow> datetime \<Rightarrow> attempt_row list" where
  "list_stale_started t before = filter (\<lambda>r. at_status r = AT_STARTED \<and>
     (case at_lease_expires_at r of None \<Rightarrow> False | Some e \<Rightarrow> e < before)) t"

definition result_create :: "result_row list \<Rightarrow> result_row \<Rightarrow> result_row list option" where
  "result_create t r = tbl_insert rr_attempt_id t r"

definition result_get_by_attempt :: "result_row list \<Rightarrow> string \<Rightarrow> result_row option" where
  "result_get_by_attempt t i = tbl_get rr_attempt_id t i"

definition verification_create :: "verification_row list \<Rightarrow> verification_row \<Rightarrow> verification_row list option" where
  "verification_create t r = tbl_insert rv_attempt_id t r"

definition verification_get_by_attempt :: "verification_row list \<Rightarrow> string \<Rightarrow> verification_row option" where
  "verification_get_by_attempt t i = tbl_get rv_attempt_id t i"

section \<open>Plans and their actions\<close>

text \<open>\<open>persist_new_plan\<close>: the plan row, then one row per action, a \<open>PLANNED\<close> one as \<open>VALIDATED\<close>.\<close>

datatype plan_persist_error = PlanIntegrity | ActionIntegrity string | ActionTooLarge persistence_error

definition validated_on_persist :: "action \<Rightarrow> action" where
  "validated_on_persist a = (if a_status a = AS_PLANNED then a\<lparr>a_status := AS_VALIDATED\<rparr> else a)"

fun persist_actions :: "action_row list \<Rightarrow> action list \<Rightarrow> plan_persist_error + action_row list" where
  "persist_actions t [] = Inr t"
| "persist_actions t (a # as) = (case action_to_record_fields (validated_on_persist a) of
     Inl e \<Rightarrow> Inl (ActionTooLarge e)
   | Inr row \<Rightarrow> (case action_create t row of
        None \<Rightarrow> Inl (ActionIntegrity (a_id a))
      | Some t' \<Rightarrow> persist_actions t' as))"

definition persist_new_plan :: "plan_row list \<Rightarrow> action_row list \<Rightarrow> action_plan \<Rightarrow>
    plan_persist_error + plan_row list \<times> action_row list" where
  "persist_new_plan plans actions p = (case plan_create plans (plan_to_record_fields p) of
     None \<Rightarrow> Inl PlanIntegrity
   | Some plans' \<Rightarrow> map_sum id (Pair plans') (persist_actions actions (p_actions p)))"

fun load_all :: "action_row list \<Rightarrow> load_error + action list" where
  "load_all [] = Inr []"
| "load_all (r # rs) = bind_sum (record_to_action r) (\<lambda>a. bind_sum (load_all rs) (\<lambda>as. Inr (a # as)))"

definition load_plan_actions :: "action_row list \<Rightarrow> string \<Rightarrow> load_error + action list" where
  "load_plan_actions t plan_id = load_all (action_list_by_plan t plan_id)"

definition load_plan :: "plan_row list \<Rightarrow> action_row list \<Rightarrow> string \<Rightarrow> load_error + (plan_row \<times> action_plan) option" where
  "load_plan plans actions i = (case plan_get plans i of
     None \<Rightarrow> Inr None
   | Some r \<Rightarrow> bind_sum (load_plan_actions actions i) (\<lambda>as. Inr (Some (r, record_to_plan r as))))"

section \<open>The stores meet their contracts\<close>

interpretation action_store: versioned_store
  action_get ro_version "\<lambda>n r. r\<lparr>ro_version := n\<rparr>" action_update "\<lambda>f. \<forall>r. ro_id (f r) = ro_id r"
proof -
  have [simp]: "action_get = tbl_get ro_id"
    "action_update = tbl_vcas ro_id ro_version (\<lambda>n r. r\<lparr>ro_version := n\<rparr>)"
    by (simp_all add: fun_eq_iff action_get_def action_update_def)
  show "versioned_store action_get ro_version (\<lambda>n r. r\<lparr>ro_version := n\<rparr>) action_update (\<lambda>f. \<forall>r. ro_id (f r) = ro_id r)"
    by (simp add: tbl_vcas_versioned)
qed

interpretation plan_store: versioned_store
  plan_get pw_version "\<lambda>n r. r\<lparr>pw_version := n\<rparr>" plan_update "\<lambda>f. \<forall>r. pw_id (f r) = pw_id r"
proof -
  have [simp]: "plan_get = tbl_get pw_id"
    "plan_update = tbl_vcas pw_id pw_version (\<lambda>n r. r\<lparr>pw_version := n\<rparr>)"
    by (simp_all add: fun_eq_iff plan_get_def plan_update_def)
  show "versioned_store plan_get pw_version (\<lambda>n r. r\<lparr>pw_version := n\<rparr>) plan_update (\<lambda>f. \<forall>r. pw_id (f r) = pw_id r)"
    by (simp add: tbl_vcas_versioned)
qed

lemma approval_get_upd: "(\<And>r. rq_id (f r) = rq_id r) \<Longrightarrow>
    approval_get (tbl_upd rq_id t i f) j = (if j = i then map_option f (approval_get t i) else approval_get t j)"
  by (simp add: approval_get_def tbl_get_upd)

lemma plan_get_upd: "(\<And>r. pw_id (f r) = pw_id r) \<Longrightarrow>
    plan_get (tbl_upd pw_id t i f) j = (if j = i then map_option f (plan_get t i) else plan_get t j)"
  by (simp add: plan_get_def tbl_get_upd)

text \<open>A row and the request it stores agree on everything validity looks at.\<close>

lemma approval_row_to_domain_fields:
  assumes "approval_row_to_domain r = Inr q"
  shows "ar_id q = rq_id r" "ar_status q = rq_status r" "ar_consumed q = rq_consumed r"
    "ar_action_id q = rq_action_id r" "ar_action_hash q = rq_action_hash r" "ar_expires_at q = rq_expires_at r"
  using assms by (auto simp: approval_row_to_domain_def bind_sum_InrE)

lemma consumable_iff_valid:
  assumes "approval_row_to_domain r = Inr q"
  shows "consumable (a_id a) (compute_action_hash a) now r \<longleftrightarrow> validity_reasons now q (Some a) = []"
  using approval_row_to_domain_fields [OF assms]
  by (auto simp: consumable_def validity_reasons_Nil_iff is_expired_def split: option.splits)

lemma consumed_row_to_domain:
  assumes "approval_row_to_domain r = Inr q"
  shows "approval_row_to_domain (r\<lparr>rq_consumed := True, rq_consumed_at := Some now\<rparr>) =
    Inr (q\<lparr>ar_consumed := True, ar_consumed_at := Some now\<rparr>)"
  using assms by (auto simp: approval_row_to_domain_def bind_sum_InrE)

section \<open>Properties\<close>

text \<open>C12: the durable consumption implements the approval engine's. On a stored request the conditional
  UPDATE matches a row exactly when \<open>consume_approval\<close> accepts the loaded request for that action; then
  the row afterwards loads as the request \<open>consume_approval\<close> returns, and otherwise nothing changed. A
  second UPDATE, whatever action or time it names, never matches.\<close>

theorem durable_consume_refines:
  assumes "approval_get t i = Some r" and "approval_row_to_domain r = Inr q"
  shows "(case consume_approval now q (Some a) of
       Inr q' \<Rightarrow> (\<exists>t'. consume_durable t i (a_id a) (compute_action_hash a) now = (True, t') \<and>
          load_approval_request t' i = Inr (Some q') \<and>
          fst (consume_durable t' i aid h now') = False)
     | Inl e \<Rightarrow> consume_durable t i (a_id a) (compute_action_hash a) now = (False, t))"
proof (cases "validity_reasons now q (Some a) = []")
  case True
  let ?f = "\<lambda>r. r\<lparr>rq_consumed := True, rq_consumed_at := Some now\<rparr>"
  have "is_ok (assert_approval_valid now q (Some a))" using True by (simp add: assert_approval_valid_ok_iff)
  then have q': "consume_approval now q (Some a) = Inr (q\<lparr>ar_consumed := True, ar_consumed_at := Some now\<rparr>)"
    by (auto simp: consume_approval_def is_ok_iff)
  have "consume_durable t i (a_id a) (compute_action_hash a) now = (True, tbl_upd rq_id t i ?f)"
    using assms(1) True consumable_iff_valid [OF assms(2)]
    by (simp add: consume_durable_def consume_if_valid_def)
  moreover have "approval_get (tbl_upd rq_id t i ?f) i = Some (?f r)" using assms(1) by (simp add: approval_get_upd)
  ultimately show ?thesis using q' consumed_row_to_domain [OF assms(2)]
    by (simp add: load_approval_request_def consume_durable_def consume_if_valid_def consumable_def)
next
  case False
  then have "\<not> is_ok (assert_approval_valid now q (Some a))" by (simp add: assert_approval_valid_ok_iff)
  then obtain e where "assert_approval_valid now q (Some a) = Inl e" by (cases "assert_approval_valid now q (Some a)") auto
  then show ?thesis using False assms(1) consumable_iff_valid [OF assms(2)]
    by (simp add: consume_approval_def consume_durable_def consume_if_valid_def)
qed

definition sample_approved_row :: approval_row where
  "sample_approved_row = (new_approval_row sample_request)\<lparr>rq_status := AR_APPROVED, rq_decided_at := Some 1,
     rq_decided_by := Some ''owner''\<rparr>"

lemma sample_approved_row_loads: "approval_row_to_domain sample_approved_row = Inr sample_approved"
proof -
  have "json_loads (json_print '', '' '': '' (JObj [])) = Some (JObj [])"
    by (rule json_loads_print) simp_all
  then have "approval_row_to_domain sample_approved_row =
      Inr (sample_request\<lparr>ar_proposed_inputs := [], ar_status := AR_APPROVED, ar_decided_at := Some 1,
        ar_decided_by := Some ''owner'', ar_consumed := False, ar_consumed_at := None\<rparr>)"
    by (simp add: approval_row_to_domain_def sample_approved_row_def new_approval_row_def load_json_def as_dict_def
        sample_request_facts)
  also have "\<dots> = Inr sample_approved"
    using sample_request_facts by (cases sample_request) (simp add: sample_approved_def)
  finally show ?thesis .
qed

theorem durable_consume_refines_witness:
  "\<exists>t'. consume_durable [sample_approved_row] ''r1'' ''a1'' (compute_action_hash (sample_send\<lparr>a_status := AS_WAITING_FOR_APPROVAL\<rparr>)) 2
     = (True, t') \<and> fst (consume_durable t' ''r1'' ''a1'' [] 3) = False"
proof -
  let ?a = "sample_send\<lparr>a_status := AS_WAITING_FOR_APPROVAL\<rparr>"
  have g: "approval_get [sample_approved_row] ''r1'' = Some sample_approved_row"
    by (simp add: approval_get_def tbl_get_Cons sample_approved_row_def new_approval_row_def sample_request_facts)
  have "is_ok (consume_approval 2 sample_approved (Some ?a))"
    using assert_approval_valid_ok_iff [of 2 sample_approved "Some ?a"] sample_valid [OF refl]
    by (auto simp: consume_approval_def is_ok_iff)
  moreover have "a_id ?a = ''a1''" by (simp add: sample_send_def sample_action_def)
  ultimately show ?thesis
    using durable_consume_refines [OF g sample_approved_row_loads,
      where now = 2 and a = ?a and aid = "''a1''" and h = "[]" and now' = 3]
    by (auto simp: is_ok_iff)
qed

text \<open>The plan lease excludes. A successful claim needs a plan without owner or, only if takeover is
  allowed, with an expired lease. After it, no other claim succeeds before the lease has expired, and even
  then only one that allows takeover; a release by anyone but the owner changes nothing, and after the
  owner's release the plan can be claimed again.\<close>

theorem lease_exclusive:
  assumes "claim_orchestration t i owner now secs stale = (True, t')"
  shows "(\<exists>r. plan_get t i = Some r \<and> (pw_orchestration_owner r = None \<or>
         stale \<and> (\<exists>e. pw_orchestration_lease_expires_at r = Some e \<and> e < now))) \<and>
    (fst (claim_orchestration t' i owner' now' secs' stale') \<longleftrightarrow> stale' \<and> now + secs * 1000000 < now') \<and>
    (owner' \<noteq> owner \<longrightarrow> release_orchestration t' i owner' = (False, t')) \<and>
    fst (release_orchestration t' i owner) \<and>
    fst (claim_orchestration (snd (release_orchestration t' i owner)) i owner' now' secs' False)"
proof -
  let ?f = "\<lambda>r. r\<lparr>pw_orchestration_owner := Some owner, pw_orchestration_claimed_at := Some now,
         pw_orchestration_lease_expires_at := Some (now + secs * 1000000)\<rparr>"
  obtain r where r: "plan_get t i = Some r" "lease_claimable stale now r" "t' = tbl_upd pw_id t i ?f"
    using assms by (auto simp: claim_orchestration_def split: option.splits if_splits)
  then have r': "plan_get t' i = Some (?f r)" by (simp add: plan_get_upd)
  have "\<exists>r. plan_get t i = Some r \<and> (pw_orchestration_owner r = None \<or>
         stale \<and> (\<exists>e. pw_orchestration_lease_expires_at r = Some e \<and> e < now))"
    using r by (auto simp: lease_claimable_def split: option.splits)
  moreover have "fst (claim_orchestration t' i owner' now' secs' stale') \<longleftrightarrow> stale' \<and> now + secs * 1000000 < now'"
    using r' by (simp add: claim_orchestration_def lease_claimable_def)
  moreover have "owner' \<noteq> owner \<longrightarrow> release_orchestration t' i owner' = (False, t')" "fst (release_orchestration t' i owner)"
    using r' by (auto simp: release_orchestration_def)
  moreover have "fst (claim_orchestration (snd (release_orchestration t' i owner)) i owner' now' secs' False)"
    using r' by (simp add: release_orchestration_def claim_orchestration_def plan_get_upd lease_claimable_def)
  ultimately show ?thesis by blast
qed

definition sample_plan_row :: plan_row where
  "sample_plan_row = \<lparr>pw_id = ''p1'', pw_decision_id = ''d1'', pw_project_id = None, pw_title = ''t'',
     pw_description = None, pw_failure_policy = ''STOP_ON_FAILURE'', pw_estimated_cost = None,
     pw_estimated_model_calls = None, pw_success_criteria = None, pw_status = PS_READY,
     pw_created_by = ''system'', pw_plan_hash = None, pw_version = 1, pw_revision = 1, pw_created_at = 0,
     pw_started_at = None, pw_completed_at = None, pw_last_error = None, pw_pause_reason = None,
     pw_reconciliation_required = False, pw_orchestration_owner = None,
     pw_orchestration_claimed_at = None, pw_orchestration_lease_expires_at = None\<rparr>"

theorem lease_exclusive_witness:
  "\<exists>t'. claim_orchestration [sample_plan_row] ''p1'' ''worker-1'' 0 300 False = (True, t') \<and>
     \<not> fst (claim_orchestration t' ''p1'' ''worker-2'' 1000000 300 True) \<and>
     fst (claim_orchestration t' ''p1'' ''worker-2'' 300000001 300 True)"
proof -
  obtain t' where t': "claim_orchestration [sample_plan_row] ''p1'' ''worker-1'' 0 300 False = (True, t')"
    by (simp add: claim_orchestration_def plan_get_def tbl_get_Cons lease_claimable_def sample_plan_row_def)
  show ?thesis
    using t' lease_exclusive [OF t', of "''worker-2''" 1000000 300 True] lease_exclusive [OF t', of "''worker-2''" 300000001 300 True]
    by simp
qed

text \<open>One execution per key. A claim on the attempts table succeeds exactly when no attempt holds the
  key; the new row is the one found under the key, rows of other keys are untouched, keys stay unique,
  and every later claim of that key fails and changes nothing.\<close>

theorem execution_claim_exclusive:
  assumes "tbl_unique at_idempotency_key t"
  shows "(fst (attempt_claim t nid cr aid key tool ad ver by now) \<noteq> None \<longleftrightarrow> attempt_get_by_key t key = None) \<and>
    (\<forall>row t'. attempt_claim t nid cr aid key tool ad ver by now = (Some row, t') \<longrightarrow>
       at_status row = AT_CREATED \<and> at_action_id row = aid \<and>
       attempt_get_by_key t' = (attempt_get_by_key t)(key \<mapsto> row) \<and> tbl_unique at_idempotency_key t' \<and>
       attempt_claim t' nid2 cr2 aid2 key tool2 ad2 ver2 by2 now2 = (None, t'))"
proof -
  have "attempt_claim t nid cr aid key tool ad ver by now = (Some row, t') \<Longrightarrow>
      at_idempotency_key row = key \<and> at_status row = AT_CREATED \<and> at_action_id row = aid \<and>
      tbl_insert at_idempotency_key t row = Some t'" for row t'
    by (auto simp: attempt_claim_def Let_def split: option.splits)
  moreover have "tbl_insert at_idempotency_key t row = Some t' \<Longrightarrow>
      attempt_get_by_key t' = (attempt_get_by_key t)(at_idempotency_key row \<mapsto> row)" for row t'
    by (auto simp: attempt_get_by_key_def fun_eq_iff tbl_get_insert)
  moreover have "attempt_get_by_key u key \<noteq> None \<Longrightarrow>
      attempt_claim u nid2 cr2 aid2 key tool2 ad2 ver2 by2 now2 = (None, u)" for u
    by (simp add: attempt_claim_def Let_def tbl_insert_def attempt_get_by_key_def)
  moreover have "fst (attempt_claim t nid cr aid key tool ad ver by now) \<noteq> None \<longleftrightarrow> attempt_get_by_key t key = None"
    by (simp add: attempt_claim_def Let_def tbl_insert_def attempt_get_by_key_def)
  ultimately show ?thesis using tbl_unique_insert [OF assms] by fastforce
qed

theorem execution_claim_exclusive_witness:
  "attempt_get_by_key [] ''k'' = None \<and>
   fst (attempt_claim [] ''i'' 0 ''a1'' ''k'' ''t'' ''t'' None ''w'' 0) \<noteq> None"
  using execution_claim_exclusive [of "[]" "''i''" 0 "''a1''" "''k''" "''t''" "''t''" None "''w''" 0]
  by (simp add: tbl_unique_def attempt_get_by_key_def)

text \<open>No lost updates. On the actions table and on the plans table alike, when one writer's conditional
  UPDATE succeeds, that of any other writer who read the same version fails and changes nothing, and
  rows other than the written one are left alone.\<close>

theorem no_lost_updates:
  assumes "action_update t i v f = (True, t')" and "\<forall>r. ro_id (f r) = ro_id r"
    and "plan_update u j w g = (True, u')" and "\<forall>r. pw_id (g r) = pw_id r"
  shows "action_update t' i v f' = (False, t') \<and> (k \<noteq> i \<longrightarrow> action_get t' k = action_get t k) \<and>
    plan_update u' j w g' = (False, u') \<and> (l \<noteq> j \<longrightarrow> plan_get u' l = plan_get u l)"
proof -
  have "\<not> fst (action_update t' i v f')" "\<not> fst (plan_update u' j w g')"
    using action_store.second_writer_loses [of t i v f f'] plan_store.second_writer_loses [of u j w g g'] assms by auto
  then have "action_update t' i v f' = (False, t')" "plan_update u' j w g' = (False, u')"
    using action_store.cas_fail [of t' i v f'] plan_store.cas_fail [of u' j w g']
    by (metis (full_types) prod.collapse)+
  then show ?thesis
    using action_store.cas_other [of f k i t v] plan_store.cas_other [of g l j u w] assms by auto
qed

definition sample_row :: action_row where
  "sample_row = (case action_to_record_fields sample_action of Inr r \<Rightarrow> r)"

lemma sample_row_stored: "action_to_record_fields sample_action = Inr sample_row"
  using record_to_action_roundtrip [OF sample_action_persistable] by (auto simp: sample_row_def)

lemma sample_row_facts: "ro_id sample_row = ''a1''" "ro_version sample_row = 1"
  using action_to_record_fields_OkD [OF sample_row_stored] by (simp_all add: sample_action_def)

theorem no_lost_updates_witness:
  "\<exists>t' u'. action_update [sample_row] ''a1'' 1 (\<lambda>r. r\<lparr>ro_status := AS_EXECUTING\<rparr>) = (True, t') \<and>
     action_update t' ''a1'' 1 (\<lambda>r. r\<lparr>ro_status := AS_FAILED\<rparr>) = (False, t') \<and>
     plan_update [sample_plan_row] ''p1'' 1 (\<lambda>r. r\<lparr>pw_status := PS_EXECUTING\<rparr>) = (True, u') \<and>
     plan_update u' ''p1'' 1 id = (False, u')"
proof -
  obtain t' where t': "action_update [sample_row] ''a1'' 1 (\<lambda>r. r\<lparr>ro_status := AS_EXECUTING\<rparr>) = (True, t')"
    by (simp add: action_update_def tbl_vcas_def tbl_cas_def tbl_get_Cons sample_row_facts)
  obtain u' where u': "plan_update [sample_plan_row] ''p1'' 1 (\<lambda>r. r\<lparr>pw_status := PS_EXECUTING\<rparr>) = (True, u')"
    by (simp add: plan_update_def tbl_vcas_def tbl_cas_def tbl_get_Cons sample_plan_row_def)
  show ?thesis
    using t' u' no_lost_updates [OF t' _ u', where f' = "\<lambda>r. r\<lparr>ro_status := AS_FAILED\<rparr>" and g' = id] by simp
qed

end
