(* ===== verification/Recovery.thy ===== *)
theory Recovery
  imports Database
begin

text \<open>
  What happens after a failure: \<open>app/decision_intelligence/failure_intelligence.py\<close> (classification and
  the failure record), \<open>retry_policy.py\<close>, \<open>recovery_policy.py\<close> (the decision) and
  \<open>retry_controller.py\<close> (the one durable write that lets a failed Action run again). The dash U+2014 of
  an explanation is transcribed as a hyphen.
\<close>

section \<open>Retry policy\<close>

definition potentially_retryable :: "failure_category list" where
  "potentially_retryable = [FC_TRANSIENT, FC_TOOL, FC_VERIFICATION]"

definition never_retryable :: "failure_category list" where
  "never_retryable = [FC_APPROVAL, FC_PERMISSION, FC_BUDGET, FC_SECURITY, FC_VALIDATION, FC_UNKNOWN]"

definition is_potentially_retryable :: "failure_category \<Rightarrow> bool" where
  "is_potentially_retryable c = (c \<in> set potentially_retryable)"

definition is_replannable :: "failure_category \<Rightarrow> bool" where
  "is_replannable c = (c = FC_VERIFICATION)"

section \<open>Recovery policy\<close>

datatype recovery_decision = RD_RETRY | RD_REPLAN | RD_WAIT_FOR_APPROVAL | RD_RECONCILE | RD_HUMAN_REVIEW
  | RD_STOP | RD_BUDGET_EXHAUSTED | RD_SECURITY_BLOCKED | RD_NO_ACTION

record recovery_evaluation =
  re_decision :: recovery_decision
  re_reason_codes :: "string list"
  re_retry_permitted :: bool
  re_replan_permitted :: bool
  re_explanation :: string

fun default_decision_by_category :: "failure_category \<Rightarrow> recovery_decision" where
  "default_decision_by_category FC_TRANSIENT = RD_RECONCILE"
| "default_decision_by_category FC_TOOL = RD_RECONCILE"
| "default_decision_by_category FC_VALIDATION = RD_REPLAN"
| "default_decision_by_category FC_PERMISSION = RD_STOP"
| "default_decision_by_category FC_APPROVAL = RD_STOP"
| "default_decision_by_category FC_VERIFICATION = RD_RECONCILE"
| "default_decision_by_category FC_BUDGET = RD_BUDGET_EXHAUSTED"
| "default_decision_by_category FC_SECURITY = RD_SECURITY_BLOCKED"
| "default_decision_by_category FC_UNKNOWN = RD_RECONCILE"

definition recovery_eval :: "recovery_decision \<Rightarrow> failure_category \<Rightarrow> string list \<Rightarrow> string \<Rightarrow> recovery_evaluation" where
  "recovery_eval d c codes expl = \<lparr>re_decision = d,
     re_reason_codes = (''CATEGORY_'' @ failure_category_value c) # codes,
     re_retry_permitted = False, re_replan_permitted = False, re_explanation = expl\<rparr>"

definition evaluate_recovery :: "failure_category \<Rightarrow> bool \<Rightarrow> int \<Rightarrow> int \<Rightarrow> bool \<Rightarrow> bool \<Rightarrow> recovery_evaluation" where
  "evaluate_recovery c side_effect retry_count max_retries approval_required replan_permitted =
     (if c = FC_SECURITY then recovery_eval RD_SECURITY_BLOCKED c [''SECURITY_NEVER_RETRIES'']
        ''SECURITY failures never retry, replan, or otherwise continue automatically.''
      else if c = FC_BUDGET then recovery_eval RD_BUDGET_EXHAUSTED c [''BUDGET_EXHAUSTED'']
        ''A budget boundary failure stops safely; nothing here increases a budget automatically.''
      else if c = FC_PERMISSION then recovery_eval RD_STOP c [''PERMISSION_POLICY_MUST_BE_RESOLVED'']
        ''A PERMISSION failure reflects a deliberate policy boundary; it is never retried or replanned around.''
      else if c = FC_APPROVAL then recovery_eval RD_STOP c [''APPROVAL_CANNOT_BE_MANUFACTURED'']
        ''An APPROVAL failure requires a fresh human decision; recovery never re-executes on the strength of an old one.''
      else if approval_required then recovery_eval RD_HUMAN_REVIEW c [''APPROVAL_REQUIRED_NO_AUTOMATIC_RETRY'']
        (''This Action'' @ [CHR 0x27] @ ''s approval was single-use and already consumed; a human must authorize any further attempt.'')
      else if c \<in> {FC_TRANSIENT, FC_TOOL} then
        (if side_effect then recovery_eval RD_RECONCILE c [''SIDE_EFFECT_MAY_HAVE_OCCURRED'']
           ''A side effect occurred during a failed attempt; reconciliation must establish the true state before any retry.''
         else if max_retries \<le> retry_count then recovery_eval RD_BUDGET_EXHAUSTED c [''RETRY_BUDGET_EXHAUSTED'']
           (''retry_count ('' @ int_str retry_count @ '') has reached max_retries ('' @ int_str max_retries @
            ''); no further automatic attempt is made.'')
         else (recovery_eval RD_RETRY c [''SIDE_EFFECT_KNOWN_ABSENT'', ''RETRY_BUDGET_AVAILABLE'']
           (failure_category_value c @ '' failure with no side effect and retry budget remaining ('' @
            int_str retry_count @ ''/'' @ int_str max_retries @ '') - bounded retry authorized.''))
           \<lparr>re_retry_permitted := True\<rparr>)
      else if c = FC_VALIDATION then
        (if replan_permitted then (recovery_eval RD_REPLAN c [''VALIDATION_CANDIDATE_FOR_REPLAN'']
           ''A VALIDATION failure means the same Action cannot succeed unchanged; a caller-supplied replacement may be proposed.'')
           \<lparr>re_replan_permitted := True\<rparr>
         else recovery_eval RD_STOP c [''REPLAN_BUDGET_EXHAUSTED'']
           (''A VALIDATION failure would normally be a replan candidate, but the plan'' @ [CHR 0x27] @ ''s replan budget is exhausted.''))
      else if c = FC_VERIFICATION then recovery_eval RD_RECONCILE c [''VERIFICATION_MUST_RECONCILE_FIRST'']
        ''A VERIFICATION failure never automatically re-executes; reconciliation establishes the true effect state first.''
      else recovery_eval (default_decision_by_category c) c [''UNKNOWN_NEVER_BLINDLY_RETRIES'']
        ''An UNKNOWN or unmodeled failure category is never retried blindly; reconciliation/human review decides next steps.'')"

section \<open>Failure records\<close>

record failure_record =
  fr_id :: string
  fr_action_id :: string
  fr_plan_id :: string
  fr_execution_attempt_id :: "string option"
  fr_category :: failure_category
  fr_code :: "string option"
  fr_message :: "string option"
  fr_side_effect_occurred :: bool
  fr_retry_safe :: bool
  fr_reconciliation_required :: bool
  fr_retry_count_at_failure :: int
  fr_created_at :: datetime

definition classify_failure :: "execution_result option \<Rightarrow> failure_category \<Rightarrow> failure_category" where
  "classify_failure res fallback = (case res of
     None \<Rightarrow> fallback
   | Some r \<Rightarrow>
       (case Option.bind (er_error_code r) (\<lambda>s. if s = [] then None else executor_failure_code_of s) of
          Some code \<Rightarrow> executor_failure_category code
        | None \<Rightarrow> (case er_error_type r of Some t \<Rightarrow> t | None \<Rightarrow> fallback)))"

definition build_failure_record :: "string \<Rightarrow> datetime \<Rightarrow> action \<Rightarrow> string \<Rightarrow> execution_result option \<Rightarrow> bool \<Rightarrow> bool \<Rightarrow>
    failure_category \<Rightarrow> failure_record" where
  "build_failure_record new_id now a plan_id res retry_safe rec_required fallback =
     \<lparr>fr_id = new_id, fr_action_id = a_id a, fr_plan_id = plan_id,
      fr_execution_attempt_id = Option.bind res er_execution_attempt_id,
      fr_category = classify_failure res fallback, fr_code = Option.bind res er_error_code,
      fr_message = (case (case res of Some r \<Rightarrow> er_error_message r | None \<Rightarrow> a_error a) of
        None \<Rightarrow> None | Some m \<Rightarrow> none_if_empty m),
      fr_side_effect_occurred = (case res of Some r \<Rightarrow> er_side_effect_occurred r | None \<Rightarrow> False),
      fr_retry_safe = retry_safe, fr_reconciliation_required = rec_required,
      fr_retry_count_at_failure = a_retry_count a, fr_created_at = now\<rparr>"

text \<open>The row has the same columns, the category as its value.\<close>

record failure_row =
  fw_id :: string
  fw_action_id :: string
  fw_plan_id :: string
  fw_execution_attempt_id :: "string option"
  fw_category :: string
  fw_code :: "string option"
  fw_message :: "string option"
  fw_side_effect_occurred :: bool
  fw_retry_safe :: bool
  fw_reconciliation_required :: bool
  fw_retry_count_at_failure :: int
  fw_created_at :: datetime

definition failure_record_to_fields :: "failure_record \<Rightarrow> failure_row" where
  "failure_record_to_fields f = \<lparr>fw_id = fr_id f, fw_action_id = fr_action_id f, fw_plan_id = fr_plan_id f,
     fw_execution_attempt_id = fr_execution_attempt_id f, fw_category = failure_category_value (fr_category f),
     fw_code = fr_code f, fw_message = fr_message f, fw_side_effect_occurred = fr_side_effect_occurred f,
     fw_retry_safe = fr_retry_safe f, fw_reconciliation_required = fr_reconciliation_required f,
     fw_retry_count_at_failure = fr_retry_count_at_failure f, fw_created_at = fr_created_at f\<rparr>"

definition row_to_failure_record :: "failure_row \<Rightarrow> load_error + failure_record" where
  "row_to_failure_record r = (case failure_category_of (fw_category r) of
     None \<Rightarrow> Inl (NotEnumMember (fw_category r))
   | Some c \<Rightarrow> Inr \<lparr>fr_id = fw_id r, fr_action_id = fw_action_id r, fr_plan_id = fw_plan_id r,
       fr_execution_attempt_id = fw_execution_attempt_id r, fr_category = c, fr_code = fw_code r,
       fr_message = fw_message r, fr_side_effect_occurred = fw_side_effect_occurred r,
       fr_retry_safe = fw_retry_safe r, fr_reconciliation_required = fw_reconciliation_required r,
       fr_retry_count_at_failure = fw_retry_count_at_failure r, fr_created_at = fw_created_at r\<rparr>)"

section \<open>Retry controller\<close>

definition retry_reentry_sources :: "action_status list" where
  "retry_reentry_sources = [AS_FAILED, AS_EXECUTING, AS_APPROVED]"

datatype retry_error =
    RetryNotEligibleError string action_status
  | RetryBudgetExhaustedError string int int
  | RetryStaleVersionError string int
  | RetryReload load_error

definition is_retry_exhausted :: "action \<Rightarrow> bool" where
  "is_retry_exhausted a = (a_max_retries a \<le> a_retry_count a)"

definition retry_fields :: "action_row \<Rightarrow> action_row \<Rightarrow> action_row" where
  "retry_fields row r = r\<lparr>ro_status := AS_VALIDATED, ro_retry_count := ro_retry_count row + 1, ro_last_error := None,
     ro_started_at := None, ro_completed_at := None\<rparr>"

text \<open>The row read earlier is \<open>row\<close>; the table may have moved on since. A row that vanished after the
  write cannot occur (nothing deletes one); the model reports it as a stale version.\<close>

definition authorize_retry :: "action_row list \<Rightarrow> action_row \<Rightarrow> retry_error + action_row list \<times> action" where
  "authorize_retry t row =
     (if ro_status row \<notin> set retry_reentry_sources then Inl (RetryNotEligibleError (ro_id row) (ro_status row))
      else if ro_max_retries row \<le> ro_retry_count row
        then Inl (RetryBudgetExhaustedError (ro_id row) (ro_retry_count row) (ro_max_retries row))
      else (case action_update t (ro_id row) (ro_version row) (retry_fields row) of
          (False, _) \<Rightarrow> Inl (RetryStaleVersionError (ro_id row) (ro_version row))
        | (True, t') \<Rightarrow>
            (case action_get t' (ro_id row) of
               None \<Rightarrow> Inl (RetryStaleVersionError (ro_id row) (ro_version row))
             | Some r \<Rightarrow> (case record_to_action r of Inl e \<Rightarrow> Inl (RetryReload e) | Inr a \<Rightarrow> Inr (t', a)))))"

section \<open>Lemmas\<close>

lemmas recovery_defs = evaluate_recovery_def recovery_eval_def

lemma recovery_retry_iff: "re_decision (evaluate_recovery c se rc mr ap rp) = RD_RETRY \<longleftrightarrow>
    c \<in> {FC_TRANSIENT, FC_TOOL} \<and> \<not> se \<and> rc < mr \<and> \<not> ap"
  by (cases c) (auto simp: recovery_defs)

lemma retry_fields_id [simp]: "ro_id (retry_fields row r) = ro_id r"
  by (simp add: retry_fields_def)

lemma authorize_retry_OkD:
  assumes "authorize_retry t row = Inr (t', a)"
  shows "ro_status row \<in> set retry_reentry_sources" "ro_retry_count row < ro_max_retries row"
    "action_update t (ro_id row) (ro_version row) (retry_fields row) = (True, t')"
    "\<exists>r. action_get t (ro_id row) = Some r \<and> ro_version r = ro_version row \<and>
       action_get t' (ro_id row) = Some ((retry_fields row r)\<lparr>ro_version := ro_version row + 1\<rparr>) \<and>
       record_to_action ((retry_fields row r)\<lparr>ro_version := ro_version row + 1\<rparr>) = Inr a"
proof -
  from assms show *: "ro_status row \<in> set retry_reentry_sources" "ro_retry_count row < ro_max_retries row"
    "action_update t (ro_id row) (ro_version row) (retry_fields row) = (True, t')"
    by (auto simp: authorize_retry_def split: if_splits prod.splits bool.splits option.splits sum.splits)
  have ok: "fst (action_update t (ro_id row) (ro_version row) (retry_fields row))" using *(3) by simp
  then obtain r where r: "action_get t (ro_id row) = Some r" "ro_version r = ro_version row"
    by (auto simp: action_store.cas_ok_iff)
  have "action_get t' (ro_id row) = Some ((retry_fields row r)\<lparr>ro_version := ro_version row + 1\<rparr>)"
    using action_store.cas_get [OF ok, of "ro_id row"] *(3) r by simp
  then show "\<exists>r. action_get t (ro_id row) = Some r \<and> ro_version r = ro_version row \<and>
       action_get t' (ro_id row) = Some ((retry_fields row r)\<lparr>ro_version := ro_version row + 1\<rparr>) \<and>
       record_to_action ((retry_fields row r)\<lparr>ro_version := ro_version row + 1\<rparr>) = Inr a"
    using assms * r by (auto simp: authorize_retry_def split: sum.splits)
qed

lemma record_to_action_fields: "record_to_action r = Inr a \<Longrightarrow> a_id a = ro_id r \<and> a_status a = ro_status r \<and>
    a_retry_count a = ro_retry_count r \<and> a_max_retries a = ro_max_retries r \<and> a_error a = ro_last_error r"
  by (auto simp: record_to_action_def bind_sum_InrE)

section \<open>Properties\<close>

text \<open>Automatic retry is exactly as narrow as documented. The policy decides \<open>RETRY\<close> if and only if the
  failure is transient or a tool's, no side effect occurred, retries remain and no approval is required;
  it permits a replan only for a validation failure without approval; a security failure always blocks;
  and the permission flags agree with the decision. It never retries a category \<open>retry_policy\<close> calls
  non-retryable.\<close>

theorem recovery_policy_exact:
  "(re_decision (evaluate_recovery c se rc mr ap rp) = RD_RETRY \<longleftrightarrow>
      c \<in> {FC_TRANSIENT, FC_TOOL} \<and> \<not> se \<and> rc < mr \<and> \<not> ap) \<and>
   (re_decision (evaluate_recovery c se rc mr ap rp) = RD_REPLAN \<longleftrightarrow> c = FC_VALIDATION \<and> rp \<and> \<not> ap) \<and>
   (re_decision (evaluate_recovery c se rc mr ap rp) = RD_SECURITY_BLOCKED \<longleftrightarrow> c = FC_SECURITY) \<and>
   re_retry_permitted (evaluate_recovery c se rc mr ap rp) =
     (re_decision (evaluate_recovery c se rc mr ap rp) = RD_RETRY) \<and>
   re_replan_permitted (evaluate_recovery c se rc mr ap rp) =
     (re_decision (evaluate_recovery c se rc mr ap rp) = RD_REPLAN) \<and>
   (if is_potentially_retryable c then c \<notin> set never_retryable
    else c \<in> set never_retryable \<and> re_decision (evaluate_recovery c se rc mr ap rp) \<noteq> RD_RETRY)"
proof -
  have "re_decision (evaluate_recovery c se rc mr ap rp) = RD_REPLAN \<longleftrightarrow> c = FC_VALIDATION \<and> rp \<and> \<not> ap"
    by (cases c) (auto simp: recovery_defs)
  moreover have "re_decision (evaluate_recovery c se rc mr ap rp) = RD_SECURITY_BLOCKED \<longleftrightarrow> c = FC_SECURITY"
    by (cases c) (auto simp: recovery_defs)
  moreover have "re_retry_permitted (evaluate_recovery c se rc mr ap rp) =
      (re_decision (evaluate_recovery c se rc mr ap rp) = RD_RETRY)"
    by (cases c) (auto simp: recovery_defs)
  moreover have "re_replan_permitted (evaluate_recovery c se rc mr ap rp) =
      (re_decision (evaluate_recovery c se rc mr ap rp) = RD_REPLAN)"
    by (cases c) (auto simp: recovery_defs)
  moreover have "if is_potentially_retryable c then c \<notin> set never_retryable
     else c \<in> set never_retryable \<and> re_decision (evaluate_recovery c se rc mr ap rp) \<noteq> RD_RETRY"
    unfolding recovery_retry_iff
    by (cases c) (auto simp: is_potentially_retryable_def potentially_retryable_def never_retryable_def)
  ultimately show ?thesis unfolding recovery_retry_iff by blast
qed

text \<open>A retry is durable, bounded and won by one caller. If \<open>authorize_retry\<close> returns, the row was in a
  re-entry status with retries left and unchanged since it was read; afterwards it is \<open>VALIDATED\<close>, one
  version up, its retry count one higher and still within the maximum, its error and times cleared, and
  the returned action shows that; another caller holding the same row gets an error.\<close>

theorem retry_authorization_bounded:
  assumes "authorize_retry t row = Inr (t', a)"
  shows "ro_status row \<in> {AS_FAILED, AS_EXECUTING, AS_APPROVED} \<and>
    (\<exists>r'. action_get t' (ro_id row) = Some r' \<and> ro_version r' = ro_version row + 1 \<and> ro_status r' = AS_VALIDATED \<and>
       ro_retry_count r' = ro_retry_count row + 1 \<and> ro_retry_count r' \<le> ro_max_retries row \<and>
       ro_last_error r' = None \<and> ro_started_at r' = None \<and> record_to_action r' = Inr a) \<and>
    a_status a = AS_VALIDATED \<and> a_retry_count a = ro_retry_count row + 1 \<and> a_error a = None \<and>
    \<not> is_ok (authorize_retry t' row)"
proof -
  note ok = authorize_retry_OkD [OF assms]
  obtain r where r: "action_get t' (ro_id row) = Some ((retry_fields row r)\<lparr>ro_version := ro_version row + 1\<rparr>)"
    "record_to_action ((retry_fields row r)\<lparr>ro_version := ro_version row + 1\<rparr>) = Inr a" using ok(4) by blast
  have "\<not> fst (action_update t' (ro_id row) (ro_version row) (retry_fields row))"
    using action_store.second_writer_loses [of t "ro_id row" "ro_version row" "retry_fields row"] ok(3) by simp
  then have "\<not> is_ok (authorize_retry t' row)"
    using ok(1,2) by (auto simp: authorize_retry_def split: prod.splits bool.splits)
  then show ?thesis using r ok(1,2) record_to_action_fields [OF r(2)]
    by (auto simp: retry_fields_def retry_reentry_sources_def)
qed

definition failed_row :: action_row where
  "failed_row = sample_row\<lparr>ro_status := AS_FAILED\<rparr>"

lemma failed_row_facts: "ro_retry_count failed_row = 0" "ro_max_retries failed_row = 3" "ro_id failed_row = ''a1''"
    "ro_status failed_row = AS_FAILED" "ro_version failed_row = 1"
  using sample_row_stored action_to_record_fields_OkD [of sample_action sample_row] by (simp_all add: failed_row_def sample_action_def)

lemma failed_row_retried:
  obtains a where "authorize_retry [failed_row] failed_row = Inr ([(retry_fields failed_row failed_row)\<lparr>ro_version := 2\<rparr>], a)"
proof -
  note f = failed_row_facts
  obtain b where b: "record_to_action sample_row = Inr b"
    using record_to_action_roundtrip [OF sample_action_persistable] sample_row_stored by auto
  let ?r = "(retry_fields failed_row failed_row)\<lparr>ro_version := 2\<rparr>"
  have "is_ok (record_to_action ?r)"
    using b by (auto simp: record_to_action_def bind_sum_InrE retry_fields_def failed_row_def)
  then obtain a where a: "record_to_action ?r = Inr a" by (auto simp: is_ok_iff)
  have "action_update [failed_row] ''a1'' 1 (retry_fields failed_row) = (True, [?r])"
    by (simp add: action_update_def tbl_vcas_def tbl_cas_def tbl_get_Cons tbl_upd_def f)
  then have "authorize_retry [failed_row] failed_row = Inr ([?r], a)"
    using a by (simp add: authorize_retry_def f retry_reentry_sources_def action_get_def tbl_get_Cons retry_fields_id)
  then show thesis by (rule that)
qed

theorem retry_authorization_bounded_witness:
  "\<exists>t' a. authorize_retry [failed_row] failed_row = Inr (t', a) \<and> a_status a = AS_VALIDATED \<and> a_retry_count a = 1"
proof -
  obtain a where "authorize_retry [failed_row] failed_row = Inr ([(retry_fields failed_row failed_row)\<lparr>ro_version := 2\<rparr>], a)"
    by (rule failed_row_retried)
  from retry_authorization_bounded [OF this] this failed_row_facts show ?thesis by auto
qed

text \<open>Classification is by typed code. A known executor code decides the category whatever else the
  result says; a failure record survives storage; and a sandbox violation, which maps to \<open>SECURITY\<close>, is
  never retried, replanned or reconciled automatically.\<close>

theorem failure_classification_typed:
  "classify_failure (Some (r\<lparr>er_error_code := Some (executor_failure_code_value code)\<rparr>)) fb =
     executor_failure_category code \<and>
   row_to_failure_record (failure_record_to_fields f) = Inr f \<and>
   fr_category (build_failure_record i now a p (Some (r\<lparr>er_error_code := Some ''SANDBOX_VIOLATION''\<rparr>)) rs rq fb)
     = FC_SECURITY \<and>
   re_decision (evaluate_recovery FC_SECURITY se rc mr ap rp) = RD_SECURITY_BLOCKED"
proof -
  have "executor_failure_code_value c \<noteq> []" for c by (cases c) simp_all
  then have code: "classify_failure (Some (r\<lparr>er_error_code := Some (executor_failure_code_value code)\<rparr>)) fb =
      executor_failure_category code" for code
    by (simp add: classify_failure_def)
  show ?thesis using code [of code] code [of EC_SANDBOX_VIOLATION]
    by (simp add: build_failure_record_def row_to_failure_record_def failure_record_to_fields_def recovery_defs)
qed

end
