(* ===== verification/Budget.thy ===== *)
theory Budget
  imports Keyed_Table Interleaving
begin

text \<open>
  \<open>app/decision_intelligence/budget.py\<close> with \<open>BudgetAccountRepository\<close> and \<open>BudgetEventRepository\<close> of
  \<open>app/database/repositories.py\<close>. \<open>reserve_and_consume\<close> awaits the database several times, and other
  callers may run in between, so a call is a small state machine: \<open>caller_step\<close> performs one awaited
  repository call and the Python up to the next one. \<open>reserve_and_consume\<close> runs one caller alone;
  \<open>budget_system\<close> interleaves any number of callers in any order. Amounts are binary64 floats. Each
  result's reason is a constructor carrying the values the text is formatted from.
\<close>

section \<open>Rows and repositories\<close>

datatype budget_scope = SCOPE_ACTION | SCOPE_PLAN

datatype budget_type = ACTION_ATTEMPTS | RETRIES | REPLANS | MODEL_CALLS | ESTIMATED_COST

datatype budget_account_status = BA_ACTIVE | BA_EXHAUSTED | BA_CANCELLED

record budget_account =
  ba_id :: string
  ba_scope :: "budget_scope \<times> string \<times> budget_type"
  ba_limit :: py_float
  ba_consumed :: py_float
  ba_status :: budget_account_status
  ba_version :: int

record budget_event =
  be_account_id :: string
  be_key :: string
  be_delta :: py_float
  be_applied :: bool
  be_reason :: string
  be_created_at :: datetime

record budget_db =
  b_accounts :: "budget_account list"
  b_events :: "budget_event list"

definition budget_get_by_scope :: "budget_account list \<Rightarrow> budget_scope \<times> string \<times> budget_type \<Rightarrow> budget_account option" where
  "budget_get_by_scope t sc = tbl_get ba_scope t sc"

definition budget_get :: "budget_account list \<Rightarrow> string \<Rightarrow> budget_account option" where
  "budget_get t i = tbl_get ba_id t i"

text \<open>Get-or-create: losing the INSERT race yields the winner's row, so the effect is that of one step.\<close>

definition budget_ensure :: "budget_account list \<Rightarrow> string \<Rightarrow> budget_scope \<times> string \<times> budget_type \<Rightarrow> py_float \<Rightarrow>
    budget_account \<times> budget_account list" where
  "budget_ensure t new_id sc lmt = (case budget_get_by_scope t sc of
     Some a \<Rightarrow> (a, t)
   | None \<Rightarrow> (let a = \<lparr>ba_id = new_id, ba_scope = sc, ba_limit = lmt, ba_consumed = Fin 0,
                  ba_status = BA_ACTIVE, ba_version = 1\<rparr> in (a, t @ [a])))"

definition budget_update :: "budget_account list \<Rightarrow> string \<Rightarrow> int \<Rightarrow> (budget_account \<Rightarrow> budget_account) \<Rightarrow>
    bool \<times> budget_account list" where
  "budget_update t i expected f = tbl_vcas ba_id ba_version (\<lambda>n a. a\<lparr>ba_version := n\<rparr>) t i expected f"

definition event_claim :: "budget_event list \<Rightarrow> budget_event \<Rightarrow> budget_event list option" where
  "event_claim t e = tbl_insert be_key t e"

definition event_get_by_key :: "budget_event list \<Rightarrow> string \<Rightarrow> budget_event option" where
  "event_get_by_key t k = tbl_get be_key t k"

definition event_list_for_account :: "budget_event list \<Rightarrow> string \<Rightarrow> budget_event list" where
  "event_list_for_account t i = sort_key be_created_at (filter (\<lambda>e. be_account_id e = i) t)"

definition get_remaining :: "budget_account list \<Rightarrow> budget_scope \<times> string \<times> budget_type \<Rightarrow> py_float option" where
  "get_remaining t sc = (case budget_get_by_scope t sc of
     None \<Rightarrow> None | Some a \<Rightarrow> Some (float_sub (ba_limit a) (ba_consumed a)))"

section \<open>A call, one await at a time\<close>

definition max_cas_attempts :: nat where
  "max_cas_attempts = 5"

record budget_request =
  bq_scope :: "budget_scope \<times> string \<times> budget_type"
  bq_amount :: py_float
  bq_key :: string
  bq_reason :: string
  bq_default_limit :: "py_float option"
  bq_new_id :: string
  bq_now :: datetime

datatype budget_reason = Replayed | Unlimited | Would_Exceed py_float py_float | Replayed_Concurrent | Given string

record budget_result =
  bc_granted :: bool
  bc_scope :: "budget_scope \<times> string \<times> budget_type"
  bc_limit :: py_float
  bc_consumed :: py_float
  bc_remaining :: py_float
  bc_status :: budget_account_status
  bc_replayed :: bool
  bc_reason :: budget_reason

datatype budget_error = BudgetConcurrencyError string | AccountMissing string | EventMissing string

datatype caller =
    B_Start
  | B_Replay budget_event
  | B_Lookup
  | B_Ensure py_float
  | B_Read string nat
  | B_Refuse budget_account
  | B_Charge budget_account nat
  | B_Record budget_account
  | B_Undo budget_account
  | B_Winner string
  | B_Refresh string budget_event
  | B_Done "budget_error + budget_result"

definition account_result :: "budget_request \<Rightarrow> bool \<Rightarrow> budget_account \<Rightarrow> bool \<Rightarrow> budget_reason \<Rightarrow> budget_result" where
  "account_result q granted a replayed reason = \<lparr>bc_granted = granted, bc_scope = bq_scope q, bc_limit = ba_limit a,
     bc_consumed = ba_consumed a, bc_remaining = float_sub (ba_limit a) (ba_consumed a),
     bc_status = ba_status a, bc_replayed = replayed, bc_reason = reason\<rparr>"

definition request_event :: "budget_request \<Rightarrow> string \<Rightarrow> bool \<Rightarrow> budget_event" where
  "request_event q acc applied = \<lparr>be_account_id = acc, be_key = bq_key q, be_delta = bq_amount q,
     be_applied = applied, be_reason = bq_reason q, be_created_at = bq_now q\<rparr>"

definition charged :: "budget_request \<Rightarrow> budget_account \<Rightarrow> budget_account" where
  "charged q a = (let c = float_add (ba_consumed a) (bq_amount q) in
     a\<lparr>ba_consumed := c, ba_status := (if float_le (ba_limit a) c then BA_EXHAUSTED else BA_ACTIVE)\<rparr>)"

fun caller_step :: "budget_request \<Rightarrow> budget_db \<Rightarrow> caller \<Rightarrow> budget_db \<times> caller" where
  "caller_step q db B_Start = (db, case event_get_by_key (b_events db) (bq_key q) of
     Some e \<Rightarrow> B_Replay e | None \<Rightarrow> B_Lookup)"
| "caller_step q db (B_Replay e) = (db, B_Done (case budget_get (b_accounts db) (be_account_id e) of
     None \<Rightarrow> Inl (AccountMissing (be_account_id e))
   | Some a \<Rightarrow> Inr (account_result q (be_applied e) a True Replayed)))"
| "caller_step q db B_Lookup = (db, case budget_get_by_scope (b_accounts db) (bq_scope q) of
     Some a \<Rightarrow> B_Read (ba_id a) max_cas_attempts
   | None \<Rightarrow> (case bq_default_limit q of
        Some lmt \<Rightarrow> B_Ensure lmt
      | None \<Rightarrow> B_Done (Inr \<lparr>bc_granted = True, bc_scope = bq_scope q, bc_limit = PInf, bc_consumed = Fin 0,
          bc_remaining = PInf, bc_status = BA_ACTIVE, bc_replayed = False, bc_reason = Unlimited\<rparr>)))"
| "caller_step q db (B_Ensure lmt) = (let (a, t) = budget_ensure (b_accounts db) (bq_new_id q) (bq_scope q) lmt
     in (db\<lparr>b_accounts := t\<rparr>, B_Read (ba_id a) max_cas_attempts))"
| "caller_step q db (B_Read i 0) = (db, B_Done (Inl (BudgetConcurrencyError i)))"
| "caller_step q db (B_Read i (Suc n)) = (db, case budget_get (b_accounts db) i of
     None \<Rightarrow> B_Done (Inl (AccountMissing i))
   | Some fresh \<Rightarrow>
       if float_gt (float_add (ba_consumed fresh) (bq_amount q)) (ba_limit fresh) then B_Refuse fresh
       else B_Charge fresh n)"
| "caller_step q db (B_Refuse fresh) =
     (case event_claim (b_events db) (request_event q (ba_id fresh) False) of
        Some t \<Rightarrow> db\<lparr>b_events := t\<rparr> | None \<Rightarrow> db,
      B_Done (Inr ((account_result q False fresh False (Would_Exceed (bq_amount q) (ba_limit fresh)))
        \<lparr>bc_status := BA_EXHAUSTED\<rparr>)))"
| "caller_step q db (B_Charge fresh n) =
     (let c = charged q fresh in
      case budget_update (b_accounts db) (ba_id fresh) (ba_version fresh)
             (\<lambda>a. a\<lparr>ba_consumed := ba_consumed c, ba_status := ba_status c\<rparr>) of
        (True, t) \<Rightarrow> (db\<lparr>b_accounts := t\<rparr>, B_Record fresh)
      | (False, _) \<Rightarrow> (db, B_Read (ba_id fresh) n))"
| "caller_step q db (B_Record fresh) =
     (case event_claim (b_events db) (request_event q (ba_id fresh) True) of
        Some t \<Rightarrow> (db\<lparr>b_events := t\<rparr>,
          B_Done (Inr (account_result q True (charged q fresh) False (Given (bq_reason q)))))
      | None \<Rightarrow> (db, B_Undo fresh))"
| "caller_step q db (B_Undo fresh) =
     (db\<lparr>b_accounts := snd (budget_update (b_accounts db) (ba_id fresh) (ba_version fresh + 1)
         (\<lambda>a. a\<lparr>ba_consumed := ba_consumed fresh, ba_status := ba_status fresh\<rparr>))\<rparr>,
      B_Winner (ba_id fresh))"
| "caller_step q db (B_Winner i) = (db, case event_get_by_key (b_events db) (bq_key q) of
     None \<Rightarrow> B_Done (Inl (EventMissing (bq_key q))) | Some e \<Rightarrow> B_Refresh i e)"
| "caller_step q db (B_Refresh i e) = (db, B_Done (case budget_get (b_accounts db) i of
     None \<Rightarrow> Inl (AccountMissing i)
   | Some a \<Rightarrow> Inr (account_result q (be_applied e) a True Replayed_Concurrent)))"
| "caller_step q db (B_Done r) = (db, B_Done r)"

section \<open>One caller alone\<close>

fun caller_rank :: "caller \<Rightarrow> nat" where
  "caller_rank (B_Done _) = 0"
| "caller_rank (B_Refresh _ _) = 1"
| "caller_rank (B_Winner _) = 2"
| "caller_rank (B_Undo _) = 3"
| "caller_rank (B_Record _) = 4"
| "caller_rank (B_Refuse _) = 1"
| "caller_rank (B_Replay _) = 1"
| "caller_rank (B_Charge _ n) = 6 + 2 * n"
| "caller_rank (B_Read _ n) = 5 + 2 * n"
| "caller_rank (B_Ensure _) = 16"
| "caller_rank B_Lookup = 17"
| "caller_rank B_Start = 18"

fun run_caller :: "nat \<Rightarrow> budget_request \<Rightarrow> budget_db \<Rightarrow> caller \<Rightarrow> budget_db \<times> caller" where
  "run_caller 0 q db c = (db, c)"
| "run_caller (Suc n) q db c = (let (db', c') = caller_step q db c in run_caller n q db' c')"

definition reserve_and_consume :: "budget_request \<Rightarrow> budget_db \<Rightarrow> budget_db \<times> (budget_error + budget_result) option" where
  "reserve_and_consume q db = (case run_caller 18 q db B_Start of
     (db', B_Done r) \<Rightarrow> (db', Some r) | (db', _) \<Rightarrow> (db', None))"

section \<open>Any number of callers\<close>

type_synonym budget_state = "budget_db \<times> (budget_request \<times> caller) list"

abbreviation budget_schedule :: "nat \<Rightarrow> budget_state \<Rightarrow> budget_state" where
  "budget_schedule \<equiv> schedule caller_step"

abbreviation budget_system :: "budget_state \<Rightarrow> budget_state \<Rightarrow> bool" where
  "budget_system \<equiv> interleaved caller_step"

section \<open>Lemmas\<close>

interpretation budget_store: versioned_store
  budget_get ba_version "\<lambda>n a. a\<lparr>ba_version := n\<rparr>" budget_update "\<lambda>f. \<forall>a. ba_id (f a) = ba_id a"
proof -
  have [simp]: "budget_get = tbl_get ba_id"
    "budget_update = tbl_vcas ba_id ba_version (\<lambda>n a. a\<lparr>ba_version := n\<rparr>)"
    by (simp_all add: fun_eq_iff budget_get_def budget_update_def)
  show "versioned_store budget_get ba_version (\<lambda>n a. a\<lparr>ba_version := n\<rparr>) budget_update (\<lambda>f. \<forall>a. ba_id (f a) = ba_id a)"
    by (simp add: tbl_vcas_versioned)
qed

lemma caller_step_rank: "caller_rank c \<noteq> 0 \<Longrightarrow> caller_rank (snd (caller_step q db c)) < caller_rank c"
  by (cases "(q, db, c)" rule: caller_step.cases)
     (auto simp: max_cas_attempts_def Let_def split: option.splits prod.splits bool.splits)

lemma run_caller_done: "caller_rank c \<le> n \<Longrightarrow> \<exists>db' r. run_caller n q db c = (db', B_Done r)"
proof (induction n arbitrary: db c)
  case 0
  then show ?case by (cases c) auto
next
  case (Suc n)
  have "caller_rank (snd (caller_step q db c)) \<le> n"
  proof (cases "caller_rank c = 0")
    case True
    then show ?thesis by (cases c) simp_all
  next
    case False
    then show ?thesis using caller_step_rank [OF False, of q db] Suc.prems by linarith
  qed
  then show ?case using Suc.IH [of "snd (caller_step q db c)" "fst (caller_step q db c)"]
    by (simp add: case_prod_beta)
qed

lemma reserve_and_consume_returns: "\<exists>db' r. reserve_and_consume q db = (db', Some r)"
  using run_caller_done [of B_Start 18 q db] by (auto simp: reserve_and_consume_def)

subsection \<open>The limit invariant\<close>

definition within_limit :: "budget_account \<Rightarrow> bool" where
  "within_limit a = (ba_consumed a \<noteq> NaN \<and> float_le (ba_consumed a) (ba_limit a))"

definition sane_request :: "budget_request \<Rightarrow> bool" where
  "sane_request q = ((\<exists>x. bq_amount q = Fin x) \<and>
     (case bq_default_limit q of None \<Rightarrow> True | Some l \<Rightarrow> float_le (Fin 0) l))"

text \<open>A row a caller still holds: within its limit, and its account still exists with the same limit.\<close>

definition held_ok :: "budget_account list \<Rightarrow> budget_account \<Rightarrow> bool" where
  "held_ok t a = (within_limit a \<and> map_option ba_limit (budget_get t (ba_id a)) = Some (ba_limit a))"

fun caller_ok :: "budget_request \<Rightarrow> budget_account list \<Rightarrow> caller \<Rightarrow> bool" where
  "caller_ok q t (B_Charge a n) = (held_ok t a \<and> within_limit (charged q a))"
| "caller_ok q t (B_Record a) = held_ok t a"
| "caller_ok q t (B_Undo a) = held_ok t a"
| "caller_ok q t (B_Ensure l) = float_le (Fin 0) l"
| "caller_ok q t _ = True"

definition all_within :: "budget_account list \<Rightarrow> bool" where
  "all_within t = (\<forall>i a. budget_get t i = Some a \<longrightarrow> within_limit a)"

text \<open>Limits never change and accounts never disappear.\<close>

definition limits_kept :: "budget_account list \<Rightarrow> budget_account list \<Rightarrow> bool" where
  "limits_kept t t' = (\<forall>i a. budget_get t i = Some a \<longrightarrow> (\<exists>a'. budget_get t' i = Some a' \<and> ba_limit a' = ba_limit a))"

lemma limits_kept_refl [simp]: "limits_kept t t"
  by (simp add: limits_kept_def)

lemma limits_kept_trans: "limits_kept t u \<Longrightarrow> limits_kept u v \<Longrightarrow> limits_kept t v"
  unfolding limits_kept_def by metis

lemma held_ok_kept: "held_ok t a \<Longrightarrow> limits_kept t t' \<Longrightarrow> held_ok t' a"
  unfolding held_ok_def limits_kept_def by force

lemma caller_ok_kept: "caller_ok q t c \<Longrightarrow> limits_kept t t' \<Longrightarrow> caller_ok q t' c"
  by (cases c) (auto intro: held_ok_kept)

lemma not_NaN_le: "float_le x y \<Longrightarrow> x \<noteq> NaN \<and> y \<noteq> NaN"
  by (cases x; cases y) auto

lemma float_add_Fin_not_NaN: "x \<noteq> NaN \<Longrightarrow> float_add x (Fin a) \<noteq> NaN"
  by (cases x) (simp_all add: round64_def Let_def)

lemma charged_within:
  assumes "within_limit a" "sane_request q" "\<not> float_gt (float_add (ba_consumed a) (bq_amount q)) (ba_limit a)"
  shows "within_limit (charged q a)"
proof -
  obtain x where x: "bq_amount q = Fin x" using assms(2) by (auto simp: sane_request_def)
  have "float_add (ba_consumed a) (Fin x) \<noteq> NaN" "ba_limit a \<noteq> NaN"
    using assms(1) float_add_Fin_not_NaN not_NaN_le by (auto simp: within_limit_def)
  then show ?thesis using assms(3) float_not_gt x by (simp add: within_limit_def charged_def Let_def)
qed

lemma budget_update_keeps:
  assumes "all_within t" "within_limit c" "map_option ba_limit (budget_get t i) = Some (ba_limit c)"
    and "budget_update t i v (\<lambda>a. a\<lparr>ba_consumed := ba_consumed c, ba_status := st\<rparr>) = (b, t')"
  shows "all_within t' \<and> limits_kept t t'"
proof (cases b)
  case True
  let ?f = "\<lambda>a. a\<lparr>ba_consumed := ba_consumed c, ba_status := st\<rparr>"
  have "fst (budget_update t i v ?f)" using assms(4) True by simp
  then have g: "budget_get t' j = (if j = i then map_option (\<lambda>a. (?f a)\<lparr>ba_version := v + 1\<rparr>) (budget_get t i)
      else budget_get t j)" for j
    using budget_store.cas_get [of t i v ?f j] assms(4) by simp
  show ?thesis using assms(1-3) by (auto simp: g all_within_def limits_kept_def within_limit_def)
next
  case False
  then have "t' = t" using budget_store.cas_fail [of t i v "\<lambda>a. a\<lparr>ba_consumed := ba_consumed c, ba_status := st\<rparr>"] assms(4) by simp
  then show ?thesis using assms(1) by simp
qed

lemma budget_get_append: "budget_get (t @ [a]) i = (case budget_get t i of None \<Rightarrow> if ba_id a = i then Some a else None | r \<Rightarrow> r)"
  by (simp add: budget_get_def tbl_get_append tbl_get_Cons split: option.split)

lemma budget_ensure_keeps:
  assumes "all_within t" "float_le (Fin 0) l" "budget_ensure t i sc l = (a, t')"
  shows "all_within t' \<and> limits_kept t t'"
  using assms
  by (auto simp: budget_ensure_def Let_def all_within_def limits_kept_def budget_get_append within_limit_def
      split: option.splits if_splits)

lemma caller_step_inv:
  assumes "all_within (b_accounts db)" "caller_ok q (b_accounts db) c" "sane_request q"
    and "caller_step q db c = (db', c')"
  shows "all_within (b_accounts db') \<and> limits_kept (b_accounts db) (b_accounts db') \<and> caller_ok q (b_accounts db') c'"
proof (cases "(q, db, c)" rule: caller_step.cases)
  case (4 q' db0 l)
  then show ?thesis using assms budget_ensure_keeps [of "b_accounts db" l "bq_new_id q" "bq_scope q"]
    by (auto simp: split: prod.splits)
next
  case (6 q' db0 i n)
  have id: "ba_id a = i" if "budget_get (b_accounts db) i = Some a" for a
    using that by (auto simp: budget_get_def dest: tbl_get_SomeD)
  then show ?thesis using 6 assms charged_within
    by (auto simp: all_within_def held_ok_def split: option.splits if_splits)
next
  case (8 q' db0 a n)
  then have held: "held_ok (b_accounts db) a" "within_limit (charged q a)" using assms(2) by simp_all
  obtain b t where u: "budget_update (b_accounts db) (ba_id a) (ba_version a)
      (\<lambda>r. r\<lparr>ba_consumed := ba_consumed (charged q a), ba_status := ba_status (charged q a)\<rparr>) = (b, t)" by fastforce
  have "all_within t \<and> limits_kept (b_accounts db) t"
    using budget_update_keeps [OF assms(1) held(2) _ u] held(1) by (simp add: held_ok_def charged_def Let_def)
  then show ?thesis using 8 assms(1,4) u held_ok_kept [OF held(1)] by (cases b) auto
next
  case (10 q' db0 a)
  then have held: "held_ok (b_accounts db) a" using assms(2) by simp
  obtain b t where u: "budget_update (b_accounts db) (ba_id a) (ba_version a + 1)
      (\<lambda>r. r\<lparr>ba_consumed := ba_consumed a, ba_status := ba_status a\<rparr>) = (b, t)" by fastforce
  then show ?thesis
    using 10 assms(1,4) budget_update_keeps [OF assms(1) _ _ u] held by (auto simp: held_ok_def)
qed (use assms in \<open>auto simp: sane_request_def split: option.splits\<close>)

interpretation budget_calls: rely_guarantee caller_step
  "\<lambda>q db c. all_within (b_accounts db) \<and> sane_request q \<and> caller_ok q (b_accounts db) c"
  "\<lambda>db db'. (all_within (b_accounts db) \<longrightarrow> all_within (b_accounts db')) \<and> limits_kept (b_accounts db) (b_accounts db')"
proof unfold_locales
  fix q d c d' c'
  assume "all_within (b_accounts d) \<and> sane_request q \<and> caller_ok q (b_accounts d) c" "caller_step q d c = (d', c')"
  then show "((all_within (b_accounts d) \<longrightarrow> all_within (b_accounts d')) \<and> limits_kept (b_accounts d) (b_accounts d')) \<and>
      all_within (b_accounts d') \<and> sane_request q \<and> caller_ok q (b_accounts d') c'"
    using caller_step_inv by blast
qed (use limits_kept_trans caller_ok_kept in \<open>simp, blast+\<close>)

interpretation budget_body: ranked_body caller_step "\<lambda>c. caller_rank c = 0" "measure caller_rank"
  by unfold_locales (simp_all add: caller_step_rank)

subsection \<open>The ledger\<close>

text \<open>What the ledger's applied events charged to an account and what the account counts as consumed, in units.\<close>

fun units :: "py_float \<Rightarrow> rat" where
  "units (Fin x) = x"
| "units _ = 0"

definition ledger_units :: "budget_db \<Rightarrow> string \<Rightarrow> rat" where
  "ledger_units db i = sum_list [units (be_delta e). e \<leftarrow> b_events db, be_applied e \<and> be_account_id e = i]"

definition consumed_units :: "budget_db \<Rightarrow> string \<Rightarrow> rat" where
  "consumed_units db i = (case budget_get (b_accounts db) i of None \<Rightarrow> 0 | Some a \<Rightarrow> units (ba_consumed a))"

text \<open>Whole amounts up to \<open>2\<^sup>5\<^sup>2\<close>, whose sums the floats hold exactly.\<close>

definition whole :: "py_float \<Rightarrow> bool" where
  "whole x = (\<exists>n :: nat. x = Fin (of_nat n) \<and> n \<le> 2 ^ 52)"

definition whole_accounts :: "budget_account list \<Rightarrow> bool" where
  "whole_accounts t = (\<forall>i a. budget_get t i = Some a \<longrightarrow> whole (ba_consumed a) \<and> whole (ba_limit a))"

definition whole_request :: "budget_request \<Rightarrow> bool" where
  "whole_request q = (whole (bq_amount q) \<and> (case bq_default_limit q of None \<Rightarrow> True | Some l \<Rightarrow> whole l))"

text \<open>A row changes only with its version.\<close>

definition newer :: "budget_account list \<Rightarrow> budget_account list \<Rightarrow> bool" where
  "newer t t' = (\<forall>i a. budget_get t i = Some a \<longrightarrow> (\<exists>a'. budget_get t' i = Some a' \<and> (a' = a \<or> ba_version a < ba_version a')))"

text \<open>What a caller knows of the row it holds: while the version is the one it read, or the one its own charge wrote, the stored
  row has the consumption that follows from it.\<close>

definition row_known :: "budget_account list \<Rightarrow> string \<Rightarrow> int \<Rightarrow> py_float \<Rightarrow> bool" where
  "row_known t i v c = (\<exists>row. budget_get t i = Some row \<and> v \<le> ba_version row \<and> (ba_version row = v \<longrightarrow> ba_consumed row = c))"

definition chargeable :: "budget_request \<Rightarrow> budget_account \<Rightarrow> bool" where
  "chargeable q a = (whole (ba_consumed a) \<and> whole (ba_limit a) \<and> units (ba_consumed a) + units (bq_amount q) \<le> units (ba_limit a))"

fun caller_knows :: "budget_request \<Rightarrow> budget_account list \<Rightarrow> caller \<Rightarrow> bool" where
  "caller_knows q t (B_Charge a n) = (chargeable q a \<and> row_known t (ba_id a) (ba_version a) (ba_consumed a))"
| "caller_knows q t (B_Record a) =
     (chargeable q a \<and> row_known t (ba_id a) (ba_version a + 1) (Fin (units (ba_consumed a) + units (bq_amount q))))"
| "caller_knows q t (B_Undo a) =
     (chargeable q a \<and> row_known t (ba_id a) (ba_version a + 1) (Fin (units (ba_consumed a) + units (bq_amount q))))"
| "caller_knows q t (B_Ensure l) = whole l"
| "caller_knows q t _ = True"

text \<open>A charge that is not in the ledger yet, or about to be taken back.\<close>

fun pending_units :: "string \<Rightarrow> budget_request \<times> caller \<Rightarrow> rat" where
  "pending_units i (q, B_Record a) = (if ba_id a = i then units (bq_amount q) else 0)"
| "pending_units i (q, B_Undo a) = (if ba_id a = i then units (bq_amount q) else 0)"
| "pending_units i _ = 0"

lemma wholeE: "whole x \<Longrightarrow> (\<And>n. x = Fin (of_nat n) \<Longrightarrow> n \<le> 2 ^ 52 \<Longrightarrow> P) \<Longrightarrow> P"
  by (auto simp: whole_def)

lemma whole_units: "whole x \<Longrightarrow> x = Fin (units x) \<and> 0 \<le> units x"
  by (erule wholeE) simp

lemma whole_add: "whole x \<Longrightarrow> whole y \<Longrightarrow> float_add x y = Fin (units x + units y)"
proof -
  assume "whole x" "whole y"
  then obtain m n where n: "x = Fin (of_nat m)" "m \<le> 2 ^ 52" "y = Fin (of_nat n)" "n \<le> 2 ^ 52" by (elim wholeE) blast
  then have "m + n \<le> 2 ^ 53" by simp
  then show ?thesis using round64_whole [of "m + n"] by (simp only: n float_add.simps units.simps of_nat_add)
qed

lemma whole_sum:
  assumes "whole x" "whole y" "whole z" "units x + units y \<le> units z"
  shows "whole (Fin (units x + units y))"
proof -
  obtain k m n where n: "x = Fin (of_nat m)" "y = Fin (of_nat n)" "z = Fin (of_nat k)" "k \<le> 2 ^ 52" using assms(1-3) by (elim wholeE) blast
  have "(of_nat (m + n) :: rat) \<le> of_nat k" using assms(4) by (simp add: n(1-3))
  then have "m + n \<le> k" by (simp only: of_nat_le_iff)
  then have "m + n \<le> 2 ^ 52" using n(4) by linarith
  then show ?thesis unfolding whole_def n(1,2) by (intro exI [of _ "m + n"]) (simp only: units.simps of_nat_add simp_thms)
qed

lemma newer_refl [simp]: "newer t t"
  by (simp add: newer_def)

lemma newer_trans: "newer t u \<Longrightarrow> newer u v \<Longrightarrow> newer t v"
proof -
  assume n: "newer t u" "newer u v"
  show "newer t v"
    unfolding newer_def
  proof (intro allI impI)
    fix i a assume "budget_get t i = Some a"
    then obtain b where b: "budget_get u i = Some b" "b = a \<or> ba_version a < ba_version b" using n(1) unfolding newer_def by blast
    obtain c where "budget_get v i = Some c" "c = b \<or> ba_version b < ba_version c" using n(2) b(1) unfolding newer_def by blast
    then show "\<exists>a'. budget_get v i = Some a' \<and> (a' = a \<or> ba_version a < ba_version a')" using b(2) by auto
  qed
qed

lemma row_known_newer: "newer t t' \<Longrightarrow> row_known t i v c \<Longrightarrow> row_known t' i v c"
proof -
  assume "newer t t'" "row_known t i v c"
  then obtain r r' where "budget_get t i = Some r" "v \<le> ba_version r" "ba_version r = v \<longrightarrow> ba_consumed r = c"
    "budget_get t' i = Some r'" "r' = r \<or> ba_version r < ba_version r'" unfolding row_known_def newer_def by blast
  then show ?thesis unfolding row_known_def by auto
qed

lemma caller_knows_newer: "caller_knows q t c \<Longrightarrow> newer t t' \<Longrightarrow> caller_knows q t' c"
  using row_known_newer [of t t'] by (cases c) simp_all

text \<open>A guarded write of a whole consumption.\<close>

lemma budget_update_whole:
  assumes "whole_accounts t" "whole c" "budget_update t i v (\<lambda>a. a\<lparr>ba_consumed := c, ba_status := st\<rparr>) = (b, t')"
  shows "whole_accounts t' \<and> newer t t'"
    and "b \<Longrightarrow> \<exists>r. budget_get t i = Some r \<and> ba_version r = v \<and>
      budget_get t' = (budget_get t)(i \<mapsto> r\<lparr>ba_consumed := c, ba_status := st, ba_version := v + 1\<rparr>)"
    and "\<not> b \<Longrightarrow> t' = t"
proof -
  let ?f = "\<lambda>a. a\<lparr>ba_consumed := c, ba_status := st\<rparr>"
  show no: "\<not> b \<Longrightarrow> t' = t" using budget_store.cas_fail [of t i v ?f] assms(3) by simp
  show yes: "\<exists>r. budget_get t i = Some r \<and> ba_version r = v \<and>
      budget_get t' = (budget_get t)(i \<mapsto> r\<lparr>ba_consumed := c, ba_status := st, ba_version := v + 1\<rparr>)" if b
  proof -
    have k: "fst (budget_update t i v ?f)" using assms(3) that by simp
    then obtain r where r: "budget_get t i = Some r" "ba_version r = v" by (auto simp: budget_store.cas_ok_iff)
    have "budget_get t' j = (if j = i then map_option (\<lambda>a. (?f a)\<lparr>ba_version := v + 1\<rparr>) (budget_get t i) else budget_get t j)" for j
      using budget_store.cas_get [of t i v ?f j] k assms(3) by simp
    then show ?thesis using r by (auto simp: fun_eq_iff)
  qed
  show "whole_accounts t' \<and> newer t t'"
  proof (cases b)
    case True
    from yes [OF this] obtain r where r: "budget_get t i = Some r" "ba_version r = v"
      "budget_get t' = (budget_get t)(i \<mapsto> r\<lparr>ba_consumed := c, ba_status := st, ba_version := v + 1\<rparr>)" by blast
    then show ?thesis using assms(1,2) by (auto simp: whole_accounts_def newer_def)
  next
    case False
    then show ?thesis using no assms(1) by simp
  qed
qed

lemma ensure_whole:
  assumes "whole_accounts t" "whole l" "budget_ensure t i sc l = (a, t')"
  shows "whole_accounts t' \<and> newer t t'"
proof -
  have "whole (Fin 0)" by (auto simp: whole_def intro: exI [of _ 0])
  then show ?thesis using assms
    by (auto simp: budget_ensure_def Let_def whole_accounts_def newer_def budget_get_append split: option.splits if_splits)
qed

lemma not_exceeding:
  assumes "whole c" "whole l" "whole x" "\<not> float_gt (float_add c x) l"
  shows "units c + units x \<le> units l"
proof -
  have "float_add c x = Fin (units c + units x)" "l = Fin (units l)" using whole_add [OF assms(1,3)] whole_units [OF assms(2)] by simp_all
  then have "\<not> float_gt (Fin (units c + units x)) (Fin (units l))" using assms(4) by metis
  then show ?thesis by (auto simp: float_gt_def)
qed

lemma caller_step_knows:
  assumes "whole_accounts (b_accounts db)" "whole_request q" "caller_knows q (b_accounts db) c" "caller_step q db c = (db', c')"
  shows "whole_accounts (b_accounts db') \<and> newer (b_accounts db) (b_accounts db') \<and> caller_knows q (b_accounts db') c'"
proof (cases "(q, db, c)" rule: caller_step.cases)
  case (4 q' db0 l)
  then show ?thesis using assms ensure_whole [of "b_accounts db" l "bq_new_id q" "bq_scope q"] by (auto simp: split: prod.splits)
next
  case (6 q' db0 i n)
  have "row_known (b_accounts db) (ba_id a) (ba_version a) (ba_consumed a) \<and> whole (ba_consumed a) \<and> whole (ba_limit a)"
    if "budget_get (b_accounts db) i = Some a" for a
  proof -
    have "ba_id a = i" using that by (auto simp: budget_get_def dest: tbl_get_SomeD)
    then show ?thesis using that assms(1) by (auto simp: row_known_def whole_accounts_def)
  qed
  moreover have "whole (bq_amount q)" using assms(2) by (simp add: whole_request_def)
  ultimately show ?thesis using 6 assms(1,4) not_exceeding by (auto simp: chargeable_def split: option.splits if_splits)
next
  case (8 q' db0 a n)
  have k: "chargeable q a" "row_known (b_accounts db) (ba_id a) (ba_version a) (ba_consumed a)" using 8 assms(3) by simp_all
  have w: "whole (bq_amount q)" using assms(2) by (simp add: whole_request_def)
  have c: "ba_consumed (charged q a) = Fin (units (ba_consumed a) + units (bq_amount q))"
    using whole_add [OF _ w, of "ba_consumed a"] k(1) by (simp add: charged_def Let_def chargeable_def)
  have wc: "whole (ba_consumed (charged q a))"
    unfolding c using whole_sum [OF _ w, of "ba_consumed a" "ba_limit a"] k(1) by (simp add: chargeable_def)
  obtain b t where u: "budget_update (b_accounts db) (ba_id a) (ba_version a)
      (\<lambda>r. r\<lparr>ba_consumed := ba_consumed (charged q a), ba_status := ba_status (charged q a)\<rparr>) = (b, t)" by fastforce
  note g = budget_update_whole [OF assms(1) wc u]
  show ?thesis
  proof (cases b)
    case True
    from g(2) [OF True] have "row_known t (ba_id a) (ba_version a + 1) (Fin (units (ba_consumed a) + units (bq_amount q)))"
      by (auto simp: row_known_def c)
    then show ?thesis using 8 assms(4) u g(1) k(1) True by auto
  next
    case False
    then show ?thesis using 8 assms(1,4) u by auto
  qed
next
  case (10 q' db0 a)
  have k: "whole (ba_consumed a)" using 10 assms(3) by (simp add: chargeable_def)
  obtain b t where u: "budget_update (b_accounts db) (ba_id a) (ba_version a + 1)
      (\<lambda>r. r\<lparr>ba_consumed := ba_consumed a, ba_status := ba_status a\<rparr>) = (b, t)" by fastforce
  then show ?thesis using 10 assms(4) budget_update_whole(1) [OF assms(1) k u] by auto
qed (use assms in \<open>auto simp: whole_request_def split: option.splits\<close>)

interpretation budget_units: rely_guarantee caller_step
  "\<lambda>q db c. whole_accounts (b_accounts db) \<and> whole_request q \<and> caller_knows q (b_accounts db) c"
  "\<lambda>db db'. (whole_accounts (b_accounts db) \<longrightarrow> whole_accounts (b_accounts db')) \<and> newer (b_accounts db) (b_accounts db')"
proof unfold_locales
  fix q d c d' c'
  assume "whole_accounts (b_accounts d) \<and> whole_request q \<and> caller_knows q (b_accounts d) c" "caller_step q d c = (d', c')"
  then show "((whole_accounts (b_accounts d) \<longrightarrow> whole_accounts (b_accounts d')) \<and> newer (b_accounts d) (b_accounts d')) \<and>
      whole_accounts (b_accounts d') \<and> whole_request q \<and> caller_knows q (b_accounts d') c'"
    using caller_step_knows by blast
qed (use newer_trans caller_knows_newer in \<open>simp, blast+\<close>)

text \<open>A step moves units from a pending charge into the ledger or back, and takes new ones only as it adds them to the account.\<close>

lemma event_claim_SomeD: "event_claim t e = Some t' \<Longrightarrow> t' = t @ [e] \<and> event_get_by_key t (be_key e) = None"
  by (auto simp: event_claim_def event_get_by_key_def tbl_insert_def split: if_splits option.splits)

lemma ledger_units_append:
  "b_events db' = b_events db @ [e] \<Longrightarrow>
   ledger_units db' i = ledger_units db i + (if be_applied e \<and> be_account_id e = i then units (be_delta e) else 0)"
  by (simp add: ledger_units_def)

lemma ledger_units_cong [simp]: "ledger_units (db\<lparr>b_accounts := t\<rparr>) i = ledger_units db i"
  by (simp add: ledger_units_def)

lemma consumed_units_cong [simp]: "consumed_units (db\<lparr>b_events := t\<rparr>) i = consumed_units db i"
  by (simp add: consumed_units_def)

lemma caller_step_units:
  assumes "whole_request q" "caller_knows q (b_accounts db) c" "caller_step q db c = (db', c')"
  shows "ledger_units db' i + pending_units i (q, c') - consumed_units db' i \<le> ledger_units db i + pending_units i (q, c) - consumed_units db i"
proof (cases "(q, db, c)" rule: caller_step.cases)
  case (4 q' db0 l)
  obtain a t where e: "budget_ensure (b_accounts db) (bq_new_id q) (bq_scope q) l = (a, t)" by fastforce
  then have "consumed_units (db\<lparr>b_accounts := t\<rparr>) i = consumed_units db i"
    by (auto simp: budget_ensure_def Let_def consumed_units_def budget_get_append split: option.splits if_splits)
  then show ?thesis using 4 assms(3) e by auto
next
  case (7 q' db0 a)
  then show ?thesis using assms(3)
    by (auto simp: request_event_def ledger_units_append dest!: event_claim_SomeD split: option.splits)
next
  case (8 q' db0 a n)
  have k: "chargeable q a" "row_known (b_accounts db) (ba_id a) (ba_version a) (ba_consumed a)" using 8 assms(2) by simp_all
  have c: "ba_consumed (charged q a) = Fin (units (ba_consumed a) + units (bq_amount q))"
    using whole_add [of "ba_consumed a" "bq_amount q"] k(1) assms(1) by (simp add: charged_def Let_def chargeable_def whole_request_def)
  let ?f = "\<lambda>r. r\<lparr>ba_consumed := ba_consumed (charged q a), ba_status := ba_status (charged q a)\<rparr>"
  obtain b t where u: "budget_update (b_accounts db) (ba_id a) (ba_version a) ?f = (b, t)" by fastforce
  show ?thesis
  proof (cases b)
    case True
    have ok: "fst (budget_update (b_accounts db) (ba_id a) (ba_version a) ?f)" using u True by simp
    then obtain r where r: "budget_get (b_accounts db) (ba_id a) = Some r" "ba_version r = ba_version a" by (auto simp: budget_store.cas_ok_iff)
    have "ba_consumed r = ba_consumed a" using k(2) r by (auto simp: row_known_def)
    moreover have "budget_get t j = (if j = ba_id a then map_option (\<lambda>r. (?f r)\<lparr>ba_version := ba_version a + 1\<rparr>) (budget_get (b_accounts db) (ba_id a))
        else budget_get (b_accounts db) j)" for j using budget_store.cas_get [OF ok, of j] u by simp
    ultimately have "consumed_units (db\<lparr>b_accounts := t\<rparr>) i = consumed_units db i + pending_units i (q, B_Record a)"
      using r c by (auto simp: consumed_units_def)
    then show ?thesis using 8 assms(3) u True by auto
  next
    case False
    then show ?thesis using 8 assms(3) u by auto
  qed
next
  case (9 q' db0 a)
  then show ?thesis using assms(3)
    by (auto simp: request_event_def ledger_units_append dest!: event_claim_SomeD split: option.splits)
next
  case (10 q' db0 a)
  have k: "row_known (b_accounts db) (ba_id a) (ba_version a + 1) (Fin (units (ba_consumed a) + units (bq_amount q)))" using 10 assms(2) by simp
  have pos: "0 \<le> units (bq_amount q)" using assms(1) whole_units by (auto simp: whole_request_def)
  let ?f = "\<lambda>r. r\<lparr>ba_consumed := ba_consumed a, ba_status := ba_status a\<rparr>"
  obtain b t where u: "budget_update (b_accounts db) (ba_id a) (ba_version a + 1) ?f = (b, t)" by fastforce
  have d: "db' = db\<lparr>b_accounts := t\<rparr>" "c' = B_Winner (ba_id a)" using 10 assms(3) u by auto
  have "pending_units i (q, B_Undo a) - (consumed_units db i - consumed_units (db\<lparr>b_accounts := t\<rparr>) i) \<ge> 0"
  proof (cases b)
    case True
    have ok: "fst (budget_update (b_accounts db) (ba_id a) (ba_version a + 1) ?f)" using u True by simp
    then obtain r where r: "budget_get (b_accounts db) (ba_id a) = Some r" "ba_version r = ba_version a + 1" by (auto simp: budget_store.cas_ok_iff)
    have "ba_consumed r = Fin (units (ba_consumed a) + units (bq_amount q))" using k r by (auto simp: row_known_def)
    moreover have "budget_get t j = (if j = ba_id a then map_option (\<lambda>r. (?f r)\<lparr>ba_version := ba_version a + 1 + 1\<rparr>) (budget_get (b_accounts db) (ba_id a))
        else budget_get (b_accounts db) j)" for j using budget_store.cas_get [OF ok, of j] u by simp
    ultimately show ?thesis using r by (auto simp: consumed_units_def)
  next
    case False
    then have "t = b_accounts db" using budget_store.cas_fail [of "b_accounts db" "ba_id a" "ba_version a + 1" ?f] u by simp
    then show ?thesis using pos by simp
  qed
  then show ?thesis using 10 by (auto simp: d split: if_splits)
qed (use assms in \<open>auto split: option.splits\<close>)

lemma sum_list_swap: "k < length xs \<Longrightarrow> sum_list (map f (xs[k := x])) = sum_list (map f xs) - f (xs ! k) + (f x :: rat)"
  by (induction xs arbitrary: k) (auto split: nat.split)

text \<open>So the ledger and the pending charges together never exceed what is consumed.\<close>

lemma interleaved_units:
  assumes "budget_system (db, cs) (db', cs')" and "\<And>q c. (q, c) \<in> set cs \<Longrightarrow> whole_accounts (b_accounts db) \<and> whole_request q \<and> caller_knows q (b_accounts db) c"
    and "ledger_units db i + sum_list (map (pending_units i) cs) \<le> consumed_units db i"
  shows "ledger_units db' i + sum_list (map (pending_units i) cs') \<le> consumed_units db' i"
  using assms
proof (induction "(db, cs)" "(db', cs')" arbitrary: db' cs' rule: interleaved.induct)
  case (interleaved_step st k)
  obtain d1 cs1 where st: "st = (d1, cs1)" by (cases st)
  have IH: "ledger_units d1 i + sum_list (map (pending_units i) cs1) \<le> consumed_units d1 i"
    using interleaved_step.hyps(2) [OF st interleaved_step.prems] .
  have ok: "\<forall>(q, c) \<in> set cs1. whole_accounts (b_accounts d1) \<and> whole_request q \<and> caller_knows q (b_accounts d1) c"
    using budget_units.interleaved_le [OF interleaved_step.hyps(1) [unfolded st] interleaved_step.prems(1)] by blast
  show ?case
  proof (cases "k < length cs1")
    case True
    obtain q c where qc: "cs1 ! k = (q, c)" by (cases "cs1 ! k")
    obtain d2 c2 where s: "caller_step q d1 c = (d2, c2)" by fastforce
    have eq: "db' = d2" "cs' = cs1[k := (q, c2)]" using interleaved_step.hyps(3) True qc s by (simp_all add: st schedule_def)
    have "(q, c) \<in> set cs1" using True qc by (metis nth_mem)
    then have "whole_request q" "caller_knows q (b_accounts d1) c" using ok by auto
    from caller_step_units [OF this s, of i] show ?thesis using IH True by (simp add: eq sum_list_swap qc)
  qed (use interleaved_step.hyps(3) IH in \<open>simp add: st schedule_simps\<close>)
qed simp

text \<open>A grant is in the ledger.\<close>

fun grant_recorded :: "budget_request \<Rightarrow> budget_db \<Rightarrow> caller \<Rightarrow> bool" where
  "grant_recorded q db (B_Done (Inr r)) = (bc_reason r = Given (bq_reason q) \<longrightarrow>
     (\<exists>e \<in> set (b_events db). be_key e = bq_key q \<and> be_applied e \<and> be_delta e = bq_amount q))"
| "grant_recorded q db c = True"

lemma grant_recorded_step:
  assumes "caller_step q db c = (db', c')" "grant_recorded q db c"
  shows "set (b_events db) \<subseteq> set (b_events db') \<and> (tbl_unique be_key (b_events db) \<longrightarrow> tbl_unique be_key (b_events db')) \<and> grant_recorded q db' c'"
  using assms
  by (cases "(q, db, c)" rule: caller_step.cases)
     (auto simp: Let_def account_result_def request_event_def event_get_by_key_def tbl_unique_def tbl_get_None_iff dest!: event_claim_SomeD
       split: option.splits prod.splits bool.splits if_splits)

interpretation budget_grants: rely_guarantee caller_step grant_recorded
  "\<lambda>db db'. set (b_events db) \<subseteq> set (b_events db') \<and> (tbl_unique be_key (b_events db) \<longrightarrow> tbl_unique be_key (b_events db'))"
proof unfold_locales
  fix q c and d d' :: budget_db
  assume "grant_recorded q d c"
    "set (b_events d) \<subseteq> set (b_events d') \<and> (tbl_unique be_key (b_events d) \<longrightarrow> tbl_unique be_key (b_events d'))"
  then show "grant_recorded q d' c" by (cases "(q, d, c)" rule: grant_recorded.cases) auto
next
  fix q d c d' c'
  assume "grant_recorded q d c" "caller_step q d c = (d', c')"
  then show "(set (b_events d) \<subseteq> set (b_events d') \<and> (tbl_unique be_key (b_events d) \<longrightarrow> tbl_unique be_key (b_events d'))) \<and>
      grant_recorded q d' c'" using grant_recorded_step by blast
qed (simp, blast)

subsection \<open>A call without interference\<close>

lemma run_caller_finished: "run_caller n q db (B_Done r) = (db, B_Done r)"
  by (induction n) simp_all

lemma run_caller_numeral: "run_caller (numeral k) q db c =
    (case caller_step q db c of (db', c') \<Rightarrow> run_caller (pred_numeral k) q db' c')"
  by (simp add: numeral_eq_Suc)

lemma read_numeral: "caller_step q db (B_Read i (numeral k)) = (db, case budget_get (b_accounts db) i of
     None \<Rightarrow> B_Done (Inl (AccountMissing i))
   | Some fresh \<Rightarrow>
       if float_gt (float_add (ba_consumed fresh) (bq_amount q)) (ba_limit fresh) then B_Refuse fresh
       else B_Charge fresh (pred_numeral k))"
  unfolding numeral_eq_Suc [of k] by (simp only: caller_step.simps)

lemma reserve_steps:
  assumes "event_get_by_key (b_events db) (bq_key q) = None"
    and "budget_get_by_scope (b_accounts db) (bq_scope q) = Some a" "budget_get (b_accounts db) (ba_id a) = Some a"
  shows "run_caller 18 q db B_Start = run_caller 15 q db
    (if float_gt (float_add (ba_consumed a) (bq_amount q)) (ba_limit a) then B_Refuse a else B_Charge a 4)"
proof -
  have "run_caller 18 q db B_Start = run_caller 17 q db B_Lookup"
    using assms(1) by (subst run_caller_numeral) simp
  also have "\<dots> = run_caller 16 q db (B_Read (ba_id a) max_cas_attempts)"
    using assms(2) by (subst run_caller_numeral) simp
  also have "\<dots> = run_caller 15 q db
      (if float_gt (float_add (ba_consumed a) (bq_amount q)) (ba_limit a) then B_Refuse a else B_Charge a 4)"
    using assms(3) by (subst run_caller_numeral) (simp add: read_numeral max_cas_attempts_def)
  finally show ?thesis .
qed

lemma event_claim_fresh: "event_get_by_key t k = None \<Longrightarrow> be_key e = k \<Longrightarrow> event_claim t e = Some (t @ [e])"
  by (simp add: event_claim_def event_get_by_key_def tbl_insert_def)

lemma reserve_refused:
  assumes "event_get_by_key (b_events db) (bq_key q) = None"
    and "budget_get_by_scope (b_accounts db) (bq_scope q) = Some a" "budget_get (b_accounts db) (ba_id a) = Some a"
    and "float_gt (float_add (ba_consumed a) (bq_amount q)) (ba_limit a)"
  shows "\<exists>r. reserve_and_consume q db =
      (db\<lparr>b_events := b_events db @ [request_event q (ba_id a) False]\<rparr>, Some (Inr r)) \<and> \<not> bc_granted r \<and> \<not> bc_replayed r"
  using assms(4) event_claim_fresh [OF assms(1), of "request_event q (ba_id a) False"]
  by (simp add: reserve_and_consume_def reserve_steps [OF assms(1-3)] run_caller_numeral [of _ _ _ "B_Refuse a"]
      run_caller_finished request_event_def account_result_def)

lemma reserve_granted:
  assumes "event_get_by_key (b_events db) (bq_key q) = None"
    and "budget_get_by_scope (b_accounts db) (bq_scope q) = Some a" "budget_get (b_accounts db) (ba_id a) = Some a"
    and "\<not> float_gt (float_add (ba_consumed a) (bq_amount q)) (ba_limit a)"
  shows "\<exists>r t. reserve_and_consume q db =
      (db\<lparr>b_accounts := t, b_events := b_events db @ [request_event q (ba_id a) True]\<rparr>, Some (Inr r)) \<and>
      bc_granted r \<and> \<not> bc_replayed r \<and>
      budget_get t = (budget_get (b_accounts db))(ba_id a \<mapsto> (charged q a)\<lparr>ba_version := ba_version a + 1\<rparr>)"
proof -
  let ?f = "\<lambda>r. r\<lparr>ba_consumed := ba_consumed (charged q a), ba_status := ba_status (charged q a)\<rparr>"
  obtain t where t: "budget_update (b_accounts db) (ba_id a) (ba_version a) ?f = (True, t)"
    using budget_store.reader_wins [OF assms(3), of ?f]
    by (cases "budget_update (b_accounts db) (ba_id a) (ba_version a) ?f") simp
  have g: "budget_get t = (budget_get (b_accounts db))(ba_id a \<mapsto> (charged q a)\<lparr>ba_version := ba_version a + 1\<rparr>)"
    using budget_store.cas_get [of "b_accounts db" "ba_id a" "ba_version a" ?f] t assms(3)
    by (auto simp: fun_eq_iff charged_def Let_def)
  have "run_caller 15 q db (B_Charge a 4) = run_caller 14 q (db\<lparr>b_accounts := t\<rparr>) (B_Record a)"
    using t by (subst run_caller_numeral) simp
  then show ?thesis
    using assms(4) g event_claim_fresh [OF assms(1), of "request_event q (ba_id a) True"]
    by (auto simp: reserve_and_consume_def reserve_steps [OF assms(1-3)] run_caller_numeral [of _ _ _ "B_Record a"]
        run_caller_finished request_event_def account_result_def)
qed

lemma reserve_replayed:
  assumes "event_get_by_key (b_events db) (bq_key q) = Some e" "budget_get (b_accounts db) (be_account_id e) = Some a"
  shows "\<exists>r. reserve_and_consume q db = (db, Some (Inr r)) \<and> bc_granted r = be_applied e \<and> bc_replayed r"
  using assms by (simp add: reserve_and_consume_def run_caller_numeral run_caller_finished account_result_def)

section \<open>Properties\<close>

text \<open>The start of the callers, on accounts that count whole units and cover what the ledger already charged to them.\<close>

definition whole_start :: "budget_db \<Rightarrow> budget_request list \<Rightarrow> bool" where
  "whole_start db qs = (whole_accounts (b_accounts db) \<and> list_all whole_request qs \<and> tbl_unique be_key (b_events db) \<and>
     (\<forall>i. ledger_units db i \<le> consumed_units db i))"


definition sample_account :: budget_account where
  "sample_account = \<lparr>ba_id = ''b1'', ba_scope = (SCOPE_PLAN, ''p1'', RETRIES), ba_limit = Fin 10, ba_consumed = Fin 0,
     ba_status = BA_ACTIVE, ba_version = 1\<rparr>"

definition sample_charge :: "string \<Rightarrow> budget_request" where
  "sample_charge k = \<lparr>bq_scope = (SCOPE_PLAN, ''p1'', RETRIES), bq_amount = Fin 1, bq_key = k, bq_reason = [],
     bq_default_limit = None, bq_new_id = ''n'', bq_now = 0\<rparr>"

definition sample_db :: budget_db where
  "sample_db = \<lparr>b_accounts = [sample_account], b_events = []\<rparr>"

lemma sample_db_within: "all_within (b_accounts sample_db)"
  by (auto simp: all_within_def sample_db_def sample_account_def budget_get_def tbl_get_Cons within_limit_def split: if_splits)

lemma sample_charge_sane: "sane_request (sample_charge k)"
  by (simp add: sample_charge_def sane_request_def)

text \<open>An account with one unit left, and two callers that want it at the same time.\<close>

definition last_unit :: budget_db where
  "last_unit = \<lparr>b_accounts = [sample_account\<lparr>ba_limit := Fin 1\<rparr>], b_events = []\<rparr>"

lemma last_unit_start: "all_within (b_accounts last_unit)" "whole_start last_unit [sample_charge ''k'', sample_charge ''l'']"
proof -
  have "whole (Fin 0)" "whole (Fin 1)" unfolding whole_def by (intro exI [of _ 0], simp, intro exI [of _ 1], simp)
  then show "whole_start last_unit [sample_charge ''k'', sample_charge ''l'']" "all_within (b_accounts last_unit)"
    by (auto simp: whole_start_def whole_accounts_def whole_request_def all_within_def within_limit_def last_unit_def sample_account_def
        sample_charge_def budget_get_def tbl_get_Cons tbl_unique_def ledger_units_def consumed_units_def split: if_splits)
qed


text \<open>A call returns, charges at most once and can be replayed. Run without interference the call always
  ends. With a new key on an existing account it is granted exactly when the charge does not exceed the
  limit; then the account holds the sum and the next version and the ledger one applied event, else the
  accounts are unchanged and the ledger records the refusal. Repeating the call with that key changes
  nothing and reports the recorded outcome.\<close>

theorem budget_call_contract:
  assumes "event_get_by_key (b_events db) (bq_key q) = None"
    and "budget_get_by_scope (b_accounts db) (bq_scope q) = Some a" "budget_get (b_accounts db) (ba_id a) = Some a"
  shows "\<exists>db' r. reserve_and_consume q db = (db', Some (Inr r)) \<and>
    (bc_granted r \<longleftrightarrow> \<not> float_gt (float_add (ba_consumed a) (bq_amount q)) (ba_limit a)) \<and>
    b_events db' = b_events db @ [request_event q (ba_id a) (bc_granted r)] \<and>
    budget_get (b_accounts db') = (if bc_granted r
      then (budget_get (b_accounts db))(ba_id a \<mapsto> (charged q a)\<lparr>ba_version := ba_version a + 1\<rparr>)
      else budget_get (b_accounts db)) \<and>
    (\<exists>r'. reserve_and_consume q db' = (db', Some (Inr r')) \<and> bc_granted r' = bc_granted r \<and> bc_replayed r')"
proof -
  have "\<exists>db' r. reserve_and_consume q db = (db', Some (Inr r)) \<and>
    (bc_granted r \<longleftrightarrow> \<not> float_gt (float_add (ba_consumed a) (bq_amount q)) (ba_limit a)) \<and>
    b_events db' = b_events db @ [request_event q (ba_id a) (bc_granted r)] \<and>
    budget_get (b_accounts db') = (if bc_granted r
      then (budget_get (b_accounts db))(ba_id a \<mapsto> (charged q a)\<lparr>ba_version := ba_version a + 1\<rparr>)
      else budget_get (b_accounts db))"
    using reserve_refused [OF assms] reserve_granted [OF assms]
    by (cases "float_gt (float_add (ba_consumed a) (bq_amount q)) (ba_limit a)") fastforce+
  then obtain db' r where *: "reserve_and_consume q db = (db', Some (Inr r))"
    "bc_granted r \<longleftrightarrow> \<not> float_gt (float_add (ba_consumed a) (bq_amount q)) (ba_limit a)"
    "b_events db' = b_events db @ [request_event q (ba_id a) (bc_granted r)]"
    "budget_get (b_accounts db') = (if bc_granted r
      then (budget_get (b_accounts db))(ba_id a \<mapsto> (charged q a)\<lparr>ba_version := ba_version a + 1\<rparr>)
      else budget_get (b_accounts db))" by blast
  have "event_get_by_key (b_events db') (bq_key q) = Some (request_event q (ba_id a) (bc_granted r))"
    using assms(1) *(3) by (simp add: event_get_by_key_def tbl_get_append tbl_get_Cons request_event_def)
  moreover have "\<exists>b. budget_get (b_accounts db') (ba_id a) = Some b" using assms(3) *(4) by simp
  ultimately have "\<exists>r'. reserve_and_consume q db' = (db', Some (Inr r')) \<and> bc_granted r' = bc_granted r \<and> bc_replayed r'"
    using reserve_replayed [of db' q "request_event q (ba_id a) (bc_granted r)"] by (auto simp: request_event_def)
  then show ?thesis using * by blast
qed

theorem budget_call_contract_witness:
  "\<exists>db' r. reserve_and_consume (sample_charge ''k'') sample_db = (db', Some (Inr r)) \<and>
     b_events db' = [request_event (sample_charge ''k'') ''b1'' (bc_granted r)]"
  using budget_call_contract [of sample_db "sample_charge ''k''" sample_account]
  by (auto simp: sample_db_def sample_charge_def sample_account_def event_get_by_key_def budget_get_by_scope_def
      budget_get_def tbl_get_Cons)

fun caller_granted :: "caller \<Rightarrow> bool" where
  "caller_granted (B_Done (Inr r)) = bc_granted r"
| "caller_granted _ = False"

definition leaked :: "budget_state \<Rightarrow> bool" where
  "leaked st = (case st of (db, cs) \<Rightarrow>
     list_all (\<lambda>qc. caller_granted (snd qc)) cs \<and>
     map ba_consumed (b_accounts db) = [Fin 3] \<and> map be_delta (filter be_applied (b_events db)) = [Fin 1, Fin 1])"

lemma leaking_schedule: "leaked (fold budget_schedule [0, 1, 2, 0, 1, 2, 0, 0, 1, 1, 0, 2, 2, 2, 1, 1, 1, 1]
    (sample_db, map (\<lambda>q. (q, B_Start)) [sample_charge ''k'', sample_charge ''k'', sample_charge ''l'']))"
  by (simp add: schedule_def sample_db_def sample_charge_def sample_account_def event_get_by_key_def
      budget_get_by_scope_def budget_get_def budget_update_def event_claim_def max_cas_attempts_def tbl_get_Cons
      tbl_insert_def tbl_vcas_def tbl_cas_def tbl_upd_def charged_def request_event_def account_result_def Let_def
      round64_small read_numeral float_gt_def leaked_def)

text \<open>The charge of a duplicate call can outlive its back-out. Two calls with one key and a third with
  another interleave so that all finish, the ledger holds two applied events of one unit each, and the
  account is charged three units: the back-out of the duplicate is refused because the third call
  has moved the version on.\<close>

theorem duplicate_charge_leaks:
  "\<exists>db cs. budget_system (sample_db, map (\<lambda>q. (q, B_Start)) [sample_charge ''k'', sample_charge ''k'', sample_charge ''l'']) (db, cs) \<and>
     list_all (\<lambda>qc. caller_granted (snd qc)) cs \<and>
     map ba_consumed (b_accounts db) = [Fin 3] \<and>
     map be_delta (filter be_applied (b_events db)) = [Fin 1, Fin 1]"
proof -
  let ?init = "(sample_db, map (\<lambda>q. (q, B_Start)) [sample_charge ''k'', sample_charge ''k'', sample_charge ''l''])"
  obtain db cs where st: "fold budget_schedule [0, 1, 2, 0, 1, 2, 0, 0, 1, 1, 0, 2, 2, 2, 1, 1, 1, 1] ?init = (db, cs)"
    by fastforce
  have "budget_system ?init (db, cs)" using interleaved_fold [OF interleaved_refl, of caller_step ?init] unfolding st [symmetric] .
  moreover have "leaked (db, cs)" using leaking_schedule unfolding st .
  ultimately show ?thesis by (intro exI [of _ db] exI [of _ cs]) (auto simp: leaked_def)
qed

end
