(* ===== verification/Sandbox_FS.thy ===== *)
theory Sandbox_FS
  imports Prelude "HOL-Library.Sublist"
begin

text \<open>
  \<open>app/decision_intelligence/sandbox_fs.py\<close> over an explicit POSIX file system. An absolute path is the
  list of its names; a file system is the list of its entries below the root directory, latest first.
  \<open>realpath_walk\<close> is what \<open>Path.resolve()\<close> computes (missing names pass, a symlink loop raises, as
  Python 3.11 and 3.12 do), \<open>kernel_walk\<close> is the kernel's own lookup, which every other call performs.
  Concurrent changes of the tree between two calls are left out, as the module's own note says.
\<close>

section \<open>A file system with symbolic links\<close>

type_synonym path = "string list"

datatype fnode = F_File "nat list" | F_Dir | F_Link string

type_synonym fs = "(path \<times> fnode) list"

definition node_at :: "fs \<Rightarrow> path \<Rightarrow> fnode option" where
  "node_at fs p = (if p = [] then Some F_Dir else map_of fs p)"

text \<open>Where the resolution of a link's text starts, for a link in directory \<open>p\<close>.\<close>

definition link_start :: "path \<Rightarrow> string \<Rightarrow> path" where
  "link_start p t = (if take 1 t = ''/'' then [] else p)"

definition links :: "fs \<Rightarrow> path set" where
  "links fs = {p. \<exists>t. (p, F_Link t) \<in> set fs}"

lemma finite_links [simp]: "finite (links fs)"
proof -
  have "links fs \<subseteq> fst ` set fs" by (force simp: links_def)
  then show ?thesis by (rule finite_subset) simp
qed

lemma node_at_link: "node_at fs p = Some (F_Link t) \<Longrightarrow> p \<in> links fs"
  by (auto simp: node_at_def links_def split: if_splits dest: map_of_SomeD)

lemma links_left_decrease:
  assumes "node_at fs q = Some (F_Link t)" "q \<notin> A"
  shows "card (links fs - insert q A) < card (links fs - A)"
  using node_at_link [OF assms(1)] assms(2) by (intro psubset_card_mono) auto

text \<open>\<open>os.path.realpath\<close>: \<open>act\<close> are the links being resolved; meeting one of them again is a loop.\<close>

function realpath_walk :: "fs \<Rightarrow> path list \<Rightarrow> path \<Rightarrow> string list \<Rightarrow> path option" where
  "realpath_walk fs act p [] = Some p"
| "realpath_walk fs act p (n # rest) =
     (if n = [] \<or> n = ''.'' then realpath_walk fs act p rest
      else if n = ''..'' then realpath_walk fs act (butlast p) rest
      else case node_at fs (p @ [n]) of
          Some (F_Link t) \<Rightarrow>
            if p @ [n] \<in> set act then None
            else (case realpath_walk fs ((p @ [n]) # act) (link_start p t) (split_on (CHR ''/'') t) of
                None \<Rightarrow> None | Some q \<Rightarrow> realpath_walk fs act q rest)
        | _ \<Rightarrow> realpath_walk fs act (p @ [n]) rest)"
  by pat_completeness auto

termination
  by (relation "measures [\<lambda>(fs, act, p, ns). card (links fs - set act), \<lambda>(fs, act, p, ns). length ns]")
     (simp_all add: links_left_decrease)

definition path_resolve :: "fs \<Rightarrow> path \<Rightarrow> path option" where
  "path_resolve fs p = realpath_walk fs [] [] p"

text \<open>The kernel: every directory on the way must exist, and at most 40 links are followed.\<close>

definition max_symlinks :: nat where
  "max_symlinks = 40"

function kernel_walk :: "fs \<Rightarrow> nat \<Rightarrow> path \<Rightarrow> string list \<Rightarrow> path option" where
  "kernel_walk fs k p [] = Some p"
| "kernel_walk fs k p (n # rest) =
     (if node_at fs p \<noteq> Some F_Dir then None
      else if n = [] \<or> n = ''.'' then kernel_walk fs k p rest
      else if n = ''..'' then kernel_walk fs k (butlast p) rest
      else case node_at fs (p @ [n]) of
          None \<Rightarrow> None
        | Some (F_Link t) \<Rightarrow>
            (case k of 0 \<Rightarrow> None
             | Suc k' \<Rightarrow> kernel_walk fs k' (link_start p t) (split_on (CHR ''/'') t @ rest))
        | _ \<Rightarrow> kernel_walk fs k (p @ [n]) rest)"
  by pat_completeness auto

termination
  by (relation "measures [\<lambda>(fs, k, p, ns). k, \<lambda>(fs, k, p, ns). length ns]") simp_all

text \<open>\<open>os.stat\<close> and \<open>os.lstat\<close>, \<open>None\<close> for the OSError.\<close>

definition stat :: "fs \<Rightarrow> path \<Rightarrow> fnode option" where
  "stat fs p = (case kernel_walk fs max_symlinks [] p of None \<Rightarrow> None | Some q \<Rightarrow> node_at fs q)"

definition lstat :: "fs \<Rightarrow> path \<Rightarrow> fnode option" where
  "lstat fs p = (if p = [] then Some F_Dir
     else case kernel_walk fs max_symlinks [] (butlast p) of
         None \<Rightarrow> None
       | Some d \<Rightarrow> if node_at fs d = Some F_Dir then node_at fs (d @ [last p]) else None)"

definition path_exists :: "fs \<Rightarrow> path \<Rightarrow> bool" where
  "path_exists fs p = (stat fs p \<noteq> None)"

definition path_is_symlink :: "fs \<Rightarrow> path \<Rightarrow> bool" where
  "path_is_symlink fs p = (case lstat fs p of Some (F_Link _) \<Rightarrow> True | _ \<Rightarrow> False)"

definition path_is_file :: "fs \<Rightarrow> path \<Rightarrow> bool" where
  "path_is_file fs p = (case stat fs p of Some (F_File _) \<Rightarrow> True | _ \<Rightarrow> False)"

definition path_str :: "path \<Rightarrow> string" where
  "path_str p = ''/'' @ py_join ''/'' p"

section \<open>Creating files\<close>

text \<open>An OSError with its text, and the ways a disk may fail: making a directory, opening the file, or
  writing after some bytes.\<close>

datatype os_error = Os_Error string

datatype disk_fault = No_Fault | Mkdir_Fault string | Open_Fault string | Write_Fault nat string

text \<open>\<open>Path.mkdir(parents=True, exist_ok=True)\<close> and \<open>Path.write_bytes\<close>, on a path without symbolic links.\<close>

fun mkdirs_from :: "fs \<Rightarrow> path \<Rightarrow> string list \<Rightarrow> os_error + fs" where
  "mkdirs_from fs p [] = Inr fs"
| "mkdirs_from fs p (n # rest) = (case node_at fs (p @ [n]) of
     None \<Rightarrow> mkdirs_from ((p @ [n], F_Dir) # fs) (p @ [n]) rest
   | Some F_Dir \<Rightarrow> mkdirs_from fs (p @ [n]) rest
   | Some _ \<Rightarrow> Inl (Os_Error ((if rest = [] then ''[Errno 17] File exists: '' else ''[Errno 20] Not a directory: '') @
       quoted (path_str (p @ n # rest)))))"

definition mkdirs :: "fs \<Rightarrow> path \<Rightarrow> disk_fault \<Rightarrow> os_error + fs" where
  "mkdirs fs p fault = (case fault of Mkdir_Fault m \<Rightarrow> Inl (Os_Error m) | _ \<Rightarrow> mkdirs_from fs [] p)"

definition write_bytes :: "fs \<Rightarrow> path \<Rightarrow> nat list \<Rightarrow> disk_fault \<Rightarrow> fs \<times> os_error option" where
  "write_bytes fs p bs fault =
     (if node_at fs (butlast p) \<noteq> Some F_Dir then (fs, Some (Os_Error (''[Errno 2] No such file or directory: '' @ quoted (path_str p))))
      else if node_at fs p = Some F_Dir then (fs, Some (Os_Error (''[Errno 21] Is a directory: '' @ quoted (path_str p))))
      else (case fault of
          Open_Fault m \<Rightarrow> (fs, Some (Os_Error m))
        | Write_Fault n m \<Rightarrow> ((p, F_File (take n bs)) # fs, Some (Os_Error m))
        | _ \<Rightarrow> ((p, F_File bs) # fs, None)))"

section \<open>Path validation\<close>

definition max_content_bytes :: nat where
  "max_content_bytes = 1 * 1024 * 1024"

definition allowed_extensions :: "string list" where
  "allowed_extensions = [''.csv'', ''.json'', ''.log'', ''.md'', ''.txt'', ''.yaml'', ''.yml'']"

text \<open>\<open>^[A-Za-z]:\<close>.\<close>

definition drive_prefix :: "string \<Rightarrow> bool" where
  "drive_prefix s = (case s of
     c # d # _ \<Rightarrow> ((CHR ''A'' \<le> c \<and> c \<le> CHR ''Z'') \<or> (CHR ''a'' \<le> c \<and> c \<le> CHR ''z'')) \<and> d = CHR '':''
   | _ \<Rightarrow> False)"

text \<open>\<open>Path(name).suffix\<close>: from the last dot, unless that is the first or the last character.\<close>

definition path_suffix :: "string \<Rightarrow> string" where
  "path_suffix name = (let ext = rev (takeWhile (\<lambda>c. c \<noteq> CHR ''.'') (rev name)) in
     if CHR ''.'' \<in> set name \<and> ext \<noteq> [] \<and> length ext + 1 < length name then CHR ''.'' # ext else [])"

datatype sandbox_error =
    SandboxPathEmptyError string
  | SandboxPathNullByteError string
  | SandboxPathAbsoluteError string
  | SandboxPathTraversalError string
  | SandboxPathEscapeError string
  | SandboxPathSymlinkError string
  | SandboxExtensionNotAllowedError string
  | SandboxContentTooLargeError string
  | SandboxTargetExistsError string

fun sandbox_error_message :: "sandbox_error \<Rightarrow> string" where
  "sandbox_error_message (SandboxPathEmptyError m) = m"
| "sandbox_error_message (SandboxPathNullByteError m) = m"
| "sandbox_error_message (SandboxPathAbsoluteError m) = m"
| "sandbox_error_message (SandboxPathTraversalError m) = m"
| "sandbox_error_message (SandboxPathEscapeError m) = m"
| "sandbox_error_message (SandboxPathSymlinkError m) = m"
| "sandbox_error_message (SandboxExtensionNotAllowedError m) = m"
| "sandbox_error_message (SandboxContentTooLargeError m) = m"
| "sandbox_error_message (SandboxTargetExistsError m) = m"

text \<open>What the file-system calls raise: a \<open>SandboxPathError\<close>, the RuntimeError of a symlink loop, or the
  TypeError of joining something that is not text to a path.\<close>

datatype fs_exn = Sandbox_Exn sandbox_error | Symlink_Loop | Type_Error

definition path_segments :: "string \<Rightarrow> string list" where
  "path_segments rel = filter (\<lambda>s. s \<noteq> [])
     (split_on (CHR ''/'') (map (\<lambda>c. if c = CHR 0x5C then CHR ''/'' else c) rel))"

text \<open>The checks on the text alone, in order; then the checks against the file system.\<close>

definition check_path_text :: "string \<Rightarrow> sandbox_error + string list" where
  "check_path_text rel = (let segments = path_segments rel; ext = py_lower (path_suffix (last segments)) in
     if py_strip rel = [] then Inl (SandboxPathEmptyError ''relative_path must be a non-empty string'')
     else if CHR 0x00 \<in> set rel then Inl (SandboxPathNullByteError ''relative_path must not contain a null byte'')
     else if rel \<noteq> [] \<and> hd rel \<in> {CHR ''/'', CHR 0x5C} then Inl (SandboxPathAbsoluteError
       (quoted rel @ '' is an absolute or UNC path, not sandbox-relative''))
     else if drive_prefix rel then Inl (SandboxPathAbsoluteError
       (quoted rel @ '' is a Windows drive path, not sandbox-relative''))
     else if segments = [] then Inl (SandboxPathEmptyError ''relative_path must resolve to at least one path segment'')
     else if ''..'' \<in> set segments then Inl (SandboxPathTraversalError
       (quoted rel @ '' contains a '' @ quoted ''..'' @ '' traversal segment''))
     else if ''.'' \<in> set segments then Inl (SandboxPathTraversalError
       (quoted rel @ '' contains a '' @ quoted ''.'' @ '' segment, which is not allowed''))
     else if ext \<notin> set allowed_extensions then Inl (SandboxExtensionNotAllowedError
       (quoted (last segments) @ '' has extension '' @ quoted (str_or ext ''(none)'') @
        '', which is not in the allowed set ['' @ py_join '', '' (map quoted allowed_extensions) @ '']''))
     else Inr segments)"

definition resolve_sandbox_path :: "fs \<Rightarrow> path \<Rightarrow> string \<Rightarrow> fs_exn + path" where
  "resolve_sandbox_path fs sandbox_root rel = (case check_path_text rel of
     Inl e \<Rightarrow> Inl (Sandbox_Exn e)
   | Inr segments \<Rightarrow> (case path_resolve fs sandbox_root of
        None \<Rightarrow> Inl Symlink_Loop
      | Some base \<Rightarrow>
          let candidate = base @ segments; leaf_is_symlink = path_is_symlink fs candidate in
          (case path_resolve fs candidate of
             None \<Rightarrow> Inl Symlink_Loop
           | Some target \<Rightarrow>
               if \<not> prefix base target then Inl (Sandbox_Exn (SandboxPathEscapeError
                 (quoted rel @ '' resolves outside the sandbox root'')))
               else if leaf_is_symlink then Inl (Sandbox_Exn (SandboxPathSymlinkError
                 (quoted rel @ '' is an existing symlink, which is never followed'')))
               else Inr target)))"

definition check_content_size :: "nat list \<Rightarrow> sandbox_error + unit" where
  "check_content_size content = (if max_content_bytes < length content
     then Inl (SandboxContentTooLargeError (''content is '' @ int_str (int (length content)) @
       '' bytes, exceeding the '' @ int_str (int max_content_bytes) @ ''-byte sandbox limit''))
     else Inr ())"

definition check_no_overwrite :: "fs \<Rightarrow> path \<Rightarrow> sandbox_error + unit" where
  "check_no_overwrite fs target = (if path_exists fs target
     then Inl (SandboxTargetExistsError (quoted (path_str target) @ '' already exists; file.create_sandboxed never overwrites''))
     else Inr ())"

section \<open>Lemmas\<close>

text \<open>A path without symbolic links, and a tree whose entries lie in directories and have proper names.\<close>

definition clean :: "fs \<Rightarrow> path \<Rightarrow> bool" where
  "clean fs p = (\<forall>k t. node_at fs (take k p) \<noteq> Some (F_Link t))"

definition plain_name :: "string \<Rightarrow> bool" where
  "plain_name n = (n \<notin> {[], ''.'', ''..''} \<and> CHR ''/'' \<notin> set n)"

definition no_slashes :: "string list \<Rightarrow> bool" where
  "no_slashes ns = list_all (\<lambda>n. CHR ''/'' \<notin> set n) ns"

definition fs_ok :: "fs \<Rightarrow> bool" where
  "fs_ok fs = (\<forall>p \<in> fst ` set fs. p \<noteq> [] \<and> node_at fs (butlast p) = Some F_Dir)"

lemma clean_Nil [simp]: "clean fs []"
  by (simp add: clean_def node_at_def)

lemma clean_butlast: "clean fs p \<Longrightarrow> clean fs (butlast p)"
  unfolding clean_def by (metis butlast_conv_take take_take)

lemma clean_snoc: "clean fs (p @ [n]) \<longleftrightarrow> clean fs p \<and> (\<forall>t. node_at fs (p @ [n]) \<noteq> Some (F_Link t))"
proof (intro iffI conjI allI)
  assume c: "clean fs (p @ [n])"
  show "clean fs p" using clean_butlast [OF c] by simp
  show "node_at fs (p @ [n]) \<noteq> Some (F_Link t)" for t
    using c unfolding clean_def by (metis order_refl take_all)
next
  assume c: "clean fs p \<and> (\<forall>t. node_at fs (p @ [n]) \<noteq> Some (F_Link t))"
  show "clean fs (p @ [n])" unfolding clean_def
  proof (intro allI)
    fix k t
    show "node_at fs (take k (p @ [n])) \<noteq> Some (F_Link t)"
      using c by (cases "k \<le> length p") (auto simp: clean_def)
  qed
qed

lemma plain_butlast: "list_all plain_name p \<Longrightarrow> list_all plain_name (butlast p)"
  by (auto simp: list_all_iff dest: in_set_butlastD)

text \<open>What \<open>resolve\<close> returns has no symbolic link left in it.\<close>

definition resolved :: "fs \<Rightarrow> path \<Rightarrow> bool" where
  "resolved fs p = (clean fs p \<and> list_all plain_name p)"

lemma resolved_steps:
  "resolved fs []" "resolved fs p \<Longrightarrow> resolved fs (butlast p)" "resolved fs p \<Longrightarrow> resolved fs (link_start p t)"
  "resolved fs p \<Longrightarrow> plain_name n \<Longrightarrow> \<forall>t. node_at fs (p @ [n]) \<noteq> Some (F_Link t) \<Longrightarrow> resolved fs (p @ [n])"
  by (simp_all add: resolved_def clean_butlast plain_butlast clean_snoc link_start_def)

lemma split_on_no_sep: "s \<in> set (split_on d t) \<Longrightarrow> d \<notin> set s"
  by (induction t arbitrary: s) (auto split: if_splits list.splits)

lemma no_slashes_split [simp]: "no_slashes (split_on (CHR ''/'') t)"
  by (auto simp: no_slashes_def list_all_iff dest: split_on_no_sep)

lemma realpath_walk_resolved:
  "realpath_walk fs act p ns = Some q \<Longrightarrow> resolved fs p \<Longrightarrow> no_slashes ns \<Longrightarrow> resolved fs q"
proof (induction fs act p ns arbitrary: q rule: realpath_walk.induct)
  case (2 fs act p n rest)
  have ns: "CHR ''/'' \<notin> set n" "no_slashes rest" using "2.prems"(3) by (simp_all add: no_slashes_def)
  consider "n = [] \<or> n = ''.''" | "n = ''..''" | (link) t where "plain_name n" "node_at fs (p @ [n]) = Some (F_Link t)"
    | (other) "plain_name n" "\<forall>t. node_at fs (p @ [n]) \<noteq> Some (F_Link t)"
    using ns(1) by (auto simp: plain_name_def)
  then show ?case
  proof cases
    case link
    then obtain p' where p': "p @ [n] \<notin> set act"
      "realpath_walk fs ((p @ [n]) # act) (link_start p t) (split_on (CHR ''/'') t) = Some p'" "realpath_walk fs act p' rest = Some q"
      using "2.prems"(1) by (auto simp: plain_name_def split: if_splits option.splits)
    have n: "\<not> (n = [] \<or> n = ''.'')" "n \<noteq> ''..''" using link(1) by (auto simp: plain_name_def)
    have "resolved fs p'"
      by (rule "2.IH"(6) [OF n link(2) refl p'(1,2) resolved_steps(3) [OF "2.prems"(2)] no_slashes_split])
    then show ?thesis using "2.IH"(7) [OF n link(2) refl p'(1,2,3) _ ns(2)] by simp
  next
    case other
    have n: "\<not> (n = [] \<or> n = ''.'')" "n \<noteq> ''..''" using other(1) by (auto simp: plain_name_def)
    have r: "resolved fs (p @ [n])" by (rule resolved_steps(4) [OF "2.prems"(2) other])
    show ?thesis
    proof (cases "node_at fs (p @ [n])")
      case None
      then show ?thesis using "2.IH"(3) [OF n None _ r ns(2)] "2.prems"(1) n by simp
    next
      case (Some x)
      then show ?thesis using "2.IH"(4,5) [OF n Some _ _ r ns(2)] "2.prems"(1) n other(2) by (cases x) auto
    qed
  qed (use 2 ns resolved_steps(2) in auto)
qed simp

lemma path_resolve_resolved: "path_resolve fs p = Some q \<Longrightarrow> no_slashes p \<Longrightarrow> resolved fs q"
  unfolding path_resolve_def using realpath_walk_resolved resolved_steps(1) by blast

text \<open>On such a path the kernel's lookup is the lookup of the entry itself.\<close>

lemma fs_ok_parent: "fs_ok fs \<Longrightarrow> node_at fs (p @ [n]) \<noteq> None \<Longrightarrow> node_at fs p = Some F_Dir"
  by (force simp: fs_ok_def node_at_def dest: map_of_SomeD)

lemma fs_ok_ancestor: "fs_ok fs \<Longrightarrow> node_at fs (p @ q) \<noteq> None \<Longrightarrow> q \<noteq> [] \<Longrightarrow> node_at fs p = Some F_Dir"
proof (induction q rule: rev_induct)
  case (snoc n q)
  then have "node_at fs (p @ q) = Some F_Dir" using fs_ok_parent [of fs "p @ q" n] by simp
  then show ?case using snoc by (cases "q = []") auto
qed simp

lemma clean_prefix: "clean fs (p @ q) \<Longrightarrow> clean fs p"
  by (induction q rule: rev_induct) (auto simp: clean_snoc simp flip: append_assoc)

lemma kernel_walk_resolved:
  assumes "fs_ok fs"
  shows "clean fs (p @ ns) \<Longrightarrow> list_all plain_name ns \<Longrightarrow>
    (case kernel_walk fs k p ns of None \<Rightarrow> None | Some q \<Rightarrow> node_at fs q) = node_at fs (p @ ns)"
proof (induction ns arbitrary: p)
  case (Cons n ns)
  have n: "n \<noteq> []" "n \<noteq> ''.''" "n \<noteq> ''..''" using Cons.prems(2) by (auto simp: plain_name_def)
  have nolink: "\<forall>t. node_at fs (p @ [n]) \<noteq> Some (F_Link t)"
    using clean_prefix [of fs "p @ [n]" ns] Cons.prems(1) by (simp add: clean_snoc)
  have ih: "(case kernel_walk fs k (p @ [n]) ns of None \<Rightarrow> None | Some q \<Rightarrow> node_at fs q) = node_at fs (p @ n # ns)"
    using Cons.IH [of "p @ [n]"] Cons.prems by simp
  show ?case
  proof (cases "node_at fs p = Some F_Dir")
    case dir: True
    show ?thesis
    proof (cases "node_at fs (p @ [n])")
      case None
      then have "node_at fs (p @ n # ns) = None"
        using fs_ok_ancestor [OF assms, of "p @ [n]" ns] by (cases "ns = []") fastforce+
      then show ?thesis using dir None n by simp
    next
      case (Some x)
      then show ?thesis using dir n nolink ih by (cases x) auto
    qed
  next
    case False
    then have "node_at fs (p @ n # ns) = None" using fs_ok_ancestor [OF assms, of p "n # ns"] by fastforce
    then show ?thesis using False by simp
  qed
qed simp

lemma kernel_walk_self:
  "clean fs (p @ ns) \<Longrightarrow> list_all plain_name ns \<Longrightarrow> kernel_walk fs k p ns = Some q \<Longrightarrow> q = p @ ns"
proof (induction ns arbitrary: p)
  case (Cons n ns)
  have n: "n \<noteq> []" "n \<noteq> ''.''" "n \<noteq> ''..''" using Cons.prems(2) by (auto simp: plain_name_def)
  have "\<forall>t. node_at fs (p @ [n]) \<noteq> Some (F_Link t)"
    using clean_prefix [of fs "p @ [n]" ns] Cons.prems(1) by (simp add: clean_snoc)
  then show ?case using Cons.IH [of "p @ [n]"] Cons.prems n by (auto split: if_splits option.splits fnode.splits)
qed simp

lemma stat_resolved: "fs_ok fs \<Longrightarrow> resolved fs p \<Longrightarrow> stat fs p = node_at fs p"
  using kernel_walk_resolved [of fs "[]" p] by (simp add: stat_def resolved_def)

lemma resolve_again:
  "resolved fs (p @ ns) \<Longrightarrow> realpath_walk fs act p ns = Some (p @ ns)"
proof (induction ns arbitrary: p)
  case (Cons n ns)
  have n: "n \<noteq> []" "n \<noteq> ''.''" "n \<noteq> ''..''" using Cons.prems by (auto simp: plain_name_def resolved_def)
  have "\<forall>t. node_at fs (p @ [n]) \<noteq> Some (F_Link t)"
    using clean_prefix [of fs "p @ [n]" ns] Cons.prems by (simp add: clean_snoc resolved_def)
  then show ?case using Cons.IH [of "p @ [n]"] Cons.prems n by (auto split: option.splits fnode.splits)
qed simp

lemma path_resolve_idem: "resolved fs p \<Longrightarrow> path_resolve fs p = Some p"
  using resolve_again [of fs "[]" p] by (simp add: path_resolve_def)

text \<open>Resolution only looks at links.\<close>

definition same_links :: "fs \<Rightarrow> fs \<Rightarrow> bool" where
  "same_links fs fs' = (\<forall>p t. node_at fs' p = Some (F_Link t) \<longleftrightarrow> node_at fs p = Some (F_Link t))"

lemma realpath_walk_same_links: "same_links fs fs' \<Longrightarrow> realpath_walk fs' act p ns = realpath_walk fs act p ns"
proof (induction fs act p ns rule: realpath_walk.induct)
  case (2 fs act p n rest)
  consider "n = [] \<or> n = ''.''" | "n = ''..''" | (link) t where "n \<notin> {[], ''.'', ''..''}" "node_at fs (p @ [n]) = Some (F_Link t)"
    | (other) "n \<notin> {[], ''.'', ''..''}" "\<forall>t. node_at fs (p @ [n]) \<noteq> Some (F_Link t)" by auto
  then show ?case
  proof cases
    case link
    then have l: "node_at fs' (p @ [n]) = Some (F_Link t)" using "2.prems" by (simp add: same_links_def)
    have n: "\<not> (n = [] \<or> n = ''.'')" "n \<noteq> ''..''" using link(1) by auto
    show ?thesis using "2.IH"(6) [OF n link(2) refl _ "2.prems"] "2.IH"(7) [OF n link(2) refl _ _ "2.prems"] link l n
      by (auto split: option.splits)
  next
    case other
    have n: "\<not> (n = [] \<or> n = ''.'')" "n \<noteq> ''..''" using other(1) by auto
    have o': "\<forall>t. node_at fs' (p @ [n]) \<noteq> Some (F_Link t)" using other "2.prems" by (simp add: same_links_def)
    have skip: "realpath_walk f act p (n # rest) = realpath_walk f act (p @ [n]) rest"
      if "\<forall>t. node_at f (p @ [n]) \<noteq> Some (F_Link t)" for f
      using that n by (auto split: option.splits fnode.splits)
    have "realpath_walk fs' act (p @ [n]) rest = realpath_walk fs act (p @ [n]) rest"
    proof (cases "node_at fs (p @ [n])")
      case None
      then show ?thesis using "2.IH"(3) [OF n None "2.prems"] by simp
    next
      case (Some x)
      then show ?thesis using "2.IH"(4,5) [OF n Some _ "2.prems"] other(2) by (cases x) auto
    qed
    then show ?thesis using skip [OF o'] skip [OF other(2)] by simp
  qed (use 2 in auto)
qed simp

subsection \<open>Validation\<close>

lemma check_path_text_OkD:
  assumes "check_path_text rel = Inr segs"
  shows "segs = path_segments rel \<and> segs \<noteq> [] \<and> list_all plain_name segs \<and>
    py_lower (path_suffix (last segs)) \<in> set allowed_extensions"
proof -
  have "[] \<notin> set (path_segments rel)" "\<forall>n \<in> set (path_segments rel). CHR ''/'' \<notin> set n"
    by (auto simp: path_segments_def dest: split_on_no_sep)
  then show ?thesis using assms
    by (auto simp: check_path_text_def Let_def list_all_iff plain_name_def split: if_splits)
qed

lemma resolve_sandbox_pathD:
  assumes "resolve_sandbox_path fs rt rel = Inr target" "no_slashes rt"
  shows "\<exists>base. path_resolve fs rt = Some base \<and> prefix base target \<and> resolved fs base \<and> resolved fs target"
proof -
  obtain segs base where s: "check_path_text rel = Inr segs" "path_resolve fs rt = Some base"
    "path_resolve fs (base @ segs) = Some target" "prefix base target"
    using assms(1) by (auto simp: resolve_sandbox_path_def Let_def split: sum.splits option.splits if_splits)
  have b: "resolved fs base" using s(2) assms(2) by (rule path_resolve_resolved)
  then have "no_slashes (base @ segs)"
    using check_path_text_OkD [OF s(1)] by (auto simp: no_slashes_def resolved_def list_all_iff plain_name_def)
  then show ?thesis using path_resolve_resolved [OF s(3)] s b by blast
qed

text \<open>Without links below the root the target is the literal one; in particular under a missing root.\<close>

lemma resolve_sandbox_path_literal:
  assumes "check_path_text rel = Inr segs" "path_resolve fs rt = Some base" "resolved fs (base @ segs)"
    and "resolve_sandbox_path fs rt rel = Inr target"
  shows "target = base @ segs"
  using assms path_resolve_idem [OF assms(3)]
  by (auto simp: resolve_sandbox_path_def Let_def split: if_splits)

lemma resolved_missing:
  assumes "fs_ok fs" "resolved fs p" "node_at fs p = None" "list_all plain_name ns"
  shows "resolved fs (p @ ns)"
proof -
  have "node_at fs (p @ ms) = None" for ms
    using fs_ok_ancestor [OF assms(1), of p ms] assms(3) by (cases "ms = []") fastforce+
  note none = this
  have "clean fs (p @ ms)" for ms
  proof (induction ms rule: rev_induct)
    case (snoc m ms)
    then show ?case using none [of "ms @ [m]"] clean_snoc [of fs "p @ ms" m] by simp
  qed (use assms(2) in \<open>simp add: resolved_def\<close>)
  then show ?thesis using assms(2,4) by (simp add: resolved_def)
qed

lemma resolve_sandbox_path_new:
  assumes "fs_ok fs" "no_slashes rt" "resolve_sandbox_path fs rt rel = Inr target" "path_resolve fs rt = Some base"
    and "node_at fs target = None"
  shows "base \<noteq> target"
proof
  assume eq: "base = target"
  obtain segs where segs: "check_path_text rel = Inr segs"
    using assms(3) by (auto simp: resolve_sandbox_path_def split: sum.splits)
  have "resolved fs base" using path_resolve_resolved [OF assms(4,2)] .
  then have "resolved fs (base @ segs)"
    using resolved_missing [OF assms(1)] assms(5) eq check_path_text_OkD [OF segs] by blast
  then show False using resolve_sandbox_path_literal [OF segs assms(4) _ assms(3)] eq check_path_text_OkD [OF segs] by auto
qed

subsection \<open>What creating a file changes\<close>

lemma node_at_Cons: "p \<noteq> [] \<Longrightarrow> node_at ((p, x) # fs) q = (if q = p then Some x else node_at fs q)"
  by (auto simp: node_at_def)

lemma fs_ok_Cons:
  assumes "fs_ok fs" "node_at fs p = Some F_Dir" "node_at fs (p @ [n]) = None"
  shows "fs_ok ((p @ [n], x) # fs)"
  unfolding fs_ok_def
proof
  fix q assume "q \<in> fst ` set ((p @ [n], x) # fs)"
  then consider "q = p @ [n]" | "q \<in> fst ` set fs" by auto
  then show "q \<noteq> [] \<and> node_at ((p @ [n], x) # fs) (butlast q) = Some F_Dir"
  proof cases
    case 1
    then show ?thesis using assms(2) by (simp add: node_at_Cons)
  next
    case 2
    then have "q \<noteq> []" "node_at fs (butlast q) = Some F_Dir" using assms(1) by (auto simp: fs_ok_def)
    then show ?thesis using assms(3) by (auto simp: node_at_Cons)
  qed
qed

lemma mkdirs_from_effect:
  "mkdirs_from fs p ns = Inr fs' \<Longrightarrow> fs_ok fs \<Longrightarrow> node_at fs p = Some F_Dir \<Longrightarrow>
   fs_ok fs' \<and> node_at fs' (p @ ns) = Some F_Dir \<and>
   (\<forall>q. node_at fs' q = node_at fs q \<or> node_at fs q = None \<and> node_at fs' q = Some F_Dir \<and> prefix q (p @ ns))"
proof (induction fs p ns rule: mkdirs_from.induct)
  case (2 fs p n rest)
  show ?case
  proof (cases "node_at fs (p @ [n])")
    case None
    let ?fs = "(p @ [n], F_Dir) # fs"
    have r: "mkdirs_from ?fs (p @ [n]) rest = Inr fs'" using "2.prems"(1) None by simp
    have "node_at ?fs (p @ [n]) = Some F_Dir" by (simp add: node_at_Cons)
    note ih = "2.IH"(1) [OF None r fs_ok_Cons [OF "2.prems"(2,3) None] this]
    have "node_at fs' q = node_at fs q \<or>
        node_at fs q = None \<and> node_at fs' q = Some F_Dir \<and> prefix q (p @ n # rest)" for q
      using ih [THEN conjunct2, THEN conjunct2, THEN spec, of q] None
      by (cases "q = p @ [n]") (simp_all add: node_at_Cons)
    then show ?thesis using ih by simp
  next
    case (Some x)
    then have x: "x = F_Dir" "mkdirs_from fs (p @ [n]) rest = Inr fs'" using "2.prems"(1) by (auto split: fnode.splits)
    then show ?thesis using "2.IH"(2) [OF Some x(1) x(2) "2.prems"(2)] Some by simp
  qed
qed simp

lemma mkdirs_effect:
  assumes "mkdirs fs p fault = Inr fs'" "fs_ok fs"
  shows "fs_ok fs' \<and> node_at fs' p = Some F_Dir \<and>
   (\<forall>q. node_at fs' q = node_at fs q \<or> node_at fs q = None \<and> node_at fs' q = Some F_Dir \<and> prefix q p)"
proof -
  have "mkdirs_from fs [] p = Inr fs'" using assms(1) by (auto simp: mkdirs_def split: disk_fault.splits)
  from mkdirs_from_effect [OF this assms(2)] show ?thesis by (simp add: node_at_def)
qed

end
