(* ===== verification/Tool_Adapters.thy ===== *)
theory Tool_Adapters
  imports Schemas Sha256 Sandbox_FS Keyed_Table
begin

text \<open>
  \<open>app/decision_intelligence/tool_adapters.py\<close>: the registry of trusted adapters and the one adapter with
  a real effect, which creates a text file in the sandbox. An adapter is a record of functions, so
  the registry's duck-typing checks hold by type. An adapter's call takes the file system and returns
  it changed or not; what it raises is the \<open>Inl\<close>. The readings of \<open>context.now()\<close> within one call are
  \<open>cx_now 0\<close>, \<open>cx_now 1\<close>, and \<open>cx_fault\<close> is what the disk does during it.
\<close>

section \<open>Values as text\<close>

text \<open>\<open>repr\<close> of text and the \<open>str\<close> of a JSON value, used in messages.\<close>

definition py_repr_str :: "string \<Rightarrow> string" where
  "py_repr_str s = (let q = (if CHR 0x27 \<in> set s \<and> CHR 0x22 \<notin> set s then CHR 0x22 else CHR 0x27);
       esc = (\<lambda>c. let n = of_char c :: nat in
         if c = q \<or> c = CHR 0x5C then [CHR 0x5C, c]
         else if n = 10 then [CHR 0x5C, CHR ''n''] else if n = 13 then [CHR 0x5C, CHR ''r'']
         else if n = 9 then [CHR 0x5C, CHR ''t'']
         else if n < 32 \<or> (127 \<le> n \<and> n \<le> 160) \<or> n = 173
           then [CHR 0x5C, CHR ''x'', digit_char (n div 16), digit_char (n mod 16)] else [c])
     in [q] @ concat (map esc s) @ [q])"

primrec py_repr_json :: "json \<Rightarrow> string" where
  "py_repr_json JNull = ''None''"
| "py_repr_json (JBool b) = (if b then ''True'' else ''False'')"
| "py_repr_json (JInt i) = int_str i"
| "py_repr_json (JFloat r) = r"
| "py_repr_json (JStr s) = py_repr_str s"
| "py_repr_json (JArr vs) = ''['' @ py_join '', '' (map py_repr_json vs) @ '']''"
| "py_repr_json (JObj kvs) = ''{'' @ py_join '', ''
     (map (\<lambda>(k, t). py_repr_str k @ '': '' @ t) (map (map_prod id py_repr_json) kvs)) @ ''}''"

definition py_str_json :: "json option \<Rightarrow> string" where
  "py_str_json v = (case v of None \<Rightarrow> ''None'' | Some (JStr s) \<Rightarrow> s | Some v \<Rightarrow> py_repr_json v)"

text \<open>Truth of a value, and its equality with an \<open>int\<close> (booleans are ints; a float equals the int it prints).\<close>

fun json_truthy :: "json \<Rightarrow> bool" where
  "json_truthy JNull = False"
| "json_truthy (JBool b) = b"
| "json_truthy (JInt i) = (i \<noteq> 0)"
| "json_truthy (JFloat r) = (r \<notin> {''0.0'', ''-0.0''})"
| "json_truthy (JStr s) = (s \<noteq> [])"
| "json_truthy (JArr vs) = (vs \<noteq> [])"
| "json_truthy (JObj kvs) = (kvs \<noteq> [])"

fun json_equals_int :: "json \<Rightarrow> int \<Rightarrow> bool" where
  "json_equals_int (JInt i) n = (i = n)"
| "json_equals_int (JBool b) n = ((if b then 1 else 0) = n)"
| "json_equals_int (JFloat r) n = (r = int_str n @ ''.0'')"
| "json_equals_int _ n = False"

text \<open>A JSON null and a missing key are both \<open>None\<close>.\<close>

definition get_value :: "(string \<times> json) list \<Rightarrow> string \<Rightarrow> json option" where
  "get_value kvs k = (case obj_get kvs k of Some JNull \<Rightarrow> None | v \<Rightarrow> v)"

text \<open>Whether bytes decode as UTF-8: no stray, overlong or surrogate sequence, nothing above U+10FFFF.\<close>

definition utf8_cont :: "nat \<Rightarrow> bool" where
  "utf8_cont b = (128 \<le> b \<and> b \<le> 191)"

fun utf8_valid :: "nat list \<Rightarrow> bool" where
  "utf8_valid [] = True"
| "utf8_valid (a # bs) =
     (if a < 128 then utf8_valid bs
      else if 194 \<le> a \<and> a \<le> 223 then 1 \<le> length bs \<and> utf8_cont (bs ! 0) \<and> utf8_valid (drop 1 bs)
      else if 224 \<le> a \<and> a \<le> 239 then 2 \<le> length bs \<and> utf8_cont (bs ! 0) \<and> utf8_cont (bs ! 1) \<and>
        (a = 224 \<longrightarrow> 160 \<le> bs ! 0) \<and> (a = 237 \<longrightarrow> bs ! 0 \<le> 159) \<and> utf8_valid (drop 2 bs)
      else if 240 \<le> a \<and> a \<le> 244 then 3 \<le> length bs \<and> utf8_cont (bs ! 0) \<and> utf8_cont (bs ! 1) \<and>
        utf8_cont (bs ! 2) \<and> (a = 240 \<longrightarrow> 144 \<le> bs ! 0) \<and> (a = 244 \<longrightarrow> bs ! 0 \<le> 143) \<and> utf8_valid (drop 3 bs)
      else False)"

section \<open>Contexts, inspections and adapters\<close>

record exec_context =
  cx_root :: path
  cx_now :: "nat \<Rightarrow> datetime"
  cx_attempt :: string
  cx_fault :: disk_fault

record effect_inspection =
  ei_exists :: bool
  ei_is_regular_file :: "bool option"
  ei_inside_sandbox :: "bool option"
  ei_is_symlink :: "bool option"
  ei_size :: "int option"
  ei_sha256 :: "string option"
  ei_relative_path :: "string option"
  ei_matches_expected :: "bool option"
  ei_issues :: "string list"

record adapter =
  ad_name :: string
  ad_version :: "string option"
  ad_execute :: "action \<Rightarrow> exec_context \<Rightarrow> fs \<Rightarrow> fs \<times> (fs_exn + execution_result)"
  ad_verify :: "action \<Rightarrow> execution_result \<Rightarrow> exec_context \<Rightarrow> fs \<Rightarrow> fs_exn + verification_result"
  ad_inspect_effect :: "(action \<Rightarrow> exec_context \<Rightarrow> fs \<Rightarrow> fs_exn + effect_inspection) option"

section \<open>The registry\<close>

type_synonym adapter_registry = "(string \<times> adapter) list"

datatype adapter_error = DuplicateAdapterError string | UnknownAdapterError string

definition adapter_contains :: "adapter_registry \<Rightarrow> string \<Rightarrow> bool" where
  "adapter_contains reg n = (tbl_get fst reg n \<noteq> None)"

definition adapter_register :: "adapter_registry \<Rightarrow> string \<Rightarrow> adapter \<Rightarrow> bool \<Rightarrow> adapter_error + adapter_registry" where
  "adapter_register reg n ad repl =
     (if adapter_contains reg n \<and> \<not> repl then Inl (DuplicateAdapterError n) else Inr (tbl_put fst reg (n, ad)))"

definition adapter_get :: "adapter_registry \<Rightarrow> string \<Rightarrow> adapter_error + adapter" where
  "adapter_get reg n = (case tbl_get fst reg n of None \<Rightarrow> Inl (UnknownAdapterError n) | Some e \<Rightarrow> Inr (snd e))"

definition list_tool_names :: "adapter_registry \<Rightarrow> string list" where
  "list_tool_names reg = map fst reg"

section \<open>SandboxFileCreateAdapter\<close>

definition file_adapter_name :: string where
  "file_adapter_name = ''file.create_sandboxed''"

definition file_adapter_version :: string where
  "file_adapter_version = ''1.0.0''"

definition file_failure :: "action \<Rightarrow> datetime \<Rightarrow> datetime \<Rightarrow> executor_failure_code \<Rightarrow> string \<Rightarrow> string \<Rightarrow> execution_result" where
  "file_failure a started completed code message attempt_id =
     \<lparr>er_action_id = a_id a, er_tool_name = Some file_adapter_name, er_started_at = started, er_completed_at = completed,
      er_success = False, er_provider_status = None, er_output = None, er_side_effects = [], er_cost = None,
      er_error_type = Some (executor_failure_category code), er_error_message = Some message,
      er_execution_attempt_id = Some attempt_id, er_error_code = Some (executor_failure_code_value code),
      er_side_effect_occurred = False, er_adapter_version = Some file_adapter_version\<rparr>"

definition relative_posix :: "path \<Rightarrow> path \<Rightarrow> string" where
  "relative_posix base target = py_join ''/'' (drop (length base) target)"

definition file_success :: "action \<Rightarrow> datetime \<Rightarrow> datetime \<Rightarrow> string \<Rightarrow> nat list \<Rightarrow> string \<Rightarrow> execution_result" where
  "file_success a started completed rel content attempt_id =
     \<lparr>er_action_id = a_id a, er_tool_name = Some file_adapter_name, er_started_at = started, er_completed_at = completed,
      er_success = True, er_provider_status = None,
      er_output = Some [(''resolved_relative_path'', JStr rel), (''bytes_written'', JInt (int (length content))),
        (''content_hash'', JStr (sha256_bytes content)), (''written_at'', JStr (iso_format completed))],
      er_side_effects = [''created:'' @ rel], er_cost = Some (Fin 0), er_error_type = None, er_error_message = None,
      er_execution_attempt_id = Some attempt_id, er_error_code = None, er_side_effect_occurred = True,
      er_adapter_version = Some file_adapter_version\<rparr>"

text \<open>The two inputs, when both are text.\<close>

definition file_inputs :: "action \<Rightarrow> (string \<times> string) option" where
  "file_inputs a = (case (obj_get (a_inputs a) ''relative_path'', obj_get (a_inputs a) ''content'') of
     (Some (JStr p), Some (JStr c)) \<Rightarrow> Some (p, c) | _ \<Rightarrow> None)"

text \<open>The \<open>try\<close> block of \<open>execute\<close>: the target written, or the exception; with the file system after it.\<close>

datatype create_failure = Create_Sandbox sandbox_error | Create_Os os_error | Create_Raise fs_exn

definition create_sandboxed :: "fs \<Rightarrow> path \<Rightarrow> string \<Rightarrow> nat list \<Rightarrow> disk_fault \<Rightarrow> fs \<times> (create_failure + path)" where
  "create_sandboxed fs rt rel content fault = (case resolve_sandbox_path fs rt rel of
     Inl (Sandbox_Exn e) \<Rightarrow> (fs, Inl (Create_Sandbox e))
   | Inl x \<Rightarrow> (fs, Inl (Create_Raise x))
   | Inr target \<Rightarrow> (case check_content_size content of
        Inl e \<Rightarrow> (fs, Inl (Create_Sandbox e))
      | Inr _ \<Rightarrow> (case check_no_overwrite fs target of
           Inl e \<Rightarrow> (fs, Inl (Create_Sandbox e))
         | Inr _ \<Rightarrow> (case mkdirs fs (butlast target) fault of
              Inl e \<Rightarrow> (fs, Inl (Create_Os e))
            | Inr fs1 \<Rightarrow> (case write_bytes fs1 target content fault of
                 (fs2, Some e) \<Rightarrow> (fs2, Inl (Create_Os e))
               | (fs2, None) \<Rightarrow> (fs2, Inr target))))))"

definition file_execute :: "action \<Rightarrow> exec_context \<Rightarrow> fs \<Rightarrow> fs \<times> (fs_exn + execution_result)" where
  "file_execute a cx fs = (let started = cx_now cx 0; completed = cx_now cx 1; attempt_id = cx_attempt cx in
     case file_inputs a of
       None \<Rightarrow> (fs, Inr (file_failure a started completed EC_VALIDATION_FAILURE
         ''inputs.relative_path and inputs.content must both be strings'' attempt_id))
     | Some (rel, content) \<Rightarrow> (case create_sandboxed fs (cx_root cx) rel (utf8_encode content) (cx_fault cx) of
          (fs', Inl (Create_Sandbox e)) \<Rightarrow> (fs', Inr (file_failure a started completed EC_SANDBOX_VIOLATION
            (sandbox_error_message e) attempt_id))
        | (fs', Inl (Create_Os (Os_Error m))) \<Rightarrow> (fs', Inr (file_failure a started completed EC_TOOL_EXECUTION_FAILURE
            (''filesystem write failed: '' @ m) attempt_id))
        | (fs', Inl (Create_Raise x)) \<Rightarrow> (fs', Inl x)
        | (fs', Inr target) \<Rightarrow> (case path_resolve fs' (cx_root cx) of
             None \<Rightarrow> (fs', Inl Symlink_Loop)
           | Some base \<Rightarrow> (fs', Inr (file_success a started completed (relative_posix base target)
               (utf8_encode content) attempt_id)))))"

text \<open>\<open>base / text\<close>: an absolute text replaces the base; pathlib drops empty and \<open>.\<close> components.\<close>

definition path_join :: "path \<Rightarrow> string \<Rightarrow> path" where
  "path_join base s = (if take 1 s = ''/'' then [] else base) @ filter (\<lambda>n. n \<notin> {[], ''.''}) (split_on (CHR ''/'') s)"

definition content_issues :: "nat list \<Rightarrow> json option \<Rightarrow> json option \<Rightarrow> string list" where
  "content_issues actual expected_hash expected_bytes =
     (case expected_bytes of None \<Rightarrow> [] | Some v \<Rightarrow> if json_equals_int v (int (length actual)) then []
        else [''byte length mismatch: expected '' @ py_str_json (Some v) @ '', got '' @ int_str (int (length actual))]) @
     (case expected_hash of None \<Rightarrow> [] | Some v \<Rightarrow> if v = JStr (sha256_bytes actual) then []
        else [''content hash mismatch: expected '' @ py_str_json (Some v) @ '', got '' @ sha256_bytes actual]) @
     (if utf8_valid actual then [] else [''content does not round-trip as UTF-8''])"

definition target_issues :: "fs \<Rightarrow> path \<Rightarrow> path option \<Rightarrow> json option \<Rightarrow> json option \<Rightarrow> fs_exn + string list" where
  "target_issues fs base target expected_hash expected_bytes = (case target of
     None \<Rightarrow> Inr [''target file does not exist'']
   | Some t \<Rightarrow>
       if \<not> path_exists fs t then Inr [''target file does not exist'']
       else (case path_resolve fs t of
           None \<Rightarrow> Inl Symlink_Loop
         | Some r \<Rightarrow> Inr ((if prefix base r then [] else [''target no longer resolves inside the sandbox root'']) @
             (case stat fs r of
                Some (F_File actual) \<Rightarrow> if path_is_symlink fs r then [''target is not a regular file'']
                  else content_issues actual expected_hash expected_bytes
              | _ \<Rightarrow> [''target is not a regular file'']))))"

definition verification_of :: "action \<Rightarrow> string \<Rightarrow> string list \<Rightarrow> datetime \<Rightarrow> verification_result" where
  "verification_of a expected issues ts = \<lparr>vr_action_id = a_id a, vr_method = ''sandbox_file_verification'',
     vr_expected = Some expected, vr_observed = Some (if issues = [] then ''verified'' else py_join ''; '' issues),
     vr_passed = (issues = []), vr_confidence = (if issues = [] then Fin 1 else Fin 0), vr_issues = issues,
     vr_verified_at = ts\<rparr>"

definition file_verify :: "action \<Rightarrow> execution_result \<Rightarrow> exec_context \<Rightarrow> fs \<Rightarrow> fs_exn + verification_result" where
  "file_verify a r cx fs = (let ts = cx_now cx 0; output = (case er_output r of None \<Rightarrow> [] | Some kvs \<Rightarrow> kvs) in
     if \<not> er_success r \<or> output = [] then
       Inr ((verification_of a ''a successful prior execution result''
         [''execution_result.success is False; nothing to verify''] ts)\<lparr>vr_observed := Some ''execution did not succeed''\<rparr>)
     else (case path_resolve fs (cx_root cx) of
         None \<Rightarrow> Inl Symlink_Loop
       | Some base \<Rightarrow>
           let rel = get_value output ''resolved_relative_path''; hash = get_value output ''content_hash'' in
           bind_sum (case rel of
               None \<Rightarrow> Inr None
             | Some (JStr s) \<Rightarrow> Inr (if s = [] then None else Some (path_join base s))
             | Some v \<Rightarrow> if json_truthy v then Inl Type_Error else Inr None) (\<lambda>target.
           bind_sum (target_issues fs base target hash (get_value output ''bytes_written'')) (\<lambda>issues.
           Inr (verification_of a (''file at '' @ quoted (py_str_json rel) @ '' matching hash '' @ py_str_json hash) issues ts)))))"

definition no_inspection :: "string option \<Rightarrow> string list \<Rightarrow> effect_inspection" where
  "no_inspection rel issues = \<lparr>ei_exists = False, ei_is_regular_file = None, ei_inside_sandbox = None, ei_is_symlink = None,
     ei_size = None, ei_sha256 = None, ei_relative_path = rel, ei_matches_expected = None, ei_issues = issues\<rparr>"

definition inspect_target :: "fs \<Rightarrow> path \<Rightarrow> path \<Rightarrow> nat list \<Rightarrow> effect_inspection" where
  "inspect_target fs base target expected = (let
     inside = prefix base target; symlink = path_is_symlink fs target; regular = path_is_file fs target \<and> \<not> symlink;
     found = (if regular \<and> inside then (case stat fs target of Some (F_File bs) \<Rightarrow> Some bs | _ \<Rightarrow> None) else None);
     matches = (case found of None \<Rightarrow> False
       | Some bs \<Rightarrow> sha256_bytes bs = sha256_bytes expected \<and> length bs = length expected)
   in \<lparr>ei_exists = True, ei_is_regular_file = Some regular, ei_inside_sandbox = Some inside, ei_is_symlink = Some symlink,
      ei_size = map_option (\<lambda>bs. int (length bs)) found, ei_sha256 = map_option sha256_bytes found,
      ei_relative_path = Some (relative_posix base target), ei_matches_expected = Some matches,
      ei_issues = (if inside then [] else [''target no longer resolves inside the sandbox'']) @
        (if regular then [] else [''target is not a regular file'']) @
        (if found \<noteq> None \<and> \<not> matches then [''on-disk content does not match the expected content from action.inputs''] else [])\<rparr>)"

definition file_inspect_effect :: "action \<Rightarrow> exec_context \<Rightarrow> fs \<Rightarrow> fs_exn + effect_inspection" where
  "file_inspect_effect a cx fs = (case file_inputs a of
     None \<Rightarrow> Inr (no_inspection None [''action.inputs missing relative_path/content; cannot inspect''])
   | Some (rel, content) \<Rightarrow> (case resolve_sandbox_path fs (cx_root cx) rel of
        Inl (Sandbox_Exn e) \<Rightarrow> Inr (no_inspection None [''cannot resolve expected path: '' @ sandbox_error_message e])
      | Inl x \<Rightarrow> Inl x
      | Inr target \<Rightarrow> (case path_resolve fs (cx_root cx) of
           None \<Rightarrow> Inl Symlink_Loop
         | Some base \<Rightarrow> Inr (if \<not> path_exists fs target then no_inspection (Some (relative_posix base target)) []
             else inspect_target fs base target (utf8_encode content)))))"

definition file_adapter :: adapter where
  "file_adapter = \<lparr>ad_name = file_adapter_name, ad_version = Some file_adapter_version, ad_execute = file_execute,
     ad_verify = file_verify, ad_inspect_effect = Some file_inspect_effect\<rparr>"

definition build_default_adapter_registry :: "adapter_error + adapter_registry" where
  "build_default_adapter_registry = adapter_register [] file_adapter_name file_adapter False"

section \<open>Lemmas\<close>

text \<open>What one call may change: new directories on the way to the target, and the target itself.\<close>

definition created_in :: "fs \<Rightarrow> path \<Rightarrow> path \<Rightarrow> nat list \<Rightarrow> fs \<Rightarrow> bool" where
  "created_in fs base target content fs' = (prefix base target \<and> resolved fs target \<and> node_at fs target = None \<and>
     length content \<le> max_content_bytes \<and> fs_ok fs' \<and>
     (\<forall>q. node_at fs' q = node_at fs q \<or> node_at fs q = None \<and>
        (node_at fs' q = Some F_Dir \<and> strict_prefix q target \<or>
         q = target \<and> (\<exists>bs. node_at fs' q = Some (F_File bs) \<and> prefix bs content))))"

lemma created_inD:
  "created_in fs base target content fs' \<Longrightarrow> node_at fs' q = node_at fs q \<or> node_at fs q = None \<and>
     (node_at fs' q = Some F_Dir \<and> strict_prefix q target \<or>
      q = target \<and> (\<exists>bs. node_at fs' q = Some (F_File bs) \<and> prefix bs content))"
  unfolding created_in_def by (elim conjE) (erule spec)

lemma write_bytes_effect:
  assumes "created_in fs base target content fs1" "node_at fs1 (butlast target) = Some F_Dir"
    "node_at fs1 target = None" "write_bytes fs1 target content fault = (fs2, e)"
  shows "created_in fs base target content fs2 \<and> (e = None \<longrightarrow> node_at fs2 target = Some (F_File content))"
proof -
  have t: "target \<noteq> []" using assms(1) by (auto simp: created_in_def node_at_def)
  then have b: "butlast target @ [last target] = target" by simp
  have ok: "fs_ok ((target, x) # fs1)" for x
    using fs_ok_Cons [of fs1 "butlast target" "last target" x] assms(1-3) b by (simp add: created_in_def)
  have w: "created_in fs base target content ((target, F_File bs) # fs1)" if "prefix bs content" for bs
    using assms(1) ok that t by (auto simp: created_in_def node_at_Cons)
  have "prefix (take n content) content" for n by (rule take_is_prefix)
  then show ?thesis using assms w t by (auto simp: write_bytes_def node_at_Cons split: if_splits disk_fault.splits)
qed

lemma create_sandboxed_effect:
  assumes "fs_ok fs" "no_slashes rt" "create_sandboxed fs rt rel content fault = (fs', r)"
  shows "fs' = fs \<and> \<not> is_ok r \<or> (\<exists>base target. path_resolve fs rt = Some base \<and> resolve_sandbox_path fs rt rel = Inr target \<and>
     created_in fs base target content fs' \<and> (is_ok r \<longrightarrow> r = Inr target \<and> node_at fs' target = Some (F_File content)))"
proof (cases "\<exists>target fs1. resolve_sandbox_path fs rt rel = Inr target \<and> check_content_size content = Inr () \<and>
    check_no_overwrite fs target = Inr () \<and> mkdirs fs (butlast target) fault = Inr fs1")
  case True
  then obtain target fs1 where t: "resolve_sandbox_path fs rt rel = Inr target" "check_content_size content = Inr ()"
    "check_no_overwrite fs target = Inr ()" "mkdirs fs (butlast target) fault = Inr fs1" by blast
  obtain base where base: "path_resolve fs rt = Some base" "prefix base target" "resolved fs target"
    using resolve_sandbox_pathD [OF t(1) assms(2)] by blast
  have none: "node_at fs target = None"
    using t(3) stat_resolved [OF assms(1) base(3)] by (simp add: check_no_overwrite_def path_exists_def split: if_splits)
  then have ne: "target \<noteq> []" by (auto simp: node_at_def)
  then have up: "prefix q (butlast target) \<Longrightarrow> strict_prefix q target" for q
    by (metis append_butlast_last_id not_Cons_self2 prefix_order.less_le_trans prefix_snoc same_prefix_nil strict_prefix_def)
  note m = mkdirs_effect [OF t(4) assms(1)]
  have not: "\<not> prefix target (butlast target)" using up [of target] by auto
  then have n1: "node_at fs1 target = None"
    using m [THEN conjunct2, THEN conjunct2, THEN spec, of target] none by auto
  have "created_in fs base target content fs1"
    using m t(2) base none up by (fastforce simp: created_in_def check_content_size_def split: if_splits)
  then show ?thesis
    using write_bytes_effect [OF _ _ n1] m assms(3) t base
    by (force simp: create_sandboxed_def split: prod.splits option.splits)
next
  case False
  then show ?thesis using assms(3)
    by (auto simp: create_sandboxed_def split: sum.splits fs_exn.splits)
qed

lemma file_execute_effect:
  assumes "fs_ok fs" "no_slashes (cx_root cx)" "file_execute a cx fs = (fs', r)"
  shows "fs' = fs \<or> (\<exists>base target rel content. path_resolve fs (cx_root cx) = Some base \<and> file_inputs a = Some (rel, content) \<and>
     resolve_sandbox_path fs (cx_root cx) rel = Inr target \<and> created_in fs base target (utf8_encode content) fs')"
proof (cases "file_inputs a")
  case None
  then show ?thesis using assms(3) by (simp add: file_execute_def Let_def)
next
  case (Some rc)
  obtain rel content where rc: "rc = (rel, content)" by (cases rc)
  obtain fs1 s where c: "create_sandboxed fs (cx_root cx) rel (utf8_encode content) (cx_fault cx) = (fs1, s)" by fastforce
  have "fs' = fs1" using assms(3) Some rc c
    by (auto simp: file_execute_def Let_def split: sum.splits create_failure.splits os_error.splits option.splits)
  then show ?thesis using create_sandboxed_effect [OF assms(1,2) c] Some rc by blast
qed

text \<open>Joining the recorded relative path to the root gives the target back.\<close>

lemma split_on_join:
  assumes "ns \<noteq> []" "\<forall>n \<in> set ns. d \<notin> set n"
  shows "split_on d (py_join [d] ns) = ns"
proof -
  have one: "d \<notin> set n \<Longrightarrow> split_on d n = [n]" for n by (induction n) auto
  have two: "d \<notin> set n \<Longrightarrow> split_on d (n @ [d] @ t) = n # split_on d t" for n t
    by (induction n) auto
  show ?thesis using assms
  proof (induction "[d]" ns rule: py_join.induct)
    case (3 x y ys)
    then show ?case using two [of x "py_join [d] (y # ys)"] by simp
  qed (auto simp: one)
qed

lemma path_join_relative:
  assumes "list_all plain_name target" "prefix base target" "base \<noteq> target"
  shows "relative_posix base target \<noteq> [] \<and> path_join base (relative_posix base target) = target"
proof -
  obtain ns where ns: "target = base @ ns" using assms(2) by (auto simp: prefix_def)
  have ne: "ns \<noteq> []" using assms(3) ns by simp
  have plain: "list_all plain_name ns" using assms(1) ns by simp
  then have split: "split_on (CHR ''/'') (py_join ''/'' ns) = ns"
    by (intro split_on_join ne) (auto simp: list_all_iff plain_name_def)
  have keep: "filter (\<lambda>n. n \<notin> {[], ''.''}) ns = ns"
    using plain by (auto simp: list_all_iff plain_name_def intro: filter_True)
  obtain n rest where nr: "ns = n # rest" "n \<noteq> []" "CHR ''/'' \<notin> set n"
    using ne plain by (cases ns) (auto simp: plain_name_def)
  obtain c n' where n': "n = c # n'" "c \<noteq> CHR ''/''" using nr(2,3) by (cases n) auto
  have "take 1 (py_join ''/'' ns) = [c]" "py_join ''/'' ns \<noteq> []" using nr(1) n' by (cases rest; simp)+
  then show ?thesis using ns split keep n'(2) by (simp add: path_join_def relative_posix_def)
qed

lemma utf8_valid_encode: "utf8_valid (utf8_encode s)"
proof (induction s)
  case (Cons c s)
  define n :: nat where "n = of_char c"
  have n: "n < 256" by (simp add: n_def)
  have e: "utf8_encode (c # s) = (if n < 128 then [n] else [192 + n div 64, 128 + n mod 64]) @ utf8_encode s"
    by (simp add: utf8_encode_def n_def Let_def)
  have "\<not> n < 128 \<Longrightarrow> 194 \<le> 192 + n div 64 \<and> 192 + n div 64 \<le> 223 \<and> utf8_cont (128 + n mod 64)"
    using n by (auto simp: utf8_cont_def)
  then show ?case using Cons e by auto
qed (simp add: utf8_encode_def)

text \<open>After a successful call the file is there with the content, and both read-only checks accept it.\<close>

lemma created_resolved:
  assumes "created_in fs base target content fs'" "resolved fs p"
  shows "resolved fs' p"
proof -
  have "node_at fs' (take k p) \<noteq> Some (F_Link t)" for k t
  proof -
    have "node_at fs' (take k p) = node_at fs (take k p) \<or> node_at fs' (take k p) = Some F_Dir \<or>
        (\<exists>bs. node_at fs' (take k p) = Some (F_File bs))"
      using assms(1) by (auto simp: created_in_def)
    then show ?thesis using assms(2) by (auto simp: resolved_def clean_def)
  qed
  then show ?thesis using assms(2) by (simp add: resolved_def clean_def)
qed

lemma resolved_prefix: "resolved fs q \<Longrightarrow> prefix p q \<Longrightarrow> resolved fs p"
  using clean_prefix by (auto simp: resolved_def prefix_def)

lemma not_symlink_resolved:
  assumes "fs_ok fs" "resolved fs p"
  shows "\<not> path_is_symlink fs p"
proof (cases "p = []")
  case False
  have "butlast p @ [last p] = p" using False by simp
  then have r: "resolved fs (butlast p)" and c: "\<forall>t. node_at fs p \<noteq> Some (F_Link t)"
    using resolved_prefix [OF assms(2)] assms(2) clean_snoc [of fs "butlast p" "last p"] by (simp_all add: resolved_def prefixeq_butlast)
  consider "lstat fs p = None" | "lstat fs p = node_at fs p"
  proof (cases "kernel_walk fs max_symlinks [] (butlast p)")
    case (Some d)
    have "d = butlast p"
      using kernel_walk_self [of fs "[]" "butlast p" max_symlinks d] r Some by (simp add: resolved_def)
    then have "lstat fs p = (if node_at fs (butlast p) = Some F_Dir then node_at fs p else None)"
      using False Some \<open>butlast p @ [last p] = p\<close> by (simp add: lstat_def)
    then show ?thesis using that by (cases "node_at fs (butlast p) = Some F_Dir") simp_all
  qed (use that False in \<open>simp add: lstat_def\<close>)
  then show ?thesis using c by cases (auto simp: path_is_symlink_def split: option.splits fnode.splits)
qed (simp add: path_is_symlink_def lstat_def)

lemma created_same_links:
  assumes "created_in fs base target content fs'"
  shows "node_at fs' p = Some (F_Link t) \<longleftrightarrow> node_at fs p = Some (F_Link t)"
proof -
  have "node_at fs' p = node_at fs p \<or> node_at fs p = None \<and> (node_at fs' p = Some F_Dir \<or> (\<exists>bs. node_at fs' p = Some (F_File bs)))"
    using assms by (auto simp: created_in_def)
  then show ?thesis by auto
qed

lemma path_resolve_created: "created_in fs base target content fs' \<Longrightarrow> path_resolve fs' p = path_resolve fs p"
  using created_same_links by (simp add: path_resolve_def realpath_walk_same_links same_links_def)

lemma file_execute_success:
  assumes "fs_ok fs" "no_slashes (cx_root cx)" "file_execute a cx fs = (fs', Inr r)" "er_success r"
  obtains base target rel content where "path_resolve fs (cx_root cx) = Some base" "file_inputs a = Some (rel, content)"
    "resolve_sandbox_path fs (cx_root cx) rel = Inr target" "created_in fs base target (utf8_encode content) fs'"
    "node_at fs' target = Some (F_File (utf8_encode content))"
    "r = file_success a (cx_now cx 0) (cx_now cx 1) (relative_posix base target) (utf8_encode content) (cx_attempt cx)"
proof -
  obtain rel content where i: "file_inputs a = Some (rel, content)"
    using assms(3,4) by (cases "file_inputs a") (auto simp: file_execute_def Let_def file_failure_def)
  obtain fs1 s where c: "create_sandboxed fs (cx_root cx) rel (utf8_encode content) (cx_fault cx) = (fs1, s)" by fastforce
  have s: "is_ok s \<and> fs1 = fs'" using assms(3,4) i c
    by (auto simp: file_execute_def Let_def file_failure_def split: sum.splits create_failure.splits os_error.splits option.splits)
  then obtain base target where bt: "path_resolve fs (cx_root cx) = Some base" "resolve_sandbox_path fs (cx_root cx) rel = Inr target"
    "created_in fs base target (utf8_encode content) fs'" "s = Inr target" "node_at fs' target = Some (F_File (utf8_encode content))"
    using create_sandboxed_effect [OF assms(1,2) c] by auto
  then have "r = file_success a (cx_now cx 0) (cx_now cx 1) (relative_posix base target) (utf8_encode content) (cx_attempt cx)"
    using assms(3) i c s path_resolve_created [OF bt(3)] by (simp add: file_execute_def Let_def)
  then show thesis using that bt i by blast
qed

section \<open>Properties\<close>

text \<open>C2: execution stays inside the sandbox and never overwrites. Whatever the action asks for and however the
  disk fails, no existing entry of the file system is changed or removed; every new entry lies below the
  resolved sandbox root or is a directory on the way to it; at most one file is created, and it is
  no longer than the limit.\<close>

theorem sandbox_containment:
  assumes "fs_ok fs" "no_slashes (cx_root cx)" "file_execute a cx fs = (fs', r)"
  shows "(\<forall>q. node_at fs' q \<noteq> node_at fs q \<longrightarrow> node_at fs q = None \<and>
      (\<exists>base. path_resolve fs (cx_root cx) = Some base \<and> (prefix base q \<or> prefix q base \<and> node_at fs' q = Some F_Dir))) \<and>
    (\<exists>target. \<forall>q bs. node_at fs' q = Some (F_File bs) \<and> node_at fs q = None \<longrightarrow>
      q = target \<and> length bs \<le> max_content_bytes)"
  using file_execute_effect [OF assms]
proof (elim disjE exE conjE)
  fix base target rel content
  assume b: "path_resolve fs (cx_root cx) = Some base" and c: "created_in fs base target (utf8_encode content) fs'"
  have "prefix base q \<or> prefix q base" if "prefix q target" for q
    using that c prefix_same_cases by (auto simp: created_in_def)
  then have "node_at fs q = None \<and> (prefix base q \<or> prefix q base \<and> node_at fs' q = Some F_Dir)"
    if "node_at fs' q \<noteq> node_at fs q" for q
    using that c by (auto simp: created_in_def strict_prefix_def)
  moreover have "q = target \<and> length bs \<le> max_content_bytes" if "node_at fs' q = Some (F_File bs)" "node_at fs q = None" for q bs
  proof -
    have "q = target \<and> prefix bs (utf8_encode content) \<and> length (utf8_encode content) \<le> max_content_bytes"
      using that created_inD [OF c, of q] c by (auto simp: created_in_def)
    then show ?thesis using prefix_length_le [of bs "utf8_encode content"] by auto
  qed
  ultimately show ?thesis using b by blast
qed fastforce

definition sample_fs :: fs where
  "sample_fs = [([''box''], F_Dir)]"

definition sample_context :: exec_context where
  "sample_context = \<lparr>cx_root = [''box''], cx_now = (\<lambda>i. int i), cx_attempt = ''t1'', cx_fault = No_Fault\<rparr>"

lemma sample_fs_ok: "fs_ok sample_fs" "no_slashes (cx_root sample_context)"
  by (simp_all add: fs_ok_def sample_fs_def sample_context_def node_at_def no_slashes_def)

text \<open>A successful execution did what it reports. The file at the target holds exactly the requested content in
  UTF-8, the reported path, size and digest are those of the file, verification of the result passes, and
  the read-only inspection finds the expected effect.\<close>

theorem execute_then_verify:
  assumes "fs_ok fs" "no_slashes (cx_root cx)" "file_execute a cx fs = (fs', Inr r)" "er_success r"
  shows "\<exists>rel content target. file_inputs a = Some (rel, content) \<and>
    resolve_sandbox_path fs (cx_root cx) rel = Inr target \<and> node_at fs target = None \<and>
    node_at fs' target = Some (F_File (utf8_encode content)) \<and> er_side_effect_occurred r \<and>
    (\<exists>v. file_verify a r cx fs' = Inr v \<and> vr_passed v \<and> vr_issues v = []) \<and>
    (resolve_sandbox_path fs' (cx_root cx) rel = Inr target \<longrightarrow>
      (\<exists>i. file_inspect_effect a cx fs' = Inr i \<and> ei_exists i \<and> ei_matches_expected i = Some True))"
proof -
  obtain base target rel content where b: "path_resolve fs (cx_root cx) = Some base" and i: "file_inputs a = Some (rel, content)"
    and t: "resolve_sandbox_path fs (cx_root cx) rel = Inr target" and c: "created_in fs base target (utf8_encode content) fs'"
    and n: "node_at fs' target = Some (F_File (utf8_encode content))"
    and r: "r = file_success a (cx_now cx 0) (cx_now cx 1) (relative_posix base target) (utf8_encode content) (cx_attempt cx)"
    by (rule file_execute_success [OF assms])
  have ok': "fs_ok fs'" and pre: "prefix base target" and none: "node_at fs target = None" using c by (simp_all add: created_in_def)
  have res: "resolved fs' target" and resb: "path_resolve fs' (cx_root cx) = Some base"
    using created_resolved [OF c] c path_resolve_created [OF c] b by (simp_all add: created_in_def)
  have st: "stat fs' target = Some (F_File (utf8_encode content))" using stat_resolved [OF ok' res] n by simp
  have sym: "\<not> path_is_symlink fs' target" using not_symlink_resolved [OF ok' res] .
  have ne: "base \<noteq> target"
    by (rule resolve_sandbox_path_new [OF assms(1,2) t b none])
  have "path_join base (relative_posix base target) = target" "relative_posix base target \<noteq> []"
    using path_join_relative [OF _ pre ne] res by (simp_all add: resolved_def)
  moreover have "path_resolve fs' target = Some target" by (rule path_resolve_idem [OF res])
  ultimately have "target_issues fs' base (Some (path_join base (relative_posix base target))) (Some (JStr (sha256_bytes (utf8_encode content))))
      (Some (JInt (int (length (utf8_encode content))))) = Inr []"
    using st sym pre by (simp add: target_issues_def path_exists_def content_issues_def utf8_valid_encode)
  then have "\<exists>v. file_verify a r cx fs' = Inr v \<and> vr_passed v \<and> vr_issues v = []"
    using resb \<open>relative_posix base target \<noteq> []\<close>
    by (simp add: file_verify_def r file_success_def Let_def get_value_def obj_get_def verification_of_def)
  moreover have "\<exists>i. file_inspect_effect a cx fs' = Inr i \<and> ei_exists i \<and> ei_matches_expected i = Some True"
    if "resolve_sandbox_path fs' (cx_root cx) rel = Inr target"
    using that i resb st sym pre
    by (simp add: file_inspect_effect_def inspect_target_def path_exists_def path_is_file_def Let_def)
  ultimately show ?thesis using i t none n r by (simp add: file_success_def)
qed

definition sample_file_action :: action where
  "sample_file_action = \<lparr>a_id = ''f1'', a_action_plan_id = ''p1'', a_sequence = 1, a_action_type = ''sandbox_create'', a_title = ''note'',
     a_description = [], a_agent_type = ''execution'', a_tool_name = Some ''file.create_sandboxed'',
     a_inputs = [(''relative_path'', JStr ''a.txt''), (''content'', JStr ''hi'')], a_risk_level = LOW,
     a_permission_level = WRITE, a_approval_required = False, a_approval_id = None, a_estimated_cost = None,
     a_dependencies = [], a_expected_result = ''a file'', a_success_criteria = [], a_verification_method = [],
     a_status = AS_PERMISSION_CHECKED, a_started_at = None, a_completed_at = None, a_result = None, a_error = None,
     a_retry_count = 0, a_max_retries = 0, a_superseded_by = None\<rparr>"

lemma sample_inputs: "file_inputs sample_file_action = Some (''a.txt'', ''hi'')"
  by (simp add: file_inputs_def sample_file_action_def obj_get_def)

lemma sample_resolves:
  "resolve_sandbox_path sample_fs [''box''] ''a.txt'' = Inr [''box'', ''a.txt'']" "path_resolve sample_fs [''box''] = Some [''box'']"
  "check_no_overwrite sample_fs [''box'', ''a.txt''] = Inr ()" "mkdirs sample_fs [''box''] fault = (case fault of Mkdir_Fault m \<Rightarrow> Inl (Os_Error m) | _ \<Rightarrow> Inr sample_fs)"
  by (code_simp, code_simp, code_simp) (simp add: mkdirs_def sample_fs_def node_at_def split: disk_fault.split)

lemma executes_in_sample_fs:
  assumes "file_inputs a = Some (''a.txt'', ''hi'')" "cx_root cx = [''box'']" "cx_fault cx = No_Fault"
  shows "file_execute a cx sample_fs = (([''box'', ''a.txt''], F_File (utf8_encode ''hi'')) # sample_fs,
     Inr (file_success a (cx_now cx 0) (cx_now cx 1) ''a.txt'' (utf8_encode ''hi'') (cx_attempt cx)))"
proof -
  have "path_resolve (([''box'', ''a.txt''], F_File (utf8_encode ''hi'')) # sample_fs) [''box''] = Some [''box'']" by code_simp
  moreover have "check_content_size (utf8_encode ''hi'') = Inr ()"
    by (simp add: check_content_size_def max_content_bytes_def utf8_encode_def Let_def)
  moreover have "node_at sample_fs [''box''] = Some F_Dir" "node_at sample_fs [''box'', ''a.txt''] = None"
    by (simp_all add: node_at_def sample_fs_def)
  ultimately show ?thesis
    using assms by (simp add: file_execute_def Let_def create_sandboxed_def sample_resolves write_bytes_def relative_posix_def)
qed

lemma sample_executes: "file_execute sample_file_action sample_context sample_fs =
    (([''box'', ''a.txt''], F_File (utf8_encode ''hi'')) # sample_fs,
     Inr (file_success sample_file_action 0 1 ''a.txt'' (utf8_encode ''hi'') ''t1''))"
  using executes_in_sample_fs [OF sample_inputs, of sample_context] by (simp add: sample_context_def)

theorem sandbox_containment_witness:
  "\<exists>fs' r base. file_execute sample_file_action sample_context sample_fs = (fs', r) \<and>
     node_at fs' [''box'', ''a.txt''] \<noteq> node_at sample_fs [''box'', ''a.txt''] \<and> node_at sample_fs [''box'', ''a.txt''] = None \<and>
     path_resolve sample_fs [''box''] = Some base \<and> prefix base [''box'', ''a.txt'']"
proof -
  let ?fs = "([''box'', ''a.txt''], F_File (utf8_encode ''hi'')) # sample_fs"
  have "node_at ?fs [''box'', ''a.txt''] = Some (F_File (utf8_encode ''hi''))" "node_at sample_fs [''box'', ''a.txt''] = None"
    by (simp_all add: node_at_def sample_fs_def)
  moreover have "cx_root sample_context = [''box'']" by (simp add: sample_context_def)
  ultimately show ?thesis
    using sandbox_containment [OF sample_fs_ok sample_executes, THEN conjunct1, THEN spec, of "[''box'', ''a.txt'']"] sample_executes by auto
qed

theorem execute_then_verify_witness:
  "\<exists>v. file_verify sample_file_action (file_success sample_file_action 0 1 ''a.txt'' (utf8_encode ''hi'') ''t1'') sample_context
     (([''box'', ''a.txt''], F_File (utf8_encode ''hi'')) # sample_fs) = Inr v \<and> vr_passed v"
  using execute_then_verify [OF sample_fs_ok sample_executes] by (auto simp: file_success_def)

text \<open>A failed write can leave a file behind unreported. When the disk fails after some bytes, the result says
  that no side effect occurred, while the target now exists with the bytes written so far.\<close>

theorem partial_write_unreported:
  assumes "fs_ok fs" "no_slashes (cx_root cx)" "cx_fault cx = Write_Fault n m" "file_inputs a = Some (rel, content)"
    and "resolve_sandbox_path fs (cx_root cx) rel = Inr target" "node_at fs target = None"
    and "length (utf8_encode content) \<le> max_content_bytes" "mkdirs fs (butlast target) (cx_fault cx) = Inr fs1"
  shows "\<exists>fs' r. file_execute a cx fs = (fs', Inr r) \<and> \<not> er_success r \<and> \<not> er_side_effect_occurred r \<and>
    er_error_code r = Some ''TOOL_EXECUTION_FAILURE'' \<and> node_at fs' target = Some (F_File (take n (utf8_encode content)))"
proof -
  have res: "resolved fs target" using resolve_sandbox_pathD [OF assms(5,2)] by blast
  have ne: "target \<noteq> []" using assms(6) by (auto simp: node_at_def)
  have "\<not> prefix target (butlast target)" using ne by (metis append_butlast_last_id not_prefix_induct prefix_order.dual_order.antisym prefixeq_butlast not_Cons_self2 append_self_conv)
  then have d: "node_at fs1 (butlast target) = Some F_Dir" "node_at fs1 target = None"
    using mkdirs_effect [OF assms(8,1)] assms(6) by (blast, metis)
  have "check_no_overwrite fs target = Inr ()" "check_content_size (utf8_encode content) = Inr ()"
    using stat_resolved [OF assms(1) res] assms(6,7) by (simp_all add: check_no_overwrite_def path_exists_def check_content_size_def)
  then have "create_sandboxed fs (cx_root cx) rel (utf8_encode content) (cx_fault cx) =
      ((target, F_File (take n (utf8_encode content))) # fs1, Inl (Create_Os (Os_Error m)))"
    using assms(3,5,8) d by (simp add: create_sandboxed_def write_bytes_def)
  then show ?thesis using assms(4) ne by (simp add: file_execute_def Let_def file_failure_def node_at_Cons)
qed

theorem partial_write_unreported_witness:
  "\<exists>fs' r. file_execute sample_file_action (sample_context\<lparr>cx_fault := Write_Fault 1 ''no space''\<rparr>) sample_fs = (fs', Inr r) \<and>
     \<not> er_side_effect_occurred r \<and> node_at fs' [''box'', ''a.txt''] = Some (F_File (take 1 (utf8_encode ''hi'')))"
proof -
  let ?cx = "sample_context\<lparr>cx_fault := Write_Fault 1 ''no space''\<rparr>"
  have c: "no_slashes (cx_root ?cx)" "cx_fault ?cx = Write_Fault 1 ''no space''" "cx_root ?cx = [''box'']"
    by (simp_all add: sample_context_def no_slashes_def)
  have "length (utf8_encode ''hi'') \<le> max_content_bytes" by (simp add: max_content_bytes_def utf8_encode_def Let_def)
  moreover have "node_at sample_fs [''box'', ''a.txt''] = None" by (simp add: node_at_def sample_fs_def)
  ultimately show ?thesis
    using partial_write_unreported [OF sample_fs_ok(1) c(1,2) sample_inputs, of "[''box'', ''a.txt'']" sample_fs] sample_resolves c(3)
    by auto
qed

text \<open>A link that only \<open>realpath\<close> can pass hides that the leaf is a symlink: \<open>a\<close> points to \<open>gone/../d\<close>, which the
  kernel cannot resolve, and \<open>d/x.txt\<close> is a link to \<open>run.sh\<close>. The leaf is then followed, and the target
  has an extension that is not allowed.\<close>

definition odd_fs :: fs where
  "odd_fs = [([''box''], F_Dir), ([''box'', ''a''], F_Link ''gone/../d''), ([''box'', ''d''], F_Dir),
     ([''box'', ''d'', ''x.txt''], F_Link ''run.sh'')]"

lemma leaf_symlink_followed:
  "resolve_sandbox_path odd_fs [''box''] ''a/x.txt'' = Inr [''box'', ''d'', ''run.sh'']"
  "path_is_symlink odd_fs [''box'', ''d'', ''x.txt'']"
  "py_lower (path_suffix ''run.sh'') \<notin> set allowed_extensions"
  by code_simp+

end
