(* ===== verification/Action_Executor.thy ===== *)
theory Action_Executor
  imports Tool_Adapters Database
begin

text \<open>
  \<open>app/decision_intelligence/action_executor.py\<close>: the single entry point that runs an Action. The parameters
  the caller fixes are a record; the readings of the clock are numbered by call site. The approval
  table is present when a repository is passed; a refusal that is an ordinary outcome is an
  \<open>execution_outcome\<close>, an exception an \<open>executor_error\<close>. Audit events are log output and left out.
\<close>

section \<open>Environment and outcomes\<close>

record exec_env =
  xe_tools :: tool_registry
  xe_adapters :: adapter_registry
  xe_root :: path
  xe_clock :: "nat \<Rightarrow> datetime"
  xe_attempt :: string
  xe_fault :: disk_fault

datatype executor_error =
    ActionDecisionMismatchError string string
  | Executor_Transition action_transition_error
  | Executor_Adapter fs_exn
  | Executor_Load load_error

record execution_outcome =
  eo_action :: action
  eo_execution_result :: "execution_result option"
  eo_verification_result :: "verification_result option"

fun fail_target_by_source :: "action_status \<Rightarrow> action_status option" where
  "fail_target_by_source AS_PLANNED = Some AS_FAILED"
| "fail_target_by_source AS_VALIDATED = Some AS_FAILED"
| "fail_target_by_source AS_PERMISSION_CHECKED = Some AS_FAILED"
| "fail_target_by_source AS_APPROVED = Some AS_CANCELLED"
| "fail_target_by_source AS_WAITING_FOR_APPROVAL = Some AS_CANCELLED"
| "fail_target_by_source _ = None"

definition refusal_result :: "action \<Rightarrow> executor_failure_code \<Rightarrow> string \<Rightarrow> datetime \<Rightarrow> execution_result" where
  "refusal_result a code message now = \<lparr>er_action_id = a_id a, er_tool_name = a_tool_name a, er_started_at = now,
     er_completed_at = now, er_success = False, er_provider_status = None, er_output = None, er_side_effects = [],
     er_cost = None, er_error_type = Some (executor_failure_category code), er_error_message = Some message,
     er_execution_attempt_id = None, er_error_code = Some (executor_failure_code_value code),
     er_side_effect_occurred = False, er_adapter_version = None\<rparr>"

definition refused_action :: "action \<Rightarrow> string \<Rightarrow> datetime \<Rightarrow> action" where
  "refused_action a message now = (case fail_target_by_source (a_status a) of
     Some target \<Rightarrow> if can_action_transition (a_status a) target
       then a\<lparr>a_status := target, a_completed_at := Some now, a_error := Some message\<rparr> else a
   | None \<Rightarrow> a)"

definition fail_outcome :: "action \<Rightarrow> executor_failure_code \<Rightarrow> string \<Rightarrow> datetime \<Rightarrow> execution_outcome" where
  "fail_outcome a code message now = \<lparr>eo_action = refused_action a message now,
     eo_execution_result = Some (refusal_result a code message now), eo_verification_result = None\<rparr>"

section \<open>The approval gate\<close>

text \<open>\<open>str(exc)\<close> of what \<open>consume_approval\<close> raises; the dash U+2014 is transcribed as a hyphen.\<close>

fun approval_error_message :: "approval_error \<Rightarrow> string" where
  "approval_error_message (ApprovalNotApprovedError s) = ''ApprovalRequest.status is '' @ approval_status_value s @ '', not APPROVED''"
| "approval_error_message (ApprovalActionIdMismatchError x y) = ''ApprovalRequest.action_id '' @ quoted x @
     '' does not match Action.id '' @ quoted y @ '' - an approval for one Action may never authorize another''"
| "approval_error_message (ApprovalHashMismatchError x y) = ''Action payload no longer matches the approved hash ('' @ x @
     '' != '' @ y @ '') - a new ApprovalRequest is required; the old one is not updated or reused''"
| "approval_error_message (ApprovalAlreadyConsumedError i) = ''ApprovalRequest '' @ quoted i @ '' was already consumed''"
| "approval_error_message (ApprovalExpiredError i t now) = ''ApprovalRequest '' @ quoted i @ '' expired at '' @
     (case t of None \<Rightarrow> ''?'' | Some e \<Rightarrow> iso_format e) @ '' (now='' @ iso_format now @
     '') and can no longer authorize or be consumed''"
| "approval_error_message (ApprovalEngineError m) = m"
| "approval_error_message _ = []"

datatype gate = Gate_Fail executor_failure_code string | Gate_Raise executor_error | Gate_Open

definition approval_gate :: "(nat \<Rightarrow> datetime) \<Rightarrow> approval_row list option \<Rightarrow> action \<Rightarrow> permission_decision \<Rightarrow>
    approval_request option \<Rightarrow> approval_row list option \<times> gate" where
  "approval_gate clk approvals a d req =
     (if pd_outcome d = REQUIRE_APPROVAL then
        (if a_status a \<noteq> AS_APPROVED then (approvals, Gate_Fail EC_APPROVAL_FAILURE
           ''Action requires approval but is not ActionStatus.APPROVED'')
         else case req of
             None \<Rightarrow> (approvals, Gate_Fail EC_APPROVAL_FAILURE ''No ApprovalRequest supplied for an approval-gated action'')
           | Some r \<Rightarrow> (case (case approvals of None \<Rightarrow> Inr (Some r) | Some t \<Rightarrow> load_approval_request t (ar_id r)) of
                Inl e \<Rightarrow> (approvals, Gate_Raise (Executor_Load e))
              | Inr None \<Rightarrow> (approvals, Gate_Fail EC_APPROVAL_FAILURE ''durable ApprovalRequest row not found'')
              | Inr (Some current) \<Rightarrow>
                  let validity = validate_approval_for_action (clk 0) current a in
                  if \<not> av_valid validity then (approvals, Gate_Fail EC_APPROVAL_FAILURE
                    (''ApprovalRequest invalid: '' @ py_join '', '' (map validity_reason_value (av_reason_codes validity))))
                  else (case approvals of
                      Some t \<Rightarrow> (case consume_durable t (ar_id current) (a_id a) (ar_action_hash current) (clk 1) of
                          (True, t') \<Rightarrow> (Some t', Gate_Open)
                        | (False, t') \<Rightarrow> (Some t', Gate_Fail EC_APPROVAL_FAILURE
                            ''Approval could not be atomically consumed (already consumed, or no longer valid)''))
                    | None \<Rightarrow> (case consume_approval (clk 1) current (Some a) of
                          Inl e \<Rightarrow> (None, Gate_Fail EC_APPROVAL_FAILURE (approval_error_message e))
                        | Inr _ \<Rightarrow> (None, Gate_Open)))))
      else if a_status a \<noteq> AS_PERMISSION_CHECKED
        then (approvals, Gate_Fail EC_VALIDATION_FAILURE ''Action is not ActionStatus.PERMISSION_CHECKED'')
      else (approvals, Gate_Open))"

section \<open>Resolving and running the adapter\<close>

definition resolve_adapter :: "tool_registry \<Rightarrow> adapter_registry \<Rightarrow> action \<Rightarrow> string + adapter" where
  "resolve_adapter tools adapters a = (case a_tool_name a of
     None \<Rightarrow> Inl (tool_error_message (UnknownToolError ''None''))
   | Some n \<Rightarrow> (case registry_resolve tools n (a_action_type a) of
        Inl e \<Rightarrow> Inl (tool_error_message e)
      | Inr _ \<Rightarrow> if \<not> adapter_contains adapters n then Inl (''No trusted adapter registered for '' @ quoted n)
          else map_sum (\<lambda>_. ''No trusted adapter registered for '' @ quoted n) id (adapter_get adapters n)))"

definition step_to :: "action \<Rightarrow> action_status \<Rightarrow> executor_error + action" where
  "step_to a target = (case assert_action_transition (a_status a) target of
     Inl e \<Rightarrow> Inl (Executor_Transition e) | Inr _ \<Rightarrow> Inr (a\<lparr>a_status := target\<rparr>))"

definition executing_at :: "action \<Rightarrow> datetime \<Rightarrow> executor_error + action" where
  "executing_at a started = map_sum id (\<lambda>x. x\<lparr>a_started_at := Some started\<rparr>) (step_to a AS_EXECUTING)"

definition failed_execution :: "action \<Rightarrow> execution_result \<Rightarrow> executor_error + action" where
  "failed_execution a r = map_sum id (\<lambda>x. x\<lparr>a_completed_at := Some (er_completed_at r), a_error := er_error_message r,
     a_result := er_output r\<rparr>) (step_to a AS_FAILED)"

definition succeeded_execution :: "action \<Rightarrow> execution_result \<Rightarrow> executor_error + action" where
  "succeeded_execution a r = map_sum id (\<lambda>x. x\<lparr>a_completed_at := Some (er_completed_at r), a_result := er_output r\<rparr>)
     (step_to a AS_EXECUTION_SUCCEEDED)"

definition failed_verification :: "action \<Rightarrow> verification_result \<Rightarrow> executor_error + action" where
  "failed_verification a v = bind_sum (step_to a AS_VERIFICATION_FAILED) (\<lambda>x.
     map_sum id (\<lambda>y. y\<lparr>a_error := Some (py_join ''; '' (vr_issues v))\<rparr>) (step_to x AS_FAILED))"

definition settle_execution :: "exec_env \<Rightarrow> adapter \<Rightarrow> action \<Rightarrow> execution_result \<Rightarrow> fs \<Rightarrow> executor_error + execution_outcome" where
  "settle_execution env ad executing r fs =
     (if \<not> er_success r then
        map_sum id (\<lambda>x. \<lparr>eo_action = x, eo_execution_result = Some r, eo_verification_result = None\<rparr>)
          (failed_execution executing r)
      else
        bind_sum (succeeded_execution executing r) (\<lambda>succeeded.
        bind_sum (step_to succeeded AS_VERIFYING) (\<lambda>verifying.
        bind_sum (map_sum Executor_Adapter id (ad_verify ad verifying r \<lparr>cx_root = xe_root env,
            cx_now = (\<lambda>i. xe_clock env (6 + i)), cx_attempt = xe_attempt env, cx_fault = xe_fault env\<rparr> fs)) (\<lambda>v.
        map_sum id (\<lambda>x. \<lparr>eo_action = x, eo_execution_result = Some r, eo_verification_result = Some v\<rparr>)
          (if \<not> vr_passed v then failed_verification verifying v
           else bind_sum (step_to verifying AS_VERIFIED) (\<lambda>verified. step_to verified AS_COMPLETED))))))"

definition run_adapter :: "exec_env \<Rightarrow> adapter \<Rightarrow> action \<Rightarrow> fs \<Rightarrow> fs \<times> (executor_error + execution_outcome)" where
  "run_adapter env ad a fs = (case executing_at a (xe_clock env 3) of
     Inl e \<Rightarrow> (fs, Inl e)
   | Inr executing \<Rightarrow> (case ad_execute ad executing \<lparr>cx_root = xe_root env, cx_now = (\<lambda>i. xe_clock env (4 + i)),
          cx_attempt = xe_attempt env, cx_fault = xe_fault env\<rparr> fs of
        (fs', Inl x) \<Rightarrow> (fs', Inl (Executor_Adapter x))
      | (fs', Inr r) \<Rightarrow> (fs', settle_execution env ad executing r fs')))"

definition execute_action :: "exec_env \<Rightarrow> approval_row list option \<Rightarrow> fs \<Rightarrow> action \<Rightarrow> permission_decision \<Rightarrow>
    approval_request option \<Rightarrow> approval_row list option \<times> fs \<times> (executor_error + execution_outcome)" where
  "execute_action env approvals fs a d req =
     (if pd_action_id d \<noteq> a_id a then (approvals, fs, Inl (ActionDecisionMismatchError (a_id a) (pd_action_id d)))
      else if a_status a = AS_COMPLETED then
        (approvals, fs, Inr \<lparr>eo_action = a, eo_execution_result = None, eo_verification_result = None\<rparr>)
      else if pd_outcome d = BLOCK then
        (approvals, fs, Inr (fail_outcome a EC_PERMISSION_FAILURE ''PermissionDecision is BLOCK; cannot execute'' (xe_clock env 2)))
      else (case approval_gate (xe_clock env) approvals a d req of
          (t, Gate_Fail code m) \<Rightarrow> (t, fs, Inr (fail_outcome a code m (xe_clock env 2)))
        | (t, Gate_Raise e) \<Rightarrow> (t, fs, Inl e)
        | (t, Gate_Open) \<Rightarrow> (case resolve_adapter (xe_tools env) (xe_adapters env) a of
             Inl m \<Rightarrow> (t, fs, Inr (fail_outcome a EC_ADAPTER_NOT_FOUND m (xe_clock env 2)))
           | Inr ad \<Rightarrow> (t, run_adapter env ad a fs))))"

section \<open>Lemmas\<close>

lemma step_to_iff: "step_to a t = Inr b \<longleftrightarrow> can_action_transition (a_status a) t \<and> b = a\<lparr>a_status := t\<rparr>"
  by (auto simp: step_to_def action_machine.assert_eq)

lemma map_sum_Inr_iff: "map_sum f g r = Inr y \<longleftrightarrow> (\<exists>x. r = Inr x \<and> y = g x)"
  by (cases r) auto

lemma validate_iff: "av_valid (validate_approval_for_action now r a) \<longleftrightarrow> validity_reasons now r (Some a) = []"
  by (simp add: validate_approval_for_action_def av_valid_iff)

text \<open>What the open gate says about the approval the caller passed.\<close>

definition approval_used :: "approval_row list option \<Rightarrow> approval_row list option \<Rightarrow> action \<Rightarrow> approval_request \<Rightarrow> bool" where
  "approval_used approvals approvals' a r = (case approvals of
     None \<Rightarrow> \<not> ar_consumed r \<and> ar_status r = AR_APPROVED \<and> ar_action_id r = a_id a \<and> ar_action_hash r = compute_action_hash a
   | Some t \<Rightarrow> (\<exists>row t'. approval_get t (ar_id r) = Some row \<and> rq_status row = AR_APPROVED \<and> \<not> rq_consumed row \<and>
        rq_action_id row = a_id a \<and> rq_action_hash row = compute_action_hash a \<and>
        approvals' = Some t' \<and> (\<exists>row'. approval_get t' (ar_id r) = Some row' \<and> rq_consumed row')))"

lemma consume_durable_TrueD:
  assumes "consume_durable t i aid h now = (True, t')"
  shows "\<exists>r. approval_get t i = Some r \<and> consumable aid h now r \<and>
    approval_get t' i = Some (r\<lparr>rq_consumed := True, rq_consumed_at := Some now\<rparr>)"
  using assms by (auto simp: consume_durable_def consume_if_valid_def approval_get_upd split: option.splits if_splits)

lemma approval_get_id: "approval_get t i = Some row \<Longrightarrow> rq_id row = i"
  by (auto simp: approval_get_def dest: tbl_get_SomeD)

lemma approval_gate_open:
  assumes "approval_gate clk approvals a d req = (approvals', Gate_Open)"
  shows "if pd_outcome d = REQUIRE_APPROVAL
    then a_status a = AS_APPROVED \<and> (\<exists>r. req = Some r \<and> approval_used approvals approvals' a r)
    else a_status a = AS_PERMISSION_CHECKED \<and> approvals' = approvals"
proof (cases "pd_outcome d = REQUIRE_APPROVAL")
  case True
  then obtain r where st: "a_status a = AS_APPROVED" and r: "req = Some r"
    using assms by (auto simp: approval_gate_def split: if_splits option.splits)
  have "approval_used approvals approvals' a r"
  proof (cases approvals)
    case None
    then show ?thesis using assms True st r
      by (auto simp: approval_gate_def Let_def approval_used_def validate_iff validity_reasons_Nil_iff split: if_splits sum.splits)
  next
    case (Some t)
    then obtain current t' where c: "load_approval_request t (ar_id r) = Inr (Some current)"
      "validity_reasons (clk 0) current (Some a) = []" "approvals' = Some t'"
      "consume_durable t (ar_id current) (a_id a) (ar_action_hash current) (clk 1) = (True, t')"
      using assms True st r
      by (auto simp: approval_gate_def Let_def validate_iff split: if_splits sum.splits option.splits prod.splits bool.splits)
    obtain row where row: "approval_get t (ar_id r) = Some row" "approval_row_to_domain row = Inr current"
      using c(1) by (auto simp: load_approval_request_def map_sum_Inr_iff split: option.splits)
    have i: "ar_id current = ar_id r"
      using row(2) approval_get_id [OF row(1)] by (auto simp: approval_row_to_domain_def bind_sum_InrE)
    show ?thesis using consume_durable_TrueD [OF c(4)] c(2,3) row approval_row_to_domain_fields [OF row(2)] Some i
      by (auto simp: approval_used_def consumable_def validity_reasons_Nil_iff)
  qed
  then show ?thesis using True st r by simp
next
  case False
  then show ?thesis using assms by (auto simp: approval_gate_def split: if_splits)
qed

lemma failed_status:
  "failed_execution a r = Inr b \<Longrightarrow> a_status b = AS_FAILED" "failed_verification a v = Inr b \<Longrightarrow> a_status b = AS_FAILED"
  by (auto simp: failed_execution_def failed_verification_def map_sum_Inr_iff step_to_iff bind_sum_InrE)

lemma settle_completed:
  assumes "settle_execution env ad executing r fs = Inr out" "a_status (eo_action out) = AS_COMPLETED"
  shows "er_success r \<and> eo_execution_result out = Some r \<and> (\<exists>v. eo_verification_result out = Some v \<and> vr_passed v)"
proof -
  have ok: "er_success r"
    using assms failed_status(1) by (fastforce simp: settle_execution_def map_sum_Inr_iff split: if_splits)
  then obtain v verifying x where v: "out = \<lparr>eo_action = x, eo_execution_result = Some r, eo_verification_result = Some v\<rparr>"
    "(if \<not> vr_passed v then failed_verification verifying v
      else bind_sum (step_to verifying AS_VERIFIED) (\<lambda>verified. step_to verified AS_COMPLETED)) = Inr x"
    using assms(1) unfolding settle_execution_def by (simp add: bind_sum_InrE map_sum_Inr_iff) blast
  then have "vr_passed v" using assms(2) failed_status(2) [of verifying v x] by (cases "vr_passed v") auto
  then show ?thesis using ok v by simp
qed

section \<open>Properties\<close>

text \<open>C3: nothing runs without authorization, and a completed action was verified. If a call touches the file system,
  or returns an action completed that was not, then the decision is for this action and does not block it,
  its tool is registered and enabled for its type and has an adapter, and either no approval is needed
  and the action passed the permission check, or it is approved and a valid approval of exactly this
  payload was used, which is consumed in the table afterwards; and completion comes with a successful
  execution result whose verification passed.\<close>

theorem execution_requires_authorization:
  assumes "execute_action env approvals fs a d req = (approvals', fs', r)"
    and "fs' \<noteq> fs \<or> (\<exists>out. r = Inr out \<and> a_status (eo_action out) = AS_COMPLETED \<and> a_status a \<noteq> AS_COMPLETED)"
  shows "pd_action_id d = a_id a \<and> pd_outcome d \<noteq> BLOCK \<and>
    (\<exists>n tool ad. a_tool_name a = Some n \<and> registry_resolve (xe_tools env) n (a_action_type a) = Inr tool \<and>
       adapter_get (xe_adapters env) n = Inr ad) \<and>
    (if pd_outcome d = REQUIRE_APPROVAL
     then a_status a = AS_APPROVED \<and> (\<exists>q. req = Some q \<and> approval_used approvals approvals' a q)
     else a_status a = AS_PERMISSION_CHECKED) \<and>
    (\<forall>out. r = Inr out \<and> a_status (eo_action out) = AS_COMPLETED \<longrightarrow>
       (\<exists>er v. eo_execution_result out = Some er \<and> er_success er \<and> eo_verification_result out = Some v \<and> vr_passed v))"
proof -
  have refuse: "a_status (eo_action (fail_outcome a c m now)) \<noteq> AS_COMPLETED" if "a_status a \<noteq> AS_COMPLETED" for c m now
    using that by (cases "a_status a") (simp_all add: fail_outcome_def refused_action_def)
  obtain ad where g: "pd_action_id d = a_id a" "a_status a \<noteq> AS_COMPLETED" "pd_outcome d \<noteq> BLOCK"
    "approval_gate (xe_clock env) approvals a d req = (approvals', Gate_Open)"
    "resolve_adapter (xe_tools env) (xe_adapters env) a = Inr ad" "run_adapter env ad a fs = (fs', r)"
    using assms refuse
    by (auto simp: execute_action_def split: if_splits prod.splits gate.splits sum.splits)
  have "(\<exists>n tool ad. a_tool_name a = Some n \<and> registry_resolve (xe_tools env) n (a_action_type a) = Inr tool \<and>
       adapter_get (xe_adapters env) n = Inr ad)"
    using g(5) by (auto simp: resolve_adapter_def map_sum_Inr_iff split: option.splits sum.splits if_splits)
  moreover have "\<exists>er v. eo_execution_result out = Some er \<and> er_success er \<and> eo_verification_result out = Some v \<and> vr_passed v"
    if "r = Inr out" "a_status (eo_action out) = AS_COMPLETED" for out
    using g(6) that settle_completed [of env ad _ _ fs' out]
    by (fastforce simp: run_adapter_def split: sum.splits prod.splits)
  ultimately show ?thesis using g approval_gate_open [OF g(4)] by auto
qed

definition sample_env :: exec_env where
  "sample_env = \<lparr>xe_tools = [mk_tool ''file.create_sandboxed'' [] ''sandbox_create'' WRITE LOW True True ''automated''],
     xe_adapters = [(''file.create_sandboxed'', file_adapter)], xe_root = [''box''], xe_clock = int,
     xe_attempt = ''t1'', xe_fault = No_Fault\<rparr>"

definition sample_allowed :: permission_decision where
  "sample_allowed = \<lparr>pd_action_id = ''f1'', pd_outcome = ALLOW_WITH_AUDIT, pd_permission_level = WRITE, pd_risk_level = LOW,
     pd_approval_required = False, pd_reason_codes = [], pd_explanation = [], pd_policy_source = [], pd_evaluated_at = 0,
     pd_tool_name = None, pd_dry_run_recommended = False\<rparr>"

lemma sample_adapter: "resolve_adapter (xe_tools sample_env) (xe_adapters sample_env) sample_file_action = Inr file_adapter"
  by (simp add: resolve_adapter_def sample_env_def sample_file_action_def registry_resolve_def registry_get_def
      registry_lookup_def mk_tool_def adapter_contains_def adapter_get_def tbl_get_Cons)

theorem execution_requires_authorization_witness:
  "\<exists>fs' r. execute_action sample_env None sample_fs sample_file_action sample_allowed None = (None, fs', r) \<and> fs' \<noteq> sample_fs \<and>
     pd_action_id sample_allowed = a_id sample_file_action \<and> a_status sample_file_action = AS_PERMISSION_CHECKED \<and>
     (\<exists>ad. adapter_get (xe_adapters sample_env) ''file.create_sandboxed'' = Inr ad)"
proof -
  let ?x = "sample_file_action\<lparr>a_status := AS_EXECUTING, a_started_at := Some 3\<rparr>"
  have "executing_at sample_file_action 3 = Inr ?x"
    by (simp add: executing_at_def step_to_def assert_action_transition_def state_machine sample_file_action_def)
  moreover have "file_inputs ?x = Some (''a.txt'', ''hi'')" by (simp add: file_inputs_def sample_file_action_def obj_get_def)
  ultimately have "fst (run_adapter sample_env file_adapter sample_file_action sample_fs) =
      ([''box'', ''a.txt''], F_File (utf8_encode ''hi'')) # sample_fs"
    using executes_in_sample_fs [of ?x]
    by (simp add: run_adapter_def sample_env_def file_adapter_def)
  then obtain r where run: "run_adapter sample_env file_adapter sample_file_action sample_fs =
      (([''box'', ''a.txt''], F_File (utf8_encode ''hi'')) # sample_fs, r)" by (metis prod.collapse)
  have e: "execute_action sample_env None sample_fs sample_file_action sample_allowed None =
      (None, ([''box'', ''a.txt''], F_File (utf8_encode ''hi'')) # sample_fs, r)"
    using run sample_adapter
    by (simp add: execute_action_def approval_gate_def sample_allowed_def) (simp add: sample_file_action_def)
  have n: "([''box'', ''a.txt''], F_File (utf8_encode ''hi'')) # sample_fs \<noteq> sample_fs" by simp
  have s: "pd_outcome sample_allowed \<noteq> REQUIRE_APPROVAL" "a_tool_name sample_file_action = Some ''file.create_sandboxed''"
    by (simp_all add: sample_allowed_def sample_file_action_def)
  show ?thesis using execution_requires_authorization [OF e disjI1 [OF n]] e n s by auto
qed

end
