(* ===== verification/Durable_Executor.thy ===== *)
theory Durable_Executor
  imports Action_Executor Interleaving
begin

text \<open>
  \<open>app/decision_intelligence/durable_action_executor.py\<close>. \<open>execute_action_durably\<close> awaits the database after
  every stage, so a call is a machine: \<open>durable_step\<close> performs one awaited repository or adapter call and
  the Python up to the next one. A crash is a state that is never stepped again; several workers
  are several states over one database, stepped in any order. \<open>_upsert_action_record\<close> is a part of the
  machine with the point its caller goes on from. Audit events are left out.
\<close>

section \<open>State\<close>

record exec_db =
  x_actions :: "action_row list"
  x_attempts :: "attempt_row list"
  x_results :: "result_row list"
  x_verifications :: "verification_row list"
  x_approvals :: "approval_row list option"
  x_fs :: fs

text \<open>One call: its arguments, the clock readings and fresh ids it will draw, and the disk's behaviour.\<close>

record durable_request =
  dq_env :: exec_env
  dq_action :: action
  dq_decision :: permission_decision
  dq_approval :: "approval_request option"
  dq_claimed_by :: string
  dq_retry_number :: int
  dq_created_at :: datetime

datatype durable_error =
    Durable_Executor_Error executor_error
  | StaleActionVersionError string int
  | Durable_Payload persistence_error
  | Durable_Integrity
  | Row_Missing string

definition dq_clock :: "durable_request \<Rightarrow> nat \<Rightarrow> datetime" where
  "dq_clock q = xe_clock (dq_env q)"

definition terminal_statuses :: "action_status set" where
  "terminal_statuses = {AS_FAILED, AS_REJECTED, AS_CANCELLED, AS_BLOCKED, AS_COMPLETED}"

fun happy_path_order :: "action_status \<Rightarrow> int" where
  "happy_path_order AS_PLANNED = 0"
| "happy_path_order AS_VALIDATED = 1"
| "happy_path_order AS_PERMISSION_CHECKED = 2"
| "happy_path_order AS_WAITING_FOR_APPROVAL = 3"
| "happy_path_order AS_APPROVED = 4"
| "happy_path_order AS_EXECUTING = 5"
| "happy_path_order AS_EXECUTION_SUCCEEDED = 6"
| "happy_path_order AS_VERIFYING = 7"
| "happy_path_order AS_VERIFIED = 8"
| "happy_path_order _ = - 1"

definition upsert_max_attempts :: nat where
  "upsert_max_attempts = 5"

text \<open>Where the caller of an upsert goes on, and the program points of a call.\<close>

datatype upsert_cont =
    K_Fail execution_outcome
  | K_Persist
  | K_Executing attempt_row adapter action
  | K_Succeeded attempt_row adapter action execution_result
  | K_Verifying attempt_row adapter action execution_result
  | K_Verified action execution_result verification_result
  | K_Return execution_outcome

datatype durable_pc =
    D_Start
  | D_Load approval_request
  | D_Consume approval_request
  | D_Refuse executor_failure_code string
  | U_Get nat int action upsert_cont
  | U_Create nat action_row action upsert_cont
  | U_Update nat int action_row action upsert_cont
  | U_Reread string upsert_cont
  | D_Claim string string adapter
  | D_Lost string
  | D_Started attempt_row adapter
  | D_Execute attempt_row adapter action
  | D_Save_Result attempt_row adapter action execution_result
  | D_Attempt_Done attempt_row adapter action execution_result
  | D_Attempt_Verifying attempt_row adapter action execution_result
  | D_Verify attempt_row adapter action execution_result
  | D_Save_Verification attempt_row action execution_result verification_result
  | D_Attempt_Verified attempt_row action execution_result verification_result
  | D_Done "durable_error + execution_outcome"

section \<open>Between two awaits\<close>

definition upsert_start :: "action \<Rightarrow> upsert_cont \<Rightarrow> durable_pc" where
  "upsert_start a k = U_Get upsert_max_attempts (- 1) a k"

definition local_failure :: "durable_request \<Rightarrow> executor_failure_code \<Rightarrow> string \<Rightarrow> durable_pc" where
  "local_failure q code message = D_Done (Inr \<lparr>eo_action = dq_action q,
     eo_execution_result = Some (refusal_result (dq_action q) code message (dq_clock q 8)), eo_verification_result = None\<rparr>)"

text \<open>\<open>_fail_durable\<close> after its own lookup: the failed action is written only when a row exists.\<close>

definition after_refusal :: "durable_request \<Rightarrow> executor_failure_code \<Rightarrow> string \<Rightarrow> action_row option \<Rightarrow> durable_pc" where
  "after_refusal q code message existing = (let out = fail_outcome (dq_action q) code message (dq_clock q 2) in
     case existing of None \<Rightarrow> D_Done (Inr out) | Some _ \<Rightarrow> upsert_start (eo_action out) (K_Fail out))"

definition raised :: "executor_error + 'a \<Rightarrow> ('a \<Rightarrow> durable_pc) \<Rightarrow> durable_pc" where
  "raised r f = (case r of Inl e \<Rightarrow> D_Done (Inl (Durable_Executor_Error e)) | Inr x \<Rightarrow> f x)"

text \<open>After step D: resolve the tool and the adapter, and derive the idempotency key from the stored digest.\<close>

definition after_persist :: "durable_request \<Rightarrow> action_row \<Rightarrow> durable_pc" where
  "after_persist q row = (case resolve_adapter (xe_tools (dq_env q)) (xe_adapters (dq_env q)) (dq_action q) of
     Inl m \<Rightarrow> D_Refuse EC_ADAPTER_NOT_FOUND m
   | Inr ad \<Rightarrow> D_Claim (compute_idempotency_key (a_id (dq_action q)) (ro_action_hash row) (dq_retry_number q))
       (empty_if_none (a_tool_name (dq_action q))) ad)"

fun upsert_return :: "durable_request \<Rightarrow> upsert_cont \<Rightarrow> action_row \<Rightarrow> durable_pc" where
  "upsert_return q (K_Fail out) row = D_Done (Inr out)"
| "upsert_return q K_Persist row = after_persist q row"
| "upsert_return q (K_Executing t ad x) row = D_Execute t ad x"
| "upsert_return q (K_Succeeded t ad x r) row = raised (step_to x AS_VERIFYING) (\<lambda>y. upsert_start y (K_Verifying t ad y r))"
| "upsert_return q (K_Verifying t ad x r) row = D_Attempt_Verifying t ad x r"
| "upsert_return q (K_Verified x r v) row = raised (step_to x AS_COMPLETED) (\<lambda>y. upsert_start y
     (K_Return \<lparr>eo_action = y, eo_execution_result = Some r, eo_verification_result = Some v\<rparr>))"
| "upsert_return q (K_Return out) row = D_Done (Inr out)"

fun upsert_stale :: "durable_request \<Rightarrow> upsert_cont \<Rightarrow> durable_error \<Rightarrow> durable_pc" where
  "upsert_stale q (K_Fail out) e = D_Done (Inr out)"
| "upsert_stale q K_Persist e = local_failure q EC_VALIDATION_FAILURE
     ''Action state changed concurrently while persisting execution state; another worker may already be handling it''"
| "upsert_stale q _ e = D_Done (Inl e)"

text \<open>Whether the stored row is to be left as it is: it is terminal, or the write would move it back.\<close>

definition keep_existing :: "action_row \<Rightarrow> action \<Rightarrow> bool" where
  "keep_existing row a = (ro_status row \<in> terminal_statuses \<or>
     a_status a \<notin> terminal_statuses \<and> happy_path_order (a_status a) < happy_path_order (ro_status row))"

definition upsert_decide :: "durable_request \<Rightarrow> nat \<Rightarrow> action \<Rightarrow> upsert_cont \<Rightarrow> action_row option \<Rightarrow> durable_pc" where
  "upsert_decide q n a k existing = (case existing of
     Some row \<Rightarrow> if keep_existing row a then upsert_return q k row
       else (case action_to_record_fields a of
           Inl e \<Rightarrow> D_Done (Inl (Durable_Payload e)) | Inr cols \<Rightarrow> U_Update n (ro_version row) cols a k)
   | None \<Rightarrow> (case action_to_record_fields a of
        Inl e \<Rightarrow> D_Done (Inl (Durable_Payload e)) | Inr cols \<Rightarrow> U_Create n (cols\<lparr>ro_version := 1\<rparr>) a k))"

text \<open>The guards of steps A to C that need no await.\<close>

definition after_lookup :: "durable_request \<Rightarrow> bool \<Rightarrow> action_row option \<Rightarrow> durable_pc" where
  "after_lookup q has_repo existing = (let a = dq_action q; d = dq_decision q in
     if (case existing of None \<Rightarrow> False | Some row \<Rightarrow> ro_status row = AS_COMPLETED) then
       (case existing of None \<Rightarrow> D_Done (Inl (Row_Missing (a_id a)))
        | Some row \<Rightarrow> raised (map_sum Executor_Load id (record_to_action row)) (\<lambda>x. D_Done (Inr \<lparr>eo_action = x,
            eo_execution_result = None, eo_verification_result = None\<rparr>)))
     else if a_status a = AS_COMPLETED then
       D_Done (Inr \<lparr>eo_action = a, eo_execution_result = None, eo_verification_result = None\<rparr>)
     else if pd_outcome d = BLOCK then D_Refuse EC_PERMISSION_FAILURE ''PermissionDecision is BLOCK; cannot execute''
     else if pd_outcome d = REQUIRE_APPROVAL then
       (if a_status a \<noteq> AS_APPROVED then
          D_Refuse EC_APPROVAL_FAILURE ''Action requires approval but is not ActionStatus.APPROVED''
        else case dq_approval q of
            None \<Rightarrow> D_Refuse EC_APPROVAL_FAILURE ''No ApprovalRequest supplied for an approval-gated action''
          | Some r \<Rightarrow> if has_repo then D_Load r
              else (case approval_gate (dq_clock q) None a d (Some r) of
                  (_, Gate_Fail code m) \<Rightarrow> D_Refuse code m
                | (_, Gate_Raise e) \<Rightarrow> D_Done (Inl (Durable_Executor_Error e))
                | (_, Gate_Open) \<Rightarrow> upsert_start a K_Persist))
     else if a_status a \<noteq> AS_PERMISSION_CHECKED then
       D_Refuse EC_VALIDATION_FAILURE ''Action is not ActionStatus.PERMISSION_CHECKED''
     else upsert_start a K_Persist)"

definition after_load :: "durable_request \<Rightarrow> load_error + approval_request option \<Rightarrow> durable_pc" where
  "after_load q loaded = raised (map_sum Executor_Load id loaded) (\<lambda>found. case found of
     None \<Rightarrow> D_Refuse EC_APPROVAL_FAILURE ''durable ApprovalRequest row not found''
   | Some current \<Rightarrow> (let validity = validate_approval_for_action (dq_clock q 0) current (dq_action q) in
       if \<not> av_valid validity then D_Refuse EC_APPROVAL_FAILURE
         (''ApprovalRequest invalid: '' @ py_join '', '' (map validity_reason_value (av_reason_codes validity)))
       else D_Consume current))"

definition side_effect_fingerprint :: "action \<Rightarrow> execution_result \<Rightarrow> string option" where
  "side_effect_fingerprint a r = (case er_output r of
     Some kvs \<Rightarrow> if er_side_effect_occurred r \<and> kvs \<noteq> [] then
         (case (get_value kvs ''resolved_relative_path'', get_value kvs ''content_hash'', get_value kvs ''bytes_written'') of
            (Some p, Some h, Some b) \<Rightarrow> if json_truthy p then Some (sha256_hex (empty_if_none (a_tool_name a) @ [CHR 0x0A] @
                py_str_json (Some p) @ [CHR 0x0A] @ py_str_json (Some h) @ [CHR 0x0A] @ py_str_json (Some b))) else None
          | _ \<Rightarrow> None)
       else None
   | None \<Rightarrow> None)"

definition adapter_context :: "durable_request \<Rightarrow> nat \<Rightarrow> string \<Rightarrow> exec_context" where
  "adapter_context q site attempt_id = \<lparr>cx_root = xe_root (dq_env q), cx_now = (\<lambda>i. dq_clock q (site + i)),
     cx_attempt = attempt_id, cx_fault = xe_fault (dq_env q)\<rparr>"

definition lease_ttl :: int where
  "lease_ttl = 900 * 1000000"

definition finish_attempt :: "execution_result \<Rightarrow> string option \<Rightarrow> attempt_row \<Rightarrow> attempt_row" where
  "finish_attempt r fp row = (if er_success r
     then row\<lparr>at_status := AT_EXECUTION_SUCCEEDED, at_side_effect_occurred := er_side_effect_occurred r,
       at_side_effect_fingerprint := fp\<rparr>
     else row\<lparr>at_status := AT_EXECUTION_FAILED, at_finished_at := Some (er_completed_at r),
       at_side_effect_occurred := er_side_effect_occurred r, at_side_effect_fingerprint := fp,
       at_error_code := er_error_code r, at_error_message := er_error_message r\<rparr>)"

section \<open>The machine\<close>

fun durable_step :: "durable_request \<Rightarrow> exec_db \<Rightarrow> durable_pc \<Rightarrow> exec_db \<times> durable_pc" where
  "durable_step q db D_Start =
     (db, if pd_action_id (dq_decision q) \<noteq> a_id (dq_action q)
          then D_Done (Inl (Durable_Executor_Error (ActionDecisionMismatchError (a_id (dq_action q)) (pd_action_id (dq_decision q)))))
          else after_lookup q (x_approvals db \<noteq> None) (action_get (x_actions db) (a_id (dq_action q))))"
| "durable_step q db (D_Load r) =
     (db, case x_approvals db of None \<Rightarrow> D_Consume r | Some t \<Rightarrow> after_load q (load_approval_request t (ar_id r)))"
| "durable_step q db (D_Consume r) = (case x_approvals db of
     None \<Rightarrow> (db, upsert_start (dq_action q) K_Persist)
   | Some t \<Rightarrow> (case consume_durable t (ar_id r) (a_id (dq_action q)) (ar_action_hash r) (dq_clock q 1) of
        (True, t') \<Rightarrow> (db\<lparr>x_approvals := Some t'\<rparr>, upsert_start (dq_action q) K_Persist)
      | (False, t') \<Rightarrow> (db\<lparr>x_approvals := Some t'\<rparr>, D_Refuse EC_APPROVAL_FAILURE ''Approval could not be atomically consumed'')))"
| "durable_step q db (D_Refuse code m) =
     (db, after_refusal q code m (action_get (x_actions db) (a_id (dq_action q))))"
| "durable_step q db (U_Get 0 v a k) = (db, upsert_stale q k (StaleActionVersionError (a_id a) v))"
| "durable_step q db (U_Get (Suc n) v a k) = (db, upsert_decide q n a k (action_get (x_actions db) (a_id a)))"
| "durable_step q db (U_Create n row a k) = (case action_create (x_actions db) row of
     Some t \<Rightarrow> (db\<lparr>x_actions := t\<rparr>, upsert_return q k row)
   | None \<Rightarrow> (db, U_Get n (- 1) a k))"
| "durable_step q db (U_Update n v row a k) =
     (case action_update (x_actions db) (a_id a) v (\<lambda>r. row\<lparr>ro_id := ro_id r\<rparr>) of
        (True, t) \<Rightarrow> (db\<lparr>x_actions := t\<rparr>, U_Reread (a_id a) k)
      | (False, _) \<Rightarrow> (db, U_Get n v a k))"
| "durable_step q db (U_Reread i k) = (db, case action_get (x_actions db) i of
     None \<Rightarrow> D_Done (Inl (Row_Missing i)) | Some row \<Rightarrow> upsert_return q k row)"
| "durable_step q db (D_Claim key tool ad) =
     (case attempt_claim (x_attempts db) (xe_attempt (dq_env q)) (dq_created_at q) (a_id (dq_action q)) key tool (ad_name ad)
         (ad_version ad) (dq_claimed_by q) (dq_clock q 7) of
        (None, _) \<Rightarrow> (db, D_Lost key)
      | (Some row, t) \<Rightarrow> (db\<lparr>x_attempts := t\<rparr>, D_Started row ad))"
| "durable_step q db (D_Lost key) =
     (db, local_failure q (if attempt_get_by_key (x_attempts db) key = None then EC_APPROVAL_FAILURE else EC_VALIDATION_FAILURE)
       (''Execution already claimed for this Action (idempotency_key='' @ take 16 key @ ''...)''))"
| "durable_step q db (D_Started t ad) =
     (db\<lparr>x_attempts := attempt_update (x_attempts db) (at_id t) (\<lambda>r. r\<lparr>at_status := AT_STARTED,
        at_started_at := Some (dq_clock q 3), at_lease_expires_at := Some (dq_clock q 3 + lease_ttl)\<rparr>)\<rparr>,
      raised (executing_at (dq_action q) (dq_clock q 3)) (\<lambda>x. upsert_start x (K_Executing t ad x)))"
| "durable_step q db (D_Execute t ad x) =
     (case ad_execute ad x (adapter_context q 4 (at_id t)) (x_fs db) of
        (fs, Inl e) \<Rightarrow> (db\<lparr>x_fs := fs\<rparr>, D_Done (Inl (Durable_Executor_Error (Executor_Adapter e))))
      | (fs, Inr r) \<Rightarrow> (db\<lparr>x_fs := fs\<rparr>, D_Save_Result t ad x r))"
| "durable_step q db (D_Save_Result t ad x r) =
     (case result_create (x_results db) (execution_result_to_record_fields (at_id t) r ORIGINAL) of
        None \<Rightarrow> (db, D_Done (Inl Durable_Integrity))
      | Some rs \<Rightarrow> (db\<lparr>x_results := rs\<rparr>, D_Attempt_Done t ad x r))"
| "durable_step q db (D_Attempt_Done t ad x r) =
     (db\<lparr>x_attempts := attempt_update (x_attempts db) (at_id t) (finish_attempt r (side_effect_fingerprint x r))\<rparr>,
      if er_success r then raised (succeeded_execution x r) (\<lambda>y. upsert_start y (K_Succeeded t ad y r))
      else raised (failed_execution x r) (\<lambda>y. upsert_start y (K_Return \<lparr>eo_action = y, eo_execution_result = Some r,
        eo_verification_result = None\<rparr>)))"
| "durable_step q db (D_Attempt_Verifying t ad x r) =
     (db\<lparr>x_attempts := attempt_update (x_attempts db) (at_id t) (\<lambda>row. row\<lparr>at_status := AT_VERIFYING\<rparr>)\<rparr>, D_Verify t ad x r)"
| "durable_step q db (D_Verify t ad x r) =
     (db, case ad_verify ad x r (adapter_context q 6 (at_id t)) (x_fs db) of
        Inl e \<Rightarrow> D_Done (Inl (Durable_Executor_Error (Executor_Adapter e)))
      | Inr v \<Rightarrow> D_Save_Verification t x r v)"
| "durable_step q db (D_Save_Verification t x r v) =
     (case verification_create (x_verifications db) (verification_result_to_record_fields (at_id t) v ORIGINAL) of
        None \<Rightarrow> (db, D_Done (Inl Durable_Integrity))
      | Some vs \<Rightarrow> (db\<lparr>x_verifications := vs\<rparr>, D_Attempt_Verified t x r v))"
| "durable_step q db (D_Attempt_Verified t x r v) =
     (db\<lparr>x_attempts := attempt_update (x_attempts db) (at_id t) (\<lambda>row. row\<lparr>at_status := (if vr_passed v then AT_VERIFIED
        else AT_VERIFICATION_FAILED), at_finished_at := Some (vr_verified_at v)\<rparr>)\<rparr>,
      if vr_passed v then raised (step_to x AS_VERIFIED) (\<lambda>y. upsert_start y (K_Verified y r v))
      else raised (failed_verification x v) (\<lambda>y. upsert_start y (K_Return \<lparr>eo_action = y, eo_execution_result = Some r,
        eo_verification_result = Some v\<rparr>)))"
| "durable_step q db (D_Done r) = (db, D_Done r)"

section \<open>Workers, crashes and the trace of adapter calls\<close>

text \<open>The idempotency key a step calls an adapter's \<open>execute\<close> under, if it does.\<close>

fun adapter_call :: "durable_pc \<Rightarrow> string list" where
  "adapter_call (D_Execute t ad x) = [at_idempotency_key t]"
| "adapter_call _ = []"

type_synonym durable_state = "exec_db \<times> (durable_request \<times> durable_pc) list"

abbreviation worker_step :: "nat \<Rightarrow> durable_state \<Rightarrow> durable_state" where
  "worker_step \<equiv> schedule durable_step"

definition worker_call :: "nat \<Rightarrow> durable_state \<Rightarrow> string list" where
  "worker_call i st = (case st of (db, ws) \<Rightarrow> if i < length ws then adapter_call (snd (ws ! i)) else [])"

inductive durable_system :: "durable_state \<Rightarrow> string list \<Rightarrow> durable_state \<Rightarrow> bool" where
  ds_refl: "durable_system st [] st"
| ds_step: "durable_system st calls st' \<Longrightarrow> durable_system st (calls @ worker_call i st') (worker_step i st')"

text \<open>One worker alone, for \<open>n\<close> steps: the state a crash after \<open>n\<close> awaits leaves.\<close>

fun run_durable :: "nat \<Rightarrow> durable_request \<Rightarrow> exec_db \<Rightarrow> durable_pc \<Rightarrow> exec_db \<times> durable_pc" where
  "run_durable 0 q db pc = (db, pc)"
| "run_durable (Suc n) q db pc = (let (db', pc') = durable_step q db pc in run_durable n q db' pc')"

text \<open>One worker for \<open>n\<close> steps while the others change the database in any way before each of them.\<close>

fun run_interfered :: "nat \<Rightarrow> (nat \<Rightarrow> exec_db \<Rightarrow> exec_db) \<Rightarrow> durable_request \<Rightarrow> exec_db \<Rightarrow> durable_pc \<Rightarrow> exec_db \<times> durable_pc" where
  "run_interfered 0 g q db pc = (db, pc)"
| "run_interfered (Suc n) g q db pc = (let (db', pc') = durable_step q (g n db) pc in run_interfered n g q db' pc')"

section \<open>Every call returns\<close>

text \<open>A bound on the awaits left. Each step of a worker lowers it whatever the other workers did to the database.\<close>

fun cont_rank :: "upsert_cont \<Rightarrow> nat" where
  "cont_rank (K_Fail _) = 0"
| "cont_rank (K_Return _) = 0"
| "cont_rank (K_Verified _ _ _) = 12"
| "cont_rank (K_Verifying _ _ _ _) = 28"
| "cont_rank (K_Succeeded _ _ _ _) = 40"
| "cont_rank (K_Executing _ _ _) = 55"
| "cont_rank K_Persist = 69"

fun durable_rank :: "durable_pc \<Rightarrow> nat" where
  "durable_rank (D_Done _) = 0"
| "durable_rank (U_Get n _ _ k) = cont_rank k + 2 * n + 2"
| "durable_rank (U_Create n _ _ k) = cont_rank k + 2 * n + 3"
| "durable_rank (U_Update n _ _ _ k) = cont_rank k + 2 * n + 3"
| "durable_rank (U_Reread _ k) = cont_rank k + 1"
| "durable_rank (D_Attempt_Verified _ _ _ _) = 25"
| "durable_rank (D_Save_Verification _ _ _ _) = 26"
| "durable_rank (D_Verify _ _ _ _) = 27"
| "durable_rank (D_Attempt_Verifying _ _ _ _) = 28"
| "durable_rank (D_Attempt_Done _ _ _ _) = 53"
| "durable_rank (D_Save_Result _ _ _ _) = 54"
| "durable_rank (D_Execute _ _ _) = 55"
| "durable_rank (D_Started _ _) = 68"
| "durable_rank (D_Lost _) = 1"
| "durable_rank (D_Refuse _ _) = 13"
| "durable_rank (D_Claim _ _ _) = 69"
| "durable_rank (D_Consume _) = 82"
| "durable_rank (D_Load _) = 83"
| "durable_rank D_Start = 84"

lemmas durable_helpers = upsert_start_def upsert_max_attempts_def local_failure_def after_refusal_def raised_def
  after_persist_def upsert_decide_def after_load_def after_lookup_def

lemma upsert_return_rank: "durable_rank (upsert_return q k row) \<le> cont_rank k"
  by (cases k) (auto simp: durable_helpers split: sum.splits)

lemma upsert_stale_rank [simp]: "durable_rank (upsert_stale q k e) = 0"
  by (cases k) (simp_all add: local_failure_def)

lemma upsert_decide_rank: "durable_rank (upsert_decide q n a k existing) \<le> cont_rank k + 2 * n + 3"
  using upsert_return_rank [of q k] by (auto simp: upsert_decide_def trans_le_add1 split: option.splits sum.splits)

lemma after_lookup_rank: "durable_rank (after_lookup q b existing) < 84"
  by (auto simp: durable_helpers Let_def split: option.splits sum.splits prod.splits gate.splits)

lemma durable_step_rank:
  assumes "durable_step q db pc = (db', pc')" "durable_rank pc \<noteq> 0"
  shows "durable_rank pc' < durable_rank pc"
proof (cases "(q, db, pc)" rule: durable_step.cases)
  case 1
  then show ?thesis using assms(1) by (auto split: if_splits simp: after_lookup_rank)
next
  case (6 q' db0 n v a k)
  then show ?thesis using assms(1) upsert_decide_rank [of q n a k "action_get (x_actions db) (a_id a)"] by auto
next
  case (7 q' db0 n row a k)
  then show ?thesis using assms(1) upsert_return_rank [of q k row] by (auto split: option.splits)
next
  case (9 q' db0 i k)
  then show ?thesis using assms(1) upsert_return_rank [of q k] by (auto split: option.splits simp: le_imp_less_Suc)
qed (use assms in \<open>auto simp: durable_helpers Let_def split: option.splits prod.splits bool.splits sum.splits if_splits\<close>)

lemma run_interfered_returns: "durable_rank pc \<le> n \<Longrightarrow> \<exists>db' r. run_interfered n g q db pc = (db', D_Done r)"
proof (induction n arbitrary: db pc)
  case 0
  then show ?case by (cases pc) auto
next
  case (Suc n)
  obtain db1 pc1 where s: "durable_step q (g n db) pc = (db1, pc1)" by fastforce
  have "durable_rank pc1 \<le> n"
  proof (cases "durable_rank pc = 0")
    case True
    then show ?thesis using s by (cases pc) auto
  next
    case False
    then show ?thesis using durable_step_rank [OF s False] Suc.prems by linarith
  qed
  then show ?case using Suc.IH [of pc1 db1] s by simp
qed

section \<open>Properties\<close>

text \<open>C25: every call returns. Whatever other workers and recoveries do to the database between its awaits, a call has
  returned or raised after at most 84 of them: the retry loop of the row upsert cannot be starved.\<close>

theorem durable_call_returns: "\<exists>db' r. run_interfered 84 g q db D_Start = (db', D_Done r)"
  by (rule run_interfered_returns) simp

end
