(* ===== verification/Durable_Safety.thy ===== *)
theory Durable_Safety
  imports Durable_Executor
begin

text \<open>
  What the durable executor guarantees when several workers share a database and each may stop at any
  await: no idempotency key is executed twice, and a stored action never goes back. Both are
  invariants of \<open>durable_system\<close>, by rule induction over the interleaved steps.
\<close>

section \<open>At most one execution per key\<close>

text \<open>The attempt a worker holds between its claim and its adapter call.\<close>

fun cont_armed :: "upsert_cont \<Rightarrow> attempt_row option" where
  "cont_armed (K_Executing t _ _) = Some t"
| "cont_armed _ = None"

fun armed :: "durable_pc \<Rightarrow> attempt_row option" where
  "armed (U_Get _ _ _ k) = cont_armed k"
| "armed (U_Create _ _ _ k) = cont_armed k"
| "armed (U_Update _ _ _ _ k) = cont_armed k"
| "armed (U_Reread _ k) = cont_armed k"
| "armed (D_Started t _) = Some t"
| "armed (D_Execute t _ _) = Some t"
| "armed _ = None"

definition keys :: "exec_db \<Rightarrow> string set" where
  "keys db = at_idempotency_key ` set (x_attempts db)"

lemma armed_upsert_return [simp]: "armed (upsert_return q k row) = cont_armed k"
  by (cases k) (auto simp: durable_helpers split: sum.splits)

lemma armed_upsert_stale [simp]: "armed (upsert_stale q k e) = None"
  by (cases k) (simp_all add: local_failure_def)

lemma armed_helpers [simp]:
  "armed (after_lookup q b existing) = None" "armed (after_load q l) = None" "armed (after_refusal q c m existing) = None"
  "armed (local_failure q c m) = None"
  by (auto simp: durable_helpers Let_def split: option.splits sum.splits prod.splits gate.splits)

lemma armed_upsert_decide: "armed (upsert_decide q n a k existing) = Some t \<Longrightarrow> cont_armed k = Some t"
  by (auto simp: upsert_decide_def split: option.splits sum.splits if_splits)

lemma keys_attempt_update:
  assumes "\<And>r. at_idempotency_key (f r) = at_idempotency_key r"
  shows "at_idempotency_key ` set (attempt_update t i f) = at_idempotency_key ` set t"
proof -
  have "map at_idempotency_key (attempt_update t i f) = map at_idempotency_key t"
    using assms by (simp add: attempt_update_def tbl_upd_def)
  then show ?thesis by (metis set_map)
qed

lemma finish_attempt_key [simp]: "at_idempotency_key (finish_attempt r fp row) = at_idempotency_key row"
  by (simp add: finish_attempt_def)

lemma attempt_claim_SomeD:
  assumes "attempt_claim t i c a key tool ad v cb now = (Some row, t')"
  shows "at_idempotency_key row = key \<and> key \<notin> at_idempotency_key ` set t \<and> t' = t @ [row]"
  using assms by (auto simp: attempt_claim_def Let_def tbl_insert_def tbl_get_None_iff split: if_splits option.splits)

lemma keys_simps [simp]:
  "keys (db\<lparr>x_actions := a\<rparr>) = keys db" "keys (db\<lparr>x_results := b\<rparr>) = keys db" "keys (db\<lparr>x_verifications := c\<rparr>) = keys db"
  "keys (db\<lparr>x_approvals := d\<rparr>) = keys db" "keys (db\<lparr>x_fs := e\<rparr>) = keys db"
  by (simp_all add: keys_def)

lemma keys_update [simp]:
  "(\<And>r. at_idempotency_key (f r) = at_idempotency_key r) \<Longrightarrow> keys (db\<lparr>x_attempts := attempt_update (x_attempts db) i f\<rparr>) = keys db"
  by (simp add: keys_def keys_attempt_update)

text \<open>Only the claim adds a key and arms its worker; only the adapter call disarms it.\<close>

lemma durable_step_same_keys:
  assumes "durable_step q db pc = (db', pc')" "\<forall>key tool ad. pc \<noteq> D_Claim key tool ad"
  shows "keys db' = keys db"
proof (cases "(q, db, pc)" rule: durable_step.cases)
  case (10 q' db0 key tool ad)
  then show ?thesis using assms(2) by simp
qed (use assms(1) in \<open>auto split: option.splits prod.splits bool.splits sum.splits\<close>)

lemma raised_armed: "(\<And>x. armed (f x) = z) \<Longrightarrow> armed (raised r f) = Some t \<Longrightarrow> z = Some t"
  by (cases r) (auto simp: raised_def)

lemma durable_step_armed:
  assumes "durable_step q db pc = (db', pc')" "\<forall>key tool ad. pc \<noteq> D_Claim key tool ad" "armed pc' = Some t"
  shows "armed pc = Some t \<and> adapter_call pc = []"
proof (cases "(q, db, pc)" rule: durable_step.cases)
  case (6 q' db0 n v a k)
  then show ?thesis using assms by (auto dest: armed_upsert_decide)
next
  case (10 q' db0 key tool ad)
  then show ?thesis using assms(2) by simp
next
  case (12 q' db0 t' ad)
  then have "armed (raised (executing_at (dq_action q) (dq_clock q 3)) (\<lambda>x. upsert_start x (K_Executing t' ad x))) = Some t"
    using assms by auto
  then have "Some t' = Some t" by (rule raised_armed [rotated]) (simp add: upsert_start_def)
  then show ?thesis using 12 by simp
qed (use assms in \<open>auto simp: upsert_start_def raised_def split: option.splits prod.splits bool.splits sum.splits if_splits\<close>)

lemma durable_step_claim:
  assumes "durable_step q db (D_Claim key tool ad) = (db', pc')"
  shows "keys db' = keys db \<and> armed pc' = None \<or>
    key \<notin> keys db \<and> keys db' = insert key (keys db) \<and> (\<exists>t. armed pc' = Some t \<and> at_idempotency_key t = key)"
proof (cases "attempt_claim (x_attempts db) (xe_attempt (dq_env q)) (dq_created_at q) (a_id (dq_action q)) key tool (ad_name ad)
    (ad_version ad) (dq_claimed_by q) (dq_clock q 7)")
  case (Pair r t)
  then show ?thesis using assms attempt_claim_SomeD by (cases r) (fastforce simp: keys_def)+
qed

definition once_inv :: "durable_state \<Rightarrow> string list \<Rightarrow> bool" where
  "once_inv st calls = (case st of (db, ws) \<Rightarrow> distinct calls \<and> set calls \<subseteq> keys db \<and>
     (\<forall>i t. i < length ws \<and> armed (snd (ws ! i)) = Some t \<longrightarrow>
        at_idempotency_key t \<in> keys db - set calls \<and>
        (\<forall>j u. j < length ws \<and> armed (snd (ws ! j)) = Some u \<and> at_idempotency_key u = at_idempotency_key t \<longrightarrow> j = i)))"

lemma adapter_call_armed: "adapter_call pc \<noteq> [] \<Longrightarrow> \<exists>t. armed pc = Some t \<and> adapter_call pc = [at_idempotency_key t]"
  by (cases pc) auto

lemma once_invI:
  assumes "distinct calls" "set calls \<subseteq> keys db"
    "\<And>i t. i < length ws \<Longrightarrow> armed (snd (ws ! i)) = Some t \<Longrightarrow> at_idempotency_key t \<in> keys db - set calls"
    "\<And>i j t u. i < length ws \<Longrightarrow> j < length ws \<Longrightarrow> armed (snd (ws ! i)) = Some t \<Longrightarrow> armed (snd (ws ! j)) = Some u \<Longrightarrow>
       at_idempotency_key u = at_idempotency_key t \<Longrightarrow> j = i"
  shows "once_inv (db, ws) calls"
  using assms unfolding once_inv_def by blast

lemma once_invD:
  assumes "once_inv (db, ws) calls"
  shows "distinct calls" "set calls \<subseteq> keys db"
    "i < length ws \<Longrightarrow> armed (snd (ws ! i)) = Some t \<Longrightarrow> at_idempotency_key t \<in> keys db - set calls"
    "i < length ws \<Longrightarrow> j < length ws \<Longrightarrow> armed (snd (ws ! i)) = Some t \<Longrightarrow> armed (snd (ws ! j)) = Some u \<Longrightarrow>
       at_idempotency_key u = at_idempotency_key t \<Longrightarrow> j = i"
  using assms unfolding once_inv_def by (simp, simp, blast, blast)

text \<open>A worker at \<open>i\<close> that disarms, or stays armed without calling, keeps the invariant.\<close>

lemma once_inv_keep:
  assumes inv: "once_inv (db, ws) calls" and i: "i < length ws" and k: "keys db' = keys db"
    and pc: "\<And>t. armed pc' = Some t \<Longrightarrow> armed (snd (ws ! i)) = Some t \<and> adapter_call (snd (ws ! i)) = []"
  shows "once_inv (db', ws[i := (q, pc')]) (calls @ adapter_call (snd (ws ! i)))"
proof -
  let ?c = "adapter_call (snd (ws ! i))"
  have old: "armed (snd (ws ! j)) = Some t \<and> (j = i \<longrightarrow> ?c = [])"
    if "j < length ws" "armed (snd ((ws[i := (q, pc')]) ! j)) = Some t" for j t
    using that pc i by (cases "j = i") auto
  have c: "?c = [] \<or> (\<exists>t. armed (snd (ws ! i)) = Some t \<and> ?c = [at_idempotency_key t])"
    using adapter_call_armed by blast
  show ?thesis
  proof (rule once_invI)
    show "distinct (calls @ ?c)" "set (calls @ ?c) \<subseteq> keys db'"
      using c once_invD(1,2) [OF inv] once_invD(3) [OF inv i] k by auto
  next
    fix j t assume j: "j < length (ws[i := (q, pc')])" "armed (snd ((ws[i := (q, pc')]) ! j)) = Some t"
    have a: "armed (snd (ws ! j)) = Some t" "j = i \<longrightarrow> ?c = []" using old [of j t] j by simp_all
    have "at_idempotency_key t \<notin> set ?c"
    proof
      assume "at_idempotency_key t \<in> set ?c"
      then obtain u where "armed (snd (ws ! i)) = Some u" "at_idempotency_key u = at_idempotency_key t" "?c \<noteq> []" using c by auto
      then show False using once_invD(4) [OF inv _ i a(1)] a(2) j(1) by auto
    qed
    then show "at_idempotency_key t \<in> keys db' - set (calls @ ?c)" using once_invD(3) [OF inv _ a(1)] j(1) k by simp
  next
    fix j m t u assume "j < length (ws[i := (q, pc')])" "m < length (ws[i := (q, pc')])"
      "armed (snd ((ws[i := (q, pc')]) ! j)) = Some t" "armed (snd ((ws[i := (q, pc')]) ! m)) = Some u"
      "at_idempotency_key u = at_idempotency_key t"
    then show "m = j" using once_invD(4) [OF inv] old by (metis length_list_update)
  qed
qed

lemma once_inv_claim:
  assumes inv: "once_inv (db, ws) calls" and i: "i < length ws" and k: "key \<notin> keys db" "keys db' = insert key (keys db)"
    and pc: "armed pc' = Some t" "at_idempotency_key t = key"
  shows "once_inv (db', ws[i := (q, pc')]) calls"
proof (rule once_invI)
  show "distinct calls" "set calls \<subseteq> keys db'" using once_invD(1,2) [OF inv] k by auto
next
  fix j u assume j: "j < length (ws[i := (q, pc')])" "armed (snd ((ws[i := (q, pc')]) ! j)) = Some u"
  show "at_idempotency_key u \<in> keys db' - set calls"
  proof (cases "j = i")
    case True
    then show ?thesis using j pc i k once_invD(2) [OF inv] by auto
  next
    case False
    then show ?thesis using j once_invD(3) [OF inv, of j u] k by simp
  qed
next
  fix j m u w assume a: "j < length (ws[i := (q, pc')])" "m < length (ws[i := (q, pc')])"
    "armed (snd ((ws[i := (q, pc')]) ! j)) = Some u" "armed (snd ((ws[i := (q, pc')]) ! m)) = Some w"
    "at_idempotency_key w = at_idempotency_key u"
  have old: "at_idempotency_key x \<in> keys db" if "n < length ws" "n \<noteq> i" "armed (snd ((ws[i := (q, pc')]) ! n)) = Some x" for n x
    using that once_invD(3) [OF inv, of n x] by simp
  show "m = j"
  proof (cases "j = i \<or> m = i")
    case True
    then show ?thesis using a pc k(1) old i by (metis length_list_update nth_list_update_eq option.inject snd_conv)
  next
    case False
    then show ?thesis using a once_invD(4) [OF inv, of j m u w] by simp
  qed
qed

lemma once_inv_step:
  assumes "once_inv st calls"
  shows "once_inv (worker_step i st) (calls @ worker_call i st)"
proof -
  obtain db ws where st: "st = (db, ws)" by (cases st)
  show ?thesis
  proof (cases "i < length ws")
    case True
    obtain q pc where qp: "ws ! i = (q, pc)" by (cases "ws ! i")
    obtain db' pc' where s: "durable_step q db pc = (db', pc')" by fastforce
    have new: "worker_step i st = (db', ws[i := (q, pc')])" "worker_call i st = adapter_call pc"
      using st True qp s by (simp_all add: schedule_def worker_call_def)
    have inv: "once_inv (db, ws) calls" using assms st by simp
    show ?thesis
    proof (cases "\<exists>key tool ad. pc = D_Claim key tool ad")
      case claim: True
      then obtain key tool ad where pc: "pc = D_Claim key tool ad" by blast
      from durable_step_claim [OF s [unfolded pc]] show ?thesis
        using once_inv_keep [OF inv True, of db' pc' q] once_inv_claim [OF inv True, of key db' pc' _ q] new qp pc by auto
    next
      case False
      then show ?thesis
        using once_inv_keep [OF inv True durable_step_same_keys [OF s], of pc' q] durable_step_armed [OF s] new qp by auto
    qed
  qed (use assms st in \<open>simp add: schedule_def worker_call_def\<close>)
qed

section \<open>The stored status only moves forward\<close>

text \<open>A later state of a row: the same, or a newer version of a row that was not terminal, and not behind it.\<close>

definition row_advanced :: "action_row \<Rightarrow> action_row \<Rightarrow> bool" where
  "row_advanced r r' = (r' = r \<or> ro_version r < ro_version r' \<and> ro_status r \<notin> terminal_statuses \<and>
     (ro_status r' \<in> terminal_statuses \<or> happy_path_order (ro_status r) \<le> happy_path_order (ro_status r')))"

definition rows_advanced :: "action_row list \<Rightarrow> action_row list \<Rightarrow> bool" where
  "rows_advanced t t' = (\<forall>i r. action_get t i = Some r \<longrightarrow> (\<exists>r'. action_get t' i = Some r' \<and> row_advanced r r'))"

lemma rows_advanced_refl [simp]: "rows_advanced t t"
  by (simp add: rows_advanced_def row_advanced_def)

lemma row_advanced_trans: "row_advanced r s \<Longrightarrow> row_advanced s t \<Longrightarrow> row_advanced r t"
  by (auto simp: row_advanced_def)

lemma rows_advanced_trans: "rows_advanced t u \<Longrightarrow> rows_advanced u v \<Longrightarrow> rows_advanced t v"
  unfolding rows_advanced_def by (meson row_advanced_trans)

text \<open>A worker about to update has read the row it will replace, or lost the race already.\<close>

fun pending_ok :: "exec_db \<Rightarrow> durable_pc \<Rightarrow> bool" where
  "pending_ok db (U_Update n v row a k) = (ro_status row = a_status a \<and>
     (\<exists>r. action_get (x_actions db) (a_id a) = Some r \<and> v \<le> ro_version r \<and> (ro_version r = v \<longrightarrow> \<not> keep_existing r a)))"
| "pending_ok _ _ = True"

lemma pending_ok_advanced:
  assumes "pending_ok db pc" "rows_advanced (x_actions db) (x_actions db')"
  shows "pending_ok db' pc"
  using assms(1)
proof (cases "(db, pc)" rule: pending_ok.cases)
  case (1 db0 n v row a k)
  then obtain r where r: "action_get (x_actions db) (a_id a) = Some r" "v \<le> ro_version r" "ro_version r = v \<longrightarrow> \<not> keep_existing r a"
    using assms(1) by auto
  then obtain r' where "action_get (x_actions db') (a_id a) = Some r'" "row_advanced r r'"
    using assms(2) by (auto simp: rows_advanced_def)
  then show ?thesis using 1 r assms(1) by (auto simp: row_advanced_def)
qed auto

lemma pending_ok_helpers [simp]:
  "pending_ok db (upsert_start a k)" "pending_ok db (upsert_stale q k e)" "pending_ok db (after_persist q row)"
  "pending_ok db (after_lookup q b existing)" "pending_ok db (after_load q l)" "pending_ok db (after_refusal q c m existing)"
  "pending_ok db (local_failure q c m)"
  "(\<And>x. pending_ok db (f x)) \<Longrightarrow> pending_ok db (raised r f)"
  by (cases k; simp add: durable_helpers Let_def split: option.splits sum.splits prod.splits gate.splits)+

lemma pending_ok_return [simp]: "pending_ok db (upsert_return q k row)"
  by (cases k) simp_all

lemma pending_ok_decide: "pending_ok db (upsert_decide q n a k (action_get (x_actions db) (a_id a)))"
  by (auto simp: upsert_decide_def dest: action_to_record_fields_OkD split: option.splits sum.splits)

lemma update_advances:
  assumes "pending_ok db (U_Update n v row a k)"
    "action_update (x_actions db) (a_id a) v (\<lambda>r. row\<lparr>ro_id := ro_id r\<rparr>) = (True, t)"
  shows "rows_advanced (x_actions db) t"
proof -
  let ?f = "\<lambda>r. row\<lparr>ro_id := ro_id r\<rparr>"
  obtain r where r: "action_get (x_actions db) (a_id a) = Some r" "ro_version r = v" "\<not> keep_existing r a" "ro_status row = a_status a"
    using assms action_store.cas_ok_iff [of "x_actions db" "a_id a" v ?f] by auto
  have "action_get t (a_id a) = Some ((?f r)\<lparr>ro_version := v + 1\<rparr>)"
    using action_store.reader_writes [OF r(1), of ?f] assms(2) r(2) by simp
  moreover have "action_get t j = action_get (x_actions db) j" if "j \<noteq> a_id a" for j
    using action_store.cas_other [of ?f j "a_id a" "x_actions db" v] assms(2) that by simp
  moreover have "row_advanced r ((?f r)\<lparr>ro_version := v + 1\<rparr>)" using r by (auto simp: row_advanced_def keep_existing_def)
  ultimately show ?thesis using r(1) unfolding rows_advanced_def row_advanced_def by (metis option.inject)
qed

lemma create_advances: "action_create t row = Some t' \<Longrightarrow> rows_advanced t t'"
  by (auto simp: action_create_def tbl_insert_def rows_advanced_def action_get_def tbl_get_append row_advanced_def split: if_splits)

lemma durable_step_advances:
  assumes "durable_step q db pc = (db', pc')" "pending_ok db pc"
  shows "rows_advanced (x_actions db) (x_actions db') \<and> pending_ok db' pc'"
proof (cases "(q, db, pc)" rule: durable_step.cases)
  case (6 q' db0 n v a k)
  then show ?thesis using assms(1) pending_ok_decide [of db q n a k] by auto
next
  case (7 q' db0 n row a k)
  then show ?thesis using assms(1) by (auto intro: create_advances split: option.splits)
next
  case (8 q' db0 n v row a k)
  then show ?thesis using assms update_advances [of db n v row a k] by (auto simp del: pending_ok.simps(1) split: prod.splits bool.splits)
qed (use assms in \<open>auto split: option.splits prod.splits bool.splits sum.splits if_splits\<close>)

interpretation durable_calls: rely_guarantee durable_step "\<lambda>q. pending_ok"
  "\<lambda>db db'. rows_advanced (x_actions db) (x_actions db')"
proof unfold_locales
  fix q d c d' c'
  assume "pending_ok d c" "durable_step q d c = (d', c')"
  then show "rows_advanced (x_actions d) (x_actions d') \<and> pending_ok d' c'" using durable_step_advances by blast
qed (use rows_advanced_trans pending_ok_advanced in \<open>simp, blast+\<close>)

lemma durable_system_interleaved: "durable_system st calls st' \<Longrightarrow> interleaved durable_step st st'"
  by (induction rule: durable_system.induct) (simp only: interleaved_refl, rule interleaved_step)

section \<open>Properties\<close>

text \<open>C1: no duplicate side effects. Let any number of workers execute any actions against one database, interleaved in
  any order, each stopping anywhere (a crash). Over the whole run no idempotency key has its adapter called
  twice, and every call is backed by an attempt row committed before it.\<close>

theorem at_most_once_execution:
  assumes "durable_system (db, map (\<lambda>q. (q, D_Start)) qs) calls (db', ws)"
  shows "distinct calls \<and> set calls \<subseteq> at_idempotency_key ` set (x_attempts db')"
proof -
  have "once_inv st' calls" if "durable_system st calls st'" "once_inv st []" for st st'
    using that
  proof (induction rule: durable_system.induct)
    case (ds_step st calls st' i)
    then show ?case using once_inv_step by blast
  qed simp
  moreover have "once_inv (db, map (\<lambda>q. (q, D_Start)) qs) []" by (rule once_invI) simp_all
  ultimately have "once_inv (db', ws) calls" using assms by blast
  then show ?thesis using once_invD(1,2) by (simp add: keys_def)
qed

definition sample_call :: durable_request where
  "sample_call = \<lparr>dq_env = sample_env, dq_action = sample_file_action, dq_decision = sample_allowed, dq_approval = None,
     dq_claimed_by = ''w1'', dq_retry_number = 0, dq_created_at = 0\<rparr>"

definition sample_db :: exec_db where
  "sample_db = \<lparr>x_actions = [], x_attempts = [], x_results = [], x_verifications = [], x_approvals = None, x_fs = sample_fs\<rparr>"

definition sample_executing :: action where
  "sample_executing = sample_file_action\<lparr>a_status := AS_EXECUTING, a_started_at := Some 3\<rparr>"

definition sample_attempt :: "string \<Rightarrow> attempt_row" where
  "sample_attempt key = \<lparr>at_id = ''t1'', at_action_id = ''f1'', at_idempotency_key = key, at_tool_name = ''file.create_sandboxed'',
     at_adapter_name = file_adapter_name, at_adapter_version = Some file_adapter_version, at_status = AT_CREATED, at_started_at = None,
     at_finished_at = None, at_side_effect_occurred = False, at_side_effect_fingerprint = None, at_error_code = None,
     at_error_message = None, at_recovery_state = None, at_claimed_at = Some 7, at_claimed_by = Some ''w1'',
     at_lease_expires_at = None, at_created_at = 0\<rparr>"

lemma sample_call_facts:
  "dq_env sample_call = sample_env" "dq_action sample_call = sample_file_action" "pd_action_id (dq_decision sample_call) = ''f1''"
  "pd_outcome (dq_decision sample_call) = ALLOW_WITH_AUDIT" "dq_retry_number sample_call = 0" "dq_claimed_by sample_call = ''w1''"
  "dq_created_at sample_call = 0" "dq_clock sample_call = int" "a_id sample_file_action = ''f1''"
  "a_tool_name sample_file_action = Some ''file.create_sandboxed''"
  "a_status sample_file_action = AS_PERMISSION_CHECKED" "a_id sample_executing = ''f1''" "a_status sample_executing = AS_EXECUTING"
  "xe_attempt sample_env = ''t1''" "xe_root sample_env = [''box'']" "xe_fault sample_env = No_Fault"
  "executing_at sample_file_action 3 = Inr sample_executing"
  "file_inputs sample_executing = Some (''a.txt'', ''hi'')"
  by (simp_all add: sample_call_def sample_allowed_def sample_env_def sample_file_action_def sample_executing_def dq_clock_def fun_eq_iff
      executing_at_def step_to_def assert_action_transition_def state_machine file_inputs_def obj_get_def)

lemma sample_persistable: "persistable sample_file_action" "persistable sample_executing"
proof -
  have "length (json_quote ''content'') = 9" "length (json_quote ''hi'') = 4" "length (json_quote ''relative_path'') = 15"
    "length (json_quote ''a.txt'') = 7" by code_simp+
  then show "persistable sample_file_action" "persistable sample_executing"
    by (simp_all add: persistable_def sample_file_action_def sample_executing_def json_default_def dependencies_json_def
      max_text_field_chars_def max_inputs_json_chars_def)
qed

lemma sample_norm: "norm_inputs (a_inputs sample_file_action) = [(''content'', JStr ''hi''), (''relative_path'', JStr ''a.txt'')]"
  by code_simp

text \<open>The states of the sample call, and what it leaves if it stops after its adapter call and the result row.\<close>

definition sample_started :: "string \<Rightarrow> attempt_row" where
  "sample_started key = (sample_attempt key)\<lparr>at_status := AT_STARTED, at_started_at := Some 3, at_lease_expires_at := Some (3 + lease_ttl)\<rparr>"

lemma keep_existing_started: "ro_status row = AS_PERMISSION_CHECKED \<Longrightarrow> \<not> keep_existing row sample_executing"
  by (simp add: keep_existing_def terminal_statuses_def sample_call_facts)

lemma sample_run_claim:
  assumes "action_to_record_fields sample_file_action = Inr row" "ro_id row = ''f1''"
  shows "\<exists>key. run_durable 4 sample_call sample_db D_Start =
    (sample_db\<lparr>x_actions := [row\<lparr>ro_version := 1\<rparr>], x_attempts := [sample_attempt key]\<rparr>, D_Started (sample_attempt key) file_adapter)"
proof -
  let ?q = sample_call
  let ?row = "row\<lparr>ro_version := 1\<rparr>"
  define key where "key = compute_idempotency_key ''f1'' (ro_action_hash row) 0"
  have "durable_step ?q sample_db D_Start = (sample_db, U_Get 5 (- 1) sample_file_action K_Persist)"
    by (simp add: sample_call_facts sample_db_def action_get_def after_lookup_def Let_def upsert_start_def upsert_max_attempts_def)
  moreover have "durable_step ?q sample_db (U_Get 5 (- 1) sample_file_action K_Persist) = (sample_db, U_Create 4 ?row sample_file_action K_Persist)"
    using assms by (simp add: numeral_eq_Suc sample_call_facts sample_db_def action_get_def upsert_decide_def)
  moreover have "durable_step ?q sample_db (U_Create 4 ?row sample_file_action K_Persist) =
      (sample_db\<lparr>x_actions := [?row]\<rparr>, D_Claim key ''file.create_sandboxed'' file_adapter)"
    by (simp add: sample_db_def action_create_def tbl_insert_def after_persist_def sample_call_facts sample_adapter key_def empty_if_none_def)
  moreover have "durable_step ?q (sample_db\<lparr>x_actions := [?row]\<rparr>) (D_Claim key ''file.create_sandboxed'' file_adapter) =
      (sample_db\<lparr>x_actions := [?row], x_attempts := [sample_attempt key]\<rparr>, D_Started (sample_attempt key) file_adapter)"
    by (simp add: sample_db_def attempt_claim_def tbl_insert_def sample_call_facts sample_attempt_def file_adapter_def Let_def)
  ultimately show ?thesis by (auto simp: numeral_eq_Suc)
qed

definition sample_written :: fs where
  "sample_written = ([''box'', ''a.txt''], F_File (utf8_encode ''hi'')) # sample_fs"

definition sample_success :: execution_result where
  "sample_success = file_success sample_executing 4 5 ''a.txt'' (utf8_encode ''hi'') ''t1''"

text \<open>After the adapter call, and after the result row is stored: the action row still says executing.\<close>

lemma sample_run_execute:
  fixes row row2 :: action_row and key :: string
  assumes "ro_id row = ''f1''" "ro_status row = AS_PERMISSION_CHECKED"
    "action_to_record_fields sample_executing = Inr row2" "ro_id row2 = ''f1''"
  defines "db1 \<equiv> sample_db\<lparr>x_actions := [row2\<lparr>ro_version := 2\<rparr>], x_attempts := [sample_started key]\<rparr>"
  shows "run_durable 4 sample_call (sample_db\<lparr>x_actions := [row\<lparr>ro_version := 1\<rparr>], x_attempts := [sample_attempt key]\<rparr>)
      (D_Started (sample_attempt key) file_adapter) = (db1, D_Execute (sample_attempt key) file_adapter sample_executing)"
    "durable_step sample_call db1 (D_Execute (sample_attempt key) file_adapter sample_executing) =
      (db1\<lparr>x_fs := sample_written\<rparr>, D_Save_Result (sample_attempt key) file_adapter sample_executing sample_success)"
    "durable_step sample_call (db1\<lparr>x_fs := sample_written\<rparr>) (D_Save_Result (sample_attempt key) file_adapter sample_executing sample_success) =
      (db1\<lparr>x_fs := sample_written, x_results := [execution_result_to_record_fields ''t1'' sample_success ORIGINAL]\<rparr>,
       D_Attempt_Done (sample_attempt key) file_adapter sample_executing sample_success)"
proof -
  let ?q = sample_call
  let ?t = "sample_attempt key"
  let ?k = "K_Executing ?t file_adapter sample_executing"
  define db0 where "db0 = sample_db\<lparr>x_actions := [row\<lparr>ro_version := 1\<rparr>], x_attempts := [sample_started key]\<rparr>"
  have "durable_step ?q (sample_db\<lparr>x_actions := [row\<lparr>ro_version := 1\<rparr>], x_attempts := [?t]\<rparr>) (D_Started ?t file_adapter) =
      (db0, U_Get 5 (- 1) sample_executing ?k)"
    by (simp add: sample_call_facts raised_def upsert_start_def upsert_max_attempts_def attempt_update_def tbl_upd_def
        sample_started_def sample_attempt_def db0_def)
  moreover have "durable_step ?q db0 (U_Get 5 (- 1) sample_executing ?k) = (db0, U_Update 4 1 row2 sample_executing ?k)"
    using assms(1-3) keep_existing_started [of "row\<lparr>ro_version := 1\<rparr>"]
    by (simp add: numeral_eq_Suc sample_call_facts db0_def action_get_def tbl_get_Cons upsert_decide_def)
  moreover have "durable_step ?q db0 (U_Update 4 1 row2 sample_executing ?k) = (db1, U_Reread ''f1'' ?k)"
    using assms(1,4) by (simp add: sample_call_facts db0_def db1_def action_update_def tbl_vcas_def tbl_cas_def tbl_get_Cons tbl_upd_def)
  moreover have "durable_step ?q db1 (U_Reread ''f1'' ?k) = (db1, D_Execute ?t file_adapter sample_executing)"
    using assms(4) by (simp add: db1_def action_get_def tbl_get_Cons)
  ultimately show "run_durable 4 ?q (sample_db\<lparr>x_actions := [row\<lparr>ro_version := 1\<rparr>], x_attempts := [?t]\<rparr>)
      (D_Started ?t file_adapter) = (db1, D_Execute ?t file_adapter sample_executing)" by (simp add: numeral_eq_Suc)
  have "file_execute sample_executing (adapter_context ?q 4 ''t1'') sample_fs = (sample_written, Inr sample_success)"
    using executes_in_sample_fs [OF sample_call_facts(18), of "adapter_context ?q 4 ''t1''"]
    by (simp add: adapter_context_def sample_call_facts sample_written_def sample_success_def)
  then show "durable_step ?q db1 (D_Execute ?t file_adapter sample_executing) =
      (db1\<lparr>x_fs := sample_written\<rparr>, D_Save_Result ?t file_adapter sample_executing sample_success)"
    by (simp add: db1_def sample_db_def file_adapter_def sample_attempt_def)
  show "durable_step ?q (db1\<lparr>x_fs := sample_written\<rparr>) (D_Save_Result ?t file_adapter sample_executing sample_success) =
      (db1\<lparr>x_fs := sample_written, x_results := [execution_result_to_record_fields ''t1'' sample_success ORIGINAL]\<rparr>,
       D_Attempt_Done ?t file_adapter sample_executing sample_success)"
    by (simp add: db1_def sample_db_def result_create_def tbl_insert_def sample_attempt_def)
qed

lemma run_durable_add: "run_durable (m + n) q db pc = (case run_durable m q db pc of (db', pc') \<Rightarrow> run_durable n q db' pc')"
  by (induction m arbitrary: db pc) (auto split: prod.splits)

lemma sample_run:
  obtains key row where "run_durable 8 sample_call sample_db D_Start =
      (sample_db\<lparr>x_actions := [row], x_attempts := [sample_started key]\<rparr>, D_Execute (sample_attempt key) file_adapter sample_executing)"
    "run_durable 9 sample_call sample_db D_Start = (sample_db\<lparr>x_actions := [row], x_attempts := [sample_started key],
       x_fs := sample_written\<rparr>, D_Save_Result (sample_attempt key) file_adapter sample_executing sample_success)"
    "run_durable 10 sample_call sample_db D_Start = (sample_db\<lparr>x_actions := [row], x_attempts := [sample_started key],
       x_fs := sample_written, x_results := [execution_result_to_record_fields ''t1'' sample_success ORIGINAL]\<rparr>,
      D_Attempt_Done (sample_attempt key) file_adapter sample_executing sample_success)"
    "ro_id row = ''f1''" "ro_status row = AS_EXECUTING"
    "record_to_action row = Inr (sample_executing\<lparr>a_inputs := norm_inputs (a_inputs sample_file_action)\<rparr>)"
proof -
  obtain row where r1: "action_to_record_fields sample_file_action = Inr row"
    using record_to_action_roundtrip [OF sample_persistable(1)] by blast
  obtain row2 where r2: "action_to_record_fields sample_executing = Inr row2"
    "record_to_action row2 = Inr (sample_executing\<lparr>a_inputs := norm_inputs (a_inputs sample_executing), a_result := None\<rparr>)"
    using record_to_action_roundtrip [OF sample_persistable(2)] by blast
  have i: "ro_id row = ''f1''" "ro_status row = AS_PERMISSION_CHECKED" "ro_id row2 = ''f1''" "ro_status row2 = AS_EXECUTING"
    using action_to_record_fields_OkD [OF r1] action_to_record_fields_OkD [OF r2(1)] by (simp_all add: sample_call_facts)
  obtain key where k: "run_durable 4 sample_call sample_db D_Start = (sample_db\<lparr>x_actions := [row\<lparr>ro_version := 1\<rparr>],
      x_attempts := [sample_attempt key]\<rparr>, D_Started (sample_attempt key) file_adapter)"
    using sample_run_claim [OF r1 i(1)] by blast
  note e = sample_run_execute [OF i(1,2) r2(1) i(3), of key]
  have one: "run_durable 1 q db pc = durable_step q db pc" for q db pc by (simp split: prod.split)
  note 8 = run_durable_add [of 4 4 sample_call sample_db D_Start, unfolded k, simplified, unfolded e(1)]
  note 9 = run_durable_add [of 8 1 sample_call sample_db D_Start, unfolded 8 prod.case one e(2), simplified]
  note 10 = run_durable_add [of 9 1 sample_call sample_db D_Start, unfolded 9 prod.case one e(3), simplified]
  have "record_to_action (row2\<lparr>ro_version := 2\<rparr>) = Inr (sample_executing\<lparr>a_inputs := norm_inputs (a_inputs sample_file_action)\<rparr>)"
    using r2(2) by (auto simp: record_to_action_def bind_sum_InrE sample_executing_def sample_file_action_def)
  then show thesis using that [OF 8 9 10] i by simp
qed

text \<open>A run of one worker is a schedule of the system in which the others wait.\<close>

lemma durable_system_run:
  assumes "durable_system st calls (db, (q, pc) # ws)" "run_durable n q db pc = (db', pc')"
  shows "\<exists>calls'. durable_system st (calls @ calls') (db', (q, pc') # ws)"
  using assms
proof (induction n arbitrary: calls db pc)
  case 0
  then show ?case by (metis append_Nil2 prod.inject run_durable.simps(1))
next
  case (Suc n)
  obtain db1 pc1 where s: "durable_step q db pc = (db1, pc1)" by fastforce
  then have "durable_system st (calls @ adapter_call pc) (db1, (q, pc1) # ws)"
    using ds_step [OF Suc.prems(1), of 0] by (simp add: schedule_def worker_call_def)
  then show ?case using Suc.IH [of "calls @ adapter_call pc" db1 pc1] Suc.prems(2) s by auto
qed

theorem at_most_once_execution_witness:
  "\<exists>calls st. durable_system (sample_db, map (\<lambda>q. (q, D_Start)) [sample_call, sample_call]) calls st \<and> calls \<noteq> [] \<and> distinct calls"
proof -
  obtain key row where r: "run_durable 8 sample_call sample_db D_Start =
      (sample_db\<lparr>x_actions := [row], x_attempts := [sample_started key]\<rparr>, D_Execute (sample_attempt key) file_adapter sample_executing)"
    by (rule sample_run)
  let ?st = "(sample_db, map (\<lambda>q. (q, D_Start)) [sample_call, sample_call])"
  obtain calls where c: "durable_system ?st calls (sample_db\<lparr>x_actions := [row], x_attempts := [sample_started key]\<rparr>,
      [(sample_call, D_Execute (sample_attempt key) file_adapter sample_executing), (sample_call, D_Start)])"
    using durable_system_run [OF ds_refl r, of "[(sample_call, D_Start)]"] by auto
  obtain db' ws where "worker_step 0 (sample_db\<lparr>x_actions := [row], x_attempts := [sample_started key]\<rparr>,
      [(sample_call, D_Execute (sample_attempt key) file_adapter sample_executing), (sample_call, D_Start)]) = (db', ws)" by fastforce
  then have d: "durable_system ?st (calls @ [at_idempotency_key (sample_attempt key)]) (db', ws)"
    using ds_step [OF c, of 0] by (simp add: worker_call_def)
  show ?thesis using at_most_once_execution [OF d] d by blast
qed

text \<open>The workers alone never move a stored action back: a terminal row is never written again, and the others only
  move on along the happy path or to a terminal status, with a higher version. \<open>Stored_Actions\<close> adds the retries.\<close>

theorem executors_only_advance:
  assumes "durable_system (db, map (\<lambda>q. (q, D_Start)) qs) calls (db', ws)" "action_get (x_actions db) i = Some r"
  shows "\<exists>r'. action_get (x_actions db') i = Some r' \<and> (ro_status r \<in> terminal_statuses \<longrightarrow> r' = r) \<and>
    (r' \<noteq> r \<longrightarrow> ro_version r < ro_version r' \<and>
       (ro_status r' \<in> terminal_statuses \<or> happy_path_order (ro_status r) \<le> happy_path_order (ro_status r')))"
proof -
  have "rows_advanced (x_actions db) (x_actions db')"
    by (rule durable_calls.interleaved_le [OF durable_system_interleaved [OF assms(1)], THEN conjunct1]) auto
  then show ?thesis using assms(2) by (auto simp: rows_advanced_def row_advanced_def)
qed

end
