(* ===== verification/Reconciliation.thy ===== *)
theory Reconciliation
  imports Durable_Safety
begin

text \<open>
  \<open>app/decision_intelligence/reconciliation.py\<close>: what happens after a crash. \<open>reconcile_action\<close> reads the rows
  the durable executor left and the sandbox, classifies the state, and advances the rows it can justify.
  A call is one function of the database here: it is run by hand after a crash, not beside
  a live worker. Audit events are left out. A raised exception keeps what was committed before it.
\<close>

section \<open>Classification and result\<close>

datatype reconciliation_classification =
    CONSISTENT_COMPLETED | CONSISTENT_FAILED | EXECUTION_NOT_STARTED | EXECUTION_INTERRUPTED
  | SIDE_EFFECT_PRESENT_RESULT_MISSING | EXECUTION_SUCCEEDED_VERIFICATION_MISSING
  | VERIFICATION_PASSED_COMPLETION_MISSING | SIDE_EFFECT_MISMATCH | DUPLICATE_REQUEST
  | APPROVAL_CONSUMED_EXECUTION_MISSING | AMBIGUOUS_STATE | SECURITY_INCONSISTENCY

record reconciliation_result =
  rc_action_id :: string
  rc_classification :: reconciliation_classification
  rc_observed_state :: "(string \<times> json) list"
  rc_durable_state :: "(string \<times> json) list"
  rc_recommended_transition :: "string option"
  rc_safe_to_retry :: bool
  rc_human_review_required :: bool
  rc_issues :: "string list"
  rc_recovered :: bool
  rc_timestamp :: datetime

datatype reconciliation_error = Reconcile_Load load_error | Reconcile_Adapter fs_exn

text \<open>The call's arguments: registry, sandbox root and the clock, by reading site.\<close>

record recon_env =
  re_adapters :: adapter_registry
  re_root :: path
  re_clock :: "nat \<Rightarrow> datetime"

fun attempt_status_value :: "attempt_status \<Rightarrow> string" where
  "attempt_status_value AT_CREATED = ''CREATED''"
| "attempt_status_value AT_STARTED = ''STARTED''"
| "attempt_status_value AT_SIDE_EFFECT_REPORTED = ''SIDE_EFFECT_REPORTED''"
| "attempt_status_value AT_EXECUTION_SUCCEEDED = ''EXECUTION_SUCCEEDED''"
| "attempt_status_value AT_EXECUTION_FAILED = ''EXECUTION_FAILED''"
| "attempt_status_value AT_VERIFYING = ''VERIFYING''"
| "attempt_status_value AT_VERIFIED = ''VERIFIED''"
| "attempt_status_value AT_VERIFICATION_FAILED = ''VERIFICATION_FAILED''"
| "attempt_status_value AT_INTERRUPTED = ''INTERRUPTED''"
| "attempt_status_value AT_RECONCILIATION_REQUIRED = ''RECONCILIATION_REQUIRED''"
| "attempt_status_value AT_RECONCILED = ''RECONCILED''"
| "attempt_status_value AT_BLOCKED = ''BLOCKED''"

definition json_of :: "('a \<Rightarrow> json) \<Rightarrow> 'a option \<Rightarrow> json" where
  "json_of f x = (case x of None \<Rightarrow> JNull | Some v \<Rightarrow> f v)"

definition durable_state_of :: "action_row \<Rightarrow> (string \<times> json) list" where
  "durable_state_of row = [(''status'', JStr (action_status_value (ro_status row))), (''version'', JInt (ro_version row))]"

definition inspection_dump :: "effect_inspection \<Rightarrow> json" where
  "inspection_dump i = JObj [(''exists'', JBool (ei_exists i)), (''is_regular_file'', json_of JBool (ei_is_regular_file i)),
     (''inside_sandbox'', json_of JBool (ei_inside_sandbox i)), (''is_symlink'', json_of JBool (ei_is_symlink i)),
     (''size'', json_of JInt (ei_size i)), (''sha256'', json_of JStr (ei_sha256 i)),
     (''relative_path'', json_of JStr (ei_relative_path i)), (''matches_expected'', json_of JBool (ei_matches_expected i)),
     (''issues'', JArr (map JStr (ei_issues i)))]"

definition observed_state_of :: "attempt_row \<Rightarrow> bool \<Rightarrow> bool \<Rightarrow> (string \<times> json) list" where
  "observed_state_of t res ver = [(''attempt_status'', JStr (attempt_status_value (at_status t))),
     (''has_execution_result'', JBool res), (''has_verification_result'', JBool ver)]"

definition discover_reconciliation_candidates :: "exec_db \<Rightarrow> datetime \<Rightarrow> string list" where
  "discover_reconciliation_candidates db now = sort (remdups (
     map ro_id (action_list_by_status (x_actions db) [AS_EXECUTING, AS_EXECUTION_SUCCEEDED, AS_VERIFYING, AS_VERIFIED]) @
     map at_action_id (list_stale_started (x_attempts db) now)))"

section \<open>Advancing the action row\<close>

fun lifecycle_order :: "action_status \<Rightarrow> int option" where
  "lifecycle_order AS_EXECUTING = Some 0"
| "lifecycle_order AS_EXECUTION_SUCCEEDED = Some 1"
| "lifecycle_order AS_VERIFYING = Some 2"
| "lifecycle_order AS_VERIFIED = Some 3"
| "lifecycle_order AS_COMPLETED = Some 4"
| "lifecycle_order _ = None"

definition at_or_past :: "action_status \<Rightarrow> action_status \<Rightarrow> bool" where
  "at_or_past current target = ((case lifecycle_order target of None \<Rightarrow> 10 ^ 9 | Some n \<Rightarrow> n) \<le>
     (case lifecycle_order current of None \<Rightarrow> - 1 | Some n \<Rightarrow> n))"

text \<open>\<open>_advance_through\<close>; \<open>extra\<close> sets the further columns.\<close>

definition advance_through :: "exec_db \<Rightarrow> action_row \<Rightarrow> action_status \<Rightarrow> (action_row \<Rightarrow> action_row) \<Rightarrow>
    exec_db \<times> action_row option" where
  "advance_through db row target extra =
     (if at_or_past (ro_status row) target then (db, Some row)
      else if \<not> can_action_transition (ro_status row) target then (db, None)
      else (case action_update (x_actions db) (ro_id row) (ro_version row) (\<lambda>r. (extra r)\<lparr>ro_status := target\<rparr>) of
          (False, _) \<Rightarrow> (db, None)
        | (True, t) \<Rightarrow> (db\<lparr>x_actions := t\<rparr>, action_get t (ro_id row))))"

section \<open>The cases\<close>

definition settled :: "string \<Rightarrow> reconciliation_classification \<Rightarrow> (string \<times> json) list \<Rightarrow> (string \<times> json) list \<Rightarrow> bool \<Rightarrow> bool \<Rightarrow>
    string list \<Rightarrow> bool \<Rightarrow> datetime \<Rightarrow> reconciliation_result" where
  "settled i c observed durable safe human issues recovered ts = \<lparr>rc_action_id = i, rc_classification = c,
     rc_observed_state = observed, rc_durable_state = durable, rc_recommended_transition = None, rc_safe_to_retry = safe,
     rc_human_review_required = human, rc_issues = issues, rc_recovered = recovered, rc_timestamp = ts\<rparr>"

text \<open>\<open>{**d, k: v}\<close>: a present key keeps its place.\<close>

definition dict_put :: "(string \<times> json) list \<Rightarrow> string \<Rightarrow> json \<Rightarrow> (string \<times> json) list" where
  "dict_put d k v = tbl_put fst d (k, v)"

definition reconcile_missing_completion :: "recon_env \<Rightarrow> exec_db \<Rightarrow> action_row \<Rightarrow> (string \<times> json) list \<Rightarrow> (string \<times> json) list \<Rightarrow>
    reconciliation_classification \<Rightarrow> exec_db \<times> reconciliation_result" where
  "reconcile_missing_completion env db row durable observed c = (case advance_through db row AS_COMPLETED id of
     (db', None) \<Rightarrow> (db', settled (ro_id row) c observed durable False True
       [''verified, but could not advance Action to COMPLETED (concurrent writer)''] False (re_clock env 3))
   | (db', Some advanced) \<Rightarrow> (db', (settled (ro_id row) c observed
       (dict_put (dict_put durable ''status'' (JStr (action_status_value (ro_status advanced)))) ''version'' (JInt (ro_version advanced)))
       False False [] True (re_clock env 3))\<lparr>rc_recommended_transition := Some ''COMPLETED''\<rparr>))"

definition save_verification :: "exec_db \<Rightarrow> attempt_row \<Rightarrow> verification_result \<Rightarrow> exec_db" where
  "save_verification db t v = (if verification_get_by_attempt (x_verifications db) (at_id t) \<noteq> None then db
     else (case verification_create (x_verifications db) (verification_result_to_record_fields (at_id t) v RECONSTRUCTED) of
         None \<Rightarrow> db | Some vs \<Rightarrow> db\<lparr>x_verifications := vs\<rparr>))"

definition set_attempt :: "exec_db \<Rightarrow> attempt_row \<Rightarrow> (attempt_row \<Rightarrow> attempt_row) \<Rightarrow> exec_db" where
  "set_attempt db t f = db\<lparr>x_attempts := attempt_update (x_attempts db) (at_id t) f\<rparr>"

definition recon_context :: "recon_env \<Rightarrow> nat \<Rightarrow> string \<Rightarrow> exec_context" where
  "recon_context env site attempt_id = \<lparr>cx_root = re_root env, cx_now = (\<lambda>i. re_clock env (site + i)), cx_attempt = attempt_id,
     cx_fault = No_Fault\<rparr>"

text \<open>After \<open>verify\<close> returned.\<close>

definition after_verify :: "recon_env \<Rightarrow> exec_db \<Rightarrow> action_row \<Rightarrow> attempt_row \<Rightarrow> verification_result \<Rightarrow>
    (string \<times> json) list \<Rightarrow> (string \<times> json) list \<Rightarrow> exec_db \<times> (reconciliation_error + reconciliation_result)" where
  "after_verify env db row t v durable observed = (let
     db1 = save_verification db t v; c = EXECUTION_SUCCEEDED_VERIFICATION_MISSING; ts = re_clock env 2 in
     if \<not> vr_passed v then
       (set_attempt db1 t (\<lambda>r. r\<lparr>at_status := AT_VERIFICATION_FAILED\<rparr>),
        Inr (settled (ro_id row) c observed durable False True (vr_issues v) False ts))
     else (let db2 = set_attempt db1 t (\<lambda>r. r\<lparr>at_status := AT_VERIFIED\<rparr>) in
       case (case advance_through db2 row AS_VERIFYING id of
           (db3, None) \<Rightarrow> (db3, None) | (db3, Some x) \<Rightarrow> advance_through db3 x AS_VERIFIED id) of
         (db4, None) \<Rightarrow> (db4, Inr (settled (ro_id row) c observed durable False True
           [''verification passed, but could not advance Action state (concurrent writer)''] True ts))
       | (db4, Some x) \<Rightarrow> (case record_to_action x of
            Inl e \<Rightarrow> (db4, Inl (Reconcile_Load e))
          | Inr _ \<Rightarrow> map_prod id Inr (reconcile_missing_completion env db4 x durable observed c))))"

definition reconcile_missing_verification :: "recon_env \<Rightarrow> exec_db \<Rightarrow> action_row \<Rightarrow> action \<Rightarrow> attempt_row \<Rightarrow> execution_result \<Rightarrow>
    (string \<times> json) list \<Rightarrow> (string \<times> json) list \<Rightarrow> exec_db \<times> (reconciliation_error + reconciliation_result)" where
  "reconcile_missing_verification env db row a t r durable observed = (case adapter_get (re_adapters env) (at_tool_name t) of
     Inl _ \<Rightarrow> (db, Inr (settled (ro_id row) EXECUTION_SUCCEEDED_VERIFICATION_MISSING observed durable False True
       [''no adapter registered for '' @ quoted (at_tool_name t) @ ''; cannot verify''] False (re_clock env 2)))
   | Inr ad \<Rightarrow> (case ad_verify ad a r (recon_context env 4 (at_id t)) (x_fs db) of
        Inl e \<Rightarrow> (db, Inl (Reconcile_Adapter e))
      | Inr v \<Rightarrow> after_verify env db row t v durable observed))"

definition reconstructed_result :: "action \<Rightarrow> attempt_row \<Rightarrow> effect_inspection \<Rightarrow> datetime \<Rightarrow> execution_result" where
  "reconstructed_result a t i ts = \<lparr>er_action_id = a_id a, er_tool_name = Some (at_tool_name t),
     er_started_at = (case at_started_at t of None \<Rightarrow> ts | Some s \<Rightarrow> s), er_completed_at = ts, er_success = True,
     er_provider_status = None,
     er_output = Some [(''resolved_relative_path'', json_of JStr (ei_relative_path i)), (''bytes_written'', json_of JInt (ei_size i)),
       (''content_hash'', json_of JStr (ei_sha256 i))],
     er_side_effects = [''created:'' @ (case ei_relative_path i of None \<Rightarrow> ''None'' | Some p \<Rightarrow> p)],
     er_cost = None, er_error_type = None, er_error_message = None, er_execution_attempt_id = Some (at_id t),
     er_error_code = None, er_side_effect_occurred = True, er_adapter_version = at_adapter_version t\<rparr>"

definition save_result :: "exec_db \<Rightarrow> attempt_row \<Rightarrow> execution_result \<Rightarrow> exec_db" where
  "save_result db t r = (if result_get_by_attempt (x_results db) (at_id t) \<noteq> None then db
     else (case result_create (x_results db) (execution_result_to_record_fields (at_id t) r RECONSTRUCTED) of
         None \<Rightarrow> db | Some rs \<Rightarrow> db\<lparr>x_results := rs\<rparr>))"

text \<open>The effect is present and matches: the bookkeeping catches up, from the result row on.\<close>

definition recover_effect :: "recon_env \<Rightarrow> exec_db \<Rightarrow> action_row \<Rightarrow> action \<Rightarrow> attempt_row \<Rightarrow> effect_inspection \<Rightarrow> datetime \<Rightarrow>
    (string \<times> json) list \<Rightarrow> (string \<times> json) list \<Rightarrow> exec_db \<times> (reconciliation_error + reconciliation_result)" where
  "recover_effect env db row a t i ts durable observed = (let r = reconstructed_result a t i ts;
     db1 = set_attempt (save_result db t r) t (\<lambda>x. x\<lparr>at_status := AT_EXECUTION_SUCCEEDED, at_side_effect_occurred := True,
       at_side_effect_fingerprint := ei_sha256 i, at_recovery_state := Some ''RECONSTRUCTED_RESULT''\<rparr>)
     in case advance_through db1 row AS_EXECUTION_SUCCEEDED (\<lambda>x. x\<lparr>ro_completed_at := Some ts\<rparr>) of
          (db2, None) \<Rightarrow> (db2, Inr (settled (ro_id row) SIDE_EFFECT_PRESENT_RESULT_MISSING observed durable False True
            [''reconstructed ExecutionResult, but could not advance Action state (concurrent writer)''] True ts))
        | (db2, Some x) \<Rightarrow> (case record_to_action x of
             Inl e \<Rightarrow> (db2, Inl (Reconcile_Load e))
           | Inr b \<Rightarrow> map_prod id (map_sum id (\<lambda>q. q\<lparr>rc_classification := SIDE_EFFECT_PRESENT_RESULT_MISSING, rc_recovered := True\<rparr>))
               (reconcile_missing_verification env db2 x b t r durable observed)))"

text \<open>After \<open>inspect_effect\<close> returned.\<close>

definition after_inspect :: "recon_env \<Rightarrow> exec_db \<Rightarrow> action_row \<Rightarrow> action \<Rightarrow> attempt_row \<Rightarrow> effect_inspection \<Rightarrow>
    (string \<times> json) list \<Rightarrow> (string \<times> json) list \<Rightarrow> exec_db \<times> (reconciliation_error + reconciliation_result)" where
  "after_inspect env db row a t i durable observed0 = (let
     observed = dict_put observed0 ''inspection'' (inspection_dump i); ts = re_clock env 1 in
     if \<not> ei_exists i then
       (set_attempt db t (\<lambda>r. r\<lparr>at_status := AT_INTERRUPTED, at_recovery_state := Some ''NO_SIDE_EFFECT_FOUND''\<rparr>),
        Inr (settled (ro_id row) EXECUTION_INTERRUPTED observed durable True False [] False ts))
     else if ei_matches_expected i \<noteq> Some True then
       (set_attempt db t (\<lambda>r. r\<lparr>at_status := AT_BLOCKED, at_recovery_state := Some ''SIDE_EFFECT_MISMATCH''\<rparr>),
        Inr (settled (ro_id row) SIDE_EFFECT_MISMATCH observed durable False True
          (if ei_issues i = [] then [''on-disk effect does not match the expected authorized payload''] else ei_issues i) False ts))
     else recover_effect env db row a t i ts durable observed)"

definition reconcile_missing_execution_result :: "recon_env \<Rightarrow> exec_db \<Rightarrow> action_row \<Rightarrow> action \<Rightarrow> attempt_row \<Rightarrow>
    (string \<times> json) list \<Rightarrow> (string \<times> json) list \<Rightarrow> exec_db \<times> (reconciliation_error + reconciliation_result)" where
  "reconcile_missing_execution_result env db row a t durable observed = (let
     ambiguous = (\<lambda>m. (db, Inr (settled (ro_id row) AMBIGUOUS_STATE observed durable False True [m] False (re_clock env 1)))) in
     case adapter_get (re_adapters env) (at_tool_name t) of
       Inl _ \<Rightarrow> ambiguous (''no adapter registered for '' @ quoted (at_tool_name t) @ ''; cannot safely inspect'')
     | Inr ad \<Rightarrow> (case ad_inspect_effect ad of
          None \<Rightarrow> ambiguous (''adapter '' @ quoted (at_tool_name t) @ '' has no inspect_effect() capability'')
        | Some inspect \<Rightarrow> (case inspect a (recon_context env 4 (at_id t)) (x_fs db) of
             Inl e \<Rightarrow> (db, Inl (Reconcile_Adapter e))
           | Inr i \<Rightarrow> after_inspect env db row a t i durable observed)))"

text \<open>With no attempt on record.\<close>

definition reconcile_without_attempt :: "action_row \<Rightarrow> (string \<times> json) list \<Rightarrow> datetime \<Rightarrow> reconciliation_result" where
  "reconcile_without_attempt row durable ts =
     (if ro_status row \<in> {AS_EXECUTING, AS_EXECUTION_SUCCEEDED, AS_VERIFYING, AS_VERIFIED} then
        settled (ro_id row) SECURITY_INCONSISTENCY [] durable False True
          [''Action durably past EXECUTING with no ExecutionAttempt on record''] False ts
      else if ro_approval_required row \<and> ro_status row = AS_APPROVED then
        settled (ro_id row) APPROVAL_CONSUMED_EXECUTION_MISSING [] durable False True
          [''approval was already consumed for this Action but no ExecutionAttempt was ever created''] False ts
      else settled (ro_id row) EXECUTION_NOT_STARTED [] durable True False [] False ts)"

text \<open>With the last attempt and the result and verification rows it has.\<close>

definition reconcile_attempt :: "recon_env \<Rightarrow> exec_db \<Rightarrow> action_row \<Rightarrow> attempt_row \<Rightarrow> exec_db \<times> (reconciliation_error + reconciliation_result)" where
  "reconcile_attempt env db row t = (let
     res = result_get_by_attempt (x_results db) (at_id t); ver = verification_get_by_attempt (x_verifications db) (at_id t);
     durable = durable_state_of row; observed = observed_state_of t (res \<noteq> None) (ver \<noteq> None);
     plain = (\<lambda>c. (db, Inr (settled (ro_id row) c observed durable False False [] False (re_clock env 0)))) in
     case record_to_action row of
       Inl e \<Rightarrow> (db, Inl (Reconcile_Load e))
     | Inr a \<Rightarrow> (case res of
          None \<Rightarrow> reconcile_missing_execution_result env db row a t durable observed
        | Some rr \<Rightarrow>
            if \<not> rr_success rr then plain CONSISTENT_FAILED
            else (case ver of
                None \<Rightarrow> (case record_to_execution_result rr of
                    Inl e \<Rightarrow> (db, Inl (Reconcile_Load e))
                  | Inr r \<Rightarrow> reconcile_missing_verification env db row a t r durable observed)
              | Some rv \<Rightarrow>
                  if rv_passed rv \<and> ro_status row \<noteq> AS_COMPLETED
                  then map_prod id Inr (reconcile_missing_completion env db row durable observed VERIFICATION_PASSED_COMPLETION_MISSING)
                  else plain (if rv_passed rv then CONSISTENT_COMPLETED else CONSISTENT_FAILED))))"

definition reconcile_action :: "recon_env \<Rightarrow> exec_db \<Rightarrow> string \<Rightarrow> exec_db \<times> (reconciliation_error + reconciliation_result)" where
  "reconcile_action env db i = (let ts = re_clock env 0 in
     case action_get (x_actions db) i of
       None \<Rightarrow> (db, Inr (settled i AMBIGUOUS_STATE [] [] False True [''no durable ActionRecord found for this action_id''] False ts))
     | Some row \<Rightarrow>
         if ro_status row = AS_COMPLETED then
           (db, Inr (settled i CONSISTENT_COMPLETED [] (durable_state_of row) False False [] False ts))
         else if ro_status row \<in> {AS_FAILED, AS_REJECTED, AS_CANCELLED, AS_BLOCKED} then
           (db, Inr (settled i CONSISTENT_FAILED [] (durable_state_of row) False False [] False ts))
         else (case attempt_list_for_action (x_attempts db) i of
             [] \<Rightarrow> (db, Inr (reconcile_without_attempt row (durable_state_of row) ts))
           | t # ts' \<Rightarrow> reconcile_attempt env db row (last (t # ts'))))"

section \<open>What a call may change\<close>

text \<open>The frame: the sandbox, the approvals and every other action are as before; attempts keep their
  identity; results and verifications are only added; the action follows its state machine.\<close>

definition attempt_identity :: "attempt_row \<Rightarrow> string \<times> string \<times> string \<times> datetime" where
  "attempt_identity t = (at_id t, at_action_id t, at_idempotency_key t, at_created_at t)"

definition recon_frame :: "string \<Rightarrow> exec_db \<Rightarrow> exec_db \<Rightarrow> bool" where
  "recon_frame i db db' = (x_fs db' = x_fs db \<and> x_approvals db' = x_approvals db \<and>
     map attempt_identity (x_attempts db') = map attempt_identity (x_attempts db) \<and>
     prefix (x_results db) (x_results db') \<and> prefix (x_verifications db) (x_verifications db') \<and>
     (\<forall>j. j \<noteq> i \<longrightarrow> action_get (x_actions db') j = action_get (x_actions db) j) \<and>
     (\<forall>row. action_get (x_actions db) i = Some row \<longrightarrow> (\<exists>row'. action_get (x_actions db') i = Some row' \<and>
        rtranclp can_action_transition (ro_status row) (ro_status row'))) \<and>
     (action_get (x_actions db) i = None \<longrightarrow> action_get (x_actions db') i = None))"

lemma recon_frame_refl [simp]: "recon_frame i db db"
  by (simp add: recon_frame_def)

lemma recon_frame_trans:
  assumes "recon_frame i db db1" "recon_frame i db1 db2"
  shows "recon_frame i db db2"
proof (cases "action_get (x_actions db) i")
  case None
  then show ?thesis using assms by (auto simp: recon_frame_def intro: prefix_order.trans)
next
  case (Some row)
  obtain row1 where r1: "action_get (x_actions db1) i = Some row1" "rtranclp can_action_transition (ro_status row) (ro_status row1)"
    using assms(1) Some by (auto simp: recon_frame_def)
  then obtain row2 where "action_get (x_actions db2) i = Some row2" "rtranclp can_action_transition (ro_status row1) (ro_status row2)"
    using assms(2) by (auto simp: recon_frame_def)
  then show ?thesis using assms r1 Some by (auto simp: recon_frame_def intro: rtranclp_trans prefix_order.trans)
qed

lemma set_attempt_frame:
  assumes "\<And>r. attempt_identity (f r) = attempt_identity r"
  shows "recon_frame i db (set_attempt db t f)"
  using assms by (simp add: recon_frame_def set_attempt_def attempt_update_def tbl_upd_def)

lemma set_attempt_frameI:
  assumes "recon_frame i db db1" "\<And>r. attempt_identity (f r) = attempt_identity r"
  shows "recon_frame i db (set_attempt db1 t f)"
  using assms by (blast intro: recon_frame_trans set_attempt_frame)

lemma set_attempt_simps [simp]:
  "x_actions (set_attempt db t f) = x_actions db" "x_results (set_attempt db t f) = x_results db"
  "x_verifications (set_attempt db t f) = x_verifications db" "x_fs (set_attempt db t f) = x_fs db"
  by (simp_all add: set_attempt_def)

lemma save_result_facts:
  "recon_frame i db (save_result db t r)" "x_actions (save_result db t r) = x_actions db" "x_fs (save_result db t r) = x_fs db"
  "x_verifications (save_result db t r) = x_verifications db"
  by (auto simp: recon_frame_def save_result_def result_create_def tbl_insert_def split: option.splits)

lemma save_result_get:
  "result_get_by_attempt (x_results db) (at_id t) = None \<Longrightarrow>
   result_get_by_attempt (x_results (save_result db t r)) (at_id t) = Some (execution_result_to_record_fields (at_id t) r RECONSTRUCTED)"
  by (simp add: save_result_def result_get_by_attempt_def result_create_def tbl_insert_def execution_result_to_record_fields_def
      Let_def tbl_get_append tbl_get_Cons)

lemma save_verification_facts:
  "recon_frame i db (save_verification db t v)" "x_actions (save_verification db t v) = x_actions db"
  "x_results (save_verification db t v) = x_results db"
  by (auto simp: recon_frame_def save_verification_def verification_create_def tbl_insert_def split: option.splits)

text \<open>With no other writer the only refusal of \<open>_advance_through\<close> is an illegal transition.\<close>

lemma advance_through_cases:
  assumes "action_get (x_actions db) (ro_id row) = Some row" "\<And>r. ro_id (extra r) = ro_id r"
  obtains (past) "at_or_past (ro_status row) target" "advance_through db row target extra = (db, Some row)"
  | (illegal) "\<not> at_or_past (ro_status row) target" "\<not> can_action_transition (ro_status row) target"
      "advance_through db row target extra = (db, None)"
  | (moved) t where "\<not> at_or_past (ro_status row) target" "can_action_transition (ro_status row) target"
      "advance_through db row target extra = (db\<lparr>x_actions := t\<rparr>, Some ((extra row)\<lparr>ro_status := target, ro_version := ro_version row + 1\<rparr>))"
      "action_get t (ro_id row) = Some ((extra row)\<lparr>ro_status := target, ro_version := ro_version row + 1\<rparr>)"
      "\<And>j. j \<noteq> ro_id row \<Longrightarrow> action_get t j = action_get (x_actions db) j"
proof -
  let ?f = "\<lambda>r. (extra r)\<lparr>ro_status := target\<rparr>"
  obtain ok t where u: "action_update (x_actions db) (ro_id row) (ro_version row) ?f = (ok, t)" by fastforce
  have ok: ok using action_store.reader_wins [OF assms(1), of ?f] u by simp
  have g: "action_get t (ro_id row) = Some ((?f row)\<lparr>ro_version := ro_version row + 1\<rparr>)"
    using action_store.reader_writes [OF assms(1), of ?f] assms(2) u by simp
  have other: "j \<noteq> ro_id row \<Longrightarrow> action_get t j = action_get (x_actions db) j" for j
    using action_store.cas_other [of ?f j "ro_id row" "x_actions db" "ro_version row"] assms(2) u by simp
  consider "at_or_past (ro_status row) target" | "\<not> at_or_past (ro_status row) target" "\<not> can_action_transition (ro_status row) target"
    | "\<not> at_or_past (ro_status row) target" "can_action_transition (ro_status row) target" by blast
  then show thesis
  proof cases
    case 1
    then show ?thesis using past by (simp add: advance_through_def)
  next
    case 2
    then show ?thesis using illegal by (simp add: advance_through_def)
  next
    case 3
    then show ?thesis using moved [of t] u ok g other by (simp add: advance_through_def)
  qed
qed

lemma advance_through_frame:
  assumes "action_get (x_actions db) (ro_id row) = Some row" "\<And>r. ro_id (extra r) = ro_id r"
    "advance_through db row target extra = (db', x)"
  shows "recon_frame (ro_id row) db db' \<and> x_results db' = x_results db \<and> x_verifications db' = x_verifications db \<and>
    x_attempts db' = x_attempts db \<and>
    (case x of None \<Rightarrow> db' = db
     | Some y \<Rightarrow> ro_id y = ro_id row \<and> action_get (x_actions db') (ro_id row) = Some y \<and>
         (ro_status y = target \<or> y = row \<and> at_or_past (ro_status row) target))"
  using assms(1,2)
proof (cases rule: advance_through_cases [where target = target])
  case (moved t)
  then have "recon_frame (ro_id row) db (db\<lparr>x_actions := t\<rparr>)"
    using assms(1) by (auto simp: recon_frame_def)
  then show ?thesis using moved assms by auto
qed (use assms in auto)

section \<open>Soundness of the cases\<close>

definition completed :: "string \<Rightarrow> exec_db \<Rightarrow> bool" where
  "completed i db = (\<exists>row. action_get (x_actions db) i = Some row \<and> ro_status row = AS_COMPLETED)"

lemma completed_cong: "x_actions db' = x_actions db \<Longrightarrow> completed i db' = completed i db"
  by (simp add: completed_def)

lemma missing_completion_sound:
  assumes "action_get (x_actions db) (ro_id row) = Some row"
    "reconcile_missing_completion env db row durable observed c = (db', q)"
  shows "recon_frame (ro_id row) db db' \<and> x_results db' = x_results db \<and> x_verifications db' = x_verifications db \<and>
    \<not> rc_safe_to_retry q"
proof -
  obtain x where a: "advance_through db row AS_COMPLETED id = (db', x)" and "\<not> rc_safe_to_retry q"
    using assms(2) by (auto simp: reconcile_missing_completion_def settled_def split: prod.splits option.splits)
  then show ?thesis using advance_through_frame [OF assms(1) _ a] by simp
qed

lemma after_verify_sound:
  assumes g: "action_get (x_actions db) (ro_id row) = Some row"
    and r: "after_verify env db row t v durable observed = (db', r)"
  shows "recon_frame (ro_id row) db db' \<and> x_results db' = x_results db \<and> (\<forall>q. r = Inr q \<longrightarrow> \<not> rc_safe_to_retry q) \<and>
    (vr_passed v \<or> x_actions db' = x_actions db)"
proof (cases "vr_passed v")
  case False
  then show ?thesis using r save_verification_facts
    by (auto simp: after_verify_def Let_def settled_def attempt_identity_def intro: set_attempt_frameI)
next
  case True
  define db2 where "db2 = set_attempt (save_verification db t v) t (\<lambda>r. r\<lparr>at_status := AT_VERIFIED\<rparr>)"
  have f2: "recon_frame (ro_id row) db db2" "action_get (x_actions db2) (ro_id row) = Some row" "x_results db2 = x_results db"
    using save_verification_facts g by (auto simp: db2_def attempt_identity_def intro: set_attempt_frameI)
  obtain db3 x where a3: "advance_through db2 row AS_VERIFYING id = (db3, x)" by fastforce
  note s3 = advance_through_frame [OF f2(2) _ a3]
  show ?thesis
  proof (cases x)
    case None
    then show ?thesis using r True s3 f2 a3 by (auto simp: after_verify_def db2_def [symmetric] Let_def settled_def)
  next
    case (Some y)
    obtain db4 z where a4: "advance_through db3 y AS_VERIFIED id = (db4, z)" by fastforce
    have y: "action_get (x_actions db3) (ro_id y) = Some y" "ro_id y = ro_id row" using s3 Some by simp_all
    note s4 = advance_through_frame [OF y(1) _ a4]
    have f4: "recon_frame (ro_id row) db db4" "x_results db4 = x_results db"
      using s3 s4 f2 y(2) recon_frame_trans by (metis id_apply)+
    show ?thesis
    proof (cases z)
      case None
      then show ?thesis using r True Some f4 a3 a4 by (auto simp: after_verify_def db2_def [symmetric] Let_def settled_def)
    next
      case z: (Some w)
      have w: "action_get (x_actions db4) (ro_id w) = Some w" "ro_id w = ro_id row" using s4 z y by simp_all
      obtain db5 q where m: "reconcile_missing_completion env db4 w durable observed EXECUTION_SUCCEEDED_VERIFICATION_MISSING = (db5, q)"
        by fastforce
      have "db' = db4 \<and> \<not> is_ok r \<or> db' = db5 \<and> r = Inr q"
        using r True Some z a3 a4 m by (auto simp: after_verify_def db2_def [symmetric] Let_def split: sum.splits)
      then show ?thesis using missing_completion_sound [OF w(1) m] f4 w(2) True recon_frame_trans by auto
    qed
  qed
qed

text \<open>The evidence a verification of this call gives: the adapter accepted the effect on the present sandbox.\<close>

definition verified_now :: "recon_env \<Rightarrow> fs \<Rightarrow> attempt_row \<Rightarrow> bool" where
  "verified_now env fs t = (\<exists>ad a r v. adapter_get (re_adapters env) (at_tool_name t) = Inr ad \<and>
     ad_verify ad a r (recon_context env 4 (at_id t)) fs = Inr v \<and> vr_passed v)"

lemma missing_verification_sound:
  assumes "action_get (x_actions db) (ro_id row) = Some row"
    "reconcile_missing_verification env db row a t r durable observed = (db', s)"
  shows "recon_frame (ro_id row) db db' \<and> x_results db' = x_results db \<and> (\<forall>q. s = Inr q \<longrightarrow> \<not> rc_safe_to_retry q) \<and>
    (x_actions db' = x_actions db \<or> verified_now env (x_fs db) t)"
proof (cases "\<exists>ad v. adapter_get (re_adapters env) (at_tool_name t) = Inr ad \<and>
    ad_verify ad a r (recon_context env 4 (at_id t)) (x_fs db) = Inr v")
  case True
  then obtain ad v where v: "adapter_get (re_adapters env) (at_tool_name t) = Inr ad"
    "ad_verify ad a r (recon_context env 4 (at_id t)) (x_fs db) = Inr v" by blast
  then have "after_verify env db row t v durable observed = (db', s)"
    using assms(2) by (simp add: reconcile_missing_verification_def)
  from after_verify_sound [OF assms(1) this] v show ?thesis unfolding verified_now_def by blast
next
  case False
  then show ?thesis using assms(2) by (auto simp: reconcile_missing_verification_def settled_def split: sum.splits)
qed

text \<open>What a finished case guarantees about the row, the retry advice and a completion.\<close>

definition case_sound :: "recon_env \<Rightarrow> action_row \<Rightarrow> attempt_row \<Rightarrow> exec_db \<Rightarrow> exec_db \<times> (reconciliation_error + reconciliation_result) \<Rightarrow> bool \<Rightarrow> bool" where
  "case_sound env row t db out absent = (case out of (db', s) \<Rightarrow> recon_frame (ro_id row) db db' \<and>
     (\<forall>q. s = Inr q \<and> rc_safe_to_retry q \<longrightarrow> absent \<and> x_actions db' = x_actions db) \<and>
     (completed (ro_id row) db' \<longrightarrow> completed (ro_id row) db \<or>
        (\<exists>rr. result_get_by_attempt (x_results db') (at_id t) = Some rr \<and> rr_success rr) \<and>
        ((\<exists>rv. verification_get_by_attempt (x_verifications db) (at_id t) = Some rv \<and> rv_passed rv) \<or>
         verified_now env (x_fs db) t)))"

lemma recover_effect_sound:
  assumes g: "action_get (x_actions db) (ro_id row) = Some row"
    and none: "result_get_by_attempt (x_results db) (at_id t) = None"
  shows "case_sound env row t db (recover_effect env db row a t i ts durable observed) absent"
proof -
  define r where "r = reconstructed_result a t i ts"
  define db1 where "db1 = set_attempt (save_result db t r) t (\<lambda>x. x\<lparr>at_status := AT_EXECUTION_SUCCEEDED, at_side_effect_occurred := True,
    at_side_effect_fingerprint := ei_sha256 i, at_recovery_state := Some ''RECONSTRUCTED_RESULT''\<rparr>)"
  have f1: "recon_frame (ro_id row) db db1" "action_get (x_actions db1) (ro_id row) = Some row" "x_fs db1 = x_fs db"
    using save_result_facts g by (auto simp: db1_def attempt_identity_def intro: set_attempt_frameI)
  have res: "\<exists>rr. result_get_by_attempt (x_results db1) (at_id t) = Some rr \<and> rr_success rr"
    using save_result_get [OF none]
    by (simp add: db1_def r_def reconstructed_result_def execution_result_to_record_fields_def Let_def)
  obtain db2 x where a2: "advance_through db1 row AS_EXECUTION_SUCCEEDED (\<lambda>x. x\<lparr>ro_completed_at := Some ts\<rparr>) = (db2, x)"
    by fastforce
  note s2 = advance_through_frame [OF f1(2) _ a2]
  have f12: "recon_frame (ro_id row) db1 db2" using s2 by simp
  have f2: "recon_frame (ro_id row) db db2" "x_results db2 = x_results db1" "x_fs db2 = x_fs db"
    using s2 f12 f1(3) recon_frame_trans [OF f1(1) f12] by (simp_all add: recon_frame_def)
  have c2: "completed (ro_id row) db2 \<Longrightarrow> completed (ro_id row) db"
    using s2 g f1 by (cases x) (auto simp: completed_def)
  note def = recover_effect_def [of env db row a t i ts durable observed, unfolded Let_def, folded r_def, folded db1_def]
  show ?thesis
  proof (cases "\<exists>y b. x = Some y \<and> record_to_action y = Inr b")
    case False
    then show ?thesis using f2 c2 a2 by (auto simp: def settled_def case_sound_def split: option.splits sum.splits)
  next
    case True
    then obtain y b where y: "x = Some y" "record_to_action y = Inr b" by blast
    obtain db3 s where m: "reconcile_missing_verification env db2 y b t r durable observed = (db3, s)" by fastforce
    have g2: "action_get (x_actions db2) (ro_id y) = Some y" "ro_id y = ro_id row" using s2 y by simp_all
    note s3 = missing_verification_sound [OF g2(1) m]
    have "recover_effect env db row a t i ts durable observed =
        (db3, map_sum id (\<lambda>q. q\<lparr>rc_classification := SIDE_EFFECT_PRESENT_RESULT_MISSING, rc_recovered := True\<rparr>) s)"
      using a2 y m by (simp add: def)
    moreover have "recon_frame (ro_id row) db db3" using s3 g2(2) recon_frame_trans [OF f2(1)] by simp
    moreover have "completed (ro_id row) db3 \<Longrightarrow> completed (ro_id row) db \<or> verified_now env (x_fs db) t"
      using s3 c2 f2(3) completed_cong [of db3 db2] by auto
    ultimately show ?thesis using s3 res f2 by (auto simp: case_sound_def map_sum_Inr_iff)
  qed
qed

lemma after_inspect_sound:
  assumes "action_get (x_actions db) (ro_id row) = Some row" "result_get_by_attempt (x_results db) (at_id t) = None"
  shows "case_sound env row t db (after_inspect env db row a t i durable observed) (\<not> ei_exists i)"
proof (cases "ei_exists i \<and> ei_matches_expected i = Some True")
  case False
  then show ?thesis
    by (auto simp: after_inspect_def Let_def settled_def case_sound_def completed_def attempt_identity_def intro: set_attempt_frameI)
next
  case True
  then show ?thesis using recover_effect_sound [OF assms] by (simp add: after_inspect_def Let_def)
qed

text \<open>The inspection of the last attempt found nothing.\<close>

definition effect_absent :: "recon_env \<Rightarrow> exec_db \<Rightarrow> action_row \<Rightarrow> attempt_row \<Rightarrow> bool" where
  "effect_absent env db row t = (result_get_by_attempt (x_results db) (at_id t) = None \<and>
     (\<exists>a ad inspect i. record_to_action row = Inr a \<and> adapter_get (re_adapters env) (at_tool_name t) = Inr ad \<and>
        ad_inspect_effect ad = Some inspect \<and> inspect a (recon_context env 4 (at_id t)) (x_fs db) = Inr i \<and> \<not> ei_exists i))"

lemma missing_execution_result_sound:
  assumes g: "action_get (x_actions db) (ro_id row) = Some row" and none: "result_get_by_attempt (x_results db) (at_id t) = None"
    and a: "record_to_action row = Inr a"
  shows "case_sound env row t db (reconcile_missing_execution_result env db row a t durable observed) (effect_absent env db row t)"
proof (cases "\<exists>ad inspect i. adapter_get (re_adapters env) (at_tool_name t) = Inr ad \<and> ad_inspect_effect ad = Some inspect \<and>
    inspect a (recon_context env 4 (at_id t)) (x_fs db) = Inr i")
  case True
  then obtain ad inspect i where i: "adapter_get (re_adapters env) (at_tool_name t) = Inr ad" "ad_inspect_effect ad = Some inspect"
    "inspect a (recon_context env 4 (at_id t)) (x_fs db) = Inr i" by blast
  then have "effect_absent env db row t \<longleftrightarrow> \<not> ei_exists i" using a none by (auto simp: effect_absent_def)
  then show ?thesis using after_inspect_sound [OF g none] i by (simp add: reconcile_missing_execution_result_def)
next
  case False
  then show ?thesis
    by (auto simp: reconcile_missing_execution_result_def Let_def settled_def case_sound_def split: sum.splits option.splits)
qed

lemma reconcile_attempt_sound:
  assumes g: "action_get (x_actions db) (ro_id row) = Some row"
  shows "case_sound env row t db (reconcile_attempt env db row t) (effect_absent env db row t)"
proof (cases "record_to_action row")
  case (Inl e)
  then show ?thesis by (simp add: reconcile_attempt_def Let_def case_sound_def)
next
  case (Inr a)
  let ?o = "observed_state_of t (result_get_by_attempt (x_results db) (at_id t) \<noteq> None)
    (verification_get_by_attempt (x_verifications db) (at_id t) \<noteq> None)"
  note def = reconcile_attempt_def Let_def settled_def case_sound_def
  show ?thesis
  proof (cases "result_get_by_attempt (x_results db) (at_id t)")
    case None
    then show ?thesis using missing_execution_result_sound [OF g None Inr] Inr by (simp add: reconcile_attempt_def Let_def)
  next
    case res: (Some rr)
    consider "\<not> rr_success rr" | rv where "rr_success rr" "verification_get_by_attempt (x_verifications db) (at_id t) = Some rv"
      | "rr_success rr" "verification_get_by_attempt (x_verifications db) (at_id t) = None" by (metis option.exhaust)
    then show ?thesis
    proof cases
      case 1
      then show ?thesis using Inr res by (simp add: def)
    next
      case 2
      obtain db' q where "reconcile_missing_completion env db row (durable_state_of row) ?o VERIFICATION_PASSED_COMPLETION_MISSING = (db', q)"
        by fastforce
      then show ?thesis using Inr res 2 missing_completion_sound [OF g] by (fastforce simp: def)
    next
      case 3
      show ?thesis
      proof (cases "record_to_execution_result rr")
        case (Inl e)
        then show ?thesis using Inr res 3 by (simp add: def \<open>record_to_action row = Inr a\<close>)
      next
        case r: (Inr r)
        obtain db' s where m: "reconcile_missing_verification env db row a t r (durable_state_of row) ?o = (db', s)" by fastforce
        then have "reconcile_attempt env db row t = (db', s)"
          using Inr res r 3 by (simp add: reconcile_attempt_def Let_def)
        then show ?thesis using res 3 missing_verification_sound [OF g m] completed_cong [of db' db] by (auto simp: case_sound_def)
      qed
    qed
  qed
qed

section \<open>Properties\<close>

text \<open>C5: recovery is sound. A call never touches the sandbox or the approvals, claims nothing, keeps every stored
  result and every other action, and moves the action only along its state machine. It advises a retry
  only for an action that is stored, not terminal, and either has no attempt, is not recorded as
  executing or later and has no approval spent on it, or whose last attempt left no result row and no effect the adapter can see; and such a
  call leaves the action as it was. It completes an action only when its last attempt has a successful
  result row and its verification passed, stored before or made now.\<close>

theorem reconciliation_sound:
  assumes "reconcile_action env db i = (db', r)"
  shows "recon_frame i db db' \<and>
    (\<forall>q. r = Inr q \<and> rc_safe_to_retry q \<longrightarrow> x_actions db' = x_actions db \<and>
       (\<exists>row. action_get (x_actions db) i = Some row \<and> ro_status row \<notin> terminal_statuses \<and>
         (case attempt_list_for_action (x_attempts db) i of
            [] \<Rightarrow> ro_status row \<notin> {AS_EXECUTING, AS_EXECUTION_SUCCEEDED, AS_VERIFYING, AS_VERIFIED} \<and>
              \<not> (ro_approval_required row \<and> ro_status row = AS_APPROVED)
          | t # ts \<Rightarrow> effect_absent env db row (last (t # ts))))) \<and>
    (completed i db' \<and> \<not> completed i db \<longrightarrow> (\<exists>t \<in> set (x_attempts db). at_action_id t = i \<and>
       (\<exists>rr. result_get_by_attempt (x_results db') (at_id t) = Some rr \<and> rr_success rr) \<and>
       ((\<exists>rv. verification_get_by_attempt (x_verifications db) (at_id t) = Some rv \<and> rv_passed rv) \<or>
        verified_now env (x_fs db) t)))"
proof (cases "action_get (x_actions db) i")
  case None
  then show ?thesis using assms by (auto simp: reconcile_action_def settled_def)
next
  case (Some row)
  have i: "ro_id row = i" using Some by (auto simp: action_get_def dest: tbl_get_SomeD)
  show ?thesis
  proof (cases "ro_status row \<in> terminal_statuses")
    case True
    then show ?thesis using assms Some by (auto simp: reconcile_action_def settled_def terminal_statuses_def)
  next
    case False
    show ?thesis
    proof (cases "attempt_list_for_action (x_attempts db) i")
      case Nil
      then show ?thesis using assms Some False
        by (auto simp: reconcile_action_def Let_def terminal_statuses_def reconcile_without_attempt_def settled_def)
    next
      case (Cons t ts)
      let ?t = "last (t # ts)"
      have "?t \<in> set (attempt_list_for_action (x_attempts db) i)" unfolding Cons by (rule last_in_set) simp
      then have t: "?t \<in> set (x_attempts db)" "at_action_id ?t = i" by (simp_all add: attempt_list_for_action_def)
      have "reconcile_attempt env db row ?t = (db', r)"
        using assms Some False Cons by (simp add: reconcile_action_def Let_def terminal_statuses_def)
      then have "case_sound env row ?t db (db', r) (effect_absent env db row ?t)"
        using reconcile_attempt_sound [of db row env ?t] Some i by simp
      then show ?thesis using Some False Cons t i by (auto simp: case_sound_def)
    qed
  qed
qed

definition sample_recon :: recon_env where
  "sample_recon = \<lparr>re_adapters = [(''file.create_sandboxed'', file_adapter)], re_root = [''box''], re_clock = int\<rparr>"

theorem reconciliation_sound_witness:
  "\<exists>db db' r. db = fst (run_durable 10 sample_call sample_db D_Start) \<and> reconcile_action sample_recon db ''f1'' = (db', r) \<and>
     recon_frame ''f1'' db db'"
  using reconciliation_sound [of sample_recon "fst (run_durable 10 sample_call sample_db D_Start)" "''f1''"]
  by (metis prod.collapse)

end
