(* ===== verification/Crash_Recovery.thy ===== *)
theory Crash_Recovery
  imports Reconciliation
begin

text \<open>
  The durable executor and the reconciliation engine together: which of the states a crash can leave are
  brought to completion by \<open>reconcile_action\<close>, and which are not. The executor stores a row and advances the
  action in two commits, so each stored row has a window before the action follows it.
\<close>

section \<open>Which crash windows recovery closes\<close>

lemma record_to_action_advanced:
  assumes "record_to_action row = Inr a"
  shows "record_to_action (row\<lparr>ro_status := s, ro_version := v\<rparr>) = Inr (a\<lparr>a_status := s\<rparr>)"
    "record_to_action (row\<lparr>ro_completed_at := c, ro_status := s, ro_version := v\<rparr>) = Inr (a\<lparr>a_status := s, a_completed_at := c\<rparr>)"
  using assms by (auto simp: record_to_action_def bind_sum_InrE)

lemma at_or_past_simps:
  "at_or_past s AS_EXECUTION_SUCCEEDED \<longleftrightarrow> s \<in> {AS_EXECUTION_SUCCEEDED, AS_VERIFYING, AS_VERIFIED, AS_COMPLETED}"
  "at_or_past s AS_VERIFYING \<longleftrightarrow> s \<in> {AS_VERIFYING, AS_VERIFIED, AS_COMPLETED}"
  "at_or_past s AS_VERIFIED \<longleftrightarrow> s \<in> {AS_VERIFIED, AS_COMPLETED}"
  "at_or_past s AS_COMPLETED \<longleftrightarrow> s = AS_COMPLETED"
  by (cases s; simp add: at_or_past_def)+

text \<open>One hop from a row that may take it or has taken it.\<close>

lemma advance_hop:
  assumes "action_get (x_actions db) (ro_id row) = Some row" "\<And>r. ro_id (extra r) = ro_id r"
    "at_or_past (ro_status row) target \<or> can_action_transition (ro_status row) target"
  obtains db' x where "advance_through db row target extra = (db', Some x)" "action_get (x_actions db') (ro_id x) = Some x"
    "ro_id x = ro_id row" "x_fs db' = x_fs db" "x_results db' = x_results db" "x_verifications db' = x_verifications db"
    "x = row \<and> at_or_past (ro_status row) target \<or> x = (extra row)\<lparr>ro_status := target, ro_version := ro_version row + 1\<rparr>"
  using assms(1,2)
proof (cases rule: advance_through_cases [where target = target])
  case past
  then show ?thesis using that [OF past(2) assms(1)] by simp
next
  case illegal
  then show ?thesis using assms(3) by simp
next
  case (moved t)
  then show ?thesis using that [OF moved(3)] assms(2) by simp
qed

lemma advance_illegal:
  assumes "action_get (x_actions db) (ro_id row) = Some row"
    "\<not> at_or_past (ro_status row) target" "\<not> can_action_transition (ro_status row) target"
  shows "advance_through db row target extra = (db, None)"
  using assms by (simp add: advance_through_def)

lemma missing_completion_verified:
  assumes "action_get (x_actions db) (ro_id row) = Some row" "ro_status row = AS_VERIFIED"
  shows "\<exists>db' q. reconcile_missing_completion env db row durable observed c = (db', q) \<and> completed (ro_id row) db' \<and>
    rc_recovered q \<and> \<not> rc_human_review_required q \<and> rc_classification q = c"
proof -
  obtain db' x where h: "advance_through db row AS_COMPLETED id = (db', Some x)" "action_get (x_actions db') (ro_id x) = Some x"
    "ro_id x = ro_id row" "ro_status x = AS_COMPLETED"
    by (rule advance_hop [OF assms(1), of id AS_COMPLETED]) (auto simp: assms(2) state_machine at_or_past_simps)
  then show ?thesis by (auto simp: reconcile_missing_completion_def settled_def completed_def)
qed

lemma after_verify_passed:
  assumes g: "action_get (x_actions db) (ro_id row) = Some row" and v: "vr_passed v"
    and a: "record_to_action row = Inr a" and s: "ro_status row \<in> {AS_EXECUTION_SUCCEEDED, AS_VERIFYING, AS_VERIFIED}"
  shows "\<exists>db' q. after_verify env db row t v durable observed = (db', Inr q) \<and> completed (ro_id row) db' \<and>
    rc_recovered q \<and> \<not> rc_human_review_required q \<and> rc_classification q = EXECUTION_SUCCEEDED_VERIFICATION_MISSING"
proof -
  define db2 where "db2 = set_attempt (save_verification db t v) t (\<lambda>r. r\<lparr>at_status := AT_VERIFIED\<rparr>)"
  have g2: "action_get (x_actions db2) (ro_id row) = Some row" using g save_verification_facts by (simp add: db2_def)
  obtain db3 x where x: "advance_through db2 row AS_VERIFYING id = (db3, Some x)" "action_get (x_actions db3) (ro_id x) = Some x"
    "ro_id x = ro_id row" "ro_status x \<in> {AS_VERIFYING, AS_VERIFIED}" "\<exists>b. record_to_action x = Inr b"
    by (rule advance_hop [OF g2, of id AS_VERIFYING])
      (use s a in \<open>auto simp: state_machine at_or_past_simps record_to_action_advanced\<close>)
  obtain b where b: "record_to_action x = Inr b" using x(5) by blast
  obtain db4 y where y: "advance_through db3 x AS_VERIFIED id = (db4, Some y)" "action_get (x_actions db4) (ro_id y) = Some y"
    "ro_id y = ro_id row" "ro_status y = AS_VERIFIED" "\<exists>b. record_to_action y = Inr b"
    by (rule advance_hop [OF x(2), of id AS_VERIFIED])
      (use x(3,4) b in \<open>auto simp: state_machine at_or_past_simps record_to_action_advanced\<close>)
  have "after_verify env db row t v durable observed =
      map_prod id Inr (reconcile_missing_completion env db4 y durable observed EXECUTION_SUCCEEDED_VERIFICATION_MISSING)"
    using v x(1) y(1,5) by (auto simp: after_verify_def Let_def db2_def)
  then show ?thesis using missing_completion_verified [OF y(2,4), of env durable observed EXECUTION_SUCCEEDED_VERIFICATION_MISSING] y(3) by auto
qed

lemma after_verify_executing:
  assumes g: "action_get (x_actions db) (ro_id row) = Some row" and v: "vr_passed v" and s: "ro_status row = AS_EXECUTING"
  shows "\<exists>db'. after_verify env db row t v durable observed = (db', Inr (settled (ro_id row) EXECUTION_SUCCEEDED_VERIFICATION_MISSING
    observed durable False True [''verification passed, but could not advance Action state (concurrent writer)''] True (re_clock env 2)))
    \<and> x_actions db' = x_actions db"
proof -
  define db2 where "db2 = set_attempt (save_verification db t v) t (\<lambda>r. r\<lparr>at_status := AT_VERIFIED\<rparr>)"
  have g2: "action_get (x_actions db2) (ro_id row) = Some row" "x_actions db2 = x_actions db"
    using g save_verification_facts by (simp_all add: db2_def)
  have "advance_through db2 row AS_VERIFYING id = (db2, None)"
    by (rule advance_illegal [OF g2(1)]) (simp_all add: s state_machine at_or_past_simps)
  then show ?thesis using v g2 by (simp add: after_verify_def Let_def db2_def)
qed

text \<open>The last attempt of an action that is under way, with what recovery reads of it.\<close>

definition under_way :: "recon_env \<Rightarrow> exec_db \<Rightarrow> string \<Rightarrow> action_row \<Rightarrow> action \<Rightarrow> attempt_row \<Rightarrow> adapter \<Rightarrow> bool" where
  "under_way env db i row a t ad = (action_get (x_actions db) i = Some row \<and> record_to_action row = Inr a \<and>
     ro_status row \<in> {AS_EXECUTING, AS_EXECUTION_SUCCEEDED, AS_VERIFYING, AS_VERIFIED} \<and>
     attempt_list_for_action (x_attempts db) i \<noteq> [] \<and> last (attempt_list_for_action (x_attempts db) i) = t \<and>
     adapter_get (re_adapters env) (at_tool_name t) = Inr ad)"

lemma under_way_reconciles:
  assumes "under_way env db i row a t ad"
  shows "reconcile_action env db i = reconcile_attempt env db row t" "ro_id row = i"
    "action_get (x_actions db) (ro_id row) = Some row" "record_to_action row = Inr a"
    "adapter_get (re_adapters env) (at_tool_name t) = Inr ad"
    "ro_status row \<in> {AS_EXECUTING, AS_EXECUTION_SUCCEEDED, AS_VERIFYING, AS_VERIFIED}"
proof -
  show i: "ro_id row = i" using assms by (auto simp: under_way_def action_get_def dest: tbl_get_SomeD)
  show "reconcile_action env db i = reconcile_attempt env db row t"
    using assms by (auto simp: under_way_def reconcile_action_def Let_def split: list.splits)
qed (use assms in \<open>auto simp: under_way_def action_get_def dest: tbl_get_SomeD\<close>)

lemma reconcile_stored_result:
  assumes "under_way env db i row a t ad" "result_get_by_attempt (x_results db) (at_id t) = Some rr" "rr_success rr"
    "verification_get_by_attempt (x_verifications db) (at_id t) = None" "record_to_execution_result rr = Inr r"
    "ad_verify ad a r (recon_context env 4 (at_id t)) (x_fs db) = Inr v"
  shows "reconcile_action env db i = after_verify env db row t v (durable_state_of row) (observed_state_of t True False)"
  using under_way_reconciles(1,4,5) [OF assms(1)] assms(2-6)
  by (simp add: reconcile_attempt_def Let_def reconcile_missing_verification_def)

lemma reconcile_stored_verification:
  assumes "under_way env db i row a t ad" "result_get_by_attempt (x_results db) (at_id t) = Some rr" "rr_success rr"
    "verification_get_by_attempt (x_verifications db) (at_id t) = Some rv" "rv_passed rv"
  shows "reconcile_action env db i = map_prod id Inr (reconcile_missing_completion env db row (durable_state_of row)
    (observed_state_of t True True) VERIFICATION_PASSED_COMPLETION_MISSING)"
  using under_way_reconciles(1,4,6) [OF assms(1)] assms(2-5) by (auto simp: reconcile_attempt_def Let_def)

lemma recover_effect_completes:
  assumes g: "action_get (x_actions db) (ro_id row) = Some row" and a: "record_to_action row = Inr a"
    and s: "ro_status row \<in> {AS_EXECUTING, AS_EXECUTION_SUCCEEDED, AS_VERIFYING, AS_VERIFIED}"
    and ad: "adapter_get (re_adapters env) (at_tool_name t) = Inr ad"
    and v: "\<And>b. a_id b = a_id a \<Longrightarrow>
      \<exists>v. ad_verify ad b (reconstructed_result a t i ts) (recon_context env 4 (at_id t)) (x_fs db) = Inr v \<and> vr_passed v"
  shows "\<exists>db' q. recover_effect env db row a t i ts durable observed = (db', Inr q) \<and> completed (ro_id row) db' \<and>
    rc_recovered q \<and> \<not> rc_human_review_required q \<and> rc_classification q = SIDE_EFFECT_PRESENT_RESULT_MISSING"
proof -
  define r where "r = reconstructed_result a t i ts"
  define db1 where "db1 = set_attempt (save_result db t r) t (\<lambda>x. x\<lparr>at_status := AT_EXECUTION_SUCCEEDED, at_side_effect_occurred := True,
    at_side_effect_fingerprint := ei_sha256 i, at_recovery_state := Some ''RECONSTRUCTED_RESULT''\<rparr>)"
  have g1: "action_get (x_actions db1) (ro_id row) = Some row" "x_fs db1 = x_fs db"
    using save_result_facts g by (simp_all add: db1_def)
  obtain db2 x where x: "advance_through db1 row AS_EXECUTION_SUCCEEDED (\<lambda>x. x\<lparr>ro_completed_at := Some ts\<rparr>) = (db2, Some x)"
    "action_get (x_actions db2) (ro_id x) = Some x" "ro_id x = ro_id row" "x_fs db2 = x_fs db1"
    "ro_status x \<in> {AS_EXECUTION_SUCCEEDED, AS_VERIFYING, AS_VERIFIED}" "\<exists>b. record_to_action x = Inr b \<and> a_id b = a_id a"
    by (rule advance_hop [OF g1(1), of "\<lambda>x. x\<lparr>ro_completed_at := Some ts\<rparr>" AS_EXECUTION_SUCCEEDED])
      (use s a record_to_action_advanced(2) [OF a] in \<open>auto simp: state_machine at_or_past_simps\<close>)
  obtain b where b: "record_to_action x = Inr b" "a_id b = a_id a" using x(6) by blast
  obtain w where w: "ad_verify ad b r (recon_context env 4 (at_id t)) (x_fs db2) = Inr w" "vr_passed w"
    using v [OF b(2)] x(4) g1(2) r_def by auto
  have "recover_effect env db row a t i ts durable observed = map_prod id (map_sum id (\<lambda>q. q\<lparr>rc_classification :=
      SIDE_EFFECT_PRESENT_RESULT_MISSING, rc_recovered := True\<rparr>)) (after_verify env db2 x t w durable observed)"
    using x(1) b(1) w(1) ad by (simp add: recover_effect_def Let_def r_def db1_def reconcile_missing_verification_def)
  then show ?thesis using after_verify_passed [OF x(2) w(2) b(1) x(5), of env t durable observed] x(3) by auto
qed

text \<open>The effect of the file adapter, as it is found after a crash.\<close>

definition effect_written :: "fs \<Rightarrow> path \<Rightarrow> action \<Rightarrow> bool" where
  "effect_written fs rt a = (fs_ok fs \<and> no_slashes rt \<and> (\<exists>rel content target. file_inputs a = Some (rel, content) \<and>
     resolve_sandbox_path fs rt rel = Inr target \<and> node_at fs target = Some (F_File (utf8_encode content))))"

lemma resolve_sandbox_path_file:
  assumes "fs_ok fs" "no_slashes rt" "resolve_sandbox_path fs rt rel = Inr target" "path_resolve fs rt = Some base"
    and "node_at fs target = Some (F_File bs)"
  shows "base \<noteq> target"
proof
  assume eq: "base = target"
  obtain segs where segs: "check_path_text rel = Inr segs"
    using assms(3) by (auto simp: resolve_sandbox_path_def split: sum.splits)
  have plain: "list_all plain_name segs" "segs \<noteq> []" using check_path_text_OkD [OF segs] by auto
  have b: "resolved fs base" using path_resolve_resolved [OF assms(4,2)] .
  have "node_at fs (base @ ms) = (if ms = [] then Some (F_File bs) else None)" for ms
    using fs_ok_ancestor [OF assms(1), of base ms] assms(5) eq by (cases "node_at fs (base @ ms)") auto
  then have "node_at fs (take k (base @ segs)) \<noteq> Some (F_Link l)" for k l
    using b by (cases "k \<le> length base") (auto simp: resolved_def clean_def)
  then have "resolved fs (base @ segs)" using b plain by (auto simp: resolved_def clean_def)
  then show False using resolve_sandbox_path_literal [OF segs assms(4) _ assms(3)] eq plain by auto
qed

lemma effect_written_inspected:
  assumes "effect_written fs (cx_root cx) a"
  obtains i base target content where "file_inspect_effect a cx fs = Inr i" "ei_exists i" "ei_matches_expected i = Some True"
    "ei_relative_path i = Some (relative_posix base target)" "ei_size i = Some (int (length (utf8_encode content)))"
    "ei_sha256 i = Some (sha256_bytes (utf8_encode content))" "path_resolve fs (cx_root cx) = Some base"
    "relative_posix base target \<noteq> []" "target_issues fs base (Some (path_join base (relative_posix base target)))
       (Some (JStr (sha256_bytes (utf8_encode content)))) (Some (JInt (int (length (utf8_encode content))))) = Inr []"
proof -
  obtain rel content target where e: "fs_ok fs" "no_slashes (cx_root cx)" "file_inputs a = Some (rel, content)"
    "resolve_sandbox_path fs (cx_root cx) rel = Inr target" "node_at fs target = Some (F_File (utf8_encode content))"
    using assms by (auto simp: effect_written_def)
  obtain base where b: "path_resolve fs (cx_root cx) = Some base" "prefix base target" "resolved fs target"
    using resolve_sandbox_pathD [OF e(4,2)] by blast
  have st: "stat fs target = Some (F_File (utf8_encode content))" using stat_resolved [OF e(1) b(3)] e(5) by simp
  have sym: "\<not> path_is_symlink fs target" using not_symlink_resolved [OF e(1) b(3)] .
  have rel: "path_join base (relative_posix base target) = target" "relative_posix base target \<noteq> []"
    using path_join_relative [OF _ b(2) resolve_sandbox_path_file [OF e(1,2,4) b(1) e(5)]] b(3) by (simp_all add: resolved_def)
  have "path_resolve fs target = Some target" by (rule path_resolve_idem [OF b(3)])
  then have "target_issues fs base (Some (path_join base (relative_posix base target)))
       (Some (JStr (sha256_bytes (utf8_encode content)))) (Some (JInt (int (length (utf8_encode content))))) = Inr []"
    using rel st sym b(2) by (simp add: target_issues_def path_exists_def content_issues_def utf8_valid_encode)
  then show thesis using that [of "inspect_target fs base target (utf8_encode content)" base target content] e b st sym rel(2)
    by (simp add: file_inspect_effect_def inspect_target_def path_exists_def path_is_file_def Let_def)
qed

lemma reconstructed_verifies:
  assumes "path_resolve fs (cx_root cx) = Some base" "ei_relative_path i = Some (relative_posix base target)"
    "ei_size i = Some n" "ei_sha256 i = Some h" "relative_posix base target \<noteq> []"
    "target_issues fs base (Some (path_join base (relative_posix base target))) (Some (JStr h)) (Some (JInt n)) = Inr []"
  shows "\<exists>v. file_verify b (reconstructed_result a t i ts) cx fs = Inr v \<and> vr_passed v"
  using assms by (simp add: file_verify_def reconstructed_result_def json_of_def Let_def get_value_def obj_get_def verification_of_def)

section \<open>The windows it leaves open\<close>

lemma reconcile_action_frame:
  assumes "reconcile_action env db i = (db', r)"
  shows "recon_frame i db db'"
proof (cases "action_get (x_actions db) i")
  case (Some row)
  have i: "ro_id row = i" using Some by (auto simp: action_get_def dest: tbl_get_SomeD)
  have "recon_frame i db db'" if "reconcile_attempt env db row t = (db', r)" for t
    using reconcile_attempt_sound [of db row env t] Some i that by (auto simp: case_sound_def)
  then show ?thesis using assms Some by (auto simp: reconcile_action_def Let_def split: if_splits list.splits)
qed (use assms in \<open>simp add: reconcile_action_def\<close>)

definition window_stuck :: "exec_db \<Rightarrow> string \<Rightarrow> bool" where
  "window_stuck db i = (case action_get (x_actions db) i of
     None \<Rightarrow> False
   | Some row \<Rightarrow> attempt_list_for_action (x_attempts db) i \<noteq> [] \<and>
       (let tid = at_id (last (attempt_list_for_action (x_attempts db) i)) in
        result_get_by_attempt (x_results db) tid \<noteq> None \<and>
        (ro_status row = AS_EXECUTING \<or>
         ro_status row = AS_VERIFYING \<and> verification_get_by_attempt (x_verifications db) tid \<noteq> None)))"

text \<open>The order of the attempts is a function of their identities.\<close>

lemma map_sort_key: "map g (sort_key (\<lambda>x. k (g x)) xs) = sort_key k (map g xs)"
proof -
  have "map g (insort_key (\<lambda>x. k (g x)) x ys) = insort_key k (g x) (map g ys)" for x ys by (induction ys) auto
  then show ?thesis by (induction xs) auto
qed

lemma attempt_list_identities: "map attempt_identity (attempt_list_for_action ts i) =
    sort_key (\<lambda>(_, _, _, c). c) (filter (\<lambda>(_, a, _, _). a = i) (map attempt_identity ts))"
  using map_sort_key [of attempt_identity "\<lambda>(_, _, _, c). c" "filter (\<lambda>r. at_action_id r = i) ts"]
  by (simp add: attempt_list_for_action_def attempt_identity_def filter_map comp_def)

lemma frame_last_attempt:
  assumes "recon_frame i db db'" "attempt_list_for_action (x_attempts db) j \<noteq> []"
  shows "attempt_list_for_action (x_attempts db') j \<noteq> [] \<and>
    at_id (last (attempt_list_for_action (x_attempts db') j)) = at_id (last (attempt_list_for_action (x_attempts db) j))"
proof -
  let ?l = "attempt_list_for_action (x_attempts db) j" and ?l' = "attempt_list_for_action (x_attempts db') j"
  have m: "map attempt_identity ?l' = map attempt_identity ?l"
    using assms(1) by (simp add: attempt_list_identities recon_frame_def)
  then have ne: "?l' \<noteq> []" using assms(2) by (metis map_is_Nil_conv)
  have "attempt_identity (last ?l') = attempt_identity (last ?l)" using m ne assms(2) by (metis last_map)
  then show ?thesis using ne by (simp add: attempt_identity_def)
qed

lemma tbl_get_prefix: "prefix t u \<Longrightarrow> tbl_get key t k = Some r \<Longrightarrow> tbl_get key u k = Some r"
  by (auto simp: prefix_def tbl_get_append)

lemma window_stuck_frame:
  assumes "window_stuck db i" "recon_frame i db db'" "x_actions db' = x_actions db"
  shows "window_stuck db' i"
proof -
  let ?tid = "at_id (last (attempt_list_for_action (x_attempts db) i))"
  have p: "prefix (x_results db) (x_results db')" "prefix (x_verifications db) (x_verifications db')"
    using assms(2) by (simp_all add: recon_frame_def)
  obtain row rr where w: "action_get (x_actions db) i = Some row" "attempt_list_for_action (x_attempts db) i \<noteq> []"
    "result_get_by_attempt (x_results db) ?tid = Some rr"
    "ro_status row = AS_EXECUTING \<or> ro_status row = AS_VERIFYING \<and> verification_get_by_attempt (x_verifications db) ?tid \<noteq> None"
    using assms(1) by (auto simp: window_stuck_def Let_def split: option.splits)
  have "result_get_by_attempt (x_results db') ?tid = Some rr" using tbl_get_prefix [OF p(1)] w(3) by (simp add: result_get_by_attempt_def)
  moreover have "verification_get_by_attempt (x_verifications db) ?tid \<noteq> None \<longrightarrow> verification_get_by_attempt (x_verifications db') ?tid \<noteq> None"
    using tbl_get_prefix [OF p(2), of rv_attempt_id ?tid] by (auto simp: verification_get_by_attempt_def)
  ultimately show ?thesis using w frame_last_attempt [OF assms(2) w(2)] assms(3) by (auto simp: window_stuck_def Let_def)
qed

lemma completion_illegal:
  assumes "action_get (x_actions db) (ro_id row) = Some row" "ro_status row \<in> {AS_EXECUTING, AS_VERIFYING}"
  shows "fst (reconcile_missing_completion env db row durable observed c) = db"
proof -
  have "advance_through db row AS_COMPLETED id = (db, None)"
    by (rule advance_illegal [OF assms(1)]) (use assms(2) in \<open>auto simp: state_machine at_or_past_simps\<close>)
  then show ?thesis by (simp add: reconcile_missing_completion_def)
qed

lemma verification_illegal:
  assumes "action_get (x_actions db) (ro_id row) = Some row" "ro_status row = AS_EXECUTING"
  shows "x_actions (fst (reconcile_missing_verification env db row a t r durable observed)) = x_actions db"
proof -
  have "x_actions (fst (after_verify env db row t v durable observed)) = x_actions db" for v
  proof (cases "vr_passed v")
    case True
    then show ?thesis using after_verify_executing [OF assms(1) True assms(2), of env t durable observed] by fastforce
  next
    case False
    then show ?thesis by (simp add: after_verify_def Let_def save_verification_facts)
  qed
  then show ?thesis by (simp add: reconcile_missing_verification_def split: sum.split)
qed

lemma reconcile_stuck:
  assumes "window_stuck db i"
  shows "x_actions (fst (reconcile_action env db i)) = x_actions db"
proof -
  let ?t = "last (attempt_list_for_action (x_attempts db) i)"
  obtain row rr where w: "action_get (x_actions db) i = Some row" "attempt_list_for_action (x_attempts db) i \<noteq> []"
    "result_get_by_attempt (x_results db) (at_id ?t) = Some rr"
    "ro_status row = AS_EXECUTING \<or> ro_status row = AS_VERIFYING \<and> verification_get_by_attempt (x_verifications db) (at_id ?t) \<noteq> None"
    using assms by (auto simp: window_stuck_def Let_def split: option.splits)
  have g: "action_get (x_actions db) (ro_id row) = Some row" using w(1) by (auto simp: action_get_def dest: tbl_get_SomeD)
  have r: "reconcile_action env db i = reconcile_attempt env db row ?t"
    using w by (auto simp: reconcile_action_def Let_def split: list.splits)
  show ?thesis unfolding r using w(3,4) completion_illegal [OF g] verification_illegal [OF g]
    by (auto simp: reconcile_attempt_def Let_def split: sum.splits option.splits)
qed

section \<open>Properties\<close>

text \<open>A crash after the side effect is recovered. If the worker died after the file was written and before its
  result was stored, and the file still holds the authorized content, one call reconstructs the result,
  verifies it and completes the action, without executing anything.\<close>

theorem crashed_write_recovered:
  assumes "under_way env db i row a t file_adapter" "result_get_by_attempt (x_results db) (at_id t) = None"
    "effect_written (x_fs db) (re_root env) a"
  shows "\<exists>db' q. reconcile_action env db i = (db', Inr q) \<and> completed i db' \<and> rc_recovered q \<and>
    \<not> rc_human_review_required q \<and> rc_classification q = SIDE_EFFECT_PRESENT_RESULT_MISSING \<and> x_fs db' = x_fs db"
proof -
  let ?cx = "recon_context env 4 (at_id t)"
  note u = under_way_reconciles [OF assms(1)]
  have "effect_written (x_fs db) (cx_root ?cx) a" using assms(3) by (simp add: recon_context_def)
  then obtain insp base target content where e: "file_inspect_effect a ?cx (x_fs db) = Inr insp" "ei_exists insp"
    "ei_matches_expected insp = Some True" "ei_relative_path insp = Some (relative_posix base target)"
    "ei_size insp = Some (int (length (utf8_encode content)))" "ei_sha256 insp = Some (sha256_bytes (utf8_encode content))"
    "path_resolve (x_fs db) (cx_root ?cx) = Some base" "relative_posix base target \<noteq> []"
    "target_issues (x_fs db) base (Some (path_join base (relative_posix base target)))
       (Some (JStr (sha256_bytes (utf8_encode content)))) (Some (JInt (int (length (utf8_encode content))))) = Inr []"
    by (rule effect_written_inspected)
  obtain db' q where r: "recover_effect env db row a t insp (re_clock env 1) (durable_state_of row)
      (dict_put (observed_state_of t False (verification_get_by_attempt (x_verifications db) (at_id t) \<noteq> None)) ''inspection'' (inspection_dump insp))
      = (db', Inr q)" "completed (ro_id row) db'" "rc_recovered q" "\<not> rc_human_review_required q"
      "rc_classification q = SIDE_EFFECT_PRESENT_RESULT_MISSING"
    using recover_effect_completes [OF u(3,4,6,5), of insp "re_clock env 1" "durable_state_of row"]
      reconstructed_verifies [OF e(7,4,5,6,8,9)] by (simp add: file_adapter_def) blast
  have "reconcile_attempt env db row t = (db', Inr q)"
    using r(1) e(1-3) u(4,5) assms(2)
    by (simp add: reconcile_attempt_def Let_def reconcile_missing_execution_result_def file_adapter_def after_inspect_def)
  moreover have "x_fs db' = x_fs db" using reconcile_attempt_sound [OF u(3), of env t] calculation
    by (simp add: case_sound_def recon_frame_def)
  ultimately show ?thesis using r u(1,2) by auto
qed

text \<open>Exactly which windows after a stored result recovery closes. The last attempt has a successful result row,
  and its verification is stored as passed or passes now. If no verification row exists, the action is
  completed unless its row still says executing; if one exists, it is completed only from
  verified. In the other windows, between storing a row and advancing the action, nothing
  advances the action: each call leaves it as it was and asks for a human, blaming a concurrent writer.\<close>

theorem recovery_windows:
  assumes "under_way env db i row a t ad" "result_get_by_attempt (x_results db) (at_id t) = Some rr" "rr_success rr"
    and "case verification_get_by_attempt (x_verifications db) (at_id t) of
        Some rv \<Rightarrow> rv_passed rv
      | None \<Rightarrow> (\<exists>r v. record_to_execution_result rr = Inr r \<and>
          ad_verify ad a r (recon_context env 4 (at_id t)) (x_fs db) = Inr v \<and> vr_passed v)"
  shows "\<exists>db' q. reconcile_action env db i = (db', Inr q) \<and>
    (if ro_status row = AS_VERIFIED \<or>
        verification_get_by_attempt (x_verifications db) (at_id t) = None \<and> ro_status row \<noteq> AS_EXECUTING
     then completed i db' \<and> rc_recovered q \<and> \<not> rc_human_review_required q
     else x_actions db' = x_actions db \<and> \<not> completed i db' \<and> rc_human_review_required q \<and> \<not> rc_safe_to_retry q \<and>
       rc_issues q \<in> {[''verification passed, but could not advance Action state (concurrent writer)''],
         [''verified, but could not advance Action to COMPLETED (concurrent writer)'']})"
proof -
  note u = under_way_reconciles [OF assms(1)]
  let ?d = "durable_state_of row"
  have nc: "\<not> completed i db" using u(2,3,6) by (auto simp: completed_def)
  show ?thesis
  proof (cases "verification_get_by_attempt (x_verifications db) (at_id t)")
    case None
    then obtain r v where v: "record_to_execution_result rr = Inr r" "ad_verify ad a r (recon_context env 4 (at_id t)) (x_fs db) = Inr v"
      "vr_passed v" using assms(4) by auto
    let ?o = "observed_state_of t True False"
    note r = reconcile_stored_result [OF assms(1-3) None v(1,2)]
    show ?thesis
    proof (cases "ro_status row = AS_EXECUTING")
      case True
      then obtain db' where "reconcile_action env db i = (db', Inr (settled i EXECUTION_SUCCEEDED_VERIFICATION_MISSING ?o ?d False True
          [''verification passed, but could not advance Action state (concurrent writer)''] True (re_clock env 2)))" "x_actions db' = x_actions db"
        using after_verify_executing [OF u(3) v(3), of env t ?d ?o] r u(2) by auto
      then show ?thesis using True None nc completed_cong [of db' db i] by (simp add: settled_def)
    next
      case False
      then have "ro_status row \<in> {AS_EXECUTION_SUCCEEDED, AS_VERIFYING, AS_VERIFIED}" using u(6) by auto
      then show ?thesis using after_verify_passed [OF u(3) v(3) u(4), of env t ?d ?o] r u(2) None False by auto
    qed
  next
    case (Some rv)
    let ?o = "observed_state_of t True True"
    have "rv_passed rv" using assms(4) Some by simp
    note r = reconcile_stored_verification [OF assms(1-3) Some this]
    show ?thesis
    proof (cases "ro_status row = AS_VERIFIED")
      case True
      then show ?thesis
        using r missing_completion_verified [OF u(3) True, of env ?d ?o VERIFICATION_PASSED_COMPLETION_MISSING] u(2) by auto
    next
      case False
      have "advance_through db row AS_COMPLETED id = (db, None)"
        by (rule advance_illegal [OF u(3)]) (use u(6) False in \<open>auto simp: state_machine at_or_past_simps\<close>)
      then show ?thesis using r Some False nc by (simp add: reconcile_missing_completion_def settled_def)
    qed
  qed
qed

text \<open>C28: two windows are never closed. Once an action that is executing has a result row for its last attempt, or one
  that is verifying also has a verification row, no number of reconciliation calls, with whatever adapters,
  sandbox roots and clocks, changes the action's row again.\<close>

theorem unclosed_windows:
  assumes "window_stuck db i"
  shows "x_actions (fold (\<lambda>env db. fst (reconcile_action env db i)) envs db) = x_actions db"
  using assms
proof (induction envs arbitrary: db)
  case (Cons env envs)
  obtain db' r where r: "reconcile_action env db i = (db', r)" by fastforce
  have "x_actions db' = x_actions db" using reconcile_stuck [OF Cons.prems, of env] r by simp
  moreover have "window_stuck db' i"
    using window_stuck_frame [OF Cons.prems reconcile_action_frame [OF r]] calculation by simp
  ultimately show ?case using Cons.IH [of db'] r by simp
qed simp

section \<open>The sample call, crashed\<close>

lemma sample_attempt_list: "attempt_list_for_action [sample_started key] ''f1'' = [sample_started key]"
  by (simp add: attempt_list_for_action_def sample_started_def sample_attempt_def)

lemma sample_under_way:
  assumes "x_actions db = [row]" "x_attempts db = [sample_started key]" "ro_id row = ''f1''" "ro_status row = AS_EXECUTING"
    "record_to_action row = Inr a"
  shows "under_way sample_recon db ''f1'' row a (sample_started key) file_adapter"
proof -
  have "at_tool_name (sample_started key) = ''file.create_sandboxed''" by (simp add: sample_started_def sample_attempt_def)
  then show ?thesis using assms
    by (simp add: under_way_def action_get_def tbl_get_Cons sample_attempt_list sample_recon_def adapter_get_def)
qed

lemma sample_written_facts: "fs_ok sample_written" "resolve_sandbox_path sample_written [''box''] ''a.txt'' = Inr [''box'', ''a.txt'']"
proof -
  show "fs_ok sample_written"
    using fs_ok_Cons [of sample_fs "[''box'']" "''a.txt''" "F_File (utf8_encode ''hi'')"] sample_fs_ok(1)
    by (simp add: sample_written_def sample_fs_def node_at_def plain_name_def)
  show "resolve_sandbox_path sample_written [''box''] ''a.txt'' = Inr [''box'', ''a.txt'']" by code_simp
qed

lemma sample_effect_written:
  assumes "a = sample_executing\<lparr>a_inputs := norm_inputs (a_inputs sample_file_action)\<rparr>"
  shows "effect_written sample_written (re_root sample_recon) a"
proof -
  have "file_inputs a = Some (''a.txt'', ''hi'')"
    by (simp add: assms file_inputs_def sample_norm obj_get_def)
  moreover have "node_at sample_written [''box'', ''a.txt''] = Some (F_File (utf8_encode ''hi''))"
    by (simp add: sample_written_def node_at_def)
  ultimately show ?thesis using sample_written_facts sample_fs_ok(2)
    by (auto simp: effect_written_def sample_recon_def sample_context_def)
qed

theorem crashed_write_recovered_witness:
  "\<exists>db db' q. db = fst (run_durable 9 sample_call sample_db D_Start) \<and>
     reconcile_action sample_recon db ''f1'' = (db', Inr q) \<and> completed ''f1'' db' \<and> rc_recovered q"
proof -
  obtain key row where r: "run_durable 9 sample_call sample_db D_Start = (sample_db\<lparr>x_actions := [row], x_attempts := [sample_started key],
       x_fs := sample_written\<rparr>, D_Save_Result (sample_attempt key) file_adapter sample_executing sample_success)"
    "ro_id row = ''f1''" "ro_status row = AS_EXECUTING"
    "record_to_action row = Inr (sample_executing\<lparr>a_inputs := norm_inputs (a_inputs sample_file_action)\<rparr>)"
    by (rule sample_run)
  let ?db = "sample_db\<lparr>x_actions := [row], x_attempts := [sample_started key], x_fs := sample_written\<rparr>"
  have "result_get_by_attempt (x_results ?db) (at_id (sample_started key)) = None" by (simp add: sample_db_def result_get_by_attempt_def)
  then have "\<exists>db' q. reconcile_action sample_recon ?db ''f1'' = (db', Inr q) \<and> completed ''f1'' db' \<and> rc_recovered q"
    using crashed_write_recovered [OF sample_under_way [OF _ _ r(2-4)], of ?db key] sample_effect_written [OF refl]
    by auto
  then show ?thesis using r(1) by simp
qed

theorem unclosed_windows_witness:
  "x_actions (fst (reconcile_action sample_recon (fst (run_durable 10 sample_call sample_db D_Start)) ''f1'')) =
     x_actions (fst (run_durable 10 sample_call sample_db D_Start)) \<and>
   \<not> completed ''f1'' (fst (run_durable 10 sample_call sample_db D_Start))"
proof -
  obtain key row where r: "run_durable 10 sample_call sample_db D_Start = (sample_db\<lparr>x_actions := [row], x_attempts := [sample_started key],
       x_fs := sample_written, x_results := [execution_result_to_record_fields ''t1'' sample_success ORIGINAL]\<rparr>,
      D_Attempt_Done (sample_attempt key) file_adapter sample_executing sample_success)"
    "ro_id row = ''f1''" "ro_status row = AS_EXECUTING"
    by (rule sample_run)
  let ?db = "fst (run_durable 10 sample_call sample_db D_Start)"
  have g: "action_get (x_actions ?db) ''f1'' = Some row" using r by (simp add: action_get_def tbl_get_Cons)
  have "result_get_by_attempt (x_results ?db) ''t1'' \<noteq> None"
    using r(1) by (simp add: result_get_by_attempt_def tbl_get_Cons execution_result_to_record_fields_def Let_def)
  moreover have "at_id (sample_started key) = ''t1''" by (simp add: sample_started_def sample_attempt_def)
  ultimately have "window_stuck ?db ''f1''"
    using g r(1,3) sample_attempt_list [of key] by (simp add: window_stuck_def Let_def)
  then show ?thesis using unclosed_windows [of ?db "''f1''" "[sample_recon]"] g r(3) by (simp add: completed_def)
qed

theorem recovery_windows_witness:
  "\<exists>db db' q. x_actions db = x_actions (fst (run_durable 10 sample_call sample_db D_Start)) \<and>
     reconcile_action sample_recon db ''f1'' = (db', Inr q) \<and> \<not> completed ''f1'' db' \<and> rc_human_review_required q"
proof -
  obtain key row where r: "run_durable 10 sample_call sample_db D_Start = (sample_db\<lparr>x_actions := [row], x_attempts := [sample_started key],
       x_fs := sample_written, x_results := [execution_result_to_record_fields ''t1'' sample_success ORIGINAL]\<rparr>,
      D_Attempt_Done (sample_attempt key) file_adapter sample_executing sample_success)"
    "ro_id row = ''f1''" "ro_status row = AS_EXECUTING"
    "record_to_action row = Inr (sample_executing\<lparr>a_inputs := norm_inputs (a_inputs sample_file_action)\<rparr>)"
    by (rule sample_run)
  define db where "db = (fst (run_durable 10 sample_call sample_db D_Start))\<lparr>x_verifications :=
    [verification_result_to_record_fields ''t1'' sample_verification ORIGINAL]\<rparr>"
  have t: "at_id (sample_started key) = ''t1''" by (simp add: sample_started_def sample_attempt_def)
  have res: "result_get_by_attempt (x_results db) (at_id (sample_started key)) = Some (execution_result_to_record_fields ''t1'' sample_success ORIGINAL)"
    by (simp add: db_def r(1) t result_get_by_attempt_def tbl_get_Cons execution_result_to_record_fields_def Let_def)
  have ver: "verification_get_by_attempt (x_verifications db) (at_id (sample_started key)) =
      Some (verification_result_to_record_fields ''t1'' sample_verification ORIGINAL)"
    by (simp add: db_def t verification_get_by_attempt_def tbl_get_Cons verification_result_to_record_fields_def)
  have u: "under_way sample_recon db ''f1'' row (sample_executing\<lparr>a_inputs := norm_inputs (a_inputs sample_file_action)\<rparr>) (sample_started key) file_adapter"
    by (rule sample_under_way [OF _ _ r(2-4)]) (simp_all add: db_def r(1))
  have ok: "rr_success (execution_result_to_record_fields ''t1'' sample_success ORIGINAL)"
    "rv_passed (verification_result_to_record_fields ''t1'' sample_verification ORIGINAL)"
    by (simp_all add: execution_result_to_record_fields_def Let_def sample_success_def file_success_def
        verification_result_to_record_fields_def sample_verification_def)
  have "\<exists>db' q. reconcile_action sample_recon db ''f1'' = (db', Inr q) \<and> \<not> completed ''f1'' db' \<and> rc_human_review_required q"
    using recovery_windows [OF u res ok(1)] ver ok(2) r(3) by auto
  moreover have "x_actions db = x_actions (fst (run_durable 10 sample_call sample_db D_Start))" by (simp add: db_def)
  ultimately show ?thesis by blast
qed

end
