(* ===== verification/Identity_Registry.thy ===== *)
theory Identity_Registry
  imports Keyed_Table
begin

text \<open>
  What the provider and the agent registry promise: registration adds one identity, fails on a known one, and
  nothing redefines or removes what was registered. \<open>attempts\<close> is a caller that tries registrations in turn
  and goes on after a refusal.
\<close>

definition attempt :: "('s \<Rightarrow> 'v \<Rightarrow> 'e + 's) \<Rightarrow> 's \<Rightarrow> 'v \<Rightarrow> 's" where
  "attempt register s v = (case register s v of Inl _ \<Rightarrow> s | Inr s' \<Rightarrow> s')"

definition attempts :: "('s \<Rightarrow> 'v \<Rightarrow> 'e + 's) \<Rightarrow> 's \<Rightarrow> 'v list \<Rightarrow> 's" where
  "attempts register = foldl (attempt register)"

locale identity_registry =
  fixes lookup :: "'s \<Rightarrow> 'k \<Rightarrow> 'd option"
    and register :: "'s \<Rightarrow> 'v \<Rightarrow> 'e + 's"
    and key :: "'v \<Rightarrow> 'k"
    and stored :: "'v \<Rightarrow> 'd"
    and valid :: "'v \<Rightarrow> bool"
  assumes register_lookup: "register s v = Inr s' \<Longrightarrow> lookup s' k = (if k = key v then Some (stored v) else lookup s k)"
    and register_iff: "(\<exists>s'. register s v = Inr s') \<longleftrightarrow> valid v \<and> lookup s (key v) = None"
begin

lemma attempt_lookup:
  "lookup (attempt register s v) k =
     (if k = key v \<and> valid v \<and> lookup s k = None then Some (stored v) else lookup s k)"
proof (cases "register s v")
  case (Inl e)
  then have "\<not> (valid v \<and> lookup s (key v) = None)" using register_iff [of s v] by simp
  then show ?thesis by (auto simp: attempt_def Inl)
next
  case (Inr s')
  then have "valid v \<and> lookup s (key v) = None" using register_iff [of s v] by simp
  then show ?thesis using register_lookup [OF Inr] by (auto simp: attempt_def Inr)
qed

lemma identity_stable: "lookup s k = Some d \<Longrightarrow> lookup (attempts register s vs) k = Some d"
  by (induction vs arbitrary: s) (simp_all add: attempts_def attempt_lookup)

lemma first_wins:
  "lookup (attempts register s vs) k = (case lookup s k of Some d \<Rightarrow> Some d
     | None \<Rightarrow> map_option stored (List.find (\<lambda>v. valid v \<and> key v = k) vs))"
  by (induction vs arbitrary: s) (auto simp: attempts_def attempt_lookup split: option.splits)

end

end
