(* ===== verification/Provider_Contracts.thy ===== *)
theory Provider_Contracts
  imports Prelude Keyed_Table Json Identity_Registry "HOL-Library.Product_Lexorder"
begin

text \<open>
  \<open>app/providers/contracts.py\<close>, \<open>registry.py\<close> and \<open>catalog.py\<close>: the identities of AI providers and their models, the
  registry that pins them, and the catalogue queries over it. A pydantic constructor is a function that
  returns the record or the list of the fields it rejects with their messages. Frozen containers are
  values; metadata is JSON nothing here reads.
\<close>

section \<open>Identifiers\<close>

definition max_identifier_length :: nat where
  "max_identifier_length = 256"

definition max_display_name_length :: nat where
  "max_display_name_length = 512"

definition control_char :: "char \<Rightarrow> bool" where
  "control_char c = (let n = of_char c :: nat in n < 32 \<or> n = 127)"

definition validate_identifier :: "string \<Rightarrow> string + string" where
  "validate_identifier value =
     (if py_strip value = [] then Inl ''must not be blank''
      else if max_identifier_length < length value then Inl ''must not exceed 256 characters''
      else if value \<noteq> py_strip value then Inl ''must not have leading/trailing whitespace''
      else if list_ex control_char value then Inl ''must not contain control characters''
      else Inr value)"

definition validate_display_name :: "string \<Rightarrow> string + string" where
  "validate_display_name value =
     (if py_strip value = [] then Inl ''must not be blank''
      else if max_display_name_length < length value then Inl ''must not exceed 512 characters''
      else Inr value)"

text \<open>\<open>Field(min_length=1)\<close> comes before the validator.\<close>

definition non_empty :: "(string \<Rightarrow> string + string) \<Rightarrow> string \<Rightarrow> string + string" where
  "non_empty check value = (if value = [] then Inl ''String should have at least 1 character'' else check value)"

type_synonym validation_error = "(string \<times> string) list"

definition field_error :: "string \<Rightarrow> string + 'a \<Rightarrow> validation_error" where
  "field_error name r = (case r of Inl m \<Rightarrow> [(name, m)] | Inr _ \<Rightarrow> [])"

definition validated :: "validation_error \<Rightarrow> 'a \<Rightarrow> validation_error + 'a" where
  "validated es x = (if es = [] then Inr x else Inl es)"

section \<open>Providers and models\<close>

datatype provider_capability = TEXT_GENERATION | STRUCTURED_OUTPUT | REASONING | CODING | VISION | EMBEDDING | RERANKING
  | STREAMING | TOOL_USE

record provider_definition =
  pv_provider_id :: string
  pv_display_name :: string
  pv_provider_type :: string
  pv_enabled :: bool
  pv_capabilities :: "provider_capability set"
  pv_privacy_classification :: string
  pv_metadata :: "(string \<times> json) list"

record model_definition =
  md_model_id :: string
  md_provider_id :: string
  md_display_name :: string
  md_capabilities :: "provider_capability set"
  md_context_window :: "int option"
  md_supports_structured_output :: bool
  md_supports_streaming :: bool
  md_metadata :: "(string \<times> json) list"

definition new_provider_definition :: "provider_definition \<Rightarrow> validation_error + provider_definition" where
  "new_provider_definition d = validated
     (field_error ''provider_id'' (non_empty validate_identifier (pv_provider_id d)) @
      field_error ''display_name'' (non_empty validate_display_name (pv_display_name d)) @
      field_error ''provider_type'' (non_empty validate_identifier (pv_provider_type d))) d"

definition new_model_definition :: "model_definition \<Rightarrow> validation_error + model_definition" where
  "new_model_definition m = validated
     (field_error ''model_id'' (non_empty validate_identifier (md_model_id m)) @
      field_error ''provider_id'' (non_empty validate_identifier (md_provider_id m)) @
      field_error ''display_name'' (non_empty validate_display_name (md_display_name m)) @
      field_error ''context_window'' (case md_context_window m of None \<Rightarrow> Inr ()
        | Some n \<Rightarrow> if 0 < n then Inr () else Inl ''Input should be greater than 0'')) m"

record compatible_model =
  cm_provider_id :: string
  cm_model_id :: string
  cm_effective_capabilities :: "provider_capability set"

section \<open>The registry\<close>

record registered_provider =
  rp_definition :: provider_definition
  rp_models :: "model_definition list"

record provider_registry =
  pr_entries :: "(string \<times> registered_provider) list"
  pr_models :: "((string \<times> string) \<times> model_definition) list"

datatype provider_error =
    DuplicateProviderError string
  | UnknownProviderError string
  | DisabledProviderError string
  | ModelOwnershipError string string string
  | DuplicateModelError string string
  | UnknownModelError string string

definition empty_provider_registry :: provider_registry where
  "empty_provider_registry = \<lparr>pr_entries = [], pr_models = []\<rparr>"

definition provider_contains :: "provider_registry \<Rightarrow> string \<Rightarrow> bool" where
  "provider_contains reg i = (tbl_get fst (pr_entries reg) i \<noteq> None)"

fun validate_models :: "string \<Rightarrow> string list \<Rightarrow> model_definition list \<Rightarrow> provider_error + unit" where
  "validate_models i seen [] = Inr ()"
| "validate_models i seen (m # ms) =
     (if md_provider_id m \<noteq> i then Inl (ModelOwnershipError (md_model_id m) (md_provider_id m) i)
      else if md_model_id m \<in> set seen then Inl (DuplicateModelError i (md_model_id m))
      else validate_models i (md_model_id m # seen) ms)"

text \<open>\<open>register\<close>: the definition is read once from the provider; every check runs before anything is stored.\<close>

definition register_provider :: "provider_registry \<Rightarrow> provider_definition \<Rightarrow> model_definition list \<Rightarrow>
    provider_error + provider_registry" where
  "register_provider reg d ms = (let i = pv_provider_id d in
     if provider_contains reg i then Inl (DuplicateProviderError i)
     else bind_sum (validate_models i [] ms) (\<lambda>_. Inr
       \<lparr>pr_entries = tbl_put fst (pr_entries reg) (i, \<lparr>rp_definition = d, rp_models = ms\<rparr>),
        pr_models = foldl (\<lambda>t m. tbl_put fst t ((i, md_model_id m), m)) (pr_models reg) ms\<rparr>))"

definition get_provider :: "provider_registry \<Rightarrow> string \<Rightarrow> provider_error + provider_definition" where
  "get_provider reg i = (case tbl_get fst (pr_entries reg) i of
     None \<Rightarrow> Inl (UnknownProviderError i) | Some (_, e) \<Rightarrow> Inr (rp_definition e))"

definition get_enabled_provider :: "provider_registry \<Rightarrow> string \<Rightarrow> provider_error + provider_definition" where
  "get_enabled_provider reg i = (case tbl_get fst (pr_entries reg) i of
     None \<Rightarrow> Inl (UnknownProviderError i)
   | Some (_, e) \<Rightarrow> if \<not> pv_enabled (rp_definition e) then Inl (DisabledProviderError i) else Inr (rp_definition e))"

definition list_provider_definitions :: "provider_registry \<Rightarrow> provider_definition list" where
  "list_provider_definitions reg = sort_key pv_provider_id (map (\<lambda>(_, e). rp_definition e) (pr_entries reg))"

definition get_model :: "provider_registry \<Rightarrow> string \<Rightarrow> string \<Rightarrow> provider_error + model_definition" where
  "get_model reg p m = (if \<not> provider_contains reg p then Inl (UnknownProviderError p)
     else (case tbl_get fst (pr_models reg) (p, m) of None \<Rightarrow> Inl (UnknownModelError p m) | Some e \<Rightarrow> Inr (snd e)))"

definition list_models :: "provider_registry \<Rightarrow> string \<Rightarrow> provider_error + model_definition list" where
  "list_models reg p = (case tbl_get fst (pr_entries reg) p of
     None \<Rightarrow> Inl (UnknownProviderError p) | Some (_, e) \<Rightarrow> Inr (sort_key md_model_id (rp_models e)))"

section \<open>The catalogue\<close>

definition effective_capabilities :: "provider_capability set \<Rightarrow> provider_capability set \<Rightarrow> provider_capability set" where
  "effective_capabilities p m = p \<inter> m"

text \<open>The pairs a loop over \<open>list_definitions\<close> and \<open>list_models\<close> visits.\<close>

fun registered_pairs :: "provider_registry \<Rightarrow> provider_definition list \<Rightarrow>
    provider_error + (provider_definition \<times> model_definition) list" where
  "registered_pairs reg [] = Inr []"
| "registered_pairs reg (d # ds) = bind_sum (list_models reg (pv_provider_id d)) (\<lambda>ms.
     bind_sum (registered_pairs reg ds) (\<lambda>rest. Inr (map (Pair d) ms @ rest)))"

definition find_compatible_models :: "provider_registry \<Rightarrow> provider_capability set \<Rightarrow> bool \<Rightarrow>
    provider_error + compatible_model list" where
  "find_compatible_models reg required enabled_only =
     bind_sum (registered_pairs reg (filter (\<lambda>d. pv_enabled d \<or> \<not> enabled_only) (list_provider_definitions reg))) (\<lambda>pairs.
     Inr (sort_key (\<lambda>c. (cm_provider_id c, cm_model_id c))
       (map (\<lambda>(d, m). \<lparr>cm_provider_id = pv_provider_id d, cm_model_id = md_model_id m,
            cm_effective_capabilities = effective_capabilities (pv_capabilities d) (md_capabilities m)\<rparr>)
         (filter (\<lambda>(d, m). required \<subseteq> effective_capabilities (pv_capabilities d) (md_capabilities m)) pairs))))"

section \<open>What registration keeps\<close>

definition provider_inv :: "provider_registry \<Rightarrow> bool" where
  "provider_inv reg = (tbl_unique fst (pr_entries reg) \<and>
     (\<forall>(i, e) \<in> set (pr_entries reg). pv_provider_id (rp_definition e) = i \<and> distinct (map md_model_id (rp_models e)) \<and>
        (\<forall>m \<in> set (rp_models e). md_provider_id m = i)) \<and>
     (\<forall>p k. tbl_get fst (pr_models reg) (p, k) = (case tbl_get fst (pr_entries reg) p of None \<Rightarrow> None
        | Some (_, e) \<Rightarrow> map_option (\<lambda>m. ((p, k), m)) (List.find (\<lambda>m. md_model_id m = k) (rp_models e)))))"

lemma validate_models_iff: "validate_models i seen ms = Inr () \<longleftrightarrow>
    (\<forall>m \<in> set ms. md_provider_id m = i) \<and> distinct (map md_model_id ms) \<and> set seen \<inter> md_model_id ` set ms = {}"
  by (induction i seen ms rule: validate_models.induct) auto

lemma models_put:
  "distinct (map md_model_id ms) \<Longrightarrow>
   tbl_get fst (foldl (\<lambda>t m. tbl_put fst t ((i, md_model_id m), m)) t ms) (p, k) =
     (case (if p = i then List.find (\<lambda>m. md_model_id m = k) ms else None) of
        Some m \<Rightarrow> Some ((p, k), m) | None \<Rightarrow> tbl_get fst t (p, k))"
proof (induction ms arbitrary: t)
  case (Cons m ms)
  have "k = md_model_id m \<Longrightarrow> List.find (\<lambda>m. md_model_id m = k) ms = None"
    using Cons.prems by (simp add: find_None_iff') (metis image_eqI)
  then show ?case using Cons by (auto simp: tbl_get_put split: option.splits)
qed simp

lemma register_provider_OkD:
  assumes "register_provider reg d ms = Inr reg'"
  shows "tbl_get fst (pr_entries reg) (pv_provider_id d) = None"
    "pr_entries reg' = pr_entries reg @ [(pv_provider_id d, \<lparr>rp_definition = d, rp_models = ms\<rparr>)]"
    "(\<forall>m \<in> set ms. md_provider_id m = pv_provider_id d) \<and> distinct (map md_model_id ms)"
    "pr_models reg' = foldl (\<lambda>t m. tbl_put fst t ((pv_provider_id d, md_model_id m), m)) (pr_models reg) ms"
  using assms by (auto simp: register_provider_def provider_contains_def bind_sum_InrE validate_models_iff Let_def tbl_put_def split: if_splits)

lemma register_provider_inv:
  assumes "provider_inv reg" "register_provider reg d ms = Inr reg'"
  shows "provider_inv reg'"
proof -
  note r = register_provider_OkD [OF assms(2)]
  have u: "tbl_unique fst (pr_entries reg')"
    using assms(1) r(1,2) by (auto simp: provider_inv_def tbl_unique_def tbl_get_None_iff)
  have "tbl_get fst (pr_models reg') (p, k) = (case tbl_get fst (pr_entries reg') p of None \<Rightarrow> None
      | Some (_, e) \<Rightarrow> map_option (\<lambda>m. ((p, k), m)) (List.find (\<lambda>m. md_model_id m = k) (rp_models e)))" for p k
    using assms(1) r unfolding r(4) models_put [OF r(3) [THEN conjunct2]]
    by (auto simp: provider_inv_def tbl_get_append tbl_get_Cons split: option.splits)
  then show ?thesis using assms(1) u r(2,3) by (auto simp: provider_inv_def)
qed

lemma empty_provider_registry_inv: "provider_inv empty_provider_registry"
  by (simp add: provider_inv_def empty_provider_registry_def tbl_unique_def)

interpretation providers: identity_registry "\<lambda>reg i. map_option snd (tbl_get fst (pr_entries reg) i)"
    "\<lambda>reg (d, ms). register_provider reg d ms" "\<lambda>(d, ms). pv_provider_id d" "\<lambda>(d, ms). \<lparr>rp_definition = d, rp_models = ms\<rparr>"
    "\<lambda>(d, ms). validate_models (pv_provider_id d) [] ms = Inr ()"
proof unfold_locales
  fix reg reg' :: provider_registry and v :: "provider_definition \<times> model_definition list" and i
  assume "(case v of (d, ms) \<Rightarrow> register_provider reg d ms) = Inr reg'"
  then show "map_option snd (tbl_get fst (pr_entries reg') i) =
      (if i = (case v of (d, ms) \<Rightarrow> pv_provider_id d) then Some (case v of (d, ms) \<Rightarrow> \<lparr>rp_definition = d, rp_models = ms\<rparr>)
       else map_option snd (tbl_get fst (pr_entries reg) i))"
    by (cases v) (auto simp: register_provider_OkD(1,2) tbl_get_append tbl_get_Cons dest: register_provider_OkD(1,2) split: option.splits)
next
  fix reg :: provider_registry and v :: "provider_definition \<times> model_definition list"
  show "(\<exists>reg'. (case v of (d, ms) \<Rightarrow> register_provider reg d ms) = Inr reg') \<longleftrightarrow>
      (case v of (d, ms) \<Rightarrow> validate_models (pv_provider_id d) [] ms = Inr ()) \<and>
      map_option snd (tbl_get fst (pr_entries reg) (case v of (d, ms) \<Rightarrow> pv_provider_id d)) = None"
    by (cases v; cases "tbl_get fst (pr_entries reg) (pv_provider_id (fst v))")
      (auto simp: register_provider_def provider_contains_def bind_sum_def Let_def split: sum.splits)
qed

lemma provider_identity_stable:
  "get_provider reg i = Inr d \<Longrightarrow> get_provider (attempts (\<lambda>reg (d, ms). register_provider reg d ms) reg offered) i = Inr d"
proof -
  have lk: "get_provider reg i = Inr d \<longleftrightarrow> (\<exists>e. map_option snd (tbl_get fst (pr_entries reg) i) = Some e \<and> rp_definition e = d)" for reg
    by (auto simp: get_provider_def split: option.splits)
  show "get_provider reg i = Inr d \<Longrightarrow> ?thesis" unfolding lk using providers.identity_stable [of reg i] by blast
qed

lemma registered_pairs_total:
  assumes "provider_inv reg" "\<forall>d \<in> set ds. \<exists>e. tbl_get fst (pr_entries reg) (pv_provider_id d) = Some (pv_provider_id d, e)"
  shows "registered_pairs reg ds = Inr (concat (map (\<lambda>d. map (Pair d) (sort_key md_model_id
    (rp_models (snd (the (tbl_get fst (pr_entries reg) (pv_provider_id d))))))) ds))"
  using assms(2) by (induction ds) (auto simp: list_models_def)

end
