(* ===== verification/Provider_Routing.thy ===== *)
theory Provider_Routing
  imports Provider_Contracts
begin

text \<open>
  \<open>app/providers/routing_contracts.py\<close> and \<open>router.py\<close>: choosing a model for a request. Hard constraints eliminate
  candidates, an optimization policy narrows what is left, and the least identity wins. The snapshots a caller
  supplies are validated mappings; a Decimal that passed validation is its rational value. Selection ids and
  creation times are left out of the records.
\<close>

section \<open>Contracts\<close>

datatype privacy_requirement = CLOUD_ALLOWED | LOCAL_ONLY
datatype provider_locality = LOCAL | CLOUD
datatype health_state = HEALTHY | DEGRADED | UNAVAILABLE
datatype optimization_policy = DETERMINISTIC | LOWEST_COST

datatype routing_reason_code = PROVIDER_DISABLED | PROVIDER_DENIED | PROVIDER_NOT_ALLOWED | CAPABILITY_MISMATCH
  | LOCALITY_MISMATCH | HEALTH_UNAVAILABLE | HEALTH_UNKNOWN | HEALTH_DEGRADED_NOT_ALLOWED | COST_EXCEEDED | COST_UNKNOWN

datatype selection_status = SELECTED | NO_ELIGIBLE_PROVIDER

fun optimization_policy_value :: "optimization_policy \<Rightarrow> string" where
  "optimization_policy_value DETERMINISTIC = ''DETERMINISTIC''"
| "optimization_policy_value LOWEST_COST = ''LOWEST_COST''"

text \<open>A Python Decimal.\<close>

datatype py_decimal = Dec rat | Dec_NaN | Dec_Infinity bool

fun validate_cost_value :: "py_decimal \<Rightarrow> string + rat" where
  "validate_cost_value (Dec r) = (if r < 0 then Inl ''cost value must not be negative'' else Inr r)"
| "validate_cost_value _ = Inl ''cost value must be finite (no NaN/Infinity)''"

type_synonym locality_snapshot = "(string \<times> provider_locality) list"
type_synonym health_snapshot = "(string \<times> health_state) list"
type_synonym cost_snapshot = "((string \<times> string) \<times> rat) list"

fun new_cost_snapshot :: "((string \<times> string) \<times> py_decimal) list \<Rightarrow> string + cost_snapshot" where
  "new_cost_snapshot [] = Inr []"
| "new_cost_snapshot ((k, v) # kvs) = bind_sum (validate_cost_value v) (\<lambda>r.
     bind_sum (new_cost_snapshot kvs) (\<lambda>rest. Inr ((k, r) # rest)))"

definition max_id_set_size :: nat where
  "max_id_set_size = 256"

record routing_request =
  rq_routing_request_id :: string
  rq_required_capabilities :: "provider_capability set"
  rq_privacy_requirement :: privacy_requirement
  rq_max_estimated_cost :: "rat option"
  rq_allowed_provider_ids :: "string list option"
  rq_denied_provider_ids :: "string list"

fun validate_all :: "string list \<Rightarrow> string + unit" where
  "validate_all [] = Inr ()"
| "validate_all (v # vs) = bind_sum (validate_identifier v) (\<lambda>_. validate_all vs)"

definition validate_id_set :: "string list \<Rightarrow> string + unit" where
  "validate_id_set vs = (if max_id_set_size < length (remdups vs) then
     Inl (''must not exceed 256 entries, got '' @ int_str (int (length (remdups vs)))) else validate_all vs)"

text \<open>The constructor: the request with its cost bound still a Decimal, and the id sets as lists.\<close>

definition new_routing_request :: "routing_request \<Rightarrow> py_decimal option \<Rightarrow> validation_error + routing_request" where
  "new_routing_request q max_cost = (let
     cost = (case max_cost of None \<Rightarrow> Inr None | Some d \<Rightarrow> map_sum id Some (validate_cost_value d)) in
     validated (field_error ''routing_request_id'' (validate_identifier (rq_routing_request_id q)) @
       field_error ''max_estimated_cost'' cost @
       field_error ''allowed_provider_ids'' (case rq_allowed_provider_ids q of None \<Rightarrow> Inr () | Some vs \<Rightarrow> validate_id_set vs) @
       field_error ''denied_provider_ids'' (validate_id_set (rq_denied_provider_ids q)))
     (q\<lparr>rq_max_estimated_cost := (case cost of Inl _ \<Rightarrow> None | Inr c \<Rightarrow> c)\<rparr>))"

record candidate_evaluation =
  ce_provider_id :: string
  ce_model_id :: string
  ce_eligible :: bool
  ce_reason_codes :: "routing_reason_code list"
  ce_effective_capabilities :: "provider_capability set"
  ce_trusted_cost :: "rat option"
  ce_trusted_health :: "health_state option"

definition new_candidate_evaluation :: "candidate_evaluation \<Rightarrow> string + candidate_evaluation" where
  "new_candidate_evaluation c =
     (if ce_eligible c \<and> ce_reason_codes c \<noteq> [] then Inl ''an eligible candidate must not carry rejection reason_codes''
      else if \<not> ce_eligible c \<and> ce_reason_codes c = [] then Inl ''an ineligible candidate must carry at least one reason code''
      else Inr c)"

record selection_record =
  sr_routing_request_id :: string
  sr_provider_id :: string
  sr_model_id :: string
  sr_effective_capabilities :: "provider_capability set"
  sr_trusted_health :: "health_state option"
  sr_trusted_cost :: "rat option"
  sr_reason :: string
  sr_policy_version :: string

record selection_result =
  sl_routing_request_id :: string
  sl_status :: selection_status
  sl_selected :: "selection_record option"
  sl_evaluations :: "candidate_evaluation list"
  sl_optimization :: optimization_policy
  sl_allow_degraded_health :: bool
  sl_policy_version :: string

definition ce_key :: "candidate_evaluation \<Rightarrow> string \<times> string" where
  "ce_key c = (ce_provider_id c, ce_model_id c)"

definition new_selection_result :: "selection_result \<Rightarrow> string + selection_result" where
  "new_selection_result r =
     (if (sl_status r = SELECTED) \<noteq> (sl_selected r \<noteq> None) then Inl ''status must be SELECTED if and only if selected is not None''
      else if \<not> distinct (map ce_key (sl_evaluations r)) then Inl ''evaluations must be unique per (provider_id, model_id)''
      else (case sl_selected r of
          None \<Rightarrow> Inr r
        | Some s \<Rightarrow> (case filter (\<lambda>e. ce_key e = (sr_provider_id s, sr_model_id s)) (sl_evaluations r) of
             [] \<Rightarrow> Inl ''selected does not correspond to any entry in evaluations''
           | e # _ \<Rightarrow> if \<not> ce_eligible e then Inl ''selected corresponds to an evaluation marked ineligible'' else Inr r)))"

section \<open>The router\<close>

definition policy_version :: string where
  "policy_version = ''v0.2.3-router-policy-1''"

definition snapshot_get :: "('k \<times> 'v) list \<Rightarrow> 'k \<Rightarrow> 'v option" where
  "snapshot_get s k = map_option snd (tbl_get fst s k)"

definition candidate_reasons :: "provider_definition \<Rightarrow> model_definition \<Rightarrow> routing_request \<Rightarrow> locality_snapshot \<Rightarrow>
    health_snapshot \<Rightarrow> cost_snapshot \<Rightarrow> bool \<Rightarrow> routing_reason_code list" where
  "candidate_reasons d m q locality health cost allow_degraded = (let p = pv_provider_id d in
     (if \<not> pv_enabled d then [PROVIDER_DISABLED] else []) @
     (if p \<in> set (rq_denied_provider_ids q) then [PROVIDER_DENIED]
      else case rq_allowed_provider_ids q of None \<Rightarrow> [] | Some allowed \<Rightarrow> if p \<notin> set allowed then [PROVIDER_NOT_ALLOWED] else []) @
     (if \<not> rq_required_capabilities q \<subseteq> effective_capabilities (pv_capabilities d) (md_capabilities m)
      then [CAPABILITY_MISMATCH] else []) @
     (if rq_privacy_requirement q = LOCAL_ONLY \<and> snapshot_get locality p \<noteq> Some LOCAL then [LOCALITY_MISMATCH] else []) @
     (case snapshot_get health p of
        None \<Rightarrow> [HEALTH_UNKNOWN]
      | Some UNAVAILABLE \<Rightarrow> [HEALTH_UNAVAILABLE]
      | Some DEGRADED \<Rightarrow> if allow_degraded then [] else [HEALTH_DEGRADED_NOT_ALLOWED]
      | Some HEALTHY \<Rightarrow> []) @
     (case rq_max_estimated_cost q of
        None \<Rightarrow> []
      | Some bound \<Rightarrow> (case snapshot_get cost (p, md_model_id m) of
          None \<Rightarrow> [COST_UNKNOWN] | Some c \<Rightarrow> if bound < c then [COST_EXCEEDED] else [])))"

definition evaluate_candidate :: "provider_definition \<Rightarrow> model_definition \<Rightarrow> routing_request \<Rightarrow> locality_snapshot \<Rightarrow>
    health_snapshot \<Rightarrow> cost_snapshot \<Rightarrow> bool \<Rightarrow> string + candidate_evaluation" where
  "evaluate_candidate d m q locality health cost allow_degraded = (let
     reasons = candidate_reasons d m q locality health cost allow_degraded in
     new_candidate_evaluation \<lparr>ce_provider_id = pv_provider_id d, ce_model_id = md_model_id m, ce_eligible = (reasons = []),
       ce_reason_codes = reasons, ce_effective_capabilities = effective_capabilities (pv_capabilities d) (md_capabilities m),
       ce_trusted_cost = snapshot_get cost (pv_provider_id d, md_model_id m),
       ce_trusted_health = snapshot_get health (pv_provider_id d)\<rparr>)"

definition apply_optimization :: "candidate_evaluation list \<Rightarrow> optimization_policy \<Rightarrow> candidate_evaluation list" where
  "apply_optimization eligible opt = (case opt of
     DETERMINISTIC \<Rightarrow> eligible
   | LOWEST_COST \<Rightarrow> (let known = filter (\<lambda>c. ce_trusted_cost c \<noteq> None) eligible in
       if known = [] then []
       else (let minimum = Min (set (map (\<lambda>c. the (ce_trusted_cost c)) known)) in
         filter (\<lambda>c. ce_trusted_cost c = Some minimum) known)))"

fun evaluate_all :: "(provider_definition \<times> model_definition) list \<Rightarrow> routing_request \<Rightarrow> locality_snapshot \<Rightarrow>
    health_snapshot \<Rightarrow> cost_snapshot \<Rightarrow> bool \<Rightarrow> string + candidate_evaluation list" where
  "evaluate_all [] q locality health cost deg = Inr []"
| "evaluate_all ((d, m) # pairs) q locality health cost deg = bind_sum (evaluate_candidate d m q locality health cost deg) (\<lambda>e.
     bind_sum (evaluate_all pairs q locality health cost deg) (\<lambda>es. Inr (e # es)))"

definition selection_reason :: "optimization_policy \<Rightarrow> nat \<Rightarrow> nat \<Rightarrow> string" where
  "selection_reason opt narrowed eligible = ''selected via '' @ optimization_policy_value opt @
     '' policy and deterministic (provider_id, model_id) tie-break among '' @ int_str (int narrowed) @
     '' candidate(s) remaining after optimization (of '' @ int_str (int eligible) @ '' eligible)''"

datatype routing_error = Routing_Registry provider_error | Routing_Value string

definition conclude_routing :: "candidate_evaluation list \<Rightarrow> routing_request \<Rightarrow> optimization_policy \<Rightarrow> bool \<Rightarrow>
    string + selection_result" where
  "conclude_routing es q opt deg = (let
     eligible = filter ce_eligible es; narrowed = apply_optimization eligible opt;
     base = \<lparr>sl_routing_request_id = rq_routing_request_id q, sl_status = NO_ELIGIBLE_PROVIDER, sl_selected = None,
       sl_evaluations = es, sl_optimization = opt, sl_allow_degraded_health = deg, sl_policy_version = policy_version\<rparr>
   in if eligible = [] \<or> narrowed = [] then new_selection_result base
      else (let winner = hd (sort_key ce_key narrowed) in new_selection_result (base\<lparr>sl_status := SELECTED, sl_selected :=
        Some \<lparr>sr_routing_request_id = rq_routing_request_id q, sr_provider_id = ce_provider_id winner,
          sr_model_id = ce_model_id winner, sr_effective_capabilities = ce_effective_capabilities winner,
          sr_trusted_health = ce_trusted_health winner, sr_trusted_cost = ce_trusted_cost winner,
          sr_reason = selection_reason opt (length narrowed) (length eligible), sr_policy_version = policy_version\<rparr>\<rparr>)))"

definition route_providers :: "provider_registry \<Rightarrow> routing_request \<Rightarrow> locality_snapshot \<Rightarrow> health_snapshot \<Rightarrow>
    cost_snapshot \<Rightarrow> optimization_policy \<Rightarrow> bool \<Rightarrow> routing_error + selection_result" where
  "route_providers reg q locality health cost opt deg = (case registered_pairs reg (list_provider_definitions reg) of
     Inl e \<Rightarrow> Inl (Routing_Registry e)
   | Inr pairs \<Rightarrow> map_sum Routing_Value id (bind_sum (evaluate_all pairs q locality health cost deg) (\<lambda>es.
       conclude_routing es q opt deg)))"

section \<open>What a choice means\<close>

text \<open>The registered pairs, and the candidates that pass every hard constraint.\<close>

definition catalogue :: "provider_registry \<Rightarrow> (provider_definition \<times> model_definition) set" where
  "catalogue reg = {(rp_definition e, m) | i e m. (i, e) \<in> set (pr_entries reg) \<and> m \<in> set (rp_models e)}"

definition pair_key :: "provider_definition \<times> model_definition \<Rightarrow> string \<times> string" where
  "pair_key p = (pv_provider_id (fst p), md_model_id (snd p))"

definition admissible :: "routing_request \<Rightarrow> locality_snapshot \<Rightarrow> health_snapshot \<Rightarrow> cost_snapshot \<Rightarrow> bool \<Rightarrow>
    provider_definition \<times> model_definition \<Rightarrow> bool" where
  "admissible q locality health cost deg p = (case p of (d, m) \<Rightarrow> let i = pv_provider_id d in
     pv_enabled d \<and> i \<notin> set (rq_denied_provider_ids q) \<and>
     (case rq_allowed_provider_ids q of None \<Rightarrow> True | Some allowed \<Rightarrow> i \<in> set allowed) \<and>
     rq_required_capabilities q \<subseteq> pv_capabilities d \<inter> md_capabilities m \<and>
     (rq_privacy_requirement q = LOCAL_ONLY \<longrightarrow> snapshot_get locality i = Some LOCAL) \<and>
     (snapshot_get health i = Some HEALTHY \<or> deg \<and> snapshot_get health i = Some DEGRADED) \<and>
     (case rq_max_estimated_cost q of None \<Rightarrow> True
      | Some bound \<Rightarrow> (\<exists>c. snapshot_get cost (pair_key p) = Some c \<and> c \<le> bound)))"

text \<open>Under the lowest-cost policy also: its cost is known, and no admissible candidate is known to be cheaper.\<close>

definition preferred :: "provider_registry \<Rightarrow> routing_request \<Rightarrow> locality_snapshot \<Rightarrow> health_snapshot \<Rightarrow> cost_snapshot \<Rightarrow>
    optimization_policy \<Rightarrow> bool \<Rightarrow> provider_definition \<times> model_definition \<Rightarrow> bool" where
  "preferred reg q locality health cost opt deg p = (admissible q locality health cost deg p \<and>
     (opt = LOWEST_COST \<longrightarrow> (\<exists>c. snapshot_get cost (pair_key p) = Some c \<and>
        (\<forall>p' \<in> catalogue reg. \<forall>c'. admissible q locality health cost deg p' \<and> snapshot_get cost (pair_key p') = Some c' \<longrightarrow> c \<le> c'))))"

lemma candidate_reasons_Nil_iff:
  "candidate_reasons d m q locality health cost deg = [] \<longleftrightarrow> admissible q locality health cost deg (d, m)"
  unfolding candidate_reasons_def admissible_def Let_def pair_key_def effective_capabilities_def
  by (auto split: option.splits health_state.splits if_splits)

definition evaluation_of :: "routing_request \<Rightarrow> locality_snapshot \<Rightarrow> health_snapshot \<Rightarrow> cost_snapshot \<Rightarrow> bool \<Rightarrow>
    provider_definition \<times> model_definition \<Rightarrow> candidate_evaluation" where
  "evaluation_of q locality health cost deg p = (case p of (d, m) \<Rightarrow> let reasons = candidate_reasons d m q locality health cost deg in
     \<lparr>ce_provider_id = pv_provider_id d, ce_model_id = md_model_id m, ce_eligible = (reasons = []), ce_reason_codes = reasons,
      ce_effective_capabilities = effective_capabilities (pv_capabilities d) (md_capabilities m),
      ce_trusted_cost = snapshot_get cost (pair_key p), ce_trusted_health = snapshot_get health (pv_provider_id d)\<rparr>)"

lemma evaluate_candidate_total: "evaluate_candidate d m q locality health cost deg = Inr (evaluation_of q locality health cost deg (d, m))"
  by (simp add: evaluate_candidate_def evaluation_of_def new_candidate_evaluation_def Let_def pair_key_def)

lemma evaluate_all_total: "evaluate_all pairs q locality health cost deg = Inr (map (evaluation_of q locality health cost deg) pairs)"
  by (induction pairs) (auto simp: evaluate_candidate_total)

lemma evaluation_of_simps:
  "ce_key (evaluation_of q locality health cost deg p) = pair_key p"
  "ce_eligible (evaluation_of q locality health cost deg p) = admissible q locality health cost deg p"
  "ce_trusted_cost (evaluation_of q locality health cost deg p) = snapshot_get cost (pair_key p)"
  by (cases p; simp add: evaluation_of_def Let_def ce_key_def pair_key_def candidate_reasons_Nil_iff)+

text \<open>The loop over the registry visits exactly the registered pairs, in the order of their keys.\<close>

lemma list_definitions_sorted: "sorted (map pv_provider_id (list_provider_definitions reg))"
  by (simp add: list_provider_definitions_def)

lemma sorted_key_pairs:
  assumes "distinct (map md_model_id ms)"
  shows "sorted_wrt (<) (map pair_key (map (Pair d) (sort_key md_model_id ms)))"
proof -
  have k: "map pair_key (map (Pair d) xs) = map (Pair (pv_provider_id d)) (map md_model_id xs)" for xs
    by (simp add: pair_key_def comp_def)
  have sp: "sorted_wrt (<) (map (Pair (pv_provider_id d)) ys)" if "sorted_wrt (<) ys" for ys :: "string list"
    using that by (induction ys) auto
  have "distinct (map md_model_id (sort_key md_model_id ms))"
    using assms by (simp only: distinct_map distinct_sort set_sort)
  then have "sorted_wrt (<) (map md_model_id (sort_key md_model_id ms))" by (simp only: strict_sorted_iff sorted_sort_key)
  then show ?thesis unfolding k by (rule sp)
qed

lemma pairs_of_sorted:
  assumes "sorted_wrt (<) (map pv_provider_id ds)" "\<forall>d \<in> set ds. distinct (map md_model_id (f d))"
  shows "sorted_wrt (<) (map pair_key (concat (map (\<lambda>d. map (Pair d) (sort_key md_model_id (f d))) ds)))"
  using assms
proof (induction ds)
  case (Cons d ds)
  let ?here = "map pair_key (map (Pair d) (sort_key md_model_id (f d)))"
  let ?later = "map pair_key (concat (map (\<lambda>d. map (Pair d) (sort_key md_model_id (f d))) ds))"
  have h: "sorted_wrt (<) ?here" by (rule sorted_key_pairs) (use Cons.prems(2) in simp)
  have l: "sorted_wrt (<) ?later" by (rule Cons.IH) (use Cons.prems in simp_all)
  have later: "pv_provider_id d < fst x" if "x \<in> set ?later" for x
    using that Cons.prems(1) by (auto simp: pair_key_def)
  have here: "fst x = pv_provider_id d" if "x \<in> set ?here" for x
    using that by (auto simp: pair_key_def)
  have lt: "x < y" if "x \<in> set ?here" "y \<in> set ?later" for x y
    using later [OF that(2)] here [OF that(1)] by (simp add: less_prod_def')
  have "sorted_wrt (<) (?here @ ?later)" unfolding sorted_wrt_append using h l lt by blast
  then show ?case by (simp only: list.map concat.simps map_append)
qed simp

lemma registry_pairs:
  assumes "provider_inv reg"
  obtains pairs where "registered_pairs reg (list_provider_definitions reg) = Inr pairs" "set pairs = catalogue reg"
    "sorted (map pair_key pairs)" "distinct (map pair_key pairs)"
proof -
  let ?ds = "list_provider_definitions reg"
  let ?f = "\<lambda>d. rp_models (snd (the (tbl_get fst (pr_entries reg) (pv_provider_id d))))"
  have u: "tbl_unique fst (pr_entries reg)" using assms by (simp add: provider_inv_def)
  have i: "pv_provider_id (rp_definition e) = i \<and> distinct (map md_model_id (rp_models e))" if "(i, e) \<in> set (pr_entries reg)" for i e
    using assms that by (auto simp: provider_inv_def)
  have get: "tbl_get fst (pr_entries reg) (pv_provider_id (rp_definition e)) = Some (i, e)" if "(i, e) \<in> set (pr_entries reg)" for i e
    using tbl_get_mem [OF u that] i [OF that] by simp
  have ds: "set ?ds = (\<lambda>(i, e). rp_definition e) ` set (pr_entries reg)"
    by (auto simp: list_provider_definitions_def)
  have "map pv_provider_id (map (\<lambda>(i, e). rp_definition e) (pr_entries reg)) = map fst (pr_entries reg)"
    using i by auto
  then have "distinct (map pv_provider_id (map (\<lambda>(i, e). rp_definition e) (pr_entries reg)))"
    using u by (simp only: tbl_unique_def)
  then have dd: "distinct (map pv_provider_id ?ds)"
    by (simp only: list_provider_definitions_def distinct_map distinct_sort set_sort)
  have known: "\<forall>d \<in> set ?ds. \<exists>e. tbl_get fst (pr_entries reg) (pv_provider_id d) = Some (pv_provider_id d, e)"
    using ds get i by fastforce
  have dm: "\<forall>d \<in> set ?ds. distinct (map md_model_id (?f d))" using ds get i by fastforce
  note p = registered_pairs_total [OF assms known]
  have set_pairs: "set (concat (map (\<lambda>d. map (Pair d) (sort_key md_model_id (?f d))) ?ds)) = catalogue reg" (is "?L = _")
  proof (rule set_eqI)
    fix p
    have "p \<in> ?L \<longleftrightarrow> (\<exists>d \<in> set ?ds. fst p = d \<and> snd p \<in> set (?f d))" by (cases p) (auto simp: image_iff)
    also have "\<dots> \<longleftrightarrow> (\<exists>(i, e) \<in> set (pr_entries reg). fst p = rp_definition e \<and> snd p \<in> set (?f (rp_definition e)))"
      unfolding ds by (auto split: prod.splits)
    also have "\<dots> \<longleftrightarrow> (\<exists>(i, e) \<in> set (pr_entries reg). fst p = rp_definition e \<and> snd p \<in> set (rp_models e))"
      using get by (fastforce split: prod.splits)
    also have "\<dots> \<longleftrightarrow> p \<in> catalogue reg" by (cases p) (auto simp: catalogue_def)
    finally show "p \<in> ?L \<longleftrightarrow> p \<in> catalogue reg" .
  qed
  have "sorted_wrt (<) (map pv_provider_id ?ds)" using list_definitions_sorted dd by (simp only: strict_sorted_iff)
  note sorted = pairs_of_sorted [OF this dm, unfolded strict_sorted_iff]
  show thesis by (rule that [OF p set_pairs]) (use sorted in \<open>simp_all only: conj_absorb\<close>)
qed

lemma apply_optimization_set:
  "c \<in> set (apply_optimization es opt) \<longleftrightarrow> c \<in> set es \<and>
    (opt = LOWEST_COST \<longrightarrow> (\<exists>x. ce_trusted_cost c = Some x \<and> (\<forall>c' \<in> set es. \<forall>y. ce_trusted_cost c' = Some y \<longrightarrow> x \<le> y)))"
proof (cases opt)
  case LOWEST_COST
  let ?known = "filter (\<lambda>c. ce_trusted_cost c \<noteq> None) es"
  let ?costs = "set (map (\<lambda>c. the (ce_trusted_cost c)) ?known)"
  have in_costs: "y \<in> ?costs \<longleftrightarrow> (\<exists>c \<in> set es. ce_trusted_cost c = Some y)" for y
    by (auto simp: image_iff)
  have m: "Min ?costs = x \<longleftrightarrow> x \<in> ?costs \<and> (\<forall>y \<in> ?costs. x \<le> y)" if "?known \<noteq> []" for x
  proof -
    have "?costs \<noteq> {}" using that by (metis list.map_disc_iff set_empty)
    then show ?thesis using Min_eq_iff [OF finite_set] by blast
  qed
  have m': "Min ?costs = x \<longleftrightarrow> (\<exists>c \<in> set es. ce_trusted_cost c = Some x) \<and> (\<forall>c' \<in> set es. \<forall>y. ce_trusted_cost c' = Some y \<longrightarrow> x \<le> y)"
    if "?known \<noteq> []" for x
    unfolding m [OF that] Ball_def in_costs by blast
  show ?thesis
  proof (cases "?known = []")
    case True
    then show ?thesis by (auto simp: apply_optimization_def LOWEST_COST Let_def filter_empty_conv)
  next
    case False
    have "c \<in> set (apply_optimization es opt) \<longleftrightarrow> c \<in> set es \<and> ce_trusted_cost c = Some (Min ?costs)"
      using False by (auto simp: apply_optimization_def LOWEST_COST Let_def)
    also have "\<dots> \<longleftrightarrow> c \<in> set es \<and> (\<exists>x. ce_trusted_cost c = Some x \<and> Min ?costs = x)" by auto
    also have "\<dots> \<longleftrightarrow> c \<in> set es \<and> (\<exists>x. ce_trusted_cost c = Some x \<and> (\<forall>c' \<in> set es. \<forall>y. ce_trusted_cost c' = Some y \<longrightarrow> x \<le> y))"
      using m' [OF False] by auto
    finally show ?thesis by (simp add: LOWEST_COST)
  qed
qed (simp add: apply_optimization_def)

lemma narrowed_preferred:
  assumes "set pairs = catalogue reg"
  shows "(\<exists>c. c \<in> set (apply_optimization (filter ce_eligible (map (evaluation_of q locality health cost deg) pairs)) opt) \<and> Q c) \<longleftrightarrow>
    (\<exists>p \<in> catalogue reg. preferred reg q locality health cost opt deg p \<and> Q (evaluation_of q locality health cost deg p))"
proof -
  let ?ev = "evaluation_of q locality health cost deg"
  let ?E = "filter ce_eligible (map ?ev pairs)"
  have all: "(\<forall>c \<in> set ?E. R c) \<longleftrightarrow> (\<forall>p \<in> catalogue reg. admissible q locality health cost deg p \<longrightarrow> R (evaluation_of q locality health cost deg p))" for R
    by (auto simp: assms evaluation_of_simps)
  have mem: "c \<in> set ?E \<longleftrightarrow> (\<exists>p \<in> catalogue reg. c = evaluation_of q locality health cost deg p \<and> admissible q locality health cost deg p)" for c
    by (auto simp: assms evaluation_of_simps)
  have pref: "preferred reg q locality health cost opt deg p \<longleftrightarrow> admissible q locality health cost deg p \<and>
      (opt = LOWEST_COST \<longrightarrow> (\<exists>x. ce_trusted_cost (?ev p) = Some x \<and> (\<forall>c' \<in> set ?E. \<forall>y. ce_trusted_cost c' = Some y \<longrightarrow> x \<le> y)))" for p
    unfolding all evaluation_of_simps preferred_def by blast
  have "c \<in> set (apply_optimization ?E opt) \<longleftrightarrow>
      (\<exists>p \<in> catalogue reg. c = ?ev p \<and> preferred reg q locality health cost opt deg p)" for c
    unfolding pref apply_optimization_set mem by (cases "opt = LOWEST_COST") (simp_all only: simp_thms, blast+)
  then show ?thesis by (simp only:) blast
qed

lemma hd_sort_key_least:
  fixes k :: "'a \<Rightarrow> 'b :: linorder"
  assumes "xs \<noteq> []"
  shows "hd (sort_key k xs) \<in> set xs \<and> (\<forall>y \<in> set xs. k (hd (sort_key k xs)) \<le> k y)"
proof -
  obtain z zs where z: "sort_key k xs = z # zs" using assms by (metis list.exhaust set_empty set_sort)
  have "set (z # zs) = set xs" unfolding z [symmetric] by simp
  moreover have "sorted (map k (z # zs))" unfolding z [symmetric] by simp
  ultimately show ?thesis unfolding z by auto
qed

lemma conclude_none:
  assumes "distinct (map ce_key es)" "apply_optimization (filter ce_eligible es) opt = []"
  shows "\<exists>r. conclude_routing es q opt deg = Inr r \<and> sl_evaluations r = es \<and> sl_selected r = None \<and> sl_status r = NO_ELIGIBLE_PROVIDER"
  using assms by (simp add: conclude_routing_def Let_def new_selection_result_def)

lemma conclude_some:
  assumes "distinct (map ce_key es)" "apply_optimization (filter ce_eligible es) opt \<noteq> []"
  defines "w \<equiv> hd (sort_key ce_key (apply_optimization (filter ce_eligible es) opt))"
  shows "\<exists>r s. conclude_routing es q opt deg = Inr r \<and> sl_evaluations r = es \<and> sl_selected r = Some s \<and> sl_status r = SELECTED \<and>
    (sr_provider_id s, sr_model_id s) = ce_key w"
proof -
  have "apply_optimization [] opt = []" by (cases opt) (simp_all add: apply_optimization_def)
  then have e: "filter ce_eligible es \<noteq> []" using assms(2) by metis
  have "w \<in> set (apply_optimization (filter ce_eligible es) opt)" unfolding w_def using hd_sort_key_least [OF assms(2)] by blast
  then have w: "w \<in> set es" "ce_eligible w" by (auto simp: apply_optimization_set)
  obtain x xs where f: "filter (\<lambda>e. ce_key e = ce_key w) es = x # xs"
    using w(1) by (cases "filter (\<lambda>e. ce_key e = ce_key w) es") (auto simp: filter_empty_conv)
  have "x \<in> set es \<and> ce_key x = ce_key w" using arg_cong [OF f, of set] by auto
  then have "x = w" using w(1) assms(1) by (metis distinct_map inj_on_def)
  then have f': "filter (\<lambda>e. ce_key e = (ce_provider_id w, ce_model_id w)) es = w # xs" using f by (simp add: ce_key_def)
  show ?thesis using assms(1,2) e f' w(2)
    by (simp add: conclude_routing_def Let_def new_selection_result_def w_def [symmetric]) (simp add: ce_key_def)
qed

section \<open>Properties\<close>

text \<open>C19: routing is exact. Over a registry built by registration a call always returns, evaluates every registered
  model once in the order of the identities, and selects the least identity among the preferred
  candidates: those every hard constraint admits and, under the lowest-cost policy, whose known cost no
  admissible candidate undercuts. It selects nothing exactly when there is none; so under the lowest-cost policy it
  selects nothing when no admissible candidate has a known cost, as \<open>_apply_optimization\<close> documents and against the
  docstring of \<open>OptimizationPolicy\<close>, which promises a choice among the unchanged eligible candidates.\<close>

theorem routing_exact:
  assumes "provider_inv reg"
  shows "\<exists>r. route_providers reg q locality health cost opt deg = Inr r \<and>
    set (map ce_key (sl_evaluations r)) = pair_key ` catalogue reg \<and> sorted (map ce_key (sl_evaluations r)) \<and>
    distinct (map ce_key (sl_evaluations r)) \<and>
    (case sl_selected r of
       None \<Rightarrow> sl_status r = NO_ELIGIBLE_PROVIDER \<and> (\<forall>p \<in> catalogue reg. \<not> preferred reg q locality health cost opt deg p)
     | Some s \<Rightarrow> sl_status r = SELECTED \<and> (\<exists>p \<in> catalogue reg. preferred reg q locality health cost opt deg p \<and>
         pair_key p = (sr_provider_id s, sr_model_id s) \<and>
         (\<forall>p' \<in> catalogue reg. preferred reg q locality health cost opt deg p' \<longrightarrow> pair_key p \<le> pair_key p'))) \<and>
    (opt = LOWEST_COST \<longrightarrow> (\<forall>p \<in> catalogue reg. admissible q locality health cost deg p \<longrightarrow> snapshot_get cost (pair_key p) = None) \<longrightarrow>
       sl_selected r = None)"
proof -
  have unpriced: "\<not> preferred reg q locality health cost opt deg p"
    if "opt = LOWEST_COST" "\<forall>p \<in> catalogue reg. admissible q locality health cost deg p \<longrightarrow> snapshot_get cost (pair_key p) = None" "p \<in> catalogue reg" for p
    using that by (auto simp: preferred_def)
  obtain pairs where p: "registered_pairs reg (list_provider_definitions reg) = Inr pairs" "set pairs = catalogue reg"
    "sorted (map pair_key pairs)" "distinct (map pair_key pairs)" by (rule registry_pairs [OF assms])
  let ?ev = "evaluation_of q locality health cost deg"
  define es where "es = map ?ev pairs"
  let ?n = "apply_optimization (filter ce_eligible es) opt"
  have keys: "map ce_key es = map pair_key pairs" by (simp add: es_def evaluation_of_simps)
  have route: "route_providers reg q locality health cost opt deg = map_sum Routing_Value id (conclude_routing es q opt deg)"
    using p(1) by (simp add: route_providers_def evaluate_all_total es_def)
  have d: "distinct (map ce_key es)" "sorted (map ce_key es)" "set (map ce_key es) = pair_key ` catalogue reg"
    using p(2-4) unfolding keys by simp_all
  note pref = narrowed_preferred [OF p(2), of q locality health cost deg opt, folded es_def]
  show ?thesis
  proof (cases "?n = []")
    case True
    have "\<forall>p \<in> catalogue reg. \<not> preferred reg q locality health cost opt deg p" using pref [of "\<lambda>_. True"] True by simp
    moreover obtain r where "conclude_routing es q opt deg = Inr r" "sl_evaluations r = es" "sl_selected r = None" "sl_status r = NO_ELIGIBLE_PROVIDER"
      using conclude_none [OF d(1) True, of q deg] by blast
    ultimately show ?thesis using route d by simp
  next
    case False
    let ?w = "hd (sort_key ce_key ?n)"
    note w = hd_sort_key_least [OF False, of ce_key]
    obtain c where c: "c \<in> catalogue reg" "preferred reg q locality health cost opt deg c" "?ev c = ?w"
      using w pref [of "\<lambda>x. x = ?w"] by auto
    then have k: "pair_key c = ce_key ?w" by (metis evaluation_of_simps(1))
    have least: "\<forall>p' \<in> catalogue reg. preferred reg q locality health cost opt deg p' \<longrightarrow> pair_key c \<le> pair_key p'"
      using w pref [of "\<lambda>x. \<not> pair_key c \<le> ce_key x"] k evaluation_of_simps(1) by metis
    obtain r s where "conclude_routing es q opt deg = Inr r" "sl_evaluations r = es" "sl_selected r = Some s" "sl_status r = SELECTED"
      "(sr_provider_id s, sr_model_id s) = ce_key ?w" using conclude_some [OF d(1) False, of q deg] by blast
    moreover have "pair_key c = (sr_provider_id s, sr_model_id s)" using k calculation(5) by simp
    then have "\<exists>p \<in> catalogue reg. preferred reg q locality health cost opt deg p \<and> pair_key p = (sr_provider_id s, sr_model_id s) \<and>
      (\<forall>p' \<in> catalogue reg. preferred reg q locality health cost opt deg p' \<longrightarrow> pair_key p \<le> pair_key p')"
      using c(1,2) least by blast
    moreover have "\<not> (opt = LOWEST_COST \<and> (\<forall>p \<in> catalogue reg. admissible q locality health cost deg p \<longrightarrow> snapshot_get cost (pair_key p) = None))"
      using unpriced c(1,2) by blast
    ultimately show ?thesis unfolding route using d by auto
  qed
qed

text \<open>A registry with one local, healthy provider.\<close>

definition sample_provider :: provider_definition where
  "sample_provider = \<lparr>pv_provider_id = ''local'', pv_display_name = ''Local'', pv_provider_type = ''ollama'', pv_enabled = True,
     pv_capabilities = {TEXT_GENERATION, CODING}, pv_privacy_classification = ''PRIVATE'', pv_metadata = []\<rparr>"

definition sample_model :: model_definition where
  "sample_model = \<lparr>md_model_id = ''small'', md_provider_id = ''local'', md_display_name = ''Small'',
     md_capabilities = {TEXT_GENERATION}, md_context_window = Some 8192, md_supports_structured_output = False,
     md_supports_streaming = True, md_metadata = []\<rparr>"

definition sample_registry :: provider_registry where
  "sample_registry = \<lparr>pr_entries = [(''local'', \<lparr>rp_definition = sample_provider, rp_models = [sample_model]\<rparr>)],
     pr_models = [((''local'', ''small''), sample_model)]\<rparr>"

definition sample_routing_request :: routing_request where
  "sample_routing_request = \<lparr>rq_routing_request_id = ''r1'', rq_required_capabilities = {TEXT_GENERATION},
     rq_privacy_requirement = LOCAL_ONLY, rq_max_estimated_cost = Some 2, rq_allowed_provider_ids = None,
     rq_denied_provider_ids = []\<rparr>"

lemma sample_registry_inv: "provider_inv sample_registry"
proof -
  have "register_provider empty_provider_registry sample_provider [sample_model] = Inr sample_registry"
    by (simp add: register_provider_def provider_contains_def empty_provider_registry_def sample_provider_def
      sample_model_def sample_registry_def tbl_put_def Let_def)
  then show ?thesis by (rule register_provider_inv [OF empty_provider_registry_inv])
qed

lemma sample_preferred:
  "(sample_provider, sample_model) \<in> catalogue sample_registry \<and>
   preferred sample_registry sample_routing_request [(''local'', LOCAL)] [(''local'', HEALTHY)] [((''local'', ''small''), 1)] LOWEST_COST
     False (sample_provider, sample_model)"
  by (auto simp: catalogue_def preferred_def admissible_def snapshot_get_def pair_key_def sample_registry_def
      sample_routing_request_def sample_provider_def sample_model_def Let_def tbl_get_Cons)

lemma routing_exact_witness:
  "provider_inv sample_registry \<and>
   (\<exists>r. route_providers sample_registry sample_routing_request [(''local'', LOCAL)] [(''local'', HEALTHY)]
      [((''local'', ''small''), 1)] LOWEST_COST False = Inr r \<and> sl_status r = SELECTED)"
  using routing_exact [OF sample_registry_inv, of sample_routing_request "[(''local'', LOCAL)]" "[(''local'', HEALTHY)]"
      "[((''local'', ''small''), 1)]" LOWEST_COST False] sample_preferred sample_registry_inv
  by (auto split: option.splits)

end
