(* ===== verification/Agent_Identity.thy ===== *)
theory Agent_Identity
  imports Provider_Contracts Canonical_Json Identity_Registry
begin

text \<open>
  \<open>app/agent_identity/contracts.py\<close> and \<open>registry.py\<close>: the record that names an agent, the bounded walk that admits its
  metadata, and the registry that pins it. Metadata is JSON; a value of another Python type cannot be
  written down here. A frozen container is the value it holds. A frozenset of ids is the list of its
  elements in the order Python iterates over it.
\<close>

section \<open>Text policies\<close>

definition ascii_alnum :: "char \<Rightarrow> bool" where
  "ascii_alnum c = (let n = of_char c :: nat in 48 \<le> n \<and> n \<le> 57 \<or> 65 \<le> n \<and> n \<le> 90 \<or> 97 \<le> n \<and> n \<le> 122)"

definition agent_id_pattern :: "string \<Rightarrow> bool" where
  "agent_id_pattern s = (s \<noteq> [] \<and> ascii_alnum (hd s) \<and> ascii_alnum (last s) \<and>
     list_all (\<lambda>c. ascii_alnum c \<or> c \<in> set ''._:-'') s)"

text \<open>Below U+0100 the categories Cc, Zl and Zp are the two blocks of control characters.\<close>

definition unsafe_char :: "char \<Rightarrow> bool" where
  "unsafe_char c = (let n = of_char c :: nat in n < 32 \<or> 127 \<le> n \<and> n < 160)"

definition has_unsafe_chars :: "string \<Rightarrow> string \<Rightarrow> bool" where
  "has_unsafe_chars value allowed = list_ex (\<lambda>c. c \<notin> set allowed \<and> unsafe_char c) value"

section \<open>Metadata keys\<close>

definition camel_boundary :: "char \<Rightarrow> char \<Rightarrow> bool" where
  "camel_boundary c d = (let m = of_char c :: nat; n = of_char d :: nat in
     (48 \<le> m \<and> m \<le> 57 \<or> 97 \<le> m \<and> m \<le> 122) \<and> 65 \<le> n \<and> n \<le> 90)"

fun split_camel :: "string \<Rightarrow> string" where
  "split_camel (c # d # s) = (if camel_boundary c d then c # CHR ''_'' # split_camel (d # s) else c # split_camel (d # s))"
| "split_camel s = s"

text \<open>\<open>re.split\<close> on runs of characters outside \<open>[a-z0-9]\<close>, without the empty pieces: the maximal runs inside it.\<close>

definition lower_alnum :: "char \<Rightarrow> bool" where
  "lower_alnum c = (let n = of_char c :: nat in 48 \<le> n \<and> n \<le> 57 \<or> 97 \<le> n \<and> n \<le> 122)"

definition key_tokens :: "string \<Rightarrow> string list" where
  "key_tokens key = filter (\<lambda>t. t \<noteq> [])
     (split_on (CHR ''_'') (map (\<lambda>c. if lower_alnum c then c else CHR ''_'') (py_lower (split_camel key))))"

definition contains_run :: "string list \<Rightarrow> string list \<Rightarrow> bool" where
  "contains_run tokens run = list_ex (\<lambda>i. take (length run) (drop i tokens) = run) [0..<length tokens + 1 - length run]"

definition reserved_metadata_terms :: "string list list" where
  "reserved_metadata_terms = map (split_on (CHR ''_''))
     [''permission'', ''permissions'', ''approval'', ''approvals'', ''approve'', ''approved'', ''approver'',
      ''authority'', ''authorities'', ''authorize'', ''authorized'', ''authorization'',
      ''admin'', ''superuser'', ''execute'', ''executable'',
      ''can_spend'', ''business_spend'', ''tool_access'', ''delegation'', ''delegate'',
      ''credential'', ''credentials'', ''secret'', ''secrets'', ''token'', ''tokens'',
      ''api_key'', ''apikey'', ''access_key'', ''private_key'', ''password'', ''passwords'', ''passwd'', ''bearer'']"

definition canonical_field_shadows :: "string list list" where
  "canonical_field_shadows = map (split_on (CHR ''_''))
     [''agent_id'', ''display_name'', ''role'', ''description'', ''enabled'', ''active'', ''disabled'',
      ''preferred_provider_ids'', ''required_capabilities'', ''metadata'', ''created_at'']"

definition max_metadata_key_length :: nat where
  "max_metadata_key_length = 256"

definition check_metadata_key :: "string \<Rightarrow> string + unit" where
  "check_metadata_key key =
     (if py_strip key = [] \<or> max_metadata_key_length < length key \<or> has_unsafe_chars key [] then
        Inl ''metadata keys must be non-blank, bounded, and free of control characters''
      else if key_tokens key \<in> set canonical_field_shadows then Inl ''metadata key shadows a canonical AgentDefinition field''
      else if list_ex (contains_run (key_tokens key)) reserved_metadata_terms then Inl ''metadata key is security-shaped''
      else Inr ())"

section \<open>Metadata values\<close>

definition max_metadata_depth :: nat where
  "max_metadata_depth = 8"

definition max_metadata_nodes :: int where
  "max_metadata_nodes = 1024"

definition max_metadata_string_length :: nat where
  "max_metadata_string_length = 4096"

definition float_finite :: "string \<Rightarrow> bool" where
  "float_finite r = (r \<notin> {''NaN'', ''Infinity'', ''-Infinity''})"

text \<open>The walk threads what is left of the entry budget, which the source keeps in a one-element list. The
  frozen value is the value itself, so only the budget is returned.\<close>

fun freeze_metadata_value :: "json \<Rightarrow> nat \<Rightarrow> int \<Rightarrow> string + int"
  and freeze_items :: "json list \<Rightarrow> nat \<Rightarrow> int \<Rightarrow> string + int"
  and freeze_members :: "(string \<times> json) list \<Rightarrow> nat \<Rightarrow> int \<Rightarrow> string + int" where
  "freeze_metadata_value value depth budget = (let left = budget - 1 in
     if left < 0 then Inl ''metadata must not exceed 1024 total entries''
     else if max_metadata_depth < depth then Inl ''metadata must not nest deeper than 8 levels''
     else (case value of
         JNull \<Rightarrow> Inr left
       | JBool _ \<Rightarrow> Inr left
       | JInt _ \<Rightarrow> Inr left
       | JFloat r \<Rightarrow> if \<not> float_finite r then Inl ''metadata floats must be finite'' else Inr left
       | JStr s \<Rightarrow> if max_metadata_string_length < length s then Inl ''metadata strings must not exceed 4096 characters'' else Inr left
       | JObj kvs \<Rightarrow> freeze_members kvs (depth + 1) left
       | JArr vs \<Rightarrow> freeze_items vs (depth + 1) left))"
| "freeze_items [] depth budget = Inr budget"
| "freeze_items (v # vs) depth budget = bind_sum (freeze_metadata_value v depth budget) (freeze_items vs depth)"
| "freeze_members [] depth budget = Inr budget"
| "freeze_members ((k, v) # kvs) depth budget = bind_sum (check_metadata_key k) (\<lambda>_.
     bind_sum (freeze_metadata_value v depth budget) (freeze_members kvs depth))"

declare freeze_metadata_value.simps [simp del]

section \<open>The agent definition\<close>

record agent_definition =
  ag_agent_id :: string
  ag_display_name :: string
  ag_role :: string
  ag_description :: "string option"
  ag_enabled :: bool
  ag_preferred_provider_ids :: "string list"
  ag_required_capabilities :: "provider_capability set"
  ag_metadata :: "(string \<times> json) list"
  ag_created_at :: datetime

definition max_preferred_provider_ids :: nat where
  "max_preferred_provider_ids = 256"

definition validate_agent_id :: "string \<Rightarrow> string + unit" where
  "validate_agent_id value = bind_sum (validate_identifier value) (\<lambda>_.
     if \<not> agent_id_pattern value then Inl (''agent_id must be ASCII letters/digits separated by '' @ quoted ''.'' @ '', '' @
       quoted ''_'' @ '', '' @ quoted '':'' @ '' or '' @ quoted ''-'' @ '', starting and ending with a letter or digit'') else Inr ())"

definition validate_label :: "string \<Rightarrow> string + unit" where
  "validate_label value = bind_sum (validate_display_name value) (\<lambda>_.
     if has_unsafe_chars value [] then Inl ''must not contain control or line-separator characters'' else Inr ())"

definition validate_description :: "string option \<Rightarrow> string + unit" where
  "validate_description d = (case d of None \<Rightarrow> Inr ()
     | Some value \<Rightarrow> bind_sum (validate_display_name value) (\<lambda>_.
         if has_unsafe_chars value [char_of (10 :: nat), char_of (9 :: nat)]
         then Inl ''must not contain control characters other than newline/tab'' else Inr ()))"

fun validate_each :: "string list \<Rightarrow> string + unit" where
  "validate_each [] = Inr ()"
| "validate_each (v # vs) = bind_sum (validate_identifier v) (\<lambda>_. validate_each vs)"

definition validate_preferred_provider_ids :: "string list \<Rightarrow> string + unit" where
  "validate_preferred_provider_ids vs =
     (if max_preferred_provider_ids < length vs then Inl ''must not exceed 256 entries'' else validate_each vs)"

definition min_length_one :: "string \<Rightarrow> (string \<Rightarrow> string + unit) \<Rightarrow> string + unit" where
  "min_length_one value check = (if value = [] then Inl ''String should have at least 1 character'' else check value)"

definition new_agent_definition :: "agent_definition \<Rightarrow> validation_error + agent_definition" where
  "new_agent_definition a = validated
     (field_error ''agent_id'' (min_length_one (ag_agent_id a) validate_agent_id) @
      field_error ''display_name'' (min_length_one (ag_display_name a) validate_label) @
      field_error ''role'' (min_length_one (ag_role a) validate_label) @
      field_error ''description'' (validate_description (ag_description a)) @
      field_error ''preferred_provider_ids'' (validate_preferred_provider_ids (ag_preferred_provider_ids a)) @
      field_error ''metadata'' (freeze_metadata_value (JObj (ag_metadata a)) 0 (max_metadata_nodes + 1))) a"

section \<open>The registry\<close>

datatype agent_error = DuplicateAgentError string | UnknownAgentError string | DisabledAgentError string | InvalidAgentError

type_synonym agent_registry = "(string \<times> agent_definition) list"

text \<open>\<open>_pin_snapshot\<close>: the record is rebuilt through its constructor.\<close>

definition pin_snapshot :: "agent_definition \<Rightarrow> agent_error + agent_definition" where
  "pin_snapshot a = (case new_agent_definition a of Inl _ \<Rightarrow> Inl InvalidAgentError | Inr s \<Rightarrow> Inr s)"

definition agent_contains :: "agent_registry \<Rightarrow> string \<Rightarrow> bool" where
  "agent_contains reg i = (tbl_get fst reg i \<noteq> None)"

definition register_agent :: "agent_registry \<Rightarrow> agent_definition \<Rightarrow> agent_error + agent_registry" where
  "register_agent reg a = bind_sum (pin_snapshot a) (\<lambda>s.
     if agent_contains reg (ag_agent_id s) then Inl (DuplicateAgentError (ag_agent_id s))
     else Inr (tbl_put fst reg (ag_agent_id s, s)))"

definition agent_lookup :: "agent_registry \<Rightarrow> string \<Rightarrow> agent_error + agent_definition" where
  "agent_lookup reg i = (case tbl_get fst reg i of None \<Rightarrow> Inl (UnknownAgentError i) | Some e \<Rightarrow> Inr (snd e))"

definition get_active_agent :: "agent_registry \<Rightarrow> string \<Rightarrow> agent_error + agent_definition" where
  "get_active_agent reg i = bind_sum (agent_lookup reg i) (\<lambda>a. if \<not> ag_enabled a then Inl (DisabledAgentError i) else Inr a)"

definition list_agent_definitions :: "agent_registry \<Rightarrow> agent_definition list" where
  "list_agent_definitions reg = sort_key ag_agent_id (map snd reg)"

definition list_enabled_agents :: "agent_registry \<Rightarrow> agent_definition list" where
  "list_enabled_agents reg = filter ag_enabled (list_agent_definitions reg)"

section \<open>What the metadata walk admits\<close>

text \<open>All values inside a value, with their depth.\<close>

primrec json_subvalues :: "json \<Rightarrow> nat \<Rightarrow> (nat \<times> json) list" where
  "json_subvalues JNull d = [(d, JNull)]"
| "json_subvalues (JBool b) d = [(d, JBool b)]"
| "json_subvalues (JInt i) d = [(d, JInt i)]"
| "json_subvalues (JFloat r) d = [(d, JFloat r)]"
| "json_subvalues (JStr s) d = [(d, JStr s)]"
| "json_subvalues (JArr vs) d = (d, JArr vs) # concat (map (\<lambda>f. f (Suc d)) (map json_subvalues vs))"
| "json_subvalues (JObj kvs) d = (d, JObj kvs) # concat (map (\<lambda>p. snd p (Suc d)) (map (map_prod id json_subvalues) kvs))"

definition admitted_value :: "nat \<times> json \<Rightarrow> bool" where
  "admitted_value x = (fst x \<le> max_metadata_depth \<and> (case snd x of
     JFloat r \<Rightarrow> float_finite r
   | JStr s \<Rightarrow> length s \<le> max_metadata_string_length
   | JObj kvs \<Rightarrow> list_all (\<lambda>(k, _). is_ok (check_metadata_key k)) kvs
   | _ \<Rightarrow> True))"

definition walk_result :: "(nat \<times> json) list \<Rightarrow> bool \<Rightarrow> int \<Rightarrow> string + int \<Rightarrow> bool" where
  "walk_result sub keys_ok b r = (\<forall>b'. r = Inr b' \<longleftrightarrow> keys_ok \<and> list_all admitted_value sub \<and> b' = b - int (length sub) \<and> 0 \<le> b')"

lemma walk_result_append:
  assumes "walk_result xs k b r" "\<And>b'. 0 \<le> b' \<Longrightarrow> walk_result ys k' b' (f b')"
  shows "walk_result (xs @ ys) (k \<and> k') b (bind_sum r f)"
  using assms unfolding walk_result_def bind_sum_InrE by (auto 0 3)

lemma freeze_walk:
  "0 \<le> b \<Longrightarrow> walk_result (json_subvalues v d) True b (freeze_metadata_value v d b)"
  "0 \<le> b \<Longrightarrow> walk_result (concat (map (\<lambda>v. json_subvalues v d) vs)) True b (freeze_items vs d b)"
  "0 \<le> b \<Longrightarrow> walk_result (concat (map (\<lambda>kv. json_subvalues (snd kv) d) kvs)) (list_all (\<lambda>(k, _). is_ok (check_metadata_key k)) kvs) b (freeze_members kvs d b)"
proof (induction v d b and vs d b and kvs d b rule: freeze_metadata_value_freeze_items_freeze_members.induct)
  case (1 v d b)
  then show ?case
    by (cases v) (auto simp: freeze_metadata_value.simps walk_result_def admitted_value_def Let_def comp_def)
next
  case (3 v vs d b)
  then show ?case using walk_result_append [OF "3.IH"(1) "3.IH"(2)] by simp
next
  case (5 k v kvs d b)
  show ?case
  proof (cases "check_metadata_key k")
    case (Inr u)
    show ?thesis using walk_result_append [OF "5.IH"(1) "5.IH"(2)] Inr 5 by (simp add: is_ok_def)
  qed (simp add: walk_result_def is_ok_def)
qed (auto simp: walk_result_def)

lemma metadata_walk_exact:
  "is_ok (freeze_metadata_value (JObj m) 0 (max_metadata_nodes + 1)) \<longleftrightarrow>
     list_all admitted_value (json_subvalues (JObj m) 0) \<and> int (length (json_subvalues (JObj m) 0)) \<le> max_metadata_nodes + 1"
  using freeze_walk(1) [of "max_metadata_nodes + 1" "JObj m" 0]
  unfolding walk_result_def is_ok_iff by (auto simp: max_metadata_nodes_def)

lemma validated_Inr_iff [simp]: "validated es x = Inr y \<longleftrightarrow> es = [] \<and> y = x"
  by (auto simp: validated_def)

lemma field_error_Nil_iff [simp]: "field_error f r = [] \<longleftrightarrow> is_ok r"
  by (simp add: field_error_def is_ok_def split: sum.splits)

lemma new_agent_definition_OkD:
  assumes "new_agent_definition a = Inr s"
  shows "s = a" "agent_id_pattern (ag_agent_id a)" "length (ag_agent_id a) \<le> max_identifier_length"
    "list_all admitted_value (json_subvalues (JObj (ag_metadata a)) 0)"
    "int (length (json_subvalues (JObj (ag_metadata a)) 0)) \<le> max_metadata_nodes + 1"
proof -
  note n = assms [unfolded new_agent_definition_def, simplified metadata_walk_exact validated_Inr_iff append_is_Nil_conv field_error_Nil_iff]
  show "s = a" "list_all admitted_value (json_subvalues (JObj (ag_metadata a)) 0)"
    "int (length (json_subvalues (JObj (ag_metadata a)) 0)) \<le> max_metadata_nodes + 1" using n by simp_all
  have "is_ok (min_length_one (ag_agent_id a) validate_agent_id)" using n by simp
  then show "agent_id_pattern (ag_agent_id a)" "length (ag_agent_id a) \<le> max_identifier_length"
    by (auto simp: min_length_one_def validate_agent_id_def validate_identifier_def is_ok_def bind_sum_def split: if_splits sum.splits)
qed

lemma register_agent_Inr_iff: "register_agent reg a = Inr reg' \<longleftrightarrow>
    new_agent_definition a = Inr a \<and> tbl_get fst reg (ag_agent_id a) = None \<and> reg' = tbl_put fst reg (ag_agent_id a, a)"
proof (cases "new_agent_definition a")
  case (Inr s)
  then have "s = a" by (rule new_agent_definition_OkD(1))
  then show ?thesis by (cases "tbl_get fst reg (ag_agent_id a)") (auto simp: register_agent_def pin_snapshot_def agent_contains_def Inr)
qed (simp add: register_agent_def pin_snapshot_def)

interpretation agents: identity_registry "\<lambda>reg i. map_option snd (tbl_get fst reg i)" register_agent ag_agent_id "\<lambda>a. a"
    "\<lambda>a. is_ok (new_agent_definition a)"
proof unfold_locales
  fix reg a reg' i
  assume "register_agent reg a = Inr reg'"
  then show "map_option snd (tbl_get fst reg' i) = (if i = ag_agent_id a then Some a else map_option snd (tbl_get fst reg i))"
    by (auto simp: register_agent_Inr_iff tbl_get_put)
next
  fix reg a
  show "(\<exists>reg'. register_agent reg a = Inr reg') \<longleftrightarrow>
      is_ok (new_agent_definition a) \<and> map_option snd (tbl_get fst reg (ag_agent_id a)) = None"
    by (auto simp: register_agent_Inr_iff is_ok_iff dest: new_agent_definition_OkD(1))
qed

section \<open>Properties\<close>

text \<open>C21: agent identities are well formed and pinned. Whatever registrations were tried, an identity that is known
  belongs to a record some caller offered under that name, its name and every key and value of its
  metadata, at any depth, satisfy the policy, and no later registration changes it.\<close>

theorem agent_identity_pinned:
  assumes "agent_lookup (attempts register_agent [] offered) i = Inr a"
  shows "a \<in> set offered \<and> ag_agent_id a = i \<and> agent_id_pattern i \<and> length i \<le> max_identifier_length \<and>
    list_all admitted_value (json_subvalues (JObj (ag_metadata a)) 0) \<and>
    int (length (json_subvalues (JObj (ag_metadata a)) 0)) \<le> max_metadata_nodes + 1 \<and>
    agent_lookup (attempts register_agent (attempts register_agent [] offered) later) i = Inr a"
proof -
  have lk: "agent_lookup reg i = Inr a \<longleftrightarrow> map_option snd (tbl_get fst reg i) = Some a" for reg
    by (auto simp: agent_lookup_def split: option.splits)
  have "List.find (\<lambda>v. is_ok (new_agent_definition v) \<and> ag_agent_id v = i) offered = Some a"
    using assms agents.first_wins [of "[]" offered i] by (simp add: lk)
  then have a: "a \<in> set offered" "is_ok (new_agent_definition a)" "ag_agent_id a = i" by (auto dest: find_Some_mem)
  then obtain s where "new_agent_definition a = Inr s" by (auto simp: is_ok_iff)
  from new_agent_definition_OkD [OF this] show ?thesis
    using a agents.identity_stable assms unfolding lk by blast
qed

definition sample_agent :: agent_definition where
  "sample_agent = \<lparr>ag_agent_id = ''jarvis.ceo'', ag_display_name = ''Jarvis'', ag_role = ''CEO'', ag_description = None,
     ag_enabled = True, ag_preferred_provider_ids = [''local''], ag_required_capabilities = {REASONING},
     ag_metadata = [(''team'', JObj [(''size'', JInt 3)])], ag_created_at = 0\<rparr>"

lemma agent_identity_pinned_witness:
  "agent_lookup (attempts register_agent [] [sample_agent]) ''jarvis.ceo'' = Inr sample_agent \<and>
   agent_lookup (attempts register_agent (attempts register_agent [] [sample_agent]) [sample_agent\<lparr>ag_role := ''Intern''\<rparr>])
     ''jarvis.ceo'' = Inr sample_agent"
proof -
  have "agent_lookup (attempts register_agent [] [sample_agent]) ''jarvis.ceo'' = Inr sample_agent" by code_simp
  with agent_identity_pinned [OF this] show ?thesis by blast
qed

end
