(* ===== verification/Authority.thy ===== *)
theory Authority
  imports Agent_Identity
begin

text \<open>
  \<open>app/authority_contracts/contracts.py\<close> and \<open>algebra.py\<close>: scopes of authority as validated records, and the order
  and the meet on them. A value whose fields do not satisfy the constructor can still be written down (the
  source speaks of tampered records), so the algebra is modelled on arbitrary records and revalidates them.
  A field of another Python type than declared cannot be written down.
\<close>

section \<open>Contracts\<close>

datatype principal_kind = HUMAN_OWNER | AGENT

datatype p_tier = P0 | P1 | P2 | P3 | P4 | P5

fun tier_rank :: "p_tier \<Rightarrow> nat" where
  "tier_rank P0 = 0" | "tier_rank P1 = 1" | "tier_rank P2 = 2" | "tier_rank P3 = 3" | "tier_rank P4 = 4" | "tier_rank P5 = 5"

definition tier_leq :: "p_tier \<Rightarrow> p_tier \<Rightarrow> bool" where
  "tier_leq a b = (tier_rank a \<le> tier_rank b)"

definition issuable_ceilings :: "p_tier set" where
  "issuable_ceilings = {P0, P1, P2, P3, P4}"

definition authority_scope_schema_version :: int where
  "authority_scope_schema_version = 1"

definition action_vocabulary_version :: int where
  "action_vocabulary_version = 1"

definition max_version :: int where
  "max_version = 2 ^ 63 - 1"

definition action_type_floor_v1 :: "(string \<times> p_tier) list" where
  "action_type_floor_v1 =
     [(''internal'', P0), (''no_op'', P0), (''manual'', P0), (''decision_only'', P0),
      (''read'', P1),
      (''internal_create'', P2), (''sandbox_create'', P2),
      (''external_modify'', P3),
      (''send'', P4), (''publish'', P4), (''delete'', P4),
      (''financial'', P5), (''install'', P5), (''privileged'', P5)]"

definition action_type_vocabulary :: "string set" where
  "action_type_vocabulary = set (map fst action_type_floor_v1)"

definition validate_id :: "string \<Rightarrow> string \<Rightarrow> string + string" where
  "validate_id value what = (case validate_identifier value of
     Inl _ \<Rightarrow> Inl (what @ '' is blank, too long, padded or contains control characters'')
   | Inr _ \<Rightarrow> if has_unsafe_chars value [] \<or> \<not> agent_id_pattern value
       then Inl (what @ '' must be ASCII letters/digits separated by '' @ quoted ''.'' @ '', '' @ quoted ''_'' @ '', '' @ quoted '':'' @
         '' or '' @ quoted ''-'' @ '', starting and ending with a letter or digit'')
       else Inr value)"

definition validate_version :: "int \<Rightarrow> string \<Rightarrow> string + int" where
  "validate_version value what = (if 1 \<le> value \<and> value \<le> max_version then Inr value else Inl (what @ '' must be a positive integer''))"

record principal_ref =
  pi_kind :: principal_kind
  pi_id :: string

record objective_ref =
  ob_objective_id :: string
  ob_objective_version :: int

text \<open>A datetime with whether its tzinfo is \<open>timezone.utc\<close>.\<close>

record zoned_datetime =
  zd_time :: datetime
  zd_utc :: bool

record authority_scope =
  sc_schema_version :: int
  sc_vocabulary_version :: int
  sc_permission_ceiling :: p_tier
  sc_action_types :: "string set"
  sc_objective_ref :: objective_ref
  sc_expires_at :: zoned_datetime

definition new_principal_ref :: "principal_ref \<Rightarrow> validation_error + principal_ref" where
  "new_principal_ref p = validated (field_error ''id'' (validate_id (pi_id p) ''principal id'')) p"

definition objective_errors :: "string \<Rightarrow> objective_ref \<Rightarrow> validation_error" where
  "objective_errors prefix r =
     field_error (prefix @ ''objective_id'') (validate_id (ob_objective_id r) ''objective_id'') @
     field_error (prefix @ ''objective_version'') (validate_version (ob_objective_version r) ''objective_version'')"

definition new_objective_ref :: "objective_ref \<Rightarrow> validation_error + objective_ref" where
  "new_objective_ref r = validated (objective_errors [] r) r"

definition check_ceiling :: "p_tier \<Rightarrow> string + unit" where
  "check_ceiling t = (if t \<notin> issuable_ceilings
     then Inl ''P5 is not issuable as an AuthorityScope ceiling in v0.2.5 (DA-03)'' else Inr ())"

text \<open>The tier check runs after the vocabulary check, and only if the ceiling was valid.\<close>

definition check_action_types :: "p_tier \<Rightarrow> string set \<Rightarrow> string + unit" where
  "check_action_types limit ts =
     (if ts = {} then Inl ''action_types must not be empty''
      else if \<not> ts \<subseteq> action_type_vocabulary then Inl ''action_types contains a value outside the pinned vocabulary''
      else if is_ok (check_ceiling limit) \<and> (\<exists>t \<in> ts. \<not> tier_leq (the (map_of action_type_floor_v1 t)) limit)
        then Inl ''an action type requires a higher tier than permission_ceiling''
      else Inr ())"

definition new_authority_scope :: "authority_scope \<Rightarrow> validation_error + authority_scope" where
  "new_authority_scope s = validated
     (field_error ''schema_version'' (if sc_schema_version s \<noteq> authority_scope_schema_version then Inl ''unsupported schema_version'' else Inr ()) @
      field_error ''vocabulary_version'' (if sc_vocabulary_version s \<noteq> action_vocabulary_version then Inl ''unsupported vocabulary_version'' else Inr ()) @
      field_error ''permission_ceiling'' (check_ceiling (sc_permission_ceiling s)) @
      field_error ''action_types'' (check_action_types (sc_permission_ceiling s) (sc_action_types s)) @
      objective_errors ''objective_ref.'' (sc_objective_ref s) @
      field_error ''expires_at'' (if \<not> zd_utc (sc_expires_at s)
        then Inl ''expires_at must be timezone-aware UTC (datetime.timezone.utc)'' else Inr ())) s"

section \<open>The algebra\<close>

datatype authority = NO_AUTHORITY | Scope authority_scope

text \<open>\<open>_revalidated\<close>: the nested reference is built first, so its errors come alone.\<close>

definition revalidated :: "authority_scope \<Rightarrow> validation_error + authority_scope" where
  "revalidated s = bind_sum (new_objective_ref (sc_objective_ref s)) (\<lambda>r. new_authority_scope (s\<lparr>sc_objective_ref := r\<rparr>))"

definition versions_match :: "authority_scope \<Rightarrow> authority_scope \<Rightarrow> bool" where
  "versions_match a b = (sc_schema_version a = sc_schema_version b \<and> sc_vocabulary_version a = sc_vocabulary_version b)"

fun leq :: "authority \<Rightarrow> authority \<Rightarrow> validation_error + bool" where
  "leq NO_AUTHORITY b = Inr True"
| "leq (Scope a) NO_AUTHORITY = Inr False"
| "leq (Scope a) (Scope b) = (if \<not> versions_match a b then Inr False
     else bind_sum (revalidated a) (\<lambda>a. bind_sum (revalidated b) (\<lambda>b. Inr
       (sc_objective_ref a = sc_objective_ref b \<and> tier_leq (sc_permission_ceiling a) (sc_permission_ceiling b) \<and>
        sc_action_types a \<subseteq> sc_action_types b \<and> zd_time (sc_expires_at a) \<le> zd_time (sc_expires_at b)))))"

fun meet :: "authority \<Rightarrow> authority \<Rightarrow> validation_error + authority" where
  "meet NO_AUTHORITY b = Inr NO_AUTHORITY"
| "meet (Scope a) NO_AUTHORITY = Inr NO_AUTHORITY"
| "meet (Scope a) (Scope b) = (if \<not> versions_match a b then Inr NO_AUTHORITY
     else bind_sum (revalidated a) (\<lambda>a. bind_sum (revalidated b) (\<lambda>b.
       if sc_objective_ref a \<noteq> sc_objective_ref b then Inr NO_AUTHORITY
       else if sc_action_types a \<inter> sc_action_types b = {} then Inr NO_AUTHORITY
       else map_sum id Scope (new_authority_scope \<lparr>sc_schema_version = sc_schema_version a, sc_vocabulary_version = sc_vocabulary_version a,
         sc_permission_ceiling = (if tier_leq (sc_permission_ceiling a) (sc_permission_ceiling b) then sc_permission_ceiling a else sc_permission_ceiling b),
         sc_action_types = sc_action_types a \<inter> sc_action_types b, sc_objective_ref = sc_objective_ref a,
         sc_expires_at = (if zd_time (sc_expires_at b) < zd_time (sc_expires_at a) then sc_expires_at b else sc_expires_at a)\<rparr>))))"

section \<open>Meet-semilattices with bottom\<close>

text \<open>The contract of an authority algebra over the values that satisfy \<open>valid\<close>.\<close>

locale meet_semilattice_bot =
  fixes valid :: "'a \<Rightarrow> bool" and below :: "'a \<Rightarrow> 'a \<Rightarrow> bool" and inf_of :: "'a \<Rightarrow> 'a \<Rightarrow> 'a" and least :: 'a
  assumes below_refl: "valid a \<Longrightarrow> below a a"
    and below_trans: "\<lbrakk>below a b; below b c\<rbrakk> \<Longrightarrow> below a c"
    and below_antisym: "\<lbrakk>below a b; below b a\<rbrakk> \<Longrightarrow> a = b"
    and least_valid: "valid least" and least_below: "below least a"
    and inf_valid: "\<lbrakk>valid a; valid b\<rbrakk> \<Longrightarrow> valid (inf_of a b)"
    and inf_below: "\<lbrakk>valid a; valid b\<rbrakk> \<Longrightarrow> below (inf_of a b) a \<and> below (inf_of a b) b"
    and inf_greatest: "\<lbrakk>valid a; valid b; below c a; below c b\<rbrakk> \<Longrightarrow> below c (inf_of a b)"
begin

lemma inf_comm: "\<lbrakk>valid a; valid b\<rbrakk> \<Longrightarrow> inf_of a b = inf_of b a"
  by (simp add: below_antisym inf_below inf_greatest)

lemma below_inf_iff:
  assumes "valid a" "valid b"
  shows "below c (inf_of a b) \<longleftrightarrow> below c a \<and> below c b"
  using inf_below [OF assms] inf_greatest [OF assms] below_trans [of c "inf_of a b"] by blast

lemma inf_assoc:
  assumes "valid a" "valid b" "valid c"
  shows "inf_of (inf_of a b) c = inf_of a (inf_of b c)"
proof (rule below_antisym)
  have e: "below x (inf_of (inf_of a b) c) \<longleftrightarrow> below x (inf_of a (inf_of b c))" for x
    using assms by (simp add: below_inf_iff inf_valid)
  show "below (inf_of (inf_of a b) c) (inf_of a (inf_of b c))"
    unfolding e [symmetric] by (intro below_refl inf_valid assms)
  show "below (inf_of a (inf_of b c)) (inf_of (inf_of a b) c)"
    unfolding e by (intro below_refl inf_valid assms)
qed

lemma inf_idem: "valid a \<Longrightarrow> inf_of a a = a"
  by (simp add: below_antisym inf_below inf_greatest below_refl)

lemma below_iff_inf:
  assumes "valid a" "valid b"
  shows "below a b \<longleftrightarrow> inf_of a b = a"
proof
  assume "below a b"
  then show "inf_of a b = a" using assms by (simp add: below_antisym inf_below inf_greatest below_refl)
next
  assume "inf_of a b = a"
  then show "below a b" using inf_below [OF assms] by simp
qed

lemma inf_least: "valid a \<Longrightarrow> inf_of least a = least"
  using below_iff_inf [OF least_valid] least_below by blast

lemma attenuates:
  assumes "valid a" "valid b" "valid c" "below a b"
  shows "below (inf_of a c) (inf_of b c)"
proof (rule inf_greatest [OF assms(2,3)])
  show "below (inf_of a c) b" using below_trans [OF _ assms(4)] inf_below [OF assms(1,3)] by blast
  show "below (inf_of a c) c" using inf_below [OF assms(1,3)] by blast
qed

end

section \<open>The model is one\<close>

definition valid_authority :: "authority \<Rightarrow> bool" where
  "valid_authority x = (case x of NO_AUTHORITY \<Rightarrow> True | Scope s \<Rightarrow> is_ok (new_authority_scope s))"

lemma new_authority_scope_Inr: "new_authority_scope s = Inr s' \<longleftrightarrow> s' = s \<and> is_ok (new_authority_scope s)"
  by (auto simp: new_authority_scope_def validated_def is_ok_iff)

lemma objective_errors_Nil_iff: "objective_errors p r = [] \<longleftrightarrow>
    is_ok (validate_id (ob_objective_id r) ''objective_id'') \<and> is_ok (validate_version (ob_objective_version r) ''objective_version'')"
  by (simp add: objective_errors_def)

lemma revalidated_Inr_iff: "revalidated s = Inr s' \<longleftrightarrow> s' = s \<and> is_ok (new_authority_scope s)"
proof -
  have "new_objective_ref (sc_objective_ref s) = Inr r \<longleftrightarrow> r = sc_objective_ref s \<and> objective_errors [] (sc_objective_ref s) = []" for r
    by (auto simp: new_objective_ref_def)
  moreover have "is_ok (new_authority_scope s) \<Longrightarrow> objective_errors [] (sc_objective_ref s) = []"
    by (simp add: new_authority_scope_def is_ok_iff objective_errors_Nil_iff)
  ultimately show ?thesis by (auto simp: revalidated_def bind_sum_InrE new_authority_scope_Inr)
qed

definition tier_min :: "p_tier \<Rightarrow> p_tier \<Rightarrow> p_tier" where
  "tier_min s t = (if tier_leq s t then s else t)"

lemma tier_order: "tier_leq t t" "tier_leq s t \<Longrightarrow> tier_leq t u \<Longrightarrow> tier_leq s u" "tier_leq s t \<Longrightarrow> tier_leq t s \<Longrightarrow> s = t"
  "tier_leq u (tier_min s t) \<longleftrightarrow> tier_leq u s \<and> tier_leq u t"
proof -
  show "tier_leq t t" "tier_leq s t \<Longrightarrow> tier_leq t u \<Longrightarrow> tier_leq s u" "tier_leq u (tier_min s t) \<longleftrightarrow> tier_leq u s \<and> tier_leq u t"
    by (auto simp: tier_leq_def tier_min_def)
  show "tier_leq s t \<Longrightarrow> tier_leq t s \<Longrightarrow> s = t" by (cases s; cases t) (simp_all add: tier_leq_def)
qed

lemma scope_ok_iff: "is_ok (new_authority_scope s) \<longleftrightarrow>
    sc_schema_version s = authority_scope_schema_version \<and> sc_vocabulary_version s = action_vocabulary_version \<and>
    sc_permission_ceiling s \<in> issuable_ceilings \<and> sc_action_types s \<noteq> {} \<and> sc_action_types s \<subseteq> action_type_vocabulary \<and>
    (\<forall>t \<in> sc_action_types s. tier_leq (the (map_of action_type_floor_v1 t)) (sc_permission_ceiling s)) \<and>
    objective_errors [] (sc_objective_ref s) = [] \<and> zd_utc (sc_expires_at s)"
  by (auto simp: new_authority_scope_def is_ok_iff check_ceiling_def check_action_types_def objective_errors_Nil_iff split: if_splits)

lemma leq_scopes: "leq (Scope a) (Scope b) = Inr True \<longleftrightarrow>
    is_ok (new_authority_scope a) \<and> is_ok (new_authority_scope b) \<and> sc_objective_ref a = sc_objective_ref b \<and>
    tier_leq (sc_permission_ceiling a) (sc_permission_ceiling b) \<and> sc_action_types a \<subseteq> sc_action_types b \<and>
    zd_time (sc_expires_at a) \<le> zd_time (sc_expires_at b)"
  by (auto simp: bind_sum_InrE revalidated_Inr_iff versions_match_def scope_ok_iff)

definition combined_scope :: "authority_scope \<Rightarrow> authority_scope \<Rightarrow> authority_scope" where
  "combined_scope a b = \<lparr>sc_schema_version = sc_schema_version a, sc_vocabulary_version = sc_vocabulary_version a,
     sc_permission_ceiling = tier_min (sc_permission_ceiling a) (sc_permission_ceiling b),
     sc_action_types = sc_action_types a \<inter> sc_action_types b, sc_objective_ref = sc_objective_ref a,
     sc_expires_at = (if zd_time (sc_expires_at b) < zd_time (sc_expires_at a) then sc_expires_at b else sc_expires_at a)\<rparr>"

lemma combined_scope_ok:
  assumes "is_ok (new_authority_scope a)" "is_ok (new_authority_scope b)" "sc_action_types a \<inter> sc_action_types b \<noteq> {}"
  shows "is_ok (new_authority_scope (combined_scope a b))"
proof -
  have "tier_min (sc_permission_ceiling a) (sc_permission_ceiling b) \<in> issuable_ceilings"
    using assms(1,2) by (simp add: scope_ok_iff tier_min_def)
  then show ?thesis using assms by (auto simp: scope_ok_iff combined_scope_def tier_order(4))
qed

lemma meet_unfold: "meet (Scope a) (Scope b) = (if \<not> versions_match a b then Inr NO_AUTHORITY
    else bind_sum (revalidated a) (\<lambda>a. bind_sum (revalidated b) (\<lambda>b.
      if sc_objective_ref a \<noteq> sc_objective_ref b \<or> sc_action_types a \<inter> sc_action_types b = {} then Inr NO_AUTHORITY
      else map_sum id Scope (new_authority_scope (combined_scope a b)))))"
proof -
  have c: "(if P then x else if Q then x else y) = (if P \<or> Q then x else y)" for P Q and x y :: "'a" by simp
  show ?thesis unfolding meet.simps c combined_scope_def tier_min_def ..
qed

lemma meet_scopes: "meet (Scope a) (Scope b) = Inr m \<longleftrightarrow>
    (if \<not> versions_match a b then m = NO_AUTHORITY
     else is_ok (new_authority_scope a) \<and> is_ok (new_authority_scope b) \<and>
       m = (if sc_objective_ref a \<noteq> sc_objective_ref b \<or> sc_action_types a \<inter> sc_action_types b = {} then NO_AUTHORITY
            else Scope (combined_scope a b)))"
proof (cases "versions_match a b \<and> is_ok (new_authority_scope a) \<and> is_ok (new_authority_scope b)")
  case True
  then have r: "revalidated a = Inr a" "revalidated b = Inr b" by (simp_all add: revalidated_Inr_iff)
  have "sc_action_types a \<inter> sc_action_types b \<noteq> {} \<Longrightarrow> new_authority_scope (combined_scope a b) = Inr (combined_scope a b)"
    using combined_scope_ok True by (simp add: new_authority_scope_Inr)
  then show ?thesis using True unfolding meet_unfold r bind_sum_simps by (auto split: if_splits)
next
  case False
  then show ?thesis unfolding meet_unfold by (auto simp: bind_sum_InrE revalidated_Inr_iff)
qed

declare meet.simps(3) [simp del]

definition below :: "authority \<Rightarrow> authority \<Rightarrow> bool" where
  "below a b = (leq a b = Inr True)"

definition meet_of :: "authority \<Rightarrow> authority \<Rightarrow> authority" where
  "meet_of a b = (case meet a b of Inl _ \<Rightarrow> NO_AUTHORITY | Inr m \<Rightarrow> m)"

lemma valid_versions: "is_ok (new_authority_scope a) \<Longrightarrow> is_ok (new_authority_scope b) \<Longrightarrow> versions_match a b"
  by (simp add: scope_ok_iff versions_match_def)

lemma meet_ok:
  assumes "is_ok (new_authority_scope a)" "is_ok (new_authority_scope b)"
  shows "meet (Scope a) (Scope b) = Inr (if sc_objective_ref a \<noteq> sc_objective_ref b \<or> sc_action_types a \<inter> sc_action_types b = {}
    then NO_AUTHORITY else Scope (combined_scope a b))"
  unfolding meet_scopes using assms valid_versions [OF assms] by simp

lemma meet_valid: "valid_authority a \<Longrightarrow> valid_authority b \<Longrightarrow> meet a b = Inr (meet_of a b)"
  by (cases a; cases b) (simp_all add: meet_of_def valid_authority_def meet_ok)

lemma below_simps [simp]: "below NO_AUTHORITY b" "below a NO_AUTHORITY \<longleftrightarrow> a = NO_AUTHORITY"
  by (cases a; simp add: below_def)+

lemmas below_scopes = below_def [of "Scope a" "Scope b" for a b, unfolded leq_scopes]

lemma meet_of_scopes: "is_ok (new_authority_scope a) \<Longrightarrow> is_ok (new_authority_scope b) \<Longrightarrow> meet_of (Scope a) (Scope b) =
    (if sc_objective_ref a \<noteq> sc_objective_ref b \<or> sc_action_types a \<inter> sc_action_types b = {} then NO_AUTHORITY else Scope (combined_scope a b))"
  by (simp add: meet_of_def meet_ok)

lemma meet_of_NO [simp]: "meet_of NO_AUTHORITY b = NO_AUTHORITY" "meet_of a NO_AUTHORITY = NO_AUTHORITY"
  by (cases a; simp add: meet_of_def)+

interpretation authority: meet_semilattice_bot valid_authority below meet_of NO_AUTHORITY
proof unfold_locales
  fix a b c :: authority
  show "valid_authority a \<Longrightarrow> below a a" by (cases a) (simp_all add: valid_authority_def below_scopes tier_order)
  show "below a b \<Longrightarrow> below b c \<Longrightarrow> below a c"
    by (cases a; cases b; cases c) (auto simp: below_scopes intro: tier_order(2))
  show "below a b \<Longrightarrow> below b a \<Longrightarrow> a = b"
    by (cases a; cases b) (auto simp: below_scopes scope_ok_iff dest: tier_order(3) intro!: authority_scope.equality zoned_datetime.equality)
  show "valid_authority NO_AUTHORITY" "below NO_AUTHORITY a" by (simp_all add: valid_authority_def)
  assume v: "valid_authority a" "valid_authority b"
  then show "valid_authority (meet_of a b)"
    by (cases a; cases b) (auto simp: valid_authority_def meet_of_scopes combined_scope_ok)
  have le: "below (Scope (combined_scope s t)) (Scope s) \<and> below (Scope (combined_scope s t)) (Scope t)"
    if "is_ok (new_authority_scope s)" "is_ok (new_authority_scope t)" "sc_action_types s \<inter> sc_action_types t \<noteq> {}"
      "sc_objective_ref s = sc_objective_ref t" for s t
    using that combined_scope_ok [OF that(1-3)] tier_order(4) [of _ "sc_permission_ceiling s" "sc_permission_ceiling t"] tier_order(1)
    by (auto simp: below_scopes combined_scope_def)
  show "below (meet_of a b) a \<and> below (meet_of a b) b"
    using v le by (cases a; cases b) (auto simp: valid_authority_def meet_of_scopes)
  assume "below c a" "below c b"
  then show "below c (meet_of a b)" using v
  proof (cases a; cases b; cases c)
    fix s t u assume e: "a = Scope s" "b = Scope t" "c = Scope u"
    then have b: "below (Scope u) (Scope s)" "below (Scope u) (Scope t)" using \<open>below c a\<close> \<open>below c b\<close> by simp_all
    have "sc_action_types u \<noteq> {}" using b(1) by (simp add: below_scopes scope_ok_iff)
    then have ne: "sc_action_types s \<inter> sc_action_types t \<noteq> {}" using b by (auto simp: below_scopes)
    have ok: "is_ok (new_authority_scope s)" "is_ok (new_authority_scope t)" using v e by (simp_all add: valid_authority_def)
    show ?thesis using b ne ok combined_scope_ok [OF ok ne] unfolding e
      by (auto simp: below_scopes meet_of_scopes combined_scope_def tier_order(4))
  qed simp_all
qed

lemma scope_types_issuable:
  assumes "is_ok (new_authority_scope s)" "t \<in> sc_action_types s"
  shows "\<exists>f. map_of action_type_floor_v1 t = Some f \<and> f \<noteq> P5 \<and> tier_leq f (sc_permission_ceiling s)"
proof -
  have "t \<in> fst ` set action_type_floor_v1" using assms by (auto simp: scope_ok_iff action_type_vocabulary_def)
  then obtain f where f: "map_of action_type_floor_v1 t = Some f" by (metis map_of_eq_None_iff option.exhaust)
  have "tier_leq f (sc_permission_ceiling s)" "sc_permission_ceiling s \<in> issuable_ceilings"
    using assms f by (auto simp: scope_ok_iff)
  then show ?thesis using f by (auto simp: issuable_ceilings_def tier_leq_def)
qed

section \<open>Properties\<close>

text \<open>C20: on valid operands \<open>meet\<close> returns the greatest lower bound of the two in the order \<open>leq\<close> decides, and it is
  again valid; \<open>leq\<close> holds exactly when the meet is the smaller operand.\<close>

theorem meet_greatest_lower_bound:
  assumes "valid_authority a" "valid_authority b"
  shows "\<exists>m. meet a b = Inr m \<and> meet b a = Inr m \<and> valid_authority m \<and> leq m a = Inr True \<and> leq m b = Inr True \<and>
    (\<forall>c. leq c a = Inr True \<and> leq c b = Inr True \<longrightarrow> leq c m = Inr True) \<and> (leq a b = Inr True \<longleftrightarrow> m = a)"
  using authority.inf_below [OF assms] authority.inf_greatest [OF assms] authority.inf_valid [OF assms]
    authority.below_iff_inf [OF assms] authority.inf_comm [OF assms] meet_valid [OF assms] meet_valid [OF assms(2,1)]
  unfolding below_def by auto

definition sample_scope :: "p_tier \<Rightarrow> string set \<Rightarrow> datetime \<Rightarrow> authority_scope" where
  "sample_scope limit types expiry = \<lparr>sc_schema_version = 1, sc_vocabulary_version = 1, sc_permission_ceiling = limit,
     sc_action_types = types, sc_objective_ref = \<lparr>ob_objective_id = ''launch.v1'', ob_objective_version = 1\<rparr>,
     sc_expires_at = \<lparr>zd_time = expiry, zd_utc = True\<rparr>\<rparr>"

lemma sample_scopes_ok: "is_ok (new_authority_scope (sample_scope P2 {''read'', ''sandbox_create''} 50))"
    "is_ok (new_authority_scope (sample_scope P4 {''read'', ''send''} 20))"
    "is_ok (new_authority_scope (sample_scope P2 {''read''} 20))"
  by (code_simp+)

lemma meet_greatest_lower_bound_witness:
  "\<exists>m. meet (Scope (sample_scope P2 {''read'', ''sandbox_create''} 50)) (Scope (sample_scope P4 {''read'', ''send''} 20)) = Inr m \<and>
     leq (Scope (sample_scope P2 {''read''} 20)) m = Inr True"
proof -
  have v: "valid_authority (Scope (sample_scope P2 {''read'', ''sandbox_create''} 50))"
    "valid_authority (Scope (sample_scope P4 {''read'', ''send''} 20))"
    using sample_scopes_ok by (simp_all add: valid_authority_def)
  have "leq (Scope (sample_scope P2 {''read''} 20)) (Scope (sample_scope P2 {''read'', ''sandbox_create''} 50)) = Inr True"
    "leq (Scope (sample_scope P2 {''read''} 20)) (Scope (sample_scope P4 {''read'', ''send''} 20)) = Inr True"
    unfolding leq_scopes using sample_scopes_ok by (simp_all add: sample_scope_def tier_leq_def)
  with meet_greatest_lower_bound [OF v] show ?thesis by blast
qed

text \<open>A record that did not come from the validated constructor contributes no authority. Over arbitrary
  records, only two valid scopes are ever in the order, and a meet that is a scope came from two valid
  scopes, lies below both and holds no action type of tier P5.\<close>

theorem tampered_scope_grants_nothing:
  "(leq (Scope a) y = Inr True \<longrightarrow> valid_authority (Scope a) \<and> valid_authority y \<and> y \<noteq> NO_AUTHORITY) \<and>
   (meet x y = Inr (Scope m) \<longrightarrow> valid_authority x \<and> valid_authority y \<and> valid_authority (Scope m) \<and>
      leq (Scope m) x = Inr True \<and> leq (Scope m) y = Inr True \<and> sc_permission_ceiling m \<noteq> P5 \<and>
      (\<forall>t \<in> sc_action_types m. map_of action_type_floor_v1 t \<noteq> Some P5))"
proof (intro conjI impI)
  assume "leq (Scope a) y = Inr True"
  then show "valid_authority (Scope a)" "valid_authority y" "y \<noteq> NO_AUTHORITY"
    by (cases y; simp add: leq_scopes valid_authority_def del: leq.simps(3))+
next
  assume mm: "meet x y = Inr (Scope m)"
  then have v: "valid_authority x" "valid_authority y"
    by (cases x; cases y; auto simp: meet_scopes valid_authority_def split: if_splits)+
  then have m: "meet_of x y = Scope m" using mm meet_valid by fastforce
  show "valid_authority x" "valid_authority y" using v by simp_all
  have ok: "valid_authority (Scope m)" using authority.inf_valid [OF v] m by simp
  then show "valid_authority (Scope m)" .
  show "leq (Scope m) x = Inr True" "leq (Scope m) y = Inr True"
    using authority.inf_below [OF v] m by (simp_all add: below_def)
  show "sc_permission_ceiling m \<noteq> P5" using ok by (auto simp: valid_authority_def scope_ok_iff issuable_ceilings_def)
  show "\<forall>t \<in> sc_action_types m. map_of action_type_floor_v1 t \<noteq> Some P5"
    using scope_types_issuable ok by (fastforce simp: valid_authority_def)
qed

lemma tampered_scope_grants_nothing_witness:
  "leq (Scope (sample_scope P2 {''read''} 20)) (Scope (sample_scope P4 {''read'', ''send''} 20)) = Inr True \<and>
   valid_authority (Scope (sample_scope P4 {''read'', ''send''} 20)) \<and>
   leq (Scope (sample_scope P5 {''financial''} 20)) (Scope (sample_scope P5 {''financial''} 20)) \<noteq> Inr True"
proof -
  have l: "leq (Scope (sample_scope P2 {''read''} 20)) (Scope (sample_scope P4 {''read'', ''send''} 20)) = Inr True"
    unfolding leq_scopes using sample_scopes_ok by (simp add: sample_scope_def tier_leq_def)
  have "\<not> valid_authority (Scope (sample_scope P5 {''financial''} 20))"
    by (simp add: valid_authority_def scope_ok_iff sample_scope_def issuable_ceilings_def)
  with l tampered_scope_grants_nothing show ?thesis by blast
qed

end
