(* ===== verification/Plan_Reconciliation.thy ===== *)
theory Plan_Reconciliation
  imports Crash_Recovery
begin

text \<open>
  \<open>plan_reconciliation.py\<close>: finding the plans a crash may have left behind and recomputing what is true of one. The
  actions are left to \<open>reconcile_action\<close>; the plan's own row is read and never written. Successive calls of
  \<open>reconcile_action\<close> read the clock at successive places, so the \<open>k\<close>-th one has its own environment.
\<close>

datatype plan_classification = PR_CONSISTENT_READY | PR_CONSISTENT_EXECUTING | PR_CONSISTENT_WAITING_FOR_APPROVAL
  | PR_CONSISTENT_PARTIAL | PR_CONSISTENT_COMPLETED | PR_CONSISTENT_FAILED | PR_ACTION_RECONCILIATION_REQUIRED
  | PR_AMBIGUOUS_PLAN_STATE

record plan_reconciliation_result =
  pr_plan_id :: string
  pr_classification :: plan_classification
  pr_actions_reconciled :: "string list"
  pr_issues :: "string list"
  pr_recovered :: bool
  pr_human_review_required :: bool
  pr_timestamp :: datetime

definition in_progress_action_statuses :: "action_status list" where
  "in_progress_action_statuses = [AS_EXECUTING, AS_EXECUTION_SUCCEEDED, AS_VERIFYING, AS_VERIFIED]"

definition terminal_bad_action_statuses :: "action_status list" where
  "terminal_bad_action_statuses = [AS_FAILED, AS_REJECTED, AS_CANCELLED, AS_BLOCKED]"

definition discover_plan_reconciliation_candidates :: "plan_row list \<Rightarrow> datetime \<Rightarrow> string list" where
  "discover_plan_reconciliation_candidates plans now = sort (remdups (
     map pw_id (plan_list_by_status plans [PS_EXECUTING, PS_WAITING_FOR_APPROVAL, PS_PARTIALLY_COMPLETED]) @
     map pw_id (list_stale_leases plans now)))"

text \<open>A stored row that does not parse raises, and so may an adapter; a plan that vanished between the two loads
  makes the unpacking raise.\<close>

datatype plan_reconciliation_error = PR_Load load_error | PR_Action reconciliation_error | PR_Vanished

section \<open>The loop over the actions\<close>

fun reconcile_each :: "(nat \<Rightarrow> recon_env) \<Rightarrow> nat \<Rightarrow> exec_db \<Rightarrow> action list \<Rightarrow>
    exec_db \<times> (reconciliation_error + (string \<times> reconciliation_result) list)" where
  "reconcile_each env k db [] = (db, Inr [])"
| "reconcile_each env k db (a # as) =
     (if a_status a \<notin> set in_progress_action_statuses then reconcile_each env k db as
      else (case reconcile_action (env k) db (a_id a) of
          (db', Inl e) \<Rightarrow> (db', Inl e)
        | (db', Inr q) \<Rightarrow> map_prod id (map_sum id (Cons (a_id a, q))) (reconcile_each env (Suc k) db' as)))"

definition blocks_plan :: "reconciliation_result \<Rightarrow> bool" where
  "blocks_plan q = (rc_human_review_required q \<and> \<not> rc_recovered q)"

definition classify_statuses :: "action_status list \<Rightarrow> plan_classification" where
  "classify_statuses ss = (let completed = length (filter (\<lambda>s. s = AS_COMPLETED) ss) in
     if 0 < length ss \<and> completed = length ss then PR_CONSISTENT_COMPLETED
     else if list_ex (\<lambda>s. s \<in> set terminal_bad_action_statuses) ss then
       (if 0 < completed then PR_CONSISTENT_PARTIAL else PR_CONSISTENT_FAILED)
     else if list_ex (\<lambda>s. s = AS_WAITING_FOR_APPROVAL) ss then PR_CONSISTENT_WAITING_FOR_APPROVAL
     else PR_CONSISTENT_EXECUTING)"

definition plan_result :: "string \<Rightarrow> datetime \<Rightarrow> plan_classification \<Rightarrow> plan_reconciliation_result" where
  "plan_result i ts c = \<lparr>pr_plan_id = i, pr_classification = c, pr_actions_reconciled = [], pr_issues = [],
     pr_recovered = False, pr_human_review_required = False, pr_timestamp = ts\<rparr>"

definition conclude_plan :: "string \<Rightarrow> datetime \<Rightarrow> action_status list \<Rightarrow> (string \<times> reconciliation_result) list \<Rightarrow>
    plan_reconciliation_result" where
  "conclude_plan i ts statuses outs = (let ids = map fst outs; blocking = filter (\<lambda>d. blocks_plan (snd d)) outs in
     if blocking \<noteq> [] then (plan_result i ts PR_ACTION_RECONCILIATION_REQUIRED)\<lparr>pr_actions_reconciled := ids,
       pr_issues := concat (map (\<lambda>d. rc_issues (snd d)) blocking), pr_human_review_required := True\<rparr>
     else (plan_result i ts (classify_statuses statuses))\<lparr>pr_actions_reconciled := ids, pr_recovered := (ids \<noteq> [])\<rparr>)"

definition reconcile_plan :: "(nat \<Rightarrow> recon_env) \<Rightarrow> datetime \<Rightarrow> plan_row list \<Rightarrow> exec_db \<Rightarrow> string \<Rightarrow>
    exec_db \<times> (plan_reconciliation_error + plan_reconciliation_result)" where
  "reconcile_plan env ts plans db i = (case load_plan plans (x_actions db) i of
     Inl e \<Rightarrow> (db, Inl (PR_Load e))
   | Inr None \<Rightarrow> (db, Inr ((plan_result i ts PR_AMBIGUOUS_PLAN_STATE)
       \<lparr>pr_issues := [''no durable ActionPlanRecord found for this plan_id''], pr_human_review_required := True\<rparr>))
   | Inr (Some (_, p)) \<Rightarrow>
       if p_status p = PS_COMPLETED then (db, Inr (plan_result i ts PR_CONSISTENT_COMPLETED))
       else if p_status p \<in> {PS_FAILED, PS_CANCELLED} then (db, Inr (plan_result i ts PR_CONSISTENT_FAILED))
       else if p_status p \<in> {PS_DRAFT, PS_VALIDATING, PS_READY} then (db, Inr (plan_result i ts PR_CONSISTENT_READY))
       else (case reconcile_each env 0 db (p_actions p) of
          (db', Inl e) \<Rightarrow> (db', Inl (PR_Action e))
        | (db', Inr outs) \<Rightarrow> (case load_plan plans (x_actions db') i of
             Inl e \<Rightarrow> (db', Inl (PR_Load e))
           | Inr None \<Rightarrow> (db', Inl PR_Vanished)
           | Inr (Some (_, q)) \<Rightarrow> (db', Inr (conclude_plan i ts (map a_status (p_actions q)) outs)))))"

section \<open>Lemmas\<close>

lemma load_all_rows: "load_all rs = Inr as \<Longrightarrow> map a_id as = map ro_id rs \<and> map a_status as = map ro_status rs"
  by (induction rs arbitrary: as) (auto simp: bind_sum_InrE record_to_action_def)

lemma load_plan_SomeD:
  assumes "load_plan plans actions i = Inr (Some (row, p))"
  shows "plan_get plans i = Some row" "p_status p = pw_status row"
    "map a_id (p_actions p) = map ro_id (action_list_by_plan actions i)"
    "map a_status (p_actions p) = map ro_status (action_list_by_plan actions i)"
  using assms load_all_rows
  by (auto simp: load_plan_def load_plan_actions_def bind_sum_InrE record_to_plan_def split: option.splits)

lemma recon_frame_other: "recon_frame i db db' \<Longrightarrow> j \<noteq> i \<Longrightarrow> action_get (x_actions db') j = action_get (x_actions db) j"
  by (simp add: recon_frame_def)

definition each_frame :: "string set \<Rightarrow> exec_db \<Rightarrow> exec_db \<Rightarrow> bool" where
  "each_frame is db db' = (x_fs db' = x_fs db \<and> x_approvals db' = x_approvals db \<and>
     (\<forall>j. j \<notin> is \<longrightarrow> action_get (x_actions db') j = action_get (x_actions db) j) \<and>
     (\<forall>j row. action_get (x_actions db) j = Some row \<longrightarrow> (\<exists>row'. action_get (x_actions db') j = Some row' \<and>
        rtranclp can_action_transition (ro_status row) (ro_status row'))))"

lemma each_frame_refl [simp]: "each_frame is db db"
  by (simp add: each_frame_def)

lemma each_frame_of: "recon_frame i db db' \<Longrightarrow> i \<in> is \<Longrightarrow> each_frame is db db'"
  unfolding each_frame_def recon_frame_def by (metis rtranclp.rtrancl_refl)

lemma each_frame_trans: "each_frame is db db1 \<Longrightarrow> each_frame is db1 db2 \<Longrightarrow> each_frame is db db2"
  unfolding each_frame_def by (metis (no_types, lifting) rtranclp_trans)

lemma reconcile_each_frame:
  assumes "reconcile_each env k db as = (db', r)"
  shows "each_frame (a_id ` {a \<in> set as. a_status a \<in> set in_progress_action_statuses}) db db' \<and>
    (\<forall>outs. r = Inr outs \<longrightarrow> map fst outs = map a_id (filter (\<lambda>a. a_status a \<in> set in_progress_action_statuses) as))"
  using assms
proof (induction env k db as arbitrary: db' r rule: reconcile_each.induct)
  case (2 env k db a as)
  let ?S = "\<lambda>as. a_id ` {a \<in> set as. a_status a \<in> set in_progress_action_statuses}"
  have mono: "each_frame (?S as) d d' \<Longrightarrow> each_frame (?S (a # as)) d d'" for d d'
    unfolding each_frame_def by auto
  show ?case
  proof (cases "a_status a \<in> set in_progress_action_statuses")
    case False
    then show ?thesis using 2 mono by auto
  next
    case True
    obtain db1 r1 where r1: "reconcile_action (env k) db (a_id a) = (db1, r1)" by fastforce
    have f1: "each_frame (?S (a # as)) db db1"
      using each_frame_of [OF reconcile_action_frame [OF r1]] True by auto
    show ?thesis
    proof (cases r1)
      case (Inl e)
      then show ?thesis using 2(3) True r1 f1 by auto
    next
      case (Inr q)
      obtain db2 r2 where r2: "reconcile_each env (Suc k) db1 as = (db2, r2)" by fastforce
      have "db' = db2" "r = map_sum id (Cons (a_id a, q)) r2" using 2(3) True r1 Inr r2 by simp_all
      moreover have IH: "each_frame (?S as) db1 db2 \<and> (\<forall>outs. r2 = Inr outs \<longrightarrow>
          map fst outs = map a_id (filter (\<lambda>a. a_status a \<in> set in_progress_action_statuses) as))"
        by (rule 2(2) [OF _ r1 [symmetric] Inr r2]) (simp add: True)
      moreover have "each_frame (?S (a # as)) db db2" by (rule each_frame_trans [OF f1 mono]) (use IH in simp)
      ultimately show ?thesis using True by (cases r2) simp_all
    qed
  qed
qed simp

lemma classify_statuses_facts:
  "classify_statuses ss = PR_CONSISTENT_COMPLETED \<longleftrightarrow> ss \<noteq> [] \<and> set ss = {AS_COMPLETED}"
  "classify_statuses ss = PR_CONSISTENT_FAILED \<longleftrightarrow>
     AS_COMPLETED \<notin> set ss \<and> set ss \<inter> set terminal_bad_action_statuses \<noteq> {}"
  "classify_statuses ss = PR_CONSISTENT_PARTIAL \<longleftrightarrow>
     AS_COMPLETED \<in> set ss \<and> set ss \<inter> set terminal_bad_action_statuses \<noteq> {}"
  "classify_statuses ss \<noteq> PR_ACTION_RECONCILIATION_REQUIRED"
proof -
  have n: "length (filter (\<lambda>s. s = AS_COMPLETED) ss) = length ss \<longleftrightarrow> (\<forall>s \<in> set ss. s = AS_COMPLETED)"
  proof (cases "\<forall>s \<in> set ss. s = AS_COMPLETED")
    case False
    then obtain s where "s \<in> set ss" "s \<noteq> AS_COMPLETED" by blast
    then show ?thesis using length_filter_less [of s ss "\<lambda>s. s = AS_COMPLETED"] False by simp
  qed simp
  have p: "0 < length (filter (\<lambda>s. s = AS_COMPLETED) ss) \<longleftrightarrow> AS_COMPLETED \<in> set ss"
    by (simp add: filter_empty_conv)
  have b: "list_ex (\<lambda>s. s \<in> set terminal_bad_action_statuses) ss \<longleftrightarrow> set ss \<inter> set terminal_bad_action_statuses \<noteq> {}"
    by (auto simp: list_ex_iff)
  have all: "(\<forall>s \<in> set ss. s = AS_COMPLETED) \<and> ss \<noteq> [] \<longleftrightarrow> ss \<noteq> [] \<and> set ss = {AS_COMPLETED}" by (cases ss) auto
  have bad: "AS_COMPLETED \<notin> set terminal_bad_action_statuses" by (simp add: terminal_bad_action_statuses_def)
  note c = classify_statuses_def [of ss, unfolded Let_def n p b]
  show "classify_statuses ss = PR_CONSISTENT_COMPLETED \<longleftrightarrow> ss \<noteq> [] \<and> set ss = {AS_COMPLETED}"
    unfolding c using all by auto
  show "classify_statuses ss = PR_CONSISTENT_FAILED \<longleftrightarrow> AS_COMPLETED \<notin> set ss \<and> set ss \<inter> set terminal_bad_action_statuses \<noteq> {}"
    unfolding c using bad by (cases ss) auto
  show "classify_statuses ss = PR_CONSISTENT_PARTIAL \<longleftrightarrow> AS_COMPLETED \<in> set ss \<and> set ss \<inter> set terminal_bad_action_statuses \<noteq> {}"
    unfolding c using bad by (cases ss) auto
  show "classify_statuses ss \<noteq> PR_ACTION_RECONCILIATION_REQUIRED" unfolding c by simp
qed

text \<open>A call either stops at the plan's own row or goes through the loop.\<close>

lemma reconcile_plan_cases:
  assumes "reconcile_plan env ts plans db i = (db', Inr r)"
  obtains (missing) "plan_get plans i = None" "db' = db" "pr_classification r = PR_AMBIGUOUS_PLAN_STATE" "pr_actions_reconciled r = []"
      "pr_human_review_required r" "\<not> pr_recovered r"
    | (settled) row where "plan_get plans i = Some row" "db' = db" "pr_actions_reconciled r = []" "\<not> pr_human_review_required r" "\<not> pr_recovered r"
      "pr_classification r = (if pw_status row = PS_COMPLETED then PR_CONSISTENT_COMPLETED
         else if pw_status row \<in> {PS_FAILED, PS_CANCELLED} then PR_CONSISTENT_FAILED else PR_CONSISTENT_READY)"
      "pw_status row \<in> {PS_COMPLETED, PS_FAILED, PS_CANCELLED, PS_DRAFT, PS_VALIDATING, PS_READY}"
    | (looped) row p q outs where "load_plan plans (x_actions db) i = Inr (Some (row, p))"
      "pw_status row \<in> {PS_EXECUTING, PS_WAITING_FOR_APPROVAL, PS_PARTIALLY_COMPLETED}"
      "reconcile_each env 0 db (p_actions p) = (db', Inr outs)" "load_plan plans (x_actions db') i = Inr (Some (row, q))"
      "r = conclude_plan i ts (map a_status (p_actions q)) outs"
proof -
  obtain l where l: "load_plan plans (x_actions db) i = Inr l" using assms by (cases "load_plan plans (x_actions db) i") (auto simp: reconcile_plan_def)
  show thesis
  proof (cases l)
    case None
    then show ?thesis using assms l
      by (intro missing) (auto simp: reconcile_plan_def plan_result_def load_plan_def bind_sum_InrE split: option.splits)
  next
    case (Some rp)
    then obtain row p where lp: "load_plan plans (x_actions db) i = Inr (Some (row, p))" using l by (cases rp) auto
    note f = load_plan_SomeD [OF lp]
    show ?thesis
    proof (cases "pw_status row \<in> {PS_COMPLETED, PS_FAILED, PS_CANCELLED, PS_DRAFT, PS_VALIDATING, PS_READY}")
      case True
      then show ?thesis using assms lp f by (intro settled) (auto simp: reconcile_plan_def plan_result_def)
    next
      case False
      then have st: "pw_status row \<in> {PS_EXECUTING, PS_WAITING_FOR_APPROVAL, PS_PARTIALLY_COMPLETED}" by (cases "pw_status row") auto
      have u: "reconcile_plan env ts plans db i = (case reconcile_each env 0 db (p_actions p) of
          (db', Inl e) \<Rightarrow> (db', Inl (PR_Action e))
        | (db', Inr outs) \<Rightarrow> (case load_plan plans (x_actions db') i of
             Inl e \<Rightarrow> (db', Inl (PR_Load e))
           | Inr None \<Rightarrow> (db', Inl PR_Vanished)
           | Inr (Some (_, q)) \<Rightarrow> (db', Inr (conclude_plan i ts (map a_status (p_actions q)) outs))))"
        using lp f st by (auto simp: reconcile_plan_def)
      obtain outs where e: "reconcile_each env 0 db (p_actions p) = (db', Inr outs)"
        using assms unfolding u by (auto split: prod.splits sum.splits option.splits)
      then obtain row' q where q: "load_plan plans (x_actions db') i = Inr (Some (row', q))" "r = conclude_plan i ts (map a_status (p_actions q)) outs"
        using assms unfolding u by (auto split: sum.splits option.splits)
      have "row' = row" using load_plan_SomeD(1) [OF q(1)] f(1) by simp
      then show ?thesis using looped lp st e q by blast
    qed
  qed
qed

text \<open>What a classification may say, given the plan's own status and those of its actions.\<close>

definition statuses_ok :: "plan_classification \<Rightarrow> plan_status option \<Rightarrow> action_status set \<Rightarrow> bool" where
  "statuses_ok c own ss = (
     (c = PR_CONSISTENT_COMPLETED \<longrightarrow> own = Some PS_COMPLETED \<or> ss = {AS_COMPLETED}) \<and>
     (c = PR_CONSISTENT_FAILED \<longrightarrow> own \<in> {Some PS_FAILED, Some PS_CANCELLED} \<or>
        AS_COMPLETED \<notin> ss \<and> ss \<inter> set terminal_bad_action_statuses \<noteq> {}) \<and>
     (c = PR_CONSISTENT_PARTIAL \<longrightarrow> AS_COMPLETED \<in> ss \<and> ss \<inter> set terminal_bad_action_statuses \<noteq> {}))"

lemma statuses_ok_classify: "statuses_ok (classify_statuses ss) own (set ss)"
  by (simp add: statuses_ok_def classify_statuses_facts)

text \<open>The calls of \<open>reconcile_action\<close> one after the other, with what each answered.\<close>

fun calls_answered :: "(nat \<Rightarrow> recon_env) \<Rightarrow> nat \<Rightarrow> exec_db \<Rightarrow> string list \<Rightarrow> exec_db \<Rightarrow> reconciliation_result list \<Rightarrow> bool" where
  "calls_answered env k db [] db' qs = (db' = db \<and> qs = [])"
| "calls_answered env k db (i # is) db' qs = (\<exists>db1 q qs'. reconcile_action (env k) db i = (db1, Inr q) \<and> qs = q # qs' \<and>
     calls_answered env (Suc k) db1 is db' qs')"

lemma reconcile_each_calls: "reconcile_each env k db as = (db', Inr outs) \<Longrightarrow> calls_answered env k db (map fst outs) db' (map snd outs)"
proof (induction env k db as arbitrary: db' outs rule: reconcile_each.induct)
  case (2 env k db a as)
  show ?case
  proof (cases "a_status a \<in> set in_progress_action_statuses")
    case False
    then show ?thesis using 2 by auto
  next
    case True
    obtain db1 r1 where r1: "reconcile_action (env k) db (a_id a) = (db1, r1)" by fastforce
    then obtain q where q: "r1 = Inr q" using 2(3) True by (cases r1) auto
    obtain db2 r2 where r2: "reconcile_each env (Suc k) db1 as = (db2, r2)" by fastforce
    then obtain outs' where "r2 = Inr outs'" "outs = (a_id a, q) # outs'" "db' = db2" using 2(3) True r1 q by (cases r2) auto
    then show ?thesis using 2(2) [OF _ r1 [symmetric] q] True r1 q r2 by auto
  qed
qed simp

lemma filter_ids:
  assumes "map a_id as = map ro_id rs" "map a_status as = map ro_status rs"
  shows "map a_id (filter (\<lambda>a. a_status a \<in> S) as) = map ro_id (filter (\<lambda>r. ro_status r \<in> S) rs)"
  using assms
proof (induction as arbitrary: rs)
  case (Cons a as)
  then obtain r rs' where "rs = r # rs'" by (cases rs) auto
  then show ?case using Cons by auto
qed simp

section \<open>Properties\<close>


definition sample_plan_rows :: "string \<Rightarrow> plan_row list" where
  "sample_plan_rows i = [\<lparr>pw_id = i, pw_decision_id = ''d1'', pw_project_id = None, pw_title = ''t'', pw_description = None,
     pw_failure_policy = ''STOP_ON_FAILURE'', pw_estimated_cost = None, pw_estimated_model_calls = None,
     pw_success_criteria = None, pw_status = PS_EXECUTING, pw_created_by = ''x'', pw_plan_hash = None, pw_version = 1, pw_revision = 1,
     pw_created_at = 0, pw_started_at = None, pw_completed_at = None, pw_last_error = None, pw_pause_reason = None,
     pw_reconciliation_required = False, pw_orchestration_owner = None, pw_orchestration_claimed_at = None,
     pw_orchestration_lease_expires_at = None\<rparr>]"

text \<open>C30: a blocked action can be hidden from the plan. When a crash left the only action of an executing plan with a
  stored result but still executing, the action's reconciliation cannot complete it and asks for a human, but calls
  the action recovered; the plan is then reported as consistently executing, recovered, with nobody
  needed, although no action row has changed.\<close>

theorem plan_hides_stuck_action:
  assumes "under_way (env 0) db i row a t ad" "result_get_by_attempt (x_results db) (at_id t) = Some rr" "rr_success rr"
    "verification_get_by_attempt (x_verifications db) (at_id t) = None" "record_to_execution_result rr = Inr res"
    "ad_verify ad a res (recon_context (env 0) 4 (at_id t)) (x_fs db) = Inr v" "vr_passed v" "ro_status row = AS_EXECUTING"
    "action_list_by_plan (x_actions db) p = [row]" "plan_get plans p = Some prow" "pw_status prow = PS_EXECUTING"
  shows "\<exists>db' q r. reconcile_action (env 0) db i = (db', Inr q) \<and> rc_human_review_required q \<and>
    reconcile_plan env ts plans db p = (db', Inr r) \<and> pr_classification r = PR_CONSISTENT_EXECUTING \<and> pr_recovered r \<and>
    \<not> pr_human_review_required r \<and> x_actions db' = x_actions db"
proof -
  note u = under_way_reconciles [OF assms(1)]
  let ?d = "durable_state_of row" and ?o = "observed_state_of t True False"
  obtain db' where r: "reconcile_action (env 0) db i = (db', Inr (settled i EXECUTION_SUCCEEDED_VERIFICATION_MISSING ?o ?d False True
      [''verification passed, but could not advance Action state (concurrent writer)''] True (re_clock (env 0) 2)))" "x_actions db' = x_actions db"
    using after_verify_executing [OF u(3) assms(7,8), of "env 0" t ?d ?o] reconcile_stored_result [OF assms(1-6)] u(2) by auto
  have a: "record_to_action row = Inr a" "a_id a = i" "a_status a = AS_EXECUTING"
    using assms(1,8) by (auto simp: under_way_def record_to_action_def bind_sum_InrE action_get_def dest: tbl_get_SomeD)
  have l: "load_plan plans (x_actions db) p = Inr (Some (prow, record_to_plan prow [a]))"
    by (simp add: load_plan_def load_plan_actions_def assms(9,10) a(1))
  have "reconcile_each env 0 db [a] = (db', Inr [(i, settled i EXECUTION_SUCCEEDED_VERIFICATION_MISSING ?o ?d False True
      [''verification passed, but could not advance Action state (concurrent writer)''] True (re_clock (env 0) 2))])"
    using r(1) a by (simp add: in_progress_action_statuses_def)
  then have "reconcile_plan env ts plans db p = (db', Inr (conclude_plan p ts [AS_EXECUTING] [(i, settled i EXECUTION_SUCCEEDED_VERIFICATION_MISSING ?o ?d False True
      [''verification passed, but could not advance Action state (concurrent writer)''] True (re_clock (env 0) 2))]))"
    using l r(2) a(3) assms(11) by (simp add: reconcile_plan_def record_to_plan_def)
  then show ?thesis using r
    by (simp add: conclude_plan_def plan_result_def blocks_plan_def settled_def classify_statuses_def terminal_bad_action_statuses_def)
qed

text \<open>An executing action with one attempt and a stored successful result, and an adapter that verifies it.\<close>

definition stuck_row :: action_row where
  "stuck_row = sample_row\<lparr>ro_status := AS_EXECUTING, ro_inputs_json := None, ro_dependencies_json := None\<rparr>"

definition stuck_result :: result_row where
  "stuck_result = (execution_result_to_record_fields ''t1'' sample_result ORIGINAL)
     \<lparr>rr_success := True, rr_structured_output_json := None, rr_side_effects_json := None, rr_error_type := None\<rparr>"

definition stuck_db :: exec_db where
  "stuck_db = \<lparr>x_actions = [stuck_row], x_attempts = [(sample_attempt ''k'')\<lparr>at_action_id := ro_id stuck_row\<rparr>],
     x_results = [stuck_result], x_verifications = [], x_approvals = None, x_fs = []\<rparr>"

definition stuck_env :: recon_env where
  "stuck_env = \<lparr>re_adapters = [(''file.create_sandboxed'', file_adapter\<lparr>ad_verify := \<lambda>a r cx fs. Inr sample_verification\<rparr>)],
     re_root = [''box''], re_clock = int\<rparr>"

lemma stuck_facts:
  obtains a v res where "under_way stuck_env stuck_db (ro_id stuck_row) stuck_row a ((sample_attempt ''k'')\<lparr>at_action_id := ro_id stuck_row\<rparr>)
      (file_adapter\<lparr>ad_verify := \<lambda>a r cx fs. Inr sample_verification\<rparr>)"
    "result_get_by_attempt (x_results stuck_db) ''t1'' = Some stuck_result" "rr_success stuck_result"
    "verification_get_by_attempt (x_verifications stuck_db) ''t1'' = None" "record_to_execution_result stuck_result = Inr res"
    "action_list_by_plan (x_actions stuck_db) (ro_action_plan_id stuck_row) = [stuck_row]" "ro_status stuck_row = AS_EXECUTING"
proof -
  obtain a where a: "record_to_action stuck_row = Inr a"
    by (simp add: record_to_action_def load_json_def as_dict_def as_strs_def stuck_row_def)
  obtain res where res: "record_to_execution_result stuck_result = Inr res"
    by (simp add: record_to_execution_result_def load_json_def as_opt_dict_def as_strs_def load_failure_category_def stuck_result_def)
  have "rr_attempt_id stuck_result = ''t1''" by (simp add: stuck_result_def execution_result_to_record_fields_def Let_def)
  then show thesis using that [of a res] a res
    by (simp add: under_way_def stuck_db_def stuck_env_def action_get_def tbl_get_Cons adapter_get_def attempt_list_for_action_def
        sample_attempt_def result_get_by_attempt_def verification_get_by_attempt_def action_list_by_plan_def)
      (simp add: stuck_row_def stuck_result_def)
qed

lemma stuck_plan_row: "plan_get (sample_plan_rows i) i = Some (hd (sample_plan_rows i))" "pw_status (hd (sample_plan_rows i)) = PS_EXECUTING"
  by (simp_all add: plan_get_def tbl_get_Cons sample_plan_rows_def)

lemma plan_hides_stuck_action_witness:
  "\<exists>db' q r. reconcile_action stuck_env stuck_db (ro_id stuck_row) = (db', Inr q) \<and> rc_human_review_required q \<and>
    reconcile_plan (\<lambda>_. stuck_env) 0 (sample_plan_rows (ro_action_plan_id stuck_row)) stuck_db (ro_action_plan_id stuck_row) = (db', Inr r) \<and>
    \<not> pr_human_review_required r"
proof -
  obtain a res where s: "under_way stuck_env stuck_db (ro_id stuck_row) stuck_row a ((sample_attempt ''k'')\<lparr>at_action_id := ro_id stuck_row\<rparr>)
      (file_adapter\<lparr>ad_verify := \<lambda>a r cx fs. Inr sample_verification\<rparr>)"
    "result_get_by_attempt (x_results stuck_db) ''t1'' = Some stuck_result" "rr_success stuck_result"
    "verification_get_by_attempt (x_verifications stuck_db) ''t1'' = None" "record_to_execution_result stuck_result = Inr res"
    "action_list_by_plan (x_actions stuck_db) (ro_action_plan_id stuck_row) = [stuck_row]" "ro_status stuck_row = AS_EXECUTING"
    by (rule stuck_facts)
  have t: "at_id ((sample_attempt ''k'')\<lparr>at_action_id := ro_id stuck_row\<rparr>) = ''t1''" by (simp add: sample_attempt_def)
  show ?thesis
    using plan_hides_stuck_action [of "\<lambda>_. stuck_env", unfolded t, OF s(1) _ s(3) _ s(5) _ _ s(7,6) stuck_plan_row,
        unfolded t, OF s(2,4), of sample_verification 0]
    by (auto simp: sample_verification_def)
qed

text \<open>The executing action has no attempt: nobody can tell what happened.\<close>

definition lost_db :: exec_db where
  "lost_db = stuck_db\<lparr>x_attempts := []\<rparr>"


end
