(* ===== verification/Replan.thy ===== *)
theory Replan
  imports Database Budget Plan_Validation Interleaving "HOL-Library.Sublist"
begin

text \<open>
  \<open>replan.py\<close> with \<open>ReplanProposalRepository\<close>: proposing a replacement for a failed action and applying it to a stored
  plan. \<open>apply_replan\<close> awaits the database many times, and a second caller may run in between, so a call is a
  machine whose step is one awaited call; \<open>replan_system\<close> interleaves any number of calls, each of which
  may also stop for good anywhere. The module uses no session state besides the rows.
\<close>

section \<open>Proposals and their rows\<close>

datatype replan_proposal_status = RP_PROPOSED | RP_APPLIED | RP_REJECTED | RP_CANCELLED

record replan_proposal =
  rp_id :: string
  rp_plan_id :: string
  rp_failed_action_id :: string
  rp_replacement_action_id :: string
  rp_replacement_action_type :: string
  rp_replacement_title :: string
  rp_replacement_tool_name :: "string option"
  rp_replacement_inputs :: "(string \<times> json) list"
  rp_replacement_expected_result :: string
  rp_replacement_success_criteria :: string
  rp_replacement_verification_method :: string
  rp_replacement_permission_level :: permission_level
  rp_replacement_risk_level :: risk_level
  rp_replacement_dependencies :: "string list"
  rp_reason :: string
  rp_failure_category :: "failure_category option"
  rp_status :: replan_proposal_status
  rp_reason_codes :: "string list"
  rp_created_by :: string
  rp_created_at :: datetime
  rp_applied_at :: "datetime option"
  rp_new_plan_revision :: "int option"

record proposal_row =
  pp_id :: string
  pp_plan_id :: string
  pp_failed_action_id :: string
  pp_replacement_action_id :: string
  pp_replacement_action_type :: string
  pp_replacement_title :: string
  pp_replacement_tool_name :: "string option"
  pp_replacement_inputs_json :: "string option"
  pp_replacement_expected_result :: "string option"
  pp_replacement_success_criteria :: "string option"
  pp_replacement_verification_method :: "string option"
  pp_replacement_permission_level :: permission_level
  pp_replacement_risk_level :: risk_level
  pp_replacement_dependencies_json :: "string option"
  pp_reason :: "string option"
  pp_failure_category :: "string option"
  pp_status :: replan_proposal_status
  pp_reason_codes_json :: "string option"
  pp_created_by :: string
  pp_version :: int
  pp_created_at :: datetime
  pp_applied_at :: "datetime option"
  pp_new_plan_revision :: "int option"

section \<open>Proposing\<close>

datatype replan_error =
    FailedActionNotFoundError string
  | ActionNotFailedError string action_status
  | ProposalNotFoundError string
  | Replan_Load load_error
  | Replan_Too_Large persistence_error
  | Replan_Budget budget_error
  | Replan_Row_Missing string

definition rewired :: "string \<Rightarrow> string \<Rightarrow> string list \<Rightarrow> string list" where
  "rewired failed replacement deps = map (\<lambda>d. if d = failed then replacement else d) deps"

definition project_post_replan_actions :: "action_plan \<Rightarrow> string \<Rightarrow> action \<Rightarrow> action list" where
  "project_post_replan_actions p failed replacement = map (\<lambda>a.
     if a_id a = failed then a
     else if failed \<in> set (a_dependencies a) then a\<lparr>a_dependencies := rewired failed (a_id replacement) (a_dependencies a)\<rparr>
     else a) (p_actions p) @ [replacement]"

definition propose_replan :: "string \<Rightarrow> datetime \<Rightarrow> action_plan \<Rightarrow> action \<Rightarrow> action \<Rightarrow> string \<Rightarrow> string \<Rightarrow> failure_category option \<Rightarrow>
    replan_error + replan_proposal" where
  "propose_replan new_id now p failed replacement reason created_by category =
     (if a_id failed \<notin> a_id ` set (p_actions p) then Inl (FailedActionNotFoundError (a_id failed))
      else if a_status failed \<noteq> AS_FAILED then Inl (ActionNotFailedError (a_id failed) (a_status failed))
      else (let deps = (if a_dependencies replacement \<noteq> [] then a_dependencies replacement else a_dependencies failed);
          proposal = \<lparr>rp_id = new_id, rp_plan_id = p_id p, rp_failed_action_id = a_id failed, rp_replacement_action_id = a_id replacement,
            rp_replacement_action_type = a_action_type replacement, rp_replacement_title = a_title replacement,
            rp_replacement_tool_name = a_tool_name replacement, rp_replacement_inputs = a_inputs replacement,
            rp_replacement_expected_result = a_expected_result replacement, rp_replacement_success_criteria = a_success_criteria replacement,
            rp_replacement_verification_method = a_verification_method replacement,
            rp_replacement_permission_level = a_permission_level replacement, rp_replacement_risk_level = a_risk_level replacement,
            rp_replacement_dependencies = deps, rp_reason = reason, rp_failure_category = category, rp_status = RP_PROPOSED,
            rp_reason_codes = [], rp_created_by = created_by, rp_created_at = now, rp_applied_at = None, rp_new_plan_revision = None\<rparr>
        in (case detect_dependency_cycle (project_post_replan_actions p (a_id failed) (replacement\<lparr>a_dependencies := deps\<rparr>)) of
              None \<Rightarrow> Inr proposal
            | Some [] \<Rightarrow> Inr proposal
            | Some cycle \<Rightarrow> Inr (proposal\<lparr>rp_status := RP_REJECTED, rp_reason_codes := [''CYCLE_DETECTED:'' @ py_join ''->'' cycle]\<rparr>))))"

definition strs_json :: "string list \<Rightarrow> string" where
  "strs_json ss = json_default (JArr (map JStr ss))"

definition proposal_to_record_fields :: "replan_proposal \<Rightarrow> proposal_row" where
  "proposal_to_record_fields p = \<lparr>pp_id = rp_id p, pp_plan_id = rp_plan_id p, pp_failed_action_id = rp_failed_action_id p,
     pp_replacement_action_id = rp_replacement_action_id p, pp_replacement_action_type = rp_replacement_action_type p,
     pp_replacement_title = rp_replacement_title p, pp_replacement_tool_name = rp_replacement_tool_name p,
     pp_replacement_inputs_json = Some (json_default (JObj (rp_replacement_inputs p))),
     pp_replacement_expected_result = none_if_empty (rp_replacement_expected_result p),
     pp_replacement_success_criteria = none_if_empty (rp_replacement_success_criteria p),
     pp_replacement_verification_method = none_if_empty (rp_replacement_verification_method p),
     pp_replacement_permission_level = rp_replacement_permission_level p, pp_replacement_risk_level = rp_replacement_risk_level p,
     pp_replacement_dependencies_json = Some (strs_json (rp_replacement_dependencies p)),
     pp_reason = none_if_empty (rp_reason p), pp_failure_category = map_option failure_category_value (rp_failure_category p),
     pp_status = rp_status p, pp_reason_codes_json = Some (strs_json (rp_reason_codes p)), pp_created_by = rp_created_by p, pp_version = 1,
     pp_created_at = rp_created_at p, pp_applied_at = None, pp_new_plan_revision = None\<rparr>"

definition replacement_action_from_row :: "proposal_row \<Rightarrow> load_error + action" where
  "replacement_action_from_row r =
     bind_sum (bind_sum (load_json (pp_replacement_inputs_json r) (JObj [])) as_dict) (\<lambda>inputs.
     bind_sum (bind_sum (load_json (pp_replacement_dependencies_json r) (JArr [])) as_strs) (\<lambda>deps.
       Inr \<lparr>a_id = pp_replacement_action_id r, a_action_plan_id = pp_plan_id r, a_sequence = 0,
         a_action_type = pp_replacement_action_type r, a_title = pp_replacement_title r, a_description = [], a_agent_type = ''execution'',
         a_tool_name = pp_replacement_tool_name r, a_inputs = inputs, a_risk_level = pp_replacement_risk_level r,
         a_permission_level = pp_replacement_permission_level r, a_approval_required = False, a_approval_id = None,
         a_estimated_cost = None, a_dependencies = deps, a_expected_result = empty_if_none (pp_replacement_expected_result r),
         a_success_criteria = empty_if_none (pp_replacement_success_criteria r),
         a_verification_method = empty_if_none (pp_replacement_verification_method r), a_status = AS_VALIDATED,
         a_started_at = None, a_completed_at = None, a_result = None, a_error = None, a_retry_count = 0, a_max_retries = 0,
         a_superseded_by = None\<rparr>))"

section \<open>The repository\<close>

definition proposal_create :: "proposal_row list \<Rightarrow> proposal_row \<Rightarrow> proposal_row list option" where
  "proposal_create t r = tbl_insert pp_id t r"

definition persist_proposal :: "proposal_row list \<Rightarrow> replan_proposal \<Rightarrow> proposal_row list option" where
  "persist_proposal t p = proposal_create t (proposal_to_record_fields p)"

definition proposal_get :: "proposal_row list \<Rightarrow> string \<Rightarrow> proposal_row option" where
  "proposal_get t i = tbl_get pp_id t i"

definition proposal_get_by_replacement :: "proposal_row list \<Rightarrow> string \<Rightarrow> proposal_row option" where
  "proposal_get_by_replacement t i = tbl_get pp_replacement_action_id t i"

definition proposal_update :: "proposal_row list \<Rightarrow> string \<Rightarrow> int \<Rightarrow> (proposal_row \<Rightarrow> proposal_row) \<Rightarrow> bool \<times> proposal_row list" where
  "proposal_update t i expected f = tbl_vcas pp_id pp_version (\<lambda>n r. r\<lparr>pp_version := n\<rparr>) t i expected f"

definition claim_for_apply :: "proposal_row list \<Rightarrow> string \<Rightarrow> int \<Rightarrow> bool \<times> proposal_row list" where
  "claim_for_apply t i expected = (case proposal_get t i of
     None \<Rightarrow> (False, t)
   | Some r \<Rightarrow> if pp_status r = RP_PROPOSED then proposal_update t i expected (\<lambda>r. r\<lparr>pp_status := RP_APPLIED\<rparr>) else (False, t))"

section \<open>A call, one await at a time\<close>

record replan_db =
  rd_plans :: "plan_row list"
  rd_actions :: "action_row list"
  rd_proposals :: "proposal_row list"
  rd_budget :: budget_db

record replan_request =
  rq_proposal_id :: string
  rq_max_replans :: "py_float option"
  rq_clock :: datetime
  rq_new_account_id :: string

record replan_result =
  rt_proposal_id :: string
  rt_plan_id :: string
  rt_old_action_id :: string
  rt_replacement_action_id :: "string option"
  rt_old_plan_revision :: "int option"
  rt_new_plan_revision :: "int option"
  rt_status :: replan_proposal_status
  rt_reason_codes :: "string list"

text \<open>What a call keeps: the row it first read, and the plan's revision before it changed anything.\<close>

record replan_ctx =
  rx_row :: proposal_row
  rx_old :: "int option"

datatype replan_pc =
    R_Start
  | R_Plan_Check proposal_row
  | R_Reject proposal_row string
  | R_Budget proposal_row caller
  | R_Revision proposal_row
  | R_Exists replan_ctx
  | R_Create replan_ctx action_row
  | R_Failed replan_ctx
  | R_Supersede replan_ctx action_row
  | R_Dependents replan_ctx
  | R_Rewire replan_ctx "action list"
  | R_Rewire_Write replan_ctx action_row "string list" "action list"
  | R_Load_Plan replan_ctx
  | R_Load_Actions replan_ctx plan_row
  | R_Hash replan_ctx plan_row string
  | R_Reread replan_ctx
  | R_Revive replan_ctx plan_row
  | R_Reread_Revived replan_ctx int
  | R_Claim replan_ctx int
  | R_Final replan_ctx int
  | R_Stamp replan_ctx proposal_row int
  | R_Done "replan_error + replan_result"

definition replan_outcome :: "proposal_row \<Rightarrow> replan_proposal_status \<Rightarrow> string list \<Rightarrow> replan_result" where
  "replan_outcome row st codes = \<lparr>rt_proposal_id = pp_id row, rt_plan_id = pp_plan_id row, rt_old_action_id = pp_failed_action_id row,
     rt_replacement_action_id = None, rt_old_plan_revision = None, rt_new_plan_revision = None, rt_status = st, rt_reason_codes = codes\<rparr>"

definition replan_charge :: "replan_request \<Rightarrow> proposal_row \<Rightarrow> py_float \<Rightarrow> budget_request" where
  "replan_charge q row limit = \<lparr>bq_scope = (SCOPE_PLAN, pp_plan_id row, REPLANS), bq_amount = Fin 1, bq_key = ''replan:'' @ pp_id row,
     bq_reason = ''apply_replan'', bq_default_limit = Some limit, bq_new_id = rq_new_account_id q, bq_now = rq_clock q\<rparr>"

text \<open>\<open>x in json.loads(column or "[]")\<close>.\<close>

definition json_contains :: "string \<Rightarrow> json \<Rightarrow> load_error + bool" where
  "json_contains x v = (case v of
     JArr vs \<Rightarrow> Inr (JStr x \<in> set vs)
   | JObj kvs \<Rightarrow> Inr (x \<in> fst ` set kvs)
   | JStr s \<Rightarrow> Inr (sublist x s)
   | _ \<Rightarrow> Inl (WrongShape ''container''))"

definition revivable :: "plan_status list" where
  "revivable = [PS_FAILED, PS_READY, PS_WAITING_FOR_APPROVAL, PS_PARTIALLY_COMPLETED]"

definition after_claim :: "replan_ctx \<Rightarrow> int \<Rightarrow> replan_pc" where
  "after_claim x new_revision = (if pp_status (rx_row x) = RP_PROPOSED then R_Claim x new_revision else R_Final x new_revision)"

definition applied_result :: "replan_ctx \<Rightarrow> int \<Rightarrow> replan_pc" where
  "applied_result x new_revision = R_Done (Inr ((replan_outcome (rx_row x) RP_APPLIED [])
     \<lparr>rt_replacement_action_id := Some (pp_replacement_action_id (rx_row x)), rt_old_plan_revision := rx_old x,
      rt_new_plan_revision := Some new_revision\<rparr>))"

text \<open>What follows the first read of the row, and what follows the loop's pure part for one action.\<close>

definition after_row :: "proposal_row \<Rightarrow> replan_pc" where
  "after_row row = (case pp_status row of
     RP_REJECTED \<Rightarrow> R_Done (map_sum Replan_Load (replan_outcome row RP_REJECTED)
       (bind_sum (load_json (pp_reason_codes_json row) (JArr [])) as_strs))
   | RP_CANCELLED \<Rightarrow> R_Done (Inr (replan_outcome row RP_CANCELLED []))
   | _ \<Rightarrow> R_Plan_Check row)"

definition after_budget :: "proposal_row \<Rightarrow> budget_error + budget_result \<Rightarrow> replan_pc" where
  "after_budget row r = (case r of
     Inl e \<Rightarrow> R_Done (Inl (Replan_Budget e))
   | Inr r \<Rightarrow> if \<not> bc_granted r then R_Reject row ''REPLAN_BUDGET_EXHAUSTED'' else R_Revision row)"

definition skipped :: "replan_ctx \<Rightarrow> action \<Rightarrow> bool" where
  "skipped x a = (a_id a \<in> {pp_failed_action_id (rx_row x), pp_replacement_action_id (rx_row x)} \<or>
     pp_failed_action_id (rx_row x) \<notin> set (a_dependencies a))"

fun replan_step :: "replan_request \<Rightarrow> replan_db \<Rightarrow> replan_pc \<Rightarrow> replan_db \<times> replan_pc" where
  "replan_step q db R_Start = (db, case proposal_get (rd_proposals db) (rq_proposal_id q) of
     None \<Rightarrow> R_Done (Inl (ProposalNotFoundError (rq_proposal_id q))) | Some row \<Rightarrow> after_row row)"
| "replan_step q db (R_Plan_Check row) = (db, case plan_get (rd_plans db) (pp_plan_id row) of
     Some p \<Rightarrow> if pw_status p = PS_CANCELLED then R_Reject row ''PLAN_CANCELLED''
       else if rq_max_replans q = None then R_Revision row else R_Budget row B_Start
   | None \<Rightarrow> if rq_max_replans q = None then R_Revision row else R_Budget row B_Start)"
| "replan_step q db (R_Reject row code) =
     (db\<lparr>rd_proposals := snd (proposal_update (rd_proposals db) (pp_id row) (pp_version row)
        (\<lambda>r. r\<lparr>pp_status := RP_REJECTED, pp_reason_codes_json := Some (strs_json [code])\<rparr>))\<rparr>,
      R_Done (Inr (replan_outcome row RP_REJECTED [code])))"
| "replan_step q db (R_Budget row c) =
     (let (b, c') = caller_step (replan_charge q row (case rq_max_replans q of None \<Rightarrow> Fin 0 | Some l \<Rightarrow> l)) (rd_budget db) c in
      (db\<lparr>rd_budget := b\<rparr>, case c' of
         B_Done r \<Rightarrow> after_budget row r
       | _ \<Rightarrow> R_Budget row c'))"
| "replan_step q db (R_Revision row) = (db,
     R_Exists \<lparr>rx_row = row, rx_old = map_option pw_revision (plan_get (rd_plans db) (pp_plan_id row))\<rparr>)"
| "replan_step q db (R_Exists x) = (db, case replacement_action_from_row (rx_row x) of
     Inl e \<Rightarrow> R_Done (Inl (Replan_Load e))
   | Inr a \<Rightarrow> (case action_get (rd_actions db) (pp_replacement_action_id (rx_row x)) of
        Some _ \<Rightarrow> R_Failed x
      | None \<Rightarrow> (case action_to_record_fields a of Inl e \<Rightarrow> R_Done (Inl (Replan_Too_Large e)) | Inr r \<Rightarrow> R_Create x r)))"
| "replan_step q db (R_Create x r) = (case action_create (rd_actions db) r of
     None \<Rightarrow> db | Some t \<Rightarrow> db\<lparr>rd_actions := t\<rparr>, R_Failed x)"
| "replan_step q db (R_Failed x) = (db, case action_get (rd_actions db) (pp_failed_action_id (rx_row x)) of
     None \<Rightarrow> R_Dependents x
   | Some f \<Rightarrow> if ro_superseded_by_action_id f = None then R_Supersede x f else R_Dependents x)"
| "replan_step q db (R_Supersede x f) = (db\<lparr>rd_actions := snd (action_update (rd_actions db) (ro_id f) (ro_version f)
     (\<lambda>r. r\<lparr>ro_superseded_by_action_id := Some (pp_replacement_action_id (rx_row x))\<rparr>))\<rparr>, R_Dependents x)"
| "replan_step q db (R_Dependents x) = (db, case load_plan_actions (rd_actions db) (pp_plan_id (rx_row x)) of
     Inl e \<Rightarrow> R_Done (Inl (Replan_Load e))
   | Inr as \<Rightarrow> (case filter (\<lambda>a. \<not> skipped x a) as of [] \<Rightarrow> R_Load_Plan x | todo \<Rightarrow> R_Rewire x todo))"
| "replan_step q db (R_Rewire x []) = (db, R_Load_Plan x)"
| "replan_step q db (R_Rewire x (a # todo)) = (db, let next = (if todo = [] then R_Load_Plan x else R_Rewire x todo) in
     case action_get (rd_actions db) (a_id a) of
       None \<Rightarrow> next
     | Some r \<Rightarrow> (case bind_sum (load_json (ro_dependencies_json r) (JArr [])) (json_contains (pp_failed_action_id (rx_row x))) of
          Inl e \<Rightarrow> R_Done (Inl (Replan_Load e))
        | Inr False \<Rightarrow> next
        | Inr True \<Rightarrow> R_Rewire_Write x r
            (rewired (pp_failed_action_id (rx_row x)) (pp_replacement_action_id (rx_row x)) (a_dependencies a)) todo))"
| "replan_step q db (R_Rewire_Write x r deps todo) = (db\<lparr>rd_actions := snd (action_update (rd_actions db) (ro_id r) (ro_version r)
     (\<lambda>r. r\<lparr>ro_dependencies_json := Some (strs_json (sort deps))\<rparr>))\<rparr>, if todo = [] then R_Load_Plan x else R_Rewire x todo)"
| "replan_step q db (R_Load_Plan x) = (db, case plan_get (rd_plans db) (pp_plan_id (rx_row x)) of
     None \<Rightarrow> R_Done (Inl (Replan_Row_Missing (pp_plan_id (rx_row x)))) | Some p \<Rightarrow> R_Load_Actions x p)"
| "replan_step q db (R_Load_Actions x p) = (db, case load_plan_actions (rd_actions db) (pp_plan_id (rx_row x)) of
     Inl e \<Rightarrow> R_Done (Inl (Replan_Load e))
   | Inr as \<Rightarrow> (let h = compute_plan_hash (record_to_plan p as) in if pw_plan_hash p \<noteq> Some h then R_Hash x p h else R_Reread x))"
| "replan_step q db (R_Hash x p h) = (db\<lparr>rd_plans := snd (plan_update (rd_plans db) (pp_plan_id (rx_row x)) (pw_version p)
     (\<lambda>r. r\<lparr>pw_plan_hash := Some h, pw_revision := pw_revision p + 1\<rparr>))\<rparr>, R_Reread x)"
| "replan_step q db (R_Reread x) = (db, case plan_get (rd_plans db) (pp_plan_id (rx_row x)) of
     None \<Rightarrow> R_Done (Inl (Replan_Row_Missing (pp_plan_id (rx_row x))))
   | Some p \<Rightarrow> if pw_status p \<in> set revivable then R_Revive x p else after_claim x (pw_revision p))"
| "replan_step q db (R_Revive x p) = (db\<lparr>rd_plans := snd (plan_update (rd_plans db) (pp_plan_id (rx_row x)) (pw_version p)
     (\<lambda>r. r\<lparr>pw_status := PS_EXECUTING\<rparr>))\<rparr>, R_Reread_Revived x (pw_revision p))"
| "replan_step q db (R_Reread_Revived x n) = (db, after_claim x n)"
| "replan_step q db (R_Claim x n) = (db\<lparr>rd_proposals := snd (claim_for_apply (rd_proposals db) (pp_id (rx_row x)) (pp_version (rx_row x)))\<rparr>,
     R_Final x n)"
| "replan_step q db (R_Final x n) = (db, case proposal_get (rd_proposals db) (pp_id (rx_row x)) of
     None \<Rightarrow> R_Done (Inl (Replan_Row_Missing (pp_id (rx_row x))))
   | Some r \<Rightarrow> if pp_applied_at r = None then R_Stamp x r n else applied_result x n)"
| "replan_step q db (R_Stamp x r n) = (db\<lparr>rd_proposals := snd (proposal_update (rd_proposals db) (pp_id r) (pp_version r)
     (\<lambda>r. r\<lparr>pp_applied_at := Some (rq_clock q), pp_new_plan_revision := Some n\<rparr>))\<rparr>, applied_result x n)"
| "replan_step q db (R_Done r) = (db, R_Done r)"

section \<open>Returning\<close>

text \<open>Every step before the last moves to a later phase, or stays in the rewiring loop with less to do, or in the budget
  call with a smaller rank.\<close>

fun replan_rank :: "replan_pc \<Rightarrow> nat \<times> nat" where
  "replan_rank (R_Done _) = (0, 0)"
| "replan_rank (R_Stamp _ _ _) = (1, 0)"
| "replan_rank (R_Final _ _) = (2, 0)"
| "replan_rank (R_Claim _ _) = (3, 0)"
| "replan_rank (R_Reread_Revived _ _) = (4, 0)"
| "replan_rank (R_Revive _ _) = (5, 0)"
| "replan_rank (R_Reread _) = (6, 0)"
| "replan_rank (R_Hash _ _ _) = (7, 0)"
| "replan_rank (R_Load_Actions _ _) = (8, 0)"
| "replan_rank (R_Load_Plan _) = (9, 0)"
| "replan_rank (R_Rewire _ todo) = (10, 2 * length todo)"
| "replan_rank (R_Rewire_Write _ _ _ todo) = (10, Suc (2 * length todo))"
| "replan_rank (R_Dependents _) = (11, 0)"
| "replan_rank (R_Supersede _ _) = (12, 0)"
| "replan_rank (R_Failed _) = (13, 0)"
| "replan_rank (R_Create _ _) = (14, 0)"
| "replan_rank (R_Exists _) = (15, 0)"
| "replan_rank (R_Revision _) = (16, 0)"
| "replan_rank (R_Reject _ _) = (16, 0)"
| "replan_rank (R_Budget _ c) = (17, caller_rank c)"
| "replan_rank (R_Plan_Check _) = (18, 0)"
| "replan_rank R_Start = (19, 0)"

fun replan_done :: "replan_pc \<Rightarrow> bool" where
  "replan_done (R_Done _) = True"
| "replan_done _ = False"

definition replan_less :: "(replan_pc \<times> replan_pc) set" where
  "replan_less = inv_image (less_than <*lex*> less_than) replan_rank"

lemma replan_less_iff: "(d, c) \<in> replan_less \<longleftrightarrow> (replan_rank d, replan_rank c) \<in> less_than <*lex*> less_than"
  by (simp add: replan_less_def)

lemma wf_replan_less: "wf replan_less"
  unfolding replan_less_def by blast

lemma replan_rank_helpers [simp]:
  "(replan_rank (after_row row), 19, 0) \<in> less_than <*lex*> less_than"
  "(replan_rank (after_budget row r), 17, k) \<in> less_than <*lex*> less_than"
  "(replan_rank (after_claim x n), 6, 0) \<in> less_than <*lex*> less_than"
  "(replan_rank (after_claim x n), 4, 0) \<in> less_than <*lex*> less_than"
  "replan_rank (applied_result x n) = (0, 0)"
  by (simp_all add: after_row_def after_budget_def after_claim_def applied_result_def split: replan_proposal_status.split sum.split)

lemma replan_step_decreases:
  assumes "\<not> replan_done c"
  shows "(snd (replan_step q d c), c) \<in> replan_less"
proof (cases "(q, d, c)" rule: replan_step.cases)
  case (4 q' db row b)
  show ?thesis
  proof (cases "caller_rank b = 0")
    case True
    then obtain r where "b = B_Done r" by (cases b) auto
    then show ?thesis using 4 by (simp add: replan_less_iff)
  next
    case False
    obtain b' c' where s: "caller_step (replan_charge q row (case rq_max_replans q of None \<Rightarrow> Fin 0 | Some l \<Rightarrow> l)) (rd_budget d) b = (b', c')"
      by fastforce
    then have "caller_rank c' < caller_rank b"
      using caller_step_rank [OF False, of "replan_charge q row (case rq_max_replans q of None \<Rightarrow> Fin 0 | Some l \<Rightarrow> l)" "rd_budget d"] by simp
    then show ?thesis using 4 s by (cases c') (auto simp: replan_less_iff)
  qed
qed (use assms in \<open>auto simp: Let_def replan_less_iff split: option.splits sum.splits list.splits bool.splits\<close>)

interpretation replan_body: ranked_body replan_step replan_done replan_less
  by unfold_locales (rule wf_replan_less, rule replan_step_decreases)

text \<open>One call alone.\<close>

function run_replan :: "replan_request \<Rightarrow> replan_db \<Rightarrow> replan_pc \<Rightarrow> replan_db \<times> (replan_error + replan_result)" where
  "run_replan q db pc = (case pc of
     R_Done r \<Rightarrow> (db, r)
   | _ \<Rightarrow> run_replan q (fst (replan_step q db pc)) (snd (replan_step q db pc)))"
  by pat_completeness auto
termination
  by (relation "inv_image replan_less (\<lambda>(q, db, pc). pc)") (simp_all add: wf_replan_less replan_step_decreases case_prod_beta del: replan_step.simps)

declare run_replan.simps [simp del]

definition apply_replan :: "replan_request \<Rightarrow> replan_db \<Rightarrow> replan_db \<times> (replan_error + replan_result)" where
  "apply_replan q db = run_replan q db R_Start"

section \<open>What calls may change\<close>

text \<open>A later state of an action row: the same, or a newer version with other dependencies, and a replacement
  if it had none.\<close>

definition action_kept :: "action_row \<Rightarrow> action_row \<Rightarrow> bool" where
  "action_kept r r' = (r' = r \<or> ro_version r < ro_version r' \<and>
     r' = r\<lparr>ro_dependencies_json := ro_dependencies_json r', ro_superseded_by_action_id := ro_superseded_by_action_id r', ro_version := ro_version r'\<rparr> \<and>
     (ro_superseded_by_action_id r = None \<or> ro_superseded_by_action_id r' = ro_superseded_by_action_id r))"

definition action_fresh :: "action_row \<Rightarrow> bool" where
  "action_fresh r = (ro_status r = AS_VALIDATED \<and> \<not> ro_approval_required r \<and> ro_approval_id r = None)"

definition actions_kept :: "action_row list \<Rightarrow> action_row list \<Rightarrow> bool" where
  "actions_kept t t' = (\<forall>i. case action_get t i of
     Some r \<Rightarrow> (\<exists>r'. action_get t' i = Some r' \<and> action_kept r r')
   | None \<Rightarrow> (\<forall>r'. action_get t' i = Some r' \<longrightarrow> action_fresh r'))"

text \<open>A later state of a plan row: the same, or a newer version with another hash, revision and status, which only
  changes by a revival.\<close>

definition plan_kept :: "plan_row \<Rightarrow> plan_row \<Rightarrow> bool" where
  "plan_kept p p' = (p' = p \<or> pw_version p < pw_version p' \<and>
     p' = p\<lparr>pw_plan_hash := pw_plan_hash p', pw_revision := pw_revision p', pw_status := pw_status p', pw_version := pw_version p'\<rparr> \<and>
     pw_revision p \<le> pw_revision p' \<and>
     (pw_status p' = pw_status p \<or> pw_status p \<in> set revivable \<and> pw_status p' = PS_EXECUTING))"

definition plans_kept :: "plan_row list \<Rightarrow> plan_row list \<Rightarrow> bool" where
  "plans_kept t t' = (\<forall>i. case plan_get t i of
     Some p \<Rightarrow> (\<exists>p'. plan_get t' i = Some p' \<and> plan_kept p p') | None \<Rightarrow> plan_get t' i = None)"

definition replan_kept :: "replan_db \<Rightarrow> replan_db \<Rightarrow> bool" where
  "replan_kept db db' = (actions_kept (rd_actions db) (rd_actions db') \<and> plans_kept (rd_plans db) (rd_plans db'))"

lemma action_kept_refl [simp]: "action_kept r r"
  by (simp add: action_kept_def)

lemma action_kept_trans: "action_kept r s \<Longrightarrow> action_kept s t \<Longrightarrow> action_kept r t"
  unfolding action_kept_def by (cases r; cases s; cases t) auto

lemma action_fresh_kept: "action_fresh r \<Longrightarrow> action_kept r s \<Longrightarrow> action_fresh s"
  unfolding action_kept_def action_fresh_def by (cases r; cases s) auto

lemma plan_kept_refl [simp]: "plan_kept p p"
  by (simp add: plan_kept_def)

lemma plan_kept_trans: "plan_kept p q \<Longrightarrow> plan_kept q r \<Longrightarrow> plan_kept p r"
  unfolding plan_kept_def by (cases p; cases q; cases r) (auto simp: revivable_def)

lemma actions_kept_refl [simp]: "actions_kept t t"
  by (simp add: actions_kept_def split: option.split)

lemma plans_kept_refl [simp]: "plans_kept t t"
  by (simp add: plans_kept_def split: option.split)

lemma actions_keptD: "actions_kept t t' \<Longrightarrow> action_get t i = Some r \<Longrightarrow> \<exists>r'. action_get t' i = Some r' \<and> action_kept r r'"
  "actions_kept t t' \<Longrightarrow> action_get t i = None \<Longrightarrow> action_get t' i = Some r' \<Longrightarrow> action_fresh r'"
  by (drule actions_kept_def [THEN iffD1, THEN spec [of _ i]], simp)+

lemma plans_keptD: "plans_kept t t' \<Longrightarrow> plan_get t i = Some p \<Longrightarrow> \<exists>p'. plan_get t' i = Some p' \<and> plan_kept p p'"
  "plans_kept t t' \<Longrightarrow> plan_get t i = None \<Longrightarrow> plan_get t' i = None"
  by (drule plans_kept_def [THEN iffD1, THEN spec [of _ i]], simp)+

lemma actions_kept_trans: "actions_kept t u \<Longrightarrow> actions_kept u v \<Longrightarrow> actions_kept t v"
proof (unfold actions_kept_def [of t v], rule allI)
  fix i
  assume k: "actions_kept t u" "actions_kept u v"
  show "case action_get t i of Some r \<Rightarrow> (\<exists>r'. action_get v i = Some r' \<and> action_kept r r')
    | None \<Rightarrow> (\<forall>r'. action_get v i = Some r' \<longrightarrow> action_fresh r')"
  proof (cases "action_get t i")
    case None
    have "action_fresh r'" if "action_get v i = Some r'" for r'
      using actions_keptD(2) [OF k(1) None] actions_keptD(2) [OF k(2) _ that] actions_keptD(1) [OF k(2), of i] action_fresh_kept that
      by (cases "action_get u i") auto
    then show ?thesis using None by simp
  next
    case (Some r)
    then show ?thesis using actions_keptD(1) [OF k(1) Some] actions_keptD(1) [OF k(2)] action_kept_trans by auto blast
  qed
qed

lemma plans_kept_trans: "plans_kept t u \<Longrightarrow> plans_kept u v \<Longrightarrow> plans_kept t v"
proof (unfold plans_kept_def [of t v], rule allI)
  fix i
  assume k: "plans_kept t u" "plans_kept u v"
  show "case plan_get t i of Some p \<Rightarrow> (\<exists>p'. plan_get v i = Some p' \<and> plan_kept p p') | None \<Rightarrow> plan_get v i = None"
  proof (cases "plan_get t i")
    case (Some p)
    then show ?thesis using plans_keptD(1) [OF k(1) Some] plans_keptD(1) [OF k(2)] plan_kept_trans by auto blast
  qed (use plans_keptD(2) [OF k(1)] plans_keptD(2) [OF k(2)] in simp)
qed

text \<open>What a caller holds: rows it read, which are still current or have moved on.\<close>

definition action_held :: "action_row list \<Rightarrow> action_row \<Rightarrow> bool" where
  "action_held t f = (\<exists>r. action_get t (ro_id f) = Some r \<and> action_kept f r)"

definition plan_held :: "plan_row list \<Rightarrow> string \<Rightarrow> plan_row \<Rightarrow> bool" where
  "plan_held t i p = (\<exists>r. plan_get t i = Some r \<and> plan_kept p r)"

fun replan_ok :: "replan_db \<Rightarrow> replan_pc \<Rightarrow> bool" where
  "replan_ok db (R_Create x r) = action_fresh r"
| "replan_ok db (R_Supersede x f) = (action_held (rd_actions db) f \<and> ro_superseded_by_action_id f = None)"
| "replan_ok db (R_Rewire_Write x r deps todo) = action_held (rd_actions db) r"
| "replan_ok db (R_Load_Actions x p) = plan_held (rd_plans db) (pp_plan_id (rx_row x)) p"
| "replan_ok db (R_Hash x p h) = plan_held (rd_plans db) (pp_plan_id (rx_row x)) p"
| "replan_ok db (R_Revive x p) = (plan_held (rd_plans db) (pp_plan_id (rx_row x)) p \<and> pw_status p \<in> set revivable)"
| "replan_ok db _ = True"

lemma action_held_kept: "action_held t f \<Longrightarrow> actions_kept t t' \<Longrightarrow> action_held t' f"
  unfolding action_held_def using actions_keptD(1) action_kept_trans by blast

lemma plan_held_kept: "plan_held t i p \<Longrightarrow> plans_kept t t' \<Longrightarrow> plan_held t' i p"
  unfolding plan_held_def using plans_keptD(1) plan_kept_trans by blast

lemma replan_ok_kept: "replan_ok db c \<Longrightarrow> replan_kept db db' \<Longrightarrow> replan_ok db' c"
  using action_held_kept plan_held_kept by (cases c) (auto simp: replan_kept_def)

lemma replan_ok_helpers [simp]: "replan_ok db (after_row row)" "replan_ok db (after_budget row r)" "replan_ok db (after_claim x n)" "replan_ok db (applied_result x n)"
  by (simp_all add: after_row_def after_budget_def after_claim_def applied_result_def split: replan_proposal_status.split sum.split)

lemma action_get_held: "action_get t i = Some r \<Longrightarrow> action_held t r"
  using tbl_get_SomeD [of ro_id t i r] by (auto simp: action_held_def action_get_def)

lemma plan_get_held: "plan_get t i = Some p \<Longrightarrow> plan_held t i p"
  by (auto simp: plan_held_def)

text \<open>A conditional write of a held row either loses or finds the row as it was read.\<close>

lemma held_update:
  assumes "action_held t f" "\<forall>r. ro_id (g r) = ro_id r" "action_kept f ((g f)\<lparr>ro_version := ro_version f + 1\<rparr>)"
  shows "actions_kept t (snd (action_update t (ro_id f) (ro_version f) g))"
proof (cases "fst (action_update t (ro_id f) (ro_version f) g)")
  case True
  then obtain r where r: "action_get t (ro_id f) = Some r" "ro_version r = ro_version f" using action_store.cas_ok_iff by blast
  then have "r = f" using assms(1) by (auto simp: action_held_def action_kept_def)
  then show ?thesis using r assms(3) True
    by (auto simp: actions_kept_def action_store.cas_get [OF True assms(2)] split: option.split)
qed (simp add: action_store.cas_fail)

lemma held_plan_update:
  assumes "plan_held t i p" "\<forall>r. pw_id (g r) = pw_id r" "plan_kept p ((g p)\<lparr>pw_version := pw_version p + 1\<rparr>)"
  shows "plans_kept t (snd (plan_update t i (pw_version p) g))"
proof (cases "fst (plan_update t i (pw_version p) g)")
  case True
  then obtain r where r: "plan_get t i = Some r" "pw_version r = pw_version p" using plan_store.cas_ok_iff by blast
  then have "r = p" using assms(1) by (auto simp: plan_held_def plan_kept_def)
  then show ?thesis using r assms(3) True
    by (auto simp: plans_kept_def plan_store.cas_get [OF True assms(2)] split: option.split)
qed (simp add: plan_store.cas_fail)

lemma create_kept: "action_fresh r \<Longrightarrow> action_create t r = Some t' \<Longrightarrow> actions_kept t t'"
  by (auto simp: actions_kept_def action_create_def action_get_def tbl_get_insert dest: tbl_insert_new split: option.split)

lemma replacement_fresh:
  assumes "replacement_action_from_row row = Inr a" "action_to_record_fields a = Inr r"
  shows "action_fresh r"
  using assms
  by (auto simp: replacement_action_from_row_def bind_sum_InrE action_to_record_fields_def action_fresh_def split: sum.splits)

lemma replan_step_kept:
  assumes "replan_ok db c" "replan_step q db c = (db', c')"
  shows "replan_kept db db' \<and> replan_ok db' c'"
proof (cases "(q, db, c)" rule: replan_step.cases)
  case (6 q' d x)
  then show ?thesis using assms(2) replacement_fresh by (auto simp: replan_kept_def split: sum.splits option.splits)
next
  case (7 q' d x r)
  then show ?thesis using assms create_kept by (auto simp: replan_kept_def split: option.splits)
next
  case (9 q' d x f)
  have "action_kept f (f\<lparr>ro_superseded_by_action_id := s, ro_version := ro_version f + 1\<rparr>)" if "ro_superseded_by_action_id f = None" for s
    using that by (simp add: action_kept_def)
  then show ?thesis using 9 assms held_update by (auto simp: replan_kept_def)
next
  case (13 q' d x r deps todo)
  have "action_kept r (r\<lparr>ro_dependencies_json := s, ro_version := ro_version r + 1\<rparr>)" for s
    by (simp add: action_kept_def)
  then show ?thesis using 13 assms held_update by (auto simp: replan_kept_def)
next
  case (16 q' d x p h)
  have "plan_kept p (p\<lparr>pw_plan_hash := s, pw_revision := pw_revision p + 1, pw_version := pw_version p + 1\<rparr>)" for s
    by (simp add: plan_kept_def)
  then show ?thesis using 16 assms held_plan_update by (auto simp: replan_kept_def)
next
  case (18 q' d x p)
  have "plan_kept p (p\<lparr>pw_status := PS_EXECUTING, pw_version := pw_version p + 1\<rparr>)" if "pw_status p \<in> set revivable"
    using that by (simp add: plan_kept_def)
  then show ?thesis using 18 assms held_plan_update by (auto simp: replan_kept_def)
qed (use assms action_get_held plan_get_held in
    \<open>auto simp: replan_kept_def Let_def split: option.splits sum.splits list.splits bool.splits prod.splits caller.splits if_splits\<close>)

interpretation replan_calls: rely_guarantee replan_step "\<lambda>q. replan_ok" replan_kept
proof unfold_locales
  show "replan_kept d d" for d by (simp add: replan_kept_def)
  show "replan_kept d d1 \<Longrightarrow> replan_kept d1 d2 \<Longrightarrow> replan_kept d d2" for d d1 d2
    using actions_kept_trans plans_kept_trans unfolding replan_kept_def by blast
qed (use replan_step_kept replan_ok_kept in blast)+

end
