(* ===== verification/Replan_Apply.thy ===== *)
theory Replan_Apply
  imports Replan
begin

text \<open>
  What one undisturbed call of \<open>apply_replan\<close> achieves, from its first read to its result, and what calls can do to
  each other and to a proposal's recorded outcome.
\<close>

section \<open>Rows that load\<close>

definition rows_load :: "action_row list \<Rightarrow> string \<Rightarrow> bool" where
  "rows_load t i = (\<forall>r \<in> set t. ro_action_plan_id r = i \<longrightarrow> (\<exists>a. record_to_action r = Inr a))"

lemma load_all_Inr_iff: "(\<exists>as. load_all rs = Inr as) \<longleftrightarrow> (\<forall>r \<in> set rs. \<exists>a. record_to_action r = Inr a)"
proof (induction rs)
  case (Cons r rs)
  then show ?case by (cases "record_to_action r"; cases "load_all rs") auto
qed simp

lemma load_all_members: "load_all rs = Inr as \<Longrightarrow> a \<in> set as \<longleftrightarrow> (\<exists>r \<in> set rs. record_to_action r = Inr a)"
  by (induction rs arbitrary: as) (auto simp: bind_sum_InrE)

lemma load_all_ids: "load_all rs = Inr as \<Longrightarrow> map a_id as = map ro_id rs"
  by (induction rs arbitrary: as) (auto simp: bind_sum_InrE record_to_action_def)

lemma set_list_by_plan: "set (action_list_by_plan t i) = {r \<in> set t. ro_action_plan_id r = i}"
  by (auto simp: action_list_by_plan_def)

lemma rows_load_iff: "rows_load t i \<longleftrightarrow> (\<exists>as. load_plan_actions t i = Inr as)"
  by (auto simp: rows_load_def load_plan_actions_def load_all_Inr_iff set_list_by_plan)

lemma load_plan_actions_members:
  "load_plan_actions t i = Inr as \<Longrightarrow> a \<in> set as \<longleftrightarrow> (\<exists>r \<in> set t. ro_action_plan_id r = i \<and> record_to_action r = Inr a)"
  using load_all_members by (fastforce simp: load_plan_actions_def set_list_by_plan)

lemma load_plan_actions_distinct:
  assumes "load_plan_actions t i = Inr as" "tbl_unique ro_id t"
  shows "distinct (map a_id as)"
proof -
  have "distinct (map ro_id (action_list_by_plan t i))"
    using assms(2) by (simp add: action_list_by_plan_def tbl_unique_def distinct_map distinct_filter inj_on_def)
  then show ?thesis using load_all_ids assms(1) by (simp add: load_plan_actions_def)
qed

lemma mem_action_get: "tbl_unique ro_id t \<Longrightarrow> r \<in> set t \<longleftrightarrow> action_get t (ro_id r) = Some r"
  using tbl_get_mem [of ro_id t r] tbl_get_SomeD [of ro_id t "ro_id r" r] by (auto simp: action_get_def)

lemma action_get_id: "action_get t i = Some r \<Longrightarrow> ro_id r = i"
  using tbl_get_SomeD [of ro_id t i r] by (simp add: action_get_def)

lemma record_to_action_id: "record_to_action r = Inr a \<Longrightarrow> a_id a = ro_id r"
  by (auto simp: record_to_action_def bind_sum_InrE)

lemma as_str_list_Inr: "as_str_list vs = Inr ss \<Longrightarrow> vs = map JStr ss"
  by (induction vs arbitrary: ss) (auto split: json.splits sum.splits)

lemma json_contains_deps:
  assumes "record_to_action r = Inr a"
  shows "bind_sum (load_json (ro_dependencies_json r) (JArr [])) (json_contains x) = Inr (x \<in> set (a_dependencies a))"
proof -
  obtain v where v: "load_json (ro_dependencies_json r) (JArr []) = Inr v" "as_strs v = Inr (a_dependencies a)"
    using assms by (auto simp: record_to_action_def bind_sum_InrE)
  then have "v = JArr (map JStr (a_dependencies a))" using as_str_list_Inr by (auto simp: as_strs_def split: json.splits)
  then show ?thesis using v(1) by (auto simp: json_contains_def)
qed

lemma load_strs_json: "bind_sum (load_json (Some (strs_json ds)) d) as_strs = Inr ds"
  using load_json_bounded [OF dependencies_json_facts(1,2) order_refl, of ds d]
  by (simp add: strs_json_def bounded_json_def dependencies_json_facts flip: dependencies_json_def)

lemma record_to_action_rewritten:
  assumes "record_to_action r = Inr a"
  shows "record_to_action (r\<lparr>ro_dependencies_json := Some (strs_json ds), ro_version := n\<rparr>) = Inr (a\<lparr>a_dependencies := ds\<rparr>)"
    "\<exists>b. record_to_action (r\<lparr>ro_superseded_by_action_id := s, ro_version := n\<rparr>) = Inr b \<and> a_dependencies b = a_dependencies a"
  using assms by (auto simp: record_to_action_def bind_sum_InrE load_strs_json)

section \<open>The rewiring loop\<close>

definition rewire_one :: "replan_ctx \<Rightarrow> action \<Rightarrow> action_row list \<Rightarrow> action_row list" where
  "rewire_one x a t = (case action_get t (a_id a) of None \<Rightarrow> t
     | Some r \<Rightarrow> snd (action_update t (ro_id r) (ro_version r) (\<lambda>r. r\<lparr>ro_dependencies_json := Some (strs_json (sort
         (rewired (pp_failed_action_id (rx_row x)) (pp_replacement_action_id (rx_row x)) (a_dependencies a))))\<rparr>)))"

definition rewirable :: "replan_ctx \<Rightarrow> action_row list \<Rightarrow> action \<Rightarrow> bool" where
  "rewirable x t a = (\<exists>r. action_get t (a_id a) = Some r \<and> record_to_action r = Inr a \<and>
     pp_failed_action_id (rx_row x) \<in> set (a_dependencies a))"

lemma rewire_one_get:
  assumes "action_get t (a_id a) = Some r"
  shows "action_get (rewire_one x a t) i = (if i = a_id a then Some (r\<lparr>ro_dependencies_json := Some (strs_json (sort
      (rewired (pp_failed_action_id (rx_row x)) (pp_replacement_action_id (rx_row x)) (a_dependencies a)))), ro_version := ro_version r + 1\<rparr>)
    else action_get t i)"
proof -
  let ?f = "\<lambda>r. r\<lparr>ro_dependencies_json := Some (strs_json (sort
      (rewired (pp_failed_action_id (rx_row x)) (pp_replacement_action_id (rx_row x)) (a_dependencies a))))\<rparr>"
  have id: "ro_id r = a_id a" using action_get_id [OF assms] .
  have k: "\<forall>r. ro_id (?f r) = ro_id r" by simp
  show ?thesis using action_store.reader_writes [OF assms k] action_store.cas_other [OF k, of i "a_id a" t "ro_version r"] assms
    by (simp add: rewire_one_def id)
qed

lemma rewire_one_keys: "tbl_unique ro_id t \<Longrightarrow> tbl_unique ro_id (rewire_one x a t)"
  by (auto simp: rewire_one_def action_update_def intro!: tbl_unique_vcas split: option.split)

lemma rewire_step:
  assumes "rewirable x t a"
  shows "run_replan q (db\<lparr>rd_actions := t\<rparr>) (R_Rewire x (a # todo)) =
    run_replan q (db\<lparr>rd_actions := rewire_one x a t\<rparr>) (if todo = [] then R_Load_Plan x else R_Rewire x todo)"
proof -
  obtain r where r: "action_get t (a_id a) = Some r" "record_to_action r = Inr a" "pp_failed_action_id (rx_row x) \<in> set (a_dependencies a)"
    using assms by (auto simp: rewirable_def)
  show ?thesis
    using r json_contains_deps [OF r(2), of "pp_failed_action_id (rx_row x)"]
    by (subst run_replan.simps, subst run_replan.simps) (simp add: rewire_one_def)
qed

lemma rewire_run:
  assumes "\<forall>a \<in> set todo. rewirable x t a" "distinct (map a_id todo)" "todo \<noteq> []"
  shows "run_replan q (db\<lparr>rd_actions := t\<rparr>) (R_Rewire x todo) =
    run_replan q (db\<lparr>rd_actions := fold (rewire_one x) todo t\<rparr>) (R_Load_Plan x)"
  using assms
proof (induction todo arbitrary: t)
  case (Cons a todo)
  obtain r where r: "action_get t (a_id a) = Some r" using Cons.prems(1) by (auto simp: rewirable_def)
  have "rewirable x (rewire_one x a t) b" if "b \<in> set todo" for b
  proof -
    have "a_id b \<noteq> a_id a" using Cons.prems(2) imageI [OF that, of a_id] by auto
    then show ?thesis using Cons.prems(1) that by (auto simp: rewirable_def rewire_one_get [OF r])
  qed
  then show ?case using Cons by (cases "todo = []") (simp_all add: rewire_step)
qed simp

lemma rewire_fold_get:
  assumes "\<forall>a \<in> set todo. rewirable x t a" "distinct (map a_id todo)"
  shows "action_get (fold (rewire_one x) todo t) i = (case List.find (\<lambda>a. a_id a = i) todo of None \<Rightarrow> action_get t i
    | Some a \<Rightarrow> map_option (\<lambda>r. r\<lparr>ro_dependencies_json := Some (strs_json (sort
         (rewired (pp_failed_action_id (rx_row x)) (pp_replacement_action_id (rx_row x)) (a_dependencies a)))), ro_version := ro_version r + 1\<rparr>)
       (action_get t i))"
  using assms
proof (induction todo arbitrary: t)
  case (Cons a todo)
  obtain r where r: "action_get t (a_id a) = Some r" using Cons.prems(1) by (auto simp: rewirable_def)
  have w: "rewirable x (rewire_one x a t) b" if "b \<in> set todo" for b
  proof -
    have "a_id b \<noteq> a_id a" using Cons.prems(2) imageI [OF that, of a_id] by auto
    then show ?thesis using Cons.prems(1) that by (auto simp: rewirable_def rewire_one_get [OF r])
  qed
  have n: "List.find (\<lambda>b. a_id b = a_id a) todo = None" using Cons.prems(2) by (auto simp: find_None_iff image_iff)
  show ?case using Cons.IH [of "rewire_one x a t"] w Cons.prems(2) n by (auto simp: rewire_one_get [OF r] r split: option.split)
qed simp

lemma rewire_fold_keys: "tbl_unique ro_id t \<Longrightarrow> tbl_unique ro_id (fold (rewire_one x) todo t)"
  by (induction todo arbitrary: t) (simp_all add: rewire_one_keys)

section \<open>The phases of an undisturbed call\<close>

lemma run_replan_done [simp]: "run_replan q db (R_Done r) = (db, r)"
  by (simp add: run_replan.simps)

lemma run_replan_step: "\<not> replan_done c \<Longrightarrow> replan_step q db c = (db', c') \<Longrightarrow> run_replan q db c = run_replan q db' c'"
  by (subst run_replan.simps) (cases c; simp del: replan_step.simps)

lemma run_budget:
  assumes "rq_max_replans q = Some l" "run_caller n (replan_charge q row l) (rd_budget db) c = (b, B_Done r)"
  shows "run_replan q db (R_Budget row c) = run_replan q (db\<lparr>rd_budget := b\<rparr>) (after_budget row r)"
  using assms(2)
proof (induction n arbitrary: db c)
  case 0
  then show ?case using assms(1) by (subst run_replan_step) (auto simp: Let_def)
next
  case (Suc n)
  obtain b' c' where s: "caller_step (replan_charge q row l) (rd_budget db) c = (b', c')" by fastforce
  then have n: "run_caller n (replan_charge q row l) b' c' = (b, B_Done r)" using Suc.prems by simp
  show ?case
  proof (cases "\<exists>r'. c' = B_Done r'")
    case True
    then show ?thesis using n s assms(1) by (subst run_replan_step) (auto simp: run_caller_finished)
  next
    case False
    then have "replan_step q db (R_Budget row c) = (db\<lparr>rd_budget := b'\<rparr>, R_Budget row c')"
      using s assms(1) by (cases c') auto
    then show ?thesis using Suc.IH [of "db\<lparr>rd_budget := b'\<rparr>" c'] n by (simp add: run_replan_step del: replan_step.simps)
  qed
qed

definition replan_affordable :: "replan_request \<Rightarrow> proposal_row \<Rightarrow> budget_db \<Rightarrow> bool" where
  "replan_affordable q row b = (case rq_max_replans q of None \<Rightarrow> True
     | Some l \<Rightarrow> (case snd (reserve_and_consume (replan_charge q row l) b) of Some (Inr r) \<Rightarrow> bc_granted r | _ \<Rightarrow> False))"

lemma run_start:
  assumes "proposal_get (rd_proposals db) (rq_proposal_id q) = Some row" "pp_status row \<in> {RP_PROPOSED, RP_APPLIED}"
    "plan_get (rd_plans db) (pp_plan_id row) = Some p" "pw_status p \<noteq> PS_CANCELLED" "replan_affordable q row (rd_budget db)"
  shows "\<exists>b. apply_replan q db = run_replan q (db\<lparr>rd_budget := b\<rparr>) (R_Revision row)"
proof -
  have a: "apply_replan q db = run_replan q db (R_Plan_Check row)"
    using assms(1,2) unfolding apply_replan_def by (subst run_replan_step) (auto simp: after_row_def)
  show ?thesis
  proof (cases "rq_max_replans q")
    case None
    then have "apply_replan q db = run_replan q (db\<lparr>rd_budget := rd_budget db\<rparr>) (R_Revision row)"
      unfolding a using assms(3,4) by (subst run_replan_step) simp_all
    then show ?thesis by blast
  next
    case (Some l)
    have b: "apply_replan q db = run_replan q db (R_Budget row B_Start)"
      unfolding a using assms(3,4) Some by (subst run_replan_step) simp_all
    obtain b r where r: "run_caller 18 (replan_charge q row l) (rd_budget db) B_Start = (b, B_Done r)"
      using run_caller_done [of B_Start 18 "replan_charge q row l" "rd_budget db"] by auto
    then obtain r' where "r = Inr r'" "bc_granted r'"
      using assms(5) Some by (cases r) (auto simp: replan_affordable_def reserve_and_consume_def)
    then have "apply_replan q db = run_replan q (db\<lparr>rd_budget := b\<rparr>) (R_Revision row)"
      unfolding b using run_budget [OF Some r] by (simp add: after_budget_def)
    then show ?thesis by blast
  qed
qed

definition with_replacement :: "action_row \<Rightarrow> action_row list \<Rightarrow> action_row list" where
  "with_replacement r t = (if action_get t (ro_id r) = None then t @ [r] else t)"

definition superseded :: "replan_ctx \<Rightarrow> action_row list \<Rightarrow> action_row list" where
  "superseded x t = (case action_get t (pp_failed_action_id (rx_row x)) of None \<Rightarrow> t
     | Some f \<Rightarrow> if ro_superseded_by_action_id f = None then snd (action_update t (ro_id f) (ro_version f)
         (\<lambda>r. r\<lparr>ro_superseded_by_action_id := Some (pp_replacement_action_id (rx_row x))\<rparr>)) else t)"

lemma run_replacement:
  assumes "replacement_action_from_row row = Inr a" "action_to_record_fields a = Inr r"
  shows "\<exists>rev. run_replan q db (R_Revision row) =
    run_replan q (db\<lparr>rd_actions := superseded \<lparr>rx_row = row, rx_old = rev\<rparr> (with_replacement r (rd_actions db))\<rparr>) (R_Dependents \<lparr>rx_row = row, rx_old = rev\<rparr>)"
proof -
  let ?x = "\<lparr>rx_row = row, rx_old = map_option pw_revision (plan_get (rd_plans db) (pp_plan_id row))\<rparr>"
  have id: "ro_id r = pp_replacement_action_id row"
    using assms by (auto simp: replacement_action_from_row_def bind_sum_InrE dest: action_to_record_fields_OkD)
  have "run_replan q db (R_Revision row) = run_replan q db (R_Exists ?x)" by (subst run_replan_step) simp_all
  also have "\<dots> = run_replan q (db\<lparr>rd_actions := with_replacement r (rd_actions db)\<rparr>) (R_Failed ?x)"
  proof (cases "action_get (rd_actions db) (pp_replacement_action_id row)")
    case None
    have "run_replan q db (R_Exists ?x) = run_replan q db (R_Create ?x r)" using None assms by (subst run_replan_step) simp_all
    also have "\<dots> = run_replan q (db\<lparr>rd_actions := with_replacement r (rd_actions db)\<rparr>) (R_Failed ?x)"
      using None id by (subst run_replan_step) (simp_all add: action_create_def tbl_insert_def with_replacement_def action_get_def)
    finally show ?thesis .
  next
    case (Some e)
    have "run_replan q db (R_Exists ?x) = run_replan q db (R_Failed ?x)" using Some assms(1) by (subst run_replan_step) simp_all
    then show ?thesis using Some id by (simp add: with_replacement_def)
  qed
  also have "\<dots> = run_replan q (db\<lparr>rd_actions := superseded ?x (with_replacement r (rd_actions db))\<rparr>) (R_Dependents ?x)"
  proof (cases "action_get (with_replacement r (rd_actions db)) (pp_failed_action_id row)")
    case None
    then show ?thesis by (subst run_replan_step) (simp_all add: superseded_def)
  next
    case (Some f)
    show ?thesis
    proof (cases "ro_superseded_by_action_id f")
      case None
      have "run_replan q (db\<lparr>rd_actions := with_replacement r (rd_actions db)\<rparr>) (R_Failed ?x) =
          run_replan q (db\<lparr>rd_actions := with_replacement r (rd_actions db)\<rparr>) (R_Supersede ?x f)"
        using Some None by (subst run_replan_step) simp_all
      also have "\<dots> = run_replan q (db\<lparr>rd_actions := superseded ?x (with_replacement r (rd_actions db))\<rparr>) (R_Dependents ?x)"
        using Some None by (subst run_replan_step) (simp_all add: superseded_def)
      finally show ?thesis .
    next
      case (Some s)
      then show ?thesis using \<open>action_get _ _ = Some f\<close> by (subst run_replan_step) (simp_all add: superseded_def)
    qed
  qed
  finally show ?thesis by blast
qed

lemma run_rewiring:
  assumes "load_plan_actions (rd_actions db) (pp_plan_id (rx_row x)) = Inr as" "tbl_unique ro_id (rd_actions db)"
  shows "run_replan q db (R_Dependents x) =
    run_replan q (db\<lparr>rd_actions := fold (rewire_one x) (filter (\<lambda>a. \<not> skipped x a) as) (rd_actions db)\<rparr>) (R_Load_Plan x)"
proof -
  let ?todo = "filter (\<lambda>a. \<not> skipped x a) as"
  have w: "\<forall>a \<in> set ?todo. rewirable x (rd_actions db) a"
    using load_plan_actions_members [OF assms(1)] mem_action_get [OF assms(2)] record_to_action_id
    by (fastforce simp: rewirable_def skipped_def)
  have d: "distinct (map a_id ?todo)"
    using load_plan_actions_distinct [OF assms] by (simp add: distinct_map_filter)
  show ?thesis
  proof (cases ?todo)
    case Nil
    then show ?thesis using assms(1) by (subst run_replan_step) simp_all
  next
    case (Cons a todo)
    have "run_replan q db (R_Dependents x) = run_replan q db (R_Rewire x ?todo)"
      using Cons assms(1) by (subst run_replan_step) simp_all
    then show ?thesis using rewire_run [OF w d, of q db] Cons by simp
  qed
qed

section \<open>The end of a call\<close>

interpretation proposal_store: versioned_store
  proposal_get pp_version "\<lambda>n r. r\<lparr>pp_version := n\<rparr>" proposal_update "\<lambda>f. \<forall>r. pp_id (f r) = pp_id r"
proof -
  have [simp]: "proposal_get = tbl_get pp_id"
    "proposal_update = tbl_vcas pp_id pp_version (\<lambda>n r. r\<lparr>pp_version := n\<rparr>)"
    by (simp_all add: fun_eq_iff proposal_get_def proposal_update_def)
  show "versioned_store proposal_get pp_version (\<lambda>n r. r\<lparr>pp_version := n\<rparr>) proposal_update (\<lambda>f. \<forall>r. pp_id (f r) = pp_id r)"
    by (simp add: tbl_vcas_versioned)
qed

lemma proposal_get_id: "proposal_get t i = Some r \<Longrightarrow> pp_id r = i"
  using tbl_get_SomeD [of pp_id t i r] by (simp add: proposal_get_def)

lemma plan_get_id: "plan_get t i = Some p \<Longrightarrow> pw_id p = i"
  using tbl_get_SomeD [of pw_id t i p] by (simp add: plan_get_def)

definition rehashed :: "string \<Rightarrow> plan_row \<Rightarrow> plan_row" where
  "rehashed h p = (if pw_plan_hash p = Some h then p
     else p\<lparr>pw_plan_hash := Some h, pw_revision := pw_revision p + 1, pw_version := pw_version p + 1\<rparr>)"

definition revived :: "plan_row \<Rightarrow> plan_row" where
  "revived p = (if pw_status p \<in> set revivable then p\<lparr>pw_status := PS_EXECUTING, pw_version := pw_version p + 1\<rparr> else p)"

definition claimed :: "proposal_row \<Rightarrow> proposal_row" where
  "claimed r = (if pp_status r = RP_PROPOSED then r\<lparr>pp_status := RP_APPLIED, pp_version := pp_version r + 1\<rparr> else r)"

definition stamped :: "datetime \<Rightarrow> int \<Rightarrow> proposal_row \<Rightarrow> proposal_row" where
  "stamped now n r = (if pp_applied_at r = None
     then r\<lparr>pp_applied_at := Some now, pp_new_plan_revision := Some n, pp_version := pp_version r + 1\<rparr> else r)"

lemma run_plan_tail:
  assumes "plan_get (rd_plans db) (pp_plan_id (rx_row x)) = Some p"
    and "load_plan_actions (rd_actions db) (pp_plan_id (rx_row x)) = Inr as"
  defines "p' \<equiv> revived (rehashed (compute_plan_hash (record_to_plan p as)) p)"
  shows "\<exists>t. run_replan q db (R_Load_Plan x) = run_replan q (db\<lparr>rd_plans := t\<rparr>) (after_claim x (pw_revision p')) \<and>
    (\<forall>i. plan_get t i = (if i = pp_plan_id (rx_row x) then Some p' else plan_get (rd_plans db) i))"
proof -
  let ?i = "pp_plan_id (rx_row x)" and ?h = "compute_plan_hash (record_to_plan p as)"
  let ?p1 = "rehashed ?h p"
  have e0: "run_replan q db (R_Load_Plan x) = run_replan q db (R_Load_Actions x p)" using assms(1) by (subst run_replan_step) simp_all
  have "\<exists>t1. run_replan q db (R_Load_Actions x p) = run_replan q (db\<lparr>rd_plans := t1\<rparr>) (R_Reread x) \<and>
      (\<forall>i. plan_get t1 i = (if i = ?i then Some ?p1 else plan_get (rd_plans db) i))"
  proof (cases "pw_plan_hash p = Some ?h")
    case True
    then have "run_replan q db (R_Load_Actions x p) = run_replan q (db\<lparr>rd_plans := rd_plans db\<rparr>) (R_Reread x)"
      using assms(1,2) by (subst run_replan_step) simp_all
    then show ?thesis using True assms(1) by (intro exI [of _ "rd_plans db"]) (simp add: rehashed_def)
  next
    case False
    let ?f = "\<lambda>r. r\<lparr>pw_plan_hash := Some ?h, pw_revision := pw_revision p + 1\<rparr>"
    let ?t = "snd (plan_update (rd_plans db) ?i (pw_version p) ?f)"
    have "run_replan q db (R_Load_Actions x p) = run_replan q db (R_Hash x p ?h)"
      using False assms(1,2) by (subst run_replan_step) simp_all
    also have "\<dots> = run_replan q (db\<lparr>rd_plans := ?t\<rparr>) (R_Reread x)" by (subst run_replan_step) simp_all
    finally show ?thesis
      using False plan_store.reader_writes [OF assms(1), of ?f] plan_store.cas_other [of ?f _ ?i "rd_plans db" "pw_version p"]
      by (intro exI [of _ ?t]) (auto simp: rehashed_def)
  qed
  then obtain t1 where t1: "run_replan q db (R_Load_Actions x p) = run_replan q (db\<lparr>rd_plans := t1\<rparr>) (R_Reread x)"
    "\<And>i. plan_get t1 i = (if i = ?i then Some ?p1 else plan_get (rd_plans db) i)" by blast
  have "\<exists>t. run_replan q (db\<lparr>rd_plans := t1\<rparr>) (R_Reread x) = run_replan q (db\<lparr>rd_plans := t\<rparr>) (after_claim x (pw_revision p')) \<and>
      (\<forall>i. plan_get t i = (if i = ?i then Some p' else plan_get t1 i))"
  proof (cases "pw_status ?p1 \<in> set revivable")
    case False
    then have "run_replan q (db\<lparr>rd_plans := t1\<rparr>) (R_Reread x) = run_replan q (db\<lparr>rd_plans := t1\<rparr>) (after_claim x (pw_revision p'))"
      using t1(2) by (subst run_replan_step) (simp_all add: p'_def revived_def)
    then show ?thesis using False t1(2) by (intro exI [of _ t1]) (simp add: p'_def revived_def)
  next
    case True
    let ?f = "\<lambda>r. r\<lparr>pw_status := PS_EXECUTING\<rparr>"
    let ?t = "snd (plan_update t1 ?i (pw_version ?p1) ?f)"
    have g: "plan_get t1 ?i = Some ?p1" using t1(2) by simp
    have "run_replan q (db\<lparr>rd_plans := t1\<rparr>) (R_Reread x) = run_replan q (db\<lparr>rd_plans := t1\<rparr>) (R_Revive x ?p1)"
      using True g by (subst run_replan_step) simp_all
    also have "\<dots> = run_replan q (db\<lparr>rd_plans := ?t\<rparr>) (R_Reread_Revived x (pw_revision ?p1))" by (subst run_replan_step) simp_all
    also have "\<dots> = run_replan q (db\<lparr>rd_plans := ?t\<rparr>) (after_claim x (pw_revision p'))"
      by (subst run_replan_step) (simp_all add: p'_def revived_def)
    finally show ?thesis
      using True plan_store.reader_writes [OF g, of ?f] plan_store.cas_other [of ?f _ ?i t1 "pw_version ?p1"]
      by (intro exI [of _ ?t]) (auto simp: p'_def revived_def)
  qed
  then obtain t where t: "run_replan q (db\<lparr>rd_plans := t1\<rparr>) (R_Reread x) = run_replan q (db\<lparr>rd_plans := t\<rparr>) (after_claim x (pw_revision p'))"
      "\<And>i. plan_get t i = (if i = ?i then Some p' else plan_get t1 i)" by blast
  show ?thesis using e0 t1 t by (intro exI [of _ t]) simp
qed

lemma claim_for_apply_current:
  assumes "proposal_get t i = Some r"
  shows "proposal_get (snd (claim_for_apply t i (pp_version r))) j = (if j = i then Some (claimed r) else proposal_get t j)"
proof (cases "pp_status r = RP_PROPOSED")
  case True
  let ?f = "\<lambda>r. r\<lparr>pp_status := RP_APPLIED\<rparr>"
  show ?thesis using True assms proposal_store.reader_writes [OF assms, of ?f] proposal_store.cas_other [of ?f j i t "pp_version r"]
    by (simp add: claim_for_apply_def claimed_def)
qed (simp add: assms claim_for_apply_def claimed_def)

lemma run_proposal_tail:
  fixes q :: replan_request and n :: int
  assumes "proposal_get (rd_proposals db) (pp_id (rx_row x)) = Some (rx_row x)"
  defines "r' \<equiv> stamped (rq_clock q) n (claimed (rx_row x))"
  shows "\<exists>t. run_replan q db (after_claim x n) = run_replan q (db\<lparr>rd_proposals := t\<rparr>) (applied_result x n) \<and>
    (\<forall>i. proposal_get t i = (if i = pp_id (rx_row x) then Some r' else proposal_get (rd_proposals db) i))"
proof -
  let ?i = "pp_id (rx_row x)" and ?r1 = "claimed (rx_row x)"
  have "\<exists>t1. run_replan q db (after_claim x n) = run_replan q (db\<lparr>rd_proposals := t1\<rparr>) (R_Final x n) \<and>
      (\<forall>i. proposal_get t1 i = (if i = ?i then Some ?r1 else proposal_get (rd_proposals db) i))"
  proof (cases "pp_status (rx_row x) = RP_PROPOSED")
    case True
    let ?t = "snd (claim_for_apply (rd_proposals db) ?i (pp_version (rx_row x)))"
    have "run_replan q db (after_claim x n) = run_replan q (db\<lparr>rd_proposals := ?t\<rparr>) (R_Final x n)"
      using True by (subst run_replan_step) (simp_all add: after_claim_def)
    then show ?thesis using claim_for_apply_current [OF assms(1)] by (intro exI [of _ ?t]) simp
  next
    case False
    then show ?thesis using assms(1) by (intro exI [of _ "rd_proposals db"]) (simp add: after_claim_def claimed_def)
  qed
  then obtain t1 where t1: "run_replan q db (after_claim x n) = run_replan q (db\<lparr>rd_proposals := t1\<rparr>) (R_Final x n)"
    "\<And>i. proposal_get t1 i = (if i = ?i then Some ?r1 else proposal_get (rd_proposals db) i)" by blast
  have g: "proposal_get t1 ?i = Some ?r1" using t1(2) by simp
  have "\<exists>t. run_replan q (db\<lparr>rd_proposals := t1\<rparr>) (R_Final x n) = run_replan q (db\<lparr>rd_proposals := t\<rparr>) (applied_result x n) \<and>
      (\<forall>i. proposal_get t i = (if i = ?i then Some r' else proposal_get t1 i))"
  proof (cases "pp_applied_at ?r1")
    case (Some a)
    then have "run_replan q (db\<lparr>rd_proposals := t1\<rparr>) (R_Final x n) = run_replan q (db\<lparr>rd_proposals := t1\<rparr>) (applied_result x n)"
      using g by (subst run_replan_step) simp_all
    then show ?thesis using Some g by (intro exI [of _ t1]) (simp add: r'_def stamped_def)
  next
    case None
    let ?f = "\<lambda>r. r\<lparr>pp_applied_at := Some (rq_clock q), pp_new_plan_revision := Some n\<rparr>"
    let ?t = "snd (proposal_update t1 ?i (pp_version ?r1) ?f)"
    have id: "pp_id ?r1 = ?i" using proposal_get_id [OF g] .
    have "run_replan q (db\<lparr>rd_proposals := t1\<rparr>) (R_Final x n) = run_replan q (db\<lparr>rd_proposals := t1\<rparr>) (R_Stamp x ?r1 n)"
      using None g by (subst run_replan_step) simp_all
    also have "\<dots> = run_replan q (db\<lparr>rd_proposals := ?t\<rparr>) (applied_result x n)" by (subst run_replan_step) (simp_all add: id)
    finally show ?thesis
      using None proposal_store.reader_writes [OF g, of ?f] proposal_store.cas_other [of ?f _ ?i t1 "pp_version ?r1"]
      by (intro exI [of _ ?t]) (auto simp: r'_def stamped_def)
  qed
  then obtain t where t: "run_replan q (db\<lparr>rd_proposals := t1\<rparr>) (R_Final x n) = run_replan q (db\<lparr>rd_proposals := t\<rparr>) (applied_result x n)"
      "\<And>i. proposal_get t i = (if i = ?i then Some r' else proposal_get t1 i)" by blast
  show ?thesis using t1 t by (intro exI [of _ t]) simp
qed

section \<open>What a call leaves\<close>

lemma with_replacement_get:
  "action_get (with_replacement r t) i = (case action_get t i of None \<Rightarrow> if i = ro_id r then Some r else None | s \<Rightarrow> s)"
  by (auto simp: with_replacement_def action_get_def tbl_get_append tbl_get_Cons split: option.split)

lemma with_replacement_unique: "tbl_unique ro_id t \<Longrightarrow> tbl_unique ro_id (with_replacement r t)"
  by (auto simp: with_replacement_def tbl_unique_def action_get_def tbl_get_None_iff)

lemma with_replacement_load: "rows_load t i \<Longrightarrow> record_to_action r = Inr b \<Longrightarrow> rows_load (with_replacement r t) i"
  by (auto simp: with_replacement_def rows_load_def)

lemma superseded_get:
  "action_get (superseded x t) i = (if i = pp_failed_action_id (rx_row x)
     then map_option (\<lambda>f. if ro_superseded_by_action_id f = None
       then f\<lparr>ro_superseded_by_action_id := Some (pp_replacement_action_id (rx_row x)), ro_version := ro_version f + 1\<rparr> else f) (action_get t i)
     else action_get t i)"
proof (cases "action_get t (pp_failed_action_id (rx_row x))")
  case (Some f)
  let ?g = "\<lambda>r. r\<lparr>ro_superseded_by_action_id := Some (pp_replacement_action_id (rx_row x))\<rparr>"
  have k: "\<forall>r. ro_id (?g r) = ro_id r" by simp
  show ?thesis
    using Some action_get_id [OF Some] action_store.reader_writes [OF Some k]
      action_store.cas_other [OF k, of i "pp_failed_action_id (rx_row x)" t "ro_version f"]
    by (simp add: superseded_def)
qed (simp add: superseded_def)

lemma superseded_unique: "tbl_unique ro_id t \<Longrightarrow> tbl_unique ro_id (superseded x t)"
  by (auto simp: superseded_def action_update_def intro!: tbl_unique_vcas split: option.split)

lemma rows_load_get: "tbl_unique ro_id t \<Longrightarrow>
    rows_load t i \<longleftrightarrow> (\<forall>j r. action_get t j = Some r \<longrightarrow> ro_action_plan_id r = i \<longrightarrow> (\<exists>a. record_to_action r = Inr a))"
  unfolding rows_load_def using mem_action_get [of t] action_get_id [of t] by metis

lemma superseded_load:
  assumes "tbl_unique ro_id t" "rows_load t i"
  shows "rows_load (superseded x t) i"
  unfolding rows_load_get [OF superseded_unique [OF assms(1)]]
proof (intro allI impI)
  fix j r
  assume g: "action_get (superseded x t) j = Some r" and i: "ro_action_plan_id r = i"
  then obtain f s n where f: "action_get t j = Some f" "r = f \<or> r = f\<lparr>ro_superseded_by_action_id := s, ro_version := n\<rparr>"
    by (auto simp: superseded_get split: if_splits)
  then have "ro_action_plan_id f = i" using i by auto
  then obtain a where "record_to_action f = Inr a" using assms(2) f(1) unfolding rows_load_get [OF assms(1)] by blast
  then show "\<exists>a. record_to_action r = Inr a" using f(2) record_to_action_rewritten(2) [where s = s and n = n] by blast
qed

text \<open>After the loop every other action of the plan loads, and none of them depends on the failed one.\<close>

lemma rewired_plan:
  assumes "load_plan_actions t i = Inr as" "tbl_unique ro_id t" "i = pp_plan_id (rx_row x)"
    and "pp_failed_action_id (rx_row x) \<noteq> pp_replacement_action_id (rx_row x)"
  defines "t' \<equiv> fold (rewire_one x) (filter (\<lambda>a. \<not> skipped x a) as) t"
  shows "\<exists>as'. load_plan_actions t' i = Inr as' \<and> (\<forall>a \<in> set as'. a_id a \<notin> {pp_failed_action_id (rx_row x), pp_replacement_action_id (rx_row x)} \<longrightarrow>
      pp_failed_action_id (rx_row x) \<notin> set (a_dependencies a))"
    and "action_get t' (pp_failed_action_id (rx_row x)) = action_get t (pp_failed_action_id (rx_row x))"
    and "action_get t' (pp_replacement_action_id (rx_row x)) = action_get t (pp_replacement_action_id (rx_row x))"
proof -
  let ?f = "pp_failed_action_id (rx_row x)" and ?r = "pp_replacement_action_id (rx_row x)" and ?todo = "filter (\<lambda>a. \<not> skipped x a) as"
  have m: "a \<in> set as \<longleftrightarrow> (\<exists>r \<in> set t. ro_action_plan_id r = i \<and> record_to_action r = Inr a)" for a
    using load_plan_actions_members [OF assms(1)] .
  have w: "\<forall>a \<in> set ?todo. rewirable x t a"
    using m mem_action_get [OF assms(2)] record_to_action_id by (fastforce simp: rewirable_def skipped_def)
  have d: "distinct (map a_id ?todo)" using load_plan_actions_distinct [OF assms(1,2)] by (simp add: distinct_map_filter)
  note g = rewire_fold_get [OF w d, folded t'_def]
  have none: "List.find (\<lambda>a. a_id a = j) ?todo = None" if "j \<in> {?f, ?r}" for j
    using that by (auto simp: find_None_iff skipped_def)
  show "action_get t' ?f = action_get t ?f" "action_get t' ?r = action_get t ?r" using g none by simp_all
  have u: "tbl_unique ro_id t'" unfolding t'_def by (rule rewire_fold_keys [OF assms(2)])
  have row: "\<exists>a. record_to_action r = Inr a \<and> (a_id a \<notin> {?f, ?r} \<longrightarrow> ?f \<notin> set (a_dependencies a))"
    if rt': "r \<in> set t'" and ri: "ro_action_plan_id r = i" for r
  proof -
    have gr: "action_get t' (ro_id r) = Some r" using mem_action_get [OF u] rt' by blast
    show ?thesis
    proof (cases "List.find (\<lambda>a. a_id a = ro_id r) ?todo")
      case None
      then have "action_get t (ro_id r) = Some r" using gr g by simp
      then have rt: "r \<in> set t" using mem_action_get [OF assms(2)] by blast
      have "rows_load t i" using assms(1) rows_load_iff by blast
      then obtain a where a: "record_to_action r = Inr a" using rt ri by (auto simp: rows_load_def)
      then have "a \<in> set as" using m rt ri by blast
      then have "skipped x a" using None record_to_action_id [OF a] by (auto simp: find_None_iff)
      then show ?thesis using a by (auto simp: skipped_def)
    next
      case (Some c)
      then have c: "c \<in> set ?todo" "a_id c = ro_id r" using find_Some_mem [OF Some] by simp_all
      then obtain r0 where r0: "action_get t (ro_id r) = Some r0" "record_to_action r0 = Inr c" using w by (auto simp: rewirable_def)
      then have "r = r0\<lparr>ro_dependencies_json := Some (strs_json (sort (rewired ?f ?r (a_dependencies c)))), ro_version := ro_version r0 + 1\<rparr>"
        using gr g Some by simp
      then have "record_to_action r = Inr (c\<lparr>a_dependencies := sort (rewired ?f ?r (a_dependencies c))\<rparr>)"
        using record_to_action_rewritten(1) [OF r0(2)] by simp
      then show ?thesis using assms(4) by (auto simp: rewired_def)
    qed
  qed
  then have "rows_load t' i" by (auto simp: rows_load_def)
  then obtain as' where as': "load_plan_actions t' i = Inr as'" using rows_load_iff by blast
  then have "\<forall>a \<in> set as'. a_id a \<notin> {?f, ?r} \<longrightarrow> ?f \<notin> set (a_dependencies a)"
    using load_plan_actions_members [OF as'] row by fastforce
  then show "\<exists>as'. load_plan_actions t' i = Inr as' \<and> (\<forall>a \<in> set as'. a_id a \<notin> {?f, ?r} \<longrightarrow> ?f \<notin> set (a_dependencies a))"
    using as' by blast
qed

section \<open>A call as part of an interleaving\<close>

lemma run_replan_interleaved:
  assumes "interleaved replan_step st (db, ws)" "i < length ws" "ws ! i = (q, c)" "run_replan q db c = (db', r)"
  shows "interleaved replan_step st (db', ws[i := (q, R_Done r)])"
  using assms
proof (induction c arbitrary: db ws rule: wf_induct_rule [OF wf_replan_less])
  case (1 c)
  obtain db1 c1 where s: "replan_step q db c = (db1, c1)" by fastforce
  show ?case
  proof (cases "replan_done c")
    case True
    then show ?thesis using "1.prems" by (cases c) (use list_update_id [of ws i] in auto)
  next
    case False
    have less: "(c1, c) \<in> replan_less" using replan_step_decreases [OF False, of q db] s by simp
    have n: "interleaved replan_step st (db1, ws[i := (q, c1)])"
      using interleaved_step [OF "1.prems"(1), of i] schedule_simps(1) [where step = replan_step, OF "1.prems"(2,3) s] by simp
    have r: "run_replan q db1 c1 = (db', r)" using "1.prems"(4) run_replan_step [OF False s] by simp
    have "interleaved replan_step st (db', (ws[i := (q, c1)])[i := (q, R_Done r)])"
      using "1.prems"(2) by (intro "1.IH" [OF less n _ _ r]) simp_all
    then show ?thesis by simp
  qed
qed

fun replan_applied :: "replan_pc \<Rightarrow> bool" where
  "replan_applied (R_Done (Inr r)) = (rt_status r = RP_APPLIED)"
| "replan_applied _ = False"

lemma run_tail:
  assumes "plan_get (rd_plans db) (pp_plan_id (rx_row x)) \<noteq> None" "rows_load (rd_actions db) (pp_plan_id (rx_row x))"
    and "proposal_get (rd_proposals db) (pp_id (rx_row x)) = Some (rx_row x)"
  shows "\<exists>db' r. run_replan q db (R_Load_Plan x) = (db', r) \<and> replan_applied (R_Done r) \<and> rd_actions db' = rd_actions db \<and>
    plan_get (rd_plans db') (pp_plan_id (rx_row x)) \<noteq> None \<and>
    (\<forall>i. i \<noteq> pp_id (rx_row x) \<longrightarrow> proposal_get (rd_proposals db') i = proposal_get (rd_proposals db) i)"
proof -
  obtain p as where p: "plan_get (rd_plans db) (pp_plan_id (rx_row x)) = Some p"
      "load_plan_actions (rd_actions db) (pp_plan_id (rx_row x)) = Inr as"
    using assms(1,2) rows_load_iff by auto
  define n where "n = pw_revision (revived (rehashed (compute_plan_hash (record_to_plan p as)) p))"
  obtain pt where s1: "run_replan q db (R_Load_Plan x) = run_replan q (db\<lparr>rd_plans := pt\<rparr>) (after_claim x n)"
      "plan_get pt (pp_plan_id (rx_row x)) \<noteq> None"
    using run_plan_tail [OF p, of q] unfolding n_def by force
  obtain rt where s2: "run_replan q (db\<lparr>rd_plans := pt\<rparr>) (after_claim x n) =
      run_replan q (db\<lparr>rd_plans := pt, rd_proposals := rt\<rparr>) (applied_result x n)"
      "\<forall>i. i \<noteq> pp_id (rx_row x) \<longrightarrow> proposal_get rt i = proposal_get (rd_proposals db) i"
    using run_proposal_tail [of "db\<lparr>rd_plans := pt\<rparr>" x q n] assms(3) by auto
  show ?thesis using s1 s2 by (simp add: applied_result_def replan_outcome_def)
qed

section \<open>Two failures of one plan\<close>

definition plain_row :: "string \<Rightarrow> string list \<Rightarrow> action_status \<Rightarrow> action_row" where
  "plain_row i deps s = \<lparr>ro_id = i, ro_action_plan_id = ''p1'', ro_sequence = 0, ro_action_type = ''analysis'', ro_title = i,
     ro_description = None, ro_agent_type = ''execution'', ro_tool_name = None, ro_inputs_json = None, ro_action_hash = [],
     ro_risk_level = LOW, ro_permission_level = READ, ro_approval_required = False, ro_approval_id = None, ro_estimated_cost = None,
     ro_dependencies_json = Some (strs_json deps), ro_expected_result = None, ro_success_criteria = None, ro_verification_method = None,
     ro_status = s, ro_retry_count = 0, ro_max_retries = 0, ro_version = 1, ro_started_at = None, ro_completed_at = None,
     ro_last_error = None, ro_superseded_by_action_id = None\<rparr>"

definition plain_proposal :: "string \<Rightarrow> string \<Rightarrow> string \<Rightarrow> proposal_row" where
  "plain_proposal i f r = \<lparr>pp_id = i, pp_plan_id = ''p1'', pp_failed_action_id = f, pp_replacement_action_id = r,
     pp_replacement_action_type = ''analysis'', pp_replacement_title = r, pp_replacement_tool_name = None, pp_replacement_inputs_json = None,
     pp_replacement_expected_result = None, pp_replacement_success_criteria = None, pp_replacement_verification_method = None,
     pp_replacement_permission_level = READ, pp_replacement_risk_level = LOW, pp_replacement_dependencies_json = None,
     pp_reason = None, pp_failure_category = None, pp_status = RP_PROPOSED, pp_reason_codes_json = None, pp_created_by = ''system'',
     pp_version = 1, pp_created_at = 0, pp_applied_at = None, pp_new_plan_revision = None\<rparr>"

definition two_failures :: replan_db where
  "two_failures = \<lparr>rd_plans = [sample_plan_row], rd_actions = [plain_row ''c'' [''f'', ''g''] AS_VALIDATED,
     plain_row ''f'' [] AS_FAILED, plain_row ''g'' [] AS_FAILED],
     rd_proposals = [plain_proposal ''1'' ''f'' ''x'', plain_proposal ''2'' ''g'' ''y''], rd_budget = \<lparr>b_accounts = [], b_events = []\<rparr>\<rparr>"

definition plain_request :: "string \<Rightarrow> replan_request" where
  "plain_request i = \<lparr>rq_proposal_id = i, rq_max_replans = None, rq_clock = 0, rq_new_account_id = []\<rparr>"

lemma load_strs: "load_json (Some (strs_json ds)) d = Inr (JArr (map JStr ds))"
  using load_json_bounded [OF dependencies_json_facts(1,2) order_refl, of ds d]
  by (simp add: strs_json_def bounded_json_def dependencies_json_facts flip: dependencies_json_def)

lemma as_strs_map: "as_strs (JArr (map JStr ds)) = Inr ds"
  using dependencies_json_facts(4) [of ds] by (simp add: dependencies_json_def)

definition rep_action :: "string \<Rightarrow> action" where
  "rep_action i = \<lparr>a_id = i, a_action_plan_id = ''p1'', a_sequence = 0,
         a_action_type = ''analysis'', a_title = i, a_description = [], a_agent_type = ''execution'',
         a_tool_name = None, a_inputs = [], a_risk_level = LOW,
         a_permission_level = READ, a_approval_required = False, a_approval_id = None,
         a_estimated_cost = None, a_dependencies = [], a_expected_result = [],
         a_success_criteria = [],
         a_verification_method = [], a_status = AS_VALIDATED,
         a_started_at = None, a_completed_at = None, a_result = None, a_error = None, a_retry_count = 0, a_max_retries = 0,
         a_superseded_by = None\<rparr>"

lemma rep: "replacement_action_from_row (plain_proposal i f r) = Inr (rep_action r)"
  by (simp add: replacement_action_from_row_def plain_proposal_def rep_action_def load_json_def as_dict_def as_strs_def)

lemma rep_persistable: "persistable (rep_action i)"
  by (simp add: persistable_def rep_action_def max_inputs_json_chars_def max_text_field_chars_def dependencies_json_def json_default_def json_dumps_print)

definition rep_row :: "string \<Rightarrow> action_row" where
  "rep_row i = (case action_to_record_fields (rep_action i) of Inr r \<Rightarrow> r)"

lemma rep_row: "action_to_record_fields (rep_action i) = Inr (rep_row i)" "record_to_action (rep_row i) = Inr (rep_action i)"
  using record_to_action_roundtrip [OF rep_persistable [of i]] by (auto simp: rep_row_def rep_action_def norm_inputs_def)

lemma rep_row_facts: "ro_id (rep_row i) = i" "ro_version (rep_row i) = 1" "ro_action_plan_id (rep_row i) = ''p1''" "ro_sequence (rep_row i) = 0"
proof -
  show "ro_id (rep_row i) = i" "ro_version (rep_row i) = 1" "ro_action_plan_id (rep_row i) = ''p1''"
    using action_to_record_fields_OkD [OF rep_row(1)] by (simp_all add: rep_action_def)
  show "ro_sequence (rep_row i) = 0" using rep_row(2) [of i] by (auto simp: record_to_action_def bind_sum_InrE rep_action_def)
qed

definition plain_action :: "string \<Rightarrow> string list \<Rightarrow> action_status \<Rightarrow> string option \<Rightarrow> action" where
  "plain_action i deps s new = \<lparr>a_id = i, a_action_plan_id = ''p1'', a_sequence = 0,
         a_action_type = ''analysis'', a_title = i, a_description = [], a_agent_type = ''execution'',
         a_tool_name = None, a_inputs = [], a_risk_level = LOW,
         a_permission_level = READ, a_approval_required = False, a_approval_id = None,
         a_estimated_cost = None, a_dependencies = deps, a_expected_result = [],
         a_success_criteria = [],
         a_verification_method = [], a_status = s,
         a_started_at = None, a_completed_at = None, a_result = None, a_error = None, a_retry_count = 0, a_max_retries = 0,
         a_superseded_by = new\<rparr>"

lemma plain_row_load: "record_to_action (plain_row i deps s\<lparr>ro_superseded_by_action_id := new, ro_version := n\<rparr>) = Inr (plain_action i deps s new)"
    "record_to_action (plain_row i deps s) = Inr (plain_action i deps s None)"
  by (simp_all add: record_to_action_def plain_row_def load_strs as_strs_map plain_action_def) (simp_all add: load_json_def as_dict_def)

lemma plain_row_facts: "ro_id (plain_row i deps s) = i" "ro_version (plain_row i deps s) = 1" "ro_action_plan_id (plain_row i deps s) = ''p1''"
  "ro_sequence (plain_row i deps s) = 0" "ro_superseded_by_action_id (plain_row i deps s) = None"
  "ro_dependencies_json (plain_row i deps s) = Some (strs_json deps)"
  by (simp_all add: plain_row_def)

lemma plain_proposal_facts: "pp_id (plain_proposal i f r) = i" "pp_plan_id (plain_proposal i f r) = ''p1''"
  "pp_failed_action_id (plain_proposal i f r) = f" "pp_replacement_action_id (plain_proposal i f r) = r"
  "pp_status (plain_proposal i f r) = RP_PROPOSED" "pp_version (plain_proposal i f r) = 1"
  by (simp_all add: plain_proposal_def)

lemma plain_action_facts: "a_id (plain_action i deps s new) = i" "a_dependencies (plain_action i deps s new) = deps"
    "a_id (rep_action i) = i" "a_dependencies (rep_action i) = []"
  by (simp_all add: plain_action_def rep_action_def)

lemmas plain_facts = plain_row_facts plain_row_load plain_action_facts plain_proposal_facts rep_row rep_row_facts rep

lemmas replan_computes = schedule_def plain_request_def proposal_get_def tbl_get_Cons after_row_def
  plan_get_def action_get_def action_create_def tbl_insert_def action_update_def tbl_vcas_def tbl_cas_def tbl_upd_def
  load_plan_actions_def action_list_by_plan_def skipped_def

lemma first_run:
  "fold (schedule replan_step) (replicate 8 0) (two_failures, [(plain_request ''1'', R_Start), w]) =
    (two_failures\<lparr>rd_actions := [plain_row ''c'' [''f'', ''g''] AS_VALIDATED,
       (plain_row ''f'' [] AS_FAILED)\<lparr>ro_superseded_by_action_id := Some ''x'', ro_version := 2\<rparr>, plain_row ''g'' [] AS_FAILED, rep_row ''x'']\<rparr>,
     [(plain_request ''1'', R_Rewire \<lparr>rx_row = plain_proposal ''1'' ''f'' ''x'', rx_old = Some 1\<rparr> [plain_action ''c'' [''f'', ''g''] AS_VALIDATED None]), w])"
  by (simp add: eval_nat_numeral two_failures_def sample_plan_row_def replan_computes plain_facts)

lemma second_run:
  "fold (schedule replan_step) (replicate 10 1) (two_failures\<lparr>rd_actions := [plain_row ''c'' [''f'', ''g''] AS_VALIDATED,
       (plain_row ''f'' [] AS_FAILED)\<lparr>ro_superseded_by_action_id := Some ''x'', ro_version := 2\<rparr>, plain_row ''g'' [] AS_FAILED, rep_row ''x'']\<rparr>,
       [w, (plain_request ''2'', R_Start)]) =
    (two_failures\<lparr>rd_actions := [(plain_row ''c'' [''f'', ''g''] AS_VALIDATED)\<lparr>ro_dependencies_json := Some (strs_json [''f'', ''y'']), ro_version := 2\<rparr>,
       (plain_row ''f'' [] AS_FAILED)\<lparr>ro_superseded_by_action_id := Some ''x'', ro_version := 2\<rparr>,
       (plain_row ''g'' [] AS_FAILED)\<lparr>ro_superseded_by_action_id := Some ''y'', ro_version := 2\<rparr>, rep_row ''x'', rep_row ''y'']\<rparr>,
     [w, (plain_request ''2'', R_Load_Plan \<lparr>rx_row = plain_proposal ''2'' ''g'' ''y'', rx_old = Some 1\<rparr>)])"
  by (simp add: eval_nat_numeral two_failures_def sample_plan_row_def replan_computes plain_facts rewired_def load_strs json_contains_def)

lemma third_run:
  "fold (schedule replan_step) (replicate 2 0) (two_failures\<lparr>rd_actions := [(plain_row ''c'' [''f'', ''g''] AS_VALIDATED)
         \<lparr>ro_dependencies_json := Some (strs_json [''f'', ''y'']), ro_version := 2\<rparr>,
       (plain_row ''f'' [] AS_FAILED)\<lparr>ro_superseded_by_action_id := Some ''x'', ro_version := 2\<rparr>,
       (plain_row ''g'' [] AS_FAILED)\<lparr>ro_superseded_by_action_id := Some ''y'', ro_version := 2\<rparr>, rep_row ''x'', rep_row ''y'']\<rparr>,
     [(plain_request ''1'', R_Rewire \<lparr>rx_row = plain_proposal ''1'' ''f'' ''x'', rx_old = Some 1\<rparr> [plain_action ''c'' [''f'', ''g''] AS_VALIDATED None]), w]) =
    (two_failures\<lparr>rd_actions := [(plain_row ''c'' [''f'', ''g''] AS_VALIDATED)\<lparr>ro_dependencies_json := Some (strs_json [''g'', ''x'']), ro_version := 3\<rparr>,
       (plain_row ''f'' [] AS_FAILED)\<lparr>ro_superseded_by_action_id := Some ''x'', ro_version := 2\<rparr>,
       (plain_row ''g'' [] AS_FAILED)\<lparr>ro_superseded_by_action_id := Some ''y'', ro_version := 2\<rparr>, rep_row ''x'', rep_row ''y'']\<rparr>,
     [(plain_request ''1'', R_Load_Plan \<lparr>rx_row = plain_proposal ''1'' ''f'' ''x'', rx_old = Some 1\<rparr>), w])"
  by (simp add: eval_nat_numeral two_failures_def sample_plan_row_def replan_computes plain_facts rewired_def load_strs json_contains_def)

section \<open>Properties\<close>

text \<open>C31: replanning grants nothing. However any number of calls interleave and wherever they stop, an action row that
  existed keeps every column but its dependencies, its version and a replacement it did not have, so no
  status, approval, level or input changes; a row that is new is a VALIDATED action without approval; and a plan row
  changes only its hash, revision and version, and its status only to reopen a plan that is neither completed nor cancelled.\<close>

theorem replan_grants_nothing:
  assumes "interleaved replan_step (db, map (\<lambda>q. (q, R_Start)) qs) (db', ws)"
  shows "(\<forall>i. case action_get (rd_actions db) i of
       Some r \<Rightarrow> (\<exists>d s v. action_get (rd_actions db') i =
           Some (r\<lparr>ro_dependencies_json := d, ro_superseded_by_action_id := s, ro_version := v\<rparr>) \<and>
         (ro_superseded_by_action_id r = None \<or> s = ro_superseded_by_action_id r))
     | None \<Rightarrow> pred_option (\<lambda>r. ro_status r = AS_VALIDATED \<and> \<not> ro_approval_required r \<and> ro_approval_id r = None)
         (action_get (rd_actions db') i)) \<and>
    (\<forall>i. case plan_get (rd_plans db) i of
       Some p \<Rightarrow> (\<exists>h n s v. plan_get (rd_plans db') i =
           Some (p\<lparr>pw_plan_hash := h, pw_revision := n, pw_status := s, pw_version := v\<rparr>) \<and> pw_revision p \<le> n \<and>
         (s = pw_status p \<or> pw_status p \<notin> {PS_COMPLETED, PS_CANCELLED} \<and> s = PS_EXECUTING))
     | None \<Rightarrow> plan_get (rd_plans db') i = None)"
proof -
  have k: "replan_kept db db'"
    by (rule replan_calls.interleaved_le [OF assms, THEN conjunct1]) auto
  have a: "\<exists>d s v. r' = r\<lparr>ro_dependencies_json := d, ro_superseded_by_action_id := s, ro_version := v\<rparr> \<and>
      (ro_superseded_by_action_id r = None \<or> s = ro_superseded_by_action_id r)" if "action_kept r r'" for r r' :: action_row
    using that unfolding action_kept_def by (cases r; cases r') auto
  have p: "\<exists>h n s v. p' = p\<lparr>pw_plan_hash := h, pw_revision := n, pw_status := s, pw_version := v\<rparr> \<and> pw_revision p \<le> n \<and>
      (s = pw_status p \<or> pw_status p \<notin> {PS_COMPLETED, PS_CANCELLED} \<and> s = PS_EXECUTING)" if "plan_kept p p'" for p p'
    using that unfolding plan_kept_def by (cases p; cases p') (auto simp: revivable_def)
  show ?thesis
  proof (intro conjI allI)
    fix i
    show "case action_get (rd_actions db) i of
       Some r \<Rightarrow> (\<exists>d s v. action_get (rd_actions db') i =
           Some (r\<lparr>ro_dependencies_json := d, ro_superseded_by_action_id := s, ro_version := v\<rparr>) \<and>
         (ro_superseded_by_action_id r = None \<or> s = ro_superseded_by_action_id r))
     | None \<Rightarrow> pred_option (\<lambda>r. ro_status r = AS_VALIDATED \<and> \<not> ro_approval_required r \<and> ro_approval_id r = None)
         (action_get (rd_actions db') i)"
      using k actions_keptD [of "rd_actions db" "rd_actions db'" i] a
      by (fastforce simp: replan_kept_def action_fresh_def pred_option_def elem_set split: option.split)
    show "case plan_get (rd_plans db) i of
       Some p \<Rightarrow> (\<exists>h n s v. plan_get (rd_plans db') i =
           Some (p\<lparr>pw_plan_hash := h, pw_revision := n, pw_status := s, pw_version := v\<rparr>) \<and> pw_revision p \<le> n \<and>
         (s = pw_status p \<or> pw_status p \<notin> {PS_COMPLETED, PS_CANCELLED} \<and> s = PS_EXECUTING))
     | None \<Rightarrow> plan_get (rd_plans db') i = None"
      using k plans_keptD [of "rd_plans db" "rd_plans db'" i] p
      by (fastforce simp: replan_kept_def split: option.split)
  qed
qed

theorem replan_grants_nothing_witness:
  "\<exists>db ws. interleaved replan_step (two_failures, map (\<lambda>q. (q, R_Start)) [plain_request ''1'', plain_request ''2'']) (db, ws) \<and>
     rd_actions db \<noteq> rd_actions two_failures \<and> map_option ro_status (action_get (rd_actions db) ''f'') = Some AS_FAILED"
proof -
  let ?init = "(two_failures, map (\<lambda>q. (q, R_Start)) [plain_request ''1'', plain_request ''2''])"
  obtain db ws where r: "fold (schedule replan_step) (replicate 8 0) ?init = (db, ws)" by fastforce
  have i: "interleaved replan_step ?init (db, ws)"
    using interleaved_fold [OF interleaved_refl, of replan_step ?init "replicate 8 0"] unfolding r .
  have "length (rd_actions db) = 4" using r first_run by auto
  moreover have "length (rd_actions two_failures) = 3" by (simp add: two_failures_def)
  moreover have "action_get (rd_actions two_failures) ''f'' = Some (plain_row ''f'' [] AS_FAILED)"
    by (simp add: two_failures_def action_get_def tbl_get_Cons plain_row_facts)
  moreover have "ro_status (plain_row ''f'' [] AS_FAILED) = AS_FAILED" by (simp add: plain_row_def)
  ultimately show ?thesis
    using i replan_grants_nothing [OF i, THEN conjunct1, THEN spec, of "''f''"] by (intro exI [of _ db] exI [of _ ws]) auto
qed

text \<open>C32: an undisturbed \<open>apply_replan\<close> does what it reports. On a proposed or already applied proposal
  whose plan is not cancelled, whose charge is granted and whose rows load, it returns APPLIED and leaves a database in which
  the replacement exists, the failed action points to its replacement, no other action of the plan
  depends on the failed one, the plan row carries the hash of the plan as it now loads and is open for
  execution again, and the proposal is stamped with the returned revision.\<close>

theorem replan_applies:
  assumes "proposal_get (rd_proposals db) (rq_proposal_id q) = Some row" "pp_status row \<in> {RP_PROPOSED, RP_APPLIED}"
    and "plan_get (rd_plans db) (pp_plan_id row) = Some p" "pw_status p \<noteq> PS_CANCELLED" "replan_affordable q row (rd_budget db)"
    and "replacement_action_from_row row = Inr a" "action_to_record_fields a = Inr r" "record_to_action r = Inr b"
    and "tbl_unique ro_id (rd_actions db)" "rows_load (rd_actions db) (pp_plan_id row)"
    and "pp_failed_action_id row \<noteq> pp_replacement_action_id row"
  shows "\<exists>db' res as p'. apply_replan q db = (db', Inr res) \<and> rt_status res = RP_APPLIED \<and>
    load_plan_actions (rd_actions db') (pp_plan_id row) = Inr as \<and>
    (\<forall>c \<in> set as. a_id c \<notin> {pp_failed_action_id row, pp_replacement_action_id row} \<longrightarrow> pp_failed_action_id row \<notin> set (a_dependencies c)) \<and>
    action_get (rd_actions db') (pp_replacement_action_id row) = (case action_get (rd_actions db) (pp_replacement_action_id row) of
       None \<Rightarrow> Some r | e \<Rightarrow> e) \<and>
    map_option ro_superseded_by_action_id (action_get (rd_actions db') (pp_failed_action_id row)) =
      map_option (\<lambda>f. if ro_superseded_by_action_id f = None then Some (pp_replacement_action_id row) else ro_superseded_by_action_id f)
        (action_get (rd_actions db) (pp_failed_action_id row)) \<and>
    plan_get (rd_plans db') (pp_plan_id row) = Some p' \<and> pw_plan_hash p' = Some (compute_plan_hash (record_to_plan p' as)) \<and>
    pw_status p' = (if pw_status p \<in> set revivable then PS_EXECUTING else pw_status p) \<and>
    rt_new_plan_revision res = Some (pw_revision p') \<and>
    proposal_get (rd_proposals db') (pp_id row) = Some (stamped (rq_clock q) (pw_revision p') (claimed row))"
proof -
  let ?i = "pp_plan_id row" and ?f = "pp_failed_action_id row" and ?s = "pp_replacement_action_id row"
  obtain bdb where s1: "apply_replan q db = run_replan q (db\<lparr>rd_budget := bdb\<rparr>) (R_Revision row)"
    using run_start [OF assms(1-5)] by blast
  obtain rev where s2: "run_replan q (db\<lparr>rd_budget := bdb\<rparr>) (R_Revision row) = run_replan q
      (db\<lparr>rd_budget := bdb, rd_actions := superseded \<lparr>rx_row = row, rx_old = rev\<rparr> (with_replacement r (rd_actions db))\<rparr>)
      (R_Dependents \<lparr>rx_row = row, rx_old = rev\<rparr>)"
    using run_replacement [OF assms(6,7), of q "db\<lparr>rd_budget := bdb\<rparr>"] by auto
  let ?x = "\<lparr>rx_row = row, rx_old = rev\<rparr>"
  define t where "t = superseded ?x (with_replacement r (rd_actions db))"
  have id: "ro_id r = ?s" using assms(6,7) by (auto simp: replacement_action_from_row_def bind_sum_InrE dest: action_to_record_fields_OkD)
  have u: "tbl_unique ro_id t" unfolding t_def by (intro superseded_unique with_replacement_unique assms(9))
  have "rows_load t ?i"
    unfolding t_def by (intro superseded_load with_replacement_unique with_replacement_load [OF _ assms(8)] assms(9,10))
  then obtain as0 where as0: "load_plan_actions t ?i = Inr as0" using rows_load_iff by blast
  define t' where "t' = fold (rewire_one ?x) (filter (\<lambda>a. \<not> skipped ?x a) as0) t"
  have s3: "run_replan q (db\<lparr>rd_budget := bdb, rd_actions := t\<rparr>) (R_Dependents ?x) =
      run_replan q (db\<lparr>rd_budget := bdb, rd_actions := t'\<rparr>) (R_Load_Plan ?x)"
    using run_rewiring [of "db\<lparr>rd_budget := bdb, rd_actions := t\<rparr>" ?x as0 q] as0 u by (simp add: t'_def)
  obtain as where as: "load_plan_actions t' ?i = Inr as" "\<forall>c \<in> set as. a_id c \<notin> {?f, ?s} \<longrightarrow> ?f \<notin> set (a_dependencies c)"
    using rewired_plan(1) [OF as0 u, of ?x] assms(11) unfolding t'_def by auto
  have keep: "action_get t' ?f = action_get t ?f" "action_get t' ?s = action_get t ?s"
    using rewired_plan(2,3) [OF as0 u, of ?x] assms(11) by (simp_all add: t'_def)
  define p' where "p' = revived (rehashed (compute_plan_hash (record_to_plan p as)) p)"
  obtain pt where s4: "run_replan q (db\<lparr>rd_budget := bdb, rd_actions := t'\<rparr>) (R_Load_Plan ?x) =
      run_replan q (db\<lparr>rd_budget := bdb, rd_actions := t', rd_plans := pt\<rparr>) (after_claim ?x (pw_revision p'))"
      "plan_get pt ?i = Some p'"
    using run_plan_tail [of "db\<lparr>rd_budget := bdb, rd_actions := t'\<rparr>" ?x p as q] assms(3) as(1) by (auto simp: p'_def)
  have "pp_id row = rq_proposal_id q" using proposal_get_id [OF assms(1)] .
  then obtain rt where s5: "run_replan q (db\<lparr>rd_budget := bdb, rd_actions := t', rd_plans := pt\<rparr>) (after_claim ?x (pw_revision p')) =
      run_replan q (db\<lparr>rd_budget := bdb, rd_actions := t', rd_plans := pt, rd_proposals := rt\<rparr>) (applied_result ?x (pw_revision p'))"
      "proposal_get rt (pp_id row) = Some (stamped (rq_clock q) (pw_revision p') (claimed row))"
    using run_proposal_tail [of "db\<lparr>rd_budget := bdb, rd_actions := t', rd_plans := pt\<rparr>" ?x q "pw_revision p'"] assms(1) by auto
  let ?db' = "db\<lparr>rd_budget := bdb, rd_actions := t', rd_plans := pt, rd_proposals := rt\<rparr>"
  obtain res where res: "apply_replan q db = (?db', Inr res)" "rt_status res = RP_APPLIED" "rt_new_plan_revision res = Some (pw_revision p')"
    using s1 s2 s3 s4(1) s5(1) by (simp add: t_def applied_result_def replan_outcome_def)
  have "compute_plan_hash (record_to_plan p' as) = compute_plan_hash (record_to_plan p as)"
    by (simp add: compute_plan_hash_def plan_hash_payload_def record_to_plan_def p'_def revived_def rehashed_def)
  then have h: "pw_plan_hash p' = Some (compute_plan_hash (record_to_plan p' as))"
    by (simp add: p'_def revived_def rehashed_def)
  have st: "pw_status p' = (if pw_status p \<in> set revivable then PS_EXECUTING else pw_status p)"
    by (simp add: p'_def revived_def rehashed_def)
  have rs: "action_get t' ?s = (case action_get (rd_actions db) ?s of None \<Rightarrow> Some r | e \<Rightarrow> e)"
    using keep(2) assms(11) by (simp add: t_def superseded_get with_replacement_get id)
  have fs: "map_option ro_superseded_by_action_id (action_get t' ?f) =
      map_option (\<lambda>f. if ro_superseded_by_action_id f = None then Some ?s else ro_superseded_by_action_id f) (action_get (rd_actions db) ?f)"
    using keep(1) assms(11) id
    by (simp add: t_def superseded_get with_replacement_get option.map_comp comp_def split: option.split)
  show ?thesis
    using res as h st rs fs s4(2) s5(2)
    by (intro exI [of _ ?db'] exI [of _ res] exI [of _ as] exI [of _ p']) simp
qed

theorem replan_applies_witness:
  "\<exists>db res. apply_replan (plain_request ''1'') two_failures = (db, Inr res) \<and> rt_status res = RP_APPLIED \<and>
     action_get (rd_actions db) ''x'' = Some (rep_row ''x'')"
proof -
  have db: "proposal_get (rd_proposals two_failures) (rq_proposal_id (plain_request ''1'')) = Some (plain_proposal ''1'' ''f'' ''x'')"
    "plan_get (rd_plans two_failures) ''p1'' = Some sample_plan_row" "pw_status sample_plan_row \<noteq> PS_CANCELLED"
    "replan_affordable (plain_request ''1'') (plain_proposal ''1'' ''f'' ''x'') b" "tbl_unique ro_id (rd_actions two_failures)"
    "action_get (rd_actions two_failures) ''x'' = None" "rows_load (rd_actions two_failures) ''p1''" for b
    using plain_row_load(2)
    by (auto simp: two_failures_def plain_request_def proposal_get_def tbl_get_Cons plain_proposal_facts plan_get_def sample_plan_row_def
        replan_affordable_def tbl_unique_def plain_row_facts action_get_def rows_load_def)
  show ?thesis
    using replan_applies [OF db(1) _ _ db(3,4) rep rep_row db(5), unfolded plain_proposal_facts, OF _ db(2,7)] db(6) by auto
qed

text \<open>C33: two calls can undo each other. An action depends on two failed actions, and each has a replacement proposed. The
  two calls interleave so that both return APPLIED, yet the action depends again on a failed action whose
  replacement exists: the first caller rewrote the list it had loaded before the second one's write, under
  the version it read afterwards.\<close>

theorem rewiring_lost:
  "\<exists>db ws c g. interleaved replan_step (two_failures, map (\<lambda>q. (q, R_Start)) [plain_request ''1'', plain_request ''2'']) (db, ws) \<and>
     list_all (\<lambda>w. replan_applied (snd w)) ws \<and>
     action_get (rd_actions db) ''g'' = Some g \<and> ro_status g = AS_FAILED \<and> ro_superseded_by_action_id g = Some ''y'' \<and>
     action_get (rd_actions db) ''c'' = Some c \<and>
     bind_sum (load_json (ro_dependencies_json c) (JArr [])) as_strs = Inr [''g'', ''x'']"
proof -
  let ?init = "(two_failures, [(plain_request ''1'', R_Start), (plain_request ''2'', R_Start)])"
  let ?x = "\<lambda>i f r. \<lparr>rx_row = plain_proposal i f r, rx_old = Some 1\<rparr>"
  define c where "c = (plain_row ''c'' [''f'', ''g''] AS_VALIDATED)\<lparr>ro_dependencies_json := Some (strs_json [''g'', ''x'']), ro_version := 3\<rparr>"
  define g where "g = (plain_row ''g'' [] AS_FAILED)\<lparr>ro_superseded_by_action_id := Some ''y'', ro_version := 2\<rparr>"
  define t where "t = [c, (plain_row ''f'' [] AS_FAILED)\<lparr>ro_superseded_by_action_id := Some ''x'', ro_version := 2\<rparr>, g, rep_row ''x'', rep_row ''y'']"
  let ?db = "two_failures\<lparr>rd_actions := t\<rparr>"
  have "fold (schedule replan_step) (replicate 8 0 @ replicate 10 1 @ replicate 2 0) ?init =
      (?db, [(plain_request ''1'', R_Load_Plan (?x ''1'' ''f'' ''x'')), (plain_request ''2'', R_Load_Plan (?x ''2'' ''g'' ''y''))])"
    unfolding t_def c_def g_def fold_append comp_apply first_run second_run third_run ..
  then have s0: "interleaved replan_step ?init
      (?db, [(plain_request ''1'', R_Load_Plan (?x ''1'' ''f'' ''x'')), (plain_request ''2'', R_Load_Plan (?x ''2'' ''g'' ''y''))])"
    using interleaved_fold [OF interleaved_refl, of replan_step ?init "replicate 8 0 @ replicate 10 1 @ replicate 2 0"] by simp
  have load: "rows_load t ''p1''"
    using plain_row_load record_to_action_rewritten(1) [OF plain_row_load(2)] rep_row(2) by (auto simp: t_def c_def g_def rows_load_def)
  have pg: "proposal_get (rd_proposals two_failures) ''1'' = Some (plain_proposal ''1'' ''f'' ''x'')"
      "proposal_get (rd_proposals two_failures) ''2'' = Some (plain_proposal ''2'' ''g'' ''y'')"
    by (simp_all add: two_failures_def proposal_get_def tbl_get_Cons plain_proposal_facts)
  have pl: "plan_get (rd_plans two_failures) ''p1'' \<noteq> None" by (simp add: two_failures_def plan_get_def tbl_get_Cons sample_plan_row_def)
  obtain db1 r1 where r1: "run_replan (plain_request ''1'') ?db (R_Load_Plan (?x ''1'' ''f'' ''x'')) = (db1, r1)" "replan_applied (R_Done r1)"
      "rd_actions db1 = t" "plan_get (rd_plans db1) ''p1'' \<noteq> None" "proposal_get (rd_proposals db1) ''2'' = Some (plain_proposal ''2'' ''g'' ''y'')"
    using run_tail [of ?db "?x ''1'' ''f'' ''x''" "plain_request ''1''"] load pg pl by (auto simp: plain_proposal_facts)
  have s1: "interleaved replan_step ?init (db1, [(plain_request ''1'', R_Done r1), (plain_request ''2'', R_Load_Plan (?x ''2'' ''g'' ''y''))])"
    using run_replan_interleaved [OF s0 _ _ r1(1), of 0] by simp
  obtain db2 r2 where r2: "run_replan (plain_request ''2'') db1 (R_Load_Plan (?x ''2'' ''g'' ''y'')) = (db2, r2)" "replan_applied (R_Done r2)"
      "rd_actions db2 = t"
    using run_tail [of db1 "?x ''2'' ''g'' ''y''" "plain_request ''2''"] load r1(3-5) by (auto simp: plain_proposal_facts)
  have "interleaved replan_step ?init (db2, [(plain_request ''1'', R_Done r1), (plain_request ''2'', R_Done r2)])"
    using run_replan_interleaved [OF s1 _ _ r2(1), of 1] by simp
  moreover have "action_get t ''g'' = Some g" "action_get t ''c'' = Some c"
    by (simp_all add: t_def c_def g_def action_get_def tbl_get_Cons plain_row_facts)
  moreover have "ro_status g = AS_FAILED" "ro_superseded_by_action_id g = Some ''y''"
      "bind_sum (load_json (ro_dependencies_json c) (JArr [])) as_strs = Inr [''g'', ''x'']"
    by (simp_all add: g_def c_def plain_row_def load_strs_json)
  ultimately show ?thesis using r1(2) r2(2,3)
    by (intro exI [of _ db2] exI [of _ "[(plain_request ''1'', R_Done r1), (plain_request ''2'', R_Done r2)]"] exI [of _ c] exI [of _ g]) simp
qed

text \<open>A call on an applied proposal is meant to confirm it. When the plan has been cancelled since, the call rejects the
  applied proposal instead, and leaves the replacement it brought about in place.\<close>

theorem applied_proposal_rejected:
  assumes "proposal_get (rd_proposals db) (rq_proposal_id q) = Some row" "pp_status row = RP_APPLIED"
    and "plan_get (rd_plans db) (pp_plan_id row) = Some p" "pw_status p = PS_CANCELLED"
  shows "\<exists>db'. apply_replan q db = (db', Inr (replan_outcome row RP_REJECTED [''PLAN_CANCELLED''])) \<and> rd_actions db' = rd_actions db \<and>
    proposal_get (rd_proposals db') (pp_id row) = Some (row\<lparr>pp_status := RP_REJECTED,
      pp_reason_codes_json := Some (strs_json [''PLAN_CANCELLED'']), pp_version := pp_version row + 1\<rparr>)"
proof -
  let ?g = "\<lambda>r. r\<lparr>pp_status := RP_REJECTED, pp_reason_codes_json := Some (strs_json [''PLAN_CANCELLED''])\<rparr>"
  let ?t = "snd (proposal_update (rd_proposals db) (pp_id row) (pp_version row) ?g)"
  have id: "pp_id row = rq_proposal_id q" using proposal_get_id [OF assms(1)] .
  have "apply_replan q db = run_replan q db (R_Plan_Check row)"
    using assms(1,2) unfolding apply_replan_def by (subst run_replan_step) (auto simp: after_row_def)
  also have "\<dots> = run_replan q db (R_Reject row ''PLAN_CANCELLED'')" using assms(3,4) by (subst run_replan_step) simp_all
  also have "\<dots> = (db\<lparr>rd_proposals := ?t\<rparr>, Inr (replan_outcome row RP_REJECTED [''PLAN_CANCELLED'']))"
    using run_replan_step [of "R_Reject row ''PLAN_CANCELLED''" q db] by simp
  finally show ?thesis
    using proposal_store.reader_writes [OF assms(1), of ?g] by (simp add: id)
qed

text \<open>A call returns, whatever other calls do to the database between its awaits.\<close>

theorem replan_returns: "\<exists>n. replan_done (interfered replan_step q dbs n R_Start)"
  by (rule replan_body.returns)

text \<open>What \<open>propose_replan\<close> accepts: a failed action of the plan, and a replacement after which the plan has no dependency
  cycle. What is stored for it is read back as that replacement, without any authority.\<close>

theorem proposal_checked:
  assumes "propose_replan new_id now p f rep reason by_whom category = Inr pr"
  shows "a_id f \<in> a_id ` set (p_actions p) \<and> a_status f = AS_FAILED \<and> rp_status pr \<in> {RP_PROPOSED, RP_REJECTED} \<and>
    (rp_status pr = RP_PROPOSED \<longleftrightarrow> acyclic (depends_on (project_post_replan_actions p (a_id f)
       (rep\<lparr>a_dependencies := rp_replacement_dependencies pr\<rparr>)))) \<and>
    (json_ok (JObj (a_inputs rep)) \<longrightarrow> json_dict (JObj (a_inputs rep)) \<longrightarrow>
      (\<exists>a. replacement_action_from_row (proposal_to_record_fields pr) = Inr a \<and> a_id a = a_id rep \<and> a_action_plan_id a = p_id p \<and>
        a_action_type a = a_action_type rep \<and> a_tool_name a = a_tool_name rep \<and> a_inputs a = norm_inputs (a_inputs rep) \<and>
        a_dependencies a = rp_replacement_dependencies pr \<and> a_status a = AS_VALIDATED \<and> \<not> a_approval_required a \<and> a_approval_id a = None))"
proof -
  define deps where "deps = (if a_dependencies rep \<noteq> [] then a_dependencies rep else a_dependencies f)"
  define g where "g = project_post_replan_actions p (a_id f) (rep\<lparr>a_dependencies := deps\<rparr>)"
  have pre: "a_id f \<in> a_id ` set (p_actions p)" "a_status f = AS_FAILED"
    using assms by (auto simp: propose_replan_def split: if_splits)
  have fields: "rp_replacement_dependencies pr = deps" "rp_plan_id pr = p_id p" "rp_replacement_action_id pr = a_id rep"
      "rp_replacement_action_type pr = a_action_type rep" "rp_replacement_tool_name pr = a_tool_name rep" "rp_replacement_inputs pr = a_inputs rep"
      "rp_status pr = (case detect_dependency_cycle g of None \<Rightarrow> RP_PROPOSED | Some [] \<Rightarrow> RP_PROPOSED | Some _ \<Rightarrow> RP_REJECTED)"
    using assms pre by (auto simp: propose_replan_def deps_def g_def Let_def split: option.splits list.splits)
  have "detect_dependency_cycle g \<noteq> Some []" using detect_Some_real [of g] by (auto simp: real_cycle_def)
  then have st: "rp_status pr = RP_PROPOSED \<longleftrightarrow> acyclic (depends_on g)" "rp_status pr \<in> {RP_PROPOSED, RP_REJECTED}"
    using fields(7) detect_None_iff [of g] by (auto split: option.splits list.splits)
  have "\<exists>a. replacement_action_from_row (proposal_to_record_fields pr) = Inr a \<and> a_id a = a_id rep \<and> a_action_plan_id a = p_id p \<and>
        a_action_type a = a_action_type rep \<and> a_tool_name a = a_tool_name rep \<and> a_inputs a = norm_inputs (a_inputs rep) \<and>
        a_dependencies a = deps \<and> a_status a = AS_VALIDATED \<and> \<not> a_approval_required a \<and> a_approval_id a = None"
    if "json_ok (JObj (a_inputs rep))" "json_dict (JObj (a_inputs rep))"
    using load_inputs [OF that, of "JObj []"] load_strs_json [of deps "JArr []"]
    by (simp add: replacement_action_from_row_def proposal_to_record_fields_def fields)
  then show ?thesis using pre st fields(1) by (auto simp: g_def)
qed

end
