(* ===== verification/Plan_Orchestrator.thy ===== *)
theory Plan_Orchestrator
  imports Plan_Reconciliation Plan_Reporting Recovery Budget Decision_Rules
begin

text \<open>
  \<open>action_plan_orchestrator.py\<close>, with \<open>FailureRecordRepository\<close> and \<open>RecoveryDecisionRepository\<close>: the driver that advances
  one stored plan until it completes or has to stop. It is modelled as one undisturbed call, which is what the plan's lease is
  for; the parts it calls have their own theories with their interleavings. A computation is a function on the
  database that may raise, and keeps what it wrote before it raised. Every call of a part draws a number, under
  which the environment has the readings of the clock, the fresh ids and the faults of the disk it will meet. The reason text of a review, which
  nothing reads, and audit events are left out.
\<close>

section \<open>State\<close>

record recovery_row =
  rw_id :: string
  rw_failure_id :: string
  rw_action_id :: string
  rw_plan_id :: string
  rw_decision :: string
  rw_reason_codes_json :: string
  rw_retry_number :: "int option"
  rw_replan_proposal_id :: "string option"
  rw_created_at :: datetime

record orch_db =
  os_exec :: exec_db
  os_plans :: "plan_row list"
  os_budget :: budget_db
  os_failures :: "failure_row list"
  os_recoveries :: "recovery_row list"
  os_calls :: nat

record orch_env =
  oe_tools :: tool_registry
  oe_adapters :: adapter_registry
  oe_root :: path
  oe_owner :: string
  oe_requested_by :: string
  oe_max_steps :: nat
  oe_lease_seconds :: int
  oe_clock :: "nat \<Rightarrow> nat \<Rightarrow> datetime"
  oe_ids :: "nat \<Rightarrow> nat \<Rightarrow> string"
  oe_fault :: "nat \<Rightarrow> disk_fault"

datatype orch_error =
    PlanNotFoundError string
  | PlanNotReadyError "plan_blocker list"
  | PlanNotOrchestratableError string plan_status
  | PlanMutationDetectedError string
  | Orch_Plan_Transition plan_transition_error
  | Orch_Action_Transition action_transition_error
  | Orch_Approval approval_error
  | Orch_Load load_error
  | Orch_Durable durable_error
  | Orch_Budget budget_error
  | Orch_Recon reconciliation_error
  | Orch_Plan_Recon plan_reconciliation_error
  | Orch_Persist plan_persist_error
  | Orch_Integrity
  | Orch_Row_Missing string
  | Orch_Unfinished

type_synonym 'a orch = "orch_db \<Rightarrow> orch_db \<times> (orch_error + 'a)"

definition give :: "'a \<Rightarrow> 'a orch" where
  "give x s = (s, Inr x)"

definition orch_raise :: "orch_error \<Rightarrow> 'a orch" where
  "orch_raise e s = (s, Inl e)"

definition and_then :: "'a orch \<Rightarrow> ('a \<Rightarrow> 'b orch) \<Rightarrow> 'b orch" where
  "and_then m f s = (case m s of (s', Inl e) \<Rightarrow> (s', Inl e) | (s', Inr x) \<Rightarrow> f x s')"

definition or_raise :: "('e \<Rightarrow> orch_error) \<Rightarrow> 'e + 'a \<Rightarrow> 'a orch" where
  "or_raise err r = (case r of Inl e \<Rightarrow> orch_raise (err e) | Inr x \<Rightarrow> give x)"

text \<open>\<open>try: m finally: f\<close>, for an \<open>f\<close> that does not raise.\<close>

definition finally_do :: "'a orch \<Rightarrow> (orch_db \<Rightarrow> orch_db) \<Rightarrow> 'a orch" where
  "finally_do m f s = (case m s of (s', r) \<Rightarrow> (f s', r))"

definition next_call :: "nat orch" where
  "next_call s = (s\<lparr>os_calls := Suc (os_calls s)\<rparr>, Inr (os_calls s))"

definition on_exec :: "(exec_db \<Rightarrow> exec_db \<times> (orch_error + 'a)) \<Rightarrow> 'a orch" where
  "on_exec f s = (case f (os_exec s) of (d, r) \<Rightarrow> (s\<lparr>os_exec := d\<rparr>, r))"

definition reading :: "(orch_db \<Rightarrow> orch_error + 'a) \<Rightarrow> 'a orch" where
  "reading f s = (s, f s)"

definition load_current :: "string \<Rightarrow> (plan_row \<times> action_plan) option orch" where
  "load_current i = reading (\<lambda>s. map_sum Orch_Load id (load_plan (os_plans s) (x_actions (os_exec s)) i))"

text \<open>\<open>plan_row, plan = await load_plan(...)\<close>, which raises when there is none.\<close>

definition reload :: "string \<Rightarrow> (plan_row \<times> action_plan) orch" where
  "reload i = and_then (load_current i) (\<lambda>l. case l of None \<Rightarrow> orch_raise (Orch_Row_Missing i) | Some x \<Rightarrow> give x)"

definition load_row :: "string \<Rightarrow> action orch" where
  "load_row i = reading (\<lambda>s. case action_get (x_actions (os_exec s)) i of
     None \<Rightarrow> Inl (Orch_Row_Missing i) | Some r \<Rightarrow> map_sum Orch_Load id (record_to_action r))"

section \<open>Writing an action\<close>

text \<open>\<open>_upsert_action_record\<close> alone with the database.\<close>

fun upsert_action_record :: "nat \<Rightarrow> int \<Rightarrow> action \<Rightarrow> exec_db \<Rightarrow> exec_db \<times> (orch_error + action_row)" where
  "upsert_action_record 0 v a db = (db, Inl (Orch_Durable (StaleActionVersionError (a_id a) v)))"
| "upsert_action_record (Suc n) v a db = (case action_get (x_actions db) (a_id a) of
     Some row \<Rightarrow>
       if keep_existing row a then (db, Inr row)
       else (case action_to_record_fields a of
           Inl e \<Rightarrow> (db, Inl (Orch_Durable (Durable_Payload e)))
         | Inr cols \<Rightarrow> (case action_update (x_actions db) (a_id a) (ro_version row) (\<lambda>r. cols\<lparr>ro_id := ro_id r\<rparr>) of
              (True, t) \<Rightarrow> (db\<lparr>x_actions := t\<rparr>, case action_get t (a_id a) of
                 None \<Rightarrow> Inl (Orch_Row_Missing (a_id a)) | Some r \<Rightarrow> Inr r)
            | (False, _) \<Rightarrow> upsert_action_record n (ro_version row) a db))
   | None \<Rightarrow> (case action_to_record_fields a of
        Inl e \<Rightarrow> (db, Inl (Orch_Durable (Durable_Payload e)))
      | Inr cols \<Rightarrow> (case action_create (x_actions db) (cols\<lparr>ro_version := 1\<rparr>) of
           Some t \<Rightarrow> (db\<lparr>x_actions := t\<rparr>, Inr (cols\<lparr>ro_version := 1\<rparr>))
         | None \<Rightarrow> upsert_action_record n (- 1) a db)))"

text \<open>The write with the reload every caller makes of it.\<close>

definition store_action :: "action \<Rightarrow> action orch" where
  "store_action a = and_then (on_exec (upsert_action_record upsert_max_attempts (- 1) a)) (\<lambda>row. or_raise Orch_Load (record_to_action row))"

definition toolless_targets :: "action_status list" where
  "toolless_targets = [AS_EXECUTING, AS_EXECUTION_SUCCEEDED, AS_VERIFYING, AS_VERIFIED, AS_COMPLETED]"

fun walk_targets :: "datetime \<Rightarrow> action_status list \<Rightarrow> action \<Rightarrow> action orch" where
  "walk_targets now [] a = give a"
| "walk_targets now (t # ts) a = and_then (or_raise Orch_Action_Transition (assert_action_transition (a_status a) t)) (\<lambda>_.
     and_then (store_action (a\<lparr>a_status := t,
         a_started_at := (if t = AS_EXECUTING then Some now else a_started_at a),
         a_completed_at := (if t = AS_EXECUTION_SUCCEEDED then Some now else a_completed_at a)\<rparr>))
       (walk_targets now ts))"

definition complete_toolless_action :: "orch_env \<Rightarrow> action \<Rightarrow> action orch" where
  "complete_toolless_action env a = and_then next_call (\<lambda>k. walk_targets (oe_clock env k 0) toolless_targets a)"

section \<open>Failures\<close>

datatype stop_reason = SR_PLAN_COMPLETED | SR_WAITING_FOR_APPROVAL | SR_DEPENDENCY_BLOCKED | SR_ACTION_FAILED | SR_SECURITY_BLOCKED
  | SR_RECONCILIATION_REQUIRED | SR_HUMAN_REVIEW_REQUIRED | SR_ORCHESTRATION_LIMIT_REACHED | SR_NO_PROGRESS
  | SR_CONCURRENT_ORCHESTRATOR | SR_CANCELLED | SR_BUDGET_EXHAUSTED | SR_REPLAN_REQUIRED

fun recovery_decision_value :: "recovery_decision \<Rightarrow> string" where
  "recovery_decision_value RD_RETRY = ''RETRY''"
| "recovery_decision_value RD_REPLAN = ''REPLAN''"
| "recovery_decision_value RD_WAIT_FOR_APPROVAL = ''WAIT_FOR_APPROVAL''"
| "recovery_decision_value RD_RECONCILE = ''RECONCILE''"
| "recovery_decision_value RD_HUMAN_REVIEW = ''HUMAN_REVIEW''"
| "recovery_decision_value RD_STOP = ''STOP''"
| "recovery_decision_value RD_BUDGET_EXHAUSTED = ''BUDGET_EXHAUSTED''"
| "recovery_decision_value RD_SECURITY_BLOCKED = ''SECURITY_BLOCKED''"
| "recovery_decision_value RD_NO_ACTION = ''NO_ACTION''"

fun recovery_decision_stop :: "recovery_decision \<Rightarrow> stop_reason \<times> bool" where
  "recovery_decision_stop RD_SECURITY_BLOCKED = (SR_SECURITY_BLOCKED, True)"
| "recovery_decision_stop RD_BUDGET_EXHAUSTED = (SR_BUDGET_EXHAUSTED, True)"
| "recovery_decision_stop RD_REPLAN = (SR_REPLAN_REQUIRED, True)"
| "recovery_decision_stop RD_RECONCILE = (SR_HUMAN_REVIEW_REQUIRED, True)"
| "recovery_decision_stop RD_HUMAN_REVIEW = (SR_HUMAN_REVIEW_REQUIRED, True)"
| "recovery_decision_stop RD_WAIT_FOR_APPROVAL = (SR_WAITING_FOR_APPROVAL, False)"
| "recovery_decision_stop RD_STOP = (SR_ACTION_FAILED, False)"
| "recovery_decision_stop RD_NO_ACTION = (SR_ACTION_FAILED, False)"
| "recovery_decision_stop RD_RETRY = (SR_HUMAN_REVIEW_REQUIRED, True)"

definition failure_create :: "failure_row list \<Rightarrow> failure_row \<Rightarrow> failure_row list option" where
  "failure_create t r = tbl_insert fw_id t r"

definition failure_list_for_action :: "failure_row list \<Rightarrow> string \<Rightarrow> failure_row list" where
  "failure_list_for_action t i = sort_key fw_created_at (filter (\<lambda>r. fw_action_id r = i) t)"

definition failure_list_for_plan :: "failure_row list \<Rightarrow> string \<Rightarrow> failure_row list" where
  "failure_list_for_plan t i = sort_key fw_created_at (filter (\<lambda>r. fw_plan_id r = i) t)"

definition recovery_create :: "recovery_row list \<Rightarrow> recovery_row \<Rightarrow> recovery_row list option" where
  "recovery_create t r = tbl_insert rw_id t r"

definition recovery_list_for_action :: "recovery_row list \<Rightarrow> string \<Rightarrow> recovery_row list" where
  "recovery_list_for_action t i = sort_key rw_created_at (filter (\<lambda>r. rw_action_id r = i) t)"

definition recovery_list_for_plan :: "recovery_row list \<Rightarrow> string \<Rightarrow> recovery_row list" where
  "recovery_list_for_plan t i = sort_key rw_created_at (filter (\<lambda>r. rw_plan_id r = i) t)"

definition persist_failure_record :: "failure_record \<Rightarrow> failure_row orch" where
  "persist_failure_record f s = (let row = failure_record_to_fields f in case failure_create (os_failures s) row of
     None \<Rightarrow> (s, Inl Orch_Integrity) | Some t \<Rightarrow> (s\<lparr>os_failures := t\<rparr>, Inr row))"

definition persist_recovery :: "recovery_row \<Rightarrow> unit orch" where
  "persist_recovery r s = (case recovery_create (os_recoveries s) r of
     None \<Rightarrow> (s, Inl Orch_Integrity) | Some t \<Rightarrow> (s\<lparr>os_recoveries := t\<rparr>, Inr ()))"

definition load_latest_execution_result :: "string \<Rightarrow> execution_result option orch" where
  "load_latest_execution_result i = reading (\<lambda>s. case attempt_list_for_action (x_attempts (os_exec s)) i of
     [] \<Rightarrow> Inr None
   | t # ts \<Rightarrow> (case result_get_by_attempt (x_results (os_exec s)) (at_id (last (t # ts))) of
        None \<Rightarrow> Inr None | Some r \<Rightarrow> map_sum Orch_Load Some (record_to_execution_result r)))"

text \<open>The retry of a row read now: \<open>None\<close> is a retry granted, \<open>Some ()\<close> a refusal of the controller.\<close>

definition try_retry :: "string \<Rightarrow> unit option orch" where
  "try_retry i = on_exec (\<lambda>db. case action_get (x_actions db) i of
     None \<Rightarrow> (db, Inl (Orch_Row_Missing i))
   | Some row \<Rightarrow> (case authorize_retry (x_actions db) row of
        Inr (t, a) \<Rightarrow> (db\<lparr>x_actions := t\<rparr>, Inr None)
      | Inl (RetryReload e) \<Rightarrow> (db\<lparr>x_actions := snd (action_update (x_actions db) (ro_id row) (ro_version row) (retry_fields row))\<rparr>, Inl (Orch_Load e))
      | Inl _ \<Rightarrow> (db, Inr (Some ()))))"

definition process_failure :: "orch_env \<Rightarrow> string \<Rightarrow> action \<Rightarrow> execution_result option \<Rightarrow> failure_category \<Rightarrow> bool option \<Rightarrow>
    (stop_reason option \<times> bool) orch" where
  "process_failure env plan_id a res fallback override = and_then next_call (\<lambda>k. (let
     se = (case override of Some b \<Rightarrow> b | None \<Rightarrow> (case res of Some r \<Rightarrow> er_side_effect_occurred r | None \<Rightarrow> False));
     recovery = evaluate_recovery (classify_failure res fallback) se (a_retry_count a) (a_max_retries a) (a_approval_required a) True;
     decision = re_decision recovery
   in and_then (persist_failure_record (build_failure_record (oe_ids env k 0) (oe_clock env k 0) a plan_id res
          (re_retry_permitted recovery) False fallback)) (\<lambda>f.
      and_then (persist_recovery \<lparr>rw_id = oe_ids env k 1, rw_failure_id = fw_id f, rw_action_id = a_id a, rw_plan_id = plan_id,
          rw_decision = recovery_decision_value decision,
          rw_reason_codes_json = json_default (JArr (map JStr (re_reason_codes recovery))),
          rw_retry_number = (if decision = RD_RETRY then Some (a_retry_count a + 1) else None), rw_replan_proposal_id = None,
          rw_created_at = oe_clock env k 1\<rparr>) (\<lambda>_.
      if decision = RD_RETRY then and_then (try_retry (a_id a)) (\<lambda>refused. give (case refused of
          None \<Rightarrow> (None, False) | Some _ \<Rightarrow> (Some SR_HUMAN_REVIEW_REQUIRED, True)))
      else give (map_prod Some id (recovery_decision_stop decision))))))"

section \<open>Persisting a plan\<close>

definition validate_and_persist_plan :: "action_plan \<Rightarrow> unit orch" where
  "validate_and_persist_plan p = (let q = evaluate_plan_readiness p in
     if \<not> pr_ready q then orch_raise (PlanNotReadyError (pr_blockers q))
     else (\<lambda>s. case persist_new_plan (os_plans s) (x_actions (os_exec s)) (p\<lparr>p_status := PS_READY\<rparr>) of
         Inl e \<Rightarrow> (s, Inl (Orch_Persist e))
       | Inr (ps, as) \<Rightarrow> (s\<lparr>os_plans := ps, os_exec := (os_exec s)\<lparr>x_actions := as\<rparr>\<rparr>, Inr ())))"

section \<open>One step of an action\<close>

definition reserve :: "orch_env \<Rightarrow> string \<Rightarrow> budget_type \<Rightarrow> py_float \<Rightarrow> string \<Rightarrow> string \<Rightarrow> bool orch" where
  "reserve env plan_id ty amount key why = and_then next_call (\<lambda>k s.
     case reserve_and_consume \<lparr>bq_scope = (SCOPE_PLAN, plan_id, ty), bq_amount = amount, bq_key = key, bq_reason = why,
         bq_default_limit = None, bq_new_id = oe_ids env k 0, bq_now = oe_clock env k 0\<rparr> (os_budget s) of
       (b, Some (Inl e)) \<Rightarrow> (s\<lparr>os_budget := b\<rparr>, Inl (Orch_Budget e))
     | (b, Some (Inr r)) \<Rightarrow> (s\<lparr>os_budget := b\<rparr>, Inr (bc_granted r))
     | (b, None) \<Rightarrow> (s\<lparr>os_budget := b\<rparr>, Inl Orch_Unfinished))"

definition budget_key :: "string \<Rightarrow> action \<Rightarrow> string" where
  "budget_key kind a = kind @ '':'' @ a_action_plan_id a @ '':'' @ a_id a @ '':'' @ int_str (a_retry_count a)"

text \<open>The type of the budget that denied, if one did.\<close>

definition check_execution_budget :: "orch_env \<Rightarrow> action \<Rightarrow> string option orch" where
  "check_execution_budget env a = and_then
     (reserve env (a_action_plan_id a) ACTION_ATTEMPTS (Fin 1) (budget_key ''action_attempts'' a) ''pre-execution ACTION_ATTEMPTS gate'') (\<lambda>granted.
     if \<not> granted then give (Some ''ACTION_ATTEMPTS'')
     else (case a_estimated_cost a of
         Some c \<Rightarrow> if float_truthy c then and_then
             (reserve env (a_action_plan_id a) ESTIMATED_COST c (budget_key ''estimated_cost'' a) ''pre-execution ESTIMATED_COST gate'') (\<lambda>granted.
             give (if granted then None else Some ''ESTIMATED_COST''))
           else give None
       | None \<Rightarrow> give None))"

definition fail_for_budget_denial :: "orch_env \<Rightarrow> action \<Rightarrow> string \<Rightarrow> string \<Rightarrow> action orch" where
  "fail_for_budget_denial env a denied plan_id = and_then next_call (\<lambda>k.
     and_then (store_action (a\<lparr>a_status := AS_FAILED, a_completed_at := Some (oe_clock env k 0),
       a_error := Some (''pre-execution budget denied: '' @ denied)\<rparr>)) (\<lambda>refreshed.
     and_then (process_failure env plan_id refreshed None FC_BUDGET None) (\<lambda>_. give refreshed)))"

text \<open>\<open>execute_action_durably\<close> run to its end. Without \<open>approval_repo\<close> it does not see the approvals.\<close>

definition execute_durably :: "orch_env \<Rightarrow> action \<Rightarrow> permission_decision \<Rightarrow> approval_request option \<Rightarrow> int \<Rightarrow> action orch" where
  "execute_durably env a d approval retry = and_then next_call (\<lambda>k. on_exec (\<lambda>db.
     case run_durable 84 \<lparr>dq_env = \<lparr>xe_tools = oe_tools env, xe_adapters = oe_adapters env, xe_root = oe_root env,
         xe_clock = oe_clock env k, xe_attempt = oe_ids env k 0, xe_fault = oe_fault env k\<rparr>,
         dq_action = a, dq_decision = d, dq_approval = approval, dq_claimed_by = ''system'', dq_retry_number = retry,
         dq_created_at = oe_clock env k 9\<rparr>
       (if approval = None then db\<lparr>x_approvals := None\<rparr> else db) D_Start of
       (db', pc) \<Rightarrow> (if approval = None then db'\<lparr>x_approvals := x_approvals db\<rparr> else db', case pc of
          D_Done (Inl e) \<Rightarrow> Inl (Orch_Durable e) | D_Done (Inr out) \<Rightarrow> Inr (eo_action out) | _ \<Rightarrow> Inl Orch_Unfinished)))"

text \<open>The approvals' table is always there in the orchestrator; an executor run without it is the exception above.\<close>

definition with_approvals :: "(approval_row list \<Rightarrow> orch_error + 'a \<times> approval_row list) \<Rightarrow> 'a orch" where
  "with_approvals f = on_exec (\<lambda>db. case x_approvals db of
     None \<Rightarrow> (db, Inl Orch_Integrity)
   | Some t \<Rightarrow> (case f t of Inl e \<Rightarrow> (db, Inl e) | Inr (x, t') \<Rightarrow> (db\<lparr>x_approvals := Some t'\<rparr>, Inr x)))"

definition request_approval :: "orch_env \<Rightarrow> action \<Rightarrow> permission_decision \<Rightarrow> action orch" where
  "request_approval env a d = (if a_approval_id a \<noteq> None then give a else
     and_then next_call (\<lambda>k.
     and_then (or_raise Orch_Approval (create_approval_request (oe_ids env k 0) (oe_clock env k 0) (oe_clock env k 1) a d
       (oe_requested_by env) [] None)) (\<lambda>r.
     and_then (with_approvals (\<lambda>t. case persist_new_approval_request t r of None \<Rightarrow> Inl Orch_Integrity | Some t' \<Rightarrow> Inr ((), t'))) (\<lambda>_.
       give (a\<lparr>a_approval_id := Some (ar_id r)\<rparr>)))))"

text \<open>The three statuses \<open>_advance_one_action\<close> acts on; a \<open>True\<close> asks for human review.\<close>

definition advance_validated :: "orch_env \<Rightarrow> action \<Rightarrow> (action \<times> bool) orch" where
  "advance_validated env a = and_then next_call (\<lambda>k.
     and_then (or_raise Orch_Action_Transition (apply_permission_decision a (evaluate_permission a (oe_tools env) (oe_clock env k 0)))) (\<lambda>b.
     and_then (store_action b) (\<lambda>c. give (c, False))))"

definition advance_checked :: "orch_env \<Rightarrow> action \<Rightarrow> (action \<times> bool) orch" where
  "advance_checked env a = and_then next_call (\<lambda>k. (let d = evaluate_permission a (oe_tools env) (oe_clock env k 0) in
     if pd_outcome d = REQUIRE_APPROVAL then
       and_then (request_approval env a d) (\<lambda>b.
       and_then (or_raise Orch_Approval (advance_to_waiting_for_approval b)) (\<lambda>w.
       and_then (store_action w) (\<lambda>c. give (c, False))))
     else if \<not> requires_tool (a_action_type a) then
       and_then (complete_toolless_action env a) (\<lambda>c. give (c, False))
     else and_then (check_execution_budget env a) (\<lambda>denied. (case denied of
         Some ty \<Rightarrow> and_then (fail_for_budget_denial env a ty (a_action_plan_id a)) (\<lambda>c. give (c, False))
       | None \<Rightarrow> and_then (execute_durably env a d None (a_retry_count a)) (\<lambda>c. give (c, False))))))"

definition finalize_from_outcome :: "action \<Rightarrow> approval_request \<Rightarrow> (action \<times> bool) orch" where
  "finalize_from_outcome a r = and_then (or_raise Orch_Approval (finalize_action_from_approval_outcome a r)) (\<lambda>b.
     and_then (store_action b) (\<lambda>c. give (c, False)))"

definition advance_approved :: "orch_env \<Rightarrow> action \<Rightarrow> approval_request \<Rightarrow> (action \<times> bool) orch" where
  "advance_approved env a r = and_then next_call (\<lambda>k. (let d = evaluate_permission a (oe_tools env) (oe_clock env k 0) in
     and_then (check_execution_budget env a) (\<lambda>denied. (case denied of
       Some ty \<Rightarrow> and_then (fail_for_budget_denial env a ty (a_action_plan_id a)) (\<lambda>c. give (c, False))
     | None \<Rightarrow> (case authorize_action (oe_clock env k 1) a r of
          Inl _ \<Rightarrow> give (a, True)
        | Inr b \<Rightarrow> and_then (store_action b) (\<lambda>authorized.
            and_then (execute_durably env authorized d (Some r) 0) (\<lambda>c. give (c, False))))))))"

definition advance_waiting :: "orch_env \<Rightarrow> action \<Rightarrow> (action \<times> bool) orch" where
  "advance_waiting env a = (case a_approval_id a of
     None \<Rightarrow> give (a, True)
   | Some i \<Rightarrow> and_then (with_approvals (\<lambda>t. map_sum Orch_Load (\<lambda>r. (r, t)) (load_approval_request t i))) (\<lambda>loaded. (case loaded of
       None \<Rightarrow> give (a, True)
     | Some r \<Rightarrow>
         if ar_status r = AR_PENDING then and_then next_call (\<lambda>k. (let now = oe_clock env k 0 in
           if is_expired now r then
             and_then (or_raise Orch_Approval (expire_approval_request now r)) (\<lambda>e.
             and_then (with_approvals (\<lambda>t. Inr ((), snd (sync_decision t e)))) (\<lambda>_. finalize_from_outcome a e))
           else give (a, False)))
         else if ar_status r = AR_APPROVED then advance_approved env a r
         else finalize_from_outcome a r)))"

definition advance_one_action :: "orch_env \<Rightarrow> action \<Rightarrow> (action \<times> bool) orch" where
  "advance_one_action env a =
     (if a_status a = AS_VALIDATED then advance_validated env a
      else if a_status a = AS_PERMISSION_CHECKED then advance_checked env a
      else if a_status a = AS_WAITING_FOR_APPROVAL then advance_waiting env a
      else give (a, False))"

section \<open>The plan as a whole\<close>

definition active_actions :: "action list \<Rightarrow> action list" where
  "active_actions as = filter (\<lambda>a. a_superseded_by a = None) as"

definition recompute_plan_status :: "action list \<Rightarrow> plan_status \<times> string option" where
  "recompute_plan_status as = (let
     statuses = map a_status (active_actions as);
     completed = length (filter (\<lambda>s. s = AS_COMPLETED) statuses)
   in if 0 < length statuses \<and> completed = length statuses then (PS_COMPLETED, None)
      else if list_ex (\<lambda>s. s \<in> set terminal_bad_action_statuses) statuses then
        (if 0 < completed then PS_PARTIALLY_COMPLETED else PS_FAILED, Some ''ACTION_FAILURE'')
      else if list_ex (\<lambda>s. s = AS_WAITING_FOR_APPROVAL) statuses then (PS_WAITING_FOR_APPROVAL, Some ''WAITING_FOR_APPROVAL'')
      else (PS_EXECUTING, None))"

definition determine_blocking_stop_reason :: "action_eligibility list \<Rightarrow> stop_reason" where
  "determine_blocking_stop_reason es =
     (if EL_WAITING_FOR_APPROVAL \<in> set es then SR_WAITING_FOR_APPROVAL
      else if EL_SECURITY_BLOCKED \<in> set es then SR_SECURITY_BLOCKED
      else if list_ex (\<lambda>e. e \<in> {EL_TERMINAL_FAILED, EL_BLOCKED_BY_FAILED_DEPENDENCY, EL_BLOCKED_BY_REJECTED_DEPENDENCY}) es then SR_ACTION_FAILED
      else if EL_WAITING_FOR_DEPENDENCIES \<in> set es then SR_DEPENDENCY_BLOCKED
      else if EL_CURRENTLY_EXECUTING \<in> set es then SR_NO_PROGRESS
      else SR_PLAN_COMPLETED)"

record orchestration_result =
  og_plan_id :: string
  og_starting_status :: plan_status
  og_ending_status :: plan_status
  og_actions_total :: nat
  og_actions_completed :: nat
  og_actions_executed_this_run :: nat
  og_actions_waiting_for_approval :: nat
  og_actions_waiting_for_dependencies :: nat
  og_actions_blocked :: nat
  og_actions_failed :: nat
  og_reconciliation_required :: bool
  og_stop_reason :: stop_reason
  og_progress_made :: bool
  og_next_action_ids :: "string list"
  og_approval_action_ids :: "string list"
  og_human_review_required :: bool

text \<open>A dict keyed by the actions' ids, in its order: \<open>tbl_put\<close> is the assignment.\<close>

definition actions_dict :: "action list \<Rightarrow> action list" where
  "actions_dict as = foldl (tbl_put a_id) [] as"

definition eligibilities :: "action list \<Rightarrow> action list \<Rightarrow> (string \<times> action_eligibility) list" where
  "eligibilities by_id as = map (\<lambda>a. (a_id a, evaluate_action_eligibility a (tbl_get a_id by_id))) as"

definition ids_with :: "(string \<times> action_eligibility) list \<Rightarrow> action_eligibility list \<Rightarrow> string list" where
  "ids_with els es = map fst (filter (\<lambda>x. snd x \<in> set es) els)"

text \<open>What a run keeps while it goes: the ids it executed, why it stopped, its flags and the deferred reason of a failure.\<close>

record run_vars =
  ov_executed :: "string list"
  ov_stop :: "stop_reason option"
  ov_human :: bool
  ov_recon :: bool
  ov_pending :: "stop_reason option"
  ov_pending_human :: bool

definition start_vars :: run_vars where
  "start_vars = \<lparr>ov_executed = [], ov_stop = None, ov_human = False, ov_recon = False, ov_pending = None, ov_pending_human = False\<rparr>"

definition summarize :: "string \<Rightarrow> plan_status \<Rightarrow> plan_status \<Rightarrow> action list \<Rightarrow> stop_reason \<Rightarrow> run_vars \<Rightarrow> orchestration_result" where
  "summarize i starting ending as stop v = (let els = eligibilities (actions_dict as) (actions_dict (active_actions as)) in
     \<lparr>og_plan_id = i, og_starting_status = starting, og_ending_status = ending, og_actions_total = length (active_actions as),
      og_actions_completed = length (ids_with els [EL_ALREADY_COMPLETED]),
      og_actions_executed_this_run = length (ov_executed v),
      og_actions_waiting_for_approval = length (ids_with els [EL_WAITING_FOR_APPROVAL]),
      og_actions_waiting_for_dependencies = length (ids_with els [EL_WAITING_FOR_DEPENDENCIES]),
      og_actions_blocked = length (ids_with els [EL_BLOCKED_BY_FAILED_DEPENDENCY, EL_BLOCKED_BY_REJECTED_DEPENDENCY, EL_SECURITY_BLOCKED]),
      og_actions_failed = length (ids_with els [EL_TERMINAL_FAILED]),
      og_reconciliation_required = ov_recon v, og_stop_reason = stop, og_progress_made = (ov_executed v \<noteq> []),
      og_next_action_ids = ids_with els [EL_READY], og_approval_action_ids = ids_with els [EL_WAITING_FOR_APPROVAL],
      og_human_review_required = ov_human v\<rparr>)"

section \<open>A run\<close>

text \<open>After an action was advanced: count it, and route a failure.\<close>

definition note_failure :: "orch_env \<Rightarrow> string \<Rightarrow> action \<Rightarrow> run_vars \<Rightarrow> run_vars orch" where
  "note_failure env i advanced v = and_then (load_latest_execution_result (a_id advanced)) (\<lambda>res.
     and_then (process_failure env i advanced res FC_UNKNOWN None) (\<lambda>(stop, human). give (case stop of
       None \<Rightarrow> v | Some _ \<Rightarrow> v\<lparr>ov_pending := stop, ov_pending_human := ov_pending_human v \<or> human\<rparr>)))"

text \<open>The single pass over the actions that wait for approval.\<close>

fun catch_up :: "orch_env \<Rightarrow> string \<Rightarrow> action list \<Rightarrow> run_vars \<Rightarrow> run_vars orch" where
  "catch_up env i [] v = give v"
| "catch_up env i (a # as) v = and_then (advance_one_action env a) (\<lambda>(advanced, review). and_then
     (if review then give (v\<lparr>ov_human := True, ov_stop := Some SR_HUMAN_REVIEW_REQUIRED\<rparr>)
      else if a_status advanced \<noteq> a_status a then
        (let w = v\<lparr>ov_executed := ov_executed v @ [a_id a]\<rparr> in
         if a_status advanced = AS_FAILED then note_failure env i advanced w else give w)
      else give v) (catch_up env i as))"

text \<open>Reconciling the actions under way: the dict of actions afterwards, and whether one of them blocks.\<close>

definition orch_recon_env :: "orch_env \<Rightarrow> nat \<Rightarrow> recon_env" where
  "orch_recon_env env k = \<lparr>re_adapters = oe_adapters env, re_root = oe_root env, re_clock = oe_clock env k\<rparr>"

definition reconcile_one :: "orch_env \<Rightarrow> string \<Rightarrow> reconciliation_result orch" where
  "reconcile_one env i = and_then next_call (\<lambda>k. on_exec (\<lambda>db. map_prod id (map_sum Orch_Recon id)
     (reconcile_action (orch_recon_env env k) db i)))"

fun reconcile_pass :: "orch_env \<Rightarrow> string \<Rightarrow> action list \<Rightarrow> action list \<Rightarrow> bool \<Rightarrow> (action list \<times> bool) orch" where
  "reconcile_pass env i [] by_id blocked = give (by_id, blocked)"
| "reconcile_pass env i (a # as) by_id blocked =
     (if a_status a \<notin> set in_progress_action_statuses then reconcile_pass env i as by_id blocked
      else and_then (reconcile_one env (a_id a)) (\<lambda>q.
        and_then (load_row (a_id a)) (\<lambda>refreshed.
        if rc_safe_to_retry q \<and> \<not> rc_recovered q \<and> a_status refreshed = AS_EXECUTING then
          and_then (process_failure env i refreshed None FC_TRANSIENT (Some False)) (\<lambda>(stop, human). (case stop of
            None \<Rightarrow> and_then (load_row (a_id a)) (\<lambda>again. reconcile_pass env i as (tbl_put a_id by_id again) blocked)
          | Some _ \<Rightarrow> reconcile_pass env i as (tbl_put a_id by_id refreshed) True))
        else reconcile_pass env i as (tbl_put a_id by_id refreshed)
          (blocked \<or> rc_human_review_required q \<and> \<not> rc_recovered q))))"

text \<open>The bounded loop, with the actions of the plan as last loaded; the fuel is the steps left.\<close>

fun dispatch :: "orch_env \<Rightarrow> string \<Rightarrow> nat \<Rightarrow> action list \<Rightarrow> run_vars \<Rightarrow> run_vars orch" where
  "dispatch env i 0 as v = give (v\<lparr>ov_stop := Some SR_ORCHESTRATION_LIMIT_REACHED\<rparr>)"
| "dispatch env i (Suc n) as v = (if ov_stop v \<noteq> None then give v else
     and_then (reconcile_pass env i as (actions_dict as) False) (\<lambda>(by_id, blocked).
     if blocked then give (v\<lparr>ov_stop := Some SR_RECONCILIATION_REQUIRED, ov_recon := True, ov_human := True\<rparr>)
     else (let els = map snd (eligibilities by_id by_id) in
     if EL_RECONCILIATION_REQUIRED \<in> set els then give (v\<lparr>ov_stop := Some SR_RECONCILIATION_REQUIRED, ov_recon := True\<rparr>)
     else (case sort_key (\<lambda>a. (a_sequence a, a_id a)) (filter (\<lambda>a. evaluate_action_eligibility a (tbl_get a_id by_id) = EL_READY) by_id) of
         [] \<Rightarrow> give (v\<lparr>ov_stop := Some (determine_blocking_stop_reason els)\<rparr>)
       | a # _ \<Rightarrow> and_then (advance_one_action env a) (\<lambda>(advanced, review).
           if review then give (v\<lparr>ov_human := True, ov_stop := Some SR_HUMAN_REVIEW_REQUIRED\<rparr>)
           else (let w = (if a_status advanced \<noteq> a_status a then v\<lparr>ov_executed := ov_executed v @ [a_id a]\<rparr> else v) in
             and_then (if a_status advanced = AS_FAILED \<and> a_status a \<noteq> AS_FAILED then note_failure env i advanced w else give w) (\<lambda>w.
             and_then (reload i) (\<lambda>(_, p). dispatch env i n (p_actions p) w))))))))"

definition set_plan :: "string \<Rightarrow> plan_row \<Rightarrow> (plan_row \<Rightarrow> plan_row) \<Rightarrow> unit orch" where
  "set_plan i row f s = (s\<lparr>os_plans := snd (plan_update (os_plans s) i (pw_version row) f)\<rparr>, Inr ())"

text \<open>The guard against a changed structure, and the way back through \<open>EXECUTING\<close>.\<close>

definition enter_executing :: "orch_env \<Rightarrow> string \<Rightarrow> action_plan orch" where
  "enter_executing env i = and_then (reload i) (\<lambda>(row, p).
     if pw_plan_hash row \<noteq> None \<and> Some (compute_plan_hash p) \<noteq> pw_plan_hash row then orch_raise (PlanMutationDetectedError i)
     else if p_status p = PS_EXECUTING then give p
     else and_then (or_raise Orch_Plan_Transition (assert_plan_transition (p_status p) PS_EXECUTING)) (\<lambda>_.
       and_then next_call (\<lambda>k.
       and_then (set_plan i row (\<lambda>r. r\<lparr>pw_status := PS_EXECUTING,
         pw_started_at := (if p_status p = PS_READY then Some (oe_clock env k 0) else pw_started_at r)\<rparr>)) (\<lambda>_.
       and_then (reload i) (\<lambda>(_, q). give q)))))"

definition apply_pending :: "run_vars \<Rightarrow> run_vars" where
  "apply_pending v = v\<lparr>ov_stop := (if ov_pending v \<noteq> None \<and> ov_stop v \<in> {None, Some SR_ACTION_FAILED} then ov_pending v else ov_stop v),
     ov_human := ov_human v \<or> ov_pending_human v\<rparr>"

text \<open>The plan's status is computed again from its actions and stored when the machine allows it.\<close>

definition settle_plan :: "orch_env \<Rightarrow> string \<Rightarrow> run_vars \<Rightarrow> action_plan orch" where
  "settle_plan env i v = and_then (reload i) (\<lambda>(row, p). (let (final, why) = recompute_plan_status (p_actions p) in
     and_then (if final \<noteq> p_status p \<and> can_plan_transition (p_status p) final then and_then next_call (\<lambda>k. set_plan i row (\<lambda>r. r\<lparr>pw_status := final,
         pw_pause_reason := why, pw_completed_at := (if final = PS_COMPLETED then Some (oe_clock env k 0) else None),
         pw_reconciliation_required := ov_recon v\<rparr>)) else give ()) (\<lambda>_.
     and_then (reload i) (\<lambda>(_, q). give q))))"

definition waiting_in_order :: "action list \<Rightarrow> action list" where
  "waiting_in_order as = sort_key (\<lambda>a. (a_sequence a, a_id a)) (filter (\<lambda>a. a_status a = AS_WAITING_FOR_APPROVAL) as)"

definition run_claimed :: "orch_env \<Rightarrow> string \<Rightarrow> (action_plan \<times> run_vars) orch" where
  "run_claimed env i = and_then (enter_executing env i) (\<lambda>p. (let waiting = waiting_in_order (p_actions p) in
     and_then (catch_up env i waiting start_vars) (\<lambda>v.
     and_then (if waiting = [] then give p else and_then (reload i) (\<lambda>(_, q). give q)) (\<lambda>p.
     and_then (dispatch env i (oe_max_steps env) (p_actions p) v) (\<lambda>v. (let w = apply_pending v in
     and_then (settle_plan env i w) (\<lambda>p. give (p, w\<lparr>ov_stop := Some (case ov_stop w of
       Some r \<Rightarrow> r | None \<Rightarrow> if p_status p = PS_COMPLETED then SR_PLAN_COMPLETED else SR_NO_PROGRESS)\<rparr>))))))))"

definition claim_lease :: "orch_env \<Rightarrow> string \<Rightarrow> nat \<Rightarrow> bool \<Rightarrow> bool orch" where
  "claim_lease env i k stale s = (case claim_orchestration (os_plans s) i (oe_owner env) (oe_clock env k 0) (oe_lease_seconds env) stale of
     (ok, t) \<Rightarrow> (s\<lparr>os_plans := t\<rparr>, Inr ok))"

text \<open>A lease that is held is taken over only when it has expired, and after the plan was reconciled; the actions' reconciliations
  draw the next numbers.\<close>

definition reconcile_stale :: "orch_env \<Rightarrow> string \<Rightarrow> unit orch" where
  "reconcile_stale env i s = (case reconcile_plan (\<lambda>j. orch_recon_env env (Suc (os_calls s + j))) (oe_clock env (os_calls s) 0)
       (os_plans s) (os_exec s) i of
     (d, r) \<Rightarrow> (s\<lparr>os_exec := d, os_calls := os_calls s + 2 + length (x_actions (os_exec s))\<rparr>, map_sum Orch_Plan_Recon (\<lambda>_. ()) r))"

definition acquire_lease :: "orch_env \<Rightarrow> string \<Rightarrow> bool orch" where
  "acquire_lease env i = and_then next_call (\<lambda>k.
     and_then (claim_lease env i k False) (\<lambda>ok. if ok then give True
     else and_then (reading (\<lambda>s. Inr (plan_get (os_plans s) i))) (\<lambda>current.
       if (case Option.bind current pw_orchestration_lease_expires_at of None \<Rightarrow> False | Some t \<Rightarrow> t < oe_clock env k 0) then
         and_then (reconcile_stale env i) (\<lambda>_. and_then next_call (\<lambda>k. claim_lease env i k True))
       else give False)))"

definition release_lease :: "orch_env \<Rightarrow> string \<Rightarrow> orch_db \<Rightarrow> orch_db" where
  "release_lease env i s = s\<lparr>os_plans := snd (release_orchestration (os_plans s) i (oe_owner env))\<rparr>"

definition settled_stop :: "plan_status \<Rightarrow> stop_reason option" where
  "settled_stop st = (case st of PS_COMPLETED \<Rightarrow> Some SR_PLAN_COMPLETED | PS_FAILED \<Rightarrow> Some SR_ACTION_FAILED
     | PS_CANCELLED \<Rightarrow> Some SR_CANCELLED | _ \<Rightarrow> None)"

definition orchestratable :: "plan_status list" where
  "orchestratable = [PS_READY, PS_EXECUTING, PS_WAITING_FOR_APPROVAL, PS_PARTIALLY_COMPLETED]"

definition run_plan_until_blocked :: "orch_env \<Rightarrow> string \<Rightarrow> orchestration_result orch" where
  "run_plan_until_blocked env i = and_then (load_current i) (\<lambda>l. (case l of
     None \<Rightarrow> orch_raise (PlanNotFoundError i)
   | Some (_, p) \<Rightarrow> (case settled_stop (p_status p) of
        Some r \<Rightarrow> give (summarize i (p_status p) (p_status p) (p_actions p) r start_vars)
      | None \<Rightarrow>
          if p_status p \<notin> set orchestratable then orch_raise (PlanNotOrchestratableError i (p_status p))
          else and_then (acquire_lease env i) (\<lambda>claimed.
            if \<not> claimed then and_then (load_current i) (\<lambda>l. (let q = (case l of None \<Rightarrow> p | Some (_, q) \<Rightarrow> q) in
              give (summarize i (p_status p) (p_status q) (p_actions q) SR_CONCURRENT_ORCHESTRATOR start_vars)))
            else and_then (finally_do (run_claimed env i) (release_lease env i)) (\<lambda>(q, v).
              give (summarize i (p_status p) (p_status q) (p_actions q) (case ov_stop v of None \<Rightarrow> SR_NO_PROGRESS | Some r \<Rightarrow> r) v))))))"

end
