(* ===== verification/Orchestration_Safety.thy ===== *)
theory Orchestration_Safety
  imports Plan_Orchestrator Durable_Safety
begin

text \<open>
  What a run of the orchestrator may change, whatever it does and wherever it raises, proved once for every
  part by the rules of \<open>framed\<close>.
\<close>

section \<open>The frame of the work on actions\<close>

definition resting_statuses :: "action_status list" where
  "resting_statuses = [AS_COMPLETED, AS_REJECTED, AS_CANCELLED, AS_BLOCKED]"

definition rows_kept :: "action_row list \<Rightarrow> action_row list \<Rightarrow> bool" where
  "rows_kept t t' = (\<forall>i r. action_get t i = Some r \<longrightarrow>
     (\<exists>r'. action_get t' i = Some r' \<and> (ro_status r \<in> set resting_statuses \<longrightarrow> r' = r)))"

definition history_kept :: "orch_db \<Rightarrow> orch_db \<Rightarrow> bool" where
  "history_kept s s' = (rows_kept (x_actions (os_exec s)) (x_actions (os_exec s')) \<and>
     prefix (os_failures s) (os_failures s') \<and> prefix (os_recoveries s) (os_recoveries s'))"

definition work_frame :: "orch_db \<Rightarrow> orch_db \<Rightarrow> bool" where
  "work_frame s s' = (os_plans s' = os_plans s \<and> history_kept s s')"

lemma rows_kept_refl [simp]: "rows_kept t t"
  by (simp add: rows_kept_def)

lemma rows_kept_trans: "rows_kept t u \<Longrightarrow> rows_kept u v \<Longrightarrow> rows_kept t v"
  unfolding rows_kept_def by metis

lemma rows_kept_advanced: "rows_advanced t u \<Longrightarrow> rows_kept t u"
  unfolding rows_advanced_def rows_kept_def row_advanced_def resting_statuses_def terminal_statuses_def by fastforce

lemma rows_kept_set: "(\<And>i r. action_get t i = Some r \<Longrightarrow> ro_status r \<notin> set resting_statuses \<and> (\<exists>r'. action_get u i = Some r') \<or> action_get u i = Some r) \<Longrightarrow> rows_kept t u"
  unfolding rows_kept_def by blast

lemma history_kept_refl [simp]: "history_kept s s"
  by (simp add: history_kept_def)

lemma history_kept_trans: "history_kept s t \<Longrightarrow> history_kept t u \<Longrightarrow> history_kept s u"
  by (auto simp: history_kept_def intro: rows_kept_trans prefix_order.trans)

lemma work_frame_refl [simp]: "work_frame s s"
  by (simp add: work_frame_def)

lemma work_frame_trans: "work_frame s t \<Longrightarrow> work_frame t u \<Longrightarrow> work_frame s u"
  by (auto simp: work_frame_def intro: history_kept_trans)

text \<open>A computation is framed by a relation when it relates the database it finds to the one it leaves, raising or not.\<close>

definition framed :: "(orch_db \<Rightarrow> orch_db \<Rightarrow> bool) \<Rightarrow> 'a orch \<Rightarrow> bool" where
  "framed R m = (\<forall>s. R s (fst (m s)))"

named_theorems framed_rules

text \<open>The rules for the ways computations are put together, for any preorder.\<close>

locale orch_frame =
  fixes R :: "orch_db \<Rightarrow> orch_db \<Rightarrow> bool"
  assumes frame_refl: "R s s"
    and frame_trans: "\<lbrakk>R s t; R t u\<rbrakk> \<Longrightarrow> R s u"
begin

lemma give [framed_rules]: "framed R (give x)"
  by (simp add: framed_def give_def frame_refl)

lemma raises [framed_rules]: "framed R (orch_raise e)"
  by (simp add: framed_def orch_raise_def frame_refl)

lemma reads [framed_rules]: "framed R (reading f)"
  by (simp add: framed_def reading_def frame_refl)

lemma sequence [framed_rules]:
  assumes "framed R m" "\<And>x. framed R (f x)"
  shows "framed R (and_then m f)"
  unfolding framed_def
proof
  fix s
  obtain s1 r where m: "m s = (s1, r)" by fastforce
  have f: "R s s1" using assms(1) m unfolding framed_def by (metis fst_conv)
  show "R s (fst (and_then m f s))"
  proof (cases r)
    case (Inr x)
    have "R s1 (fst (f x s1))" using assms(2) [of x] unfolding framed_def by blast
    then show ?thesis using frame_trans [OF f] m Inr by (simp add: and_then_def)
  qed (use f m in \<open>simp add: and_then_def\<close>)
qed

lemma branch [framed_rules]: "framed R m \<Longrightarrow> framed R n \<Longrightarrow> framed R (if c then m else n)"
  by simp

lemma alternatives [framed_rules]:
  "framed R m \<Longrightarrow> (\<And>x. framed R (f x)) \<Longrightarrow> framed R (case_option m f u)"
  "(\<And>x y. framed R (g x y)) \<Longrightarrow> framed R (case_prod g p)"
  "(\<And>e. framed R (h e)) \<Longrightarrow> (\<And>x. framed R (f x)) \<Longrightarrow> framed R (case_sum h f r)"
  "framed R m \<Longrightarrow> (\<And>x xs. framed R (k x xs)) \<Longrightarrow> framed R (case_list m k l)"
  by (simp_all split: option.split prod.split sum.split list.split)

lemma lifts [framed_rules]: "framed R (or_raise f r)"
  by (simp add: or_raise_def give raises split: sum.split)

lemma loads [framed_rules]: "framed R (load_current i)" "framed R (reload i)" "framed R (load_row i)" "framed R (load_latest_execution_result i)"
  unfolding load_current_def reload_def load_row_def load_latest_execution_result_def
  by (intro reads sequence alternatives give raises)+

end

interpretation work: orch_frame work_frame
  by unfold_locales (simp, rule work_frame_trans)

lemma framed_next_call [framed_rules]: "framed work_frame next_call"
  by (simp add: framed_def next_call_def work_frame_def history_kept_def)

lemma framed_on_exec:
  assumes "\<And>d. rows_kept (x_actions d) (x_actions (fst (f d)))"
  shows "framed work_frame (on_exec f)"
  unfolding framed_def
proof
  fix s
  show "work_frame s (fst (on_exec f s))"
    using assms [of "os_exec s"] by (cases "f (os_exec s)") (simp add: on_exec_def work_frame_def history_kept_def)
qed

section \<open>The parts\<close>

lemma insert_kept: "action_create t row = Some t' \<Longrightarrow> rows_kept t t'"
  by (intro rows_kept_advanced create_advances)

lemma update_kept:
  assumes "action_get t i = Some row" "ro_status row \<notin> set resting_statuses" "\<And>r. ro_id (f r) = ro_id r"
  shows "rows_kept t (snd (action_update t i v f))"
proof (cases "fst (action_update t i v f)")
  case True
  have other: "action_get (snd (action_update t i v f)) j = action_get t j" if "j \<noteq> i" for j
    using that assms(3) by (intro action_store.cas_other) auto
  have own: "\<exists>r. action_get (snd (action_update t i v f)) i = Some r"
    using action_store.cas_get [OF True, of i] assms by auto
  show ?thesis unfolding rows_kept_def
  proof (intro allI impI)
    fix j r assume "action_get t j = Some r"
    then show "\<exists>r'. action_get (snd (action_update t i v f)) j = Some r' \<and> (ro_status r \<in> set resting_statuses \<longrightarrow> r' = r)"
      using other own assms(1,2) by (cases "j = i") auto
  qed
qed (simp add: action_store.cas_fail)

lemma upsert_kept: "rows_kept (x_actions db) (x_actions (fst (upsert_action_record n v a db)))"
proof (induction n v a db rule: upsert_action_record.induct)
  case (2 n v a db)
  show ?case
  proof (cases "action_get (x_actions db) (a_id a)")
    case None
    show ?thesis
    proof (cases "action_to_record_fields a")
      case (Inr cols)
      show ?thesis
      proof (cases "action_create (x_actions db) (cols\<lparr>ro_version := 1\<rparr>)")
        case None': None
        then show ?thesis using None Inr "2.IH"(1) [OF None Inr None'] by simp
      qed (use None Inr insert_kept in simp)
    qed (use None in simp)
  next
    case (Some row)
    show ?thesis
    proof (cases "keep_existing row a")
      case False
      then have rest: "ro_status row \<notin> set resting_statuses"
        by (auto simp: keep_existing_def resting_statuses_def terminal_statuses_def)
      show ?thesis
      proof (cases "action_to_record_fields a")
        case (Inr cols)
        obtain ok t where u: "action_update (x_actions db) (a_id a) (ro_version row) (\<lambda>r. cols\<lparr>ro_id := ro_id r\<rparr>) = (ok, t)" by fastforce
        have "rows_kept (x_actions db) t" using update_kept [OF Some rest, of "\<lambda>r. cols\<lparr>ro_id := ro_id r\<rparr>" "ro_version row"] u by simp
        then show ?thesis using Some False Inr u "2.IH"(2) [OF Some False Inr u [symmetric]] by (cases ok) simp_all
      qed (use Some False in simp)
    qed (use Some in simp)
  qed
qed simp

lemma framed_store_action [framed_rules]: "framed work_frame (store_action a)"
  unfolding store_action_def by (intro framed_rules framed_on_exec upsert_kept)

lemma framed_walk [framed_rules]: "framed work_frame (walk_targets now ts a)"
  by (induction ts arbitrary: a) (simp_all only: walk_targets.simps, (intro framed_rules | assumption)+)

lemma framed_toolless [framed_rules]: "framed work_frame (complete_toolless_action env a)"
  unfolding complete_toolless_action_def by (intro framed_rules)

lemma framed_persist_failure [framed_rules]: "framed work_frame (persist_failure_record f)"
  by (auto simp: framed_def persist_failure_record_def Let_def failure_create_def work_frame_def history_kept_def
      dest: tbl_insert_new split: option.split)

lemma framed_persist_recovery [framed_rules]: "framed work_frame (persist_recovery r)"
  by (auto simp: framed_def persist_recovery_def recovery_create_def work_frame_def history_kept_def
      dest: tbl_insert_new split: option.split)

lemma retry_sources_move: "ro_status row \<in> set retry_reentry_sources \<Longrightarrow> ro_status row \<notin> set resting_statuses"
  by (auto simp: retry_reentry_sources_def resting_statuses_def)

lemma framed_try_retry [framed_rules]: "framed work_frame (try_retry i)"
  unfolding try_retry_def
proof (rule framed_on_exec)
  fix db
  show "rows_kept (x_actions db) (x_actions (fst (case action_get (x_actions db) i of
     None \<Rightarrow> (db, Inl (Orch_Row_Missing i))
   | Some row \<Rightarrow> (case authorize_retry (x_actions db) row of
        Inr (t, a) \<Rightarrow> (db\<lparr>x_actions := t\<rparr>, Inr None)
      | Inl (RetryReload e) \<Rightarrow> (db\<lparr>x_actions := snd (action_update (x_actions db) (ro_id row) (ro_version row) (retry_fields row))\<rparr>, Inl (Orch_Load e))
      | Inl _ \<Rightarrow> (db, Inr (Some ()))))))"
  proof (cases "action_get (x_actions db) i")
    case (Some row)
    then have i: "ro_id row = i" by (auto simp: action_get_def dest: tbl_get_SomeD)
    have k: "rows_kept (x_actions db) (snd (action_update (x_actions db) i (ro_version row) (retry_fields row)))"
      if "ro_status row \<in> set retry_reentry_sources"
      using update_kept [OF Some retry_sources_move [OF that], of "retry_fields row"] by simp
    show ?thesis
    proof (cases "authorize_retry (x_actions db) row")
      case (Inl e)
      show ?thesis
      proof (cases e)
        case (RetryReload e')
        then have "ro_status row \<in> set retry_reentry_sources"
          using Inl by (auto simp: authorize_retry_def split: if_splits)
        then show ?thesis using k i Some Inl RetryReload by simp
      qed (use Some Inl in simp_all)
    next
      case (Inr x)
      then show ?thesis using k i Some authorize_retry_OkD [of "x_actions db" row "fst x" "snd x"] by (cases x) simp
    qed
  qed simp
qed

lemma framed_process_failure [framed_rules]: "framed work_frame (process_failure env i a res fb ov)"
  unfolding process_failure_def Let_def by (intro framed_rules)

lemma framed_reserve [framed_rules]: "framed work_frame (reserve env i ty amount key why)"
  unfolding reserve_def
  by (intro work.sequence framed_next_call) (auto simp: framed_def work_frame_def history_kept_def split: prod.split option.split sum.split)

lemma framed_check_budget [framed_rules]: "framed work_frame (check_execution_budget env a)"
  unfolding check_execution_budget_def by (intro framed_rules)

lemma framed_budget_denial [framed_rules]: "framed work_frame (fail_for_budget_denial env a ty i)"
  unfolding fail_for_budget_denial_def by (intro framed_rules)

lemma run_durable_kept: "pending_ok db pc \<Longrightarrow> rows_advanced (x_actions db) (x_actions (fst (run_durable n q db pc)))"
proof (induction n arbitrary: db pc)
  case (Suc n)
  obtain db' pc' where s: "durable_step q db pc = (db', pc')" by fastforce
  then have "rows_advanced (x_actions db) (x_actions db')" "pending_ok db' pc'"
    using durable_calls.guarantee [OF Suc.prems s] by blast+
  then show ?case using rows_advanced_trans [OF _ Suc.IH] s by simp
qed simp

lemma framed_execute [framed_rules]: "framed work_frame (execute_durably env a d approval retry)"
  unfolding execute_durably_def
proof (intro framed_rules framed_on_exec)
  fix k and db :: exec_db
  let ?q = "\<lparr>dq_env = \<lparr>xe_tools = oe_tools env, xe_adapters = oe_adapters env, xe_root = oe_root env,
         xe_clock = oe_clock env k, xe_attempt = oe_ids env k 0, xe_fault = oe_fault env k\<rparr>,
         dq_action = a, dq_decision = d, dq_approval = approval, dq_claimed_by = ''system'', dq_retry_number = retry,
         dq_created_at = oe_clock env k 9\<rparr>"
  let ?db = "if approval = None then db\<lparr>x_approvals := None\<rparr> else db"
  obtain db' pc where r: "run_durable 84 ?q ?db D_Start = (db', pc)" by fastforce
  have "rows_kept (x_actions db) (x_actions db')"
    using rows_kept_advanced [OF run_durable_kept [of ?db D_Start 84 ?q]] r by (auto split: if_splits)
  then show "rows_kept (x_actions db) (x_actions (fst (case run_durable 84 ?q ?db D_Start of
       (db', pc) \<Rightarrow> (if approval = None then db'\<lparr>x_approvals := x_approvals db\<rparr> else db', case pc of
          D_Done (Inl e) \<Rightarrow> Inl (Orch_Durable e) | D_Done (Inr out) \<Rightarrow> Inr (eo_action out) | _ \<Rightarrow> Inl Orch_Unfinished))))"
    using r by simp
qed

lemma framed_with_approvals [framed_rules]: "framed work_frame (with_approvals f)"
  unfolding with_approvals_def by (rule framed_on_exec) (simp split: option.split sum.split prod.split)

lemma framed_advance [framed_rules]: "framed work_frame (advance_one_action env a)"
  unfolding advance_one_action_def advance_validated_def advance_checked_def advance_waiting_def advance_approved_def
    finalize_from_outcome_def request_approval_def Let_def
  by (intro framed_rules)

lemma framed_catch_up [framed_rules]: "framed work_frame (catch_up env i as v)"
  by (induction as arbitrary: v) (simp_all only: catch_up.simps note_failure_def Let_def, (intro framed_rules | assumption)+)

lemma reconcile_kept: "rows_kept (x_actions db) (x_actions (fst (reconcile_action e db i)))"
proof -
  obtain db' r where q: "reconcile_action e db i = (db', r)" by fastforce
  show ?thesis
  proof (rule rows_kept_set)
    fix j row assume g: "action_get (x_actions db) j = Some row"
    have f: "recon_frame i db db'" using reconciliation_sound [OF q] by blast
    show "ro_status row \<notin> set resting_statuses \<and> (\<exists>r'. action_get (x_actions (fst (reconcile_action e db i))) j = Some r') \<or>
        action_get (x_actions (fst (reconcile_action e db i))) j = Some row"
    proof (cases "j = i \<and> ro_status row \<in> set resting_statuses")
      case True
      then show ?thesis using g by (auto simp: reconcile_action_def Let_def resting_statuses_def)
    next
      case False
      then show ?thesis using f g q by (cases "j = i") (auto simp: recon_frame_def)
    qed
  qed
qed

lemma framed_reconcile_pass [framed_rules]: "framed work_frame (reconcile_pass env i as by_id b)"
proof (induction as arbitrary: by_id b)
  case (Cons a as)
  have one: "framed work_frame (reconcile_one env (a_id a))"
    unfolding reconcile_one_def by (intro framed_rules framed_on_exec) (simp add: reconcile_kept)
  show ?case unfolding reconcile_pass.simps by (intro framed_rules Cons.IH one)
qed (simp add: framed_rules)

lemma framed_dispatch [framed_rules]: "framed work_frame (dispatch env i n as v)"
proof (induction n arbitrary: as v)
  case (Suc n)
  show ?case unfolding dispatch.simps Let_def note_failure_def
    by (intro framed_rules Suc.IH)
qed (simp add: framed_rules)

section \<open>A whole run\<close>

definition plan_frame :: "string \<Rightarrow> orch_db \<Rightarrow> orch_db \<Rightarrow> bool" where
  "plan_frame i s s' = (history_kept s s' \<and> (\<forall>j. j \<noteq> i \<longrightarrow> plan_get (os_plans s') j = plan_get (os_plans s) j))"

interpretation plan: orch_frame "plan_frame i" for i
  by unfold_locales (auto simp: plan_frame_def intro: history_kept_trans)

lemma work_is_plan [framed_rules]: "framed work_frame m \<Longrightarrow> framed (plan_frame i) m"
  by (simp add: framed_def work_frame_def plan_frame_def)

lemma set_plan_framed [framed_rules]:
  assumes "\<And>r. pw_id (f r) = pw_id r"
  shows "framed (plan_frame i) (set_plan i row f)"
  using assms by (simp add: framed_def set_plan_def plan_frame_def history_kept_def plan_store.cas_other)

lemma enter_framed: "framed (plan_frame i) (enter_executing env i)"
  unfolding enter_executing_def
  by (intro plan.sequence plan.alternatives plan.branch plan.loads plan.raises plan.give plan.lifts set_plan_framed work_is_plan [OF framed_next_call]) simp

lemma settle_framed: "framed (plan_frame i) (settle_plan env i v)"
  unfolding settle_plan_def Let_def
  by (intro plan.sequence plan.alternatives plan.branch plan.loads plan.raises plan.give plan.lifts set_plan_framed work_is_plan [OF framed_next_call]) simp

lemma run_claimed_framed: "framed (plan_frame i) (run_claimed env i)"
  unfolding run_claimed_def Let_def
  by (intro plan.sequence plan.alternatives plan.branch plan.loads plan.give enter_framed settle_framed
      work_is_plan [OF framed_catch_up] work_is_plan [OF framed_dispatch])

lemma claim_framed: "framed (plan_frame i) (claim_lease env i k stale)"
  by (auto simp: framed_def claim_lease_def plan_frame_def history_kept_def claim_orchestration_def plan_get_upd split: option.split prod.split)

lemma reconcile_each_kept: "rows_kept (x_actions db) (x_actions (fst (reconcile_each env k db as)))"
proof (induction env k db as rule: reconcile_each.induct)
  case (2 env k db a as)
  obtain db' r where q: "reconcile_action (env k) db (a_id a) = (db', r)" by fastforce
  have k: "rows_kept (x_actions db) (x_actions db')" using reconcile_kept [of db "env k" "a_id a"] q by simp
  show ?case
  proof (cases "a_status a \<in> set in_progress_action_statuses")
    case True
    show ?thesis
    proof (cases r)
      case (Inr x)
      show ?thesis using rows_kept_trans [OF k "2.IH"(2) [OF _ q [symmetric] Inr]] True q Inr
        by (cases "reconcile_each env (Suc k) db' as") simp
    qed (use True q k in simp)
  qed (use "2.IH"(1) in simp)
qed simp

lemma reconcile_plan_kept: "rows_kept (x_actions db) (x_actions (fst (reconcile_plan env ts plans db i)))"
proof -
  have "rows_kept (x_actions db) (x_actions db')" if "reconcile_each env 0 db as = (db', r)" for as db' r
    using reconcile_each_kept [of db env 0 as] that by simp
  then show ?thesis by (auto simp: reconcile_plan_def split: sum.split option.split prod.split)
qed

lemma stale_framed: "framed work_frame (reconcile_stale env i)"
  unfolding framed_def
proof
  fix s
  show "work_frame s (fst (reconcile_stale env i s))"
    using reconcile_plan_kept [of "os_exec s"] by (auto simp: reconcile_stale_def work_frame_def history_kept_def split: prod.split) (metis fst_conv)
qed

lemma acquire_framed: "framed (plan_frame i) (acquire_lease env i)"
  unfolding acquire_lease_def
  by (intro plan.sequence plan.branch plan.reads plan.give claim_framed work_is_plan [OF framed_next_call] work_is_plan [OF stale_framed])

lemma release_framed: "plan_frame i s (release_lease env i s)"
  by (auto simp: plan_frame_def history_kept_def release_lease_def release_orchestration_def plan_get_upd split: option.split)

lemma finally_framed: "framed (plan_frame i) m \<Longrightarrow> (\<And>s. plan_frame i s (f s)) \<Longrightarrow> framed (plan_frame i) (finally_do m f)"
  unfolding framed_def finally_do_def by (metis (mono_tags, lifting) case_prod_beta fst_conv plan.frame_trans)

lemma run_framed: "framed (plan_frame i) (run_plan_until_blocked env i)"
  unfolding run_plan_until_blocked_def Let_def
  by (intro plan.sequence plan.alternatives plan.branch plan.loads plan.give plan.raises acquire_framed finally_framed run_claimed_framed release_framed)

end
