(* ===== verification/Orchestration_Results.thy ===== *)
theory Orchestration_Results
  imports Orchestration_Safety
begin

text \<open>
  What a run that returned went through: rules that take the computations apart, what the last step makes of the plan's status,
  and the ways a run can go (\<open>run_cases\<close>).
\<close>

section \<open>Runs taken apart\<close>

lemma and_then_InrE: "and_then m f s = (s', Inr y) \<longleftrightarrow> (\<exists>s1 x. m s = (s1, Inr x) \<and> f x s1 = (s', Inr y))"
  by (cases "m s") (auto simp: and_then_def split: sum.split)

lemma give_eq: "give x s = (s', Inr y) \<longleftrightarrow> s' = s \<and> y = x"
  by (auto simp: give_def)

lemma raise_eq [simp]: "orch_raise e s \<noteq> (s', Inr y)"
  by (simp add: orch_raise_def)

lemma or_raise_eq: "or_raise f r s = (s', Inr y) \<longleftrightarrow> s' = s \<and> r = Inr y"
  by (auto simp: or_raise_def give_def orch_raise_def split: sum.split)

lemma next_call_eq: "next_call s = (s', Inr k) \<longleftrightarrow> s' = s\<lparr>os_calls := Suc (os_calls s)\<rparr> \<and> k = os_calls s"
  by (auto simp: next_call_def)

abbreviation plan_in :: "orch_db \<Rightarrow> string \<Rightarrow> load_error + (plan_row \<times> action_plan) option" where
  "plan_in s i \<equiv> load_plan (os_plans s) (x_actions (os_exec s)) i"

lemma load_current_eq: "load_current i s = (s', Inr l) \<longleftrightarrow> s' = s \<and> plan_in s i = Inr l"
  by (auto simp: load_current_def reading_def map_sum_def split: sum.split)

lemma reload_eq: "reload i s = (s', Inr x) \<longleftrightarrow> s' = s \<and> plan_in s i = Inr (Some x)"
  by (cases x) (auto simp: reload_def and_then_InrE load_current_eq give_eq split: option.splits)

lemmas run_simps = and_then_InrE give_eq or_raise_eq next_call_eq load_current_eq reload_eq

lemma plan_in_iff: "plan_in s i = Inr (Some (row, p)) \<longleftrightarrow>
    (\<exists>as. plan_get (os_plans s) i = Some row \<and> load_plan_actions (x_actions (os_exec s)) i = Inr as \<and> p = record_to_plan row as)"
  by (auto simp: load_plan_def bind_sum_InrE split: option.split)

lemma set_plan_facts:
  assumes "plan_get (os_plans s) i = Some row" "\<And>r. pw_id (f r) = pw_id r" "set_plan i row f s = (s', r)"
  shows "r = Inr ()" "os_exec s' = os_exec s" "plan_get (os_plans s') i = Some ((f row)\<lparr>pw_version := pw_version row + 1\<rparr>)"
  using assms plan_store.reader_writes [OF assms(1), of f] by (auto simp: set_plan_def)

lemma enter_executing_facts:
  assumes "enter_executing env i s = (s', Inr q)"
  shows "\<exists>row. plan_get (os_plans s') i = Some row \<and> pw_status row = PS_EXECUTING"
proof -
  obtain row p where l: "plan_in s i = Inr (Some (row, p))" and g: "plan_get (os_plans s) i = Some row" and
    st: "p_status p = pw_status row"
    using assms by (auto simp: enter_executing_def run_simps dest: load_plan_SomeD(1,2))
  show ?thesis
  proof (cases "p_status p = PS_EXECUTING")
    case True
    then show ?thesis using assms l g st by (auto simp: enter_executing_def run_simps split: if_splits)
  next
    case False
    then obtain k f s1 u s2 where s1: "s1 = s\<lparr>os_calls := k\<rparr>" "set_plan i row f s1 = (s2, Inr u)"
      and f: "\<And>r. pw_id (f r) = pw_id r" "\<And>r. pw_status (f r) = PS_EXECUTING" and s': "s' = s2"
      using assms l by (auto simp: enter_executing_def run_simps split: if_splits)
    then show ?thesis using set_plan_facts(3) [OF _ f(1) s1(2)] g s1(1) f(2) s' by simp
  qed
qed

definition rows_of_plan :: "orch_db \<Rightarrow> string \<Rightarrow> action_row list" where
  "rows_of_plan s i = action_list_by_plan (x_actions (os_exec s)) i"

text \<open>Every current action of the plan, and there is one, is stored as completed.\<close>

definition truly_completed :: "orch_db \<Rightarrow> string \<Rightarrow> bool" where
  "truly_completed s i = ((\<exists>r \<in> set (rows_of_plan s i). ro_superseded_by_action_id r = None) \<and>
     (\<forall>r \<in> set (rows_of_plan s i). ro_superseded_by_action_id r = None \<longrightarrow> ro_status r = AS_COMPLETED))"

lemma all_completed_iff: "length (filter (\<lambda>s. s = AS_COMPLETED) ss) = length ss \<longleftrightarrow> (\<forall>s \<in> set ss. s = AS_COMPLETED)"
proof (induction ss)
  case (Cons x ss)
  then show ?case using length_filter_le [of "\<lambda>s. s = AS_COMPLETED" ss] by (cases "x = AS_COMPLETED") (auto simp del: length_filter_le)
qed simp

lemma recompute_completed_iff: "fst (recompute_plan_status as) = PS_COMPLETED \<longleftrightarrow>
    active_actions as \<noteq> [] \<and> (\<forall>a \<in> set (active_actions as). a_status a = AS_COMPLETED)"
  unfolding recompute_plan_status_def Let_def all_completed_iff by auto

lemma load_all_superseded: "load_all rs = Inr as \<Longrightarrow> map (\<lambda>a. (a_superseded_by a, a_status a)) as = map (\<lambda>r. (ro_superseded_by_action_id r, ro_status r)) rs"
  by (induction rs arbitrary: as) (auto simp: bind_sum_InrE record_to_action_def)

lemma recompute_truly:
  assumes "load_plan_actions (x_actions (os_exec s)) i = Inr as"
  shows "fst (recompute_plan_status as) = PS_COMPLETED \<longleftrightarrow> truly_completed s i"
proof -
  let ?f = "\<lambda>a. (a_superseded_by a, a_status a)" and ?g = "\<lambda>r. (ro_superseded_by_action_id r, ro_status r)"
  have m: "map ?f as = map ?g (rows_of_plan s i)"
    using load_all_superseded [of "rows_of_plan s i" as] assms by (simp add: load_plan_actions_def rows_of_plan_def)
  have "(\<exists>x \<in> set (map ?f as). P (fst x) (snd x)) \<longleftrightarrow> (\<exists>x \<in> set (map ?g (rows_of_plan s i)). P (fst x) (snd x))" for P
    by (simp only: m)
  then have "(\<exists>a \<in> set as. P (a_superseded_by a) (a_status a)) \<longleftrightarrow>
      (\<exists>r \<in> set (rows_of_plan s i). P (ro_superseded_by_action_id r) (ro_status r))" for P
    by simp
  from this [of "\<lambda>x y. x = None"] this [of "\<lambda>x y. x = None \<and> y \<noteq> AS_COMPLETED"] show ?thesis
    unfolding recompute_completed_iff truly_completed_def active_actions_def filter_empty_conv by auto
qed

lemma framed_plans: "framed work_frame m \<Longrightarrow> m s = (s', r) \<Longrightarrow> os_plans s' = os_plans s"
  unfolding framed_def work_frame_def by (metis fst_conv)

lemma settle_plan_facts:
  assumes "settle_plan env i v s = (s', Inr q)" "plan_get (os_plans s) i = Some row0" "pw_status row0 = PS_EXECUTING"
  shows "\<exists>row. plan_in s' i = Inr (Some (row, q))" "p_status q = PS_COMPLETED \<longrightarrow> truly_completed s' i"
proof -
  obtain p where p: "plan_in s i = Inr (Some (row0, p))"
    using assms(1,2) by (auto simp: settle_plan_def run_simps plan_in_iff Let_def)
  then obtain as where as: "load_plan_actions (x_actions (os_exec s)) i = Inr as" "p_actions p = as" "p_status p = PS_EXECUTING"
    using assms(3) by (auto simp: plan_in_iff record_to_plan_def)
  define why where "why = snd (recompute_plan_status as)"
  define final where "final = fst (recompute_plan_status as)"
  have q: "\<exists>row. plan_in s' i = Inr (Some (row, q))" "os_exec s' = os_exec s"
    "pw_status row0 = PS_EXECUTING \<Longrightarrow> p_status q = PS_COMPLETED \<longrightarrow> final = PS_COMPLETED"
    if "\<exists>x. and_then (if final \<noteq> PS_EXECUTING \<and> can_plan_transition PS_EXECUTING final
        then and_then next_call (\<lambda>k. set_plan i row0 (\<lambda>r. r\<lparr>pw_status := final, pw_pause_reason := why,
          pw_completed_at := (if final = PS_COMPLETED then Some (oe_clock env k 0) else None), pw_reconciliation_required := ov_recon v\<rparr>))
        else give ()) (\<lambda>_. and_then (reload i) (\<lambda>(_, q). give q)) s = (s', Inr q)"
  proof -
    show pl: "\<exists>row. plan_in s' i = Inr (Some (row, q))" using that by (auto simp: run_simps)
    show "os_exec s' = os_exec s" using that by (auto simp: run_simps set_plan_def split: if_splits)
    show "p_status q = PS_COMPLETED \<longrightarrow> final = PS_COMPLETED"
    proof (cases "final \<noteq> PS_EXECUTING \<and> can_plan_transition PS_EXECUTING final")
      case True
      let ?f = "\<lambda>r. r\<lparr>pw_status := final, pw_pause_reason := why, pw_completed_at := (if final = PS_COMPLETED
          then Some (oe_clock env (os_calls s) 0) else None), pw_reconciliation_required := ov_recon v\<rparr>"
      have "set_plan i row0 ?f (s\<lparr>os_calls := Suc (os_calls s)\<rparr>) = (s', Inr ())"
        using that True by (auto simp: run_simps split del: if_split)
      then have "plan_get (os_plans s') i = Some ((?f row0)\<lparr>pw_version := pw_version row0 + 1\<rparr>)"
        using set_plan_facts(3) [of "s\<lparr>os_calls := Suc (os_calls s)\<rparr>" i row0 ?f] assms(2) by simp
      moreover obtain row where "plan_in s' i = Inr (Some (row, q))" using pl by blast
      ultimately show ?thesis by (auto simp: plan_in_iff record_to_plan_def)
    next
      case False
      then have "s' = s" "\<exists>row. plan_in s i = Inr (Some (row, q))" using that by (auto simp: run_simps)
      then show ?thesis using p as by (auto simp: plan_in_iff)
    qed
  qed
  have r: "recompute_plan_status (p_actions p) = (final, why)" by (simp add: final_def why_def as)
  have go: "\<exists>x. and_then (if final \<noteq> PS_EXECUTING \<and> can_plan_transition PS_EXECUTING final
        then and_then next_call (\<lambda>k. set_plan i row0 (\<lambda>r. r\<lparr>pw_status := final, pw_pause_reason := why,
          pw_completed_at := (if final = PS_COMPLETED then Some (oe_clock env k 0) else None), pw_reconciliation_required := ov_recon v\<rparr>))
        else give ()) (\<lambda>_. and_then (reload i) (\<lambda>(_, q). give q)) s = (s', Inr q)"
    using assms(1) unfolding settle_plan_def and_then_InrE [of "reload i"] reload_eq using p r as by (auto simp: Let_def)
  show "\<exists>row. plan_in s' i = Inr (Some (row, q))" by (rule q(1) [OF go])
  show "p_status q = PS_COMPLETED \<longrightarrow> truly_completed s' i"
    using q(3) [OF go assms(3)] recompute_truly [OF as(1)] q(2) [OF go] by (simp add: final_def truly_completed_def rows_of_plan_def)
qed

lemma run_claimed_facts:
  assumes "run_claimed env i s = (s', Inr (q, v))"
  shows "\<exists>row. plan_in s' i = Inr (Some (row, q))" "p_status q = PS_COMPLETED \<longrightarrow> truly_completed s' i" "ov_stop v \<noteq> None"
proof -
  have "\<exists>s1 p s2 v2 s3 p3 s4 v4. enter_executing env i s = (s1, Inr p) \<and>
      catch_up env i (waiting_in_order (p_actions p)) start_vars s1 = (s2, Inr v2) \<and>
      (if waiting_in_order (p_actions p) = [] then give p else and_then (reload i) (\<lambda>(_, q). give q)) s2 = (s3, Inr p3) \<and>
      dispatch env i (oe_max_steps env) (p_actions p3) v2 s3 = (s4, Inr v4) \<and>
      settle_plan env i (apply_pending v4) s4 = (s', Inr q) \<and> ov_stop v \<noteq> None"
    using assms unfolding run_claimed_def Let_def and_then_InrE give_eq by (clarsimp split del: if_split)
  then obtain s1 p s2 v2 s3 p3 s4 v4 where
    e: "enter_executing env i s = (s1, Inr p)"
    and c: "catch_up env i (waiting_in_order (p_actions p)) start_vars s1 = (s2, Inr v2)"
    and l0: "(if waiting_in_order (p_actions p) = [] then give p else and_then (reload i) (\<lambda>(_, q). give q)) s2 = (s3, Inr p3)"
    and d: "dispatch env i (oe_max_steps env) (p_actions p3) v2 s3 = (s4, Inr v4)"
    and t: "settle_plan env i (apply_pending v4) s4 = (s', Inr q)" and v: "ov_stop v \<noteq> None"
    by blast
  have l: "s3 = s2" using l0 by (auto simp: run_simps split: if_splits)
  obtain row where row: "plan_get (os_plans s1) i = Some row" "pw_status row = PS_EXECUTING"
    using enter_executing_facts [OF e] by blast
  have "os_plans s4 = os_plans s1"
    using framed_plans [OF framed_catch_up c] framed_plans [OF framed_dispatch d] l by simp
  then have r4: "plan_get (os_plans s4) i = Some row" using row(1) by simp
  show "\<exists>row. plan_in s' i = Inr (Some (row, q))" "p_status q = PS_COMPLETED \<longrightarrow> truly_completed s' i"
    by (fact settle_plan_facts [OF t r4 row(2)])+
  show "ov_stop v \<noteq> None" by (rule v)
qed

section \<open>The lease\<close>

lemma claim_lease_eq: "claim_lease env i k stale s = (s', r) \<longleftrightarrow>
    (case claim_orchestration (os_plans s) i (oe_owner env) (oe_clock env k 0) (oe_lease_seconds env) stale of
       (ok, t) \<Rightarrow> s' = s\<lparr>os_plans := t\<rparr> \<and> r = Inr ok)"
  by (auto simp: claim_lease_def split: prod.split)

lemma claim_refused: "claim_orchestration t i owner now secs stale = (False, t') \<Longrightarrow> t' = t"
  by (auto simp: claim_orchestration_def split: option.splits if_splits)

lemma reconcile_stale_plans: "reconcile_stale env i s = (s', r) \<Longrightarrow> os_plans s' = os_plans s"
  by (auto simp: reconcile_stale_def split: prod.splits)

lemma acquire_lease_refused:
  assumes "acquire_lease env i s = (s', r)" "r \<noteq> Inr True"
  shows "os_plans s' = os_plans s"
proof -
  let ?s = "s\<lparr>os_calls := Suc (os_calls s)\<rparr>"
  obtain ok t where c: "claim_orchestration (os_plans s) i (oe_owner env) (oe_clock env (os_calls s) 0) (oe_lease_seconds env) False = (ok, t)"
    by fastforce
  have ok: "\<not> ok" using assms c by (cases ok) (auto simp: acquire_lease_def and_then_def next_call_def claim_lease_def give_def)
  then have t: "t = os_plans s" using claim_refused c by simp
  show ?thesis
  proof (cases "case Option.bind (plan_get (os_plans s) i) pw_orchestration_lease_expires_at of None \<Rightarrow> False | Some t \<Rightarrow> t < oe_clock env (os_calls s) 0")
    case False
    then show ?thesis using assms(1) c ok t
      by (auto simp: acquire_lease_def and_then_def next_call_def claim_lease_def give_def reading_def)
  next
    case True
    obtain s1 x where st: "reconcile_stale env i ?s = (s1, x)" by fastforce
    have p1: "os_plans s1 = os_plans s" using reconcile_stale_plans [OF st] by simp
    have "(s', r) = and_then (reconcile_stale env i) (\<lambda>_. and_then next_call (\<lambda>k. claim_lease env i k True)) ?s"
      using assms(1) c ok t True by (simp add: acquire_lease_def and_then_def next_call_def claim_lease_def reading_def)
    then show ?thesis using st p1 assms(2) claim_refused [of "os_plans s1"]
      by (auto simp: and_then_def next_call_def claim_lease_def split: sum.splits prod.splits)
  qed
qed

text \<open>A lease of somebody else that has not expired at the time of the call.\<close>

definition lease_held :: "orch_env \<Rightarrow> orch_db \<Rightarrow> string \<Rightarrow> bool" where
  "lease_held env s i = (\<exists>w. plan_get (os_plans s) i = Some w \<and> pw_orchestration_owner w \<noteq> None \<and>
     \<not> (case pw_orchestration_lease_expires_at w of None \<Rightarrow> False | Some e \<Rightarrow> e < oe_clock env (os_calls s) 0))"

lemma acquire_lease_held:
  "lease_held env s i \<Longrightarrow> acquire_lease env i s = (s\<lparr>os_calls := Suc (os_calls s)\<rparr>, Inr False)"
  by (auto simp: lease_held_def acquire_lease_def and_then_def next_call_def claim_lease_def claim_orchestration_def
      lease_claimable_def give_def reading_def split: option.splits)

lemma release_facts:
  "os_exec (release_lease env i s) = os_exec s"
  "plan_get (os_plans (release_lease env i s)) i = Some w \<Longrightarrow> pw_orchestration_owner w \<noteq> Some (oe_owner env)"
  "plan_get (os_plans s) i = Some w \<Longrightarrow> \<exists>w'. plan_get (os_plans (release_lease env i s)) i = Some w' \<and> pw_status w' = pw_status w"
  by (auto simp: release_lease_def release_orchestration_def plan_get_upd split: option.splits if_splits)

text \<open>The ways a run can go.\<close>

lemma run_cases:
  assumes "run_plan_until_blocked env i s = (s', r)"
  obtains (early) "s' = s" "\<And>res. r = Inr res \<Longrightarrow> og_ending_status res = og_starting_status res \<and> og_starting_status res \<in> {PS_COMPLETED, PS_FAILED, PS_CANCELLED}"
  | (refused) s1 x where "acquire_lease env i s = (s1, x)" "x \<noteq> Inr True" "s' = s1" "\<And>res. r = Inr res \<Longrightarrow> og_ending_status res = og_starting_status res"
  | (ran) s1 s2 x and p :: action_plan where "acquire_lease env i s = (s1, Inr True)" "run_claimed env i s1 = (s2, x)" "s' = release_lease env i s2"
      "r = (case x of Inl e \<Rightarrow> Inl e | Inr (q, v) \<Rightarrow> Inr (summarize i (p_status p) (p_status q) (p_actions q)
         (case ov_stop v of None \<Rightarrow> SR_NO_PROGRESS | Some r \<Rightarrow> r) v))"
proof -
  obtain l where l: "load_current i s = (s, l)" by (simp add: load_current_def reading_def)
  show thesis
  proof (cases "\<exists>row p. l = Inr (Some (row, p)) \<and> settled_stop (p_status p) = None \<and> p_status p \<in> set orchestratable")
    case False
    then show thesis using assms l early
      by (auto simp: run_plan_until_blocked_def and_then_def orch_raise_def give_def summarize_def Let_def settled_stop_def
          split: sum.splits option.splits prod.splits if_splits plan_status.splits)
  next
    case True
    then obtain row p where p: "l = Inr (Some (row, p))" "settled_stop (p_status p) = None" "p_status p \<in> set orchestratable" by blast
    then have pi: "plan_in s i = Inr (Some (row, p))" using l by (simp add: load_current_eq)
    obtain s1 x where a: "acquire_lease env i s = (s1, x)" by fastforce
    consider "x = Inr True" | "x = Inr False" | e where "x = Inl e" by (cases x) auto
    then show thesis
    proof cases
      case 1
      obtain s2 y where c: "run_claimed env i s1 = (s2, y)" by fastforce
      have F: "s' = release_lease env i s2 \<and> r = (case y of Inl e \<Rightarrow> Inl e | Inr (q, v) \<Rightarrow> Inr (summarize i (p_status p) (p_status q) (p_actions q)
         (case ov_stop v of None \<Rightarrow> SR_NO_PROGRESS | Some r \<Rightarrow> r) v))"
        using assms l p a 1 c by (cases y) (auto simp: run_plan_until_blocked_def and_then_def finally_do_def give_def)
      show thesis by (rule ran [OF a [unfolded 1] c conjunct1 [OF F] conjunct2 [OF F]])
    next
      case 2
      have same: "os_plans s1 = os_plans s" using acquire_lease_refused [OF a] 2 by simp
      have st: "p_status q = p_status p" if "plan_in s1 i = Inr (Some (w, q))" for w q
        using load_plan_SomeD(1,2) [OF that] load_plan_SomeD(1,2) [OF pi] same by simp
      have "(s', r) = and_then (load_current i) (\<lambda>l. (let q = (case l of None \<Rightarrow> p | Some (_, q) \<Rightarrow> q) in
              give (summarize i (p_status p) (p_status q) (p_actions q) SR_CONCURRENT_ORCHESTRATOR start_vars))) s1"
        using assms l p a 2 by (simp add: run_plan_until_blocked_def and_then_def)
      then have "s' = s1 \<and> (\<forall>res. r = Inr res \<longrightarrow> og_ending_status res = og_starting_status res)"
        using st by (cases "plan_in s1 i") (auto simp: and_then_def load_current_def reading_def give_def summarize_def Let_def split: option.splits)
      then show thesis using refused a 2 by blast
    next
      case 3
      then have "s' = s1 \<and> r = Inl e" using assms l p a by (simp add: run_plan_until_blocked_def and_then_def)
      then show thesis using refused a 3 by blast
    qed
  qed
qed

end
