(* ===== verification/Orchestration_Runs.thy ===== *)
theory Orchestration_Runs
  imports Orchestration_Results
begin

text \<open>
  Whole runs: those that only look at a plan nobody orchestrates are computed (\<open>run_looks\<close>), and with the frame and the results
  of the sibling theories they give the orchestrator's properties and their witnesses.
\<close>

section \<open>Runs that only look\<close>

lemma and_then_ok: "m s = (s1, Inr x) \<Longrightarrow> and_then m f s = f x s1"
  by (simp add: and_then_def)

text \<open>A plan that nobody orchestrates and whose structure is as it was frozen.\<close>

definition runnable :: "orch_db \<Rightarrow> string \<Rightarrow> plan_row \<Rightarrow> action list \<Rightarrow> bool" where
  "runnable s i row as = (plan_get (os_plans s) i = Some row \<and> load_plan_actions (x_actions (os_exec s)) i = Inr as \<and>
     pw_status row = PS_EXECUTING \<and> pw_orchestration_owner row = None \<and>
     (pw_plan_hash row = None \<or> pw_plan_hash row = Some (compute_plan_hash (record_to_plan row as))) \<and>
     list_all (\<lambda>a. a_status a \<noteq> AS_WAITING_FOR_APPROVAL) as)"

lemma runnable_plan: "runnable s i row as \<Longrightarrow> plan_in s i = Inr (Some (row, record_to_plan row as))"
  by (simp add: runnable_def plan_in_iff)

lemma runnable_claim:
  assumes "runnable s i row as"
  shows "\<exists>s1 row1. acquire_lease env i s = (s1, Inr True) \<and> os_exec s1 = os_exec s \<and>
    plan_in s1 i = Inr (Some (row1, record_to_plan row as)) \<and> pw_plan_hash row1 = pw_plan_hash row \<and> pw_status row1 = PS_EXECUTING"
proof -
  let ?k = "os_calls s"
  let ?f = "\<lambda>r. r\<lparr>pw_orchestration_owner := Some (oe_owner env), pw_orchestration_claimed_at := Some (oe_clock env ?k 0),
         pw_orchestration_lease_expires_at := Some (oe_clock env ?k 0 + oe_lease_seconds env * 1000000)\<rparr>"
  let ?s = "s\<lparr>os_calls := Suc ?k, os_plans := tbl_upd pw_id (os_plans s) i ?f\<rparr>"
  have "acquire_lease env i s = (?s, Inr True)"
    using assms by (simp add: runnable_def acquire_lease_def and_then_def next_call_def claim_lease_def claim_orchestration_def
        lease_claimable_def give_def)
  moreover have "plan_in ?s i = Inr (Some (?f row, record_to_plan row as))"
    using assms by (simp add: runnable_def load_plan_def plan_get_upd record_to_plan_def)
  ultimately show ?thesis using assms by (intro exI [of _ ?s] exI [of _ "?f row"]) (simp add: runnable_def)
qed

lemma recompute_reachable: "fst (recompute_plan_status as) \<noteq> PS_EXECUTING \<Longrightarrow> can_plan_transition PS_EXECUTING (fst (recompute_plan_status as))"
  by (auto simp: recompute_plan_status_def Let_def can_plan_transition_def split: if_splits)

lemma settle_runs:
  assumes "plan_in s i = Inr (Some (row, p))" "pw_status row = PS_EXECUTING"
  shows "\<exists>s' q. settle_plan env i v s = (s', Inr q) \<and> p_status q = fst (recompute_plan_status (p_actions p)) \<and>
    p_actions q = p_actions p \<and> os_exec s' = os_exec s"
proof -
  obtain final why where r: "recompute_plan_status (p_actions p) = (final, why)" by fastforce
  obtain as where as: "plan_get (os_plans s) i = Some row" "load_plan_actions (x_actions (os_exec s)) i = Inr as" "p = record_to_plan row as"
    using assms(1) by (auto simp: plan_in_iff)
  have st: "p_status p = PS_EXECUTING" "p_actions p = as" using as(3) assms(2) by (simp_all add: record_to_plan_def)
  have rl: "reload i s = (s, Inr (row, p))" using assms(1) by (simp add: reload_eq)
  show ?thesis
  proof (cases "final = PS_EXECUTING")
    case True
    then show ?thesis using r st rl by (simp add: settle_plan_def and_then_def give_def)
  next
    case False
    let ?f = "\<lambda>r. r\<lparr>pw_status := final, pw_pause_reason := why, pw_completed_at := (if final = PS_COMPLETED
          then Some (oe_clock env (os_calls s) 0) else None), pw_reconciliation_required := ov_recon v\<rparr>"
    obtain s1 x where s1: "set_plan i row ?f (s\<lparr>os_calls := Suc (os_calls s)\<rparr>) = (s1, x)" by fastforce
    have f: "x = Inr ()" "os_exec s1 = os_exec s" "plan_get (os_plans s1) i = Some ((?f row)\<lparr>pw_version := pw_version row + 1\<rparr>)"
      using set_plan_facts [OF _ _ s1] as(1) by simp_all
    let ?q = "record_to_plan ((?f row)\<lparr>pw_version := pw_version row + 1\<rparr>) as"
    have "reload i s1 = (s1, Inr ((?f row)\<lparr>pw_version := pw_version row + 1\<rparr>, ?q))"
      unfolding reload_eq plan_in_iff using f as(2) by simp
    then have "settle_plan env i v s = (s1, Inr ?q)"
      using r st rl False recompute_reachable [of as] s1 f(1)
      by (simp add: settle_plan_def and_then_def next_call_def give_def)
    then show ?thesis using r st f(2) by (intro exI [of _ s1] exI [of _ ?q]) (simp add: record_to_plan_def)
  qed
qed

lemma run_looks:
  assumes r: "runnable s i row as"
    and d: "\<And>s1. \<exists>row1. plan_in s1 i = Inr (Some (row1, record_to_plan row as)) \<Longrightarrow> dispatch env i (oe_max_steps env) as start_vars s1 = (s1, Inr v)"
    and v: "ov_pending v = None" "\<not> ov_pending_human v" "ov_stop v = Some why"
  shows "\<exists>s'. run_plan_until_blocked env i s = (s', Inr (summarize i PS_EXECUTING (fst (recompute_plan_status as)) as why v)) \<and>
    os_exec s' = os_exec s"
proof -
  let ?p = "record_to_plan row as"
  have p: "p_status ?p = PS_EXECUTING" "p_actions ?p = as" using r by (simp_all add: runnable_def record_to_plan_def)
  obtain s1 row1 where a: "acquire_lease env i s = (s1, Inr True)" "os_exec s1 = os_exec s"
    "plan_in s1 i = Inr (Some (row1, ?p))" "pw_plan_hash row1 = pw_plan_hash row" "pw_status row1 = PS_EXECUTING"
    using runnable_claim [OF r] by blast
  have rl: "reload i s1 = (s1, Inr (row1, ?p))" using a(3) by (simp add: reload_eq)
  have e: "enter_executing env i s1 = (s1, Inr ?p)"
    using rl p a(4) r by (auto simp: enter_executing_def and_then_def give_def runnable_def)
  have w: "waiting_in_order as = []"
    using r by (simp add: waiting_in_order_def runnable_def list_all_iff filter_empty_conv)
  obtain s2 q where t: "settle_plan env i (apply_pending v) s1 = (s2, Inr q)" "p_status q = fst (recompute_plan_status as)"
    "p_actions q = as" "os_exec s2 = os_exec s1"
    using settle_runs [OF a(3,5)] p by metis
  have pend: "apply_pending v = v" using v by (simp add: apply_pending_def)
  have "run_claimed env i s1 = (s2, Inr (q, v))"
    using e w d [of s1] a(3) t pend v p by (simp add: run_claimed_def and_then_def give_def)
  then have "run_plan_until_blocked env i s = (release_lease env i s2, Inr (summarize i PS_EXECUTING (fst (recompute_plan_status as)) as why v))"
    using runnable_plan [OF r] a(1) t v p
    by (simp add: run_plan_until_blocked_def and_then_def load_current_def reading_def settled_stop_def orchestratable_def finally_do_def give_def)
  then show ?thesis using t(4) a(2) release_facts(1) by auto
qed

lemma no_reconcile: "list_all (\<lambda>a. a_status a \<notin> set in_progress_action_statuses) as \<Longrightarrow> reconcile_pass env i as by_id b = give (by_id, b)"
  by (induction as) auto

lemma actions_dict_set: "set (actions_dict as) \<subseteq> set as"
proof -
  have "set (foldl (tbl_put a_id) acc as) \<subseteq> set acc \<union> set as" for acc :: "action list"
  proof (induction as arbitrary: acc)
    case (Cons a as)
    show ?case using Cons.IH [of "tbl_put a_id acc a"] tbl_set_put [of a_id acc a] by auto
  qed simp
  then show ?thesis by (simp add: actions_dict_def) (metis Un_empty_left list.set(1))
qed

lemma actions_dict_distinct: "distinct (map a_id as) \<Longrightarrow> actions_dict as = as"
proof -
  have "foldl (tbl_put a_id) acc as = acc @ as" if "distinct (map a_id (acc @ as))" for acc :: "action list"
    using that
  proof (induction as arbitrary: acc)
    case (Cons a as)
    have "tbl_get a_id acc (a_id a) = None" using Cons.prems by (auto simp: tbl_get_None_iff)
    then show ?case using Cons by (simp add: tbl_put_def)
  qed simp
  from this [of "[]"] show "distinct (map a_id as) \<Longrightarrow> ?thesis" by (simp add: actions_dict_def)
qed

lemma terminal_not_gated: "a_status a \<in> terminal_statuses \<Longrightarrow>
    evaluate_action_eligibility a f \<notin> {EL_READY, EL_RECONCILIATION_REQUIRED} \<and> a_status a \<notin> set in_progress_action_statuses"
  using eligibility_ungated [of a f] by (auto simp: terminal_statuses_def dependency_gated_def in_progress_action_statuses_def)

definition eligibilities_of :: "action list \<Rightarrow> action_eligibility list" where
  "eligibilities_of as = map snd (eligibilities (actions_dict as) (actions_dict as))"

text \<open>With every action settled the loop stops in its first iteration, writing nothing.\<close>

lemma dispatch_settled:
  assumes "list_all (\<lambda>a. a_status a \<in> terminal_statuses) as"
  shows "dispatch env i (Suc n) as start_vars s = (s, Inr (start_vars\<lparr>ov_stop := Some (determine_blocking_stop_reason (eligibilities_of as))\<rparr>))"
proof -
  have t: "a_status a \<in> terminal_statuses" if "a \<in> set (actions_dict as)" for a
    using that assms actions_dict_set by (auto simp: list_all_iff)
  have "list_all (\<lambda>a. a_status a \<notin> set in_progress_action_statuses) as"
    using assms terminal_not_gated by (auto simp: list_all_iff)
  moreover have "filter (\<lambda>a. evaluate_action_eligibility a (tbl_get a_id (actions_dict as)) = EL_READY) (actions_dict as) = []"
    using t terminal_not_gated by (auto simp: filter_empty_conv)
  moreover have "EL_RECONCILIATION_REQUIRED \<notin> set (eligibilities_of as)"
    using t terminal_not_gated by (auto simp: eligibilities_of_def eligibilities_def) (metis insertCI)
  ultimately show ?thesis
    by (simp add: no_reconcile and_then_def give_def start_vars_def eligibilities_of_def)
qed

lemma settled_run:
  assumes "runnable s i row as" "list_all (\<lambda>a. a_status a \<in> terminal_statuses) as" "0 < oe_max_steps env"
  shows "\<exists>s' res. run_plan_until_blocked env i s = (s', Inr res) \<and> og_stop_reason res = determine_blocking_stop_reason (eligibilities_of as) \<and>
    og_starting_status res = PS_EXECUTING \<and> og_ending_status res = fst (recompute_plan_status as) \<and> \<not> og_human_review_required res \<and> \<not> og_reconciliation_required res"
proof -
  obtain n where n: "oe_max_steps env = Suc n" using assms(3) by (cases "oe_max_steps env") auto
  let ?v = "start_vars\<lparr>ov_stop := Some (determine_blocking_stop_reason (eligibilities_of as))\<rparr>"
  obtain s' where "run_plan_until_blocked env i s = (s', Inr (summarize i PS_EXECUTING (fst (recompute_plan_status as)) as
      (determine_blocking_stop_reason (eligibilities_of as)) ?v))"
    using run_looks [OF assms(1), where env = env and v = ?v and why = "determine_blocking_stop_reason (eligibilities_of as)"]
      dispatch_settled [OF assms(2)] n by (auto simp: start_vars_def)
  then show ?thesis by (simp add: summarize_def Let_def start_vars_def)
qed

section \<open>Properties\<close>

text \<open>C4: no false completion. A run that ends with the plan \<open>COMPLETED\<close> when it was not leaves the plan's row
  \<open>COMPLETED\<close>, with at least one current action and every current action stored as \<open>COMPLETED\<close>.\<close>

theorem orchestration_truthful:
  assumes "run_plan_until_blocked env i s = (s', Inr res)" "og_ending_status res = PS_COMPLETED"
    "og_starting_status res \<noteq> PS_COMPLETED"
  shows "truly_completed s' i \<and> (\<exists>row. plan_get (os_plans s') i = Some row \<and> pw_status row = PS_COMPLETED)"
  using assms(1)
proof (cases rule: run_cases)
  case (ran s1 s2 x p)
  then obtain q v where x: "x = Inr (q, v)" and q: "p_status q = PS_COMPLETED"
    using assms(2) by (cases x) (auto simp: summarize_def Let_def)
  note c = run_claimed_facts [OF ran(2) [unfolded x]]
  obtain row where row: "plan_get (os_plans s2) i = Some row" "pw_status row = PS_COMPLETED"
    using c(1) q load_plan_SomeD(1,2) by metis
  show ?thesis using c(2) q release_facts(1) [of env i s2] release_facts(3) [OF row(1), of env] row(2) ran(3)
    by (auto simp: truly_completed_def rows_of_plan_def)
qed (use assms(2,3) in auto)

text \<open>C6: what is settled stays settled. Whatever a run does and wherever it stops or raises, an action stored before is
  stored after, one that is completed, rejected, cancelled or blocked is not written again, the records of failures and of recovery
  decisions are only added to, and no other plan's row is touched.\<close>

theorem orchestration_keeps_history:
  assumes "run_plan_until_blocked env i s = (s', r)"
  shows "(\<forall>j row. action_get (x_actions (os_exec s)) j = Some row \<longrightarrow> (\<exists>row'. action_get (x_actions (os_exec s')) j = Some row' \<and>
       (ro_status row \<in> {AS_COMPLETED, AS_REJECTED, AS_CANCELLED, AS_BLOCKED} \<longrightarrow> row' = row))) \<and>
    prefix (os_failures s) (os_failures s') \<and> prefix (os_recoveries s) (os_recoveries s') \<and>
    (\<forall>j. j \<noteq> i \<longrightarrow> plan_get (os_plans s') j = plan_get (os_plans s) j)"
  using run_framed [of i env] assms
  unfolding framed_def plan_frame_def history_kept_def rows_kept_def resting_statuses_def by (metis fst_conv list.set(1,2))

text \<open>One orchestrator at a time. While somebody else holds a lease that has not expired a run changes
  nothing, and reports the concurrent orchestrator or why the plan cannot run; and a run that took the lease has given it back when
  it returns or raises.\<close>

theorem orchestration_lease_exclusive:
  assumes "run_plan_until_blocked env i s = (s', r)"
  shows "(lease_held env s i \<longrightarrow> os_exec s' = os_exec s \<and> os_plans s' = os_plans s \<and> os_budget s' = os_budget s \<and>
       os_failures s' = os_failures s \<and> os_recoveries s' = os_recoveries s) \<and>
    (os_plans s' = os_plans s \<or> (\<forall>w. plan_get (os_plans s') i = Some w \<longrightarrow> pw_orchestration_owner w \<noteq> Some (oe_owner env)))"
  using assms
proof (cases rule: run_cases)
  case (refused s1 x)
  then show ?thesis using acquire_lease_refused [OF refused(1,2)] acquire_lease_held [of env s i] by auto
next
  case (ran s1 s2 x p)
  then show ?thesis using acquire_lease_held [of env s i] release_facts(2) by auto
qed simp

text \<open>C34: the stop reason can contradict the plan. If every action is completed or cancelled and a current one is cancelled, the run
  reports \<open>PLAN_COMPLETED\<close> and no need for review, while it stores the plan as failed or partially completed. And if every current action is completed but a superseded
  one had failed, it reports \<open>ACTION_FAILED\<close> for the plan it stores as completed.\<close>

theorem stop_reason_contradicts_plan:
  assumes "runnable s i row as" "0 < oe_max_steps env" "distinct (map a_id as)"
  shows "(list_all (\<lambda>a. a_status a \<in> {AS_COMPLETED, AS_CANCELLED}) as \<and>
      list_ex (\<lambda>a. a_status a = AS_CANCELLED \<and> a_superseded_by a = None) as \<longrightarrow>
      (\<exists>s' res. run_plan_until_blocked env i s = (s', Inr res) \<and> og_stop_reason res = SR_PLAN_COMPLETED \<and>
         og_ending_status res \<in> {PS_FAILED, PS_PARTIALLY_COMPLETED} \<and> \<not> og_human_review_required res)) \<and>
    (list_all (\<lambda>a. a_status a = (if a_superseded_by a = None then AS_COMPLETED else AS_FAILED)) as \<and>
      list_ex (\<lambda>a. a_superseded_by a = None) as \<and> list_ex (\<lambda>a. a_superseded_by a \<noteq> None) as \<longrightarrow>
      (\<exists>s' res. run_plan_until_blocked env i s = (s', Inr res) \<and> og_stop_reason res = SR_ACTION_FAILED \<and>
         og_ending_status res = PS_COMPLETED))"
proof (intro conjI impI)
  assume A: "list_all (\<lambda>a. a_status a \<in> {AS_COMPLETED, AS_CANCELLED}) as \<and>
      list_ex (\<lambda>a. a_status a = AS_CANCELLED \<and> a_superseded_by a = None) as"
  have t: "list_all (\<lambda>a. a_status a \<in> terminal_statuses) as" using A by (auto simp: list_all_iff terminal_statuses_def)
  have "set (eligibilities_of as) \<subseteq> {EL_ALREADY_COMPLETED, EL_CANCELLED}"
    using A by (auto simp: eligibilities_of_def eligibilities_def actions_dict_distinct [OF assms(3)] list_all_iff evaluate_action_eligibility_def)
  then have d: "determine_blocking_stop_reason (eligibilities_of as) = SR_PLAN_COMPLETED"
    by (auto simp: determine_blocking_stop_reason_def list_ex_iff)
  have "fst (recompute_plan_status as) \<in> {PS_FAILED, PS_PARTIALLY_COMPLETED}"
    using A unfolding recompute_plan_status_def Let_def all_completed_iff
    by (auto simp: list_ex_iff active_actions_def terminal_bad_action_statuses_def)
  then show "\<exists>s' res. run_plan_until_blocked env i s = (s', Inr res) \<and> og_stop_reason res = SR_PLAN_COMPLETED \<and>
         og_ending_status res \<in> {PS_FAILED, PS_PARTIALLY_COMPLETED} \<and> \<not> og_human_review_required res"
    using settled_run [OF assms(1) t assms(2)] d by metis
next
  assume A: "list_all (\<lambda>a. a_status a = (if a_superseded_by a = None then AS_COMPLETED else AS_FAILED)) as \<and>
      list_ex (\<lambda>a. a_superseded_by a = None) as \<and> list_ex (\<lambda>a. a_superseded_by a \<noteq> None) as"
  have t: "list_all (\<lambda>a. a_status a \<in> terminal_statuses) as"
    using A by (auto simp: list_all_iff terminal_statuses_def split: if_splits)
  have sub: "set (eligibilities_of as) \<subseteq> {EL_ALREADY_COMPLETED, EL_TERMINAL_FAILED}"
    using A by (auto simp: eligibilities_of_def eligibilities_def actions_dict_distinct [OF assms(3)] list_all_iff evaluate_action_eligibility_def)
  have "EL_TERMINAL_FAILED \<in> set (eligibilities_of as)"
    using A by (auto simp: eligibilities_of_def eligibilities_def actions_dict_distinct [OF assms(3)] list_all_iff list_ex_iff
        evaluate_action_eligibility_def image_iff)
  then have d: "determine_blocking_stop_reason (eligibilities_of as) = SR_ACTION_FAILED"
    using sub by (auto simp: determine_blocking_stop_reason_def list_ex_iff)
  have "fst (recompute_plan_status as) = PS_COMPLETED"
    unfolding recompute_completed_iff using A by (auto simp: active_actions_def list_all_iff list_ex_iff filter_empty_conv)
  then show "\<exists>s' res. run_plan_until_blocked env i s = (s', Inr res) \<and> og_stop_reason res = SR_ACTION_FAILED \<and>
         og_ending_status res = PS_COMPLETED"
    using settled_run [OF assms(1) t assms(2)] d by metis
qed

text \<open>The loop on an action no step of \<open>_advance_one_action\<close> handles.\<close>

lemma advance_unhandled: "a_status a \<notin> {AS_VALIDATED, AS_PERMISSION_CHECKED, AS_WAITING_FOR_APPROVAL} \<Longrightarrow> advance_one_action env a = give (a, False)"
  by (simp add: advance_one_action_def)

definition ready_in_order :: "action list \<Rightarrow> action list" where
  "ready_in_order as = sort_key (\<lambda>a. (a_sequence a, a_id a))
     (filter (\<lambda>a. evaluate_action_eligibility a (tbl_get a_id (actions_dict as)) = EL_READY) (actions_dict as))"

lemma dispatch_spins:
  assumes "list_all (\<lambda>a. a_status a \<notin> set in_progress_action_statuses) as" "EL_RECONCILIATION_REQUIRED \<notin> set (eligibilities_of as)"
    "ready_in_order as = a # rest" "a_status a = AS_APPROVED" "p_actions p = as" "plan_in s i = Inr (Some (row, p))"
  shows "dispatch env i n as start_vars s = (s, Inr (start_vars\<lparr>ov_stop := Some SR_ORCHESTRATION_LIMIT_REACHED\<rparr>))"
proof (induction n)
  case (Suc n)
  have "reload i s = (s, Inr (row, p))" using assms(6) by (simp add: reload_eq)
  then show ?case using assms(1-5) Suc
    by (simp add: no_reconcile and_then_def give_def eligibilities_of_def ready_in_order_def advance_unhandled start_vars_def)
qed (simp add: give_def)

text \<open>C35: an approved action is never resumed, and starves the others. If the first ready action of a plan is stored as
  \<open>APPROVED\<close>, as after a crash between the approval's authorization and the execution claim, a run spends all its steps on it: it reports
  \<open>ORCHESTRATION_LIMIT_REACHED\<close> with no progress and leaves every action, attempt and approval as it found them, whatever
  else was ready.\<close>

theorem approved_action_starves:
  assumes "runnable s i row as" "list_all (\<lambda>a. a_status a \<notin> set in_progress_action_statuses) as"
    "EL_RECONCILIATION_REQUIRED \<notin> set (eligibilities_of as)" "ready_in_order as = a # rest" "a_status a = AS_APPROVED"
  shows "\<exists>s' res. run_plan_until_blocked env i s = (s', Inr res) \<and> og_stop_reason res = SR_ORCHESTRATION_LIMIT_REACHED \<and>
    \<not> og_progress_made res \<and> os_exec s' = os_exec s"
proof -
  let ?v = "start_vars\<lparr>ov_stop := Some SR_ORCHESTRATION_LIMIT_REACHED\<rparr>"
  have "dispatch env i (oe_max_steps env) as start_vars s1 = (s1, Inr ?v)"
    if "\<exists>row1. plan_in s1 i = Inr (Some (row1, record_to_plan row as))" for s1
    using dispatch_spins [OF assms(2-5), of "record_to_plan row as"] that by (auto simp: record_to_plan_def)
  from run_looks [OF assms(1) this, where why = SR_ORCHESTRATION_LIMIT_REACHED] show ?thesis
    by (auto simp: summarize_def Let_def start_vars_def)
qed

text \<open>A failure that is not retried: one record, one decision, and the stop the decision stands for.\<close>

lemma process_failure_facts:
  assumes "process_failure env i a res fb ov s = (s', Inr stop)"
    "d = re_decision (evaluate_recovery (classify_failure res fb) (case ov of Some b \<Rightarrow> b | None \<Rightarrow>
       (case res of Some r \<Rightarrow> er_side_effect_occurred r | None \<Rightarrow> False)) (a_retry_count a) (a_max_retries a) (a_approval_required a) True)"
    "d \<noteq> RD_RETRY"
  shows "\<exists>f. os_failures s' = os_failures s @ [f] \<and> fw_action_id f = a_id a \<and> fw_category f = failure_category_value (classify_failure res fb)"
    "\<exists>r. os_recoveries s' = os_recoveries s @ [r] \<and> rw_decision r = recovery_decision_value d"
    "stop = map_prod Some id (recovery_decision_stop d)" "os_exec s' = os_exec s"
proof -
  obtain f t r u where f: "tbl_insert fw_id (os_failures s) f = Some t" "fw_action_id f = a_id a"
      "fw_category f = failure_category_value (classify_failure res fb)"
    and r: "tbl_insert rw_id (os_recoveries s) r = Some u" "rw_decision r = recovery_decision_value d"
    and s': "s' = s\<lparr>os_calls := Suc (os_calls s), os_failures := t, os_recoveries := u\<rparr>" "stop = map_prod Some id (recovery_decision_stop d)"
    using assms(1,3) unfolding process_failure_def Let_def assms(2) [symmetric] and_then_InrE next_call_eq
    by (auto simp: give_eq persist_failure_record_def persist_recovery_def failure_create_def recovery_create_def Let_def
        failure_record_to_fields_def build_failure_record_def split: option.splits)
  show "\<exists>f. os_failures s' = os_failures s @ [f] \<and> fw_action_id f = a_id a \<and> fw_category f = failure_category_value (classify_failure res fb)"
    using tbl_insert_new [OF f(1)] f(2,3) s'(1) by auto
  show "\<exists>r. os_recoveries s' = os_recoveries s @ [r] \<and> rw_decision r = recovery_decision_value d"
    using tbl_insert_new [OF r(1)] r(2) s'(1) by auto
  show "stop = map_prod Some id (recovery_decision_stop d)" "os_exec s' = os_exec s" using s' by simp_all
qed

lemma process_failure_runs:
  assumes "re_decision (evaluate_recovery (classify_failure res fb) (case ov of Some b \<Rightarrow> b | None \<Rightarrow>
       (case res of Some r \<Rightarrow> er_side_effect_occurred r | None \<Rightarrow> False)) (a_retry_count a) (a_max_retries a) (a_approval_required a) True) \<noteq> RD_RETRY"
    "oe_ids env (os_calls s) 0 \<notin> fw_id ` set (os_failures s)" "oe_ids env (os_calls s) 1 \<notin> rw_id ` set (os_recoveries s)"
  shows "\<exists>s' x. process_failure env i a res fb ov s = (s', Inr x)"
  using assms
  by (simp add: process_failure_def Let_def and_then_def next_call_def give_def persist_failure_record_def persist_recovery_def
      failure_create_def recovery_create_def tbl_insert_def tbl_get_None_iff failure_record_to_fields_def build_failure_record_def)

lemma store_action_logs: "store_action a s = (s1, r) \<Longrightarrow> os_failures s1 = os_failures s \<and> os_recoveries s1 = os_recoveries s"
  by (auto simp: store_action_def and_then_def on_exec_def or_raise_def give_def orch_raise_def split: prod.splits sum.splits)

text \<open>A denied budget is recorded twice, and reported as something else. When an action has been failed for a denied budget,
  which classified and recorded it, the loop records it again: two failure records, the second as unknown and to be reconciled or reviewed, and the run is to stop for human review
  in place of \<open>BUDGET_EXHAUSTED\<close>.\<close>

theorem budget_denial_recorded_twice:
  assumes "fail_for_budget_denial env a ty i s = (s1, Inr b)" "attempt_list_for_action (x_attempts (os_exec s1)) (a_id b) = []"
    "note_failure env i b v s1 = (s2, Inr w)"
  shows "(\<exists>f1 f2. os_failures s2 = os_failures s @ [f1, f2] \<and> fw_action_id f1 = a_id b \<and> fw_action_id f2 = a_id b \<and>
      fw_category f1 = ''BUDGET'' \<and> fw_category f2 = ''UNKNOWN'') \<and>
    (\<exists>r1 r2. os_recoveries s2 = os_recoveries s @ [r1, r2] \<and> rw_decision r1 = ''BUDGET_EXHAUSTED'' \<and> rw_decision r2 = (if a_approval_required b then ''HUMAN_REVIEW'' else ''RECONCILE'')) \<and>
    ov_pending w = Some SR_HUMAN_REVIEW_REQUIRED \<and> ov_pending_human w"
proof -
  obtain c s0 stop where c: "store_action c (s\<lparr>os_calls := Suc (os_calls s)\<rparr>) = (s0, Inr b)"
    and p: "process_failure env i b None FC_BUDGET None s0 = (s1, Inr stop)"
    using assms(1) unfolding fail_for_budget_denial_def and_then_InrE next_call_eq give_eq by blast
  have d1: "re_decision (evaluate_recovery (classify_failure None FC_BUDGET) x (a_retry_count b) (a_max_retries b) (a_approval_required b) True) = RD_BUDGET_EXHAUSTED" for x
    by (simp add: classify_failure_def recovery_defs)
  have d2: "re_decision (evaluate_recovery (classify_failure None FC_UNKNOWN) x (a_retry_count b) (a_max_retries b) (a_approval_required b) True) = (if a_approval_required b then RD_HUMAN_REVIEW else RD_RECONCILE)" for x
    by (simp add: classify_failure_def recovery_defs)
  note one = process_failure_facts [OF p refl, unfolded option.case d1, simplified classify_failure_def option.case]
  obtain stop' human where q: "process_failure env i b None FC_UNKNOWN None s1 = (s2, Inr (stop', human))"
    and w: "w = (case stop' of None \<Rightarrow> v | Some _ \<Rightarrow> v\<lparr>ov_pending := stop', ov_pending_human := ov_pending_human v \<or> human\<rparr>)"
    using assms(2,3) by (auto simp: note_failure_def and_then_InrE give_eq load_latest_execution_result_def reading_def)
  note two = process_failure_facts [OF q refl, unfolded option.case d2, simplified classify_failure_def option.case]
  have start: "os_failures s0 = os_failures s" "os_recoveries s0 = os_recoveries s" using store_action_logs [OF c] by simp_all
  show ?thesis using one(1,2) two(1,2,3) start w by auto
qed

section \<open>Witnesses\<close>

definition orch_row :: "action_status \<Rightarrow> action_row" where
  "orch_row st = sample_row\<lparr>ro_status := st, ro_action_plan_id := ''p1'', ro_inputs_json := None, ro_dependencies_json := None,
     ro_superseded_by_action_id := None\<rparr>"

definition orch_sample :: "action_status \<Rightarrow> orch_db" where
  "orch_sample st = \<lparr>os_exec = \<lparr>x_actions = [orch_row st], x_attempts = [], x_results = [], x_verifications = [], x_approvals = Some [], x_fs = []\<rparr>,
     os_plans = sample_plan_rows ''p1'', os_budget = \<lparr>b_accounts = [], b_events = []\<rparr>, os_failures = [], os_recoveries = [], os_calls = 0\<rparr>"

definition orch_sample_env :: orch_env where
  "orch_sample_env = \<lparr>oe_tools = [], oe_adapters = [], oe_root = [''box''], oe_owner = ''worker-1'', oe_requested_by = ''worker-1'',
     oe_max_steps = 50, oe_lease_seconds = 300, oe_clock = (\<lambda>k n. int (k + n)), oe_ids = (\<lambda>k n. replicate (2 * k + n) (CHR ''i'')), oe_fault = (\<lambda>_. No_Fault)\<rparr>"

lemma orch_sample_runnable:
  assumes "st \<noteq> AS_WAITING_FOR_APPROVAL"
  shows "\<exists>row a. runnable (orch_sample st) ''p1'' row [a] \<and> a_status a = st \<and> a_id a = ro_id (orch_row st) \<and> a_dependencies a = [] \<and> a_superseded_by a = None"
proof -
  obtain a where a: "record_to_action (orch_row st) = Inr a" "a_dependencies a = []" "a_superseded_by a = None" "a_status a = st"
    by (simp add: record_to_action_def load_json_def as_dict_def as_strs_def orch_row_def)
  have "runnable (orch_sample st) ''p1'' (hd (sample_plan_rows ''p1'')) [a]"
    using a assms by (simp add: runnable_def orch_sample_def stuck_plan_row load_plan_actions_def action_list_by_plan_def)
      (simp add: sample_plan_rows_def orch_row_def)
  then show ?thesis using a record_to_action_fields [OF a(1)] by blast
qed

lemma orch_sample_completes:
  "\<exists>s' res. run_plan_until_blocked orch_sample_env ''p1'' (orch_sample AS_COMPLETED) = (s', Inr res) \<and>
     og_starting_status res = PS_EXECUTING \<and> og_ending_status res = PS_COMPLETED"
proof -
  obtain row a where a: "runnable (orch_sample AS_COMPLETED) ''p1'' row [a]" "a_status a = AS_COMPLETED" "a_superseded_by a = None"
    using orch_sample_runnable [of AS_COMPLETED] by auto
  have "fst (recompute_plan_status [a]) = PS_COMPLETED"
    using a(2,3) by (simp add: recompute_completed_iff active_actions_def)
  then show ?thesis
    using settled_run [OF a(1), of orch_sample_env] a(2) by (auto simp: terminal_statuses_def orch_sample_env_def)
qed

theorem orchestration_truthful_witness:
  "\<exists>s' res. run_plan_until_blocked orch_sample_env ''p1'' (orch_sample AS_COMPLETED) = (s', Inr res) \<and>
     og_starting_status res = PS_EXECUTING \<and> og_ending_status res = PS_COMPLETED \<and> truly_completed s' ''p1''"
proof -
  obtain s' res where "run_plan_until_blocked orch_sample_env ''p1'' (orch_sample AS_COMPLETED) = (s', Inr res)"
     "og_starting_status res = PS_EXECUTING" "og_ending_status res = PS_COMPLETED" using orch_sample_completes by blast
  then show ?thesis using orchestration_truthful [of orch_sample_env "''p1''" "orch_sample AS_COMPLETED" s' res] by auto
qed

theorem orchestration_keeps_history_witness:
  "\<exists>s' r row'. run_plan_until_blocked orch_sample_env ''p1'' (orch_sample AS_COMPLETED) = (s', r) \<and>
     action_get (x_actions (os_exec s')) (ro_id (orch_row AS_COMPLETED)) = Some row' \<and> row' = orch_row AS_COMPLETED"
proof -
  obtain s' r where "run_plan_until_blocked orch_sample_env ''p1'' (orch_sample AS_COMPLETED) = (s', r)" by fastforce
  moreover have "action_get (x_actions (os_exec (orch_sample AS_COMPLETED))) (ro_id (orch_row AS_COMPLETED)) = Some (orch_row AS_COMPLETED)"
    "ro_status (orch_row AS_COMPLETED) = AS_COMPLETED"
    by (simp_all add: orch_sample_def action_get_def tbl_get_Cons) (simp add: orch_row_def)
  ultimately show ?thesis using orchestration_keeps_history by blast
qed

definition orch_held :: orch_db where
  "orch_held = (orch_sample AS_VALIDATED)\<lparr>os_plans := map (\<lambda>r. r\<lparr>pw_orchestration_owner := Some ''worker-2''\<rparr>) (sample_plan_rows ''p1'')\<rparr>"

theorem orchestration_lease_exclusive_witness:
  "\<exists>s' r. run_plan_until_blocked orch_sample_env ''p1'' orch_held = (s', r) \<and> lease_held orch_sample_env orch_held ''p1'' \<and>
     os_exec s' = os_exec orch_held \<and> os_plans s' = os_plans orch_held"
proof -
  obtain s' r where run: "run_plan_until_blocked orch_sample_env ''p1'' orch_held = (s', r)" by fastforce
  have "lease_held orch_sample_env orch_held ''p1''"
    by (simp add: lease_held_def orch_held_def plan_get_def tbl_get_Cons sample_plan_rows_def)
  with orchestration_lease_exclusive [OF run] run show ?thesis by blast
qed

theorem stop_reason_contradicts_plan_witness:
  "\<exists>s' res. run_plan_until_blocked orch_sample_env ''p1'' (orch_sample AS_CANCELLED) = (s', Inr res) \<and>
     og_stop_reason res = SR_PLAN_COMPLETED \<and> og_ending_status res \<in> {PS_FAILED, PS_PARTIALLY_COMPLETED}"
proof -
  obtain row a where a: "runnable (orch_sample AS_CANCELLED) ''p1'' row [a]" "a_status a = AS_CANCELLED" "a_superseded_by a = None"
    using orch_sample_runnable [of AS_CANCELLED] by auto
  have "0 < oe_max_steps orch_sample_env" by (simp add: orch_sample_env_def)
  from stop_reason_contradicts_plan [OF a(1) this] a(2,3) show ?thesis by auto
qed

theorem approved_action_starves_witness:
  "\<exists>s' res. run_plan_until_blocked orch_sample_env ''p1'' (orch_sample AS_APPROVED) = (s', Inr res) \<and>
     og_stop_reason res = SR_ORCHESTRATION_LIMIT_REACHED \<and> os_exec s' = os_exec (orch_sample AS_APPROVED)"
proof -
  obtain row a where a: "runnable (orch_sample AS_APPROVED) ''p1'' row [a]" "a_status a = AS_APPROVED" "a_dependencies a = []"
    using orch_sample_runnable [of AS_APPROVED] by auto
  have e: "evaluate_action_eligibility a f = EL_READY" for f
    using a(2,3) by (simp add: evaluate_action_eligibility_def in_progress_statuses_def)
  have "actions_dict [a] = [a]" by (simp add: actions_dict_distinct)
  then have "EL_RECONCILIATION_REQUIRED \<notin> set (eligibilities_of [a])" "ready_in_order [a] = a # []"
    using e by (simp_all add: eligibilities_of_def eligibilities_def ready_in_order_def)
  moreover have "list_all (\<lambda>a. a_status a \<notin> set in_progress_action_statuses) [a]"
    using a(2) by (simp add: in_progress_action_statuses_def)
  ultimately show ?thesis using approved_action_starves [OF a(1) _ _ _ a(2), where env = orch_sample_env] by blast
qed

definition denied_action :: action where
  "denied_action = sample_action\<lparr>a_status := AS_FAILED, a_completed_at := Some 0,
     a_error := Some ''pre-execution budget denied: ACTION_ATTEMPTS''\<rparr>"

lemma denied_stored:
  "\<exists>t b. store_action denied_action (orch_sample AS_PERMISSION_CHECKED\<lparr>os_calls := 1\<rparr>) =
     (orch_sample AS_PERMISSION_CHECKED\<lparr>os_calls := 1, os_exec := (os_exec (orch_sample AS_PERMISSION_CHECKED))\<lparr>x_actions := t\<rparr>\<rparr>, Inr b) \<and> a_id b = ''a1''"
proof -
  have "persistable denied_action"
    using sample_action_persistable by (simp add: denied_action_def persistable_def max_text_field_chars_def)
  then obtain cols where c: "action_to_record_fields denied_action = Inr cols" "\<exists>b. record_to_action cols = Inr b"
    using record_to_action_roundtrip by blast
  have id: "ro_id cols = ''a1''" using action_to_record_fields_OkD [OF c(1)] by (simp add: denied_action_def sample_action_def)
  let ?row = "orch_row AS_PERMISSION_CHECKED"
  have row: "ro_id ?row = ''a1''" "ro_version ?row = 1" "ro_status ?row = AS_PERMISSION_CHECKED"
    using sample_row_facts by (simp_all add: orch_row_def)
  let ?new = "cols\<lparr>ro_id := ''a1'', ro_version := 2\<rparr>"
  obtain b where b: "record_to_action ?new = Inr b" "a_id b = ''a1''"
    using c(2) by (auto simp: record_to_action_def bind_sum_InrE)
  have d: "a_id denied_action = ''a1''" "a_status denied_action = AS_FAILED" by (simp_all add: denied_action_def sample_action_def)
  have "upsert_action_record (Suc n) v denied_action (os_exec (orch_sample AS_PERMISSION_CHECKED)) =
      ((os_exec (orch_sample AS_PERMISSION_CHECKED))\<lparr>x_actions := [?new]\<rparr>, Inr ?new)" for n v
    using row d c(1) id by (simp add: orch_sample_def action_get_def tbl_get_Cons keep_existing_def terminal_statuses_def
        action_update_def tbl_vcas_def tbl_cas_def tbl_upd_def)
  then have "store_action denied_action (orch_sample AS_PERMISSION_CHECKED\<lparr>os_calls := 1\<rparr>) =
     (orch_sample AS_PERMISSION_CHECKED\<lparr>os_calls := 1, os_exec := (os_exec (orch_sample AS_PERMISSION_CHECKED))\<lparr>x_actions := [?new]\<rparr>\<rparr>, Inr b)"
    using b(1) by (simp add: store_action_def and_then_def on_exec_def upsert_max_attempts_def or_raise_def give_def numeral_eq_Suc)
  then show ?thesis using b(2) by blast
qed

theorem budget_denial_recorded_twice_witness:
  "\<exists>s1 b s2 w. fail_for_budget_denial orch_sample_env sample_action ''ACTION_ATTEMPTS'' ''p1'' (orch_sample AS_PERMISSION_CHECKED) = (s1, Inr b) \<and>
     note_failure orch_sample_env ''p1'' b start_vars s1 = (s2, Inr w) \<and> length (os_failures s2) = 2 \<and> ov_pending w = Some SR_HUMAN_REVIEW_REQUIRED"
proof -
  obtain t b where b: "store_action denied_action (orch_sample AS_PERMISSION_CHECKED\<lparr>os_calls := 1\<rparr>) =
     (orch_sample AS_PERMISSION_CHECKED\<lparr>os_calls := 1, os_exec := (os_exec (orch_sample AS_PERMISSION_CHECKED))\<lparr>x_actions := t\<rparr>\<rparr>, Inr b)"
    using denied_stored by blast
  have d: "sample_action\<lparr>a_status := AS_FAILED, a_completed_at := Some (oe_clock orch_sample_env 0 0),
       a_error := Some (''pre-execution budget denied: '' @ ''ACTION_ATTEMPTS'')\<rparr> = denied_action"
    by (simp add: denied_action_def orch_sample_env_def)
  have e1: "re_decision (evaluate_recovery (classify_failure None FC_BUDGET) False (a_retry_count b) (a_max_retries b) (a_approval_required b) True) = RD_BUDGET_EXHAUSTED"
    by (simp add: classify_failure_def recovery_defs)
  have e2: "re_decision (evaluate_recovery (classify_failure None FC_UNKNOWN) False (a_retry_count b) (a_max_retries b) (a_approval_required b) True) \<noteq> RD_RETRY"
    by (simp add: classify_failure_def recovery_defs)
  obtain s1 where s1: "fail_for_budget_denial orch_sample_env sample_action ''ACTION_ATTEMPTS'' ''p1'' (orch_sample AS_PERMISSION_CHECKED) = (s1, Inr b)"
      "x_attempts (os_exec s1) = []" "os_calls s1 = 2" "map fw_id (os_failures s1) = [oe_ids orch_sample_env 1 0]" "map rw_id (os_recoveries s1) = [oe_ids orch_sample_env 1 1]"
    using b d e1
    by (simp add: fail_for_budget_denial_def and_then_def next_call_def give_def process_failure_def Let_def persist_failure_record_def
        persist_recovery_def failure_create_def recovery_create_def tbl_insert_def tbl_get_def orch_sample_def failure_record_to_fields_def
        build_failure_record_def)
  have "oe_ids orch_sample_env 2 0 \<noteq> oe_ids orch_sample_env 1 0" "oe_ids orch_sample_env 2 1 \<noteq> oe_ids orch_sample_env 1 1"
    by (simp_all add: orch_sample_env_def numeral_eq_Suc)
  then have "oe_ids orch_sample_env (os_calls s1) 0 \<notin> fw_id ` set (os_failures s1)" "oe_ids orch_sample_env (os_calls s1) 1 \<notin> rw_id ` set (os_recoveries s1)"
    using s1(3-5) by (auto simp flip: set_map)
  then obtain s2 stop where "process_failure orch_sample_env ''p1'' b None FC_UNKNOWN None s1 = (s2, Inr stop)"
    using process_failure_runs [of None FC_UNKNOWN None b orch_sample_env s1 "''p1''"] e2 by auto
  then obtain w where "note_failure orch_sample_env ''p1'' b start_vars s1 = (s2, Inr w)"
    using s1(2) by (cases stop) (simp add: note_failure_def and_then_def load_latest_execution_result_def reading_def attempt_list_for_action_def give_def)
  moreover from budget_denial_recorded_twice [OF s1(1) _ this] s1(2)
  have "length (os_failures s2) = 2" "ov_pending w = Some SR_HUMAN_REVIEW_REQUIRED"
    by (auto simp: attempt_list_for_action_def orch_sample_def)
  ultimately show ?thesis using s1(1) by blast
qed

end
