(* ===== verification/Task_Policies.thy ===== *)
theory Task_Policies
  imports Schemas Keyed_Table
begin

text \<open>
  The policies of the task pipeline: \<open>app/security/approvals.py\<close> (which texts need a human), \<open>app/security/permissions.py\<close>
  with \<open>app/agents/registry.py\<close> (which agent may do what), \<open>app/orchestration/budget.py\<close> (when a mission must stop).
  An agent's factory is code that calls models; the registry keeps its descriptor.
\<close>

section \<open>Approval keywords\<close>

text \<open>\<open>\w\<close> of Python's \<open>re\<close> on the code points below U+0100.\<close>

definition re_word :: "char \<Rightarrow> bool" where
  "re_word c = (let n = of_char c :: nat in
     (48 \<le> n \<and> n \<le> 57) \<or> (65 \<le> n \<and> n \<le> 90) \<or> n = 95 \<or> (97 \<le> n \<and> n \<le> 122) \<or>
     n \<in> {170, 178, 179, 181, 185, 186, 188, 189, 190} \<or> (192 \<le> n \<and> n \<noteq> 215 \<and> n \<noteq> 247))"

definition at_word :: "string \<Rightarrow> bool" where
  "at_word s = (s \<noteq> [] \<and> re_word (hd s))"

text \<open>The patterns: \<open>\bw\b\<close> and \<open>\bv\b.*\bw\b\<close>. A search walks along the text, \<open>before\<close> telling whether the character
  before is a word character. \<open>.\<close> matches every character but the newline.\<close>

datatype keyword_pattern = Word_Pattern string | Pair_Pattern string string

definition starts_word :: "bool \<Rightarrow> string \<Rightarrow> string \<Rightarrow> bool" where
  "starts_word before w s = (take (length w) s = w \<and> before \<noteq> at_word s \<and>
     (w \<noteq> [] \<and> re_word (last w)) \<noteq> at_word (drop (length w) s))"

fun search_word :: "(char \<Rightarrow> bool) \<Rightarrow> string \<Rightarrow> bool \<Rightarrow> string \<Rightarrow> bool" where
  "search_word dot w before [] = starts_word before w []"
| "search_word dot w before (c # s) = (starts_word before w (c # s) \<or> (dot c \<and> search_word dot w (re_word c) s))"

fun search_pair :: "string \<Rightarrow> string \<Rightarrow> bool \<Rightarrow> string \<Rightarrow> bool" where
  "search_pair v w before [] = False"
| "search_pair v w before (c # s) =
     ((starts_word before v (c # s) \<and>
         search_word (\<lambda>d. d \<noteq> CHR 0x0A) w (v \<noteq> [] \<and> re_word (last v)) (drop (length v) (c # s))) \<or>
      search_pair v w (re_word c) s)"

fun re_search :: "keyword_pattern \<Rightarrow> string \<Rightarrow> bool" where
  "re_search (Word_Pattern w) s = search_word (\<lambda>_. True) w False s"
| "re_search (Pair_Pattern v w) s = search_pair v w False s"

definition approval_keywords :: "(risk_level \<times> keyword_pattern list) list" where
  "approval_keywords =
     [(CRITICAL, [Word_Pattern ''purchase'', Word_Pattern ''buy'', Word_Pattern ''payment'', Word_Pattern ''pay'',
        Word_Pattern ''transfer funds'', Pair_Pattern ''delete'' ''account'', Pair_Pattern ''delete'' ''database'',
        Word_Pattern ''wire'']),
      (HIGH, [Word_Pattern ''publish'', Word_Pattern ''send email'', Word_Pattern ''post to'',
        Pair_Pattern ''message'' ''customer'', Word_Pattern ''delete'', Word_Pattern ''account change'',
        Word_Pattern ''irreversible'']),
      (MEDIUM, [Word_Pattern ''external'', Word_Pattern ''send'', Word_Pattern ''notify'', Word_Pattern ''contact''])]"

fun classify_level :: "(risk_level \<times> keyword_pattern list) list \<Rightarrow> string \<Rightarrow> risk_level option" where
  "classify_level [] s = None"
| "classify_level ((l, ps) # rest) s = (if \<exists>p \<in> set ps. re_search p s then Some l else classify_level rest s)"

definition classify_risk :: "string \<Rightarrow> risk_level option" where
  "classify_risk txt = classify_level approval_keywords (py_lower txt)"

definition requires_human_approval :: "string \<Rightarrow> bool" where
  "requires_human_approval txt = (classify_risk txt \<noteq> None)"

section \<open>The agent registry and permissions\<close>

record agent_descriptor =
  agt_name :: string
  agt_role :: string
  agt_description :: string
  agt_capabilities :: "string list"
  agt_permissions :: "permission_level list"
  agt_model :: string

type_synonym type_registry = "(string \<times> agent_descriptor) list"

datatype registry_error = UnknownAgentType string | PermissionDeniedError string permission_level

definition register_agent_type :: "agent_descriptor \<Rightarrow> type_registry \<Rightarrow> type_registry" where
  "register_agent_type d reg = tbl_put fst reg (agt_name d, d)"

definition get_descriptor :: "type_registry \<Rightarrow> string \<Rightarrow> registry_error + agent_descriptor" where
  "get_descriptor reg agent_type = (case tbl_get fst reg agent_type of
     None \<Rightarrow> Inl (UnknownAgentType agent_type) | Some (_, d) \<Rightarrow> Inr d)"

text \<open>\<open>AgentRegistry.create\<close>: the factory applied to the entry's descriptor.\<close>

definition create_agent :: "(agent_descriptor \<Rightarrow> 'agent) \<Rightarrow> type_registry \<Rightarrow> string \<Rightarrow> registry_error + 'agent" where
  "create_agent factory reg agent_type = bind_sum (get_descriptor reg agent_type) (\<lambda>d. Inr (factory d))"

definition list_agents :: "type_registry \<Rightarrow> agent_descriptor list" where
  "list_agents reg = map snd reg"

definition has_agent_permission :: "type_registry \<Rightarrow> string \<Rightarrow> permission_level \<Rightarrow> registry_error + bool" where
  "has_agent_permission reg agent_type p = bind_sum (get_descriptor reg agent_type) (\<lambda>d. Inr (p \<in> set (agt_permissions d)))"

definition check_permission :: "type_registry \<Rightarrow> string \<Rightarrow> permission_level \<Rightarrow> registry_error + unit" where
  "check_permission reg agent_type p = bind_sum (has_agent_permission reg agent_type p)
     (\<lambda>held. if \<not> held then Inl (PermissionDeniedError agent_type p) else Inr ())"

definition elevated_permissions :: "permission_level list" where
  "elevated_permissions = [EXTERNAL_ACTION, FINANCIAL_ACTION, ADMIN]"

definition requires_elevated_permission :: "type_registry \<Rightarrow> string \<Rightarrow> registry_error + bool" where
  "requires_elevated_permission reg agent_type = bind_sum (get_descriptor reg agent_type)
     (\<lambda>d. Inr (\<exists>p \<in> set (agt_permissions d). p \<in> set elevated_permissions))"

text \<open>The models of the settings, by agent.\<close>

record agent_models =
  jarvis_model :: string
  research_model :: string
  strategy_model :: string
  execution_model :: string
  qa_model :: string

definition build_default_registry :: "agent_models \<Rightarrow> type_registry" where
  "build_default_registry ms = fold register_agent_type
     [\<lparr>agt_name = ''jarvis'', agt_role = ''Executive Orchestrator'',
        agt_description = ''Owns the objective end-to-end: plans, delegates, evaluates, reports.'',
        agt_capabilities = [''planning'', ''delegation'', ''reporting''], agt_permissions = [READ, WRITE], agt_model = jarvis_model ms\<rparr>,
      \<lparr>agt_name = ''research'', agt_role = ''Research Agent'',
        agt_description = ''Researches assigned questions and returns structured, evidence-labeled findings.'',
        agt_capabilities = [''research'', ''analysis'', ''evidence_collection''], agt_permissions = [READ], agt_model = research_model ms\<rparr>,
      \<lparr>agt_name = ''strategy'', agt_role = ''Strategy Agent'',
        agt_description = ''Compares researched options and produces an evidence-based recommendation.'',
        agt_capabilities = [''strategy'', ''comparison'', ''recommendation''], agt_permissions = [READ], agt_model = strategy_model ms\<rparr>,
      \<lparr>agt_name = ''execution'', agt_role = ''Execution Agent'',
        agt_description = ''Performs approved internal operational work (drafts, state updates).'',
        agt_capabilities = [''approved_operations'', ''drafting'', ''internal_updates''], agt_permissions = [READ, WRITE],
        agt_model = execution_model ms\<rparr>,
      \<lparr>agt_name = ''qa'', agt_role = ''QA Agent'',
        agt_description = ''Evaluates agent outputs for completeness, unsupported claims, and quality.'',
        agt_capabilities = [''validation'', ''quality_control'', ''evaluation''], agt_permissions = [READ], agt_model = qa_model ms\<rparr>] []"

section \<open>Mission budgets\<close>

record usage_totals =
  ut_api_calls :: int
  ut_initial_calls :: int
  ut_retry_calls :: int
  ut_input_tokens :: int
  ut_output_tokens :: int
  ut_total_tokens :: int
  ut_estimated_cost_usd :: "py_float option"

definition no_usage :: usage_totals where
  "no_usage = \<lparr>ut_api_calls = 0, ut_initial_calls = 0, ut_retry_calls = 0, ut_input_tokens = 0, ut_output_tokens = 0,
     ut_total_tokens = 0, ut_estimated_cost_usd = None\<rparr>"

record budget_settings =
  max_api_calls_per_mission :: int
  max_tokens_per_mission :: int
  max_estimated_cost_per_mission_usd :: "py_float option"
  daily_cost_limit_usd :: "py_float option"
  budget_reserved_output_tokens :: int
  budget_reservation_safety_margin_tokens :: int

datatype budget_denial = MAX_API_CALLS_PER_MISSION int | MAX_TOKENS_PER_MISSION int
  | MAX_ESTIMATED_COST_PER_MISSION_USD py_float | DAILY_COST_LIMIT_USD py_float

text \<open>\<open>limit is not None and cost is not None and cost >= limit\<close>.\<close>

fun cost_reached :: "py_float option \<Rightarrow> py_float option \<Rightarrow> bool" where
  "cost_reached (Some limit) (Some cost) = float_le limit cost"
| "cost_reached _ _ = False"

definition check_budget :: "usage_totals \<Rightarrow> py_float option \<Rightarrow> budget_settings \<Rightarrow> budget_denial option" where
  "check_budget totals daily_cost s =
     (if max_api_calls_per_mission s \<noteq> 0 \<and> max_api_calls_per_mission s \<le> ut_api_calls totals
        then Some (MAX_API_CALLS_PER_MISSION (max_api_calls_per_mission s))
      else if max_tokens_per_mission s \<noteq> 0 \<and> max_tokens_per_mission s \<le> ut_total_tokens totals
        then Some (MAX_TOKENS_PER_MISSION (max_tokens_per_mission s))
      else if cost_reached (max_estimated_cost_per_mission_usd s) (ut_estimated_cost_usd totals)
        then Some (MAX_ESTIMATED_COST_PER_MISSION_USD (the (max_estimated_cost_per_mission_usd s)))
      else if cost_reached (daily_cost_limit_usd s) daily_cost
        then Some (DAILY_COST_LIMIT_USD (the (daily_cost_limit_usd s)))
      else None)"

text \<open>The usage once the next attempt, a worker call and its QA call, is let through.\<close>

definition reserved_totals :: "usage_totals \<Rightarrow> int \<Rightarrow> int \<Rightarrow> budget_settings \<Rightarrow> usage_totals" where
  "reserved_totals committed in_flight_calls in_flight_tokens s = no_usage\<lparr>
     ut_api_calls := ut_api_calls committed + in_flight_calls + 2,
     ut_total_tokens := ut_total_tokens committed + in_flight_tokens + budget_reserved_output_tokens s
       + budget_reservation_safety_margin_tokens s,
     ut_estimated_cost_usd := ut_estimated_cost_usd committed\<rparr>"

section \<open>Laws\<close>

lemma check_budget_None: "check_budget totals daily s = None \<longleftrightarrow>
    (max_api_calls_per_mission s = 0 \<or> ut_api_calls totals < max_api_calls_per_mission s) \<and>
    (max_tokens_per_mission s = 0 \<or> ut_total_tokens totals < max_tokens_per_mission s) \<and>
    \<not> cost_reached (max_estimated_cost_per_mission_usd s) (ut_estimated_cost_usd totals) \<and>
    \<not> cost_reached (daily_cost_limit_usd s) daily"
  by (auto simp: check_budget_def)

lemma check_permission_ok: "check_permission reg agent_type p = Inr u \<longleftrightarrow>
    (\<exists>d. get_descriptor reg agent_type = Inr d \<and> p \<in> set (agt_permissions d))"
  by (auto simp: check_permission_def has_agent_permission_def bind_sum_InrE split: if_splits)

text \<open>Only the three consequential levels are ever assigned, never \<open>LOW\<close>.\<close>

lemma classify_level_mem: "classify_level kws s = Some l \<Longrightarrow> \<exists>ps. (l, ps) \<in> set kws"
  by (induction kws s rule: classify_level.induct) (auto split: if_splits)

lemma classify_risk_levels: "classify_risk txt = Some l \<Longrightarrow> l \<in> {CRITICAL, HIGH, MEDIUM}"
  unfolding classify_risk_def by (drule classify_level_mem) (auto simp: approval_keywords_def)

end
