(* ===== verification/Task_Planner.thy ===== *)
theory Task_Planner
  imports Plan_Validation
begin

text \<open>
  \<open>app/orchestration/planner.py\<close> and the plan schemas of \<open>app/schemas/tasks.py\<close>: what a planner's reply must satisfy before it
  becomes tasks. The search for cycles is shown to be \<open>Plan_Validation.dfs_visit\<close> with its path forgotten, so that one proof
  of depth-first search serves both validators. The model call \<open>jarvis.plan\<close> is a parameter.
\<close>

section \<open>Plans\<close>

datatype task_priority = TP_LOW | TP_NORMAL | TP_HIGH | TP_CRITICAL

record task_plan =
  tp_key :: string
  tp_title :: string
  tp_description :: string
  tp_agent_type :: string
  tp_dependencies :: "string list"
  tp_priority :: task_priority
  tp_requires_approval :: bool
  tp_success_criteria :: string
  tp_research_mode :: "string option"

record execution_plan =
  ep_objective :: string
  ep_tasks :: "task_plan list"
  ep_estimated_complexity :: string
  ep_requires_approval :: bool
  ep_success_criteria :: string

text \<open>\<open>PlanValidationError\<close>, and what the model call raises.\<close>

datatype 'e planning_error = EmptyObjective | NoTasks | DuplicateTaskKeys | UnknownTaskKey string string
  | SelfDependentTask string | CyclicTask string | JarvisError 'e

section \<open>The search for cycles\<close>

definition task_graph :: "task_plan list \<Rightarrow> dep_graph" where
  "task_graph ts = foldl (\<lambda>g t. tbl_put fst g (tp_key t, tp_dependencies t)) [] ts"

text \<open>A visit ends with the sets \<open>visiting\<close> and \<open>visited\<close>, or raises at a node.\<close>

datatype visit_outcome = Visit_Out_Of_Fuel | Visit_Cycle string | Visited "string list" "string list"

fun visit_each :: "(string \<Rightarrow> string list \<Rightarrow> string list \<Rightarrow> visit_outcome) \<Rightarrow> string list \<Rightarrow> string list \<Rightarrow> string list \<Rightarrow> visit_outcome" where
  "visit_each rec [] vis vd = Visited vis vd"
| "visit_each rec (d # ds) vis vd = (case rec d vis vd of Visited vis' vd' \<Rightarrow> visit_each rec ds vis' vd' | out \<Rightarrow> out)"

fun planner_visit :: "nat \<Rightarrow> dep_graph \<Rightarrow> string \<Rightarrow> string list \<Rightarrow> string list \<Rightarrow> visit_outcome" where
  "planner_visit 0 g node vis vd = Visit_Out_Of_Fuel"
| "planner_visit (Suc fuel) g node vis vd =
     (if node \<in> set vd then Visited vis vd
      else if node \<in> set vis then Visit_Cycle node
      else (case visit_each (planner_visit fuel g) (graph_deps g node) (node # vis) vd of
          Visited vis' vd' \<Rightarrow> Visited (removeAll node vis') (node # vd')
        | out \<Rightarrow> out))"

definition assert_no_cycles :: "task_plan list \<Rightarrow> visit_outcome" where
  "assert_no_cycles ts = (let g = task_graph ts in visit_each (planner_visit (Suc (length ts)) g) (map fst g) [] [])"

section \<open>Validation\<close>

fun check_task_dependencies :: "string list \<Rightarrow> string \<Rightarrow> string list \<Rightarrow> 'e planning_error + unit" where
  "check_task_dependencies keys key [] = Inr ()"
| "check_task_dependencies keys key (d # ds) =
     (if d \<notin> set keys then Inl (UnknownTaskKey key d)
      else if d = key then Inl (SelfDependentTask key)
      else check_task_dependencies keys key ds)"

fun check_dependencies :: "string list \<Rightarrow> task_plan list \<Rightarrow> 'e planning_error + unit" where
  "check_dependencies keys [] = Inr ()"
| "check_dependencies keys (t # ts) = bind_sum (check_task_dependencies keys (tp_key t) (tp_dependencies t))
     (\<lambda>_. check_dependencies keys ts)"

definition validate_plan :: "execution_plan \<Rightarrow> 'e planning_error + unit" where
  "validate_plan p = (let ts = ep_tasks p; keys = map tp_key ts in
     if ts = [] then Inl NoTasks
     else if \<not> distinct keys then Inl DuplicateTaskKeys
     else bind_sum (check_dependencies keys ts) (\<lambda>_.
       case assert_no_cycles ts of Visit_Cycle node \<Rightarrow> Inl (CyclicTask node) | _ \<Rightarrow> Inr ()))"

definition create_plan :: "(string \<Rightarrow> 'e + execution_plan) \<Rightarrow> string \<Rightarrow> 'e planning_error + execution_plan" where
  "create_plan jarvis_plan objective =
     (if py_strip objective = [] then Inl EmptyObjective
      else (case jarvis_plan objective of
          Inl e \<Rightarrow> Inl (JarvisError e)
        | Inr p \<Rightarrow> bind_sum (validate_plan p) (\<lambda>_. Inr p)))"

section \<open>The search is the search of the action plans\<close>

definition forget_path :: "dfs_outcome \<Rightarrow> visit_outcome" where
  "forget_path out = (case out of Out_Of_Fuel \<Rightarrow> Visit_Out_Of_Fuel | Cycle c \<Rightarrow> Visit_Cycle (last c)
     | Finished st \<Rightarrow> Visited (visiting st) (visited st))"

lemma forget_path_simps [simp]: "forget_path Out_Of_Fuel = Visit_Out_Of_Fuel" "forget_path (Cycle c) = Visit_Cycle (last c)"
    "forget_path (Finished st) = Visited (visiting st) (visited st)"
  by (simp_all add: forget_path_def)

definition all_known :: "dep_graph \<Rightarrow> bool" where
  "all_known g = (\<forall>n. set (graph_deps g n) \<subseteq> fst ` set g)"

lemma visit_each_forget:
  assumes "\<And>n st. rec' n (visiting st) (visited st) = forget_path (rec n st)" and "set ns \<subseteq> set known"
  shows "visit_each rec' ns (visiting st) (visited st) = forget_path (visit_deps rec known ns st)"
  using assms(2)
proof (induction ns arbitrary: st)
  case (Cons n ns)
  then show ?case using assms(1) [of n st] by (cases "rec n st") simp_all
qed simp

lemma planner_visit_forget:
  "all_known g \<Longrightarrow> planner_visit fuel g n (visiting st) (visited st) = forget_path (dfs_visit fuel g n st)"
proof (induction fuel arbitrary: n st)
  case (Suc fuel)
  let ?st = "st\<lparr>visiting := n # visiting st, dfs_path := dfs_path st @ [n]\<rparr>"
  have "visit_each (planner_visit fuel g) (graph_deps g n) (visiting ?st) (visited ?st) =
      forget_path (visit_deps (dfs_visit fuel g) (map fst g) (graph_deps g n) ?st)"
    by (rule visit_each_forget) (use Suc in \<open>auto simp: all_known_def\<close>)
  then show ?case
    by (cases "visit_deps (dfs_visit fuel g) (map fst g) (graph_deps g n) ?st") simp_all
qed simp

text \<open>With every node known, the search finds a cycle exactly when there is one, and never runs out of fuel.\<close>

lemma search_all:
  assumes "all_known g" and "card (fst ` set g) < fuel"
  shows "visit_each (planner_visit fuel g) (map fst g) [] [] = Visit_Cycle n \<Longrightarrow> \<not> acyclic (graph_edges g)"
    and "visit_each (planner_visit fuel g) (map fst g) [] [] = Visited vis vd \<Longrightarrow> acyclic (graph_edges g)"
    and "visit_each (planner_visit fuel g) (map fst g) [] [] \<noteq> Visit_Out_Of_Fuel"
proof -
  let ?st = "\<lparr>visiting = [], visited = [], dfs_path = []\<rparr>"
  let ?out = "visit_deps (dfs_visit fuel g) (map fst g) (map fst g) ?st"
  have eq: "visit_each (planner_visit fuel g) (map fst g) [] [] = forget_path ?out"
    using visit_each_forget [of "planner_visit fuel g" "dfs_visit fuel g" "map fst g" "map fst g" ?st]
      planner_visit_forget [OF assms(1)] by simp
  have spec: "visit_spec g (map fst g) ?st ?out"
  proof (rule visit_deps_spec [where p = "[]"])
    fix m st' assume "dfs_inv g st'" "dfs_path st' = []" "may_visit g st' m"
    then show "visit_spec g [m] st' (dfs_visit fuel g m st')" using dfs_visit_spec [of g st' m fuel] assms(2) by simp
  qed (auto simp: dfs_inv_def may_visit_def)
  show "visit_each (planner_visit fuel g) (map fst g) [] [] = Visit_Cycle n \<Longrightarrow> \<not> acyclic (graph_edges g)"
    using spec real_cycle_not_acyclic by (cases ?out) (auto simp: eq visit_spec_def)
  show "visit_each (planner_visit fuel g) (map fst g) [] [] \<noteq> Visit_Out_Of_Fuel"
    using spec by (cases ?out) (auto simp: eq visit_spec_def)
  assume "visit_each (planner_visit fuel g) (map fst g) [] [] = Visited vis vd"
  then obtain st where "?out = Finished st" by (cases ?out) (auto simp: eq)
  then have topo: "topo (graph_edges g) (visited st)" and all: "fst ` set g \<subseteq> set (visited st)"
    using spec by (auto simp: visit_spec_def dfs_inv_def)
  show "acyclic (graph_edges g)"
    unfolding acyclic_def
  proof (intro allI notI)
    fix x assume c: "(x, x) \<in> (graph_edges g)\<^sup>+"
    then have "x \<in> fst ` set g" using DomainI [OF c] by (auto simp: trancl_domain graph_edges_def)
    then show False using topo_no_cycle [OF topo] all c by blast
  qed
qed

section \<open>What validation decides\<close>

definition task_edges :: "task_plan list \<Rightarrow> (string \<times> string) set" where
  "task_edges ts = {(tp_key t, d) | t d. t \<in> set ts \<and> d \<in> set (tp_dependencies t)}"

lemma task_graph_get: "distinct (map tp_key ts) \<Longrightarrow> tbl_get fst (task_graph ts) n =
    map_option (\<lambda>t. (n, tp_dependencies t)) (List.find (\<lambda>t. tp_key t = n) ts)"
proof (induction ts rule: rev_induct)
  case (snoc t ts)
  have none: "List.find (\<lambda>u. tp_key u = tp_key t) ts = None" using snoc.prems unfolding find_None_iff'
    by (simp, metis imageI)
  have step: "task_graph (ts @ [t]) = tbl_put fst (task_graph ts) (tp_key t, tp_dependencies t)" by (simp add: task_graph_def)
  show ?case
  proof (cases "n = tp_key t")
    case True
    then show ?thesis using none by (simp add: step tbl_get_put find_append)
  next
    case False
    then show ?thesis using snoc by (simp add: step tbl_get_put find_append split: option.split)
  qed
qed (simp add: task_graph_def)

lemma find_key: "distinct (map tp_key ts) \<Longrightarrow> List.find (\<lambda>t. tp_key t = n) ts = Some t \<longleftrightarrow> t \<in> set ts \<and> tp_key t = n"
  by (induction ts) (auto simp: image_iff)

lemma task_graph_keys: "distinct (map tp_key ts) \<Longrightarrow> fst ` set (task_graph ts) = tp_key ` set ts"
proof -
  assume d: "distinct (map tp_key ts)"
  have "n \<in> fst ` set (task_graph ts) \<longleftrightarrow> n \<in> tp_key ` set ts" for n
    using tbl_get_None_iff [of fst "task_graph ts" n] task_graph_get [OF d, of n] find_None_iff' [of "\<lambda>t. tp_key t = n" ts]
    by (cases "List.find (\<lambda>t. tp_key t = n) ts") (auto simp: image_iff)
  then show ?thesis by blast
qed

lemma task_graph_deps: "distinct (map tp_key ts) \<Longrightarrow> d \<in> set (graph_deps (task_graph ts) n) \<longleftrightarrow> (n, d) \<in> task_edges ts"
proof (cases "List.find (\<lambda>t. tp_key t = n) ts")
  case None
  assume d: "distinct (map tp_key ts)"
  have "\<forall>t \<in> set ts. tp_key t \<noteq> n" using None by (simp only: find_None_iff')
  then show ?thesis using None by (auto simp: graph_deps_def task_graph_get [OF d] task_edges_def)
next
  case (Some t)
  assume d: "distinct (map tp_key ts)"
  have t: "u = t \<longleftrightarrow> u \<in> set ts \<and> tp_key u = n" for u using find_key [OF d, of n u] Some by auto
  have "(n, d) \<in> task_edges ts \<longleftrightarrow> (\<exists>u. u = t \<and> d \<in> set (tp_dependencies u))" unfolding t by (auto simp: task_edges_def)
  then show ?thesis using Some by (simp add: graph_deps_def task_graph_get [OF d])
qed

lemma check_task_dependencies_ok: "check_task_dependencies keys key ds = Inr () \<longleftrightarrow> (\<forall>d \<in> set ds. d \<in> set keys \<and> d \<noteq> key)"
  by (induction keys key ds rule: check_task_dependencies.induct) auto

lemma task_edges_Cons: "task_edges (t # ts) = Pair (tp_key t) ` set (tp_dependencies t) \<union> task_edges ts"
  by (auto simp: task_edges_def)

lemma check_dependencies_ok: "check_dependencies keys ts = Inr () \<longleftrightarrow> (\<forall>(k, d) \<in> task_edges ts. d \<in> set keys \<and> d \<noteq> k)"
  by (induction ts) (simp_all add: bind_sum_InrE check_task_dependencies_ok task_edges_Cons ball_Un, simp add: task_edges_def)

definition valid_tasks :: "task_plan list \<Rightarrow> bool" where
  "valid_tasks ts = (ts \<noteq> [] \<and> distinct (map tp_key ts) \<and> Range (task_edges ts) \<subseteq> tp_key ` set ts \<and> acyclic (task_edges ts))"

theorem validate_plan_iff: "validate_plan p = (Inr () :: 'a planning_error + unit) \<longleftrightarrow> valid_tasks (ep_tasks p)"
proof (cases "distinct (map tp_key (ep_tasks p)) \<and> Range (task_edges (ep_tasks p)) \<subseteq> tp_key ` set (ep_tasks p)")
  case True
  let ?ts = "ep_tasks p" and ?g = "task_graph (ep_tasks p)"
  have d: "distinct (map tp_key ?ts)" using True by simp
  have known: "all_known ?g"
    using True Range.intros [of _ _ "task_edges ?ts"] by (auto simp: all_known_def task_graph_deps [OF d] task_graph_keys [OF d])
  have "task_edges ?ts \<subseteq> tp_key ` set ?ts \<times> tp_key ` set ?ts" using True by (fastforce simp: task_edges_def)
  then have edges: "graph_edges ?g = task_edges ?ts"
    by (auto simp: graph_edges_def task_graph_deps [OF d] task_graph_keys [OF d])
  have "card (fst ` set ?g) < Suc (length ?ts)"
    using card_image_le [of "set ?ts" tp_key] card_length [of ?ts] by (simp add: task_graph_keys [OF d])
  note search = search_all [OF known this, folded assert_no_cycles_def [unfolded Let_def], unfolded edges]
  have self: "(\<forall>(k, d) \<in> task_edges ?ts. d \<in> set (map tp_key ?ts) \<and> d \<noteq> k) \<longleftrightarrow> (\<forall>k. (k, k) \<notin> task_edges ?ts)"
    using True by auto
  show ?thesis
  proof (cases "assert_no_cycles ?ts")
    case (Visit_Cycle n)
    then have "\<not> acyclic (task_edges ?ts)" using search(1) by simp
    then show ?thesis using Visit_Cycle by (auto simp: validate_plan_def Let_def valid_tasks_def bind_sum_InrE)
  next
    case (Visited vis vd)
    then have ac: "acyclic (task_edges ?ts)" using search(2) by simp
    then have "\<forall>k. (k, k) \<notin> task_edges ?ts" by (auto simp: acyclic_def)
    then have "check_dependencies (map tp_key ?ts) ?ts = (Inr () :: 'a planning_error + unit)"
      unfolding check_dependencies_ok self .
    then show ?thesis using Visited ac True by (simp add: validate_plan_def Let_def valid_tasks_def)
  qed (use search(3) in simp)
next
  case False
  then show ?thesis
    by (auto simp: validate_plan_def Let_def valid_tasks_def bind_sum_InrE check_dependencies_ok)
qed

end
