(* ===== verification/Worker_QA.thy ===== *)
theory Worker_QA
  imports Task_Policies Json
begin

text \<open>
  \<open>app/orchestration/evaluator.py\<close>: a worker agent, its output judged by the QA agent and by the deterministic evidence checks,
  and a bounded number of retries. With it the parts of \<open>app/schemas/evidence.py\<close>, \<open>app/agents/usage.py\<close> and
  \<open>merge_into_verdict\<close> of \<open>app/security/evidence_qa.py\<close> the loop decides by. The agents call models and are parameters, and so are
  the text checks \<open>evaluate_evidence\<close> and the library's URL grammar behind \<open>canonical_url\<close>. What is only put into prompts (the
  compacted research context, diagnostics) is a matter of the agents: the worker is given what it is computed from.
\<close>

section \<open>Values\<close>

datatype qa_result = QA_PASS | QA_FAIL | QA_NEEDS_REVIEW

record qa_verdict =
  qv_verdict :: qa_result
  qv_score :: py_float
  qv_issues :: "string list"
  qv_unsupported_claims :: "string list"
  qv_feedback :: string

record model_usage =
  mu_provider :: string
  mu_model :: string
  mu_input_tokens :: "int option"
  mu_output_tokens :: "int option"
  mu_total_tokens :: "int option"
  mu_api_calls :: int
  mu_retry_number :: nat
  mu_role :: "string option"
  mu_is_model_call :: bool

record evidence_item =
  ei_id :: string
  ei_claim :: string
  ei_source_url :: "string option"
  ei_query_used :: "string option"
  ei_source_quality :: string
  ei_evidence_depth :: string

record evidence_gap =
  eg_claim_or_question :: string
  eg_gap_type :: string
  eg_suggested_query :: "string option"
  eg_related_claim :: "string option"
  eg_resolved :: bool
  eg_supporting_evidence_ids :: "string list"
  eg_candidate_id :: "string option"
  eg_requirement_category :: "string option"

record evidence_check =
  ec_issues :: "string list"
  ec_unsupported_claims :: "string list"
  ec_needs_review :: bool
  ec_gaps :: "evidence_gap list"
  ec_verdict_override :: "qa_result option"

text \<open>A worker's output: what every agent returns as JSON, and the two attributes only a research output has.\<close>

record worker_output =
  wo_fields :: "(string \<times> json) list"
  wo_evidence :: "evidence_item list option"
  wo_evidence_gaps :: "evidence_gap list option"

section \<open>The verdict\<close>

text \<open>\<open>list(dict.fromkeys(xs))\<close>: each value once, at its first place. \<open>max\<close> and \<open>min\<close> of two floats. The dash of the first
  feedback, not among the code points modelled, is a hyphen.\<close>

definition from_keys :: "'a list \<Rightarrow> 'a list" where
  "from_keys xs = rev (remdups (rev xs))"

definition py_max :: "py_float \<Rightarrow> py_float \<Rightarrow> py_float" where
  "py_max x y = (if float_gt y x then y else x)"

definition py_min :: "py_float \<Rightarrow> py_float \<Rightarrow> py_float" where
  "py_min x y = (if float_gt x y then y else x)"

definition insufficiency_feedback :: string where
  "insufficiency_feedback = ''Comparison readiness gate reports insufficient comparable evidence; Strategy '' @
     ''correctly refused to declare a winner and named what's missing - this is '' @
     ''correct handling of insufficient evidence, not a validated business recommendation.''"

definition merge_into_verdict :: "qa_verdict \<Rightarrow> evidence_check \<Rightarrow> qa_verdict" where
  "merge_into_verdict v c = (case ec_verdict_override c of
     Some override \<Rightarrow>
       v\<lparr>qv_verdict := override,
         qv_score := (if override = QA_PASS then py_max (qv_score v) (round64 (3 / 4)) else py_min (qv_score v) (round64 (2 / 5))),
         qv_issues := from_keys (qv_issues v @ ec_issues c),
         qv_feedback := (if override = QA_PASS then insufficiency_feedback
           else py_strip (qv_feedback v @ '' Strategy asserted a winner/validated recommendation '' @
             ''without clear provisional qualification despite comparison_ready=false.''))\<rparr>
   | None \<Rightarrow>
       if \<not> ec_needs_review c then v
       else v\<lparr>qv_verdict := (if qv_verdict v = QA_PASS then QA_NEEDS_REVIEW else qv_verdict v),
         qv_score := (if qv_verdict v = QA_PASS then py_min (qv_score v) (round64 (3 / 5)) else qv_score v),
         qv_issues := from_keys (qv_issues v @ ec_issues c),
         qv_unsupported_claims := from_keys (qv_unsupported_claims v @ ec_unsupported_claims c),
         qv_feedback := py_strip (qv_feedback v @ '' Evidence gap(s) found: '' @
           py_join ''; '' (ec_issues c @ map (\<lambda>u. ''unsupported claim: '' @ u) (ec_unsupported_claims c)))\<rparr>)"

section \<open>Evidence and gaps\<close>

text \<open>\<open>merge_evidence_items\<close>: the loop over the new items with the URLs and the URL-less claims already seen.\<close>

fun merge_new :: "(string \<Rightarrow> string) \<Rightarrow> string set \<Rightarrow> string set \<Rightarrow> evidence_item list \<Rightarrow> evidence_item list" where
  "merge_new canonical urls claims [] = []"
| "merge_new canonical urls claims (e # es) = (case ei_source_url e of
     Some (c # cs) \<Rightarrow>
       if canonical (c # cs) \<in> urls then merge_new canonical urls claims es
       else e # merge_new canonical (insert (canonical (c # cs)) urls) claims es
   | _ \<Rightarrow>
       if ei_claim e \<in> claims then merge_new canonical urls claims es
       else e # merge_new canonical urls (insert (ei_claim e) claims) es)"

definition has_url :: "evidence_item \<Rightarrow> bool" where
  "has_url e = (ei_source_url e \<noteq> None \<and> ei_source_url e \<noteq> Some [])"

definition merge_evidence_items :: "(string \<Rightarrow> string) \<Rightarrow> evidence_item list \<Rightarrow> evidence_item list \<Rightarrow> evidence_item list" where
  "merge_evidence_items canonical existing new = existing @ merge_new canonical
     (set [canonical (the (ei_source_url e)). e \<leftarrow> existing, has_url e]) (set [ei_claim e. e \<leftarrow> existing, \<not> has_url e]) new"

definition strong_gap_types :: "string list" where
  "strong_gap_types = [''market_size'', ''growth_rate'', ''pricing'', ''financial'']"

text \<open>The stable sort that puts extracted pages, then authoritative sources, then the newest first.\<close>

definition evidence_priority :: "evidence_item \<Rightarrow> nat" where
  "evidence_priority e = (if ei_evidence_depth e = ''PAGE_EXTRACT'' then 0 else 2) +
     (if ei_source_quality e = ''AUTHORITATIVE'' then 0 else 1)"

definition prioritized_evidence :: "evidence_item list \<Rightarrow> nat \<Rightarrow> evidence_item list" where
  "prioritized_evidence es n = (if length es \<le> n then es else take n (sort_key evidence_priority (rev es)))"

text \<open>\<open>_resolve_gaps\<close> on one gap: the evidence that answers its query, for a quantitative gap only from an extracted page.\<close>

definition gap_matches :: "evidence_item list \<Rightarrow> evidence_gap \<Rightarrow> evidence_item list" where
  "gap_matches new g = [e \<leftarrow> new. ei_query_used e = eg_suggested_query g \<and>
     (eg_gap_type g \<in> set strong_gap_types \<longrightarrow> ei_evidence_depth e = ''PAGE_EXTRACT'')]"

definition resolve_gap :: "evidence_item list \<Rightarrow> evidence_gap \<Rightarrow> evidence_gap" where
  "resolve_gap new g =
     (if eg_resolved g \<or> eg_suggested_query g \<in> {None, Some []} \<or> gap_matches new g = [] then g
      else g\<lparr>eg_resolved := True, eg_supporting_evidence_ids := map ei_id (gap_matches new g)\<rparr>)"

type_synonym gap_table = "(string \<times> evidence_gap) list"

definition resolve_gaps :: "evidence_item list \<Rightarrow> gap_table \<Rightarrow> gap_table" where
  "resolve_gaps new gaps = map (\<lambda>(k, g). (k, resolve_gap new g)) gaps"

definition gap_key :: "evidence_gap \<Rightarrow> string" where
  "gap_key g = empty_if_none (eg_candidate_id g) @ ''::'' @ eg_gap_type g"

definition opt_or :: "string option \<Rightarrow> string option \<Rightarrow> string option" where
  "opt_or x y = (if x \<in> {None, Some []} then y else x)"

definition merge_gap :: "evidence_gap \<Rightarrow> gap_table \<Rightarrow> gap_table" where
  "merge_gap g gaps = (case tbl_get fst gaps (gap_key g) of
     None \<Rightarrow> gaps @ [(gap_key g, g)]
   | Some (_, old) \<Rightarrow>
       if eg_resolved old then gaps
       else tbl_put fst gaps (gap_key g, old\<lparr>eg_claim_or_question := eg_claim_or_question g, eg_related_claim := eg_related_claim g,
         eg_suggested_query := opt_or (eg_suggested_query g) (eg_suggested_query old),
         eg_requirement_category := opt_or (eg_requirement_category g) (eg_requirement_category old)\<rparr>))"

definition merge_gaps :: "evidence_gap list \<Rightarrow> gap_table \<Rightarrow> gap_table" where
  "merge_gaps new gaps = fold merge_gap new gaps"

text \<open>Whether another attempt is worth its cost.\<close>

definition retry_has_expected_value :: "py_float \<Rightarrow> py_float \<Rightarrow> evidence_gap list \<Rightarrow> evidence_item list \<Rightarrow> bool" where
  "retry_has_expected_value previous current resolved new =
     (float_gt current previous \<or> (\<exists>g \<in> set resolved. eg_gap_type g \<in> set strong_gap_types) \<or>
      (\<exists>e \<in> set new. ei_evidence_depth e = ''PAGE_EXTRACT'' \<or> ei_source_quality e \<in> {''AUTHORITATIVE'', ''PRIMARY''}))"

section \<open>The loop\<close>

record run_input =
  ri_attempt :: nat
  ri_qa_feedback :: "string option"
  ri_evidence_gaps :: "evidence_gap list"
  ri_previous_output :: "worker_output option"

text \<open>A call of an agent: the usage it recorded, and what it returned or raised.\<close>

record qa_env =
  qe_worker :: "run_input \<Rightarrow> model_usage list \<times> (string + worker_output)"
  qe_qa :: "nat \<Rightarrow> worker_output \<Rightarrow> model_usage list \<times> (string + qa_verdict)"
  qe_evaluate_evidence :: "worker_output \<Rightarrow> run_input \<Rightarrow> evidence_check"
  qe_canonical :: "string \<Rightarrow> string"
  qe_max_evidence_items :: nat
  qe_max_retries :: int
  qe_mission_usage :: "usage_totals option"
  qe_settings :: budget_settings

record evaluation_result =
  evr_output :: worker_output
  evr_verdict :: qa_verdict
  evr_attempts_used :: nat
  evr_usage_events :: "model_usage list"
  evr_accumulated_evidence :: "evidence_item list"
  evr_budget_stopped_reason :: "budget_denial option"

record worker_execution_error =
  we_cause :: string
  we_usage_events :: "model_usage list"
  we_accumulated_evidence :: "evidence_item list"
  we_attempts_used :: nat

record qa_state =
  qs_attempt :: nat
  qs_feedback :: "string option"
  qs_usage :: "model_usage list"
  qs_evidence :: "evidence_item list"
  qs_gaps :: gap_table
  qs_previous :: "(worker_output \<times> py_float) option"

definition qa_start :: qa_state where
  "qa_start = \<lparr>qs_attempt = 0, qs_feedback = None, qs_usage = [], qs_evidence = [], qs_gaps = [], qs_previous = None\<rparr>"

definition tag_usage :: "nat \<Rightarrow> string \<Rightarrow> model_usage list \<Rightarrow> model_usage list" where
  "tag_usage attempt role = map (\<lambda>u. u\<lparr>mu_retry_number := attempt, mu_role := Some role\<rparr>)"

definition run_input_of :: "qa_state \<Rightarrow> run_input" where
  "run_input_of st = \<lparr>ri_attempt = qs_attempt st, ri_qa_feedback = (if qs_feedback st = Some [] then None else qs_feedback st),
     ri_evidence_gaps = [g. (_, g) \<leftarrow> qs_gaps st, \<not> eg_resolved g], ri_previous_output = map_option fst (qs_previous st)\<rparr>"

text \<open>What a worker's output makes of the evidence and the gaps so far, and of itself: with new evidence it carries the running
  total, without it stays as it came.\<close>

definition take_evidence :: "qa_env \<Rightarrow> qa_state \<Rightarrow> worker_output \<Rightarrow> evidence_item list \<times> gap_table \<times> worker_output" where
  "take_evidence e st out = (case wo_evidence out of
     Some (x # xs) \<Rightarrow>
       (let total = merge_evidence_items (qe_canonical e) (qs_evidence st) (x # xs)
        in (total, resolve_gaps (x # xs) (qs_gaps st),
            out\<lparr>wo_evidence := Some (prioritized_evidence total (qe_max_evidence_items e))\<rparr>))
   | _ \<Rightarrow> (qs_evidence st, qs_gaps st, out))"

definition usage_tokens :: "model_usage \<Rightarrow> int" where
  "usage_tokens u = (case mu_total_tokens u of
     Some t \<Rightarrow> if t \<noteq> 0 then t else (case mu_input_tokens u of None \<Rightarrow> 0 | Some i \<Rightarrow> i) + (case mu_output_tokens u of None \<Rightarrow> 0 | Some i \<Rightarrow> i)
   | None \<Rightarrow> (case mu_input_tokens u of None \<Rightarrow> 0 | Some i \<Rightarrow> i) + (case mu_output_tokens u of None \<Rightarrow> 0 | Some i \<Rightarrow> i))"

definition retry_budget :: "qa_env \<Rightarrow> model_usage list \<Rightarrow> budget_denial option" where
  "retry_budget e usage = (case qe_mission_usage e of
     None \<Rightarrow> None
   | Some committed \<Rightarrow> check_budget (reserved_totals committed (int (length usage)) (sum_list (map usage_tokens usage)) (qe_settings e))
       None (qe_settings e))"

text \<open>The gaps taken for newly resolved: their type is looked up among the keys of those resolved before.\<close>

definition newly_resolved :: "gap_table \<Rightarrow> gap_table \<Rightarrow> evidence_gap list" where
  "newly_resolved before gaps = (let resolved_before = [k. (k, g) \<leftarrow> before, eg_resolved g]
     in [g. (_, g) \<leftarrow> gaps, eg_resolved g, eg_gap_type g \<notin> set resolved_before])"

definition retry_worthless :: "qa_state \<Rightarrow> worker_output \<Rightarrow> qa_verdict \<Rightarrow> gap_table \<Rightarrow> evidence_item list \<Rightarrow> bool" where
  "retry_worthless st out v gaps evidence = (case qs_previous st of
     None \<Rightarrow> False
   | Some (_, previous) \<Rightarrow> wo_evidence out \<noteq> None \<and> wo_evidence_gaps out \<noteq> None \<and> gaps \<noteq> [] \<and>
       \<not> retry_has_expected_value previous (qv_score v) (newly_resolved (qs_gaps st) gaps) (drop (length (qs_evidence st)) evidence))"

text \<open>One pass of the loop: the call fails, ends with a result, or goes round again.\<close>

definition qa_judge :: "qa_env \<Rightarrow> qa_state \<Rightarrow> model_usage list \<Rightarrow> evidence_item list \<Rightarrow> gap_table \<Rightarrow> worker_output \<Rightarrow> qa_verdict \<Rightarrow>
    evaluation_result + qa_state" where
  "qa_judge e st usage evidence gaps out model_verdict =
     (let check = qe_evaluate_evidence e out (run_input_of st);
          v = merge_into_verdict model_verdict check;
          gaps = merge_gaps (ec_gaps check) (merge_gaps (case wo_evidence_gaps out of None \<Rightarrow> [] | Some gs \<Rightarrow> gs) gaps);
          out = (case wo_evidence_gaps out of None \<Rightarrow> out | Some _ \<Rightarrow> out\<lparr>wo_evidence_gaps := Some (map snd gaps)\<rparr>);
          result = \<lparr>evr_output = out, evr_verdict = v, evr_attempts_used = qs_attempt st, evr_usage_events = usage,
            evr_accumulated_evidence = evidence, evr_budget_stopped_reason = None\<rparr>
      in if qv_verdict v = QA_PASS \<or> qe_max_retries e \<le> int (qs_attempt st) then Inl result
         else if retry_worthless st out v gaps evidence then Inl result
         else (case retry_budget e usage of
             Some reason \<Rightarrow> Inl (result\<lparr>evr_budget_stopped_reason := Some reason\<rparr>)
           | None \<Rightarrow> Inr \<lparr>qs_attempt = Suc (qs_attempt st), qs_feedback = Some (qv_feedback v), qs_usage = usage, qs_evidence = evidence,
               qs_gaps = gaps, qs_previous = Some (out, qv_score v)\<rparr>))"

definition qa_iteration :: "qa_env \<Rightarrow> qa_state \<Rightarrow> worker_execution_error + evaluation_result + qa_state" where
  "qa_iteration e st =
     (let n = qs_attempt st;
          failed = (\<lambda>cause usage evidence. Inl \<lparr>we_cause = cause, we_usage_events = usage, we_accumulated_evidence = evidence,
            we_attempts_used = n\<rparr>)
      in case qe_worker e (run_input_of st) of
        (worker_events, Inl cause) \<Rightarrow> failed cause (qs_usage st @ tag_usage n ''worker'' worker_events) (qs_evidence st)
      | (worker_events, Inr out) \<Rightarrow> (case take_evidence e st out of
          (evidence, gaps, out) \<Rightarrow> (case qe_qa e n out of
              (qa_events, r) \<Rightarrow>
                (let usage = qs_usage st @ tag_usage n ''worker'' worker_events @ tag_usage n ''qa'' qa_events
                 in case r of
                   Inl cause \<Rightarrow> failed cause usage evidence
                 | Inr v \<Rightarrow> Inr (qa_judge e st usage evidence gaps out v)))))"

lemma qa_judge_again: "qa_judge e st usage evidence gaps out v = Inr st' \<Longrightarrow>
    int (qs_attempt st) < qe_max_retries e \<and> qs_attempt st' = Suc (qs_attempt st)"
  by (auto simp: qa_judge_def Let_def split: if_splits option.splits)

lemma qa_iteration_again: "qa_iteration e st = Inr (Inr st') \<Longrightarrow>
    int (qs_attempt st) < qe_max_retries e \<and> qs_attempt st' = Suc (qs_attempt st)"
  by (auto simp: qa_iteration_def Let_def split: prod.splits sum.splits dest: qa_judge_again)

function qa_loop :: "qa_env \<Rightarrow> qa_state \<Rightarrow> worker_execution_error + evaluation_result" where
  "qa_loop e st = (case qa_iteration e st of
     Inl failure \<Rightarrow> Inl failure | Inr (Inl result) \<Rightarrow> Inr result | Inr (Inr st') \<Rightarrow> qa_loop e st')"
  by pat_completeness auto

termination
  by (relation "measure (\<lambda>(e, st). nat (qe_max_retries e - int (qs_attempt st)))") (auto dest: qa_iteration_again)

declare qa_loop.simps [simp del]

definition run_worker_with_qa :: "qa_env \<Rightarrow> worker_execution_error + evaluation_result" where
  "run_worker_with_qa e = qa_loop e qa_start"

section \<open>What a run promises\<close>

text \<open>The states a run passes through.\<close>

inductive qa_reaches :: "qa_env \<Rightarrow> qa_state \<Rightarrow> bool" for e where
  qa_reaches_start: "qa_reaches e qa_start"
| qa_reaches_again: "qa_reaches e st \<Longrightarrow> qa_iteration e st = Inr (Inr st') \<Longrightarrow> qa_reaches e st'"

text \<open>The verdict the deterministic checks leave of the model's: an override decides; otherwise a \<open>PASS\<close> that needs review is one no more, and
  every other verdict stays.\<close>

definition checked_verdict :: "evidence_check \<Rightarrow> qa_result \<Rightarrow> qa_result" where
  "checked_verdict c m = (case ec_verdict_override c of
     Some decided \<Rightarrow> decided
   | None \<Rightarrow> if ec_needs_review c \<and> m = QA_PASS then QA_NEEDS_REVIEW else m)"

lemma merge_checked: "qv_verdict (merge_into_verdict v c) = checked_verdict c (qv_verdict v)"
  by (auto simp: merge_into_verdict_def checked_verdict_def split: option.splits)

text \<open>A result comes from one attempt the run reached: the worker answered the attempt's input, the QA agent judged that answer with the
  evidence so far, and the verdict is what the checks of that answer leave of its judgement.\<close>

definition judged :: "qa_env \<Rightarrow> evaluation_result \<Rightarrow> bool" where
  "judged e r = (\<exists>st us out evidence gaps out' qus v. qa_reaches e st \<and> qs_attempt st = evr_attempts_used r \<and>
     qe_worker e (run_input_of st) = (us, Inr out) \<and> take_evidence e st out = (evidence, gaps, out') \<and>
     qe_qa e (qs_attempt st) out' = (qus, Inr v) \<and>
     wo_fields (evr_output r) = wo_fields out' \<and> wo_evidence (evr_output r) = wo_evidence out' \<and> evr_accumulated_evidence r = evidence \<and>
     evr_usage_events r = qs_usage st @ tag_usage (qs_attempt st) ''worker'' us @ tag_usage (qs_attempt st) ''qa'' qus \<and>
     evr_verdict r = merge_into_verdict v (qe_evaluate_evidence e out' (run_input_of st)) \<and>
     qv_verdict (evr_verdict r) = checked_verdict (qe_evaluate_evidence e out' (run_input_of st)) (qv_verdict v))"

text \<open>Every attempt after the first was started within the budget that its reservation leaves.\<close>

definition retries_affordable :: "qa_env \<Rightarrow> nat \<Rightarrow> model_usage list \<Rightarrow> bool" where
  "retries_affordable e n usage = (\<forall>k. 0 < k \<and> k \<le> n \<longrightarrow> retry_budget e [u \<leftarrow> usage. mu_retry_number u < k] = None)"

definition qa_inv :: "qa_env \<Rightarrow> qa_state \<Rightarrow> bool" where
  "qa_inv e st = (int (qs_attempt st) \<le> max 0 (qe_max_retries e) \<and> (\<forall>u \<in> set (qs_usage st). mu_retry_number u < qs_attempt st) \<and>
     retries_affordable e (qs_attempt st) (qs_usage st))"

definition attempts_ok :: "qa_env \<Rightarrow> nat \<Rightarrow> model_usage list \<Rightarrow> bool" where
  "attempts_ok e n usage = (int n \<le> max 0 (qe_max_retries e) \<and> (\<forall>u \<in> set usage. mu_retry_number u \<le> n) \<and> retries_affordable e n usage)"

lemma tag_usage_number: "u \<in> set (tag_usage n role us) \<Longrightarrow> mu_retry_number u = n"
  by (auto simp: tag_usage_def)

lemma retries_affordable_append:
  "retries_affordable e n usage \<Longrightarrow> (\<And>u. u \<in> set added \<Longrightarrow> mu_retry_number u = n) \<Longrightarrow> retries_affordable e n (usage @ added)"
proof -
  assume a: "retries_affordable e n usage" and m: "\<And>u. u \<in> set added \<Longrightarrow> mu_retry_number u = n"
  have "[u \<leftarrow> added. mu_retry_number u < k] = []" if "k \<le> n" for k using m that by (force simp: filter_empty_conv)
  then show ?thesis using a by (simp add: retries_affordable_def)
qed

lemma attempts_okI: "qa_inv e st \<Longrightarrow> (\<And>u. u \<in> set added \<Longrightarrow> mu_retry_number u = qs_attempt st) \<Longrightarrow>
    attempts_ok e (qs_attempt st) (qs_usage st @ added)"
  by (force simp: attempts_ok_def qa_inv_def intro: retries_affordable_append)

lemma qa_inv_next:
  assumes "attempts_ok e n usage" and "int n < qe_max_retries e" and "retry_budget e usage = None"
    and "qs_attempt st' = Suc n" "qs_usage st' = usage"
  shows "qa_inv e st'"
proof -
  have "retry_budget e [u \<leftarrow> usage. mu_retry_number u < k] = None" if "0 < k" "k \<le> Suc n" for k
  proof (cases "k = Suc n")
    case True
    then have "[u \<leftarrow> usage. mu_retry_number u < k] = usage" using assms(1) by (force simp: attempts_ok_def filter_id_conv)
    then show ?thesis using assms(3) by simp
  next
    case False
    then show ?thesis using assms(1) that by (simp add: attempts_ok_def retries_affordable_def)
  qed
  then show ?thesis using assms by (force simp: qa_inv_def attempts_ok_def retries_affordable_def)
qed

definition run_promise :: "qa_env \<Rightarrow> worker_execution_error + evaluation_result \<Rightarrow> bool" where
  "run_promise e r = (case r of
     Inl f \<Rightarrow> attempts_ok e (we_attempts_used f) (we_usage_events f)
   | Inr r \<Rightarrow> attempts_ok e (evr_attempts_used r) (evr_usage_events r) \<and> judged e r)"

lemma qa_judge_result: "qa_judge e st usage evidence gaps out v = Inl r \<Longrightarrow>
    evr_attempts_used r = qs_attempt st \<and> evr_usage_events r = usage \<and> wo_fields (evr_output r) = wo_fields out \<and>
    wo_evidence (evr_output r) = wo_evidence out \<and> evr_accumulated_evidence r = evidence \<and>
    evr_verdict r = merge_into_verdict v (qe_evaluate_evidence e out (run_input_of st))"
  by (auto simp: qa_judge_def Let_def split: if_splits option.splits)

lemma qa_judge_inv:
  assumes "attempts_ok e (qs_attempt st) usage" "qa_judge e st usage evidence gaps out v = Inr st'"
  shows "qa_inv e st'"
proof -
  have "retry_budget e usage = None" "qs_usage st' = usage"
    using assms(2) by (auto simp: qa_judge_def Let_def split: if_splits option.splits)
  then show ?thesis using qa_inv_next [OF assms(1)] qa_judge_again [OF assms(2)] by simp
qed

lemma qa_iteration_promise:
  assumes "qa_inv e st" "qa_reaches e st"
  shows "case qa_iteration e st of Inl f \<Rightarrow> run_promise e (Inl f) | Inr (Inl r) \<Rightarrow> run_promise e (Inr r) | Inr (Inr st') \<Rightarrow> qa_inv e st'"
proof -
  obtain we wr where w: "qe_worker e (run_input_of st) = (we, wr)" by fastforce
  let ?n = "qs_attempt st"
  have tag: "attempts_ok e ?n (qs_usage st @ tag_usage ?n ''worker'' we)"
      "attempts_ok e ?n (qs_usage st @ tag_usage ?n ''worker'' we @ tag_usage ?n ''qa'' qs)" for qs
    by (rule attempts_okI [OF assms(1)], auto dest: tag_usage_number)+
  show ?thesis
  proof (cases wr)
    case (Inl cause)
    then show ?thesis using tag(1) w by (simp add: qa_iteration_def run_promise_def Let_def)
  next
    case (Inr out)
    obtain ev gaps out' where t: "take_evidence e st out = (ev, gaps, out')" by (cases "take_evidence e st out")
    obtain qe qr where q: "qe_qa e ?n out' = (qe, qr)" by fastforce
    show ?thesis
    proof (cases qr)
      case (Inl cause)
      then show ?thesis using tag(2) w Inr t q by (simp add: qa_iteration_def run_promise_def Let_def)
    next
      fix v assume v: "qr = Inr v"
      let ?usage = "qs_usage st @ tag_usage ?n ''worker'' we @ tag_usage ?n ''qa'' qe"
      have it: "qa_iteration e st = Inr (qa_judge e st ?usage ev gaps out' v)"
        using w Inr t q v by (simp add: qa_iteration_def Let_def)
      show ?thesis
      proof (cases "qa_judge e st ?usage ev gaps out' v")
        fix r assume j: "qa_judge e st ?usage ev gaps out' v = Inl r"
        note r = qa_judge_result [OF j]
        have "judged e r"
          unfolding judged_def
          by (intro exI [of _ st] exI [of _ we] exI [of _ out] exI [of _ ev] exI [of _ gaps] exI [of _ out'] exI [of _ qe] exI [of _ v])
            (use assms(2) r w Inr t q v merge_checked in simp)
        then show ?thesis using it j r tag(2) by (simp add: run_promise_def)
      next
        fix st' assume "qa_judge e st ?usage ev gaps out' v = Inr st'"
        then show ?thesis using it qa_judge_inv [OF tag(2)] by simp
      qed
    qed
  qed
qed

lemma qa_loop_promise: "qa_inv e st \<Longrightarrow> qa_reaches e st \<Longrightarrow> run_promise e (qa_loop e st)"
proof (induction e st rule: qa_loop.induct)
  case (1 e st)
  show ?case
  proof (cases "qa_iteration e st")
    case (Inl f)
    then show ?thesis using qa_iteration_promise [OF 1(2,3)] by (simp add: qa_loop.simps [of e st])
  next
    case (Inr y)
    then show ?thesis using qa_iteration_promise [OF 1(2,3)] 1(1) [OF Inr] qa_reaches_again [OF 1(3)]
      by (cases y) (simp_all add: qa_loop.simps [of e st])
  qed
qed

text \<open>C27: A run of a worker with its QA agent ends after at most the configured number of retries, every usage event it reports belongs to
  one of its attempts, and each retry was started only while the mission budget covered its reservation. What it returns is the last worker
  answer as the QA agent judged it in that very attempt: the verdict is the QA model's own, except that an override of the deterministic
  evidence checks of that answer replaces it and that a \<open>PASS\<close> those checks want reviewed becomes \<open>NEEDS_REVIEW\<close>; so no model verdict but a
  \<open>PASS\<close> is ever reported as \<open>PASS\<close> without an override.\<close>

theorem worker_qa_contract:
  "case run_worker_with_qa e of
     Inl f \<Rightarrow> attempts_ok e (we_attempts_used f) (we_usage_events f)
   | Inr r \<Rightarrow> attempts_ok e (evr_attempts_used r) (evr_usage_events r) \<and> judged e r"
  unfolding run_worker_with_qa_def run_promise_def [symmetric]
  by (rule qa_loop_promise) (simp_all add: qa_inv_def qa_start_def retries_affordable_def qa_reaches_start [unfolded qa_start_def])

section \<open>Gaps resolved before count as new\<close>

text \<open>The keys of the gap table contain a colon, the types of gaps do not.\<close>

definition gap_key_form :: "string \<Rightarrow> bool" where
  "gap_key_form k = (\<exists>c t. k = c @ ''::'' @ t)"

definition good_gaps :: "gap_table \<Rightarrow> bool" where
  "good_gaps gaps = (tbl_unique fst gaps \<and> (\<forall>p \<in> set gaps. gap_key_form (fst p)))"

text \<open>What is kept of a table: its form, and its resolved gaps as they are.\<close>

definition keeps_resolved :: "gap_table \<Rightarrow> gap_table \<Rightarrow> bool" where
  "keeps_resolved gaps gaps' = (good_gaps gaps \<longrightarrow> good_gaps gaps' \<and>
     (\<forall>k g. (k, g) \<in> set gaps \<longrightarrow> eg_resolved g \<longrightarrow> (k, g) \<in> set gaps'))"

lemma keeps_resolved_refl: "keeps_resolved gaps gaps"
  by (simp add: keeps_resolved_def)

lemma keeps_resolved_trans: "keeps_resolved gaps gaps1 \<Longrightarrow> keeps_resolved gaps1 gaps2 \<Longrightarrow> keeps_resolved gaps gaps2"
  by (auto simp: keeps_resolved_def)

lemma gap_key_form: "gap_key_form (gap_key g)"
  by (auto simp: gap_key_form_def gap_key_def)

lemma keeps_resolved_put:
  assumes "tbl_get fst gaps (gap_key h) = Some (k0, old)" and "\<not> eg_resolved old"
  shows "keeps_resolved gaps (tbl_put fst gaps (gap_key h, new))"
  unfolding keeps_resolved_def
proof (intro impI conjI allI)
  assume good: "good_gaps gaps"
  have u: "tbl_unique fst gaps" using good by (simp add: good_gaps_def)
  have put: "fst p = gap_key h \<or> p \<in> set gaps" if "p \<in> set (tbl_put fst gaps (gap_key h, new))" for p
    using tbl_set_put [of fst gaps "(gap_key h, new)"] that by auto
  show "good_gaps (tbl_put fst gaps (gap_key h, new))"
    using good put gap_key_form unfolding good_gaps_def by (metis tbl_unique_put)
  fix k g assume m: "(k, g) \<in> set gaps" and r: "eg_resolved g"
  have "k \<noteq> gap_key h" using tbl_get_mem [OF u m] assms r by auto
  then have "tbl_get fst (tbl_put fst gaps (gap_key h, new)) k = Some (k, g)"
    using tbl_get_mem [OF u m] by (simp add: tbl_get_put)
  then show "(k, g) \<in> set (tbl_put fst gaps (gap_key h, new))" using tbl_get_SomeD by fastforce
qed

lemma keeps_resolved_snoc:
  "tbl_get fst gaps (gap_key g) = None \<Longrightarrow> keeps_resolved gaps (gaps @ [(gap_key g, g)])"
  by (auto simp: keeps_resolved_def good_gaps_def tbl_unique_def tbl_get_None_iff gap_key_form)

lemma keeps_resolved_merge: "keeps_resolved gaps (merge_gap g gaps)"
  by (auto simp: merge_gap_def keeps_resolved_refl keeps_resolved_snoc intro: keeps_resolved_put split: option.split)

lemma keeps_resolved_merges: "keeps_resolved gaps (merge_gaps gs gaps)"
  by (induction gs arbitrary: gaps)
     (auto simp: merge_gaps_def keeps_resolved_refl intro: keeps_resolved_trans [OF keeps_resolved_merge])

lemma keeps_resolved_resolve: "keeps_resolved gaps (resolve_gaps new gaps)"
proof -
  have "map fst (resolve_gaps new gaps) = map fst gaps" by (simp add: resolve_gaps_def case_prod_beta)
  moreover have "(k, g) \<in> set gaps \<Longrightarrow> eg_resolved g \<Longrightarrow> (k, g) \<in> set (resolve_gaps new gaps)" for k g
    by (force simp: resolve_gaps_def resolve_gap_def)
  moreover have "(\<forall>p \<in> set xs. gap_key_form (fst p)) \<longleftrightarrow> (\<forall>k \<in> set (map fst xs). gap_key_form k)" for xs :: gap_table
    by simp
  ultimately show ?thesis unfolding keeps_resolved_def good_gaps_def tbl_unique_def by metis
qed

lemma keeps_resolved_take: "take_evidence e st out = (ev, gaps, out') \<Longrightarrow> keeps_resolved (qs_gaps st) gaps"
  by (auto simp: take_evidence_def Let_def keeps_resolved_refl keeps_resolved_resolve split: option.splits list.splits)

lemma strong_type_no_key: "good_gaps gaps \<Longrightarrow> t \<in> set strong_gap_types \<Longrightarrow> (t, g) \<notin> set gaps"
proof
  assume k: "good_gaps gaps" and t: "t \<in> set strong_gap_types" and m: "(t, g) \<in> set gaps"
  obtain c u where "t = c @ ''::'' @ u" using k m by (auto simp: good_gaps_def gap_key_form_def)
  then have "CHR '':'' \<in> set t" by simp
  then show False using t by (auto simp: strong_gap_types_def)
qed

lemma resolved_not_worthless:
  assumes "good_gaps (qs_gaps st)" and "keeps_resolved (qs_gaps st) gaps"
    and "(k, g) \<in> set (qs_gaps st)" "eg_resolved g" "eg_gap_type g \<in> set strong_gap_types"
  shows "\<not> retry_worthless st out v gaps evidence"
proof -
  have "(k, g) \<in> set gaps" using assms by (simp add: keeps_resolved_def)
  then have "g \<in> set (newly_resolved (qs_gaps st) gaps)"
    using assms strong_type_no_key [OF assms(1,5)] by (force simp: newly_resolved_def Let_def)
  then show ?thesis using assms(5)
    by (auto simp: retry_worthless_def retry_has_expected_value_def split: option.splits)
qed

lemma qa_judge_gaps:
  "qa_judge e st usage evidence gaps out v = Inr st' \<Longrightarrow> keeps_resolved gaps (qs_gaps st')"
  by (auto simp: qa_judge_def Let_def split: if_splits option.splits
      intro: keeps_resolved_trans [OF keeps_resolved_merges keeps_resolved_merges])

lemma qa_iteration_judge:
  assumes "qa_iteration e st = Inr r"
  obtains usage ev gaps out v where "keeps_resolved (qs_gaps st) gaps" "qa_judge e st usage ev gaps out v = r"
  using assms keeps_resolved_take by (fastforce simp: qa_iteration_def Let_def split: prod.splits sum.splits)

lemma qa_reaches_good: "qa_reaches e st \<Longrightarrow> good_gaps (qs_gaps st)"
proof (induction rule: qa_reaches.induct)
  case (qa_reaches_again st st')
  then show ?case using qa_judge_gaps keeps_resolved_trans
    by (metis qa_iteration_judge keeps_resolved_def)
qed (simp add: qa_start_def good_gaps_def tbl_unique_def)

text \<open>C40: Once a quantitative gap was resolved in an earlier attempt, it is taken for newly resolved at every attempt after it: the run
  then never stops because another attempt has no value, whatever the scores and the evidence, but only on a \<open>PASS\<close>, on the last
  allowed retry or on the budget.\<close>

theorem resolved_gap_counts_forever:
  assumes "qa_reaches e st" and "(k, g) \<in> set (qs_gaps st)" "eg_resolved g" "eg_gap_type g \<in> set strong_gap_types"
    and "qa_iteration e st = Inr (Inl r)"
  shows "qv_verdict (evr_verdict r) = QA_PASS \<or> qe_max_retries e \<le> int (evr_attempts_used r) \<or> evr_budget_stopped_reason r \<noteq> None"
proof -
  obtain usage ev gaps out v where k: "keeps_resolved (qs_gaps st) gaps" and j: "qa_judge e st usage ev gaps out v = Inl r"
    using assms(5) by (rule qa_iteration_judge)
  have "keeps_resolved (qs_gaps st) (merge_gaps gs (merge_gaps hs gaps))" for gs hs
    using k keeps_resolved_merges keeps_resolved_trans by metis
  then have "\<not> retry_worthless st out' w (merge_gaps gs (merge_gaps hs gaps)) ev" for out' w gs hs
    using resolved_not_worthless [OF qa_reaches_good [OF assms(1)] _ assms(2-4)] by blast
  then show ?thesis using j by (auto simp: qa_judge_def Let_def split: if_splits option.splits)
qed

text \<open>A run with three attempts: the first reports a missing price, the second finds it, the third finds nothing.\<close>

definition price_gap :: evidence_gap where
  "price_gap = \<lparr>eg_claim_or_question = ''price?'', eg_gap_type = ''pricing'', eg_suggested_query = Some ''q'', eg_related_claim = None,
     eg_resolved = False, eg_supporting_evidence_ids = [], eg_candidate_id = None, eg_requirement_category = None\<rparr>"

definition price_page :: evidence_item where
  "price_page = \<lparr>ei_id = ''e'', ei_claim = ''5 USD'', ei_source_url = Some ''u'', ei_query_used = Some ''q'',
     ei_source_quality = ''UNKNOWN'', ei_evidence_depth = ''PAGE_EXTRACT''\<rparr>"

definition price_run :: qa_env where
  "price_run = \<lparr>qe_worker = (\<lambda>i. ([], Inr \<lparr>wo_fields = [], wo_evidence = Some (if ri_attempt i = 1 then [price_page] else []),
       wo_evidence_gaps = Some (if ri_attempt i = 0 then [price_gap] else [])\<rparr>)),
     qe_qa = (\<lambda>_ _. ([], Inr \<lparr>qv_verdict = QA_FAIL, qv_score = Fin 0, qv_issues = [], qv_unsupported_claims = [], qv_feedback = ''f''\<rparr>)),
     qe_evaluate_evidence = (\<lambda>_ _. \<lparr>ec_issues = [], ec_unsupported_claims = [], ec_needs_review = False, ec_gaps = [],
       ec_verdict_override = None\<rparr>), qe_canonical = id, qe_max_evidence_items = 5, qe_max_retries = 2, qe_mission_usage = None,
     qe_settings = \<lparr>max_api_calls_per_mission = 0, max_tokens_per_mission = 0, max_estimated_cost_per_mission_usd = None,
       daily_cost_limit_usd = None, budget_reserved_output_tokens = 0, budget_reservation_safety_margin_tokens = 0\<rparr>\<rparr>"

definition after_attempt :: "nat \<Rightarrow> qa_state" where
  "after_attempt n = \<lparr>qs_attempt = n, qs_feedback = Some ''f'', qs_usage = [], qs_evidence = (if n = 1 then [] else [price_page]),
     qs_gaps = [(''::pricing'', if n = 1 then price_gap else price_gap\<lparr>eg_resolved := True, eg_supporting_evidence_ids := [''e'']\<rparr>)],
     qs_previous = Some (\<lparr>wo_fields = [], wo_evidence = Some (if n = 1 then [] else [price_page]),
       wo_evidence_gaps = Some [if n = 1 then price_gap else price_gap\<lparr>eg_resolved := True, eg_supporting_evidence_ids := [''e'']\<rparr>]\<rparr>, Fin 0)\<rparr>"

lemmas price_defs = price_run_def price_gap_def price_page_def after_attempt_def qa_iteration_def qa_judge_def take_evidence_def
  run_input_of_def tag_usage_def merge_into_verdict_def merge_gaps_def merge_gap_def gap_key_def resolve_gaps_def resolve_gap_def
  gap_matches_def strong_gap_types_def merge_evidence_items_def prioritized_evidence_def retry_worthless_def retry_has_expected_value_def
  newly_resolved_def retry_budget_def Let_def tbl_get_Cons tbl_put_def tbl_upd_def float_gt_def

lemma price_run_steps:
  "qa_iteration price_run qa_start = Inr (Inr (after_attempt 1))"
  "qa_iteration price_run (after_attempt 1) = Inr (Inr (after_attempt 2))"
  by (simp add: qa_start_def price_defs, simp add: price_defs)

definition price_result :: evaluation_result where
  "price_result = \<lparr>evr_output = \<lparr>wo_fields = [], wo_evidence = Some [], wo_evidence_gaps = Some [price_gap\<lparr>eg_resolved := True,
       eg_supporting_evidence_ids := [''e'']\<rparr>]\<rparr>,
     evr_verdict = \<lparr>qv_verdict = QA_FAIL, qv_score = Fin 0, qv_issues = [], qv_unsupported_claims = [], qv_feedback = ''f''\<rparr>,
     evr_attempts_used = 2, evr_usage_events = [], evr_accumulated_evidence = [price_page], evr_budget_stopped_reason = None\<rparr>"

lemma price_run_ends: "qa_iteration price_run (after_attempt 2) = Inr (Inl price_result)"
  by (simp add: price_defs price_result_def)

theorem resolved_gap_counts_forever_witness:
  "qe_max_retries price_run \<le> int (evr_attempts_used price_result) \<and> qv_verdict (evr_verdict price_result) \<noteq> QA_PASS"
proof -
  have reach: "qa_reaches price_run (after_attempt 2)"
    using qa_reaches_start qa_reaches_again price_run_steps by metis
  have "(''::pricing'', price_gap\<lparr>eg_resolved := True, eg_supporting_evidence_ids := [''e'']\<rparr>) \<in> set (qs_gaps (after_attempt 2))"
    by (simp add: after_attempt_def)
  from resolved_gap_counts_forever [OF reach this _ _ price_run_ends] show ?thesis
    by (simp add: price_result_def price_gap_def strong_gap_types_def)
qed

text \<open>If the last attempt of a run finds nothing, the output returned carries no evidence at all, although every item that the attempts
  before it found is still in the total.\<close>

theorem empty_retry_drops_evidence:
  assumes "qa_iteration e st = Inr (Inl r)" and "qe_worker e (run_input_of st) = (us, Inr out)" "wo_evidence out = Some []"
  shows "wo_evidence (evr_output r) = Some [] \<and> evr_accumulated_evidence r = qs_evidence st"
  using assms by (auto simp: qa_iteration_def qa_judge_def Let_def take_evidence_def split: prod.splits sum.splits option.splits if_splits)

theorem empty_retry_drops_evidence_witness:
  "wo_evidence (evr_output price_result) = Some [] \<and> evr_accumulated_evidence price_result = [price_page]"
  using empty_retry_drops_evidence [OF price_run_ends]
  by (simp add: price_run_def after_attempt_def run_input_of_def)

end
