(* ===== verification/Task_Service.thy ===== *)
theory Task_Service
  imports Lifecycles Worker_QA Task_Planner
begin

text \<open>
  The persistent side of the task pipeline: the tables of \<open>app/database/models.py\<close> it uses, their repositories,
  \<open>app/services/task_service.py\<close>, \<open>approval_service.py\<close>, \<open>app/tools/task_tools.py\<close>, \<open>approval_tools.py\<close> and
  \<open>app/orchestration/dispatcher.py\<close>. An operation that raises gives \<open>Inl\<close>: the caller's transaction is not committed and
  the tables stay as they were. A JSON column holds the value its text stands for. Random ids are drawn from \<open>uuid\<close>, the
  table counting the draws.
\<close>

section \<open>Tables\<close>

type_synonym json_object = "(string \<times> json) list"

datatype task_approval_status = TA_PENDING | TA_APPROVED | TA_REJECTED
datatype agent_run_status = RUN_RUNNING | RUN_SUCCEEDED | RUN_FAILED

record task_row =
  tk_id :: string
  tk_project_id :: string
  tk_parent_task_id :: "string option"
  tk_agent_type :: string
  tk_title :: string
  tk_description :: "string option"
  tk_status :: task_status
  tk_priority :: task_priority
  tk_input_data :: "json_object option"
  tk_output_data :: "json_object option"
  tk_error :: "string option"
  tk_requires_approval :: bool
  tk_retry_count :: int
  tk_success_criteria :: "string option"
  tk_started_at :: "datetime option"
  tk_completed_at :: "datetime option"

record task_dependency =
  td_task_id :: string
  td_depends_on_task_id :: string

record task_approval =
  tv_id :: string
  tv_workspace_id :: string
  tv_task_id :: string
  tv_requested_action :: string
  tv_risk_level :: risk_level
  tv_status :: task_approval_status
  tv_reason :: "string option"
  tv_requested_at :: datetime
  tv_resolved_at :: "datetime option"
  tv_resolved_by :: "string option"
  tv_decision_reason :: "string option"

record agent_run =
  rn_id :: string
  rn_task_id :: string
  rn_agent_type :: string
  rn_status :: agent_run_status
  rn_input :: json_object
  rn_output :: "json_object option"
  rn_error :: "string option"
  rn_attempt :: int
  rn_completed_at :: "datetime option"

record usage_record =
  ur_workspace_id :: string
  ur_project_id :: string
  ur_task_id :: "string option"
  ur_agent_type :: string
  ur_provider :: string
  ur_model :: string
  ur_input_tokens :: "int option"
  ur_output_tokens :: "int option"
  ur_total_tokens :: "int option"
  ur_api_calls :: int
  ur_retry_number :: int
  ur_estimated_cost_usd :: "py_float option"
  ur_created_at :: datetime

record evidence_row =
  ev_workspace_id :: string
  ev_project_id :: string
  ev_task_id :: string
  ev_item :: evidence_item

datatype memory_type = MEM_FACT | MEM_DECISION | MEM_PREFERENCE | MEM_PROJECT_KNOWLEDGE | MEM_LESSON | MEM_RESEARCH | MEM_INSTRUCTION

record memory_row =
  mm_id :: string
  mm_workspace_id :: string
  mm_type :: memory_type
  mm_title :: string
  mm_content :: string
  mm_source :: "string option"
  mm_importance :: int
  mm_created_at :: datetime

datatype task_event_type = OBJECTIVE_PLAN_CREATED | TASK_CREATED | TASK_STARTED | TASK_COMPLETED | TASK_FAILED
  | TASK_CANCELLED | TASK_APPROVAL_REQUESTED | TASK_APPROVAL_GRANTED | TASK_APPROVAL_REJECTED
  | REPORT_GENERATED | BUDGET_LIMIT_REACHED | EVIDENCE_STORED | MEMORY_CREATED

record task_event =
  tx_workspace_id :: string
  tx_actor_type :: string
  tx_actor_id :: "string option"
  tx_event_type :: task_event_type
  tx_entity_type :: string
  tx_entity_id :: string
  tx_metadata :: "json_object option"

record task_db =
  tb_tasks :: "task_row list"
  tb_dependencies :: "task_dependency list"
  tb_approvals :: "task_approval list"
  tb_runs :: "agent_run list"
  tb_usage :: "usage_record list"
  tb_evidence :: "evidence_row list"
  tb_memories :: "memory_row list"
  tb_events :: "task_event list"
  tb_draws :: nat

datatype service_error =
    TaskNotFound string
  | TaskTransitionRefused task_status task_status
  | ApprovalNotFound string
  | ApprovalAlreadyResolved string task_approval_status
  | AgentRefused registry_error
  | IntegrityError
  | PlanKeyError string

section \<open>Repositories\<close>

definition record_event :: "task_event \<Rightarrow> task_db \<Rightarrow> task_db" where
  "record_event e db = db\<lparr>tb_events := tb_events db @ [e]\<rparr>"

definition drawn :: "task_db \<Rightarrow> task_db" where
  "drawn db = db\<lparr>tb_draws := Suc (tb_draws db)\<rparr>"

definition get_task :: "task_db \<Rightarrow> string \<Rightarrow> task_row option" where
  "get_task db i = tbl_get tk_id (tb_tasks db) i"

definition list_project_tasks :: "task_db \<Rightarrow> string \<Rightarrow> task_row list" where
  "list_project_tasks db project = [t \<leftarrow> tb_tasks db. tk_project_id t = project]"

definition insert_task :: "task_row \<Rightarrow> task_db \<Rightarrow> service_error + task_db" where
  "insert_task t db = (case tbl_insert tk_id (tb_tasks db) t of
     None \<Rightarrow> Inl IntegrityError | Some ts \<Rightarrow> Inr (drawn (db\<lparr>tb_tasks := ts\<rparr>)))"

definition dependency_pair :: "task_dependency \<Rightarrow> string \<times> string" where
  "dependency_pair d = (td_task_id d, td_depends_on_task_id d)"

definition add_dependency :: "string \<Rightarrow> string \<Rightarrow> task_db \<Rightarrow> service_error + task_db" where
  "add_dependency i dep db =
     (case tbl_insert dependency_pair (tb_dependencies db) \<lparr>td_task_id = i, td_depends_on_task_id = dep\<rparr> of
        None \<Rightarrow> Inl IntegrityError | Some ds \<Rightarrow> Inr (db\<lparr>tb_dependencies := ds\<rparr>))"

fun add_dependencies :: "string \<Rightarrow> string list \<Rightarrow> task_db \<Rightarrow> service_error + task_db" where
  "add_dependencies i [] db = Inr db"
| "add_dependencies i (d # ds) db = bind_sum (add_dependency i d db) (add_dependencies i ds)"

definition get_dependencies :: "task_db \<Rightarrow> string \<Rightarrow> string list" where
  "get_dependencies db i = [td_depends_on_task_id d. d \<leftarrow> tb_dependencies db, td_task_id d = i]"

text \<open>A flush writes the columns whose value differs from the one the session loaded.\<close>

definition flush_column :: "'a \<Rightarrow> 'a \<Rightarrow> 'a \<Rightarrow> 'a" where
  "flush_column loaded assigned stored = (if assigned = loaded then stored else assigned)"

definition or_loaded :: "'a option \<Rightarrow> 'a option \<Rightarrow> 'a option" where
  "or_loaded assigned loaded = (if assigned = None then loaded else assigned)"

text \<open>\<open>TaskRepository.update_status\<close> on the row the session holds, and the UPDATE it flushes.\<close>

definition assign_status :: "task_status \<Rightarrow> json_object option \<Rightarrow> string option \<Rightarrow> datetime option \<Rightarrow> datetime option \<Rightarrow>
    task_row \<Rightarrow> task_row" where
  "assign_status status output_data error started_at completed_at t = t\<lparr>tk_status := status,
     tk_output_data := or_loaded output_data (tk_output_data t), tk_error := or_loaded error (tk_error t),
     tk_started_at := or_loaded started_at (tk_started_at t), tk_completed_at := or_loaded completed_at (tk_completed_at t)\<rparr>"

definition flush_task :: "task_row \<Rightarrow> task_row \<Rightarrow> task_db \<Rightarrow> task_db" where
  "flush_task loaded assigned db = db\<lparr>tb_tasks := tbl_upd tk_id (tb_tasks db) (tk_id loaded) (\<lambda>r. r\<lparr>
     tk_status := flush_column (tk_status loaded) (tk_status assigned) (tk_status r),
     tk_output_data := flush_column (tk_output_data loaded) (tk_output_data assigned) (tk_output_data r),
     tk_error := flush_column (tk_error loaded) (tk_error assigned) (tk_error r),
     tk_retry_count := flush_column (tk_retry_count loaded) (tk_retry_count assigned) (tk_retry_count r),
     tk_started_at := flush_column (tk_started_at loaded) (tk_started_at assigned) (tk_started_at r),
     tk_completed_at := flush_column (tk_completed_at loaded) (tk_completed_at assigned) (tk_completed_at r)\<rparr>)\<rparr>"

definition insert_approval :: "(nat \<Rightarrow> string) \<Rightarrow> datetime \<Rightarrow> string \<Rightarrow> string \<Rightarrow> string \<Rightarrow> risk_level \<Rightarrow> string option \<Rightarrow>
    task_db \<Rightarrow> task_approval \<times> task_db" where
  "insert_approval uuid now workspace i action risk reason db =
     (let a = \<lparr>tv_id = uuid (tb_draws db), tv_workspace_id = workspace, tv_task_id = i, tv_requested_action = action,
        tv_risk_level = risk, tv_status = TA_PENDING, tv_reason = reason, tv_requested_at = now, tv_resolved_at = None,
        tv_resolved_by = None, tv_decision_reason = None\<rparr>
      in (a, drawn (db\<lparr>tb_approvals := tb_approvals db @ [a]\<rparr>)))"

definition get_task_approval :: "task_db \<Rightarrow> string \<Rightarrow> task_approval option" where
  "get_task_approval db i = tbl_get tv_id (tb_approvals db) i"

text \<open>\<open>order_by(requested_at.desc()).first()\<close>.\<close>

fun latest :: "task_approval list \<Rightarrow> task_approval option" where
  "latest [] = None"
| "latest (a # as) = (case latest as of None \<Rightarrow> Some a
     | Some b \<Rightarrow> Some (if tv_requested_at a < tv_requested_at b then b else a))"

definition get_for_task :: "task_db \<Rightarrow> string \<Rightarrow> task_approval option" where
  "get_for_task db i = latest [a \<leftarrow> tb_approvals db. tv_task_id a = i]"

definition resolve_approval :: "datetime \<Rightarrow> task_approval_status \<Rightarrow> string \<Rightarrow> string option \<Rightarrow> string \<Rightarrow> task_db \<Rightarrow> task_db" where
  "resolve_approval now status by_whom reason i db = db\<lparr>tb_approvals := tbl_upd tv_id (tb_approvals db) i (\<lambda>a. a\<lparr>
     tv_status := status, tv_resolved_by := Some by_whom, tv_decision_reason := reason, tv_resolved_at := Some now\<rparr>)\<rparr>"

definition list_workspace_approvals :: "task_db \<Rightarrow> string \<Rightarrow> task_approval_status option \<Rightarrow> task_approval list" where
  "list_workspace_approvals db workspace status =
     [a \<leftarrow> tb_approvals db. tv_workspace_id a = workspace \<and> (status = None \<or> Some (tv_status a) = status)]"

definition insert_run :: "(nat \<Rightarrow> string) \<Rightarrow> string \<Rightarrow> string \<Rightarrow> json_object \<Rightarrow> task_db \<Rightarrow> string \<times> task_db" where
  "insert_run uuid i agent_type input db = (uuid (tb_draws db), drawn (db\<lparr>tb_runs := tb_runs db @
     [\<lparr>rn_id = uuid (tb_draws db), rn_task_id = i, rn_agent_type = agent_type, rn_status = RUN_RUNNING, rn_input = input,
       rn_output = None, rn_error = None, rn_attempt = 1, rn_completed_at = None\<rparr>]\<rparr>))"

definition complete_run :: "datetime \<Rightarrow> string \<Rightarrow> agent_run_status \<Rightarrow> json_object option \<Rightarrow> string option \<Rightarrow> task_db \<Rightarrow> task_db" where
  "complete_run now i status output error db = db\<lparr>tb_runs := tbl_upd rn_id (tb_runs db) i (\<lambda>r. r\<lparr>
     rn_status := status, rn_output := output, rn_error := error, rn_completed_at := Some now\<rparr>)\<rparr>"

definition list_task_runs :: "task_db \<Rightarrow> string \<Rightarrow> agent_run list" where
  "list_task_runs db i = [r \<leftarrow> tb_runs db. rn_task_id r = i]"

section \<open>TaskService\<close>

definition transition_event :: "task_status \<Rightarrow> task_event_type option" where
  "transition_event status = (case status of TS_RUNNING \<Rightarrow> Some TASK_STARTED | TS_COMPLETED \<Rightarrow> Some TASK_COMPLETED
     | TS_FAILED \<Rightarrow> Some TASK_FAILED | TS_CANCELLED \<Rightarrow> Some TASK_CANCELLED | _ \<Rightarrow> None)"

text \<open>\<open>transition\<close> of the row the session holds: the row it holds afterwards, and the database. The state machine is asked about the
  status the session loaded.\<close>

definition transition_loaded :: "datetime \<Rightarrow> string \<Rightarrow> task_row \<Rightarrow> task_status \<Rightarrow> json_object option \<Rightarrow> string option \<Rightarrow>
    task_db \<Rightarrow> service_error + task_row \<times> task_db" where
  "transition_loaded now workspace t new_status output_data error db =
     (case assert_task_transition (tk_status t) new_status of
        Inl (InvalidTransitionError current target) \<Rightarrow> Inl (TaskTransitionRefused current target)
      | Inr _ \<Rightarrow>
          (let started_at = (if new_status = TS_RUNNING \<and> tk_started_at t = None then Some now else None);
               completed_at = (if new_status \<in> {TS_COMPLETED, TS_FAILED, TS_CANCELLED} then Some now else None);
               t' = assign_status new_status output_data error started_at completed_at t;
               db' = flush_task t t' db
           in Inr (t', case transition_event new_status of
                None \<Rightarrow> db'
              | Some e \<Rightarrow> record_event \<lparr>tx_workspace_id = workspace, tx_actor_type = ''system'', tx_actor_id = None,
                  tx_event_type = e, tx_entity_type = ''task'', tx_entity_id = tk_id t,
                  tx_metadata = map_option (\<lambda>m. [(''error'', JStr m)]) (case error of Some [] \<Rightarrow> None | m \<Rightarrow> m)\<rparr> db')))"

definition transition :: "datetime \<Rightarrow> string \<Rightarrow> string \<Rightarrow> task_status \<Rightarrow> json_object option \<Rightarrow> string option \<Rightarrow>
    task_db \<Rightarrow> service_error + task_row \<times> task_db" where
  "transition now workspace i new_status output_data error db = (case get_task db i of
     None \<Rightarrow> Inl (TaskNotFound i)
   | Some t \<Rightarrow> transition_loaded now workspace t new_status output_data error db)"

record new_task =
  nt_project_id :: string
  nt_title :: string
  nt_agent_type :: string
  nt_description :: "string option"
  nt_priority :: task_priority
  nt_requires_approval :: bool
  nt_parent_task_id :: "string option"
  nt_input_data :: "json_object option"
  nt_success_criteria :: "string option"
  nt_depends_on_task_ids :: "string list"

definition fresh_task :: "string \<Rightarrow> new_task \<Rightarrow> task_row" where
  "fresh_task i n = \<lparr>tk_id = i, tk_project_id = nt_project_id n, tk_parent_task_id = nt_parent_task_id n,
     tk_agent_type = nt_agent_type n, tk_title = nt_title n, tk_description = nt_description n, tk_status = TS_PENDING,
     tk_priority = nt_priority n, tk_input_data = nt_input_data n, tk_output_data = None, tk_error = None,
     tk_requires_approval = nt_requires_approval n, tk_retry_count = 0, tk_success_criteria = nt_success_criteria n,
     tk_started_at = None, tk_completed_at = None\<rparr>"

definition create_task :: "(nat \<Rightarrow> string) \<Rightarrow> datetime \<Rightarrow> string \<Rightarrow> new_task \<Rightarrow> task_db \<Rightarrow> service_error + string \<times> task_db" where
  "create_task uuid now workspace n db = (let i = uuid (tb_draws db) in
     bind_sum (insert_task (fresh_task i n) db) (\<lambda>db.
     bind_sum (add_dependencies i (nt_depends_on_task_ids n) db) (\<lambda>db.
     bind_sum (transition now workspace i TS_PLANNED None None (record_event \<lparr>tx_workspace_id = workspace,
       tx_actor_type = ''jarvis'', tx_actor_id = None, tx_event_type = TASK_CREATED, tx_entity_type = ''task'', tx_entity_id = i,
       tx_metadata = Some [(''title'', JStr (nt_title n)), (''agent_type'', JStr (nt_agent_type n))]\<rparr> db)) (\<lambda>(_, db).
     Inr (i, db)))))"

definition dependencies_met :: "task_db \<Rightarrow> string \<Rightarrow> bool" where
  "dependencies_met db i = (\<forall>dep \<in> set (get_dependencies db i).
     case get_task db dep of None \<Rightarrow> False | Some t \<Rightarrow> tk_status t = TS_COMPLETED)"

section \<open>ApprovalService\<close>

definition request_task_approval :: "(nat \<Rightarrow> string) \<Rightarrow> datetime \<Rightarrow> string \<Rightarrow> task_row \<Rightarrow> string \<Rightarrow> risk_level \<Rightarrow> string option \<Rightarrow>
    task_db \<Rightarrow> service_error + task_approval \<times> task_db" where
  "request_task_approval uuid now workspace t action risk reason db =
     (case insert_approval uuid now workspace (tk_id t) action risk reason db of (a, db) \<Rightarrow>
      bind_sum (transition_loaded now workspace t TS_NEEDS_APPROVAL None None db) (\<lambda>(_, db).
      Inr (a, record_event \<lparr>tx_workspace_id = workspace, tx_actor_type = ''jarvis'', tx_actor_id = None,
        tx_event_type = TASK_APPROVAL_REQUESTED, tx_entity_type = ''approval'', tx_entity_id = tv_id a,
        tx_metadata = Some [(''task_id'', JStr (tk_id t)), (''risk_level'', JStr (risk_level_value risk))]\<rparr> db)))"

text \<open>\<open>approve\<close> and \<open>reject\<close>.\<close>

definition resolve_pending :: "datetime \<Rightarrow> task_approval_status \<Rightarrow> task_status \<Rightarrow> string option \<Rightarrow> task_event_type \<Rightarrow>
    string \<Rightarrow> string option \<Rightarrow> string \<Rightarrow> task_db \<Rightarrow> service_error + task_db" where
  "resolve_pending now status task_status error event by_whom reason i db = (case get_task_approval db i of
     None \<Rightarrow> Inl (ApprovalNotFound i)
   | Some a \<Rightarrow>
       if tv_status a \<noteq> TA_PENDING then Inl (ApprovalAlreadyResolved i (tv_status a))
       else bind_sum (transition now (tv_workspace_id a) (tv_task_id a) task_status None error
              (resolve_approval now status by_whom reason i db)) (\<lambda>(_, db).
            Inr (record_event \<lparr>tx_workspace_id = tv_workspace_id a, tx_actor_type = ''human'', tx_actor_id = Some by_whom,
              tx_event_type = event, tx_entity_type = ''approval'', tx_entity_id = i,
              tx_metadata = Some [(''task_id'', JStr (tv_task_id a)), (''reason'', case reason of None \<Rightarrow> JNull | Some r \<Rightarrow> JStr r)]\<rparr> db)))"

definition approve_task :: "datetime \<Rightarrow> string \<Rightarrow> string \<Rightarrow> string option \<Rightarrow> task_db \<Rightarrow> service_error + task_db" where
  "approve_task now i by_whom reason = resolve_pending now TA_APPROVED TS_READY None TASK_APPROVAL_GRANTED by_whom reason i"

definition reject_task :: "datetime \<Rightarrow> string \<Rightarrow> string \<Rightarrow> string option \<Rightarrow> task_db \<Rightarrow> service_error + task_db" where
  "reject_task now i by_whom reason = resolve_pending now TA_REJECTED TS_FAILED
     (Some (''Approval rejected: '' @ str_or (case reason of None \<Rightarrow> [] | Some r \<Rightarrow> r) ''no reason given''))
     TASK_APPROVAL_REJECTED by_whom reason i"

section \<open>The agents' tools\<close>

definition with_permission :: "type_registry \<Rightarrow> string \<Rightarrow> permission_level \<Rightarrow> service_error + 'a \<Rightarrow> service_error + 'a" where
  "with_permission reg acting p r = (case check_permission reg acting p of Inl e \<Rightarrow> Inl (AgentRefused e) | Inr _ \<Rightarrow> r)"

definition create_task_tool :: "type_registry \<Rightarrow> string \<Rightarrow> (nat \<Rightarrow> string) \<Rightarrow> datetime \<Rightarrow> string \<Rightarrow> new_task \<Rightarrow> task_db \<Rightarrow>
    service_error + string \<times> task_db" where
  "create_task_tool reg acting uuid now workspace n db = with_permission reg acting WRITE (create_task uuid now workspace n db)"

definition update_task_status_tool :: "type_registry \<Rightarrow> string \<Rightarrow> datetime \<Rightarrow> string \<Rightarrow> string \<Rightarrow> task_status \<Rightarrow>
    json_object option \<Rightarrow> string option \<Rightarrow> task_db \<Rightarrow> service_error + task_row \<times> task_db" where
  "update_task_status_tool reg acting now workspace i status output_data error db =
     with_permission reg acting WRITE (transition now workspace i status output_data error db)"

definition get_task_tool :: "type_registry \<Rightarrow> string \<Rightarrow> string \<Rightarrow> task_db \<Rightarrow> service_error + task_row option" where
  "get_task_tool reg acting i db = with_permission reg acting READ (Inr (get_task db i))"

definition list_tasks_tool :: "type_registry \<Rightarrow> string \<Rightarrow> string \<Rightarrow> task_db \<Rightarrow> service_error + task_row list" where
  "list_tasks_tool reg acting project db = with_permission reg acting READ (Inr (list_project_tasks db project))"

definition request_approval_tool :: "type_registry \<Rightarrow> string \<Rightarrow> (nat \<Rightarrow> string) \<Rightarrow> datetime \<Rightarrow> string \<Rightarrow> string \<Rightarrow> string \<Rightarrow>
    risk_level \<Rightarrow> string option \<Rightarrow> task_db \<Rightarrow> service_error + task_approval \<times> task_db" where
  "request_approval_tool reg acting uuid now workspace i action risk reason db = with_permission reg acting WRITE
     (case get_task db i of
        None \<Rightarrow> Inl (TaskNotFound i)
      | Some t \<Rightarrow> request_task_approval uuid now workspace t action risk reason db)"

section \<open>The dispatcher\<close>

definition gate_required :: "bool \<Rightarrow> string \<Rightarrow> bool" where
  "gate_required flagged txt = (flagged \<or> requires_human_approval txt)"

definition task_of_plan :: "string \<Rightarrow> task_plan \<Rightarrow> new_task" where
  "task_of_plan project p = \<lparr>nt_project_id = project, nt_title = tp_title p, nt_agent_type = tp_agent_type p,
     nt_description = Some (tp_description p), nt_priority = tp_priority p,
     nt_requires_approval = gate_required (tp_requires_approval p) (tp_title p @ '' '' @ tp_description p),
     nt_parent_task_id = None, nt_input_data = map_option (\<lambda>m. [(''research_mode'', JStr m)]) (tp_research_mode p),
     nt_success_criteria = Some (tp_success_criteria p), nt_depends_on_task_ids = []\<rparr>"

text \<open>The first loop: a task per plan entry, and the dict from keys to task ids.\<close>

fun persist_tasks :: "(nat \<Rightarrow> string) \<Rightarrow> datetime \<Rightarrow> string \<Rightarrow> string \<Rightarrow> task_plan list \<Rightarrow> (string \<times> string) list \<Rightarrow> task_db \<Rightarrow>
    service_error + (string \<times> string) list \<times> task_db" where
  "persist_tasks uuid now workspace project [] ids db = Inr (ids, db)"
| "persist_tasks uuid now workspace project (p # ps) ids db =
     bind_sum (create_task uuid now workspace (task_of_plan project p) db) (\<lambda>(i, db).
       persist_tasks uuid now workspace project ps (tbl_put fst ids (tp_key p, i)) db)"

definition task_for_key :: "(string \<times> string) list \<Rightarrow> string \<Rightarrow> service_error + string" where
  "task_for_key ids k = (case tbl_get fst ids k of None \<Rightarrow> Inl (PlanKeyError k) | Some (_, i) \<Rightarrow> Inr i)"

fun link_task :: "(string \<times> string) list \<Rightarrow> string \<Rightarrow> string list \<Rightarrow> task_db \<Rightarrow> service_error + task_db" where
  "link_task ids i [] db = Inr db"
| "link_task ids i (k # ks) db = bind_sum (task_for_key ids k) (\<lambda>d. bind_sum (add_dependency i d db) (link_task ids i ks))"

fun link_tasks :: "(string \<times> string) list \<Rightarrow> task_plan list \<Rightarrow> task_db \<Rightarrow> service_error + task_db" where
  "link_tasks ids [] db = Inr db"
| "link_tasks ids (p # ps) db = bind_sum (task_for_key ids (tp_key p)) (\<lambda>i.
     bind_sum (link_task ids i (tp_dependencies p) db) (link_tasks ids ps))"

definition persist_plan :: "(nat \<Rightarrow> string) \<Rightarrow> datetime \<Rightarrow> string \<Rightarrow> string \<Rightarrow> execution_plan \<Rightarrow> task_db \<Rightarrow>
    service_error + (string \<times> string) list \<times> task_db" where
  "persist_plan uuid now workspace project plan db =
     bind_sum (persist_tasks uuid now workspace project (ep_tasks plan) [] db) (\<lambda>(ids, db).
     bind_sum (link_tasks ids (ep_tasks plan) db) (\<lambda>db.
     Inr (ids, record_event \<lparr>tx_workspace_id = workspace, tx_actor_type = ''jarvis'', tx_actor_id = None,
       tx_event_type = OBJECTIVE_PLAN_CREATED, tx_entity_type = ''project'', tx_entity_id = project,
       tx_metadata = Some [(''task_count'', JInt (int (length (ep_tasks plan)))), (''objective'', JStr (ep_objective plan))]\<rparr> db)))"

text \<open>\<open>promote_ready_tasks\<close>: the loop over the listed tasks, and the ids promoted.\<close>

fun promote_each :: "datetime \<Rightarrow> string \<Rightarrow> task_row list \<Rightarrow> task_db \<Rightarrow> service_error + string list \<times> task_db" where
  "promote_each now workspace [] db = Inr ([], db)"
| "promote_each now workspace (t # ts) db =
     (if tk_status t \<noteq> TS_PLANNED \<or> \<not> dependencies_met db (tk_id t) then promote_each now workspace ts db
      else bind_sum (transition_loaded now workspace t TS_READY None None db) (\<lambda>(_, db).
        bind_sum (promote_each now workspace ts db) (\<lambda>(ids, db). Inr (tk_id t # ids, db))))"

definition promote_ready_tasks :: "datetime \<Rightarrow> string \<Rightarrow> string \<Rightarrow> task_db \<Rightarrow> service_error + string list \<times> task_db" where
  "promote_ready_tasks now workspace project db = promote_each now workspace (list_project_tasks db project) db"

definition get_ready_tasks :: "task_db \<Rightarrow> string \<Rightarrow> string list" where
  "get_ready_tasks db project = [tk_id t. t \<leftarrow> list_project_tasks db project, tk_status t = TS_READY]"

definition is_project_finished :: "task_db \<Rightarrow> string \<Rightarrow> bool" where
  "is_project_finished db project =
     (let unfinished = [t \<leftarrow> list_project_tasks db project. tk_status t \<notin> {TS_COMPLETED, TS_FAILED, TS_CANCELLED}]
      in \<forall>t \<in> set unfinished. tk_status t = TS_NEEDS_APPROVAL)"

end
