(* ===== verification/Mission_Records.thy ===== *)
theory Mission_Records
  imports Task_Service
begin

text \<open>
  What a mission records besides its tasks: model usage with its cost (\<open>app/services/usage_service.py\<close>, \<open>app/config/pricing.py\<close>),
  evidence (\<open>evidence_service.py\<close>) and memories (\<open>memory_service.py\<close>, \<open>app/memory\<close>), with their repositories. The SUM of
  floats is the database's and a parameter: engines differ in how they round it.
\<close>

section \<open>Cost\<close>

fun float_mult :: "py_float \<Rightarrow> py_float \<Rightarrow> py_float" where
  "float_mult (Fin a) (Fin b) = round64 (a * b)"
| "float_mult NaN _ = NaN"
| "float_mult _ NaN = NaN"
| "float_mult (Fin a) y = (if a = 0 then NaN else if 0 < a then y else float_neg y)"
| "float_mult x (Fin b) = (if b = 0 then NaN else if 0 < b then x else float_neg x)"
| "float_mult x y = (if x = y then PInf else NInf)"

record model_pricing =
  input_per_million_usd :: py_float
  output_per_million_usd :: py_float

type_synonym pricing_table = "(string \<times> model_pricing) list"

text \<open>The quotient of two integers is rounded once.\<close>

definition estimate_cost_usd :: "pricing_table \<Rightarrow> string \<Rightarrow> int option \<Rightarrow> int option \<Rightarrow> py_float option" where
  "estimate_cost_usd table model input_tokens output_tokens = (case (input_tokens, output_tokens) of
     (Some i, Some j) \<Rightarrow> (case tbl_get fst table model of
         None \<Rightarrow> None
       | Some (_, p) \<Rightarrow> Some (float_add (float_mult (round64 (of_int i / 1000000)) (input_per_million_usd p))
           (float_mult (round64 (of_int j / 1000000)) (output_per_million_usd p))))
   | _ \<Rightarrow> None)"

section \<open>Usage\<close>

definition usage_of_event :: "pricing_table \<Rightarrow> datetime \<Rightarrow> string \<Rightarrow> string \<Rightarrow> string option \<Rightarrow> string \<Rightarrow> model_usage \<Rightarrow> usage_record" where
  "usage_of_event table now workspace project i agent_type u = \<lparr>ur_workspace_id = workspace, ur_project_id = project, ur_task_id = i,
     ur_agent_type = agent_type, ur_provider = mu_provider u, ur_model = mu_model u, ur_input_tokens = mu_input_tokens u,
     ur_output_tokens = mu_output_tokens u, ur_total_tokens = mu_total_tokens u, ur_api_calls = mu_api_calls u,
     ur_retry_number = int (mu_retry_number u),
     ur_estimated_cost_usd = estimate_cost_usd table (mu_model u) (mu_input_tokens u) (mu_output_tokens u), ur_created_at = now\<rparr>"

definition record_usage :: "pricing_table \<Rightarrow> datetime \<Rightarrow> string \<Rightarrow> string \<Rightarrow> string option \<Rightarrow> string \<Rightarrow> model_usage list \<Rightarrow> task_db \<Rightarrow> task_db" where
  "record_usage table now workspace project i agent_type events db =
     db\<lparr>tb_usage := tb_usage db @ map (usage_of_event table now workspace project i agent_type) events\<rparr>"

definition list_project_usage :: "task_db \<Rightarrow> string \<Rightarrow> usage_record list" where
  "list_project_usage db project = [r \<leftarrow> tb_usage db. ur_project_id r = project]"

definition or_zero :: "int option \<Rightarrow> int" where
  "or_zero x = (case x of None \<Rightarrow> 0 | Some i \<Rightarrow> i)"

definition sum_costs :: "(py_float list \<Rightarrow> py_float) \<Rightarrow> py_float option list \<Rightarrow> py_float option" where
  "sum_costs sql_sum costs = (case [c. Some c \<leftarrow> costs] of [] \<Rightarrow> None | cs \<Rightarrow> Some (sql_sum cs))"

definition totals_for_project :: "(py_float list \<Rightarrow> py_float) \<Rightarrow> task_db \<Rightarrow> string \<Rightarrow> usage_totals" where
  "totals_for_project sql_sum db project = (let rs = list_project_usage db project in no_usage\<lparr>
     ut_api_calls := sum_list (map ur_api_calls rs), ut_input_tokens := sum_list (map (or_zero \<circ> ur_input_tokens) rs),
     ut_output_tokens := sum_list (map (or_zero \<circ> ur_output_tokens) rs), ut_total_tokens := sum_list (map (or_zero \<circ> ur_total_tokens) rs),
     ut_estimated_cost_usd := sum_costs sql_sum (map ur_estimated_cost_usd rs)\<rparr>)"

definition start_of_day :: "datetime \<Rightarrow> datetime" where
  "start_of_day now = now div 86400000000 * 86400000000"

definition cost_today :: "(py_float list \<Rightarrow> py_float) \<Rightarrow> datetime \<Rightarrow> task_db \<Rightarrow> string \<Rightarrow> py_float option" where
  "cost_today sql_sum now db workspace = sum_costs sql_sum
     [ur_estimated_cost_usd r. r \<leftarrow> tb_usage db, ur_workspace_id r = workspace \<and> start_of_day now \<le> ur_created_at r]"

text \<open>The two breakdowns: buckets in the order of their first record. The second also tells first calls from retries.\<close>

definition add_to_bucket :: "usage_record \<Rightarrow> usage_totals \<Rightarrow> usage_totals" where
  "add_to_bucket r t = t\<lparr>ut_api_calls := ut_api_calls t + ur_api_calls r, ut_input_tokens := ut_input_tokens t + or_zero (ur_input_tokens r),
     ut_output_tokens := ut_output_tokens t + or_zero (ur_output_tokens r),
     ut_total_tokens := ut_total_tokens t + or_zero (ur_total_tokens r)\<rparr>"

definition count_call :: "usage_record \<Rightarrow> usage_totals \<Rightarrow> usage_totals" where
  "count_call r t = (if ur_retry_number r = 0 then t\<lparr>ut_initial_calls := ut_initial_calls t + ur_api_calls r\<rparr>
     else t\<lparr>ut_retry_calls := ut_retry_calls t + ur_api_calls r\<rparr>)"

definition bucket_by :: "(usage_record \<Rightarrow> 'k) \<Rightarrow> (usage_record \<Rightarrow> usage_totals \<Rightarrow> usage_totals) \<Rightarrow> usage_record list \<Rightarrow>
    ('k \<times> usage_totals) list" where
  "bucket_by key add rs = fold (\<lambda>r bs. tbl_put fst bs (key r, add r (case tbl_get fst bs (key r) of None \<Rightarrow> no_usage | Some (_, t) \<Rightarrow> t))) rs []"

definition breakdown_by_agent :: "task_db \<Rightarrow> string \<Rightarrow> (string \<times> usage_totals) list" where
  "breakdown_by_agent db project = bucket_by ur_agent_type add_to_bucket (list_project_usage db project)"

definition breakdown_by_agent_and_provider :: "task_db \<Rightarrow> string \<Rightarrow> ((string \<times> string \<times> string) \<times> usage_totals) list" where
  "breakdown_by_agent_and_provider db project = bucket_by (\<lambda>r. (ur_agent_type r, ur_provider r, ur_model r))
     (\<lambda>r. count_call r \<circ> add_to_bucket r) (list_project_usage db project)"

section \<open>Evidence\<close>

definition insert_evidence :: "string \<Rightarrow> string \<Rightarrow> string \<Rightarrow> evidence_item \<Rightarrow> task_db \<Rightarrow> service_error + task_db" where
  "insert_evidence workspace project i item db = (case tbl_insert (ei_id \<circ> ev_item) (tb_evidence db)
       \<lparr>ev_workspace_id = workspace, ev_project_id = project, ev_task_id = i, ev_item = item\<rparr> of
     None \<Rightarrow> Inl IntegrityError | Some es \<Rightarrow> Inr (db\<lparr>tb_evidence := es\<rparr>))"

fun insert_all_evidence :: "string \<Rightarrow> string \<Rightarrow> string \<Rightarrow> evidence_item list \<Rightarrow> task_db \<Rightarrow> service_error + task_db" where
  "insert_all_evidence workspace project i [] db = Inr db"
| "insert_all_evidence workspace project i (x # xs) db =
     bind_sum (insert_evidence workspace project i x db) (insert_all_evidence workspace project i xs)"

definition store_evidence :: "string \<Rightarrow> string \<Rightarrow> string \<Rightarrow> evidence_item list \<Rightarrow> task_db \<Rightarrow> service_error + task_db" where
  "store_evidence workspace project i items db =
     (if items = [] then Inr db
      else bind_sum (insert_all_evidence workspace project i items db) (\<lambda>db.
        Inr (record_event \<lparr>tx_workspace_id = workspace, tx_actor_type = ''research'', tx_actor_id = None, tx_event_type = EVIDENCE_STORED,
          tx_entity_type = ''task'', tx_entity_id = i,
          tx_metadata = Some [(''count'', JInt (int (length items))), (''project_id'', JStr project)]\<rparr> db)))"

definition list_project_evidence :: "task_db \<Rightarrow> string \<Rightarrow> evidence_row list" where
  "list_project_evidence db project = [e \<leftarrow> tb_evidence db. ev_project_id e = project]"

section \<open>Memories\<close>

fun memory_type_value :: "memory_type \<Rightarrow> string" where
  "memory_type_value MEM_FACT = ''FACT''"
| "memory_type_value MEM_DECISION = ''DECISION''"
| "memory_type_value MEM_PREFERENCE = ''PREFERENCE''"
| "memory_type_value MEM_PROJECT_KNOWLEDGE = ''PROJECT_KNOWLEDGE''"
| "memory_type_value MEM_LESSON = ''LESSON''"
| "memory_type_value MEM_RESEARCH = ''RESEARCH''"
| "memory_type_value MEM_INSTRUCTION = ''INSTRUCTION''"

definition store_memory :: "(nat \<Rightarrow> string) \<Rightarrow> datetime \<Rightarrow> string \<Rightarrow> memory_type \<Rightarrow> string \<Rightarrow> string \<Rightarrow> string option \<Rightarrow> int \<Rightarrow>
    task_db \<Rightarrow> task_db" where
  "store_memory uuid now workspace ty title content source importance db =
     (let i = uuid (tb_draws db);
          m = \<lparr>mm_id = i, mm_workspace_id = workspace, mm_type = ty, mm_title = title, mm_content = content, mm_source = source,
            mm_importance = importance, mm_created_at = now\<rparr>
      in record_event \<lparr>tx_workspace_id = workspace, tx_actor_type = ''jarvis'', tx_actor_id = None, tx_event_type = MEMORY_CREATED,
           tx_entity_type = ''memory'', tx_entity_id = i,
           tx_metadata = Some [(''type'', JStr (memory_type_value ty)), (''title'', JStr title)]\<rparr>
         (drawn (db\<lparr>tb_memories := tb_memories db @ [m]\<rparr>)))"

definition promote_research :: "(nat \<Rightarrow> string) \<Rightarrow> datetime \<Rightarrow> string \<Rightarrow> string \<Rightarrow> string \<Rightarrow> bool \<Rightarrow> task_db \<Rightarrow> task_db" where
  "promote_research uuid now workspace question summary insufficient = store_memory uuid now workspace MEM_RESEARCH
     (''Research: '' @ question) summary (Some ''research_agent'') (if insufficient then 2 else 4)"

definition promote_decision :: "(nat \<Rightarrow> string) \<Rightarrow> datetime \<Rightarrow> string \<Rightarrow> string \<Rightarrow> string \<Rightarrow> task_db \<Rightarrow> task_db" where
  "promote_decision uuid now workspace title content = store_memory uuid now workspace MEM_DECISION title content (Some ''strategy_agent'') 5"

definition promote_lesson :: "(nat \<Rightarrow> string) \<Rightarrow> datetime \<Rightarrow> string \<Rightarrow> string \<Rightarrow> string \<Rightarrow> task_db \<Rightarrow> task_db" where
  "promote_lesson uuid now workspace title content = store_memory uuid now workspace MEM_LESSON title content (Some ''qa_agent'') 4"

definition contains :: "string \<Rightarrow> string \<Rightarrow> bool" where
  "contains s t = (\<exists>i \<in> set [0..<Suc (length t)]. take (length s) (drop i t) = s)"

definition search_memories :: "string \<Rightarrow> memory_type option \<Rightarrow> string option \<Rightarrow> int option \<Rightarrow> task_db \<Rightarrow> memory_row list" where
  "search_memories workspace ty keyword min_importance db =
     (let found = sort_key (\<lambda>m. - mm_importance m) [m \<leftarrow> tb_memories db. mm_workspace_id m = workspace \<and>
            (ty = None \<or> Some (mm_type m) = ty) \<and> (case min_importance of None \<Rightarrow> True | Some n \<Rightarrow> n \<le> mm_importance m)]
      in case keyword of
           Some (c # cs) \<Rightarrow> (let kw = py_lower (c # cs)
             in [m \<leftarrow> found. contains kw (py_lower (mm_title m)) \<or> contains kw (py_lower (mm_content m))])
         | _ \<Rightarrow> found)"

text \<open>\<open>sorted(..., key=(importance, created_at), reverse=True)[:top_k]\<close>; \<open>reverse\<close> keeps the order of equals. A negative bound drops
  from the end, as the slice does.\<close>

definition retrieve_relevant :: "string \<Rightarrow> string option \<Rightarrow> memory_type option \<Rightarrow> int \<Rightarrow> task_db \<Rightarrow> memory_row list" where
  "retrieve_relevant workspace keyword ty top_k db =
     (let ranked = sort_key (\<lambda>m. - mm_importance m) (sort_key (\<lambda>m. - mm_created_at m) (search_memories workspace ty keyword None db))
      in if 0 \<le> top_k then take (nat top_k) ranked else take (length ranked - nat (- top_k)) ranked)"

end
