(* ===== verification/Task_Executor.thy ===== *)
theory Task_Executor
  imports Mission_Records Interleaving
begin

text \<open>
  \<open>app/orchestration/executor.py\<close>, the class \<open>AgentExecutor\<close>: one coroutine per READY task, each with a session of its own, stepping
  from one awaited call to the next. A session keeps the row it loaded (commits expire nothing), so every later transition is checked
  against the status of that copy and its UPDATE writes only the columns that changed in it; the calls of one transaction up to
  its commit are one step. Beside the coroutines run the humans who decide approvals and the dispatcher that promotes tasks. The
  semaphore only delays coroutines: every schedule it admits is one of the interleavings.
\<close>

section \<open>The environment\<close>

text \<open>The agents of a task as the environment of its QA loop, the standalone QA agent, the checks of its input, and Python's \<open>repr\<close>
  of a float.\<close>

record task_exec_env =
  txe_registry :: type_registry
  txe_settings :: budget_settings
  txe_pricing :: pricing_table
  txe_uuid :: "nat \<Rightarrow> string"
  txe_clock :: "task_db \<Rightarrow> datetime"
  txe_sql_sum :: "py_float list \<Rightarrow> py_float"
  txe_workers :: "task_row \<Rightarrow> json_object \<Rightarrow> string set option \<Rightarrow> usage_totals \<Rightarrow> qa_env"
  txe_qa_task :: "task_row \<Rightarrow> json_object \<Rightarrow> model_usage list \<times> (string + qa_verdict)"
  txe_qa_check :: "json_object \<Rightarrow> json_object \<Rightarrow> string set option \<Rightarrow> evidence_check"
  txe_dump :: "worker_output \<Rightarrow> json_object"
  txe_repr :: "py_float \<Rightarrow> string"

section \<open>The input of a task\<close>

definition obj_put :: "string \<Rightarrow> json \<Rightarrow> json_object \<Rightarrow> json_object" where
  "obj_put k v o' = tbl_put fst o' (k, v)"

definition obj_update :: "json_object \<Rightarrow> json_object \<Rightarrow> json_object" where
  "obj_update o' new = fold (\<lambda>(k, v). obj_put k v) new o'"

definition set_default :: "string \<Rightarrow> json \<Rightarrow> json_object \<Rightarrow> json_object" where
  "set_default k v o' = (if obj_get o' k = None then obj_put k v o' else o')"

definition obj_str :: "json_object \<Rightarrow> string \<Rightarrow> string" where
  "obj_str o' k = (case obj_get o' k of Some (JStr s) \<Rightarrow> s | _ \<Rightarrow> [])"

definition obj_list :: "json_object \<Rightarrow> string \<Rightarrow> json list" where
  "obj_list o' k = (case obj_get o' k of Some (JArr vs) \<Rightarrow> vs | _ \<Rightarrow> [])"

definition obj_flag :: "json_object \<Rightarrow> string \<Rightarrow> bool" where
  "obj_flag o' k = (obj_get o' k = Some (JBool True))"

definition dependency_outputs :: "task_db \<Rightarrow> string \<Rightarrow> json_object list" where
  "dependency_outputs db i = [obj_update [(''task_id'', JStr (tk_id t)), (''title'', JStr (tk_title t)), (''agent_type'', JStr (tk_agent_type t))]
       (case tk_output_data t of None \<Rightarrow> [] | Some out \<Rightarrow> out).
     d \<leftarrow> get_dependencies db i, t \<leftarrow> (case get_task db d of None \<Rightarrow> [] | Some t \<Rightarrow> [t])]"

definition candidate_id :: "json \<Rightarrow> string option" where
  "candidate_id c = (case c of JObj o' \<Rightarrow> (case obj_get o' ''id'' of Some (JStr (x # xs)) \<Rightarrow> Some (x # xs) | _ \<Rightarrow> None) | _ \<Rightarrow> None)"

text \<open>The candidates of the dependencies, one for each id.\<close>

fun new_candidates :: "string set \<Rightarrow> json list \<Rightarrow> json list" where
  "new_candidates seen [] = []"
| "new_candidates seen (c # cs) = (case candidate_id c of
     None \<Rightarrow> c # new_candidates seen cs
   | Some k \<Rightarrow> if k \<in> seen then new_candidates seen cs else c # new_candidates (insert k seen) cs)"

definition build_input :: "task_db \<Rightarrow> task_row \<Rightarrow> json_object" where
  "build_input db t =
     (let base = (case tk_input_data t of None \<Rightarrow> [] | Some o' \<Rightarrow> o');
          outs = dependency_outputs db (tk_id t);
          opt_str = (\<lambda>s. case s of None \<Rightarrow> JNull | Some s \<Rightarrow> JStr s);
          base = (if tk_agent_type t = ''strategy'' then obj_put ''research_results'' (JArr (map JObj outs)) base
            else if tk_agent_type t = ''qa'' \<and> outs \<noteq> [] then
              obj_put ''success_criteria'' (opt_str (tk_success_criteria t))
                (obj_put ''output'' (JObj [(k, v) \<leftarrow> hd outs. k \<notin> {''task_id'', ''title'', ''agent_type''}]) base)
            else if tk_agent_type t = ''research'' then
              (let cs = new_candidates {} (concat (map (\<lambda>out. obj_list out ''candidates'') outs))
               in obj_put ''task_id'' (JStr (tk_id t)) (if cs = [] then base else obj_put ''candidates'' (JArr cs) base))
            else base)
      in set_default ''question'' (JStr (tk_title t)) (set_default ''title'' (JStr (tk_title t)) base))"

text \<open>The evidence ids a Strategy or QA task may cite.\<close>

definition known_evidence :: "task_db \<Rightarrow> task_row \<Rightarrow> string set option" where
  "known_evidence db t = (if tk_agent_type t \<in> {''strategy'', ''qa''}
     then Some (set [ei_id (ev_item r). r \<leftarrow> list_project_evidence db (tk_project_id t)]) else None)"

section \<open>The work\<close>

fun qa_result_value :: "qa_result \<Rightarrow> string" where
  "qa_result_value QA_PASS = ''PASS''"
| "qa_result_value QA_FAIL = ''FAIL''"
| "qa_result_value QA_NEEDS_REVIEW = ''NEEDS_REVIEW''"

definition verdict_json :: "(py_float \<Rightarrow> string) \<Rightarrow> qa_verdict \<Rightarrow> json_object" where
  "verdict_json repr v = [(''verdict'', JStr (qa_result_value (qv_verdict v))), (''score'', JFloat (repr (qv_score v))),
     (''issues'', JArr (map JStr (qv_issues v))), (''unsupported_claims'', JArr (map JStr (qv_unsupported_claims v))),
     (''feedback'', JStr (qv_feedback v))]"

fun budget_reason_text :: "(py_float \<Rightarrow> string) \<Rightarrow> budget_denial \<Rightarrow> string" where
  "budget_reason_text repr (MAX_API_CALLS_PER_MISSION n) = ''MAX_API_CALLS_PER_MISSION ('' @ int_str n @ '') reached''"
| "budget_reason_text repr (MAX_TOKENS_PER_MISSION n) = ''MAX_TOKENS_PER_MISSION ('' @ int_str n @ '') reached''"
| "budget_reason_text repr (MAX_ESTIMATED_COST_PER_MISSION_USD x) = ''MAX_ESTIMATED_COST_PER_MISSION_USD ($'' @ repr x @ '') reached''"
| "budget_reason_text repr (DAILY_COST_LIMIT_USD x) = ''DAILY_COST_LIMIT_USD ($'' @ repr x @ '') reached for this workspace''"

definition model_calls :: "string \<Rightarrow> model_usage list \<Rightarrow> int" where
  "model_calls role us = sum_list [mu_api_calls u. u \<leftarrow> us, mu_role u = Some role \<and> mu_is_model_call u]"

definition evaluation_json :: "task_exec_env \<Rightarrow> evaluation_result \<Rightarrow> json_object" where
  "evaluation_json e r = obj_update (txe_dump e (evr_output r))
     ([(''qa_verdict'', JStr (qa_result_value (qv_verdict (evr_verdict r)))), (''qa_score'', JFloat (txe_repr e (qv_score (evr_verdict r)))),
       (''qa_feedback'', JStr (qv_feedback (evr_verdict r)))] @
      (case evr_budget_stopped_reason r of None \<Rightarrow> [] | Some b \<Rightarrow> [(''budget_stopped_reason'', JStr (budget_reason_text (txe_repr e) b))]) @
      [(''worker_model_calls'', JInt (model_calls ''worker'' (evr_usage_events r))),
       (''qa_model_calls'', JInt (model_calls ''qa'' (evr_usage_events r)))])"

record work_result =
  wr_outcome :: "string + json_object \<times> nat"
  wr_usage :: "model_usage list"
  wr_evidence :: "evidence_item list"

text \<open>\<open>str(exc)\<close>; that of a \<open>KeyError\<close> is its message in double quotes.\<close>

fun agent_error_text :: "registry_error \<Rightarrow> string" where
  "agent_error_text (UnknownAgentType a) = [CHR 0x22] @ ''No agent registered for type '' @ quoted a @ [CHR 0x22]"
| "agent_error_text (PermissionDeniedError a p) = ''Agent '' @ quoted a @ '' does not hold permission '' @ permission_level_value p"

text \<open>The body of the \<open>try\<close>: the agents are created from the registry and run.\<close>

definition perform :: "task_exec_env \<Rightarrow> task_row \<Rightarrow> usage_totals \<Rightarrow> json_object \<Rightarrow> string set option \<Rightarrow> work_result" where
  "perform e t totals input known =
     (let create = (\<lambda>a. get_descriptor (txe_registry e) a);
          raised = (\<lambda>err us ev. \<lparr>wr_outcome = Inl err, wr_usage = us, wr_evidence = ev\<rparr>)
      in if tk_agent_type t = ''qa'' then
           (case create ''qa'' of
              Inl x \<Rightarrow> raised (agent_error_text x) [] []
            | Inr _ \<Rightarrow> (case txe_qa_task e t input of
                (us, Inl err) \<Rightarrow> raised err us []
              | (us, Inr v) \<Rightarrow>
                  (let judged = (case obj_get input ''output'' of Some (JObj o') \<Rightarrow> o' | _ \<Rightarrow> [])
                   in \<lparr>wr_outcome = Inr (verdict_json (txe_repr e) (merge_into_verdict v (txe_qa_check e judged input known)), 0),
                       wr_usage = us, wr_evidence = []\<rparr>)))
         else (case (create (tk_agent_type t), create ''qa'') of
             (Inl x, _) \<Rightarrow> raised (agent_error_text x) [] []
           | (_, Inl x) \<Rightarrow> raised (agent_error_text x) [] []
           | _ \<Rightarrow> (case run_worker_with_qa (txe_workers e t input known totals) of
               Inl f \<Rightarrow> raised (we_cause f) (we_usage_events f) (we_accumulated_evidence f)
             | Inr r \<Rightarrow> \<lparr>wr_outcome = Inr (evaluation_json e r, evr_attempts_used r), wr_usage = evr_usage_events r,
                 wr_evidence = evr_accumulated_evidence r\<rparr>)))"

definition promote_memory :: "task_exec_env \<Rightarrow> string \<Rightarrow> task_row \<Rightarrow> json_object \<Rightarrow> task_db \<Rightarrow> task_db" where
  "promote_memory e workspace t out db =
     (if tk_agent_type t = ''research'' then
        promote_research (txe_uuid e) (txe_clock e db) workspace (tk_title t) (obj_str out ''summary'') (obj_flag out ''insufficient_evidence'') db
      else if tk_agent_type t = ''strategy'' \<and> obj_get out ''qa_verdict'' = Some (JStr ''PASS'') then
        promote_decision (txe_uuid e) (txe_clock e db) workspace (''Recommendation: '' @ tk_title t) (obj_str out ''recommendation'') db
      else db)"

text \<open>The transaction that ends the coroutine. A failed flush also fails the handler, whose flushes need a rollback first.\<close>

definition finish_work :: "task_exec_env \<Rightarrow> string \<Rightarrow> task_row \<Rightarrow> string \<Rightarrow> work_result \<Rightarrow> task_db \<Rightarrow> service_error + task_row \<times> task_db" where
  "finish_work e workspace t run w db =
     (let now = txe_clock e db; i = tk_id t;
          usage = record_usage (txe_pricing e) now workspace (tk_project_id t) (Some i) (tk_agent_type t) (wr_usage w)
      in case wr_outcome w of
        Inr (out, retries) \<Rightarrow>
          bind_sum (store_evidence workspace (tk_project_id t) i (wr_evidence w)
            (if tk_agent_type t = ''qa'' then db else promote_memory e workspace t out db)) (\<lambda>db.
          let db = complete_run now run RUN_SUCCEEDED (Some out) None (usage db);
              t' = t\<lparr>tk_retry_count := int retries\<rparr>
          in transition_loaded now workspace t' TS_COMPLETED (Some out) None (flush_task t t' db))
      | Inl err \<Rightarrow>
          bind_sum (store_evidence workspace (tk_project_id t) i (wr_evidence w) db) (\<lambda>db.
          transition_loaded now workspace t TS_FAILED None (Some err)
            (complete_run now run RUN_FAILED None (Some err) (usage db))))"

section \<open>The coroutine\<close>

datatype exec_pc =
    Start
  | Loaded task_row
  | Denied task_row string
  | Gated task_row "risk_level option"
  | Requesting task_row "risk_level option"
  | Read_Usage task_row
  | Read_Cost task_row usage_totals
  | Deferred task_row
  | Build task_row usage_totals
  | Creating task_row usage_totals json_object "string set option"
  | Working task_row usage_totals json_object "string set option" string
  | Returned "task_row option"
  | Raised service_error

definition gate_text :: "task_row \<Rightarrow> string" where
  "gate_text t = tk_title t @ '' '' @ empty_if_none (tk_description t)"

definition gated_task :: "task_row \<Rightarrow> bool" where
  "gated_task t = gate_required (tk_requires_approval t) (gate_text t)"

text \<open>After the claim: the permission check and the gate, which await nothing.\<close>

definition after_start :: "task_exec_env \<Rightarrow> task_row \<Rightarrow> exec_pc" where
  "after_start e t = (case check_permission (txe_registry e) (tk_agent_type t) READ of
     Inl x \<Rightarrow> Denied t (agent_error_text x)
   | Inr _ \<Rightarrow> if gated_task t then Gated t (classify_risk (gate_text t)) else Read_Usage t)"

definition after_cost :: "task_exec_env \<Rightarrow> task_row \<Rightarrow> usage_totals \<Rightarrow> py_float option \<Rightarrow> exec_pc" where
  "after_cost e t totals daily = (case check_budget totals daily (txe_settings e) of
     Some _ \<Rightarrow> Deferred t | None \<Rightarrow> Build t totals)"

text \<open>A transaction: an error leaves the database as it was and leaves the coroutine.\<close>

definition commit :: "task_db \<Rightarrow> (task_row \<Rightarrow> exec_pc) \<Rightarrow> service_error + task_row \<times> task_db \<Rightarrow> task_db \<times> exec_pc" where
  "commit db k r = (case r of Inl x \<Rightarrow> (db, Raised x) | Inr (t, db') \<Rightarrow> (db', k t))"

fun exec_step :: "task_exec_env \<Rightarrow> string \<Rightarrow> string \<Rightarrow> task_db \<Rightarrow> exec_pc \<Rightarrow> task_db \<times> exec_pc" where
  "exec_step e ws i db Start = (db, case get_task db i of None \<Rightarrow> Returned None | Some t \<Rightarrow> Loaded t)"
| "exec_step e ws i db (Loaded t) = commit db (after_start e) (transition_loaded (txe_clock e db) ws t TS_RUNNING None None db)"
| "exec_step e ws i db (Denied t err) =
     commit db (Returned \<circ> Some) (transition_loaded (txe_clock e db) ws t TS_FAILED None (Some err) db)"
| "exec_step e ws i db (Gated t risk) = (db, if get_for_task db (tk_id t) = None then Requesting t risk else Read_Usage t)"
| "exec_step e ws i db (Requesting t risk) =
     (case request_task_approval (txe_uuid e) (txe_clock e db) ws t (tk_title t) (case risk of None \<Rightarrow> MEDIUM | Some r \<Rightarrow> r)
          (Some ''Task matched an approval-required action pattern.'') db of
        Inl x \<Rightarrow> (db, Raised x) | Inr (_, db') \<Rightarrow> (db', Returned None))"
| "exec_step e ws i db (Read_Usage t) = (db, Read_Cost t (totals_for_project (txe_sql_sum e) db (tk_project_id t)))"
| "exec_step e ws i db (Read_Cost t totals) = (db, after_cost e t totals (cost_today (txe_sql_sum e) (txe_clock e db) db ws))"
| "exec_step e ws i db (Deferred t) =
     commit db (Returned \<circ> Some) (transition_loaded (txe_clock e db) ws t TS_WAITING None None db)"
| "exec_step e ws i db (Build t totals) = (db, Creating t totals (build_input db t) (known_evidence db t))"
| "exec_step e ws i db (Creating t totals input known) = (case insert_run (txe_uuid e) (tk_id t) (tk_agent_type t) input db of
     (run, db') \<Rightarrow> (db', Working t totals input known run))"
| "exec_step e ws i db (Working t totals input known run) =
     commit db (Returned \<circ> Some) (finish_work e ws t run (perform e t totals input known) db)"
| "exec_step e ws i db (Returned r) = (db, Returned r)"
| "exec_step e ws i db (Raised x) = (db, Raised x)"

text \<open>The coroutine alone, from a place in a database.\<close>

fun exec_run :: "task_exec_env \<Rightarrow> string \<Rightarrow> string \<Rightarrow> nat \<Rightarrow> task_db \<times> exec_pc \<Rightarrow> task_db \<times> exec_pc" where
  "exec_run e ws i 0 st = st"
| "exec_run e ws i (Suc n) (db, pc) = exec_run e ws i n (exec_step e ws i db pc)"

definition run_one :: "task_exec_env \<Rightarrow> string \<Rightarrow> string \<Rightarrow> task_db \<Rightarrow> task_db \<times> exec_pc" where
  "run_one e ws i db = exec_run e ws i 8 (db, Start)"

section \<open>Everyone who changes tasks\<close>

datatype task_process =
    Run_Task string string
  | Approve_Task datetime string string "string option"
  | Reject_Task datetime string string "string option"
  | Promote_Tasks datetime string string

text \<open>A decision or a promotion is one transaction.\<close>

definition commit_db :: "task_db \<Rightarrow> service_error + task_db \<Rightarrow> task_db \<times> exec_pc" where
  "commit_db db r = (case r of Inl x \<Rightarrow> (db, Raised x) | Inr db' \<Rightarrow> (db', Returned None))"

fun task_step :: "task_exec_env \<Rightarrow> task_process \<Rightarrow> task_db \<Rightarrow> exec_pc \<Rightarrow> task_db \<times> exec_pc" where
  "task_step e (Run_Task ws i) db pc = exec_step e ws i db pc"
| "task_step e (Approve_Task now a who reason) db Start = commit_db db (approve_task now a who reason db)"
| "task_step e (Reject_Task now a who reason) db Start = commit_db db (reject_task now a who reason db)"
| "task_step e (Promote_Tasks now ws project) db Start =
     commit_db db (bind_sum (promote_ready_tasks now ws project db) (\<lambda>(_, db). Inr db))"
| "task_step e p db pc = (db, pc)"

end
