(* ===== verification/Task_Examples.thy ===== *)
theory Task_Examples
  imports Task_Executor
begin

text \<open>A small task pipeline on which the theorems about it are evaluated: the default agents, workers whose model never answers, no budget
  limit, and a counter for a clock.\<close>

definition example_uuid :: "nat \<Rightarrow> string" where
  "example_uuid n = replicate n (CHR ''x'')"

lemma example_uuid_inj [simp]: "inj example_uuid"
  by (rule inj_on_inverseI [where g = length]) (simp add: example_uuid_def)

definition example_settings :: budget_settings where
  "example_settings = \<lparr>max_api_calls_per_mission = 0, max_tokens_per_mission = 0, max_estimated_cost_per_mission_usd = None,
     daily_cost_limit_usd = None, budget_reserved_output_tokens = 0, budget_reservation_safety_margin_tokens = 0\<rparr>"

definition example_registry :: type_registry where
  "example_registry = build_default_registry
     \<lparr>jarvis_model = ''m'', research_model = ''m'', strategy_model = ''m'', execution_model = ''m'', qa_model = ''m''\<rparr>"

definition no_evidence_check :: evidence_check where
  "no_evidence_check = \<lparr>ec_issues = [], ec_unsupported_claims = [], ec_needs_review = False, ec_gaps = [], ec_verdict_override = None\<rparr>"

definition silent_model :: qa_env where
  "silent_model = \<lparr>qe_worker = \<lambda>_. ([], Inl ''no answer''), qe_qa = \<lambda>_ _. ([], Inl ''no answer''), qe_evaluate_evidence = \<lambda>_ _. no_evidence_check,
     qe_canonical = id, qe_max_evidence_items = 0, qe_max_retries = 0, qe_mission_usage = None, qe_settings = example_settings\<rparr>"

definition example_env :: task_exec_env where
  "example_env = \<lparr>txe_registry = example_registry, txe_settings = example_settings, txe_pricing = [], txe_uuid = example_uuid,
     txe_clock = (\<lambda>db. int (length (tb_events db))), txe_sql_sum = (\<lambda>_. Fin 0), txe_workers = (\<lambda>_ _ _ _. silent_model),
     txe_qa_task = (\<lambda>_ _. ([], Inl ''no answer'')), txe_qa_check = (\<lambda>_ _ _. no_evidence_check), txe_dump = (\<lambda>_. []),
     txe_repr = (\<lambda>_. [])\<rparr>"

definition empty_task_db :: task_db where
  "empty_task_db = \<lparr>tb_tasks = [], tb_dependencies = [], tb_approvals = [], tb_runs = [], tb_usage = [], tb_evidence = [],
     tb_memories = [], tb_events = [], tb_draws = 0\<rparr>"

text \<open>A task of the execution agent, flagged for approval or not.\<close>

definition example_task :: "string \<Rightarrow> bool \<Rightarrow> task_status \<Rightarrow> task_row" where
  "example_task i flagged s = \<lparr>tk_id = i, tk_project_id = ''p'', tk_parent_task_id = None, tk_agent_type = ''execution'', tk_title = ''t'',
     tk_description = None, tk_status = s, tk_priority = TP_NORMAL, tk_input_data = None, tk_output_data = None, tk_error = None,
     tk_requires_approval = flagged, tk_retry_count = 0, tk_success_criteria = None, tk_started_at = None, tk_completed_at = None\<rparr>"

definition example_approval :: "string \<Rightarrow> string \<Rightarrow> task_approval_status \<Rightarrow> task_approval" where
  "example_approval a i s = \<lparr>tv_id = a, tv_workspace_id = ''w'', tv_task_id = i, tv_requested_action = ''t'', tv_risk_level = MEDIUM,
     tv_status = s, tv_reason = None, tv_requested_at = 0, tv_resolved_at = None, tv_resolved_by = None, tv_decision_reason = None\<rparr>"

lemma example_permission: "check_permission example_registry ''execution'' READ = Inr ()" "check_permission example_registry ''execution'' WRITE = Inr ()"
  by code_simp+

lemma example_ungated: "gated_task (example_task i flagged s) = flagged"
  by (simp add: gated_task_def gate_required_def gate_text_def requires_human_approval_def example_task_def empty_if_none_def
      classify_risk_def approval_keywords_def py_lower_def py_lower_char_def starts_word_def at_word_def re_word_def)

end
