(* ===== verification/Task_Safety.thy ===== *)
theory Task_Safety
  imports Task_Examples
begin

text \<open>
  What no interleaving of the executors of different tasks, of human decisions and of promotions can break: a task that needs an
  approval runs only with one, and a task runs only after its dependencies. The database is seen through the status of each
  task, its unchanging columns, the dependencies and the approvals.
\<close>

section \<open>Processes that own what they change\<close>

text \<open>\<open>le q d d'\<close>: what a step of \<open>q\<close> may do to the database; only processes \<open>compatible\<close> with each other run together.\<close>

locale owned_rely_guarantee =
  fixes step :: "'q \<Rightarrow> 'd \<Rightarrow> 'c \<Rightarrow> 'd \<times> 'c"
    and inv :: "'d \<Rightarrow> bool"
    and ok :: "'q \<Rightarrow> 'd \<Rightarrow> 'c \<Rightarrow> bool"
    and le :: "'q \<Rightarrow> 'd \<Rightarrow> 'd \<Rightarrow> bool"
    and compatible :: "'q \<Rightarrow> 'q \<Rightarrow> bool"
  assumes own: "\<lbrakk>inv d; ok q d c; step q d c = (d', c')\<rbrakk> \<Longrightarrow> inv d' \<and> ok q d' c' \<and> le q d d'"
    and others: "\<lbrakk>inv d; ok p d c; compatible q p; le q d d'\<rbrakk> \<Longrightarrow> ok p d' c"
begin

definition all_ok :: "'d \<Rightarrow> ('q \<times> 'c) list \<Rightarrow> bool" where
  "all_ok d cs = (inv d \<and> (\<forall>k < length cs. ok (fst (cs ! k)) d (snd (cs ! k))) \<and>
     (\<forall>k < length cs. \<forall>l < length cs. k \<noteq> l \<longrightarrow> compatible (fst (cs ! k)) (fst (cs ! l))))"

lemma schedule_ok:
  assumes "all_ok d cs" "schedule step k (d, cs) = (d', cs')"
  shows "all_ok d' cs'"
proof (cases "k < length cs")
  case True
  obtain q c where qc: "cs ! k = (q, c)" by (cases "cs ! k")
  obtain d1 c1 where s: "step q d c = (d1, c1)" by fastforce
  have eq: "d' = d1" "cs' = cs[k := (q, c1)]" using assms(2) True qc s by (simp_all add: schedule_def)
  have ok: "ok q d c" using assms(1) True qc unfolding all_ok_def by (metis fst_conv snd_conv)
  have g: "inv d1" "ok q d1 c1" "le q d d1" using own [OF _ ok s] assms(1) by (simp_all add: all_ok_def)
  have "ok (fst (cs ! l)) d1 (snd (cs ! l))" if l: "l < length cs" "l \<noteq> k" for l
  proof -
    have "ok (fst (cs ! l)) d (snd (cs ! l))" and "compatible q (fst (cs ! l))"
      using assms(1) True l qc unfolding all_ok_def by (metis, metis fst_conv)
    moreover have "inv d" using assms(1) by (simp add: all_ok_def)
    ultimately show ?thesis using others g(3) by blast
  qed
  moreover have "fst (cs' ! l) = fst (cs ! l)" "l \<noteq> k \<Longrightarrow> snd (cs' ! l) = snd (cs ! l)" if "l < length cs" for l
    using that True qc by (auto simp: eq nth_list_update)
  moreover have "snd (cs' ! k) = c1" "length cs' = length cs" using True by (simp_all add: eq)
  ultimately show ?thesis using assms(1) g qc unfolding all_ok_def by (metis eq(1) fst_conv)
qed (use assms in \<open>simp add: schedule_simps\<close>)

theorem interleaved_ok:
  assumes "interleaved step (d, cs) (d', cs')" "all_ok d cs"
  shows "all_ok d' cs'"
  using assms
proof (induction "(d, cs)" "(d', cs')" arbitrary: d' cs' rule: interleaved.induct)
  case (interleaved_step st k)
  then show ?case using schedule_ok by (cases st) metis
qed simp

text \<open>What no process of the list can undo lasts.\<close>

theorem interleaved_keeps:
  assumes "interleaved step (d, cs) (d', cs')" "all_ok d cs" "P d"
    and "\<And>q d d'. q \<in> fst ` set cs \<Longrightarrow> le q d d' \<Longrightarrow> P d \<Longrightarrow> P d'"
  shows "P d' \<and> map fst cs' = map fst cs"
  using assms
proof (induction "(d, cs)" "(d', cs')" arbitrary: d' cs' rule: interleaved.induct)
  case (interleaved_step st k)
  obtain d1 cs1 where st: "st = (d1, cs1)" by (cases st)
  have IH: "P d1" "map fst cs1 = map fst cs" using interleaved_step.hyps(2) [OF st interleaved_step.prems] by simp_all
  have ok1: "all_ok d1 cs1" using interleaved_ok [OF interleaved_step.hyps(1) [unfolded st] interleaved_step.prems(1)] .
  show ?case
  proof (cases "k < length cs1")
    case True
    obtain q c where qc: "cs1 ! k = (q, c)" by (cases "cs1 ! k")
    obtain d2 c2 where s: "step q d1 c = (d2, c2)" by fastforce
    have eq: "d' = d2" "cs' = cs1[k := (q, c2)]" using interleaved_step.hyps(3) True qc s by (simp_all add: st schedule_def)
    have "ok q d1 c" "inv d1" using ok1 True qc unfolding all_ok_def by (metis fst_conv snd_conv, blast)
    then have le: "le q d1 d2" using own s by blast
    have "q \<in> set (map fst cs1)" using True qc by (metis fst_conv image_eqI list.set_map nth_mem)
    then have "q \<in> fst ` set cs" by (simp add: IH(2))
    then have "P d2" using interleaved_step.prems(3) le IH(1) by blast
    moreover have "map fst cs' = map fst cs1" using True qc by (simp add: eq(2) map_update list_update_same_conv)
    ultimately show ?thesis using IH(2) eq(1) by simp
  qed (use interleaved_step.hyps(3) IH in \<open>simp add: st schedule_simps\<close>)
qed simp

end

section \<open>The view\<close>

type_synonym frozen_columns = "string \<times> string \<times> string \<times> string \<times> string option \<times> bool"

definition frozen :: "task_row \<Rightarrow> frozen_columns" where
  "frozen t = (tk_id t, tk_project_id t, tk_agent_type t, tk_title t, tk_description t, tk_requires_approval t)"

definition status_of :: "task_db \<Rightarrow> string \<Rightarrow> task_status option" where
  "status_of db i = map_option tk_status (get_task db i)"

definition same_tasks :: "task_db \<Rightarrow> task_db \<Rightarrow> bool" where
  "same_tasks db db' = (map frozen (tb_tasks db') = map frozen (tb_tasks db) \<and> tb_dependencies db' = tb_dependencies db)"

text \<open>A write that moves task \<open>i\<close> to status \<open>s\<close> and touches no approval and no run.\<close>

definition moved :: "task_db \<Rightarrow> task_db \<Rightarrow> string \<Rightarrow> task_status \<Rightarrow> bool" where
  "moved db db' i s = (same_tasks db db' \<and> tb_approvals db' = tb_approvals db \<and>
     map rn_task_id (tb_runs db') = map rn_task_id (tb_runs db) \<and> tb_draws db \<le> tb_draws db' \<and>
     (\<forall>j. status_of db' j = (if j = i then map_option (\<lambda>_. s) (status_of db i) else status_of db j)))"

lemma no_self_transition: "can_task_transition s s' \<Longrightarrow> s' \<noteq> s"
  by (cases s) (auto simp: can_task_transition_def)

lemma frozen_flush: "map frozen (tb_tasks (flush_task t t' db)) = map frozen (tb_tasks db)"
  by (simp add: flush_task_def tbl_upd_def frozen_def)

lemma record_event_simps [simp]: "tb_tasks (record_event e db) = tb_tasks db" "tb_dependencies (record_event e db) = tb_dependencies db"
    "tb_approvals (record_event e db) = tb_approvals db" "tb_runs (record_event e db) = tb_runs db" "tb_draws (record_event e db) = tb_draws db"
  by (simp_all add: record_event_def)

lemma status_of_flush: "status_of (flush_task t t' db) j =
    (if j = tk_id t then map_option (flush_column (tk_status t) (tk_status t')) (status_of db j) else status_of db j)"
  by (simp add: status_of_def get_task_def flush_task_def tbl_get_upd option.map_comp comp_def)

lemma status_of_event [simp]: "status_of (record_event e db) j = status_of db j"
  by (simp add: status_of_def get_task_def)

lemma transition_moves:
  assumes "transition_loaded now ws t s out err db = Inr (t', db')"
  shows "can_task_transition (tk_status t) s \<and> tk_status t' = s \<and> frozen t' = frozen t \<and> moved db db' (tk_id t) s"
proof -
  have can: "can_task_transition (tk_status t) s" and t': "tk_status t' = s" "frozen t' = frozen t"
    using assms by (auto simp: transition_loaded_def assert_task_transition_def Let_def assign_status_def frozen_def split: if_splits)
  have u: "db' = flush_task t t' db \<or> (\<exists>e. db' = record_event e (flush_task t t' db))"
    using assms can by (auto simp: transition_loaded_def assert_task_transition_def Let_def split: option.splits)
  have [simp]: "tb_dependencies (flush_task t t' db) = tb_dependencies db" "tb_approvals (flush_task t t' db) = tb_approvals db"
      "tb_runs (flush_task t t' db) = tb_runs db" "tb_draws (flush_task t t' db) = tb_draws db"
    by (simp_all add: flush_task_def)
  have "flush_column (tk_status t) s = (\<lambda>_. s)" using no_self_transition [OF can] by (auto simp: flush_column_def)
  then have "moved db (flush_task t t' db) (tk_id t) s"
    using t'(1) frozen_flush [of t t' db] by (simp add: moved_def same_tasks_def status_of_flush)
  then show ?thesis using can t' u by (auto simp: moved_def same_tasks_def)
qed

lemma tasks_map_get: "map frozen (tb_tasks db') = map frozen (tb_tasks db) \<Longrightarrow>
    map_option frozen (get_task db' i) = map_option frozen (get_task db i)"
proof -
  have "map_option frozen (tbl_get tk_id ts i) = tbl_get fst (map frozen ts) i" for ts
    by (induction ts) (auto simp: tbl_get_Cons frozen_def)
  then show "map frozen (tb_tasks db') = map frozen (tb_tasks db) \<Longrightarrow> ?thesis" by (simp add: get_task_def)
qed

definition frozen_of :: "task_db \<Rightarrow> string \<Rightarrow> frozen_columns option" where
  "frozen_of db i = map_option frozen (get_task db i)"

definition needs_gate :: "task_db \<Rightarrow> string \<Rightarrow> bool" where
  "needs_gate db i = (case get_task db i of None \<Rightarrow> False | Some t \<Rightarrow> gated_task t)"

definition deps_done :: "task_db \<Rightarrow> string \<Rightarrow> bool" where
  "deps_done db i = (\<forall>d \<in> set (get_dependencies db i). status_of db d = Some TS_COMPLETED)"

definition asked_for :: "task_db \<Rightarrow> string \<Rightarrow> bool" where
  "asked_for db i = (\<exists>a \<in> set (tb_approvals db). tv_task_id a = i)"

definition approved_for :: "task_db \<Rightarrow> string \<Rightarrow> bool" where
  "approved_for db i = (\<exists>a \<in> set (tb_approvals db). tv_task_id a = i \<and> tv_status a = TA_APPROVED)"

lemma dependencies_met_iff: "dependencies_met db i \<longleftrightarrow> deps_done db i"
  by (auto simp: dependencies_met_def deps_done_def status_of_def split: option.splits)

lemma gated_frozen: "frozen t = frozen t' \<Longrightarrow> gated_task t = gated_task t'"
  by (simp add: frozen_def gated_task_def gate_text_def)

lemma needs_gate_frozen: "frozen_of db i = Some (frozen t) \<Longrightarrow> needs_gate db i = gated_task t"
proof -
  assume "frozen_of db i = Some (frozen t)"
  then obtain u where "get_task db i = Some u" "frozen u = frozen t" unfolding frozen_of_def by blast
  then show ?thesis using gated_frozen [of u t] by (simp add: needs_gate_def)
qed

lemma needs_gate_None: "frozen_of db i = None \<Longrightarrow> \<not> needs_gate db i"
  by (simp add: frozen_of_def needs_gate_def)

lemma same_tasks_view:
  assumes "same_tasks db db'"
  shows "frozen_of db' i = frozen_of db i" "get_dependencies db' i = get_dependencies db i" "needs_gate db' i = needs_gate db i"
proof -
  show f: "frozen_of db' i = frozen_of db i" using assms tasks_map_get unfolding frozen_of_def same_tasks_def by blast
  show "get_dependencies db' i = get_dependencies db i" using assms by (simp add: get_dependencies_def same_tasks_def)
  show "needs_gate db' i = needs_gate db i"
  proof (cases "get_task db i")
    case None
    then have "frozen_of db i = None" by (simp add: frozen_of_def)
    then show ?thesis using f needs_gate_None by metis
  next
    case (Some t)
    then have "frozen_of db i = Some (frozen t)" by (simp add: frozen_of_def)
    then show ?thesis using f needs_gate_frozen by metis
  qed
qed

lemma get_for_task_None: "get_for_task db i = None \<longleftrightarrow> \<not> asked_for db i"
proof -
  have "latest as = None \<longleftrightarrow> as = []" for as by (cases as) (simp_all split: option.split)
  then show ?thesis by (auto simp: get_for_task_def asked_for_def filter_empty_conv)
qed

section \<open>The invariant\<close>

text \<open>A task waits for its one approval while that is pending and has failed once it was rejected.\<close>

definition approvals_inv :: "(nat \<Rightarrow> string) \<Rightarrow> task_db \<Rightarrow> bool" where
  "approvals_inv uuid db = (distinct (map tv_id (tb_approvals db)) \<and> distinct (map tv_task_id (tb_approvals db)) \<and>
     tv_id ` set (tb_approvals db) \<subseteq> uuid ` {..<tb_draws db} \<and>
     (\<forall>a \<in> set (tb_approvals db). (tv_status a = TA_PENDING \<longrightarrow> status_of db (tv_task_id a) = Some TS_NEEDS_APPROVAL) \<and>
        (tv_status a = TA_REJECTED \<longrightarrow> status_of db (tv_task_id a) = Some TS_FAILED)))"

text \<open>A task past \<open>PLANNED\<close> has its dependencies behind it.\<close>

definition order_inv :: "task_db \<Rightarrow> bool" where
  "order_inv db = (distinct (map tk_id (tb_tasks db)) \<and>
     (\<forall>i s. status_of db i = Some s \<longrightarrow> s \<notin> {TS_PENDING, TS_PLANNED, TS_CANCELLED} \<longrightarrow> deps_done db i))"

text \<open>What holds of every agent run ever started.\<close>

definition runs_inv :: "task_db \<Rightarrow> bool" where
  "runs_inv db = (\<forall>r \<in> set (tb_runs db). deps_done db (rn_task_id r) \<and>
     (needs_gate db (rn_task_id r) \<longrightarrow> approved_for db (rn_task_id r)))"

definition task_inv :: "(nat \<Rightarrow> string) \<Rightarrow> task_db \<Rightarrow> bool" where
  "task_inv uuid db = (approvals_inv uuid db \<and> order_inv db \<and> runs_inv db)"

fun owner :: "task_process \<Rightarrow> string option" where
  "owner (Run_Task ws i) = Some i"
| "owner _ = None"

definition task_le :: "task_process \<Rightarrow> task_db \<Rightarrow> task_db \<Rightarrow> bool" where
  "task_le q db db' = (same_tasks db db' \<and> (\<forall>j. approved_for db j \<longrightarrow> approved_for db' j) \<and>
     (\<forall>j. asked_for db' j \<longrightarrow> asked_for db j \<or> owner q = Some j) \<and>
     (\<forall>j. owner q \<noteq> Some j \<longrightarrow> status_of db' j = status_of db j \<or>
        owner q = None \<and> status_of db j \<in> {Some TS_PLANNED, Some TS_NEEDS_APPROVAL}))"

text \<open>What a coroutine knows at each place.\<close>

definition knows :: "task_db \<Rightarrow> string \<Rightarrow> task_row \<Rightarrow> bool" where
  "knows db i t = (tk_id t = i \<and> frozen_of db i = Some (frozen t))"

definition claimed_task :: "task_db \<Rightarrow> string \<Rightarrow> task_row \<Rightarrow> bool" where
  "claimed_task db i t = (knows db i t \<and> tk_status t = TS_RUNNING \<and> status_of db i = Some TS_RUNNING)"

definition cleared :: "task_db \<Rightarrow> string \<Rightarrow> task_row \<Rightarrow> bool" where
  "cleared db i t = (claimed_task db i t \<and> (gated_task t \<longrightarrow> approved_for db i))"

fun exec_ok :: "task_db \<Rightarrow> string \<Rightarrow> exec_pc \<Rightarrow> bool" where
  "exec_ok db i (Loaded t) = (knows db i t \<and> (tk_status t \<in> {TS_READY, TS_WAITING} \<longrightarrow> status_of db i = Some (tk_status t)))"
| "exec_ok db i (Denied t err) = claimed_task db i t"
| "exec_ok db i (Gated t risk) = claimed_task db i t"
| "exec_ok db i (Requesting t risk) = (claimed_task db i t \<and> \<not> asked_for db i)"
| "exec_ok db i (Read_Usage t) = cleared db i t"
| "exec_ok db i (Read_Cost t totals) = cleared db i t"
| "exec_ok db i (Deferred t) = cleared db i t"
| "exec_ok db i (Build t totals) = cleared db i t"
| "exec_ok db i (Creating t totals input known) = cleared db i t"
| "exec_ok db i (Working t totals input known run) = cleared db i t"
| "exec_ok db i _ = True"

fun process_ok :: "task_process \<Rightarrow> task_db \<Rightarrow> exec_pc \<Rightarrow> bool" where
  "process_ok (Run_Task ws i) db pc = exec_ok db i pc"
| "process_ok _ db pc = True"

definition compatible_tasks :: "task_process \<Rightarrow> task_process \<Rightarrow> bool" where
  "compatible_tasks p q = (owner p = None \<or> owner p \<noteq> owner q)"

lemma task_leD:
  assumes "task_le q db db'"
  shows "same_tasks db db'" "approved_for db j \<Longrightarrow> approved_for db' j" "asked_for db' j \<Longrightarrow> asked_for db j \<or> owner q = Some j"
    "\<lbrakk>owner q \<noteq> Some j; status_of db j = Some s; s \<notin> {TS_PLANNED, TS_NEEDS_APPROVAL}\<rbrakk> \<Longrightarrow> status_of db' j = Some s"
  using assms unfolding task_le_def by (blast, blast, blast, metis insert_iff option.inject singletonD)

lemma knows_le: "task_le q db db' \<Longrightarrow> knows db i t \<Longrightarrow> knows db' i t"
  unfolding knows_def by (simp only: same_tasks_view(1) [OF task_leD(1)])

lemma claimed_le: "task_le q db db' \<Longrightarrow> owner q \<noteq> Some i \<Longrightarrow> claimed_task db i t \<Longrightarrow> claimed_task db' i t"
  unfolding claimed_task_def using knows_le task_leD(4) [of q db db' i TS_RUNNING] by simp

lemma cleared_le: "task_le q db db' \<Longrightarrow> owner q \<noteq> Some i \<Longrightarrow> cleared db i t \<Longrightarrow> cleared db' i t"
  unfolding cleared_def using claimed_le task_leD(2) by blast

lemma exec_ok_le:
  assumes "task_le q db db'" "owner q \<noteq> Some i" "exec_ok db i pc"
  shows "exec_ok db' i pc"
proof (cases pc)
  case (Loaded t)
  then have "knows db' i t" using assms knows_le by simp
  moreover have "status_of db' i = Some (tk_status t)" if "tk_status t \<in> {TS_READY, TS_WAITING}"
    using assms(3) Loaded that task_leD(4) [OF assms(1,2), of "tk_status t"] by auto
  ultimately show ?thesis using Loaded by simp
next
  case (Requesting t risk)
  then show ?thesis using assms claimed_le task_leD(3) by (metis exec_ok.simps(4))
qed (use assms claimed_le cleared_le in \<open>simp_all only: exec_ok.simps, blast+\<close>)

lemma ids_drawn: "X \<subseteq> uuid ` {..<m} \<Longrightarrow> m \<le> n \<Longrightarrow> X \<subseteq> uuid ` {..<n::nat}"
  by (rule subset_trans) (auto intro: image_mono)

section \<open>What single writes keep\<close>

text \<open>Writes that concern no status.\<close>

definition quiet :: "task_db \<Rightarrow> task_db \<Rightarrow> bool" where
  "quiet db db' = (same_tasks db db' \<and> tb_approvals db' = tb_approvals db \<and>
     map rn_task_id (tb_runs db') = map rn_task_id (tb_runs db) \<and> tb_draws db \<le> tb_draws db' \<and>
     (\<forall>j. status_of db' j = status_of db j))"

lemma quiet_refl: "quiet db db"
  by (simp add: quiet_def same_tasks_def)

lemma quiet_trans: "quiet db db1 \<Longrightarrow> quiet db1 db2 \<Longrightarrow> quiet db db2"
  by (simp add: quiet_def same_tasks_def)

lemma quiet_moved: "quiet db db1 \<Longrightarrow> moved db1 db2 i s \<Longrightarrow> moved db db2 i s"
  by (simp add: quiet_def moved_def same_tasks_def)

lemma quiet_tasks: "tb_tasks db' = tb_tasks db \<Longrightarrow> tb_dependencies db' = tb_dependencies db \<Longrightarrow> tb_approvals db' = tb_approvals db \<Longrightarrow>
    map rn_task_id (tb_runs db') = map rn_task_id (tb_runs db) \<Longrightarrow> tb_draws db \<le> tb_draws db' \<Longrightarrow> quiet db db'"
  by (simp add: quiet_def same_tasks_def status_of_def get_task_def)

lemma quiet_event: "quiet db (record_event x db)"
  by (rule quiet_tasks) simp_all

lemma quiet_usage: "quiet db (record_usage table now ws p i ty us db)"
  by (rule quiet_tasks) (simp_all add: record_usage_def)

lemma quiet_complete: "quiet db (complete_run now i s out err db)"
  by (rule quiet_tasks) (simp_all add: complete_run_def tbl_upd_def)

lemma quiet_memory: "quiet db (store_memory uuid now ws ty title c src imp db)"
  by (rule quiet_tasks) (simp_all add: store_memory_def Let_def drawn_def)

lemma quiet_promote: "quiet db (promote_memory e ws t out db)"
  by (simp add: promote_memory_def promote_research_def promote_decision_def quiet_memory quiet_refl)

lemma quiet_insert_evidence: "insert_evidence ws p i x db = Inr db' \<Longrightarrow> quiet db db'"
  by (rule quiet_tasks) (auto simp: insert_evidence_def split: option.splits)

lemma quiet_insert_all: "insert_all_evidence ws p i xs db = Inr db' \<Longrightarrow> quiet db db'"
  by (induction xs arbitrary: db) (auto simp: bind_sum_InrE quiet_refl intro: quiet_trans quiet_insert_evidence)

lemma quiet_evidence: "store_evidence ws p i xs db = Inr db' \<Longrightarrow> quiet db db'"
  by (auto simp: store_evidence_def bind_sum_InrE quiet_refl split: if_splits intro: quiet_trans quiet_insert_all quiet_event)

lemma quiet_retries: "quiet db (flush_task t (t\<lparr>tk_retry_count := n\<rparr>) db)"
proof -
  have "flush_column s s = id" for s :: task_status by (auto simp: flush_column_def)
  then have "status_of (flush_task t (t\<lparr>tk_retry_count := n\<rparr>) db) j = status_of db j" for j
    by (simp add: status_of_flush option.map_id)
  moreover have "same_tasks db (flush_task t (t\<lparr>tk_retry_count := n\<rparr>) db)"
    using frozen_flush by (simp add: same_tasks_def) (simp add: flush_task_def)
  ultimately show ?thesis by (simp add: quiet_def) (simp add: flush_task_def)
qed

lemma quiet_run: "quiet db db1 \<Longrightarrow> quiet db (complete_run now i s out err (record_usage table now ws p k ty us db1))"
  using quiet_trans [OF quiet_trans [OF _ quiet_usage] quiet_complete] .

lemma finish_work_moves:
  assumes "finish_work e ws t run w db = Inr (t', db')"
  shows "\<exists>s. s \<in> {TS_COMPLETED, TS_FAILED} \<and> moved db db' (tk_id t) s"
proof (cases "wr_outcome w")
  case (Inl err)
  then obtain db1 where "store_evidence ws (tk_project_id t) (tk_id t) (wr_evidence w) db = Inr db1"
      "transition_loaded (txe_clock e db) ws t TS_FAILED None (Some err) (complete_run (txe_clock e db) run RUN_FAILED None (Some err)
        (record_usage (txe_pricing e) (txe_clock e db) ws (tk_project_id t) (Some (tk_id t)) (tk_agent_type t) (wr_usage w) db1)) = Inr (t', db')"
    using assms by (auto simp: finish_work_def Let_def bind_sum_InrE)
  note db1 = this
  have "moved db db' (tk_id t) TS_FAILED"
    by (rule quiet_moved [OF quiet_run [OF quiet_evidence [OF db1(1)]]
          transition_moves [OF db1(2), THEN conjunct2, THEN conjunct2, THEN conjunct2]])
  then show ?thesis by blast
next
  case (Inr p)
  obtain out retries where p: "p = (out, retries)" by fastforce
  let ?db0 = "if tk_agent_type t = ''qa'' then db else promote_memory e ws t out db"
  obtain db1 where db1: "store_evidence ws (tk_project_id t) (tk_id t) (wr_evidence w) ?db0 = Inr db1"
      and tr: "transition_loaded (txe_clock e db) ws (t\<lparr>tk_retry_count := int retries\<rparr>) TS_COMPLETED (Some out) None
        (flush_task t (t\<lparr>tk_retry_count := int retries\<rparr>) (complete_run (txe_clock e db) run RUN_SUCCEEDED (Some out) None
        (record_usage (txe_pricing e) (txe_clock e db) ws (tk_project_id t) (Some (tk_id t)) (tk_agent_type t) (wr_usage w) db1))) = Inr (t', db')"
    using assms Inr p by (auto simp: finish_work_def Let_def bind_sum_InrE)
  have "quiet db ?db0" by (simp add: quiet_promote quiet_refl)
  then have q: "quiet db db1" by (rule quiet_trans [OF _ quiet_evidence [OF db1]])
  have eq: "tk_id (t\<lparr>tk_retry_count := n\<rparr>) = tk_id t" for n by simp
  have "moved db db' (tk_id t) TS_COMPLETED"
    by (rule quiet_moved [OF quiet_trans [OF quiet_run [OF q] quiet_retries]
          transition_moves [OF tr, THEN conjunct2, THEN conjunct2, THEN conjunct2, unfolded eq]])
  then show ?thesis by blast
qed

section \<open>The invariant is kept\<close>

text \<open>The effect of a write on statuses and runs alone.\<close>

definition shifted :: "task_db \<Rightarrow> task_db \<Rightarrow> string \<Rightarrow> task_status \<Rightarrow> bool" where
  "shifted db db' i s = (same_tasks db db' \<and> map rn_task_id (tb_runs db') = map rn_task_id (tb_runs db) \<and>
     (\<forall>j. status_of db' j = (if j = i then map_option (\<lambda>_. s) (status_of db i) else status_of db j)))"

lemma moved_shifted: "moved db db' i s \<Longrightarrow> shifted db db' i s"
  by (simp add: moved_def shifted_def)

lemma shifted_other: "shifted db db' i s \<Longrightarrow> j \<noteq> i \<Longrightarrow> status_of db' j = status_of db j"
  by (simp add: shifted_def)

lemma shifted_self: "shifted db db' i s \<Longrightarrow> status_of db i = Some s0 \<Longrightarrow> status_of db' i = Some s"
  by (simp add: shifted_def)

lemma deps_done_shifted:
  assumes "shifted db db' i s" "status_of db i \<noteq> Some TS_COMPLETED" "deps_done db j"
  shows "deps_done db' j"
proof -
  have "get_dependencies db' j = get_dependencies db j" using assms(1) same_tasks_view(2) by (simp add: shifted_def)
  moreover have "status_of db' d = Some TS_COMPLETED" if "status_of db d = Some TS_COMPLETED" for d
    using that assms(1,2) shifted_other by metis
  ultimately show ?thesis using assms(3) by (simp add: deps_done_def)
qed

lemma same_tasks_ids: "same_tasks db db' \<Longrightarrow> map tk_id (tb_tasks db') = map tk_id (tb_tasks db)"
proof -
  have "map fst (map frozen ts) = map tk_id ts" for ts by (simp add: frozen_def)
  then show "same_tasks db db' \<Longrightarrow> ?thesis" unfolding same_tasks_def by metis
qed

lemma order_inv_shifted:
  assumes "order_inv db" "shifted db db' i s" "status_of db i \<noteq> Some TS_COMPLETED"
    and "s \<notin> {TS_PENDING, TS_PLANNED, TS_CANCELLED} \<Longrightarrow> deps_done db i"
  shows "order_inv db'"
proof -
  have "deps_done db' j" if j: "status_of db' j = Some s'" "s' \<notin> {TS_PENDING, TS_PLANNED, TS_CANCELLED}" for j s'
  proof (cases "j = i")
    case True
    then have "s' = s" using j(1) assms(2) by (auto simp: shifted_def)
    then show ?thesis using True j(2) assms deps_done_shifted by blast
  next
    case False
    then have "deps_done db j" using j assms(1) shifted_other [OF assms(2)] unfolding order_inv_def by metis
    then show ?thesis using assms deps_done_shifted by blast
  qed
  moreover have "map tk_id (tb_tasks db') = map tk_id (tb_tasks db)" using assms(2) same_tasks_ids by (simp add: shifted_def)
  ultimately show ?thesis using assms(1) unfolding order_inv_def by simp
qed

lemma runs_inv_alt: "runs_inv db \<longleftrightarrow> (\<forall>i \<in> set (map rn_task_id (tb_runs db)). deps_done db i \<and> (needs_gate db i \<longrightarrow> approved_for db i))"
  by (simp add: runs_inv_def)

lemma runs_inv_shifted:
  assumes "runs_inv db" "shifted db db' i s" "status_of db i \<noteq> Some TS_COMPLETED" "\<And>j. approved_for db j \<Longrightarrow> approved_for db' j"
  shows "runs_inv db'"
proof -
  have "needs_gate db' j = needs_gate db j" "map rn_task_id (tb_runs db') = map rn_task_id (tb_runs db)" for j
    using assms(2) same_tasks_view(3) by (simp_all add: shifted_def)
  then show ?thesis using assms deps_done_shifted [OF assms(2,3)] unfolding runs_inv_alt by metis
qed

lemma approvals_status: "approvals_inv uuid db \<Longrightarrow> a \<in> set (tb_approvals db) \<Longrightarrow>
    status_of db (tv_task_id a) \<notin> {Some TS_NEEDS_APPROVAL, Some TS_FAILED} \<Longrightarrow> tv_status a = TA_APPROVED"
  by (cases "tv_status a") (auto simp: approvals_inv_def)

lemma approvals_inv_moved:
  assumes "approvals_inv uuid db" "moved db db' i s" "status_of db i \<notin> {Some TS_NEEDS_APPROVAL, Some TS_FAILED}"
  shows "approvals_inv uuid db'"
proof -
  have eq: "tb_approvals db' = tb_approvals db" "tb_draws db \<le> tb_draws db'" using assms(2) by (simp_all add: moved_def)
  have st: "status_of db' (tv_task_id a) = status_of db (tv_task_id a)" if "a \<in> set (tb_approvals db)" "tv_status a \<noteq> TA_APPROVED" for a
  proof -
    have "status_of db (tv_task_id a) \<in> {Some TS_NEEDS_APPROVAL, Some TS_FAILED}"
      using approvals_status [OF assms(1) that(1)] that(2) by blast
    then have "tv_task_id a \<noteq> i" using assms(3) by auto
    then show ?thesis using shifted_other [OF moved_shifted [OF assms(2)]] by simp
  qed
  have "tv_id ` set (tb_approvals db') \<subseteq> uuid ` {..<tb_draws db'}"
    using assms(1) eq ids_drawn [of "tv_id ` set (tb_approvals db)" uuid "tb_draws db" "tb_draws db'"] unfolding approvals_inv_def by simp
  moreover have "(tv_status a = TA_PENDING \<longrightarrow> status_of db' (tv_task_id a) = Some TS_NEEDS_APPROVAL) \<and>
      (tv_status a = TA_REJECTED \<longrightarrow> status_of db' (tv_task_id a) = Some TS_FAILED)" if "a \<in> set (tb_approvals db)" for a
    using assms(1) st [OF that] that unfolding approvals_inv_def by (cases "tv_status a") simp_all
  ultimately show ?thesis using assms(1) eq(1) unfolding approvals_inv_def by simp
qed

text \<open>The moves of a coroutine, which start from \<open>READY\<close>, \<open>WAITING\<close> or \<open>RUNNING\<close>, and of a promotion.\<close>

lemma task_inv_moved:
  assumes "task_inv uuid db" "moved db db' i s" "status_of db i = Some s0" "s0 \<notin> {TS_NEEDS_APPROVAL, TS_FAILED, TS_COMPLETED}"
    and "deps_done db i"
  shows "task_inv uuid db'"
proof -
  have inv: "approvals_inv uuid db" "order_inv db" "runs_inv db" using assms(1) by (simp_all add: task_inv_def)
  have "approved_for db' j = approved_for db j" for j using assms(2) by (simp add: approved_for_def moved_def)
  then have "runs_inv db'" using runs_inv_shifted [OF inv(3) moved_shifted [OF assms(2)]] assms(3,4) by simp
  moreover have "order_inv db'" using order_inv_shifted [OF inv(2) moved_shifted [OF assms(2)]] assms(3-5) by simp
  moreover have "approvals_inv uuid db'" using approvals_inv_moved [OF inv(1) assms(2)] assms(3,4) by simp
  ultimately show ?thesis by (simp add: task_inv_def)
qed

lemma moved_le: "moved db db' i s \<Longrightarrow> task_le (Run_Task ws i) db db'"
  by (simp add: moved_def task_le_def approved_for_def asked_for_def)

lemma claimed_deps: "task_inv uuid db \<Longrightarrow> claimed_task db i t \<Longrightarrow> deps_done db i"
  unfolding task_inv_def order_inv_def claimed_task_def by blast

section \<open>Requests and decisions\<close>

lemma request_effect:
  assumes "request_task_approval uuid now ws t action risk reason db = Inr (a, db')"
  shows "tb_approvals db' = tb_approvals db @ [a]" "tv_task_id a = tk_id t" "tv_status a = TA_PENDING" "tv_id a = uuid (tb_draws db)"
    "shifted db db' (tk_id t) TS_NEEDS_APPROVAL" "Suc (tb_draws db) \<le> tb_draws db'"
proof -
  let ?db1 = "drawn (db\<lparr>tb_approvals := tb_approvals db @ [a]\<rparr>)"
  obtain t' db2 x where a: "fst (insert_approval uuid now ws (tk_id t) action risk reason db) = a"
      and tr: "transition_loaded now ws t TS_NEEDS_APPROVAL None None ?db1 = Inr (t', db2)" and db': "db' = record_event x db2"
    using assms by (auto simp: request_task_approval_def insert_approval_def Let_def bind_sum_InrE)
  have m: "moved ?db1 db2 (tk_id t) TS_NEEDS_APPROVAL" using transition_moves [OF tr] by simp
  then show "tb_approvals db' = tb_approvals db @ [a]" "Suc (tb_draws db) \<le> tb_draws db'"
    using db' by (simp_all add: moved_def drawn_def)
  show "tv_task_id a = tk_id t" "tv_status a = TA_PENDING" "tv_id a = uuid (tb_draws db)"
    using a by (auto simp: insert_approval_def Let_def)
  have "status_of ?db1 j = status_of db j" for j by (simp add: status_of_def get_task_def drawn_def)
  then show "shifted db db' (tk_id t) TS_NEEDS_APPROVAL" using m db' by (simp add: moved_def shifted_def same_tasks_def drawn_def)
qed

lemma task_request_inv:
  assumes "inj uuid" "task_inv uuid db" "claimed_task db i t" "\<not> asked_for db i"
    and "request_task_approval uuid now ws t action risk reason db = Inr (a, db')"
  shows "task_inv uuid db' \<and> task_le (Run_Task w i) db db'"
proof -
  note eff = request_effect [OF assms(5)]
  have i: "tk_id t = i" "status_of db i = Some TS_RUNNING" using assms(3) by (simp_all add: claimed_task_def knows_def)
  have inv: "approvals_inv uuid db" "order_inv db" "runs_inv db" using assms(2) by (simp_all add: task_inv_def)
  have sh: "shifted db db' i TS_NEEDS_APPROVAL" using eff(5) i by simp
  have mono: "approved_for db j \<Longrightarrow> approved_for db' j" for j using eff(1) by (auto simp: approved_for_def)
  have run: "runs_inv db'" using runs_inv_shifted [OF inv(3) sh _ mono] i(2) by simp
  have ord: "order_inv db'" using order_inv_shifted [OF inv(2) sh] i(2) claimed_deps [OF assms(2,3)] by simp
  have fresh: "uuid (tb_draws db) \<notin> tv_id ` set (tb_approvals db)"
  proof
    assume "uuid (tb_draws db) \<in> tv_id ` set (tb_approvals db)"
    then obtain k where "k < tb_draws db" "uuid (tb_draws db) = uuid k" using inv(1) by (auto simp: approvals_inv_def)
    then show False using injD [OF assms(1)] by blast
  qed
  have "status_of db' (tv_task_id b) = status_of db (tv_task_id b)" if "b \<in> set (tb_approvals db)" for b
    using shifted_other [OF sh] that assms(4) by (auto simp: asked_for_def)
  moreover have "status_of db' i = Some TS_NEEDS_APPROVAL" using shifted_self [OF sh i(2)] .
  moreover have "tv_id ` set (tb_approvals db') \<subseteq> uuid ` {..<tb_draws db'}"
  proof -
    have "tv_id ` set (tb_approvals db) \<subseteq> uuid ` {..<tb_draws db'}"
      using inv(1) eff(6) ids_drawn [of _ uuid "tb_draws db" "tb_draws db'"] by (simp add: approvals_inv_def)
    then show ?thesis using eff(1,4,6) by simp
  qed
  ultimately have "approvals_inv uuid db'"
    using inv(1) eff(1-4) i fresh assms(4) by (auto simp: approvals_inv_def asked_for_def)
  moreover have "task_le (Run_Task w i) db db'"
    using mono eff(1,2) i(1) sh by (auto simp: task_le_def asked_for_def shifted_def)
  ultimately show ?thesis using run ord by (simp add: task_inv_def)
qed

lemma resolve_effect:
  assumes "resolve_pending now st ts err ev who reason k db = Inr db'"
  obtains a where "a \<in> set (tb_approvals db)" "tv_id a = k" "tv_status a = TA_PENDING" "shifted db db' (tv_task_id a) ts"
    "tb_approvals db' = map (\<lambda>b. if tv_id b = k then b\<lparr>tv_status := st, tv_resolved_by := Some who, tv_decision_reason := reason,
       tv_resolved_at := Some now\<rparr> else b) (tb_approvals db)" "tb_draws db \<le> tb_draws db'"
proof -
  obtain a where a: "get_task_approval db k = Some a" "tv_status a = TA_PENDING"
    using assms by (auto simp: resolve_pending_def split: option.splits if_splits)
  let ?db1 = "resolve_approval now st who reason k db"
  obtain t' db2 x where tr: "transition now (tv_workspace_id a) (tv_task_id a) ts None err ?db1 = Inr (t', db2)"
      and db': "db' = record_event x db2"
    using assms a by (auto simp: resolve_pending_def bind_sum_InrE)
  obtain t where t: "get_task ?db1 (tv_task_id a) = Some t" "transition_loaded now (tv_workspace_id a) t ts None err ?db1 = Inr (t', db2)"
    using tr by (auto simp: transition_def split: option.splits)
  have id: "tk_id t = tv_task_id a" using t(1) tbl_get_SomeD by (fastforce simp: get_task_def)
  have m: "moved ?db1 db2 (tv_task_id a) ts" using transition_moves [OF t(2)] id by simp
  have st: "status_of ?db1 j = status_of db j" for j by (simp add: status_of_def get_task_def resolve_approval_def)
  have sh: "shifted db db' (tv_task_id a) ts"
    using m db' st by (simp add: moved_def shifted_def same_tasks_def resolve_approval_def)
  show ?thesis
  proof (rule that [OF _ _ a(2) sh])
    show "a \<in> set (tb_approvals db)" "tv_id a = k" using a(1) tbl_get_SomeD by (fastforce simp: get_task_approval_def)+
  qed (use m db' in \<open>simp_all add: moved_def resolve_approval_def tbl_upd_def\<close>)
qed

lemma resolve_inv:
  assumes "task_inv uuid db" "resolve_pending now st ts err ev who reason k db = Inr db'"
    and "(st, ts) \<in> {(TA_APPROVED, TS_READY), (TA_REJECTED, TS_FAILED)}" "owner q = None"
  shows "task_inv uuid db' \<and> task_le q db db'"
proof -
  obtain a where a: "a \<in> set (tb_approvals db)" "tv_id a = k" "tv_status a = TA_PENDING" and sh: "shifted db db' (tv_task_id a) ts"
    and ap: "tb_approvals db' = map (\<lambda>b. if tv_id b = k then b\<lparr>tv_status := st, tv_resolved_by := Some who, tv_decision_reason := reason,
       tv_resolved_at := Some now\<rparr> else b) (tb_approvals db)" and dr: "tb_draws db \<le> tb_draws db'"
    using resolve_effect [OF assms(2)] .
  have inv: "approvals_inv uuid db" "order_inv db" "runs_inv db" using assms(1) by (simp_all add: task_inv_def)
  have ids: "map tv_id (tb_approvals db') = map tv_id (tb_approvals db)" "map tv_task_id (tb_approvals db') = map tv_task_id (tb_approvals db)"
    by (simp_all add: ap)
  have unique: "b = a" if "b \<in> set (tb_approvals db)" "tv_id b = k \<or> tv_task_id b = tv_task_id a" for b
    using inv(1) that a unfolding approvals_inv_def by (metis distinct_map inj_onD)
  have st: "status_of db (tv_task_id a) = Some TS_NEEDS_APPROVAL" using inv(1) a by (simp add: approvals_inv_def)
  have mono: "approved_for db j \<Longrightarrow> approved_for db' j" for j
  proof -
    assume "approved_for db j"
    then obtain b where b: "b \<in> set (tb_approvals db)" "tv_task_id b = j" "tv_status b = TA_APPROVED" by (auto simp: approved_for_def)
    then have "tv_id b \<noteq> k" using unique a(3) by force
    then have "b \<in> set (tb_approvals db')" using b(1) by (force simp: ap)
    then show ?thesis using b by (auto simp: approved_for_def)
  qed
  have "deps_done db (tv_task_id a)" using inv(2) st by (simp add: order_inv_def)
  then have ord: "order_inv db'" using order_inv_shifted [OF inv(2) sh] st by simp
  have run: "runs_inv db'" using runs_inv_shifted [OF inv(3) sh _ mono] st by simp
  have new: "status_of db' (tv_task_id a) = Some ts" using shifted_self [OF sh st] .
  have each: "(tv_status b = TA_PENDING \<longrightarrow> status_of db' (tv_task_id b) = Some TS_NEEDS_APPROVAL) \<and>
      (tv_status b = TA_REJECTED \<longrightarrow> status_of db' (tv_task_id b) = Some TS_FAILED)" if b: "b \<in> set (tb_approvals db')" for b
  proof (cases "tv_id b = k")
    case True
    then obtain c where "c \<in> set (tb_approvals db)" "tv_id c = k" "b = c\<lparr>tv_status := st, tv_resolved_by := Some who,
        tv_decision_reason := reason, tv_resolved_at := Some now\<rparr>" using b by (auto simp: ap split: if_splits)
    then have "tv_status b = st" "tv_task_id b = tv_task_id a" using unique by force+
    then show ?thesis using new assms(3) by auto
  next
    case False
    then have b: "b \<in> set (tb_approvals db)" using b by (auto simp: ap split: if_splits)
    then have "tv_task_id b \<noteq> tv_task_id a" using unique False a(2) by blast
    then show ?thesis using shifted_other [OF sh] inv(1) b by (simp add: approvals_inv_def)
  qed
  have "tv_id ` set (tb_approvals db') = tv_id ` set (tb_approvals db)" using ids(1) by (metis list.set_map)
  then have "approvals_inv uuid db'" using inv(1) ids each ids_drawn [OF _ dr, of "tv_id ` set (tb_approvals db)" uuid] unfolding approvals_inv_def by simp
  moreover have "asked_for db' j = asked_for db j" for j
  proof -
    have "tv_task_id ` set (tb_approvals db') = tv_task_id ` set (tb_approvals db)" using ids(2) by (metis list.set_map)
    then show ?thesis by (metis (no_types, lifting) asked_for_def image_iff)
  qed
  moreover have "status_of db' j = status_of db j \<or> status_of db j = Some TS_NEEDS_APPROVAL" for j
    using shifted_other [OF sh] st by metis
  moreover have "same_tasks db db'" using sh by (simp add: shifted_def)
  ultimately show ?thesis using run ord mono assms(4) unfolding task_inv_def task_le_def by blast
qed

section \<open>Promotion\<close>

lemma task_le_refl: "task_le q db db"
  by (simp add: task_le_def same_tasks_def)

lemma task_le_trans:
  assumes "owner q = None" "task_le q db db1" "task_le q db1 db2"
  shows "task_le q db db2"
proof -
  have "status_of db2 j = status_of db j \<or> status_of db j \<in> {Some TS_PLANNED, Some TS_NEEDS_APPROVAL}" for j
    using assms unfolding task_le_def by (metis option.distinct(1))
  moreover have "same_tasks db db2" using assms(2,3) by (simp add: task_le_def same_tasks_def)
  moreover have "approved_for db j \<Longrightarrow> approved_for db2 j" "asked_for db2 j \<Longrightarrow> asked_for db j \<or> owner q = Some j" for j
    using assms by (blast dest: task_leD(2), metis task_leD(3) option.distinct(1))
  ultimately show ?thesis using assms(1) unfolding task_le_def by blast
qed

text \<open>The loop over tasks still as they were listed.\<close>

lemma promote_each_inv:
  assumes "promote_each now ws ts db = Inr (ids, db')" "task_inv uuid db" "owner q = None"
    and "distinct (map tk_id ts)" "\<forall>t \<in> set ts. status_of db (tk_id t) = Some (tk_status t)"
  shows "task_inv uuid db' \<and> task_le q db db'"
  using assms
proof (induction ts arbitrary: db ids)
  case (Cons t ts)
  show ?case
  proof (cases "tk_status t \<noteq> TS_PLANNED \<or> \<not> dependencies_met db (tk_id t)")
    case True
    then have "promote_each now ws ts db = Inr (ids, db')" using Cons.prems(1) by simp
    then show ?thesis using Cons.IH Cons.prems(2-5) by simp
  next
    case False
    then obtain t' db1 ids' where tr: "transition_loaded now ws t TS_READY None None db = Inr (t', db1)"
        and rest: "promote_each now ws ts db1 = Inr (ids', db')"
      using Cons.prems(1) by (auto simp: bind_sum_InrE)
    have m: "moved db db1 (tk_id t) TS_READY" using transition_moves [OF tr] by simp
    have st: "status_of db (tk_id t) = Some TS_PLANNED" using False Cons.prems(5) by simp
    have inv: "task_inv uuid db1"
      by (rule task_inv_moved [OF Cons.prems(2) m st]) (use False in \<open>simp_all add: dependencies_met_iff\<close>)
    have "status_of db1 j = status_of db j" if "j \<noteq> tk_id t" for j using shifted_other [OF moved_shifted [OF m] that] .
    moreover have "tk_id u \<noteq> tk_id t" if "u \<in> set ts" for u using Cons.prems(4) imageI [OF that, of tk_id] by auto
    ultimately have rest_ok: "\<forall>u \<in> set ts. status_of db1 (tk_id u) = Some (tk_status u)" using Cons.prems(5) by simp
    have le: "task_le q db db1"
      using m st Cons.prems(3) by (auto simp: task_le_def moved_def approved_for_def asked_for_def)
    have "task_inv uuid db' \<and> task_le q db1 db'" using Cons.IH [OF rest inv Cons.prems(3)] Cons.prems(4) rest_ok by simp
    then show ?thesis using task_le_trans [OF Cons.prems(3) le] by simp
  qed
qed (simp add: task_le_refl)

lemma promote_inv:
  assumes "promote_ready_tasks now ws p db = Inr (ids, db')" "task_inv uuid db" "owner q = None"
  shows "task_inv uuid db' \<and> task_le q db db'"
proof (rule promote_each_inv [OF assms(1) [unfolded promote_ready_tasks_def] assms(2,3)])
  have d: "distinct (map tk_id (tb_tasks db))" using assms(2) by (simp add: task_inv_def order_inv_def)
  then show "distinct (map tk_id (list_project_tasks db p))" by (simp add: list_project_tasks_def distinct_map_filter)
  show "\<forall>t \<in> set (list_project_tasks db p). status_of db (tk_id t) = Some (tk_status t)"
    using d tbl_get_mem [of tk_id "tb_tasks db"] by (simp add: list_project_tasks_def status_of_def get_task_def tbl_unique_def)
qed

section \<open>The coroutine\<close>

lemma run_le_refl: "task_inv uuid db \<Longrightarrow> exec_ok db i pc \<Longrightarrow> task_inv uuid db \<and> exec_ok db i pc \<and> task_le q db db"
  by (simp add: task_le_refl)

text \<open>A transition of the claimed_task row.\<close>

lemma claimed_commit:
  assumes "task_inv uuid db" "claimed_task db i t" "commit db (Returned \<circ> Some) (transition_loaded now ws t s out err db) = (db', pc')"
  shows "task_inv uuid db' \<and> exec_ok db' i pc' \<and> task_le (Run_Task w i) db db'"
proof (cases "transition_loaded now ws t s out err db")
  case (Inl x)
  then show ?thesis using assms by (auto simp: commit_def task_le_refl)
next
  case (Inr p)
  then obtain t' where p: "transition_loaded now ws t s out err db = Inr (t', db')" "pc' = Returned (Some t')"
    using assms(3) by (cases p) (simp add: commit_def)
  have m: "moved db db' i s" using transition_moves [OF p(1)] assms(2) by (simp add: claimed_task_def knows_def)
  have run: "status_of db i = Some TS_RUNNING" using assms(2) by (simp add: claimed_task_def)
  have "task_inv uuid db'" by (rule task_inv_moved [OF assms(1) m run _ claimed_deps [OF assms(1,2)]]) simp
  then show ?thesis using moved_le [OF m] p(2) by simp
qed

lemma claim_step:
  assumes "task_inv uuid db" "exec_ok db i (Loaded t)"
    and "commit db (after_start e) (transition_loaded now ws t TS_RUNNING None None db) = (db', pc')"
  shows "task_inv uuid db' \<and> exec_ok db' i pc' \<and> task_le (Run_Task w i) db db'"
proof (cases "transition_loaded now ws t TS_RUNNING None None db")
  case (Inl x)
  then show ?thesis using assms by (auto simp: commit_def task_le_refl)
next
  case (Inr p)
  then obtain t' where p: "transition_loaded now ws t TS_RUNNING None None db = Inr (t', db')" "pc' = after_start e t'"
    using assms(3) by (cases p) (simp add: commit_def)
  note tm = transition_moves [OF p(1)]
  have i: "tk_id t = i" "frozen_of db i = Some (frozen t)" using assms(2) by (simp_all add: knows_def)
  have "tk_status t \<in> {TS_READY, TS_WAITING}" using tm by (cases "tk_status t") (auto simp: can_task_transition_def)
  then obtain s0 where s0: "status_of db i = Some s0" "s0 \<in> {TS_READY, TS_WAITING}" using assms(2) by auto
  have m: "moved db db' i TS_RUNNING" using tm i(1) by simp
  have deps: "deps_done db i" using assms(1) s0 by (auto simp: task_inv_def order_inv_def)
  have inv: "task_inv uuid db'" by (rule task_inv_moved [OF assms(1) m s0(1) _ deps]) (use s0(2) in auto)
  have "claimed_task db' i t'"
  proof -
    have "tk_id t' = i" using tm i(1) by (simp add: frozen_def)
    moreover have "frozen_of db' i = Some (frozen t')" using same_tasks_view(1) [of db db' i] m i(2) tm by (simp add: moved_def)
    moreover have "status_of db' i = Some TS_RUNNING" using shifted_self [OF moved_shifted [OF m] s0(1)] .
    ultimately show ?thesis using tm by (simp add: claimed_task_def knows_def)
  qed
  then have "exec_ok db' i pc'" using p(2) by (auto simp: after_start_def cleared_def split: sum.split)
  then show ?thesis using inv moved_le [OF m] by simp
qed

lemma create_run_step:
  assumes "task_inv uuid db" "cleared db i t" "insert_run u (tk_id t) ty input db = (run, db')"
  shows "task_inv uuid db' \<and> cleared db' i t \<and> task_le (Run_Task w i) db db'"
proof -
  have i: "tk_id t = i" "claimed_task db i t" "gated_task t \<longrightarrow> approved_for db i" using assms(2) by (simp_all add: cleared_def claimed_task_def knows_def)
  obtain r where db': "db' = drawn (db\<lparr>tb_runs := tb_runs db @ [r]\<rparr>)" "rn_task_id r = i"
    using assms(3) i(1) by (auto simp: insert_run_def)
  have view: "status_of db' j = status_of db j" "needs_gate db' j = needs_gate db j" "deps_done db' j = deps_done db j"
      "approved_for db' j = approved_for db j" "asked_for db' j = asked_for db j" "frozen_of db' j = frozen_of db j" for j
    by (simp_all add: db' status_of_def get_task_def drawn_def needs_gate_def deps_done_def get_dependencies_def approved_for_def
        asked_for_def frozen_of_def)
  have "needs_gate db i = gated_task t" using i(2) needs_gate_frozen by (simp add: claimed_task_def knows_def)
  moreover have "set (tb_runs db') = insert r (set (tb_runs db))" by (auto simp: db' drawn_def)
  ultimately have "runs_inv db'" using assms(1) claimed_deps [OF assms(1) i(2)] i(3) db'(2)
    unfolding task_inv_def runs_inv_def view by auto
  moreover have "order_inv db'" using assms(1) by (simp add: task_inv_def order_inv_def view) (simp add: db' drawn_def)
  moreover have "approvals_inv uuid db'"
  proof -
    have "tb_approvals db' = tb_approvals db" "tb_draws db \<le> tb_draws db'" by (simp_all add: db' drawn_def)
    then show ?thesis using assms(1) ids_drawn [of "tv_id ` set (tb_approvals db)" uuid "tb_draws db" "tb_draws db'"] unfolding task_inv_def approvals_inv_def view by simp
  qed
  moreover have "same_tasks db db'" by (simp add: same_tasks_def db' drawn_def)
  ultimately show ?thesis using assms(2) by (simp add: task_inv_def task_le_def view cleared_def claimed_task_def knows_def)
qed

lemma exec_step_inv:
  assumes "inj (txe_uuid e)" "task_inv (txe_uuid e) db" "exec_ok db i pc" "exec_step e ws i db pc = (db', pc')"
  shows "task_inv (txe_uuid e) db' \<and> exec_ok db' i pc' \<and> task_le (Run_Task ws i) db db'"
proof (cases pc)
  case Start
  then have "db' = db" "exec_ok db i pc'"
    using assms(4) tbl_get_SomeD [of tk_id "tb_tasks db" i]
    by (auto simp: knows_def get_task_def frozen_of_def status_of_def split: option.splits)
  then show ?thesis using run_le_refl [OF assms(2)] by blast
next
  case (Loaded t)
  then show ?thesis using claim_step [OF assms(2)] assms(3,4) by (metis exec_step.simps(2))
next
  case (Denied t err)
  then show ?thesis using claimed_commit [OF assms(2)] assms(3,4) by (metis exec_step.simps(3) exec_ok.simps(2))
next
  case (Deferred t)
  then have "claimed_task db i t" using assms(3) by (simp add: cleared_def)
  then show ?thesis using claimed_commit [OF assms(2)] assms(4) Deferred by (metis exec_step.simps(8))
next
  case (Gated t risk)
  have c: "claimed_task db i t" "tk_id t = i" using assms(3) Gated by (simp_all add: claimed_task_def knows_def)
  have "approved_for db i" if asked: "asked_for db i"
  proof -
    obtain a where "a \<in> set (tb_approvals db)" "tv_task_id a = i" using asked by (auto simp: asked_for_def)
    then show ?thesis using approvals_status [of "txe_uuid e" db a] assms(2) c(1) by (auto simp: task_inv_def claimed_task_def approved_for_def)
  qed
  then have "db' = db" "exec_ok db i pc'" using assms(4) c Gated by (auto simp: get_for_task_None cleared_def split: if_splits)
  then show ?thesis using run_le_refl [OF assms(2)] by blast
next
  case (Requesting t risk)
  then have c: "claimed_task db i t" "\<not> asked_for db i" using assms(3) by simp_all
  let ?r = "request_task_approval (txe_uuid e) (txe_clock e db) ws t (tk_title t) (case risk of None \<Rightarrow> MEDIUM | Some r \<Rightarrow> r)
    (Some ''Task matched an approval-required action pattern.'') db"
  show ?thesis
  proof (cases ?r)
    case (Inl x)
    then show ?thesis using assms Requesting by (auto simp: task_le_refl)
  next
    case (Inr p)
    then obtain a where "?r = Inr (a, db')" "pc' = Returned None" using assms(4) Requesting by (cases p) simp
    then show ?thesis using task_request_inv [OF assms(1,2) c] by simp
  qed
next
  case (Creating t totals input known)
  then obtain run where run: "insert_run (txe_uuid e) (tk_id t) (tk_agent_type t) input db = (run, db')" "pc' = Working t totals input known run"
    using assms(4) by (cases "insert_run (txe_uuid e) (tk_id t) (tk_agent_type t) input db") simp
  then show ?thesis using create_run_step [OF assms(2) _ run(1)] assms(3) Creating by simp
next
  case (Working t totals input known run)
  then have c: "claimed_task db i t" "tk_id t = i" using assms(3) by (simp_all add: cleared_def claimed_task_def knows_def)
  let ?r = "finish_work e ws t run (perform e t totals input known) db"
  show ?thesis
  proof (cases ?r)
    case (Inl x)
    then show ?thesis using assms Working by (auto simp: commit_def task_le_refl)
  next
    case (Inr p)
    then obtain t' where p: "?r = Inr (t', db')" "pc' = Returned (Some t')" using assms(4) Working by (cases p) (simp add: commit_def)
    obtain s where m: "moved db db' i s" using finish_work_moves [OF p(1)] c(2) by blast
    have "status_of db i = Some TS_RUNNING" using c(1) by (simp add: claimed_task_def)
    then have "task_inv (txe_uuid e) db'" using task_inv_moved [OF assms(2) m _ _ claimed_deps [OF assms(2) c(1)]] by simp
    then show ?thesis using moved_le [OF m] p(2) by simp
  qed
qed (use assms in \<open>auto simp: task_le_refl after_cost_def split: option.splits\<close>)

lemma task_decision_inv:
  assumes "task_inv (txe_uuid e) db" "owner q = None" "task_step e q db pc = (db', pc')"
  shows "task_inv (txe_uuid e) db' \<and> task_le q db db'"
proof (cases "pc = Start")
  case False
  then show ?thesis using assms by (cases q; cases pc) (auto simp: task_le_refl)
next
  case True
  show ?thesis
  proof (cases q)
    case (Run_Task ws i)
    then show ?thesis using assms(2) by simp
  next
    case (Approve_Task now a who reason)
    then show ?thesis using assms True resolve_inv [OF assms(1) _ _ assms(2)]
      by (auto simp: commit_db_def approve_task_def task_le_refl split: sum.splits)
  next
    case (Reject_Task now a who reason)
    then show ?thesis using assms True resolve_inv [OF assms(1) _ _ assms(2)]
      by (auto simp: commit_db_def reject_task_def task_le_refl split: sum.splits)
  next
    case (Promote_Tasks now ws p)
    then show ?thesis using assms True promote_inv [OF _ assms(1,2)]
      by (auto simp: commit_db_def bind_sum_InrE bind_sum_def task_le_refl split: sum.splits prod.splits)
  qed
qed

interpretation tasks: owned_rely_guarantee "task_step e" "\<lambda>db. inj (txe_uuid e) \<and> task_inv (txe_uuid e) db" process_ok task_le compatible_tasks
  for e
proof unfold_locales
  fix d q c d' c'
  assume inv: "inj (txe_uuid e) \<and> task_inv (txe_uuid e) d" and ok: "process_ok q d c" and step: "task_step e q d c = (d', c')"
  show "(inj (txe_uuid e) \<and> task_inv (txe_uuid e) d') \<and> process_ok q d' c' \<and> task_le q d d'"
  proof (cases "owner q")
    case None
    then have "process_ok q d' c'" by (cases q) simp_all
    then show ?thesis using task_decision_inv [OF _ None step] inv by blast
  next
    case (Some i)
    then obtain ws where "q = Run_Task ws i" by (cases q) simp_all
    then show ?thesis using exec_step_inv [of e d i c ws d' c'] inv ok step by simp
  qed
next
  fix d p c q d'
  assume "inj (txe_uuid e) \<and> task_inv (txe_uuid e) d" "process_ok p d c" "compatible_tasks q p" "task_le q d d'"
  then show "process_ok p d' c" using exec_ok_le by (cases p) (auto simp: compatible_tasks_def)
qed

section \<open>Properties\<close>

text \<open>No two executors for one task, everyone at the start.\<close>

definition fresh_processes :: "(task_process \<times> exec_pc) list \<Rightarrow> bool" where
  "fresh_processes cs = ((\<forall>k < length cs. snd (cs ! k) = Start) \<and>
     (\<forall>k < length cs. \<forall>l < length cs. k \<noteq> l \<longrightarrow> compatible_tasks (fst (cs ! k)) (fst (cs ! l))))"

lemma interleaved_tasks_inv:
  assumes "inj (txe_uuid e)" "task_inv (txe_uuid e) db" "fresh_processes cs" "interleaved (task_step e) (db, cs) (db', cs')"
  shows "task_inv (txe_uuid e) db'"
proof -
  have "process_ok q db Start" for q by (cases q) simp_all
  then have "tasks.all_ok e db cs" 
    unfolding tasks.all_ok_def using assms(1-3) by (simp add: fresh_processes_def)
  from tasks.interleaved_ok [OF assms(4) this] show ?thesis unfolding tasks.all_ok_def by blast
qed

text \<open>An approved task after a completed one, run up to the agent's work.\<close>

definition approved_db :: task_db where
  "approved_db = empty_task_db\<lparr>tb_tasks := [example_task [] False TS_COMPLETED, example_task ''x'' True TS_READY],
     tb_dependencies := [\<lparr>td_task_id = ''x'', td_depends_on_task_id = []\<rparr>],
     tb_approvals := [example_approval ''xx'' ''x'' TA_APPROVED], tb_draws := 3\<rparr>"

definition approved_run :: "task_db \<times> (task_process \<times> exec_pc) list" where
  "approved_run = fold (schedule (task_step example_env)) [0, 0, 0, 0, 0, 0, 0] (approved_db, [(Run_Task ''w'' ''x'', Start)])"

lemma approved_db_inv: "task_inv (txe_uuid example_env) approved_db"
  by (simp add: task_inv_def approvals_inv_def order_inv_def runs_inv_def approved_db_def empty_task_db_def example_approval_def
      example_task_def example_env_def example_uuid_def lessThan_Suc numeral_eq_Suc deps_done_def get_dependencies_def status_of_def
      get_task_def tbl_get_Cons)

lemma approved_run_runs: "map rn_task_id (tb_runs (fst approved_run)) = [''x''] \<and>
    map_option gated_task (get_task (fst approved_run) ''x'') = Some True \<and> get_dependencies (fst approved_run) ''x'' = [[]]"
  using example_permission
  by (simp add: approved_run_def approved_db_def empty_task_db_def schedule_def get_task_def example_task_def commit_def transition_loaded_def
      assert_task_transition_def can_task_transition_def after_start_def gated_task_def gate_required_def get_for_task_def example_approval_def
      example_env_def after_cost_def check_budget_def example_settings_def insert_run_def drawn_def assign_status_def flush_task_def
      transition_event_def Let_def tbl_upd_def tbl_get_Cons record_event_def flush_column_def get_dependencies_def)

lemma approved_run_interleaved: "interleaved (task_step example_env) (approved_db, [(Run_Task ''w'' ''x'', Start)]) (fst approved_run, snd approved_run)"
  unfolding approved_run_def prod.collapse by (rule interleaved_fold [OF interleaved_refl])

lemma example_fresh: "inj (txe_uuid example_env)" "fresh_processes [(Run_Task ws i, Start)]"
  by (simp_all add: example_env_def fresh_processes_def)

text \<open>C7: As long as no task has two executors at once (\<open>fresh_processes\<close>), whatever the interleaving of executors of different tasks, of humans
  deciding approvals and of promotions, an agent is only ever run on a task flagged for approval or with a consequential text
  when an approval of that very task has been granted. The condition is needed, see \<open>second_executor_bypasses_gate\<close>, and the program meets it
  within one mission run only: the ready tasks of a batch are different tasks, but nothing stops a second run of the same project.\<close>

theorem gated_tasks_run_approved:
  assumes "inj (txe_uuid e)" and "task_inv (txe_uuid e) db" and "fresh_processes cs"
    and "interleaved (task_step e) (db, cs) (db', cs')"
    and "r \<in> set (tb_runs db')" and "get_task db' (rn_task_id r) = Some t" and "gated_task t"
  shows "\<exists>a \<in> set (tb_approvals db'). tv_task_id a = rn_task_id r \<and> tv_status a = TA_APPROVED"
  using interleaved_tasks_inv [OF assms(1-4)] assms(5-7)
  by (auto simp: task_inv_def runs_inv_def needs_gate_def approved_for_def)

theorem gated_tasks_run_approved_witness:
  "\<exists>a \<in> set (tb_approvals (fst approved_run)). tv_task_id a = ''x'' \<and> tv_status a = TA_APPROVED"
proof -
  obtain r where r: "r \<in> set (tb_runs (fst approved_run))" "rn_task_id r = ''x''" using approved_run_runs by (auto simp: map_eq_Cons_conv)
  obtain t where t: "get_task (fst approved_run) ''x'' = Some t" "gated_task t" using approved_run_runs by auto
  show ?thesis using gated_tasks_run_approved [OF example_fresh(1) approved_db_inv example_fresh(2) approved_run_interleaved r(1)] r(2) t by simp
qed

text \<open>C8: Under the same condition, at most one executor for a task, and in the same interleavings an agent is only ever run on a task all of whose
  dependencies are COMPLETED.\<close>

theorem tasks_run_after_dependencies:
  assumes "inj (txe_uuid e)" and "task_inv (txe_uuid e) db" and "fresh_processes cs"
    and "interleaved (task_step e) (db, cs) (db', cs')" and "r \<in> set (tb_runs db')"
  shows "dependencies_met db' (rn_task_id r)"
  using interleaved_tasks_inv [OF assms(1-4)] assms(5) by (simp add: task_inv_def runs_inv_def dependencies_met_iff)

theorem tasks_run_after_dependencies_witness: "dependencies_met (fst approved_run) ''x'' \<and> get_dependencies (fst approved_run) ''x'' = [[]]"
proof -
  obtain r where "r \<in> set (tb_runs (fst approved_run))" "rn_task_id r = ''x''" using approved_run_runs by (auto simp: map_eq_Cons_conv)
  then show ?thesis
    using tasks_run_after_dependencies [OF example_fresh(1) approved_db_inv example_fresh(2) approved_run_interleaved] approved_run_runs by metis
qed

section \<open>Two executors of one task\<close>

text \<open>Claiming a task is a check of the row the coroutine loaded and an update by key, not a compare-and-set: two executors that both loaded the
  READY row both claim it.\<close>

definition gated_db :: task_db where
  "gated_db = empty_task_db\<lparr>tb_tasks := [example_task ''x'' True TS_READY], tb_draws := 3\<rparr>"

lemmas executor_simps = schedule_def get_task_def example_task_def commit_def transition_loaded_def
  assert_task_transition_def can_task_transition_def after_start_def gated_task_def gate_required_def get_for_task_def request_task_approval_def
  insert_approval_def example_env_def after_cost_def check_budget_def example_settings_def insert_run_def drawn_def assign_status_def flush_task_def
  transition_event_def Let_def tbl_upd_def tbl_get_Cons record_event_def flush_column_def or_loaded_def

definition both_loaded :: "(task_process \<times> exec_pc) list" where
  "both_loaded = [(Run_Task ''w'' ''x'', Loaded (example_task ''x'' True TS_READY)), (Run_Task ''w'' ''x'', Loaded (example_task ''x'' True TS_READY))]"

lemma both_load: "fold (schedule (task_step example_env)) [0, 1] (gated_db, [(Run_Task ''w'' ''x'', Start), (Run_Task ''w'' ''x'', Start)]) =
    (gated_db, both_loaded)"
  by (simp add: schedule_def gated_db_def empty_task_db_def both_loaded_def get_task_def tbl_get_Cons example_task_def)

lemma first_asks: "\<exists>t ap ev now. fold (schedule (task_step example_env)) [0, 0, 0] (gated_db, both_loaded) =
    (gated_db\<lparr>tb_tasks := [(example_task ''x'' True TS_NEEDS_APPROVAL)\<lparr>tk_started_at := now\<rparr>], tb_approvals := [ap], tb_events := ev, tb_draws := 4\<rparr>,
     [(Run_Task ''w'' ''x'', t), (Run_Task ''w'' ''x'', Loaded (example_task ''x'' True TS_READY))]) \<and> tv_task_id ap = ''x'' \<and> tv_status ap = TA_PENDING"
  using example_permission by (simp add: gated_db_def empty_task_db_def both_loaded_def executor_simps)

lemma second_runs:
  assumes "tv_task_id ap = ''x''"
  shows "\<exists>db cs. fold (schedule (task_step example_env)) [1, 1, 1, 1, 1, 1]
      (gated_db\<lparr>tb_tasks := [(example_task ''x'' True TS_NEEDS_APPROVAL)\<lparr>tk_started_at := now\<rparr>], tb_approvals := [ap], tb_events := ev, tb_draws := 4\<rparr>,
       [(Run_Task ''w'' ''x'', t), (Run_Task ''w'' ''x'', Loaded (example_task ''x'' True TS_READY))]) = (db, cs) \<and>
    map rn_task_id (tb_runs db) = [''x''] \<and> tb_approvals db = [ap] \<and> map_option gated_task (get_task db ''x'') = Some True"
  using example_permission assms by (simp add: gated_db_def empty_task_db_def executor_simps)

text \<open>The first executor asks for the approval and leaves; the second, which claims the task after it, finds that an approval was asked for and runs
  the agent while it is still pending.\<close>

theorem second_executor_bypasses_gate:
  "task_inv (txe_uuid example_env) gated_db \<and>
   (\<exists>db cs. interleaved (task_step example_env) (gated_db, [(Run_Task ''w'' ''x'', Start), (Run_Task ''w'' ''x'', Start)]) (db, cs) \<and>
      map rn_task_id (tb_runs db) = [''x''] \<and> map_option gated_task (get_task db ''x'') = Some True \<and>
      map tv_status (tb_approvals db) = [TA_PENDING])"
proof
  show "task_inv (txe_uuid example_env) gated_db"
    by (simp add: task_inv_def approvals_inv_def order_inv_def runs_inv_def gated_db_def empty_task_db_def
      example_task_def deps_done_def get_dependencies_def status_of_def get_task_def tbl_get_Cons)
  let ?start = "(gated_db, [(Run_Task ''w'' ''x'', Start), (Run_Task ''w'' ''x'', Start)])"
  obtain t ap ev now where f: "fold (schedule (task_step example_env)) [0, 0, 0] (gated_db, both_loaded) =
    (gated_db\<lparr>tb_tasks := [(example_task ''x'' True TS_NEEDS_APPROVAL)\<lparr>tk_started_at := now\<rparr>], tb_approvals := [ap], tb_events := ev, tb_draws := 4\<rparr>,
     [(Run_Task ''w'' ''x'', t), (Run_Task ''w'' ''x'', Loaded (example_task ''x'' True TS_READY))])" "tv_task_id ap = ''x''" "tv_status ap = TA_PENDING"
    using first_asks by blast
  obtain db cs where s: "fold (schedule (task_step example_env)) [1, 1, 1, 1, 1, 1] (fold (schedule (task_step example_env)) [0, 0, 0] (gated_db, both_loaded)) = (db, cs)"
    and d: "map rn_task_id (tb_runs db) = [''x'']" "tb_approvals db = [ap]" "map_option gated_task (get_task db ''x'') = Some True"
    using second_runs [OF f(2), where now = now and ev = ev and t = t, folded f(1)] by (elim exE conjE) (rule that)
  have "interleaved (task_step example_env) ?start (gated_db, both_loaded)" unfolding both_load [symmetric] by (rule interleaved_fold [OF interleaved_refl])
  then have "interleaved (task_step example_env) ?start (db, cs)" unfolding s [symmetric] by (intro interleaved_fold)
  then show "\<exists>db cs. interleaved (task_step example_env) ?start (db, cs) \<and>
      map rn_task_id (tb_runs db) = [''x''] \<and> map_option gated_task (get_task db ''x'') = Some True \<and> map tv_status (tb_approvals db) = [TA_PENDING]"
    using d f(3) by (intro exI [of _ db] exI [of _ cs]) simp
qed

end
