(* ===== verification/Task_Mission.thy ===== *)
theory Task_Mission
  imports Task_Safety
begin

text \<open>
  \<open>app/orchestration/executor.py\<close>, the functions: \<open>run_objective\<close> with its loop over batches of READY tasks, and
  \<open>build_report\<close>. A batch is one coroutine per task under a schedule; a round ends when all of its coroutines have returned. The long
  dash of the report's texts is a hyphen here.
\<close>

section \<open>Batches\<close>

definition batch :: "string \<Rightarrow> string list \<Rightarrow> (task_process \<times> exec_pc) list" where
  "batch ws ids = map (\<lambda>i. (Run_Task ws i, Start)) ids"

definition ended :: "exec_pc \<Rightarrow> bool" where
  "ended pc = (case pc of Returned _ \<Rightarrow> True | Raised _ \<Rightarrow> True | _ \<Rightarrow> False)"

definition batch_errors :: "(task_process \<times> exec_pc) list \<Rightarrow> service_error list" where
  "batch_errors cs = [x. (_, Raised x) \<leftarrow> cs]"

definition batch_results :: "(task_process \<times> exec_pc) list \<Rightarrow> task_row list" where
  "batch_results cs = [t. (_, Returned (Some t)) \<leftarrow> cs]"

text \<open>\<open>_scan_batch_for_budget_stop\<close>.\<close>

definition deferral_text :: string where
  "deferral_text = ''Mission budget reached - a task was deferred before it could start.''"

fun scan_batch :: "task_row list \<Rightarrow> string option" where
  "scan_batch [] = None"
| "scan_batch (t # ts) =
     (if tk_status t = TS_WAITING then Some deferral_text
      else if tk_status t = TS_COMPLETED then
        (case obj_str (case tk_output_data t of None \<Rightarrow> [] | Some out \<Rightarrow> out) ''budget_stopped_reason'' of
           [] \<Rightarrow> scan_batch ts | reason \<Rightarrow> Some reason)
      else scan_batch ts)"

definition check_mission_budget :: "task_exec_env \<Rightarrow> string \<Rightarrow> string \<Rightarrow> task_db \<Rightarrow> string option" where
  "check_mission_budget e ws p db = map_option (budget_reason_text (txe_repr e)) (check_budget (totals_for_project (txe_sql_sum e) db p)
     (cost_today (txe_sql_sum e) (txe_clock e db) db ws) (txe_settings e))"

definition budget_stop_event :: "string \<Rightarrow> string \<Rightarrow> string \<Rightarrow> task_db \<Rightarrow> task_db" where
  "budget_stop_event ws p reason = record_event \<lparr>tx_workspace_id = ws, tx_actor_type = ''system'', tx_actor_id = None,
     tx_event_type = BUDGET_LIMIT_REACHED, tx_entity_type = ''project'', tx_entity_id = p, tx_metadata = Some [(''reason'', JStr reason)]\<rparr>"

section \<open>The loop\<close>

datatype mission_end = Budget_Stopped string | Nothing_Ready | Limit_Reached | Crashed service_error | Unfinished

text \<open>One schedule for each round; a schedule that leaves a coroutine before its end, or the lack of one, leaves the mission unfinished.
  An exception of one coroutine is the exception of the gathering.\<close>

fun mission_loop :: "task_exec_env \<Rightarrow> string \<Rightarrow> string \<Rightarrow> int \<Rightarrow> nat list list \<Rightarrow> int \<Rightarrow> task_db \<Rightarrow> task_db \<times> mission_end" where
  "mission_loop e ws p limit scheds iterations db =
     (if \<not> iterations < limit then (db, Limit_Reached)
      else (case check_mission_budget e ws p db of
          Some reason \<Rightarrow> (budget_stop_event ws p reason db, Budget_Stopped reason)
        | None \<Rightarrow> (case promote_ready_tasks (txe_clock e db) ws p db of
            Inl x \<Rightarrow> (db, Crashed x)
          | Inr (_, db) \<Rightarrow>
              (let ready = get_ready_tasks db p
               in if ready = [] then (db, Nothing_Ready)
                  else (case scheds of
                      [] \<Rightarrow> (db, Unfinished)
                    | sched # rest \<Rightarrow> (case fold (schedule (task_step e)) sched (db, batch ws ready) of
                        (db, cs) \<Rightarrow>
                          if \<not> (\<forall>c \<in> set cs. ended (snd c)) then (db, Unfinished)
                          else (case batch_errors cs of
                              x # _ \<Rightarrow> (db, Crashed x)
                            | [] \<Rightarrow> (case scan_batch (batch_results cs) of
                                Some reason \<Rightarrow> (budget_stop_event ws p reason db, Budget_Stopped reason)
                              | None \<Rightarrow> mission_loop e ws p limit rest (iterations + int (length ready)) db))))))))"

declare mission_loop.simps [simp del]

section \<open>The report\<close>

record report_item =
  rpi_id :: string
  rpi_admission_status :: string
  rpi_relevance_label :: "string option"
  rpi_admission_rejection_reasons :: "string list"
  rpi_rejection_reason :: "string option"
  rpi_item :: evidence_item

record mission_report =
  mxr_objective :: string
  mxr_status :: string
  mxr_what_was_done :: "string list"
  mxr_key_findings :: "string list"
  mxr_evidence :: "string list"
  mxr_evidence_details :: "evidence_item list"
  mxr_recommendation :: string
  mxr_rejected_evidence_count :: nat
  mxr_rejected_evidence_reasons :: "(string \<times> nat) list"
  mxr_risks :: "string list"
  mxr_assumptions :: "string list"
  mxr_open_questions :: "string list"
  mxr_unresolved_evidence_gaps :: "string list"
  mxr_qa_notes :: "string list"
  mxr_unsupported_claims :: "string list"
  mxr_usage_role_breakdown :: "string list"
  mxr_next_actions :: "string list"
  mxr_approvals_required :: "string list"
  mxr_comparison_ready :: "json option"
  mxr_evidence_coverage :: "string list"
  mxr_critical_gaps :: "string list"
  mxr_other_material_gaps :: "string list"
  mxr_next_research :: "string list"
  mxr_usage :: usage_totals
  mxr_usage_by_agent :: "((string \<times> string \<times> string) \<times> usage_totals) list"
  mxr_total_retries :: int

text \<open>Validation of a stored evidence item and the line about a candidate's coverage, which formats a float, are given.\<close>

record report_env =
  rx_validate :: "json \<Rightarrow> report_item option"
  rx_coverage_line :: "json_object \<Rightarrow> string"

definition output_of :: "task_row \<Rightarrow> json_object" where
  "output_of t = (case tk_output_data t of None \<Rightarrow> [] | Some out \<Rightarrow> out)"

definition obj_strs :: "json_object \<Rightarrow> string \<Rightarrow> string list" where
  "obj_strs o' k = [s. JStr s \<leftarrow> obj_list o' k]"

definition obj_objs :: "json_object \<Rightarrow> string \<Rightarrow> json_object list" where
  "obj_objs o' k = [x. JObj x \<leftarrow> obj_list o' k]"

definition obj_text :: "json_object \<Rightarrow> string \<Rightarrow> string" where
  "obj_text o' k = (case obj_get o' k of Some (JStr s) \<Rightarrow> s | _ \<Rightarrow> ''None'')"

definition obj_count :: "json_object \<Rightarrow> string \<Rightarrow> int" where
  "obj_count o' k = (case obj_get o' k of Some (JInt i) \<Rightarrow> i | _ \<Rightarrow> 0)"

text \<open>\<open>_bounded_report_text\<close>: white space collapsed, at most 300 characters.\<close>

fun collapse_spaces :: "bool \<Rightarrow> string \<Rightarrow> string" where
  "collapse_spaces inside [] = []"
| "collapse_spaces inside (c # cs) = (if py_space c then (if inside then [] else '' '') @ collapse_spaces True cs
     else c # collapse_spaces False cs)"

definition py_rstrip :: "string \<Rightarrow> string" where
  "py_rstrip s = rev (dropWhile py_space (rev s))"

definition bounded_report_text :: "string \<Rightarrow> string" where
  "bounded_report_text s = (let n = py_strip (collapse_spaces False s)
     in if length n \<le> 300 then n else py_rstrip (take 300 n) @ '' [truncated]'')"

definition capitalize :: "string \<Rightarrow> string" where
  "capitalize s = (case s of [] \<Rightarrow> []
     | c # cs \<Rightarrow> (let n = of_char c :: nat in if 97 \<le> n \<and> n \<le> 122 then char_of (n - 32) else c) # py_lower cs)"

definition error_text_categories :: "(string \<times> string) list" where
  "error_text_categories = [(''authentication failed'', ''AUTHENTICATION''), (''rate limited'', ''RATE_LIMIT''),
     (''billing/credit issue'', ''BILLING''), (''invalid request (http 400)'', ''INVALID_REQUEST''), (''invalid model'', ''INVALID_REQUEST''),
     (''permission denied'', ''INVALID_REQUEST''), (''network/transient failure'', ''CONNECTION''),
     (''structured output could not be parsed'', ''PARSING'')]"

definition classify_error_text :: "string option \<Rightarrow> string" where
  "classify_error_text err = (case List.find (\<lambda>(marker, _). contains marker (py_lower (empty_if_none err))) error_text_categories of
     Some (_, category) \<Rightarrow> category | None \<Rightarrow> ''UNKNOWN'')"

definition rejected_item :: "report_item \<Rightarrow> bool" where
  "rejected_item x = (rpi_admission_status x = ''REJECTED'' \<or> rpi_relevance_label x = Some ''REJECT'')"

definition rejection_reasons :: "report_item \<Rightarrow> string list" where
  "rejection_reasons x = [r \<leftarrow> (case rpi_admission_rejection_reasons x of
       [] \<Rightarrow> [str_or (empty_if_none (rpi_rejection_reason x)) ''IRRELEVANT_TOPIC''] | rs \<Rightarrow> rs). r \<noteq> []]"

definition count_reason :: "string \<Rightarrow> (string \<times> nat) list \<Rightarrow> (string \<times> nat) list" where
  "count_reason r m = tbl_put fst m (r, Suc (case tbl_get fst m r of None \<Rightarrow> 0 | Some (_, n) \<Rightarrow> n))"

definition gap_text :: "json_object \<Rightarrow> string" where
  "gap_text g = (case obj_str g ''candidate_id'' of [] \<Rightarrow> [] | c \<Rightarrow> c @ '': '') @ ''('' @ obj_text g ''gap_type'' @ '') '' @
     obj_text g ''claim_or_question''"

section \<open>What the completed tasks contribute\<close>

text \<open>Lists in the order of the loop over the completed tasks, research before strategy where a task's kind matters.\<close>

definition of_kind :: "string \<Rightarrow> task_row list \<Rightarrow> task_row list" where
  "of_kind k ts = [t \<leftarrow> ts. tk_agent_type t = k]"

definition report_evidence :: "report_env \<Rightarrow> task_row list \<Rightarrow> report_item list" where
  "report_evidence x completed = [item. t \<leftarrow> of_kind ''research'' completed, j \<leftarrow> obj_list (output_of t) ''evidence'',
     Some item \<leftarrow> [rx_validate x j]]"

definition evidence_pool :: "report_env \<Rightarrow> task_row list \<Rightarrow> (string \<times> evidence_item) list" where
  "evidence_pool x completed = fold (\<lambda>item pool. tbl_put fst pool (rpi_id item, rpi_item item))
     [item \<leftarrow> report_evidence x completed. \<not> rejected_item item] []"

definition flagged_verdict :: "task_row \<Rightarrow> bool" where
  "flagged_verdict t = (let v = obj_str (output_of t) ''qa_verdict'' in v \<noteq> [] \<and> v \<noteq> ''PASS'')"

definition task_assumptions :: "task_row \<Rightarrow> string list" where
  "task_assumptions t = (if tk_agent_type t \<in> {''research'', ''strategy''} then obj_strs (output_of t) ''assumptions'' else [])"

definition task_unsupported :: "task_row \<Rightarrow> string list" where
  "task_unsupported t = (if tk_agent_type t \<in> {''research'', ''strategy''} then obj_strs (output_of t) ''unsupported_claims'' else [])"

definition research_questions :: "task_row \<Rightarrow> string list" where
  "research_questions t = (if obj_flag (output_of t) ''insufficient_evidence'' then [''Insufficient evidence for: '' @ tk_title t] else []) @
     obj_strs (output_of t) ''open_questions''"

definition last_recommendation :: "task_row list \<Rightarrow> string" where
  "last_recommendation completed = fold (\<lambda>t r. case obj_get (output_of t) ''recommendation'' of Some (JStr s) \<Rightarrow> s | _ \<Rightarrow> r)
     (of_kind ''strategy'' completed) ''No recommendation available yet.''"

definition role_line :: "task_row \<Rightarrow> string list" where
  "role_line t = (let out = output_of t in
     if obj_get out ''worker_model_calls'' \<noteq> None \<or> obj_get out ''qa_model_calls'' \<noteq> None then
       [capitalize (tk_agent_type t) @ '' '' @ quoted (tk_title t) @ '': worker model calls: '' @ int_str (obj_count out ''worker_model_calls'') @
        '', QA evaluator calls: '' @ int_str (obj_count out ''qa_model_calls'')]
     else [])"

definition report_status :: "string option \<Rightarrow> task_row list \<Rightarrow> task_approval list \<Rightarrow> task_row list \<Rightarrow> string" where
  "report_status budget failed pending completed =
     (if budget \<notin> {None, Some []} then ''STOPPED_BUDGET_LIMIT''
      else if failed \<noteq> [] then ''COMPLETED_WITH_FAILURES''
      else if pending \<noteq> [] then ''NEEDS_APPROVAL''
      else if \<exists>t \<in> set completed. flagged_verdict t then ''COMPLETED_WITH_REVIEW''
      else ''COMPLETED'')"

definition live_research :: "task_db \<Rightarrow> string \<Rightarrow> bool" where
  "live_research db p = (\<exists>r \<in> set (list_project_usage db p). ur_provider r \<notin> {''anthropic'', ''openai'', ''mock''})"

definition budget_action :: "string \<Rightarrow> string" where
  "budget_action reason =
     (if contains ''MAX_TOKENS_PER_MISSION'' reason \<or> contains ''MAX_API_CALLS_PER_MISSION'' reason then
        ''Mission stopped at the configured token safety limit ('' @ reason @
        ''). Reduce/target the research context (e.g. a narrower validation scope) or continue validation in a new bounded mission, '' @
        ''rather than raising the limit.''
      else ''Mission stopped early: '' @ reason @ ''. Raise the limit or start a new run to continue.'')"

definition next_actions :: "task_db \<Rightarrow> string \<Rightarrow> string option \<Rightarrow> task_row list \<Rightarrow> task_row list \<Rightarrow> task_approval list \<Rightarrow> string list" where
  "next_actions db p budget completed failed pending =
     (let categories = [classify_error_text (tk_error t). t \<leftarrow> failed];
          stopped = (budget \<notin> {None, Some []})
      in (if pending \<noteq> [] then [''Resolve pending approvals to continue.''] else []) @
         (if stopped then [budget_action (the budget)] else []) @
         (if pending = [] \<and> \<not> stopped then
            (if ''AUTHENTICATION'' \<in> set categories then [''Fix provider authentication (see the failed task's error) and retry.'']
             else if \<exists>t \<in> set (of_kind ''research'' failed). classify_error_text (tk_error t) \<in> {''PARSING'', ''INVALID_REQUEST''}
               then [''Resolve the Research model structured-output failure, then rerun the mission.'']
             else if list_project_evidence db p = [] \<and> \<not> live_research db p
               then [''Connect a live ResearchProvider to replace development/sample research data.'']
             else if \<exists>t \<in> set (of_kind ''research'' completed). obj_flag (output_of t) ''insufficient_evidence''
               then [''Run targeted follow-up research for unresolved evidence gaps.'']
             else [])
          else []))"

text \<open>The cited ids are a set in the code; they are taken in the order they were cited in. The evidence shown is at most twenty items.\<close>

definition evidence_details :: "report_env \<Rightarrow> task_db \<Rightarrow> string \<Rightarrow> task_row list \<Rightarrow> evidence_item list" where
  "evidence_details x db p completed =
     (let pool = (case evidence_pool x completed of
            [] \<Rightarrow> fold (\<lambda>e pool. tbl_put fst pool (ei_id (ev_item e), ev_item e)) (list_project_evidence db p) []
          | pool \<Rightarrow> pool);
          cited = from_keys [i. t \<leftarrow> of_kind ''strategy'' completed, i \<leftarrow> obj_strs (output_of t) ''evidence_used'']
      in take 20 (if cited \<noteq> [] then [e. i \<leftarrow> cited, Some (_, e) \<leftarrow> [tbl_get fst pool i]] else map snd pool))"

definition final_recommendation :: "string option \<Rightarrow> task_row list \<Rightarrow> task_row list \<Rightarrow> string" where
  "final_recommendation budget completed not_started =
     (let r = last_recommendation completed;
          final_qa_ran = (completed \<noteq> [] \<and> \<not> (\<exists>t \<in> set completed. flagged_verdict t) \<and> not_started = [])
      in if budget \<notin> {None, Some []} \<and> \<not> final_qa_ran \<and> r \<noteq> ''No recommendation available yet.''
         then ''PRELIMINARY - pending final QA validation (mission stopped before it could complete): '' @ r else r)"

definition build_report :: "report_env \<Rightarrow> task_exec_env \<Rightarrow> string \<Rightarrow> string \<Rightarrow> string \<Rightarrow> string option \<Rightarrow> task_db \<Rightarrow> mission_report \<times> task_db" where
  "build_report x e ws p objective budget db =
     (let tasks = list_project_tasks db p;
          completed = [t \<leftarrow> tasks. tk_status t = TS_COMPLETED];
          failed = [t \<leftarrow> tasks. tk_status t = TS_FAILED];
          not_started = [t \<leftarrow> tasks. tk_status t \<in> {TS_PLANNED, TS_READY, TS_WAITING}];
          pending = list_workspace_approvals db ws (Some TA_PENDING);
          research = of_kind ''research'' completed;
          strategy = of_kind ''strategy'' completed;
          rejected = [item \<leftarrow> report_evidence x completed. rejected_item item];
          options = [opt. t \<leftarrow> strategy, opt \<leftarrow> obj_objs (output_of t) ''options_considered''];
          stopped = (budget \<notin> {None, Some []});
          status = report_status budget failed pending completed
      in (\<lparr>mxr_objective = objective, mxr_status = status,
          mxr_what_was_done = [''['' @ tk_agent_type t @ ''] '' @ tk_title t @ '' - COMPLETED''. t \<leftarrow> completed] @
            [''['' @ tk_agent_type t @ ''] '' @ tk_title t @ '' - FAILED: '' @ (case tk_error t of None \<Rightarrow> ''None'' | Some m \<Rightarrow> m). t \<leftarrow> failed] @
            (if stopped then [''['' @ tk_agent_type t @ ''] '' @ tk_title t @ '' - NOT STARTED (mission stopped)''. t \<leftarrow> not_started] else []),
          mxr_key_findings = from_keys [obj_str f ''claim''. t \<leftarrow> research, f \<leftarrow> obj_objs (output_of t) ''findings''],
          mxr_evidence = from_keys [s. opt \<leftarrow> options, s \<leftarrow> obj_strs opt ''supporting_evidence'', s \<noteq> []],
          mxr_evidence_details = evidence_details x db p completed,
          mxr_recommendation = final_recommendation budget completed not_started,
          mxr_rejected_evidence_count = length rejected,
          mxr_rejected_evidence_reasons = sort_key fst (fold count_reason [r. item \<leftarrow> rejected, r \<leftarrow> rejection_reasons item] []),
          mxr_risks = from_keys ([s. opt \<leftarrow> options, s \<leftarrow> obj_strs opt ''risks''] @
            [''Task failed and could not complete: '' @ tk_title t. t \<leftarrow> failed]),
          mxr_assumptions = from_keys (concat (map task_assumptions completed)),
          mxr_open_questions = from_keys (concat (map research_questions research)),
          mxr_unresolved_evidence_gaps = from_keys [gap_text g. t \<leftarrow> research, g \<leftarrow> obj_objs (output_of t) ''evidence_gaps'',
            \<not> obj_flag g ''resolved''],
          mxr_qa_notes = from_keys [quoted (tk_title t) @ '' flagged '' @ obj_str (output_of t) ''qa_verdict'' @ '': '' @
            bounded_report_text (obj_str (output_of t) ''qa_feedback''). t \<leftarrow> completed, flagged_verdict t],
          mxr_unsupported_claims = from_keys (concat (map task_unsupported completed)),
          mxr_usage_role_breakdown = concat (map role_line completed),
          mxr_next_actions = next_actions db p budget completed failed pending,
          mxr_approvals_required = [tv_requested_action a @ '' (risk='' @ risk_level_value (tv_risk_level a) @ '')''. a \<leftarrow> pending],
          mxr_comparison_ready = fold (\<lambda>t r. case obj_get (output_of t) ''comparison_ready'' of None \<Rightarrow> r | v \<Rightarrow> v) strategy None,
          mxr_evidence_coverage = [rx_coverage_line x s. t \<leftarrow> strategy, s \<leftarrow> obj_objs (output_of t) ''candidate_statuses''],
          mxr_critical_gaps = from_keys [s. t \<leftarrow> strategy, s \<leftarrow> obj_strs (output_of t) ''missing_requirements''],
          mxr_other_material_gaps = from_keys [s. t \<leftarrow> strategy, s \<leftarrow> obj_strs (output_of t) ''other_material_gaps''],
          mxr_next_research = from_keys [s. t \<leftarrow> strategy, s \<leftarrow> obj_strs (output_of t) ''remediation_queries''],
          mxr_usage = totals_for_project (txe_sql_sum e) db p,
          mxr_usage_by_agent = breakdown_by_agent_and_provider db p,
          mxr_total_retries = sum_list (map tk_retry_count tasks)\<rparr>,
          record_event \<lparr>tx_workspace_id = ws, tx_actor_type = ''jarvis'', tx_actor_id = None, tx_event_type = REPORT_GENERATED,
            tx_entity_type = ''project'', tx_entity_id = p, tx_metadata = Some [(''status'', JStr status)]\<rparr> db))"

section \<open>The whole run\<close>

record mission_env =
  mx_exec :: task_exec_env
  mx_report :: report_env
  mx_limit :: int
  mx_plan :: "string \<Rightarrow> model_usage list \<times> (string + execution_plan)"

datatype objective_error = Planning_Failed "string planning_error" | Mission_Crashed service_error | Mission_Unfinished

text \<open>The planner's usage is stored with the plan, in one transaction.\<close>

definition start_mission :: "mission_env \<Rightarrow> string \<Rightarrow> string \<Rightarrow> string \<Rightarrow> task_db \<Rightarrow> objective_error + task_db" where
  "start_mission m ws p objective db =
     (let e = mx_exec m; (events, reply) = mx_plan m objective
      in case create_plan (\<lambda>_. reply) objective of
        Inl x \<Rightarrow> Inl (Planning_Failed x)
      | Inr plan \<Rightarrow> (case persist_plan (txe_uuid e) (txe_clock e db) ws p plan
            (record_usage (txe_pricing e) (txe_clock e db) ws p None ''jarvis'' events db) of
          Inl x \<Rightarrow> Inl (Mission_Crashed x) | Inr (_, db) \<Rightarrow> Inr db))"

definition run_objective :: "mission_env \<Rightarrow> string \<Rightarrow> string \<Rightarrow> string \<Rightarrow> nat list list \<Rightarrow> task_db \<Rightarrow>
    task_db \<times> (objective_error + mission_report)" where
  "run_objective m ws p objective scheds db = (case start_mission m ws p objective db of
     Inl x \<Rightarrow> (db, Inl x)
   | Inr db \<Rightarrow> (case mission_loop (mx_exec m) ws p (mx_limit m) scheds 0 db of
       (db, Crashed x) \<Rightarrow> (db, Inl (Mission_Crashed x))
     | (db, Unfinished) \<Rightarrow> (db, Inl Mission_Unfinished)
     | (db, Budget_Stopped reason) \<Rightarrow> (case build_report (mx_report m) (mx_exec m) ws p objective (Some reason) db of (r, db) \<Rightarrow> (db, Inr r))
     | (db, _) \<Rightarrow> (case build_report (mx_report m) (mx_exec m) ws p objective None db of (r, db) \<Rightarrow> (db, Inr r))))"

end
