(* ===== verification/Task_Plans.thy ===== *)
theory Task_Plans
  imports Task_Safety
begin

text \<open>
  What \<open>persist_plan\<close> makes of a validated plan: which plans it stores, what it stores, and that the tasks stored never block each
  other for good.
\<close>

section \<open>Creating the tasks\<close>

text \<open>Ids in use have been drawn.\<close>

definition ids_used :: "(nat \<Rightarrow> string) \<Rightarrow> task_db \<Rightarrow> bool" where
  "ids_used uuid db = (tk_id ` set (tb_tasks db) \<subseteq> uuid ` {..<tb_draws db} \<and>
     td_task_id ` set (tb_dependencies db) \<subseteq> tk_id ` set (tb_tasks db) \<and>
     td_depends_on_task_id ` set (tb_dependencies db) \<subseteq> tk_id ` set (tb_tasks db) \<and> distinct (map dependency_pair (tb_dependencies db)))"

definition planned_task :: "string \<Rightarrow> new_task \<Rightarrow> task_row" where
  "planned_task i n = (fresh_task i n)\<lparr>tk_status := TS_PLANNED\<rparr>"

lemma drawn_fresh: "inj uuid \<Longrightarrow> X \<subseteq> uuid ` {..<n} \<Longrightarrow> n \<le> m \<Longrightarrow> uuid (m::nat) \<notin> X"
proof
  assume a: "inj uuid" "X \<subseteq> uuid ` {..<n}" "n \<le> m" "uuid m \<in> X"
  then obtain k where "k < n" "uuid m = uuid k" by auto
  moreover have "m = k" using injD [OF a(1)] \<open>uuid m = uuid k\<close> by blast
  ultimately show False using a(3) by simp
qed

lemma tbl_upd_absent: "k \<notin> key ` set t \<Longrightarrow> tbl_upd key t k f = t"
  unfolding tbl_upd_def by (rule map_idI) auto

lemma create_planned:
  assumes "uuid (tb_draws db) \<notin> tk_id ` set (tb_tasks db)" "nt_depends_on_task_ids n = []"
  shows "\<exists>evs. create_task uuid now ws n db = Inr (uuid (tb_draws db),
    db\<lparr>tb_tasks := tb_tasks db @ [planned_task (uuid (tb_draws db)) n], tb_events := evs, tb_draws := Suc (tb_draws db)\<rparr>)"
proof -
  let ?i = "uuid (tb_draws db)"
  let ?db1 = "drawn (db\<lparr>tb_tasks := tb_tasks db @ [fresh_task ?i n]\<rparr>)"
  have get: "tbl_get tk_id (tb_tasks db) ?i = None" using assms(1) by (simp add: tbl_get_None_iff)
  have id: "tk_id (fresh_task ?i n) = ?i" by (simp add: fresh_task_def)
  have ins: "insert_task (fresh_task ?i n) db = Inr ?db1" using get by (simp add: insert_task_def tbl_insert_def id)
  let ?db2 = "record_event \<lparr>tx_workspace_id = ws, tx_actor_type = ''jarvis'', tx_actor_id = None, tx_event_type = TASK_CREATED,
    tx_entity_type = ''task'', tx_entity_id = ?i, tx_metadata = Some [(''title'', JStr (nt_title n)), (''agent_type'', JStr (nt_agent_type n))]\<rparr> ?db1"
  have found: "get_task ?db2 ?i = Some (fresh_task ?i n)"
    using get by (simp add: get_task_def record_event_def drawn_def tbl_get_append tbl_get_Cons id)
  have tr: "transition now ws ?i TS_PLANNED None None ?db2 = Inr (planned_task ?i n, flush_task (fresh_task ?i n) (planned_task ?i n) ?db2)"
    using found by (simp add: transition_def transition_loaded_def assert_task_transition_def can_task_transition_def fresh_task_def
        assign_status_def or_loaded_def transition_event_def planned_task_def Let_def)
  have "tb_tasks (flush_task (fresh_task ?i n) (planned_task ?i n) ?db2) = tb_tasks db @ [planned_task ?i n]"
    using assms(1) tbl_upd_absent [of ?i tk_id "tb_tasks db"]
    by (simp add: flush_task_def record_event_def drawn_def tbl_upd_def id flush_column_def planned_task_def fresh_task_def)
  then have "flush_task (fresh_task ?i n) (planned_task ?i n) ?db2 = db\<lparr>tb_tasks := tb_tasks db @ [planned_task ?i n],
      tb_events := tb_events ?db2, tb_draws := Suc (tb_draws db)\<rparr>"
    by (simp add: flush_task_def record_event_def drawn_def)
  then show ?thesis using ins tr assms(2) by (auto simp: create_task_def Let_def)
qed

text \<open>The rows of a plan, numbered from the first id drawn.\<close>

fun plan_rows :: "(nat \<Rightarrow> string) \<Rightarrow> string \<Rightarrow> nat \<Rightarrow> task_plan list \<Rightarrow> task_row list" where
  "plan_rows uuid project n [] = []"
| "plan_rows uuid project n (p # ps) = planned_task (uuid n) (task_of_plan project p) # plan_rows uuid project (Suc n) ps"

fun plan_ids :: "(nat \<Rightarrow> string) \<Rightarrow> nat \<Rightarrow> task_plan list \<Rightarrow> (string \<times> string) list" where
  "plan_ids uuid n [] = []"
| "plan_ids uuid n (p # ps) = (tp_key p, uuid n) # plan_ids uuid (Suc n) ps"

lemma plan_rows_ids: "map tk_id (plan_rows uuid project n ps) = map uuid [n..<n + length ps]"
proof (induction ps arbitrary: n)
  case (Cons p ps)
  have "[n..<Suc (n + length ps)] = n # [Suc n..<Suc (n + length ps)]" by (simp add: upt_rec)
  then show ?case using Cons by (simp add: planned_task_def fresh_task_def)
qed simp

lemma plan_ids_map: "map fst (plan_ids uuid n ps) = map tp_key ps" "map snd (plan_ids uuid n ps) = map uuid [n..<n + length ps]"
proof -
  show "map fst (plan_ids uuid n ps) = map tp_key ps" by (induction ps arbitrary: n) simp_all
  show "map snd (plan_ids uuid n ps) = map uuid [n..<n + length ps]"
  proof (induction ps arbitrary: n)
    case (Cons p ps)
    have "[n..<Suc (n + length ps)] = n # [Suc n..<Suc (n + length ps)]" by (simp add: upt_rec)
    then show ?case using Cons by simp
  qed simp
qed

lemma persist_tasks_rows:
  assumes "inj uuid" "tk_id ` set (tb_tasks db) \<subseteq> uuid ` {..<tb_draws db}" "distinct (map tp_key ps)" "tp_key ` set ps \<inter> fst ` set ids = {}"
  shows "\<exists>evs. persist_tasks uuid now ws project ps ids db = Inr (ids @ plan_ids uuid (tb_draws db) ps,
    db\<lparr>tb_tasks := tb_tasks db @ plan_rows uuid project (tb_draws db) ps, tb_events := evs, tb_draws := tb_draws db + length ps\<rparr>)"
  using assms(2-4)
proof (induction ps arbitrary: ids db)
  case Nil
  have "db\<lparr>tb_tasks := tb_tasks db, tb_events := tb_events db, tb_draws := tb_draws db\<rparr> = db" by simp
  then show ?case by (metis (no_types) append_Nil2 list.size(3) persist_tasks.simps(1) plan_ids.simps(1) plan_rows.simps(1) add_0_right)
next
  case (Cons p ps)
  let ?i = "uuid (tb_draws db)" and ?n = "task_of_plan project p"
  obtain evs where c: "create_task uuid now ws ?n db = Inr (?i, db\<lparr>tb_tasks := tb_tasks db @ [planned_task ?i ?n], tb_events := evs,
      tb_draws := Suc (tb_draws db)\<rparr>)"
  proof -
    have "nt_depends_on_task_ids ?n = []" by (simp add: task_of_plan_def)
    from create_planned [of uuid db, OF drawn_fresh [OF assms(1) Cons.prems(1) order_refl] this] show ?thesis using that by blast
  qed
  let ?db = "db\<lparr>tb_tasks := tb_tasks db @ [planned_task ?i ?n], tb_events := evs, tb_draws := Suc (tb_draws db)\<rparr>"
  have "tk_id ` set (tb_tasks ?db) \<subseteq> uuid ` {..<tb_draws ?db}"
    using Cons.prems(1) ids_drawn [of "tk_id ` set (tb_tasks db)" uuid "tb_draws db" "Suc (tb_draws db)"]
    by (simp add: planned_task_def fresh_task_def)
  moreover have put: "tbl_put fst ids (tp_key p, ?i) = ids @ [(tp_key p, ?i)]"
    using Cons.prems(3) by (simp add: tbl_put_def tbl_get_None_iff)
  ultimately obtain evs' where "persist_tasks uuid now ws project ps (ids @ [(tp_key p, ?i)]) ?db =
      Inr ((ids @ [(tp_key p, ?i)]) @ plan_ids uuid (tb_draws ?db) ps,
        ?db\<lparr>tb_tasks := tb_tasks ?db @ plan_rows uuid project (tb_draws ?db) ps, tb_events := evs', tb_draws := tb_draws ?db + length ps\<rparr>)"
    using Cons.IH [of ?db "ids @ [(tp_key p, ?i)]"] Cons.prems(2,3) by auto
  then show ?case using c put by auto
qed

section \<open>Linking them\<close>

definition key_id :: "(string \<times> string) list \<Rightarrow> string \<Rightarrow> string" where
  "key_id ids k = (case tbl_get fst ids k of None \<Rightarrow> [] | Some (_, i) \<Rightarrow> i)"

definition plan_pairs :: "(string \<times> string) list \<Rightarrow> task_plan list \<Rightarrow> (string \<times> string) list" where
  "plan_pairs ids ps = concat (map (\<lambda>p. map (\<lambda>k. (key_id ids (tp_key p), key_id ids k)) (tp_dependencies p)) ps)"

definition as_rows :: "(string \<times> string) list \<Rightarrow> task_dependency list" where
  "as_rows prs = map (\<lambda>(i, d). \<lparr>td_task_id = i, td_depends_on_task_id = d\<rparr>) prs"

lemma as_rows_pairs [simp]: "map dependency_pair (as_rows prs) = prs"
  by (induction prs) (auto simp: as_rows_def dependency_pair_def)

lemma known_key: "k \<in> fst ` set ids \<Longrightarrow> task_for_key ids k = Inr (key_id ids k)"
  using tbl_get_None_iff [of fst ids k] by (auto simp: task_for_key_def key_id_def split: option.splits)

lemma add_dependency_eq: "add_dependency i d db =
    (if (i, d) \<in> set (map dependency_pair (tb_dependencies db)) then Inl IntegrityError
     else Inr (db\<lparr>tb_dependencies := tb_dependencies db @ as_rows [(i, d)]\<rparr>))"
  by (auto simp: add_dependency_def tbl_insert_def tbl_get_None_iff as_rows_def dependency_pair_def split: option.splits)

lemma link_task_eq:
  assumes "set ks \<subseteq> fst ` set ids" "distinct (map dependency_pair (tb_dependencies db))"
  shows "link_task ids i ks db =
    (if distinct (map dependency_pair (tb_dependencies db) @ map (\<lambda>k. (i, key_id ids k)) ks)
     then Inr (db\<lparr>tb_dependencies := tb_dependencies db @ as_rows (map (\<lambda>k. (i, key_id ids k)) ks)\<rparr>) else Inl IntegrityError)"
  using assms
proof (induction ks arbitrary: db)
  case Nil
  then show ?case by (simp add: as_rows_def)
next
  case (Cons k ks)
  let ?pr = "(i, key_id ids k)" and ?db = "db\<lparr>tb_dependencies := tb_dependencies db @ as_rows [(i, key_id ids k)]\<rparr>"
  have step: "link_task ids i (k # ks) db = (if ?pr \<in> set (map dependency_pair (tb_dependencies db)) then Inl IntegrityError
      else link_task ids i ks ?db)"
    using Cons.prems(1) by (simp add: known_key add_dependency_eq)
  show ?case
  proof (cases "?pr \<in> set (map dependency_pair (tb_dependencies db))")
    case True
    then have "\<not> distinct (map dependency_pair (tb_dependencies db) @ map (\<lambda>k. (i, key_id ids k)) (k # ks))" by auto
    then show ?thesis using step True by simp
  next
    case False
    have eq: "map dependency_pair (tb_dependencies ?db) = map dependency_pair (tb_dependencies db) @ [?pr]" by simp
    have "distinct (map dependency_pair (tb_dependencies ?db))" using False Cons.prems(2) unfolding eq by simp
    then have "link_task ids i ks ?db = (if distinct ((map dependency_pair (tb_dependencies db) @ [?pr]) @ map (\<lambda>k. (i, key_id ids k)) ks)
        then Inr (?db\<lparr>tb_dependencies := tb_dependencies ?db @ as_rows (map (\<lambda>k. (i, key_id ids k)) ks)\<rparr>) else Inl IntegrityError)"
      using Cons.IH [of ?db] Cons.prems(1) unfolding eq by simp
    then show ?thesis using step False by (simp add: as_rows_def)
  qed
qed

lemma link_tasks_eq:
  assumes "\<forall>p \<in> set ps. tp_key p \<in> fst ` set ids \<and> set (tp_dependencies p) \<subseteq> fst ` set ids"
    and "distinct (map dependency_pair (tb_dependencies db))"
  shows "link_tasks ids ps db =
    (if distinct (map dependency_pair (tb_dependencies db) @ plan_pairs ids ps)
     then Inr (db\<lparr>tb_dependencies := tb_dependencies db @ as_rows (plan_pairs ids ps)\<rparr>) else Inl IntegrityError)"
  using assms
proof (induction ps arbitrary: db)
  case Nil
  then show ?case by (simp add: as_rows_def plan_pairs_def)
next
  case (Cons p ps)
  let ?prs = "map (\<lambda>k. (key_id ids (tp_key p), key_id ids k)) (tp_dependencies p)"
  let ?db = "db\<lparr>tb_dependencies := tb_dependencies db @ as_rows ?prs\<rparr>"
  let ?old = "map dependency_pair (tb_dependencies db)"
  have pairs: "plan_pairs ids (p # ps) = ?prs @ plan_pairs ids ps" by (simp add: plan_pairs_def)
  have step: "link_tasks ids (p # ps) db = (if distinct (?old @ ?prs) then link_tasks ids ps ?db else Inl IntegrityError)"
    using Cons.prems by (simp add: known_key link_task_eq)
  show ?case
  proof (cases "distinct (?old @ ?prs)")
    case False
    then show ?thesis using step unfolding pairs by (simp del: distinct_append) auto
  next
    case True
    have eq: "map dependency_pair (tb_dependencies ?db) = ?old @ ?prs" by simp
    then have "link_tasks ids ps ?db = (if distinct ((?old @ ?prs) @ plan_pairs ids ps)
        then Inr (?db\<lparr>tb_dependencies := tb_dependencies ?db @ as_rows (plan_pairs ids ps)\<rparr>) else Inl IntegrityError)"
      using Cons.IH [of ?db] Cons.prems(1) True unfolding eq by simp
    then show ?thesis using step True unfolding pairs by (simp add: as_rows_def)
  qed
qed

section \<open>What is stored\<close>

lemma key_id_mem: "distinct (map fst ids) \<Longrightarrow> (k, i) \<in> set ids \<Longrightarrow> key_id ids k = i"
  using tbl_get_mem [of fst ids "(k, i)"] by (simp add: key_id_def tbl_unique_def)

lemma key_id_range:
  assumes "distinct (map tp_key ps)" "k \<in> tp_key ` set ps"
  shows "(k, key_id (plan_ids uuid n ps) k) \<in> set (plan_ids uuid n ps)" "key_id (plan_ids uuid n ps) k \<in> uuid ` {n..<n + length ps}"
proof -
  have "k \<in> fst ` set (plan_ids uuid n ps)" using assms(2) plan_ids_map(1) [of uuid n ps] by (metis list.set_map)
  then obtain i where i: "(k, i) \<in> set (plan_ids uuid n ps)" by auto
  moreover have "distinct (map fst (plan_ids uuid n ps))" using assms(1) by (simp add: plan_ids_map)
  ultimately have eq: "key_id (plan_ids uuid n ps) k = i" by (simp add: key_id_mem)
  then show "(k, key_id (plan_ids uuid n ps) k) \<in> set (plan_ids uuid n ps)" using i by simp
  have "i \<in> set (map snd (plan_ids uuid n ps))" using i by force
  then show "key_id (plan_ids uuid n ps) k \<in> uuid ` {n..<n + length ps}" by (simp add: eq plan_ids_map)
qed

lemma key_id_inj:
  assumes "inj uuid" "distinct (map tp_key ps)"
  shows "inj_on (key_id (plan_ids uuid n ps)) (tp_key ` set ps)"
proof (rule inj_onI)
  fix k l assume k: "k \<in> tp_key ` set ps" "l \<in> tp_key ` set ps" and eq: "key_id (plan_ids uuid n ps) k = key_id (plan_ids uuid n ps) l"
  have "distinct (map snd (plan_ids uuid n ps))" using inj_on_subset [OF assms(1) subset_UNIV] by (simp add: plan_ids_map distinct_map)
  moreover have "(k, key_id (plan_ids uuid n ps) k) \<in> set (plan_ids uuid n ps)" "(l, key_id (plan_ids uuid n ps) k) \<in> set (plan_ids uuid n ps)"
    using key_id_range(1) [OF assms(2)] k eq by metis+
  ultimately have "(k, key_id (plan_ids uuid n ps) k) = (l, key_id (plan_ids uuid n ps) k)"
    by (intro inj_onD [of snd "set (plan_ids uuid n ps)"]) (simp_all add: distinct_map)
  then show "k = l" by simp
qed

lemma plan_pairs_distinct:
  assumes "distinct (map tp_key ps)" "inj_on f (tp_key ` set ps \<union> (\<Union>p \<in> set ps. set (tp_dependencies p)))"
  shows "distinct (concat (map (\<lambda>p. map (\<lambda>k. (f (tp_key p), f k)) (tp_dependencies p)) ps)) \<longleftrightarrow> (\<forall>p \<in> set ps. distinct (tp_dependencies p))"
  using assms
proof (induction ps)
  case (Cons p ps)
  have "inj_on f (tp_key ` set ps \<union> (\<Union>p \<in> set ps. set (tp_dependencies p)))" and inj: "inj_on f (set (tp_dependencies p))"
    using Cons.prems(2) by (rule inj_on_subset, auto)+
  then have rest: "distinct (concat (map (\<lambda>p. map (\<lambda>k. (f (tp_key p), f k)) (tp_dependencies p)) ps)) \<longleftrightarrow>
      (\<forall>p \<in> set ps. distinct (tp_dependencies p))"
    using Cons.IH Cons.prems(1) by simp
  have "f (tp_key q) \<noteq> f (tp_key p)" if q: "q \<in> set ps" for q
  proof
    assume "f (tp_key q) = f (tp_key p)"
    then have "tp_key q = tp_key p" by (rule inj_onD [OF Cons.prems(2)]) (use q in auto)
    then show False using Cons.prems(1) imageI [OF q, of tp_key] by simp
  qed
  then have disj: "set (map (\<lambda>k. (f (tp_key p), f k)) (tp_dependencies p)) \<inter>
      set (concat (map (\<lambda>p. map (\<lambda>k. (f (tp_key p), f k)) (tp_dependencies p)) ps)) = {}"
    by fastforce
  have "inj_on (\<lambda>k. (f (tp_key p), f k)) (set (tp_dependencies p))" using inj by (simp add: inj_on_def)
  then have "distinct (map (\<lambda>k. (f (tp_key p), f k)) (tp_dependencies p)) \<longleftrightarrow> distinct (tp_dependencies p)" by (simp add: distinct_map)
  then show ?case using rest disj by (simp only: list.map concat.simps distinct_append list.set ball_simps) blast
qed simp

text \<open>The database after a plan was stored, but for the audit.\<close>

definition stored_plan :: "(nat \<Rightarrow> string) \<Rightarrow> string \<Rightarrow> task_plan list \<Rightarrow> task_event list \<Rightarrow> task_db \<Rightarrow> task_db" where
  "stored_plan uuid project ps evs db = db\<lparr>tb_tasks := tb_tasks db @ plan_rows uuid project (tb_draws db) ps,
     tb_dependencies := tb_dependencies db @ as_rows (plan_pairs (plan_ids uuid (tb_draws db) ps) ps),
     tb_events := evs, tb_draws := tb_draws db + length ps\<rparr>"

lemma task_edges_alt: "Range (task_edges ps) = (\<Union>p \<in> set ps. set (tp_dependencies p))"
  by (auto simp: task_edges_def)

lemma persist_plan_eq:
  assumes "valid_tasks (ep_tasks plan)" "inj uuid" "ids_used uuid db"
  shows "if \<forall>p \<in> set (ep_tasks plan). distinct (tp_dependencies p)
    then \<exists>evs. persist_plan uuid now ws project plan db =
      Inr (plan_ids uuid (tb_draws db) (ep_tasks plan), stored_plan uuid project (ep_tasks plan) evs db)
    else persist_plan uuid now ws project plan db = Inl IntegrityError"
proof -
  let ?ps = "ep_tasks plan" and ?n = "tb_draws db"
  let ?ids = "plan_ids uuid ?n ?ps"
  have keys: "distinct (map tp_key ?ps)" and known: "Range (task_edges ?ps) \<subseteq> tp_key ` set ?ps" using assms(1) by (simp_all add: valid_tasks_def)
  have used: "tk_id ` set (tb_tasks db) \<subseteq> uuid ` {..<?n}" "td_task_id ` set (tb_dependencies db) \<subseteq> tk_id ` set (tb_tasks db)"
      "distinct (map dependency_pair (tb_dependencies db))" using assms(3) by (simp_all add: ids_used_def)
  obtain evs where p: "persist_tasks uuid now ws project ?ps [] db = Inr (?ids, db\<lparr>tb_tasks := tb_tasks db @ plan_rows uuid project ?n ?ps,
      tb_events := evs, tb_draws := ?n + length ?ps\<rparr>)"
    using persist_tasks_rows [OF assms(2) used(1) keys, of "[]" now ws project] by auto
  let ?db = "db\<lparr>tb_tasks := tb_tasks db @ plan_rows uuid project ?n ?ps, tb_events := evs, tb_draws := ?n + length ?ps\<rparr>"
  have fst_ids: "fst ` set ?ids = tp_key ` set ?ps" using plan_ids_map(1) [of uuid ?n ?ps] by (metis list.set_map)
  have inj: "inj_on (key_id ?ids) (tp_key ` set ?ps \<union> (\<Union>p \<in> set ?ps. set (tp_dependencies p)))"
    by (rule inj_on_subset [OF key_id_inj [OF assms(2) keys]]) (use known in \<open>auto simp: task_edges_alt\<close>)
  have "fst ` set (plan_pairs ?ids ?ps) \<subseteq> uuid ` {?n..<?n + length ?ps}"
    using key_id_range(2) [OF keys] by (auto simp: plan_pairs_def)
  moreover have "fst ` set (map dependency_pair (tb_dependencies db)) \<subseteq> uuid ` {..<?n}"
    using subset_trans [OF used(2,1)] by (simp add: image_image dependency_pair_def)
  moreover have "uuid ` {..<?n} \<inter> uuid ` {?n..<?n + length ?ps} = {}" using assms(2) by (auto dest: injD)
  ultimately have "set (map dependency_pair (tb_dependencies db)) \<inter> set (plan_pairs ?ids ?ps) = {}" by blast
  then have dist: "distinct (map dependency_pair (tb_dependencies db) @ plan_pairs ?ids ?ps) \<longleftrightarrow> (\<forall>p \<in> set ?ps. distinct (tp_dependencies p))"
    using used(3) plan_pairs_distinct [OF keys inj] by (simp add: plan_pairs_def)
  have known': "\<forall>p \<in> set ?ps. tp_key p \<in> fst ` set ?ids \<and> set (tp_dependencies p) \<subseteq> fst ` set ?ids"
    using known by (auto simp: fst_ids task_edges_alt)
  have link: "link_tasks ?ids ?ps ?db = (if \<forall>p \<in> set ?ps. distinct (tp_dependencies p)
      then Inr (?db\<lparr>tb_dependencies := tb_dependencies db @ as_rows (plan_pairs ?ids ?ps)\<rparr>) else Inl IntegrityError)"
    using link_tasks_eq [OF known', of ?db] used(3) dist by simp
  have stored: "record_event x (?db\<lparr>tb_dependencies := tb_dependencies db @ as_rows (plan_pairs ?ids ?ps)\<rparr>) =
      stored_plan uuid project ?ps (evs @ [x]) db" for x
    by (simp add: record_event_def stored_plan_def)
  show ?thesis
  proof (cases "\<forall>p \<in> set ?ps. distinct (tp_dependencies p)")
    case True
    then show ?thesis unfolding persist_plan_def p using link stored by (simp del: append_assoc) blast
  next
    case False
    then show ?thesis unfolding persist_plan_def p using link by auto
  qed
qed

lemma stored_plan_of:
  assumes "valid_tasks (ep_tasks plan)" "inj uuid" "ids_used uuid db" "persist_plan uuid now ws project plan db = Inr (keys, db')"
  shows "\<exists>evs. db' = stored_plan uuid project (ep_tasks plan) evs db"
proof -
  let ?r = "persist_plan uuid now ws project plan db"
  have "?r \<noteq> Inl IntegrityError" using assms(4) by simp
  then have "\<exists>evs. ?r = Inr (plan_ids uuid (tb_draws db) (ep_tasks plan), stored_plan uuid project (ep_tasks plan) evs db)"
    using persist_plan_eq [OF assms(1-3), of now ws project] by presburger
  then show ?thesis unfolding assms(4) by blast
qed

section \<open>The tasks stored\<close>

lemma plan_rows_mem: "t \<in> set (plan_rows uuid project n ps) \<Longrightarrow> tk_status t = TS_PLANNED \<and> tk_project_id t = project"
  by (induction ps arbitrary: n) (auto simp: planned_task_def fresh_task_def task_of_plan_def)

lemma plan_rows_id_set: "tk_id ` set (plan_rows uuid project n ps) = uuid ` {n..<n + length ps}"
  using plan_rows_ids [of uuid project n ps] by (metis list.set_map set_upt)

lemma stored_status:
  "status_of (stored_plan uuid project ps evs db) j = (case status_of db j of Some s \<Rightarrow> Some s
     | None \<Rightarrow> if j \<in> uuid ` {tb_draws db..<tb_draws db + length ps} then Some TS_PLANNED else None)"
proof -
  let ?new = "plan_rows uuid project (tb_draws db) ps"
  have "map_option tk_status (tbl_get tk_id ?new j) = (if j \<in> uuid ` {tb_draws db..<tb_draws db + length ps} then Some TS_PLANNED else None)"
  proof (cases "tbl_get tk_id ?new j")
    case None
    then have "j \<notin> uuid ` {tb_draws db..<tb_draws db + length ps}" by (simp add: tbl_get_None_iff plan_rows_id_set)
    then show ?thesis using None by simp
  next
    case (Some a)
    have a: "a \<in> set ?new" "tk_id a = j" using tbl_get_SomeD [OF Some] by simp_all
    have "j \<in> uuid ` {tb_draws db..<tb_draws db + length ps}" using imageI [OF a(1), of tk_id] by (simp add: plan_rows_id_set a(2))
    then show ?thesis using Some plan_rows_mem [OF a(1)] by simp
  qed
  then show ?thesis by (auto simp: status_of_def get_task_def stored_plan_def tbl_get_append split: option.split)
qed

lemma stored_old_dependencies:
  assumes "distinct (map tp_key ps)" "i \<notin> uuid ` {tb_draws db..<tb_draws db + length ps}"
  shows "get_dependencies (stored_plan uuid project ps evs db) i = get_dependencies db i"
proof -
  have "td_task_id r \<noteq> i" if r: "r \<in> set (as_rows (plan_pairs (plan_ids uuid (tb_draws db) ps) ps))" for r
    using r key_id_range(2) [OF assms(1), of _ uuid "tb_draws db"] assms(2) by (auto simp: as_rows_def plan_pairs_def)
  then show ?thesis by (auto simp: get_dependencies_def stored_plan_def filter_empty_conv concat_eq_Nil_conv)
qed

text \<open>Storing a plan keeps the invariant of the task pipeline.\<close>

theorem stored_plan_inv:
  assumes "task_inv uuid db" "inj uuid" "ids_used uuid db" "distinct (map tp_key ps)"
    and "rn_task_id ` set (tb_runs db) \<subseteq> tk_id ` set (tb_tasks db)"
  shows "task_inv uuid (stored_plan uuid project ps evs db)"
proof -
  let ?db = "stored_plan uuid project ps evs db" and ?new = "uuid ` {tb_draws db..<tb_draws db + length ps}"
  have inv: "approvals_inv uuid db" "order_inv db" "runs_inv db" using assms(1) by (simp_all add: task_inv_def)
  have used: "tk_id ` set (tb_tasks db) \<subseteq> uuid ` {..<tb_draws db}" using assms(3) by (simp add: ids_used_def)
  have "uuid ` {..<tb_draws db} \<inter> ?new = {}" using assms(2) by (auto dest: injD)
  then have disj: "tk_id ` set (tb_tasks db) \<inter> ?new = {}" using used by blast
  have keep: "status_of ?db j = Some s" if "status_of db j = Some s" for j s using that by (simp add: stored_status)
  have known: "j \<in> tk_id ` set (tb_tasks db)" if "status_of db j = Some s" for j s
    using that tbl_get_None_iff [of tk_id "tb_tasks db" j] by (auto simp: status_of_def get_task_def)
  have deps: "deps_done ?db j" if "deps_done db j" "j \<in> tk_id ` set (tb_tasks db)" for j
  proof -
    have "get_dependencies ?db j = get_dependencies db j" using stored_old_dependencies [OF assms(4)] that(2) disj by blast
    then show ?thesis using that(1) keep by (simp add: deps_done_def)
  qed
  have "approvals_inv uuid ?db"
    using inv(1) keep ids_drawn [of "tv_id ` set (tb_approvals db)" uuid "tb_draws db" "tb_draws db + length ps"]
    unfolding approvals_inv_def by (simp add: stored_plan_def)
  moreover have "order_inv ?db"
  proof -
    have "distinct (map tk_id (tb_tasks ?db))"
      using inv(2) disj inj_on_subset [OF assms(2) subset_UNIV] plan_rows_ids [of uuid project "tb_draws db" ps]
      by (simp add: order_inv_def stored_plan_def plan_rows_id_set distinct_map)
    moreover have "deps_done ?db i" if s: "status_of ?db i = Some s" "s \<notin> {TS_PENDING, TS_PLANNED, TS_CANCELLED}" for i s
    proof -
      have "status_of db i = Some s" using s by (auto simp: stored_status split: option.splits if_splits)
      then show ?thesis using inv(2) s(2) deps known unfolding order_inv_def by blast
    qed
    ultimately show ?thesis unfolding order_inv_def by blast
  qed
  moreover have "runs_inv ?db"
  proof -
    have gate: "needs_gate ?db j = needs_gate db j" if "j \<in> tk_id ` set (tb_tasks db)" for j
      using that tbl_get_None_iff [of tk_id "tb_tasks db" j]
      by (auto simp: needs_gate_def get_task_def stored_plan_def tbl_get_append split: option.splits)
    have "approved_for ?db j = approved_for db j" "tb_runs ?db = tb_runs db" for j by (simp_all add: approved_for_def stored_plan_def)
    then show ?thesis using inv(3) assms(5) deps gate unfolding runs_inv_def by (metis image_subset_iff)
  qed
  ultimately show ?thesis by (simp add: task_inv_def)
qed

section \<open>Progress\<close>

text \<open>Every PLANNED task of the list whose dependencies are met is promoted, and no promotion fails.\<close>

lemma promote_each_all:
  assumes "distinct (map tk_id ts)" "\<forall>t \<in> set ts. status_of db (tk_id t) = Some (tk_status t)"
  shows "\<exists>ids db'. promote_each now ws ts db = Inr (ids, db') \<and>
    (\<forall>t \<in> set ts. tk_status t = TS_PLANNED \<longrightarrow> deps_done db (tk_id t) \<longrightarrow> tk_id t \<in> set ids)"
  using assms
proof (induction ts arbitrary: db)
  case (Cons t ts)
  show ?case
  proof (cases "tk_status t \<noteq> TS_PLANNED \<or> \<not> dependencies_met db (tk_id t)")
    case True
    then show ?thesis using Cons.IH [of db] Cons.prems by (auto simp: dependencies_met_iff)
  next
    case False
    have "can_task_transition (tk_status t) TS_READY" using False by (simp add: can_task_transition_def)
    then obtain t' db1 where tr: "transition_loaded now ws t TS_READY None None db = Inr (t', db1)"
      by (simp add: transition_loaded_def assert_task_transition_def Let_def)
    then have sh: "shifted db db1 (tk_id t) TS_READY" using transition_moves moved_shifted by blast
    have ne: "tk_id u \<noteq> tk_id t" if "u \<in> set ts" for u using Cons.prems(1) imageI [OF that, of tk_id] by auto
    have st: "status_of db (tk_id t) \<noteq> Some TS_COMPLETED" using Cons.prems(2) False by simp
    have "\<forall>u \<in> set ts. status_of db1 (tk_id u) = Some (tk_status u)" using ne Cons.prems(2) shifted_other [OF sh] by simp
    then obtain ids db' where r: "promote_each now ws ts db1 = Inr (ids, db')"
        "\<forall>u \<in> set ts. tk_status u = TS_PLANNED \<longrightarrow> deps_done db1 (tk_id u) \<longrightarrow> tk_id u \<in> set ids"
      using Cons.IH [of db1] Cons.prems(1) by auto
    then have "promote_each now ws (t # ts) db = Inr (tk_id t # ids, db')" using False tr by simp
    then show ?thesis using r(2) deps_done_shifted [OF sh st] by auto
  qed
qed simp

lemma plan_edges_wf:
  assumes "valid_tasks ps" "inj uuid"
  shows "wf {(d, i). (i, d) \<in> set (plan_pairs (plan_ids uuid n ps) ps)}"
proof -
  let ?f = "key_id (plan_ids uuid n ps)"
  have keys: "distinct (map tp_key ps)" and known: "Range (task_edges ps) \<subseteq> tp_key ` set ps" and ac: "acyclic (task_edges ps)"
    using assms(1) by (simp_all add: valid_tasks_def)
  have "task_edges ps = (\<Union>t \<in> set ps. \<Union>d \<in> set (tp_dependencies t). {(tp_key t, d)})" by (auto simp: task_edges_def)
  then have "finite (task_edges ps)" by simp
  then have wf: "wf ((task_edges ps)\<inverse>)" using ac by (rule finite_acyclic_wf_converse)
  let ?g = "the_inv_into (tp_key ` set ps) ?f"
  have g: "?g (?f k) = k" if "k \<in> tp_key ` set ps" for k using the_inv_into_f_f [OF key_id_inj [OF assms(2) keys] that] .
  have "{(d, i). (i, d) \<in> set (plan_pairs (plan_ids uuid n ps) ps)} \<subseteq> inv_image ((task_edges ps)\<inverse>) ?g"
  proof (clarsimp simp: plan_pairs_def)
    fix t k assume t: "t \<in> set ps" and k: "k \<in> set (tp_dependencies t)"
    then have e: "(tp_key t, k) \<in> task_edges ps" by (auto simp: task_edges_def)
    then have "k \<in> tp_key ` set ps" using known by blast
    then show "(?g (?f (tp_key t)), ?g (?f k)) \<in> task_edges ps" using g t e by simp
  qed
  then show ?thesis using wf_inv_image [OF wf] wf_subset by blast
qed


section \<open>Properties\<close>

lemma first_plan_dependencies:
  assumes "distinct (map tp_key ps)" "inj uuid" "ids_used uuid db" "j \<in> uuid ` {tb_draws db..<tb_draws db + length ps}"
  shows "d \<in> set (get_dependencies (stored_plan uuid project ps evs db) j) \<longleftrightarrow> (j, d) \<in> set (plan_pairs (plan_ids uuid (tb_draws db) ps) ps)"
proof -
  have "td_task_id ` set (tb_dependencies db) \<subseteq> uuid ` {..<tb_draws db}" using assms(3) unfolding ids_used_def by blast
  moreover have "j \<notin> uuid ` {..<tb_draws db}" using assms(2,4) by (auto dest: injD)
  ultimately have old: "\<forall>r \<in> set (tb_dependencies db). td_task_id r \<noteq> j" by auto
  show ?thesis using old by (force simp: get_dependencies_def stored_plan_def as_rows_def)
qed

lemma plan_pairs_targets:
  assumes "valid_tasks ps" "(j, d) \<in> set (plan_pairs (plan_ids uuid n ps) ps)"
  shows "d \<in> uuid ` {n..<n + length ps}"
proof -
  have keys: "distinct (map tp_key ps)" and known: "Range (task_edges ps) \<subseteq> tp_key ` set ps" using assms(1) by (simp_all add: valid_tasks_def)
  obtain q k where "q \<in> set ps" "k \<in> set (tp_dependencies q)" "d = key_id (plan_ids uuid n ps) k"
    using assms(2) by (auto simp: plan_pairs_def)
  then show ?thesis using known key_id_range(2) [OF keys, of k uuid n] by (auto simp: task_edges_alt)
qed

text \<open>The tasks of the project of a first plan are those stored.\<close>

lemma same_project_map:
  assumes "same_tasks db db'"
  shows "map tk_id (list_project_tasks db' project) = map tk_id (list_project_tasks db project)"
proof -
  have "map tk_id (list_project_tasks d project) = map fst (filter (\<lambda>f. fst (snd f) = project) (map frozen (tb_tasks d)))" for d
    by (simp add: list_project_tasks_def filter_map comp_def frozen_def)
  then show ?thesis using assms by (simp add: same_tasks_def)
qed

lemma same_project_ids: "same_tasks db db' \<Longrightarrow> tk_id ` set (list_project_tasks db' project) = tk_id ` set (list_project_tasks db project)"
  using same_project_map [of db db' project] by (metis list.set_map)

lemma first_plan_ids:
  assumes "list_project_tasks db project = []"
  shows "tk_id ` set (list_project_tasks (stored_plan uuid project ps evs db) project) = uuid ` {tb_draws db..<tb_draws db + length ps}"
proof -
  have all: "\<forall>t \<in> set (plan_rows uuid project (tb_draws db) ps). tk_project_id t = project" using plan_rows_mem by blast
  have "list_project_tasks (stored_plan uuid project ps evs db) project =
      [t \<leftarrow> tb_tasks db. tk_project_id t = project] @ [t \<leftarrow> plan_rows uuid project (tb_draws db) ps. tk_project_id t = project]"
    by (simp add: list_project_tasks_def stored_plan_def)
  then have "list_project_tasks (stored_plan uuid project ps evs db) project = plan_rows uuid project (tb_draws db) ps"
    using assms filter_True [OF all] by (simp add: list_project_tasks_def)
  then show ?thesis by (simp add: plan_rows_id_set)
qed

lemma stored_plan_ids:
  assumes "inj uuid" "ids_used uuid db" "distinct (map tk_id (tb_tasks db))"
  shows "distinct (map tk_id (tb_tasks (stored_plan uuid project ps evs db)))"
proof -
  have "tk_id ` set (tb_tasks db) \<subseteq> uuid ` {..<tb_draws db}" using assms(2) by (simp add: ids_used_def)
  moreover have "uuid ` {..<tb_draws db} \<inter> uuid ` {tb_draws db..<tb_draws db + length ps} = {}" using assms(1) by (auto dest: injD)
  ultimately have "tk_id ` set (tb_tasks db) \<inter> uuid ` {tb_draws db..<tb_draws db + length ps} = {}" by blast
  then show ?thesis using assms(3) inj_on_subset [OF assms(1) subset_UNIV]
    by (simp add: stored_plan_def plan_rows_ids distinct_map plan_rows_id_set)
qed

section \<open>Properties\<close>

text \<open>Two tasks, the first needing the second.\<close>

definition example_entry :: "string \<Rightarrow> string list \<Rightarrow> task_plan" where
  "example_entry k deps = \<lparr>tp_key = k, tp_title = ''t'', tp_description = [], tp_agent_type = ''research'', tp_dependencies = deps,
     tp_priority = TP_NORMAL, tp_requires_approval = False, tp_success_criteria = [], tp_research_mode = None\<rparr>"

definition example_task_plan :: "string list \<Rightarrow> execution_plan" where
  "example_task_plan deps = \<lparr>ep_objective = ''o'', ep_tasks = [example_entry ''b'' deps, example_entry ''a'' []],
     ep_estimated_complexity = ''low'', ep_requires_approval = False, ep_success_criteria = []\<rparr>"

lemma example_task_plan_ok: "(validate_plan (example_task_plan [''a'']) :: string planning_error + unit) = Inr ()"
    "(validate_plan (example_task_plan [''a'', ''a'']) :: string planning_error + unit) = Inr ()"
  by code_simp+

lemma empty_ids_used: "ids_used example_uuid empty_task_db"
  by (simp add: ids_used_def empty_task_db_def)

text \<open>C16: A validated plan is stored, one PLANNED task per entry and one row per dependency, exactly when no entry names a dependency twice;
  otherwise the unique constraint on the dependency rows raises, although the validation accepted the plan.\<close>

theorem persist_plan_exact:
  assumes "validate_plan plan = Inr ()" and "inj uuid" and "ids_used uuid db"
  shows "if list_all (\<lambda>p. distinct (tp_dependencies p)) (ep_tasks plan)
    then \<exists>db'. persist_plan uuid now ws project plan db = Inr (plan_ids uuid (tb_draws db) (ep_tasks plan), db') \<and>
      tb_tasks db' = tb_tasks db @ plan_rows uuid project (tb_draws db) (ep_tasks plan) \<and>
      map dependency_pair (tb_dependencies db') = map dependency_pair (tb_dependencies db) @
        plan_pairs (plan_ids uuid (tb_draws db) (ep_tasks plan)) (ep_tasks plan)
    else persist_plan uuid now ws project plan db = Inl IntegrityError"
proof -
  have v: "valid_tasks (ep_tasks plan)" using assms(1) by (simp add: validate_plan_iff)
  have "tb_tasks (stored_plan uuid project ps evs db) = tb_tasks db @ plan_rows uuid project (tb_draws db) ps"
      "map dependency_pair (tb_dependencies (stored_plan uuid project ps evs db)) =
        map dependency_pair (tb_dependencies db) @ plan_pairs (plan_ids uuid (tb_draws db) ps) ps" for ps evs
    by (simp_all add: stored_plan_def)
  then show ?thesis using persist_plan_eq [OF v assms(2,3), of now ws project] unfolding list_all_iff by (metis (mono_tags))
qed

theorem persist_plan_exact_witness:
  "(\<exists>db'. persist_plan example_uuid 0 ''w'' ''p'' (example_task_plan [''a'']) empty_task_db = Inr ([(''b'', []), (''a'', ''x'')], db') \<and>
      map dependency_pair (tb_dependencies db') = [([], ''x'')]) \<and>
    persist_plan example_uuid 0 ''w'' ''p'' (example_task_plan [''a'', ''a'']) empty_task_db = Inl IntegrityError"
  using persist_plan_exact [OF example_task_plan_ok(1) example_uuid_inj empty_ids_used, of 0 "''w''" "''p''"]
    persist_plan_exact [OF example_task_plan_ok(2) example_uuid_inj empty_ids_used, of 0 "''w''" "''p''"]
  by (auto simp: example_task_plan_def example_entry_def empty_task_db_def example_uuid_def plan_pairs_def key_id_def tbl_get_Cons)

text \<open>C17: The tasks of a stored plan never block each other: as long as each of them is COMPLETED or still PLANNED, whatever else happened to
  the database, the next promotion makes at least one of the PLANNED ones READY.\<close>

theorem persisted_plan_progress:
  assumes "validate_plan plan = Inr ()" and "inj uuid" and "ids_used uuid db0" and "distinct (map tk_id (tb_tasks db0))"
    and "list_project_tasks db0 project = []" and "persist_plan uuid now ws project plan db0 = Inr (keys, db1)"
    and "same_tasks db1 db" and "tk_status ` set (list_project_tasks db project) \<subseteq> {TS_COMPLETED, TS_PLANNED}"
    and "t \<in> set (list_project_tasks db project)" and "tk_status t = TS_PLANNED"
  shows "\<exists>ids db'. promote_ready_tasks now' ws' project db = Inr (ids, db') \<and> ids \<noteq> []"
proof -
  let ?ps = "ep_tasks plan" and ?n = "tb_draws db0"
  let ?new = "uuid ` {?n..<?n + length ?ps}" and ?prs = "set (plan_pairs (plan_ids uuid ?n ?ps) ?ps)"
  have v: "valid_tasks ?ps" using assms(1) by (simp add: validate_plan_iff)
  then have keys: "distinct (map tp_key ?ps)" by (simp add: valid_tasks_def)
  obtain evs where db1: "db1 = stored_plan uuid project ?ps evs db0" using stored_plan_of [OF v assms(2,3,6)] by blast
  have ids: "tk_id ` set (list_project_tasks db project) = ?new"
    using same_project_ids [OF assms(7)] first_plan_ids [OF assms(5)] by (simp add: db1)
  have "map tk_id (tb_tasks db) = map tk_id (tb_tasks db1)" using same_tasks_ids [OF assms(7)] .
  then have dist: "distinct (map tk_id (tb_tasks db))" using stored_plan_ids [OF assms(2-4)] by (simp add: db1)
  have st: "status_of db (tk_id u) = Some (tk_status u)" if "u \<in> set (list_project_tasks db project)" for u
    using that dist tbl_get_mem [of tk_id "tb_tasks db"] by (simp add: list_project_tasks_def status_of_def get_task_def tbl_unique_def)
  have deps: "d \<in> set (get_dependencies db j) \<longleftrightarrow> (j, d) \<in> ?prs" if "j \<in> ?new" for j d
    using first_plan_dependencies [OF keys assms(2,3) that] same_tasks_view(2) [OF assms(7)] by (simp add: db1)
  let ?Q = "tk_id ` {u \<in> set (list_project_tasks db project). tk_status u = TS_PLANNED}"
  have "tk_id t \<in> ?Q" using assms(9,10) by simp
  then obtain z where z: "z \<in> ?Q" and least: "\<And>d. (d, z) \<in> {(d, i). (i, d) \<in> ?prs} \<Longrightarrow> d \<notin> ?Q"
    by (rule wfE_min [OF plan_edges_wf [OF v assms(2)]]) (rule that)
  obtain u where u: "u \<in> set (list_project_tasks db project)" "tk_status u = TS_PLANNED" "z = tk_id u" using z by blast
  have zn: "z \<in> ?new" using ids imageI [OF u(1), of tk_id] u(3) by simp
  have "status_of db d = Some TS_COMPLETED" if "d \<in> set (get_dependencies db z)" for d
  proof -
    have pr: "(z, d) \<in> ?prs" using deps [OF zn] that by simp
    then obtain w where w: "w \<in> set (list_project_tasks db project)" "d = tk_id w" using plan_pairs_targets [OF v pr] ids by blast
    have "tk_status w \<noteq> TS_PLANNED" using least [of d] pr w by blast
    then have "tk_status w = TS_COMPLETED" using assms(8) w(1) by blast
    then show ?thesis using st [OF w(1)] w(2) by simp
  qed
  then have met: "deps_done db z" by (simp add: deps_done_def)
  have "distinct (map tk_id (list_project_tasks db project))" using dist by (simp add: list_project_tasks_def distinct_map_filter)
  then obtain ids db' where r: "promote_each now' ws' (list_project_tasks db project) db = Inr (ids, db')"
      "\<forall>t \<in> set (list_project_tasks db project). tk_status t = TS_PLANNED \<longrightarrow> deps_done db (tk_id t) \<longrightarrow> tk_id t \<in> set ids"
    using promote_each_all [of "list_project_tasks db project" db now' ws'] st by blast
  then have "z \<in> set ids" using u met by blast
  then have "ids \<noteq> []" by auto
  then show ?thesis using r(1) by (auto simp: promote_ready_tasks_def)
qed

theorem persisted_plan_progress_witness:
  "\<exists>keys db ids db'. persist_plan example_uuid 0 ''w'' ''p'' (example_task_plan [''a'']) empty_task_db = Inr (keys, db) \<and>
     promote_ready_tasks 0 ''w'' ''p'' db = Inr (ids, db') \<and> ids \<noteq> []"
proof -
  let ?plan = "example_task_plan [''a'']" and ?db = "empty_task_db"
  have v: "valid_tasks (ep_tasks ?plan)" using example_task_plan_ok(1) by (simp add: validate_plan_iff)
  have "\<forall>p \<in> set (ep_tasks ?plan). distinct (tp_dependencies p)" by (simp add: example_task_plan_def example_entry_def)
  then obtain evs where p: "persist_plan example_uuid 0 ''w'' ''p'' ?plan ?db =
      Inr (plan_ids example_uuid (tb_draws ?db) (ep_tasks ?plan), stored_plan example_uuid ''p'' (ep_tasks ?plan) evs ?db)"
    using persist_plan_eq [OF v example_uuid_inj empty_ids_used, of 0 "''w''" "''p''"] by auto
  let ?db1 = "stored_plan example_uuid ''p'' (ep_tasks ?plan) evs ?db"
  have rows: "list_project_tasks ?db1 ''p'' = plan_rows example_uuid ''p'' 0 (ep_tasks ?plan)"
    by (simp add: list_project_tasks_def stored_plan_def example_task_plan_def empty_task_db_def planned_task_def fresh_task_def task_of_plan_def)
  have st: "tk_status ` set (list_project_tasks ?db1 ''p'') \<subseteq> {TS_COMPLETED, TS_PLANNED}"
    unfolding rows using plan_rows_mem [of _ example_uuid "''p''" 0] by blast
  have t: "hd (plan_rows example_uuid ''p'' 0 (ep_tasks ?plan)) \<in> set (list_project_tasks ?db1 ''p'')"
      "tk_status (hd (plan_rows example_uuid ''p'' 0 (ep_tasks ?plan))) = TS_PLANNED"
    unfolding rows by (simp_all add: example_task_plan_def planned_task_def)
  have "\<exists>ids db'. promote_ready_tasks 0 ''w'' ''p'' ?db1 = Inr (ids, db') \<and> ids \<noteq> []"
    by (rule persisted_plan_progress [OF example_task_plan_ok(1) example_uuid_inj empty_ids_used _ _ p _ st t])
      (simp_all add: empty_task_db_def list_project_tasks_def same_tasks_def)
  then show ?thesis using p by blast
qed

end
