(* ===== verification/Task_Properties.thy ===== *)
theory Task_Properties
  imports Task_Plans Task_Mission Task_Examples
begin

text \<open>
  What the executor's places guarantee and what they leave open: the approval gate against a status set by an agent's tool, a cancelled task
  against the agent still at work, and a run that ends with tasks left over.
\<close>

section \<open>One coroutine on its own\<close>

lemma transition_loaded_ok:
  assumes "can_task_transition (tk_status t) s"
  shows "\<exists>t' db'. transition_loaded now ws t s out err db = Inr (t', db') \<and> tb_usage db' = tb_usage db"
proof -
  have "tb_usage (flush_task t u db) = tb_usage db" "tb_usage (record_event x d) = tb_usage d" for u x d
    by (simp_all add: flush_task_def record_event_def)
  then show ?thesis using assms by (simp add: transition_loaded_def assert_task_transition_def Let_def split: option.split)
qed

lemma exec_run_add: "exec_run e ws i (m + n) st = exec_run e ws i n (exec_run e ws i m st)"
proof (induction m arbitrary: st)
  case (Suc m)
  obtain db pc where "st = (db, pc)" by (cases st)
  then show ?case using Suc [of "exec_step e ws i db pc"] by simp
qed simp

lemma exec_run_one: "exec_run e ws i (Suc n) (db, pc) = exec_run e ws i n (exec_step e ws i db pc)"
  by simp


text \<open>From READY, or any other status RUNNING can follow, to the agent at work, when the gate is passed and no budget limit is reached.\<close>

lemma exec_claims:
  assumes "get_task db i = Some t" "can_task_transition (tk_status t) TS_RUNNING"
    and "check_permission (txe_registry e) (tk_agent_type t) READ = Inr ()"
  shows "\<exists>t1 db1. exec_run e ws i 2 (db, Start) = (db1, if gated_task t then Gated t1 (classify_risk (gate_text t1)) else Read_Usage t1) \<and>
    frozen t1 = frozen t \<and> moved db db1 i TS_RUNNING \<and> tb_usage db1 = tb_usage db"
proof -
  have i: "tk_id t = i" using assms(1) tbl_get_SomeD [of tk_id "tb_tasks db" i t] by (simp add: get_task_def)
  obtain t1 db1 where tr: "transition_loaded (txe_clock e db) ws t TS_RUNNING None None db = Inr (t1, db1)" and us: "tb_usage db1 = tb_usage db"
    using transition_loaded_ok [OF assms(2)] by blast
  have m: "frozen t1 = frozen t" "moved db db1 i TS_RUNNING" using transition_moves [OF tr] i by simp_all
  have a: "tk_agent_type t1 = tk_agent_type t" using m(1) by (simp add: frozen_def)
  have "exec_run e ws i 2 (db, Start) = (db1, after_start e t1)" using assms(1) tr by (simp add: numeral_2_eq_2 commit_def)
  moreover have "after_start e t1 = (if gated_task t then Gated t1 (classify_risk (gate_text t1)) else Read_Usage t1)"
    using assms(3) a gated_frozen [OF m(1)] by (simp add: after_start_def)
  ultimately show ?thesis using m us by (intro exI [of _ t1] exI [of _ db1]) simp
qed

lemma exec_creates:
  assumes "\<And>now. check_budget (totals_for_project (txe_sql_sum e) db (tk_project_id t)) (cost_today (txe_sql_sum e) now db ws) (txe_settings e) = None"
  shows "\<exists>db' totals input known run. exec_run e ws i 4 (db, Read_Usage t) = (db', Working t totals input known run) \<and>
    map rn_task_id (tb_runs db') = map rn_task_id (tb_runs db) @ [tk_id t] \<and> tb_approvals db' = tb_approvals db"
  using assms by (simp add: numeral_eq_Suc after_cost_def insert_run_def drawn_def)

lemma exec_works:
  shows "\<exists>db' pc. exec_run e ws i (Suc n) (db, Working t totals input known run) = (db', pc) \<and> ended pc \<and>
    (db' = db \<or> (\<exists>s. moved db db' (tk_id t) s))"
proof -
  let ?r = "finish_work e ws t run (perform e t totals input known) db"
  have "exec_run e ws i m (db', pc) = (db', pc)" if "ended pc" for db' pc m
    using that by (induction m) (auto simp: ended_def split: exec_pc.splits)
  moreover have "\<exists>db' pc. exec_step e ws i db (Working t totals input known run) = (db', pc) \<and> ended pc \<and>
      (db' = db \<or> (\<exists>s. moved db db' (tk_id t) s))"
  proof (cases ?r)
    case (Inr p)
    then obtain t' db' where r: "?r = Inr (t', db')" by (cases p) simp
    then show ?thesis using finish_work_moves [OF r] by (auto simp: commit_def ended_def)
  qed (simp add: commit_def ended_def)
  ultimately show ?thesis by fastforce
qed


text \<open>Alone, a coroutine that passes the gate runs the agent and touches no approval.\<close>

lemma run_one_runs:
  assumes "get_task db i = Some t" "can_task_transition (tk_status t) TS_RUNNING"
    and "check_permission (txe_registry e) (tk_agent_type t) READ = Inr ()" "gated_task t \<longrightarrow> asked_for db i"
    and "\<And>now. check_budget (totals_for_project (txe_sql_sum e) db (tk_project_id t)) (cost_today (txe_sql_sum e) now db ws) (txe_settings e) = None"
  shows "map rn_task_id (tb_runs (fst (run_one e ws i db))) = map rn_task_id (tb_runs db) @ [i] \<and>
    tb_approvals (fst (run_one e ws i db)) = tb_approvals db"
proof -
  have i: "tk_id t = i" using assms(1) tbl_get_SomeD [of tk_id "tb_tasks db" i t] by (simp add: get_task_def)
  obtain t1 db1 where s2: "exec_run e ws i 2 (db, Start) = (db1, if gated_task t then Gated t1 (classify_risk (gate_text t1)) else Read_Usage t1)"
      and m: "frozen t1 = frozen t" "moved db db1 i TS_RUNNING" and us: "tb_usage db1 = tb_usage db"
    using exec_claims [OF assms(1-3)] by blast
  have i1: "tk_id t1 = i" and p1: "tk_project_id t1 = tk_project_id t" using m(1) i by (simp_all add: frozen_def)
  have av: "tb_approvals db1 = tb_approvals db" and rn: "map rn_task_id (tb_runs db1) = map rn_task_id (tb_runs db)" using m(2) by (simp_all add: moved_def)
  define k :: nat where "k = (if gated_task t then 1 else 0)"
  have "exec_run e ws i k (exec_run e ws i 2 (db, Start)) = (db1, Read_Usage t1)"
    using s2 assms(4) get_for_task_None [of db1 i] by (auto simp: k_def i1 asked_for_def av)
  then have s3: "exec_run e ws i (2 + k) (db, Start) = (db1, Read_Usage t1)" by (simp only: exec_run_add)
  have "totals_for_project (txe_sql_sum e) db1 p = totals_for_project (txe_sql_sum e) db p"
      "cost_today (txe_sql_sum e) now db1 ws = cost_today (txe_sql_sum e) now db ws" for p now
    using us by (simp_all add: totals_for_project_def list_project_usage_def cost_today_def)
  then obtain db2 totals input known run where s4: "exec_run e ws i 4 (db1, Read_Usage t1) = (db2, Working t1 totals input known run)"
      and r2: "map rn_task_id (tb_runs db2) = map rn_task_id (tb_runs db1) @ [i]" "tb_approvals db2 = tb_approvals db1"
    using exec_creates [of e db1 t1 ws i] assms(5) i1 p1 by auto
  obtain db3 pc where s5: "exec_run e ws i (Suc (1 - k)) (db2, Working t1 totals input known run) = (db3, pc)"
      and f: "db3 = db2 \<or> (\<exists>s. moved db2 db3 (tk_id t1) s)"
    using exec_works by blast
  have n: "8 = (2 + k) + (4 + Suc (1 - k))" by (simp add: k_def)
  have "run_one e ws i db = exec_run e ws i (Suc (1 - k)) (exec_run e ws i 4 (exec_run e ws i (2 + k) (db, Start)))"
    unfolding run_one_def n exec_run_add [of e ws i "2 + k"] exec_run_add [of e ws i 4] by (rule refl)
  then have "run_one e ws i db = (db3, pc)" by (simp only: s3 s4 s5)
  then show ?thesis using f r2 av rn by (auto simp: moved_def)
qed

section \<open>Rounds end\<close>

text \<open>The awaited calls a coroutine has before it at most.\<close>

fun steps_left :: "exec_pc \<Rightarrow> nat" where
  "steps_left Start = 8"
| "steps_left (Loaded t) = 7"
| "steps_left (Gated t risk) = 6"
| "steps_left (Read_Usage t) = 5"
| "steps_left (Read_Cost t totals) = 4"
| "steps_left (Build t totals) = 3"
| "steps_left (Creating t totals input known) = 2"
| "steps_left (Returned r) = 0"
| "steps_left (Raised x) = 0"
| "steps_left _ = 1"

lemma steps_left_0: "steps_left pc = 0 \<longleftrightarrow> ended pc"
  by (cases pc) (simp_all add: ended_def)

lemma exec_step_decreases: "steps_left (snd (exec_step e ws i db pc)) \<le> steps_left pc - 1"
  by (cases pc) (auto simp: commit_def after_start_def after_cost_def insert_run_def split: option.split sum.split prod.split)

lemma schedule_decreases:
  assumes "schedule (task_step e) l (db, cs) = (db', cs')" "\<forall>c \<in> set cs. \<exists>ws i. fst c = Run_Task ws i" "k < length cs"
  shows "length cs' = length cs \<and> (\<forall>c \<in> set cs'. \<exists>ws i. fst c = Run_Task ws i) \<and>
    steps_left (snd (cs' ! k)) \<le> steps_left (snd (cs ! k)) - (if l = k then 1 else 0)"
proof (cases "l < length cs")
  case True
  obtain q c where qc: "cs ! l = (q, c)" by (cases "cs ! l")
  have "(q, c) \<in> set cs" using True qc nth_mem [of l cs] by simp
  then obtain ws i where q: "q = Run_Task ws i" using assms(2) by fastforce
  obtain d c' where s: "exec_step e ws i db c = (d, c')" by fastforce
  have cs': "cs' = cs[l := (q, c')]" using assms(1) True qc s q by (simp add: schedule_def)
  have "steps_left c' \<le> steps_left c - 1" using exec_step_decreases [of e ws i db c] s by simp
  moreover have "set cs' \<subseteq> insert (q, c') (set cs)" unfolding cs' by (rule set_update_subset_insert)
  ultimately show ?thesis using assms(2) q qc True by (auto simp: cs' nth_list_update)
qed (use assms in \<open>auto simp: schedule_simps\<close>)

lemma fold_decreases:
  assumes "fold (schedule (task_step e)) sched (db, cs) = (db', cs')" "\<forall>c \<in> set cs. \<exists>ws i. fst c = Run_Task ws i" "k < length cs"
  shows "length cs' = length cs \<and> steps_left (snd (cs' ! k)) \<le> steps_left (snd (cs ! k)) - count_list sched k"
  using assms
proof (induction sched arbitrary: db cs)
  case (Cons l sched)
  obtain d1 cs1 where s: "schedule (task_step e) l (db, cs) = (d1, cs1)" by fastforce
  note g = schedule_decreases [OF s Cons.prems(2,3)]
  have "length cs' = length cs1 \<and> steps_left (snd (cs' ! k)) \<le> steps_left (snd (cs1 ! k)) - count_list sched k"
    using Cons.IH [of d1 cs1] Cons.prems(1,3) s g by simp
  then show ?case using g by auto
qed simp

lemma batch_ends:
  assumes "fold (schedule (task_step e)) sched (db, batch ws ids) = (db', cs')" "\<And>k. k < length ids \<Longrightarrow> 8 \<le> count_list sched k"
  shows "\<forall>c \<in> set cs'. ended (snd c)"
proof -
  have run: "\<forall>c \<in> set (batch ws ids). \<exists>ws i. fst c = Run_Task ws i" by (auto simp: batch_def)
  have "ended (snd (cs' ! k))" "length cs' = length ids" if "k < length ids" for k
    using fold_decreases [OF assms(1) run, of k] assms(2) [OF that] that
    by (simp_all add: batch_def steps_left_0 [symmetric])
  moreover have "length cs' = length ids"
  proof (cases ids)
    case Nil
    have "fold (schedule (task_step e)) s (d, []) = (d, [])" for s d by (induction s) (simp_all add: schedule_simps)
    then show ?thesis using assms(1) Nil by (simp add: batch_def)
  qed (use calculation(2) [of 0] in simp)
  ultimately show ?thesis by (metis in_set_conv_nth)
qed

text \<open>The silent model's task fails.\<close>

definition running_db :: task_db where
  "running_db = empty_task_db\<lparr>tb_tasks := [example_task [] False TS_RUNNING], tb_draws := 1\<rparr>"

lemma silent_fails: "run_worker_with_qa silent_model = Inl \<lparr>we_cause = ''no answer'', we_usage_events = [], we_accumulated_evidence = [],
    we_attempts_used = 0\<rparr>"
  unfolding run_worker_with_qa_def by (subst qa_loop.simps) (simp add: qa_iteration_def silent_model_def qa_start_def tag_usage_def Let_def)

lemma example_agents: "\<exists>d. get_descriptor example_registry ''execution'' = Inr d" "\<exists>d. get_descriptor example_registry ''qa'' = Inr d"
  by (simp_all add: example_registry_def build_default_registry_def register_agent_type_def get_descriptor_def tbl_put_def tbl_get_Cons)

section \<open>Properties\<close>

definition pending_db :: task_db where
  "pending_db = empty_task_db\<lparr>tb_tasks := [example_task [] True TS_NEEDS_APPROVAL],
     tb_approvals := [example_approval ''x'' [] TA_PENDING], tb_draws := 2\<rparr>"

text \<open>C36: The gate asks whether an approval was requested, not whether it was granted: an agent's tool with \<open>WRITE\<close> that sets a task
  with a pending, or a rejected, approval back to READY makes the next executor run the agent, the approvals staying as they are.\<close>

theorem approval_gate_bypassed:
  assumes "check_permission reg acting WRITE = Inr ()" and "get_task db i = Some t" and "tk_status t \<in> {TS_NEEDS_APPROVAL, TS_FAILED}"
    and "gated_task t" and "\<exists>a \<in> set (tb_approvals db). tv_task_id a = i"
    and "check_permission (txe_registry e) (tk_agent_type t) READ = Inr ()"
    and "\<And>now. check_budget (totals_for_project (txe_sql_sum e) db (tk_project_id t)) (cost_today (txe_sql_sum e) now db ws) (txe_settings e) = None"
  shows "\<exists>t' db'. update_task_status_tool reg acting now ws i TS_READY None None db = Inr (t', db') \<and>
    map rn_task_id (tb_runs (fst (run_one e ws i db'))) = map rn_task_id (tb_runs db) @ [i] \<and>
    tb_approvals (fst (run_one e ws i db')) = tb_approvals db"
proof -
  have i: "tk_id t = i" using assms(2) tbl_get_SomeD [of tk_id "tb_tasks db" i t] by (simp add: get_task_def)
  have can: "can_task_transition (tk_status t) TS_READY" using assms(3) by (auto simp: can_task_transition_def)
  obtain t' db' where tr: "transition_loaded now ws t TS_READY None None db = Inr (t', db')" and us: "tb_usage db' = tb_usage db"
    using transition_loaded_ok [OF can] by blast
  have tool: "update_task_status_tool reg acting now ws i TS_READY None None db = Inr (t', db')"
    using tr assms(1,2) by (simp add: update_task_status_tool_def with_permission_def transition_def)
  have m: "moved db db' i TS_READY" using transition_moves [OF tr] i by simp
  have st: "status_of db' i = Some TS_READY" using m assms(2) by (simp add: moved_def status_of_def)
  then obtain u where u: "get_task db' i = Some u" "tk_status u = TS_READY" by (auto simp: status_of_def)
  have "frozen_of db' i = frozen_of db i" using same_tasks_view(1) m unfolding moved_def by blast
  then have fr: "frozen u = frozen t" using u assms(2) by (simp add: frozen_of_def)
  then have eq: "tk_agent_type u = tk_agent_type t" "tk_project_id u = tk_project_id t" by (simp_all add: frozen_def)
  have same: "tb_approvals db' = tb_approvals db" "map rn_task_id (tb_runs db') = map rn_task_id (tb_runs db)" using m by (simp_all add: moved_def)
  have asked: "asked_for db' i" using assms(5) same(1) by (simp add: asked_for_def)
  have budget: "check_budget (totals_for_project (txe_sql_sum e) db' (tk_project_id u)) (cost_today (txe_sql_sum e) n db' ws) (txe_settings e) = None" for n
    using assms(7) us by (simp add: totals_for_project_def list_project_usage_def cost_today_def eq)
  have "can_task_transition (tk_status u) TS_RUNNING" using u(2) by (simp add: can_task_transition_def)
  then show ?thesis using run_one_runs [OF u(1) _ _ _ budget] assms(6) asked eq(1) tool same by auto
qed

theorem approval_gate_bypassed_witness:
  "\<exists>t' db'. update_task_status_tool example_registry ''execution'' 0 ''w'' [] TS_READY None None pending_db = Inr (t', db') \<and>
    map rn_task_id (tb_runs (fst (run_one example_env ''w'' [] db'))) = [[]] \<and>
    map tv_status (tb_approvals (fst (run_one example_env ''w'' [] db'))) = [TA_PENDING]"
proof -
  have g: "get_task pending_db [] = Some (example_task [] True TS_NEEDS_APPROVAL)"
    by (simp add: get_task_def pending_db_def tbl_get_Cons example_task_def)
  have t: "tk_status (example_task [] True TS_NEEDS_APPROVAL) \<in> {TS_NEEDS_APPROVAL, TS_FAILED}"
      "tk_agent_type (example_task [] True TS_NEEDS_APPROVAL) = ''execution''" by (simp_all add: example_task_def)
  have a: "\<exists>a \<in> set (tb_approvals pending_db). tv_task_id a = []" by (simp add: pending_db_def example_approval_def)
  have "check_permission (txe_registry example_env) ''execution'' READ = Inr ()" using example_permission by (simp add: example_env_def)
  then have "check_permission (txe_registry example_env) (tk_agent_type (example_task [] True TS_NEEDS_APPROVAL)) READ = Inr ()" by (simp add: t(2))
  note allowed = this
  have gate: "gated_task (example_task [] True TS_NEEDS_APPROVAL)" by (simp add: example_ungated)
  have budget: "check_budget totals daily (txe_settings example_env) = None" for totals daily
    by (simp add: check_budget_def example_env_def example_settings_def)
  have "tb_runs pending_db = []" "map tv_status (tb_approvals pending_db) = [TA_PENDING]"
    by (simp_all add: pending_db_def empty_task_db_def example_approval_def)
  then have eq: "map rn_task_id (tb_runs pending_db) @ [[]] = [[]]" "map tv_status (tb_approvals pending_db) = [TA_PENDING]" by simp_all
  from approval_gate_bypassed [OF example_permission(2) g t(1) gate a allowed budget, of 0 "''w''", unfolded eq(1)]
  show ?thesis by (elim exE conjE) (intro exI conjI, assumption+, simp only: eq(2))
qed

lemma commit_returned: "commit db k r = (db', Returned x) \<Longrightarrow> \<exists>t. r = Inr (t, db')"
  by (cases r) (auto simp: commit_def)

text \<open>C37: An agent that ends its work overwrites whatever became of its task meanwhile: a task cancelled while its agent works ends COMPLETED
  or FAILED, although the state machine lets nothing follow CANCELLED, because the session checks the status it loaded.\<close>

theorem cancelled_task_overwritten:
  assumes "transition now ws i TS_CANCELLED None None db = Inr (u, db1)" and "tk_id t = i"
    and "exec_step e ws i db1 (Working t totals input known run) = (db2, Returned r)"
  shows "map_option tk_status (get_task db1 i) = Some TS_CANCELLED \<and>
    map_option tk_status (get_task db2 i) \<in> {Some TS_COMPLETED, Some TS_FAILED}"
proof -
  obtain v where v: "get_task db i = Some v" "transition_loaded now ws v TS_CANCELLED None None db = Inr (u, db1)"
    using assms(1) by (auto simp: transition_def split: option.splits)
  have "tk_id v = i" using v(1) tbl_get_SomeD [of tk_id "tb_tasks db" i v] by (simp add: get_task_def)
  then have c: "status_of db1 i = Some TS_CANCELLED" using transition_moves [OF v(2)] v(1) by (simp add: moved_def status_of_def)
  have "commit db1 (Returned \<circ> Some) (finish_work e ws t run (perform e t totals input known) db1) = (db2, Returned r)" using assms(3) by simp
  then obtain w where w: "finish_work e ws t run (perform e t totals input known) db1 = Inr (w, db2)" using commit_returned by blast
  obtain s where s: "s \<in> {TS_COMPLETED, TS_FAILED}" "moved db1 db2 i s" using finish_work_moves [OF w] assms(2) by auto
  have "status_of db2 i = Some s" using s(2) c by (simp add: moved_def)
  then show ?thesis using c s(1) by (auto simp: status_of_def)
qed

theorem cancelled_task_overwritten_witness:
  "\<exists>u db r db'. transition 0 ''w'' [] TS_CANCELLED None None running_db = Inr (u, db) \<and>
     exec_step example_env ''w'' [] db (Working (example_task [] False TS_RUNNING) no_usage [] None ''r'') = (db', Returned r) \<and>
     map_option tk_status (get_task db []) = Some TS_CANCELLED \<and>
     map_option tk_status (get_task db' []) \<in> {Some TS_COMPLETED, Some TS_FAILED}"
proof -
  let ?t = "example_task [] False TS_RUNNING"
  obtain u db where c: "transition 0 ''w'' [] TS_CANCELLED None None running_db = Inr (u, db)"
    using transition_loaded_ok [of ?t TS_CANCELLED 0 "''w''" None None running_db]
    by (auto simp: transition_def running_db_def get_task_def tbl_get_Cons example_task_def can_task_transition_def)
  have "tk_agent_type ?t = ''execution''" "tk_id ?t = []" "tk_status ?t = TS_RUNNING" by (simp_all add: example_task_def)
  note t = this
  have w: "perform example_env ?t no_usage [] None = \<lparr>wr_outcome = Inl ''no answer'', wr_usage = [], wr_evidence = []\<rparr>"
    using silent_fails example_agents by (auto simp: perform_def t example_env_def Let_def)
  have "\<exists>r db'. finish_work example_env ''w'' ?t ''r'' (perform example_env ?t no_usage [] None) db = Inr (r, db')"
    using transition_loaded_ok [of ?t TS_FAILED] unfolding w
    by (simp add: finish_work_def t store_evidence_def Let_def can_task_transition_def) blast
  then obtain r db' where s: "exec_step example_env ''w'' [] db (Working ?t no_usage [] None ''r'') = (db', Returned (Some r))"
    by (auto simp: commit_def)
  show ?thesis using cancelled_task_overwritten [OF c t(2) s] c s by blast
qed

end
