(* ===== verification/Mission_Properties.thy ===== *)
theory Mission_Properties
  imports Task_Properties
begin

text \<open>
  What a whole mission guarantees and leaves behind: the loop over batches ends, a deferred task is never taken up again, and a run that
  stops at its task limit is reported as completed.
\<close>

section \<open>The tasks are those stored\<close>

lemma same_tasks_refl: "same_tasks db db"
  by (simp add: same_tasks_def)

lemma same_tasks_trans: "same_tasks db db1 \<Longrightarrow> same_tasks db1 db2 \<Longrightarrow> same_tasks db db2"
  by (simp add: same_tasks_def)

lemma moved_same: "moved db db' i s \<Longrightarrow> same_tasks db db'"
  by (simp add: moved_def)

lemma transition_same: "transition_loaded now ws t s out err db = Inr (t', db') \<Longrightarrow> same_tasks db db'"
  using transition_moves moved_same by blast

lemma commit_same: "(\<And>t db'. r = Inr (t, db') \<Longrightarrow> same_tasks db db') \<Longrightarrow> same_tasks db (fst (commit db k r))"
  by (cases r) (auto simp: commit_def same_tasks_refl)

lemma request_same:
  assumes "request_task_approval uuid now ws t action risk reason db = Inr (a, db')"
  shows "same_tasks db db'"
proof -
  obtain t' db1 where "transition_loaded now ws t TS_NEEDS_APPROVAL None None (snd (insert_approval uuid now ws (tk_id t) action risk reason db)) = Inr (t', db1)"
      "tb_tasks db' = tb_tasks db1" "tb_dependencies db' = tb_dependencies db1"
    using assms by (auto simp: request_task_approval_def bind_sum_InrE split: prod.splits)
  then show ?thesis using transition_same by (fastforce simp: same_tasks_def insert_approval_def drawn_def Let_def)
qed

lemma exec_step_same: "same_tasks db (fst (exec_step e ws i db pc))"
proof (cases pc)
  case (Requesting t risk)
  then show ?thesis using request_same by (auto simp: same_tasks_refl split: sum.split)
next
  case (Creating t totals input known)
  then show ?thesis by (simp add: insert_run_def drawn_def same_tasks_def)
next
  case (Working t totals input known run)
  have "same_tasks db (fst (commit db (Returned \<circ> Some) (finish_work e ws t run w db)))" for w
    by (rule commit_same) (use finish_work_moves moved_same in blast)
  then show ?thesis using Working by simp
qed (simp_all add: same_tasks_refl commit_same transition_same)

lemma promote_each_same: "promote_each now ws ts db = Inr (ids, db') \<Longrightarrow> same_tasks db db'"
proof (induction ts arbitrary: db ids)
  case (Cons t ts)
  show ?case
  proof (cases "tk_status t \<noteq> TS_PLANNED \<or> \<not> dependencies_met db (tk_id t)")
    case True
    then show ?thesis using Cons by simp
  next
    case False
    then obtain t' db1 ids' where "transition_loaded now ws t TS_READY None None db = Inr (t', db1)" "promote_each now ws ts db1 = Inr (ids', db')"
      using Cons.prems by (auto simp: bind_sum_InrE)
    then show ?thesis using Cons.IH transition_same same_tasks_trans by blast
  qed
qed (simp add: same_tasks_refl)

lemma fold_same:
  assumes "fold (schedule (task_step e)) sched (db, cs) = (db', cs')" "\<forall>c \<in> set cs. \<exists>ws i. fst c = Run_Task ws i"
  shows "same_tasks db db'"
  using assms
proof (induction sched arbitrary: db cs)
  case (Cons l sched)
  obtain d1 cs1 where s: "schedule (task_step e) l (db, cs) = (d1, cs1)" by fastforce
  have "same_tasks db d1 \<and> (\<forall>c \<in> set cs1. \<exists>ws i. fst c = Run_Task ws i)"
  proof (cases "l < length cs")
    case True
    obtain q c where qc: "cs ! l = (q, c)" by (cases "cs ! l")
    have "(q, c) \<in> set cs" using True qc nth_mem [of l cs] by simp
    then obtain ws i where "q = Run_Task ws i" using Cons.prems(2) by fastforce
    then have "d1 = fst (exec_step e ws i db c)" using s True qc by (auto simp: schedule_def split: prod.splits)
    then show ?thesis using exec_step_same schedule_decreases [OF s Cons.prems(2) True] by simp
  qed (use s Cons.prems(2) in \<open>simp add: schedule_simps same_tasks_refl\<close>)
  then show ?case using Cons.IH [of d1 cs1] Cons.prems(1) s same_tasks_trans [of db d1 db'] by simp
qed (simp add: same_tasks_refl)

lemma get_ready_alt: "get_ready_tasks db p = map tk_id [t \<leftarrow> list_project_tasks db p. tk_status t = TS_READY]"
proof -
  have "concat (map (\<lambda>t. if tk_status t = TS_READY then [tk_id t] else []) ts) = map tk_id [t \<leftarrow> ts. tk_status t = TS_READY]" for ts
    by (induction ts) simp_all
  then show ?thesis by (simp add: get_ready_tasks_def)
qed

lemma ready_bound: "length (get_ready_tasks db p) \<le> length (list_project_tasks db p)"
  by (simp add: get_ready_alt)

lemma batch_runs: "\<forall>c \<in> set (batch ws ids). \<exists>ws i. fst c = Run_Task ws i"
  by (auto simp: batch_def)

section \<open>The loop\<close>

text \<open>What every part of a round keeps holds of the database the loop ends in.\<close>

lemma mission_loop_keeps:
  assumes "P db"
    and "\<And>db ids db1. P db \<Longrightarrow> promote_ready_tasks (txe_clock e db) ws p db = Inr (ids, db1) \<Longrightarrow> P db1"
    and "\<And>db reason. P db \<Longrightarrow> P (budget_stop_event ws p reason db)"
    and "\<And>db sched db1 cs. P db \<Longrightarrow> fold (schedule (task_step e)) sched (db, batch ws (get_ready_tasks db p)) = (db1, cs) \<Longrightarrow> P db1"
  shows "P (fst (mission_loop e ws p limit scheds iterations db))"
  using assms(1)
proof (induction scheds arbitrary: iterations db)
  case Nil
  show ?case using assms(2,3) Nil by (subst mission_loop.simps) (auto simp: Let_def split: option.split sum.split)
next
  case (Cons sched rest)
  have "P (fst (case fold (schedule (task_step e)) sched (db1, batch ws (get_ready_tasks db1 p)) of (db2, cs) \<Rightarrow>
      if \<not> (\<forall>c \<in> set cs. ended (snd c)) then (db2, Unfinished)
      else (case batch_errors cs of
          x # _ \<Rightarrow> (db2, Crashed x)
        | [] \<Rightarrow> (case scan_batch (batch_results cs) of
            Some reason \<Rightarrow> (budget_stop_event ws p reason db2, Budget_Stopped reason)
          | None \<Rightarrow> mission_loop e ws p limit rest n db2))))" if "P db1" for db1 n
  proof -
    obtain db2 cs where f: "fold (schedule (task_step e)) sched (db1, batch ws (get_ready_tasks db1 p)) = (db2, cs)" by fastforce
    then have "P db2" using assms(4) that by blast
    then show ?thesis using Cons.IH assms(3) by (simp add: f split: list.split option.split)
  qed
  then show ?case using assms(2,3) Cons.prems by (subst mission_loop.simps) (simp add: Let_def split: option.split sum.split)
qed

lemma mission_loop_returns:
  assumes "\<And>sched k. sched \<in> set scheds \<Longrightarrow> k < length (list_project_tasks db p) \<Longrightarrow> 8 \<le> count_list sched k"
    and "limit - iterations \<le> int (length scheds)"
  shows "snd (mission_loop e ws p limit scheds iterations db) \<noteq> Unfinished"
  using assms
proof (induction scheds arbitrary: iterations db)
  case Nil
  then show ?case by (subst mission_loop.simps) simp
next
  case (Cons sched rest)
  have "snd (case fold (schedule (task_step e)) sched (db1, batch ws (get_ready_tasks db1 p)) of (db2, cs) \<Rightarrow>
      if \<not> (\<forall>c \<in> set cs. ended (snd c)) then (db2, Unfinished)
      else (case batch_errors cs of
          x # _ \<Rightarrow> (db2, Crashed x)
        | [] \<Rightarrow> (case scan_batch (batch_results cs) of
            Some reason \<Rightarrow> (budget_stop_event ws p reason db2, Budget_Stopped reason)
          | None \<Rightarrow> mission_loop e ws p limit rest (iterations + int (length (get_ready_tasks db1 p))) db2))) \<noteq> Unfinished"
    if pr: "promote_ready_tasks (txe_clock e db) ws p db = Inr (ids, db1)" and ne: "get_ready_tasks db1 p \<noteq> []" for ids db1
  proof -
    obtain db2 cs where f: "fold (schedule (task_step e)) sched (db1, batch ws (get_ready_tasks db1 p)) = (db2, cs)" by fastforce
    have s1: "same_tasks db db1" using promote_each_same pr by (auto simp: promote_ready_tasks_def)
    have s2: "same_tasks db1 db2" by (rule fold_same [OF f batch_runs])
    have len: "length (list_project_tasks d p) = length (list_project_tasks db p)" if "same_tasks db d" for d
      using same_project_map [OF that, of p] by (metis length_map)
    have "8 \<le> count_list sched k" if "k < length (get_ready_tasks db1 p)" for k
      using Cons.prems(1) that ready_bound [of db1 p] len [OF s1] by simp
    then have all_end: "\<forall>c \<in> set cs. ended (snd c)" by (rule batch_ends [OF f])
    have more: "limit - (iterations + int (length (get_ready_tasks db1 p))) \<le> int (length rest)"
      using Cons.prems(2) ne by (cases "get_ready_tasks db1 p") simp_all
    have "snd (mission_loop e ws p limit rest (iterations + int (length (get_ready_tasks db1 p))) db2) \<noteq> Unfinished"
      by (rule Cons.IH [OF _ more]) (use Cons.prems(1) len [OF same_tasks_trans [OF s1 s2]] in simp)
    then show ?thesis using all_end by (simp add: f split: list.split option.split)
  qed
  then show ?case by (subst mission_loop.simps) (simp add: Let_def split: option.split sum.split)
qed


section \<open>The invariant between rounds\<close>

lemma task_inv_event: "task_inv uuid (record_event x db) = task_inv uuid db"
  by (simp add: task_inv_def approvals_inv_def order_inv_def runs_inv_def deps_done_def get_dependencies_def needs_gate_def get_task_def
      approved_for_def)

lemma ready_fresh:
  assumes "inj (txe_uuid e)" "task_inv (txe_uuid e) db"
  shows "tasks.all_ok e db (batch ws (get_ready_tasks db p))"
    and "i \<in> set (get_ready_tasks db p) \<Longrightarrow> status_of db i = Some TS_READY"
proof -
  have d: "distinct (map tk_id (tb_tasks db))" using assms(2) by (simp add: task_inv_def order_inv_def)
  then have ids: "distinct (get_ready_tasks db p)" by (simp add: get_ready_alt list_project_tasks_def distinct_map_filter)
  then have "fresh_processes (batch ws (get_ready_tasks db p))"
    by (simp add: fresh_processes_def batch_def compatible_tasks_def nth_eq_iff_index_eq)
  moreover have "process_ok q db Start" for q by (cases q) simp_all
  ultimately show "tasks.all_ok e db (batch ws (get_ready_tasks db p))" unfolding tasks.all_ok_def
    using assms by (simp add: fresh_processes_def)
  show "status_of db i = Some TS_READY" if "i \<in> set (get_ready_tasks db p)"
    using that d tbl_get_mem [of tk_id "tb_tasks db"]
    by (auto simp: get_ready_alt list_project_tasks_def status_of_def get_task_def tbl_unique_def)
qed

text \<open>A status no promotion and no executor of a READY task touches.\<close>

lemma mission_keeps_status:
  assumes "inj (txe_uuid e)" "task_inv (txe_uuid e) db" "status_of db i = Some s" "s \<notin> {TS_PLANNED, TS_NEEDS_APPROVAL, TS_READY}"
  shows "status_of (fst (mission_loop e ws p limit scheds iterations db)) i = Some s"
proof -
  have "task_inv (txe_uuid e) (fst (mission_loop e ws p limit scheds iterations db)) \<and>
      status_of (fst (mission_loop e ws p limit scheds iterations db)) i = Some s"
  proof (rule mission_loop_keeps [where P = "\<lambda>db. task_inv (txe_uuid e) db \<and> status_of db i = Some s"])
    show "task_inv (txe_uuid e) db \<and> status_of db i = Some s" using assms(2,3) by simp
  next
    fix db ids db1
    assume p: "task_inv (txe_uuid e) db \<and> status_of db i = Some s" and "promote_ready_tasks (txe_clock e db) ws p db = Inr (ids, db1)"
    then have "task_inv (txe_uuid e) db1 \<and> task_le (Promote_Tasks 0 ws p) db db1"
      using promote_inv [of "txe_clock e db" ws p db ids db1 "txe_uuid e" "Promote_Tasks 0 ws p"] by simp
    then show "task_inv (txe_uuid e) db1 \<and> status_of db1 i = Some s" using p assms(4) task_leD(4) [of "Promote_Tasks 0 ws p" db db1 i s] by simp
  next
    fix db reason
    assume "task_inv (txe_uuid e) db \<and> status_of db i = Some s"
    then show "task_inv (txe_uuid e) (budget_stop_event ws p reason db) \<and> status_of (budget_stop_event ws p reason db) i = Some s"
      by (simp add: budget_stop_event_def task_inv_event)
  next
    fix db sched db1 cs
    assume p: "task_inv (txe_uuid e) db \<and> status_of db i = Some s"
      and f: "fold (schedule (task_step e)) sched (db, batch ws (get_ready_tasks db p)) = (db1, cs)"
    have i: "i \<notin> set (get_ready_tasks db p)" using ready_fresh(2) [OF assms(1)] p assms(4) by fastforce
    have inter: "interleaved (task_step e) (db, batch ws (get_ready_tasks db p)) (db1, cs)"
      using interleaved_fold [OF interleaved_refl] f by metis
    have ok: "tasks.all_ok e db (batch ws (get_ready_tasks db p))" using ready_fresh(1) assms(1) p by blast
    have "task_inv (txe_uuid e) db1" using tasks.interleaved_ok [OF inter ok] by (simp add: tasks.all_ok_def)
    moreover have "status_of db1 i = Some s"
    proof -
      have "status_of d' i = Some s" if "q \<in> fst ` set (batch ws (get_ready_tasks db p))" "task_le q d d'" "status_of d i = Some s" for q d d'
      proof -
        have "owner q \<noteq> Some i" using that(1) i by (auto simp: batch_def)
        then show ?thesis using task_leD(4) [OF that(2) _ that(3)] assms(4) by simp
      qed
      then show ?thesis using tasks.interleaved_keeps [OF inter ok, of "\<lambda>d. status_of d i = Some s"] p by blast
    qed
    ultimately show "task_inv (txe_uuid e) db1 \<and> status_of db1 i = Some s" by simp
  qed
  then show ?thesis by simp
qed

section \<open>Properties\<close>

text \<open>C26: The mission loop ends: a coroutine awaits at most eight calls, a round ends when its schedule lets each task go that often, and at
  most as many rounds as the task limit are needed, whatever the agents answer.\<close>

theorem mission_returns:
  assumes "\<And>sched k. sched \<in> set scheds \<Longrightarrow> k < length (list_project_tasks db p) \<Longrightarrow> 8 \<le> count_list sched k"
    and "limit \<le> int (length scheds)"
  shows "snd (mission_loop e ws p limit scheds 0 db) \<noteq> Unfinished"
  by (rule mission_loop_returns [OF assms(1)]) (use assms(2) in simp_all)

theorem mission_returns_witness: "snd (mission_loop example_env ''w'' ''p'' 1 [replicate 8 0 @ replicate 8 1] 0 approved_db) \<noteq> Unfinished"
  by (rule mission_returns) (auto simp: approved_db_def list_project_tasks_def example_task_def less_Suc_eq numeral_eq_Suc)

text \<open>C38: A task deferred for the budget is WAITING, and stays so however long missions on its project run: nothing promotes it or picks it up.\<close>

theorem deferred_task_starves:
  assumes "inj (txe_uuid e)" and "task_inv (txe_uuid e) db" and "map_option tk_status (get_task db i) = Some TS_WAITING"
  shows "map_option tk_status (get_task (fst (mission_loop e ws p limit scheds iterations db)) i) = Some TS_WAITING"
  using mission_keeps_status [OF assms(1,2), of i TS_WAITING] assms(3) by (simp add: status_of_def)

definition waiting_db :: task_db where
  "waiting_db = empty_task_db\<lparr>tb_tasks := [example_task [] False TS_WAITING, example_task ''x'' False TS_READY], tb_draws := 2\<rparr>"

theorem deferred_task_starves_witness:
  "map_option tk_status (get_task (fst (mission_loop example_env ''w'' ''p'' 5 [replicate 8 0] 0 waiting_db)) []) = Some TS_WAITING"
proof (rule deferred_task_starves)
  show "task_inv (txe_uuid example_env) waiting_db"
    by (simp add: task_inv_def approvals_inv_def order_inv_def runs_inv_def waiting_db_def empty_task_db_def example_task_def
        deps_done_def get_dependencies_def)
  show "map_option tk_status (get_task waiting_db []) = Some TS_WAITING"
    by (simp add: waiting_db_def empty_task_db_def example_task_def get_task_def tbl_get_Cons)
qed (rule example_fresh(1))

text \<open>The database without the tasks of the project that are not completed.\<close>

definition only_completed :: "string \<Rightarrow> task_db \<Rightarrow> task_db" where
  "only_completed p db = db\<lparr>tb_tasks := [t \<leftarrow> tb_tasks db. tk_project_id t = p \<longrightarrow> tk_status t = TS_COMPLETED]\<rparr>"

lemma only_completed_tasks: "list_project_tasks (only_completed p db) p = [t \<leftarrow> list_project_tasks db p. tk_status t = TS_COMPLETED]"
proof -
  have "[t \<leftarrow> ts. (tk_project_id t = p \<longrightarrow> tk_status t = TS_COMPLETED) \<and> tk_project_id t = p] =
      [t \<leftarrow> ts. tk_project_id t = p \<and> tk_status t = TS_COMPLETED]" for ts
    by (rule filter_cong) auto
  then show ?thesis by (simp add: list_project_tasks_def only_completed_def conj_commute)
qed

lemma only_completed_views:
  "list_workspace_approvals (only_completed p db) ws s = list_workspace_approvals db ws s"
  "list_project_evidence (only_completed p db) q = list_project_evidence db q"
  "list_project_usage (only_completed p db) q = list_project_usage db q"
  by (simp_all add: only_completed_def list_workspace_approvals_def list_project_evidence_def list_project_usage_def)

lemma only_completed_reports:
  "totals_for_project f (only_completed p db) q = totals_for_project f db q"
  "breakdown_by_agent_and_provider (only_completed p db) q = breakdown_by_agent_and_provider db q"
  "next_actions (only_completed p db) q budget completed failed pending = next_actions db q budget completed failed pending"
  "evidence_details x (only_completed p db) q completed = evidence_details x db q completed"
  unfolding totals_for_project_def breakdown_by_agent_and_provider_def next_actions_def live_research_def evidence_details_def only_completed_views
  by (rule refl)+

lemma unstopped_report:
  assumes "[t \<leftarrow> list_project_tasks db p. tk_status t = TS_FAILED] = []"
  shows "(fst (build_report x e ws p objective None db))\<lparr>mxr_total_retries := 0\<rparr> =
    (fst (build_report x e ws p objective None (only_completed p db)))\<lparr>mxr_total_retries := 0\<rparr>"
proof -
  have "[t \<leftarrow> list_project_tasks (only_completed p db) p. tk_status t = TS_FAILED] = []"
    by (simp add: only_completed_tasks filter_empty_conv)
  then show ?thesis using assms
    by (simp add: build_report_def Let_def only_completed_tasks only_completed_views only_completed_reports final_recommendation_def)
qed

text \<open>C39: A run that stops at its limit of tasks, with no task failed, no approval pending in the workspace and no completed task flagged by its QA, is
  reported COMPLETED whatever it left over: but for the count of retries the report is that of the database from which every task never started, or not
  ended, was deleted, so no section mentions one.\<close>

theorem limit_stop_reported_completed:
  assumes "start_mission m ws p objective db = Inr db1"
    and "mission_loop (mx_exec m) ws p (mx_limit m) scheds 0 db1 = (db2, Limit_Reached)"
    and "list_workspace_approvals db2 ws (Some TA_PENDING) = []"
    and "\<not> (\<exists>t \<in> set (list_project_tasks db2 p). tk_status t = TS_FAILED \<or> tk_status t = TS_COMPLETED \<and> flagged_verdict t)"
  shows "\<exists>db' r. run_objective m ws p objective scheds db = (db', Inr r) \<and> mxr_status r = ''COMPLETED'' \<and>
    length (mxr_what_was_done r) = length [t \<leftarrow> list_project_tasks db2 p. tk_status t = TS_COMPLETED] \<and>
    r\<lparr>mxr_total_retries := 0\<rparr> =
      (fst (build_report (mx_report m) (mx_exec m) ws p objective None (only_completed p db2)))\<lparr>mxr_total_retries := 0\<rparr>"
proof -
  have f: "[t \<leftarrow> list_project_tasks db2 p. tk_status t = TS_FAILED] = []" using assms(4) by (auto simp: filter_empty_conv)
  have g: "\<not> (\<exists>t \<in> set [t \<leftarrow> list_project_tasks db2 p. tk_status t = TS_COMPLETED]. flagged_verdict t)" using assms(4) by auto
  let ?report = "build_report (mx_report m) (mx_exec m) ws p objective None db2"
  have "run_objective m ws p objective scheds db = (snd ?report, Inr (fst ?report))"
    using assms(1,2) by (simp add: run_objective_def case_prod_beta)
  moreover have "mxr_status (fst ?report) = ''COMPLETED''"
      "length (mxr_what_was_done (fst ?report)) = length [t \<leftarrow> list_project_tasks db2 p. tk_status t = TS_COMPLETED]"
    using assms(3) f g by (simp_all add: build_report_def Let_def report_status_def)
  ultimately show ?thesis using unstopped_report [OF f] by blast
qed

text \<open>A mission that may run no task.\<close>

definition example_mission :: mission_env where
  "example_mission = \<lparr>mx_exec = example_env, mx_report = \<lparr>rx_validate = \<lambda>_. None, rx_coverage_line = \<lambda>_. []\<rparr>, mx_limit = 0,
     mx_plan = \<lambda>_. ([], Inr (example_task_plan [''a'']))\<rparr>"

theorem limit_stop_reported_completed_witness:
  "\<exists>db db' r. start_mission example_mission ''w'' ''p'' ''o'' empty_task_db = Inr db \<and> length (list_project_tasks db ''p'') = 2 \<and>
     run_objective example_mission ''w'' ''p'' ''o'' [] empty_task_db = (db', Inr r) \<and> mxr_status r = ''COMPLETED'' \<and>
     length (mxr_what_was_done r) = 0"
proof -
  let ?plan = "example_task_plan [''a'']"
  have "py_strip ''o'' = ''o''" by code_simp
  then have plan: "create_plan (\<lambda>_. Inr ?plan) ''o'' = (Inr ?plan :: string planning_error + execution_plan)"
    using example_task_plan_ok(1) by (simp add: create_plan_def bind_sum_def)
  have v: "valid_tasks (ep_tasks ?plan)" using example_task_plan_ok(1) by (simp add: validate_plan_iff)
  have "\<forall>p \<in> set (ep_tasks ?plan). distinct (tp_dependencies p)" by (simp add: example_task_plan_def example_entry_def)
  then obtain evs where p: "persist_plan example_uuid 0 ''w'' ''p'' ?plan empty_task_db =
      Inr (plan_ids example_uuid (tb_draws empty_task_db) (ep_tasks ?plan), stored_plan example_uuid ''p'' (ep_tasks ?plan) evs empty_task_db)"
    using persist_plan_eq [OF v example_uuid_inj empty_ids_used, of 0 "''w''" "''p''"] by auto
  let ?db = "stored_plan example_uuid ''p'' (ep_tasks ?plan) evs empty_task_db"
  have "record_usage [] 0 ''w'' ''p'' None ''jarvis'' [] empty_task_db = empty_task_db" "txe_clock example_env empty_task_db = 0"
      "txe_uuid example_env = example_uuid" "txe_pricing example_env = []"
    by (simp_all add: record_usage_def empty_task_db_def example_env_def)
  then have start: "start_mission example_mission ''w'' ''p'' ''o'' empty_task_db = Inr ?db"
    using plan p by (simp add: start_mission_def example_mission_def Let_def)
  have rows: "list_project_tasks ?db ''p'' = plan_rows example_uuid ''p'' 0 (ep_tasks ?plan)"
    by (simp add: list_project_tasks_def stored_plan_def example_task_plan_def empty_task_db_def planned_task_def fresh_task_def task_of_plan_def)
  have st: "\<not> (\<exists>t \<in> set (list_project_tasks ?db ''p''). tk_status t = TS_FAILED \<or> tk_status t = TS_COMPLETED \<and> flagged_verdict t)"
      "[t \<leftarrow> list_project_tasks ?db ''p''. tk_status t = TS_COMPLETED] = []"
    unfolding rows using plan_rows_mem [of _ example_uuid "''p''" 0] by (auto simp: filter_empty_conv)
  have pend: "list_workspace_approvals ?db ''w'' (Some TA_PENDING) = []" by (simp add: list_workspace_approvals_def stored_plan_def empty_task_db_def)
  have loop: "mission_loop (mx_exec example_mission) ''w'' ''p'' (mx_limit example_mission) [] 0 ?db = (?db, Limit_Reached)"
    by (subst mission_loop.simps) (simp add: example_mission_def)
  have "length (list_project_tasks ?db ''p'') = 2" unfolding rows by (simp add: example_task_plan_def)
  with start limit_stop_reported_completed [OF start loop pend st(1)] show ?thesis unfolding st(2) list.size(3) by blast
qed

end
