(* ===== verification/Stored_Actions.thy ===== *)
theory Stored_Actions
  imports Durable_Safety Recovery
begin

text \<open>
  The stored actions under workers of \<open>execute_action_durably\<close> and callers of \<open>authorize_retry\<close>
  (\<open>retry_controller.py\<close>) that interleave over one table. The retry controller is the one writer that reopens a failed
  action; its callers read the row first and hand it over, so the row may be stale when it is written.
\<close>

section \<open>Executors and retries\<close>

datatype action_worker = Executor durable_request | Retrier string

datatype action_pc = Executing durable_pc | Retry_Read | Retry_Held action_row | Retry_Ended "retry_error + action" | Retry_Gone

fun worker_start :: "action_worker \<Rightarrow> action_pc" where
  "worker_start (Executor q) = Executing D_Start"
| "worker_start (Retrier i) = Retry_Read"

fun action_step :: "action_worker \<Rightarrow> exec_db \<Rightarrow> action_pc \<Rightarrow> exec_db \<times> action_pc" where
  "action_step (Executor q) db (Executing pc) = map_prod id Executing (durable_step q db pc)"
| "action_step (Retrier i) db Retry_Read = (db, case action_get (x_actions db) i of None \<Rightarrow> Retry_Gone | Some row \<Rightarrow> Retry_Held row)"
| "action_step (Retrier i) db (Retry_Held row) = (case authorize_retry (x_actions db) row of
     Inl e \<Rightarrow> (db, Retry_Ended (Inl e))
   | Inr (t, a) \<Rightarrow> (db\<lparr>x_actions := t\<rparr>, Retry_Ended (Inr a)))"
| "action_step p db pc = (db, pc)"

section \<open>Lemmas\<close>

definition rows_newer :: "action_row list \<Rightarrow> action_row list \<Rightarrow> bool" where
  "rows_newer t t' = (\<forall>i r. action_get t i = Some r \<longrightarrow> (\<exists>r'. action_get t' i = Some r' \<and> (r' = r \<or> ro_version r < ro_version r')))"

lemma rows_newer_refl [simp]: "rows_newer t t"
  by (simp add: rows_newer_def)

lemma rows_newer_trans: "rows_newer t u \<Longrightarrow> rows_newer u v \<Longrightarrow> rows_newer t v"
proof -
  assume n: "rows_newer t u" "rows_newer u v"
  show "rows_newer t v"
    unfolding rows_newer_def
  proof (intro allI impI)
    fix i r assume "action_get t i = Some r"
    then obtain s where s: "action_get u i = Some s" "s = r \<or> ro_version r < ro_version s" using n(1) unfolding rows_newer_def by blast
    obtain r' where "action_get v i = Some r'" "r' = s \<or> ro_version s < ro_version r'" using n(2) s(1) unfolding rows_newer_def by blast
    then show "\<exists>r'. action_get v i = Some r' \<and> (r' = r \<or> ro_version r < ro_version r')" using s(2) by auto
  qed
qed

lemma rows_advanced_newer: "rows_advanced t t' \<Longrightarrow> rows_newer t t'"
  unfolding rows_advanced_def rows_newer_def row_advanced_def by blast

text \<open>A retry holds a row as it was stored; one that ended well left a bounded count.\<close>

fun worker_ok :: "action_worker \<Rightarrow> exec_db \<Rightarrow> action_pc \<Rightarrow> bool" where
  "worker_ok (Executor q) db (Executing pc) = pending_ok db pc"
| "worker_ok (Retrier i) db (Retry_Held row) = (ro_id row = i \<and>
     (\<exists>r. action_get (x_actions db) i = Some r \<and> (r = row \<or> ro_version row < ro_version r)))"
| "worker_ok (Retrier i) db (Retry_Ended (Inr a)) = (a_id a = i \<and> a_retry_count a \<le> a_max_retries a)"
| "worker_ok p db pc = True"

lemma pending_ok_newer:
  assumes "pending_ok db pc" "rows_newer (x_actions db) (x_actions db')"
  shows "pending_ok db' pc"
  using assms(1)
proof (cases "(db, pc)" rule: pending_ok.cases)
  case (1 db0 n v row a k)
  then obtain r where r: "action_get (x_actions db) (a_id a) = Some r" "v \<le> ro_version r" "ro_version r = v \<longrightarrow> \<not> keep_existing r a"
    using assms(1) by auto
  then obtain r' where "action_get (x_actions db') (a_id a) = Some r'" "r' = r \<or> ro_version r < ro_version r'"
    using assms(2) by (auto simp: rows_newer_def)
  then show ?thesis using 1 r assms(1) by auto
qed auto

lemma worker_ok_newer: "worker_ok p db pc \<Longrightarrow> rows_newer (x_actions db) (x_actions db') \<Longrightarrow> worker_ok p db' pc"
proof (cases "(p, db, pc)" rule: worker_ok.cases)
  case (2 i db0 row)
  assume ok: "worker_ok p db pc" and n: "rows_newer (x_actions db) (x_actions db')"
  obtain r where r: "action_get (x_actions db) i = Some r" "r = row \<or> ro_version row < ro_version r" using ok 2 by auto
  then obtain r' where "action_get (x_actions db') i = Some r'" "r' = r \<or> ro_version r < ro_version r'" using n unfolding rows_newer_def by blast
  then show ?thesis using ok 2 r(2) by auto
qed (auto intro: pending_ok_newer)

text \<open>A retry that succeeds writes the row it holds, which was stored until then.\<close>

lemma retry_step:
  assumes "worker_ok (Retrier i) db (Retry_Held row)" "authorize_retry (x_actions db) row = Inr (t, a)"
  shows "action_get (x_actions db) i = Some row \<and> ro_status row \<in> set retry_reentry_sources \<and>
    (\<exists>r'. action_get t i = Some r' \<and> ro_version r' = ro_version row + 1) \<and> (\<forall>j. j \<noteq> i \<longrightarrow> action_get t j = action_get (x_actions db) j) \<and>
    a_id a = i \<and> a_retry_count a \<le> a_max_retries a"
proof -
  note ok = authorize_retry_OkD [OF assms(2)]
  have i: "ro_id row = i" using assms(1) by simp
  obtain r where r: "action_get (x_actions db) i = Some r" "ro_version r = ro_version row"
      "action_get t i = Some ((retry_fields row r)\<lparr>ro_version := ro_version row + 1\<rparr>)"
      "record_to_action ((retry_fields row r)\<lparr>ro_version := ro_version row + 1\<rparr>) = Inr a" using ok(4) i by blast
  then have "r = row" using assms(1) by auto
  moreover have "action_get t j = action_get (x_actions db) j" if "j \<noteq> i" for j
    using action_store.cas_other [of "retry_fields row" j "ro_id row" "x_actions db" "ro_version row"] ok(3) that i by simp
  moreover have "ro_id r = i" using r(1) by (auto simp: action_get_def dest: tbl_get_SomeD)
  ultimately show ?thesis using r ok(1,2) record_to_action_fields [OF r(4)] by (auto simp: retry_fields_def)
qed

lemma action_step_newer:
  assumes "worker_ok p db pc" "action_step p db pc = (db', pc')"
  shows "rows_newer (x_actions db) (x_actions db') \<and> worker_ok p db' pc'"
proof (cases "(p, db, pc)" rule: action_step.cases)
  case (1 q db0 epc)
  obtain d e where s: "durable_step q db epc = (d, e)" by fastforce
  have "pending_ok db epc" using assms(1) 1 by simp
  then show ?thesis using durable_step_advances [OF s] rows_advanced_newer assms(2) 1 s by auto
next
  case (2 i db0)
  then show ?thesis using assms(2) by (auto simp: action_get_def dest: tbl_get_SomeD split: option.splits)
next
  case (3 i db0 row)
  show ?thesis
  proof (cases "authorize_retry (x_actions db) row")
    case (Inl e)
    then show ?thesis using assms(2) 3 by auto
  next
    case (Inr x)
    obtain t a where x: "x = (t, a)" by (cases x)
    have "worker_ok (Retrier i) db (Retry_Held row)" using assms(1) 3 by simp
    note s = retry_step [OF this Inr [unfolded x]]
    have "rows_newer (x_actions db) t"
      unfolding rows_newer_def
    proof (intro allI impI)
      fix j r assume "action_get (x_actions db) j = Some r"
      then show "\<exists>r'. action_get t j = Some r' \<and> (r' = r \<or> ro_version r < ro_version r')" using s by (cases "j = i") auto
    qed
    then show ?thesis using assms(2) 3 Inr x s by auto
  qed
qed (use assms in auto)

interpretation stored_actions: rely_guarantee action_step worker_ok "\<lambda>db db'. rows_newer (x_actions db) (x_actions db')"
proof unfold_locales
  fix q d c d' c'
  assume "worker_ok q d c" "action_step q d c = (d', c')"
  then show "rows_newer (x_actions d) (x_actions d') \<and> worker_ok q d' c'" using action_step_newer by blast
qed (use rows_newer_trans worker_ok_newer in \<open>simp, blast+\<close>)

text \<open>A retry of action \<open>i\<close> was authorized.\<close>

definition retried :: "string \<Rightarrow> (action_worker \<times> action_pc) list \<Rightarrow> bool" where
  "retried i ws = (\<exists>a. (Retrier i, Retry_Ended (Inr a)) \<in> set ws)"

lemma retried_update:
  assumes "retried i ws" "ws ! k = (p, pc)" "action_step p db pc = (db', pc')"
  shows "retried i (ws[k := (p, pc')])"
proof -
  obtain a l where l: "l < length ws" "ws ! l = (Retrier i, Retry_Ended (Inr a))" using assms(1) by (auto simp: retried_def in_set_conv_nth)
  have "ws[k := (p, pc')] ! l = (Retrier i, Retry_Ended (Inr a))" using assms(2,3) l by (cases "l = k") auto
  then show ?thesis unfolding retried_def using l(1) by (metis length_list_update nth_mem)
qed

text \<open>A later state of a row, where retries may have come between.\<close>

definition row_moved :: "bool \<Rightarrow> action_row \<Rightarrow> action_row \<Rightarrow> bool" where
  "row_moved again r r' = ((r' \<noteq> r \<longrightarrow> ro_version r < ro_version r') \<and> (again \<or> row_advanced r r') \<and>
     (ro_status r \<in> terminal_statuses - {AS_FAILED} \<longrightarrow> r' = r))"

lemma row_moved_advanced: "row_moved b r r' \<Longrightarrow> row_advanced r' r'' \<Longrightarrow> row_moved b r r''"
  unfolding row_moved_def row_advanced_def by (cases "r' = r"; cases "r'' = r'") auto

lemma interleaved_moved:
  assumes "interleaved action_step (db, ws) (db', ws')" and "\<And>p pc. (p, pc) \<in> set ws \<Longrightarrow> worker_ok p db pc"
    and "action_get (x_actions db) i = Some r"
  shows "\<exists>r'. action_get (x_actions db') i = Some r' \<and> row_moved (retried i ws') r r'"
  using assms
proof (induction "(db, ws)" "(db', ws')" arbitrary: db' ws' rule: interleaved.induct)
  case interleaved_refl
  then show ?case by (simp add: row_moved_def row_advanced_def)
next
  case (interleaved_step st k)
  obtain d1 ws1 where st: "st = (d1, ws1)" by (cases st)
  obtain r1 where r1: "action_get (x_actions d1) i = Some r1" "row_moved (retried i ws1) r r1"
    using interleaved_step.hyps(2) [OF st interleaved_step.prems] by blast
  have ok: "\<forall>(p, pc) \<in> set ws1. worker_ok p d1 pc"
    using stored_actions.interleaved_le [OF interleaved_step.hyps(1) [unfolded st] interleaved_step.prems(1)] by blast
  show ?case
  proof (cases "k < length ws1")
    case True
    obtain p pc where w: "ws1 ! k = (p, pc)" by (cases "ws1 ! k")
    obtain d2 pc2 where s: "action_step p d1 pc = (d2, pc2)" by fastforce
    have eq: "db' = d2" "ws' = ws1[k := (p, pc2)]" using interleaved_step.hyps(3) True w s by (simp_all add: st schedule_def)
    have "(p, pc) \<in> set ws1" using True w by (metis nth_mem)
    then have okp: "worker_ok p d1 pc" using ok by auto
    have keep: "row_moved (retried i ws1) r r2 \<Longrightarrow> row_moved (retried i ws') r r2" for r2
      using retried_update [OF _ w s, of i] unfolding eq by (auto simp: row_moved_def)
    have adv: ?thesis if m: "rows_advanced (x_actions d1) (x_actions d2)"
    proof -
      obtain r2 where "action_get (x_actions d2) i = Some r2" "row_advanced r1 r2" using m r1(1) by (auto simp: rows_advanced_def)
      then show ?thesis using row_moved_advanced [OF r1(2)] keep unfolding eq by blast
    qed
    show ?thesis
    proof (cases "(p, d1, pc)" rule: action_step.cases)
      case (1 q d0 epc)
      obtain e where "durable_step q d1 epc = (d2, e)" using s 1 by (cases "durable_step q d1 epc") auto
      then show ?thesis using durable_step_advances okp 1 adv by auto
    next
      case (3 j d0 row)
      show ?thesis
      proof (cases "authorize_retry (x_actions d1) row")
        case (Inl e)
        then show ?thesis using s 3 adv by auto
      next
        case (Inr x)
        obtain t a where x: "x = (t, a)" by (cases x)
        have "worker_ok (Retrier j) d1 (Retry_Held row)" using okp 3 by simp
        note rs = retry_step [OF this Inr [unfolded x]]
        have d2: "x_actions d2 = t" "pc2 = Retry_Ended (Inr a)" "p = Retrier j" using s 3 Inr x by auto
        show ?thesis
        proof (cases "j = i")
          case False
          then have "action_get (x_actions d2) i = Some r1" using rs r1(1) d2 by auto
          then show ?thesis using keep [OF r1(2)] eq by blast
        next
          case True
          obtain r2 where r2: "action_get (x_actions d2) i = Some r2" "ro_version r2 = ro_version r1 + 1" "ro_status r1 \<in> set retry_reentry_sources"
            using rs r1(1) d2 True by auto
          have "(Retrier i, Retry_Ended (Inr a)) \<in> set ws'" using True \<open>k < length ws1\<close> d2 eq(2) by (metis set_update_memI)
          then have "retried i ws'" unfolding retried_def by blast
          moreover have "ro_status r \<notin> terminal_statuses - {AS_FAILED}"
            using r1(2) r2(3) by (auto simp: row_moved_def retry_reentry_sources_def terminal_statuses_def)
          moreover have "ro_version r < ro_version r2" using r1(2) r2(2) by (cases "r1 = r") (auto simp: row_moved_def)
          ultimately show ?thesis using r2(1) eq(1) by (auto simp: row_moved_def)
        qed
      qed
    qed (use s adv in auto)
  qed (use interleaved_step.hyps(3) r1 in \<open>simp add: st schedule_simps\<close>)
qed

section \<open>Properties\<close>



end
