(* ===== verification/Spec2Isabelle.thy ===== *)
theory Spec2Isabelle
  imports Prelude Interleaving Json Canonical_Json Json_Parser Sha256 Keyed_Table Schemas Lifecycles Decision_Rules Tool_Registry
    Plan_Validation Permission_Engine Approval_Engine Plan_Reporting Persistence Database Recovery Budget
    Sandbox_FS Tool_Adapters Action_Executor Durable_Executor Durable_Safety Reconciliation Crash_Recovery
    Identity_Registry Provider_Contracts Provider_Routing Agent_Identity Authority Plan_Reconciliation Replan Replan_Apply
    Plan_Orchestrator Orchestration_Safety Orchestration_Results Orchestration_Runs
    Task_Policies Task_Planner Worker_QA Task_Service Mission_Records Task_Executor Task_Examples Task_Safety Task_Mission Task_Plans
    Task_Properties Mission_Properties Stored_Actions
begin

text \<open>
  This development models the two pipelines of the program under \<open>src/\<close>: the decision and action core, the package
  \<open>app/decision_intelligence\<close>, and the task pipeline, the package \<open>app/orchestration\<close> with the services, tools and policies it
  calls; and the tables of \<open>app/database/models.py\<close> and repositories of \<open>app/database/repositories.py\<close> both keep their state in.

  \<^bold>\<open>The program.\<close> Agents propose a Decision. A Decision that passed its readiness gate may produce an
  ActionPlan, a list of Actions with dependencies. Each Action names an action type and a tool. The
  permission engine alone decides which level an Action needs; the levels an agent proposes only show up
  in the reasons. An Action at the level that needs approval waits for a human, whose approval is bound to a
  digest of the Action's material fields, expires and is used once. Actions run in the order of their
  dependencies, one attempt per idempotency key, under a plan lease, and their rows carry a version that
  every update checks. Failures are classified by a typed code, a recovery policy chooses what may follow,
  retries and other costs are charged to budget accounts, and the plan QA and the executive report say what
  was reached.
  The task pipeline turns an objective into a plan of tasks, stores them, and in rounds promotes the tasks whose dependencies are completed
  and runs the ready ones concurrently, each in a session of its own: claim, permission check, approval gate, budget, then the agent in a loop
  with QA. Humans decide approvals meanwhile. A report says what became of the tasks.

  \<^bold>\<open>Theories and sources.\<close>
  \<^item> \<open>Prelude\<close>: the fragment of Python's standard library the sources use (string trimming and joining,
    decimal and hexadecimal numbers, binary64 floats with rounding) and the result type \<open>error + 'a\<close>, whose
    \<open>Inl\<close> is a raised exception.
  \<^item> \<open>Json\<close>, \<open>Canonical_Json\<close>, \<open>Json_Parser\<close>: \<open>json.dumps\<close> and \<open>json.loads\<close>. Printing with sorted keys is
    injective up to the order of keys and float texts, and loading what was printed gives it back. \<open>json_mode\<close> is what
    \<open>model_dump(mode="json")\<close> makes of a payload: floats that are not finite become null.
  \<^item> \<open>Sha256\<close>: \<open>hashlib.sha256\<close> on the UTF-8 encoding. No collision resistance is assumed: theorems that
    need it conclude \<open>or the two texts are a collision\<close>.
  \<^item> \<open>Keyed_Table\<close>: a database table as the list of its rows in insertion order, with the statements the
    repositories issue. The locale \<open>versioned_store\<close> is the contract of optimistic locking; it is
    interpreted for the action, plan and budget repositories.
  \<^item> \<open>Interleaving\<close>: coroutines over one database. A body is a step function, \<open>interleaved\<close> lets any of them go next;
    the locale \<open>rely_guarantee\<close> lifts a property of one step to all interleavings, \<open>ranked_body\<close> proves that a call returns.
    Both are interpreted for budget calls and replanning calls, the first also for durable executions.
  \<^item> \<open>Schemas\<close>: the enums and records of \<open>schemas.py\<close>, with the source's values.
  \<^item> \<open>Lifecycles\<close>: \<open>action_state_machine.py\<close>, \<open>action_plan_state_machine.py\<close> and
    \<open>app/orchestration/state_machine.py\<close> as transition tables. The locale \<open>transition_table\<close> relates the test
    and the raising check of one machine, \<open>forward_only_table\<close> adds that a rank grows; the four machines
    interpret them.
  \<^item> \<open>Decision_Rules\<close>: \<open>decision_rules.py\<close>, the Decision machine, its readiness gate and the boundary to plans.
  \<^item> \<open>Tool_Registry\<close>: \<open>tool_registry.py\<close>, with both name patterns, registration, resolution and the default
    catalog; the locale \<open>tool_catalog\<close> is what the permission engine relies on.
  \<^item> \<open>Plan_Validation\<close>: \<open>plan_validation.py\<close>, the structural checks, the depth-first search for cycles, the
    raising validator and the readiness report.
  \<^item> \<open>Permission_Engine\<close>: \<open>permission_engine.py\<close>, every branch of the evaluation, with the levels as linear
    orders.
  \<^item> \<open>Approval_Engine\<close>: \<open>action_hash.py\<close> and \<open>approval_engine.py\<close>: the canonical digest, creation, decision,
    expiry, validity, authorization and consumption of approvals, and the step relation of a request.
  \<^item> \<open>Plan_Reporting\<close>: \<open>action_eligibility.py\<close>, \<open>plan_qa.py\<close>, \<open>executive_report.py\<close>.
  \<^item> \<open>Persistence\<close>: \<open>execution_persistence.py\<close>, the mappings of \<open>approval_persistence.py\<close> and of
    \<open>action_plan_persistence.py\<close>: rows, truncation, idempotency keys, plan hashes.
  \<^item> \<open>Database\<close>: the approval, plan, action, attempt and result repositories and the persistence functions
    that use them.
  \<^item> \<open>Recovery\<close>: \<open>retry_policy.py\<close>, \<open>recovery_policy.py\<close>, \<open>failure_intelligence.py\<close>, \<open>retry_controller.py\<close>.
  \<^item> \<open>Budget\<close>: \<open>budget.py\<close> with its repositories. One call is a machine whose step is one awaited database
    call, so that calls interleave as the event loop lets them.
  \<^item> \<open>Sandbox_FS\<close>: \<open>sandbox_fs.py\<close>, over a directory tree with symbolic links: \<open>Path.resolve\<close>, the kernel's
    own path walk, \<open>mkdir\<close> and \<open>write_bytes\<close> with the faults a disk can have.
  \<^item> \<open>Tool_Adapters\<close>: \<open>tool_adapters.py\<close>, the registry of adapters and the sandboxed file adapter.
  \<^item> \<open>Action_Executor\<close>: \<open>action_executor.py\<close>, the pipeline of gates, adapter call and verification.
  \<^item> \<open>Durable_Executor\<close>: \<open>durable_action_executor.py\<close> as a machine whose step is one awaited call. A crash is a
    state that is never stepped again. \<open>Durable_Safety\<close> has the invariants of any number of such workers; \<open>Stored_Actions\<close> lets
    callers of \<open>authorize_retry\<close> interleave with them.
  \<^item> \<open>Reconciliation\<close>: \<open>reconciliation.py\<close>. \<open>Crash_Recovery\<close> joins it to the executor: what each crash window
    is brought to. \<open>Plan_Reconciliation\<close>: \<open>plan_reconciliation.py\<close>, the same for a whole plan.
  \<^item> \<open>Replan\<close>: \<open>replan.py\<close> with \<open>ReplanProposalRepository\<close>; \<open>apply_replan\<close> is a machine of awaited calls.
    \<open>Replan_Apply\<close> has what one call achieves and what interleaved calls can and cannot do.
  \<^item> \<open>Plan_Orchestrator\<close>: \<open>action_plan_orchestrator.py\<close> with the failure and recovery-decision repositories, as computations on
    the whole database that may raise. \<open>Orchestration_Safety\<close> frames every part by the rules of the locale \<open>orch_frame\<close>,
    \<open>Orchestration_Results\<close> takes returned runs apart, \<open>Orchestration_Runs\<close> has the properties of whole runs.
  \<^item> \<open>Identity_Registry\<close>: a locale, the contract of registries that never redefine an entry, used by the two next.
  \<^item> \<open>Agent_Identity\<close>: \<open>app/agent_identity/contracts.py\<close> and \<open>registry.py\<close>.
  \<^item> \<open>Provider_Contracts\<close>, \<open>Provider_Routing\<close>: \<open>app/providers\<close>, the contracts, the registry, the catalogue and the router.
  \<^item> \<open>Authority\<close>: \<open>app/authority_contracts/contracts.py\<close> and \<open>algebra.py\<close>; the locale \<open>meet_semilattice_bot\<close> is the contract of the meet.
  \<^item> \<open>Task_Policies\<close>: \<open>app/security/approvals.py\<close>, \<open>permissions.py\<close>, \<open>app/agents/registry.py\<close> and \<open>app/orchestration/budget.py\<close>.
  \<^item> \<open>Task_Planner\<close>: \<open>app/orchestration/planner.py\<close>; its validation accepts exactly the acyclic plans with distinct, known keys.
  \<^item> \<open>Worker_QA\<close>: \<open>app/orchestration/evaluator.py\<close>, the merging of evidence of \<open>app/schemas/evidence.py\<close> and of verdicts of
    \<open>app/security/evidence_qa.py\<close>.
  \<^item> \<open>Task_Service\<close>: the tables and repositories of the task pipeline, \<open>app/services/task_service.py\<close> and \<open>approval_service.py\<close>,
    \<open>app/tools/task_tools.py\<close> and \<open>approval_tools.py\<close>, \<open>app/orchestration/dispatcher.py\<close>. A session that writes back a row it loaded
    writes only the columns it changed (\<open>flush_task\<close>). \<open>Mission_Records\<close>: usage, cost, evidence and memories.
  \<^item> \<open>Task_Executor\<close>: \<open>AgentExecutor\<close> of \<open>app/orchestration/executor.py\<close>, a coroutine per task; \<open>Task_Mission\<close>: \<open>run_objective\<close>
    and \<open>build_report\<close> of the same file.
  \<^item> \<open>Task_Safety\<close>: the invariant of the task pipeline under all interleavings, by the locale \<open>owned_rely_guarantee\<close>, in which every process
    owns one task. \<open>Task_Plans\<close>: what storing a plan makes of it. \<open>Task_Properties\<close>, \<open>Mission_Properties\<close>: single coroutines and whole
    missions, evaluated on \<open>Task_Examples\<close>.

  \<^bold>\<open>What the theorems show.\<close> An approval that is valid for an Action was created for exactly that
  payload as it is dumped (which loses the difference of NaN, infinities and null), was decided by someone else than its requester, and is used at most once, also by the guarded
  UPDATE of the database. The permission decision is the declared policy in outcome, levels, reasons and flags, its authority ignores proposals, and a blocked
  Action never executes. Cycle detection is sound and complete, the readiness report and the raising
  validator agree, and a well-structured plan always can move. A report of completion is true. Leases,
  attempt claims and versioned updates exclude each other. Stored rows load to what was stored, within the
  bounds the code sets, and outside of them the exact loss is proved. No interleaving of budget calls
  overspends an account or, for whole amounts, loses a charge the ledger recorded; the one accounting error that can occur is exhibited. Retries are bounded.
  The file adapter stays inside the sandbox and never overwrites. Nothing executes without authorization, a
  key is executed at most once over all workers and crashes, a stored action goes back only by an authorized, bounded retry, and every
  call returns. Recovery executes nothing, advises a retry only when no effect is visible, completes only
  what was verified, and closes every crash window except two, which are proved to stay open; a plan's reconciliation
  reports exactly what the calls on its actions answered, and so hides one kind of blocked action. Replanning grants no authority under any interleaving,
  an undisturbed call achieves what it reports, and two calls can undo each other.
  A run of the orchestrator ends in a completed plan only when every current action is, rewrites nothing that is settled, respects and returns the plan's lease;
  the reason it gives for stopping can contradict the plan, an approved action is never resumed, and a denied budget is recorded twice. Routing picks the least admissible model,
  registered agents satisfy the identity policy for good, and combining authority never exceeds either part.
  In the task pipeline, an agent is only ever run on a task whose dependencies are completed and, if the task needs one, with an approval
  granted, under all interleavings of human decisions, promotions and executors, as long as no task has two executors at once: the claim of a task is
  no compare-and-set, and a second executor is proved to run the agent with the approval pending. The gate itself asks only whether an
  approval was requested, so a status set by an agent's tool gets round it. A stored plan never blocks itself, and a plan that passes the
  validation is stored unless it repeats a dependency. Missions end. An agent that ends its work overwrites a cancellation, a deferred task is
  never taken up again, and a run that stops at its limit is reported completed. The QA loop keeps to its retries and its budget and reports the model's verdict as the checks leave it, except
  that a gap resolved once justifies every later retry.

  \<^bold>\<open>Bounds and fuel.\<close> The search for cycles recurses at most once per action, and \<open>Suc\<close> of their number
  is proved enough. \<open>json_loads\<close> consumes a character per level, so the length of the text plus one is enough.
  A budget call performs at most 18 awaited calls, because five attempts are allowed; the rank of its state
  proves that it has then returned; a durable execution performs at most 84, by the same kind of rank. The orchestrator's loop
  takes the caller's number of steps as its fuel, as the source does. The planner's search is given \<open>Suc\<close> of the number of tasks, which is
  proved enough. A coroutine of the task pipeline awaits at most eight calls; the mission loop recurses over the schedules of its rounds and is
  proved never to run out of them when there are as many as the task limit.
  The kernel follows at most 40 links, as Linux does. SHA-256 runs over the blocks of its input by structural recursion.

  \<^bold>\<open>Conventions.\<close> Times are integers in microseconds. Clocks, random identifiers and the callables passed in
  by callers are parameters. Pydantic validation at construction is a guard of the operation that
  constructs. Log output, docstrings and the wording of free-text diagnostics that no code reads are
  left out. A table UPDATE is one atomic step, as SQLite executes a single statement.

  \<^bold>\<open>Not modelled\<close>, and why: agents, providers and research heuristics, which are prompts and calls to
  external models; HTTP routes, settings, migrations and scripts, which are I/O and configuration.
  Audit events are written by every part and read by none of the parts modelled here; those of the decision and action core are left out.
  In the task pipeline what an agent answers, the compaction of its input, the checks of the wording of its output, the canonical form of
  a URL, the database's sum of floats and the validation of a stored evidence item are parameters; the report's text rendering, the working
  memory and the usage collectors are left out. Of the providers, requests, responses, their digests and the test provider are not modelled.
\<close>

end
